(* ===== verification/Prelude.thy ===== *)
theory Prelude
  imports Complex_Main "HOL-Library.Word" "HOL-Library.Log_Nat"
begin

text \<open>
  Shared vocabulary of the development: the \<open>accepted\<close>/\<open>rejected\<close> results every operation of
  packages/domain returns, the guard combinators its early returns are written with, the
  arithmetic of JavaScript numbers on integer values, and generic lemmas on lists.
\<close>

section \<open>Results and guards\<close>

text \<open>
  Each operation of the packages returns \<open>{ accepted: true, value }\<close> or
  \<open>{ accepted: false, code }\<close>. Here that is a sum: \<open>Inr\<close> the value, \<open>Inl\<close> the code.
\<close>

abbreviation accepted :: "'a \<Rightarrow> 'e + 'a" where
  "accepted \<equiv> Inr"

abbreviation rejected :: "'e \<Rightarrow> 'e + 'a" where
  "rejected \<equiv> Inl"

text \<open>\<open>const x = parse(input); if (!x) return rejected(e);\<close>\<close>

definition require :: "'e \<Rightarrow> 'a option \<Rightarrow> ('a \<Rightarrow> 'e + 'b) \<Rightarrow> 'e + 'b" where
  "require e x k = (case x of None \<Rightarrow> rejected e | Some v \<Rightarrow> k v)"

text \<open>\<open>if (condition) return rejected(e);\<close>\<close>

definition reject_if :: "bool \<Rightarrow> 'e \<Rightarrow> 'e + 'b \<Rightarrow> 'e + 'b" where
  "reject_if b e k = (if b then rejected e else k)"

text \<open>\<open>const r = operation(); if (!r.accepted) return r;\<close>\<close>

definition and_then :: "'e + 'a \<Rightarrow> ('a \<Rightarrow> 'e + 'b) \<Rightarrow> 'e + 'b" where
  "and_then r k = (case r of Inl e \<Rightarrow> rejected e | Inr v \<Rightarrow> k v)"

text \<open>An optional input: absent stays absent, present must parse.\<close>

definition optional :: "('a \<Rightarrow> 'b option) \<Rightarrow> 'a option \<Rightarrow> 'b option option" where
  "optional p x = (case x of None \<Rightarrow> Some None | Some v \<Rightarrow> map_option Some (p v))"

named_theorems result_simps "when a guarded operation accepts or rejects"

lemma require_Some [result_simps]: "require e (Some v) k = k v"
  by (simp add: require_def)

lemma require_None [result_simps]: "require e None k = rejected e"
  by (simp add: require_def)

lemma require_accepted [result_simps]:
  "require e x k = Inr v \<longleftrightarrow> (\<exists>a. x = Some a \<and> k a = Inr v)"
  by (cases x) (simp_all add: require_def)

lemma reject_if_accepted [result_simps]:
  "reject_if b e k = Inr v \<longleftrightarrow> \<not> b \<and> k = Inr v"
  by (simp add: reject_if_def)

lemma reject_if_True [result_simps]: "reject_if True e k = rejected e"
  by (simp add: reject_if_def)

lemma reject_if_False [result_simps]: "reject_if False e k = k"
  by (simp add: reject_if_def)

lemma and_then_accepted [result_simps]:
  "and_then r k = Inr v \<longleftrightarrow> (\<exists>a. r = Inr a \<and> k a = Inr v)"
  by (cases r) (simp_all add: and_then_def)

lemma and_then_Inr [result_simps]: "and_then (Inr a) k = k a"
  by (simp add: and_then_def)

lemma and_then_Inl [result_simps]: "and_then (Inl e) k = Inl e"
  by (simp add: and_then_def)

lemma require_rejected:
  "require e x k = Inl c \<longleftrightarrow> (x = None \<and> c = e) \<or> (\<exists>a. x = Some a \<and> k a = Inl c)"
  by (cases x) (auto simp: require_def)

lemma reject_if_rejected:
  "reject_if b e k = Inl c \<longleftrightarrow> (b \<and> c = e) \<or> (\<not> b \<and> k = Inl c)"
  by (auto simp: reject_if_def)

lemmas rejection_simps = require_rejected reject_if_rejected

lemma optional_None [simp]: "optional p None = Some None"
  by (simp add: optional_def)

lemma optional_Some_iff:
  "optional p x = Some y \<longleftrightarrow>
     (x = None \<and> y = None) \<or> (\<exists>v w. x = Some v \<and> p v = Some w \<and> y = Some w)"
  by (cases x) (auto simp: optional_def)

section \<open>Numbers: integer values of IEEE doubles\<close>

text \<open>
  A JavaScript number is a double. The operations modelled here compute on integer values only
  (revisions, sequence numbers, byte and usage counts); an integer result is rounded to the
  nearest double, ties to even, so sums are exact up to \<open>2 ^ 53\<close> and absorb small
  increments beyond it.
\<close>

definition max_safe_integer :: int where
  "max_safe_integer = 9007199254740991"

definition round_double :: "int \<Rightarrow> int" where
  "round_double n =
     (if \<bar>n\<bar> \<le> 9007199254740992 then n
      else let k = nat (bitlen \<bar>n\<bar> - 53); q = \<bar>n\<bar> div 2 ^ k; r = \<bar>n\<bar> mod 2 ^ k; h = 2 ^ (k - 1);
               q' = (if r < h \<or> (r = h \<and> even q) then q else q + 1)
           in sgn n * (q' * 2 ^ k))"

definition js_add :: "int \<Rightarrow> int \<Rightarrow> int" where
  "js_add a b = round_double (a + b)"

lemma round_double_exact [simp]: "\<bar>n\<bar> \<le> 9007199254740992 \<Longrightarrow> round_double n = n"
  by (simp add: round_double_def)

lemma js_add_exact: "\<bar>a + b\<bar> \<le> 9007199254740992 \<Longrightarrow> js_add a b = a + b"
  by (simp add: js_add_def)

lemma round_double_large: "9007199254740992 \<le> n \<Longrightarrow> 9007199254740992 \<le> round_double n"
proof (cases "n = 9007199254740992")
  case True
  then show ?thesis by simp
next
  case False
  assume "9007199254740992 \<le> n"
  with False have n: "9007199254740992 < n" by simp
  define k where "k = nat (bitlen n - 53)"
  have npos: "0 < n" using n by simp
  have bl: "2 ^ nat (bitlen n - 1) \<le> n" "n < 2 ^ nat (bitlen n)"
    using bitlen_bounds [of n] npos by auto
  have big: "53 < bitlen n"
  proof (rule ccontr)
    assume "\<not> 53 < bitlen n"
    then have "nat (bitlen n) \<le> 53" by simp
    then have "(2::int) ^ nat (bitlen n) \<le> 2 ^ 53" by (intro power_increasing) auto
    with bl(2) n show False by simp
  qed
  have e: "nat (bitlen n - 1) = 52 + k" and kpos: "0 < k" using big by (auto simp: k_def)
  define q where "q = n div 2 ^ k"
  have "2 ^ 52 * 2 ^ k \<le> n" using bl(1) e by (simp add: power_add)
  then have q: "2 ^ 52 \<le> q"
    unfolding q_def by (metis div_mult_self_is_m zdiv_mono1 zero_less_numeral zero_less_power
        nonzero_mult_div_cancel_right power_not_zero zero_neq_numeral)
  have k2: "(2::int) \<le> 2 ^ k" using kpos by (cases k) auto
  have step: "9007199254740992 \<le> q' * 2 ^ k" if "q \<le> q'" for q' :: int
  proof -
    have "(4503599627370496::int) * 2 \<le> q' * 2 ^ k"
      using q that k2 by (intro mult_mono) auto
    then show ?thesis by simp
  qed
  have "round_double n =
      (if n mod 2 ^ k < 2 ^ (k - 1) \<or> (n mod 2 ^ k = 2 ^ (k - 1) \<and> even q) then q else q + 1) * 2 ^ k"
    using n by (simp add: round_double_def Let_def k_def q_def)
  then show ?thesis using step [of q] step [of "q + 1"] by auto
qed

text \<open>Comparing a rounded sum with a safe bound is comparing the exact sum.\<close>

lemma js_add_less_iff:
  assumes "l \<le> max_safe_integer" and "- 9007199254740992 \<le> a + b"
  shows "l < js_add a b \<longleftrightarrow> l < a + b"
proof (cases "a + b \<le> 9007199254740992")
  case True
  with assms show ?thesis by (simp add: js_add_exact)
next
  case False
  with round_double_large [of "a + b"] assms show ?thesis
    by (simp add: js_add_def max_safe_integer_def)
qed

text \<open>\<open>revision + 1\<close>.\<close>

abbreviation js_succ :: "int \<Rightarrow> int" where
  "js_succ n \<equiv> js_add n 1"

lemma js_succ_exact: "0 \<le> n \<Longrightarrow> n \<le> max_safe_integer \<Longrightarrow> js_succ n = n + 1"
  by (simp add: js_add_exact max_safe_integer_def)

lemma js_succ_bounds:
  assumes "1 \<le> n" "n \<le> 9007199254740992"
  shows "1 \<le> js_succ n \<and> js_succ n \<le> 9007199254740992"
proof (cases "n = 9007199254740992")
  case True
  have "js_succ 9007199254740992 = 9007199254740992" by code_simp
  with True show ?thesis by simp
next
  case False
  with assms show ?thesis by (simp add: js_add_exact)
qed

section \<open>Lists\<close>

text \<open>\<open>[...new Set(xs)]\<close>: the first occurrence of each value, in order.\<close>

fun dedup_from :: "'a list \<Rightarrow> 'a list \<Rightarrow> 'a list" where
  "dedup_from seen [] = []"
| "dedup_from seen (x # xs) =
     (if x \<in> set seen then dedup_from seen xs else x # dedup_from (x # seen) xs)"

definition dedup :: "'a list \<Rightarrow> 'a list" where
  "dedup xs = dedup_from [] xs"

lemma set_dedup_from: "set (dedup_from seen xs) = set xs - set seen"
  by (induction seen xs rule: dedup_from.induct) auto

lemma distinct_dedup_from: "distinct (dedup_from seen xs)"
  by (induction seen xs rule: dedup_from.induct) (auto simp: set_dedup_from)

lemma set_dedup [simp]: "set (dedup xs) = set xs"
  by (simp add: dedup_def set_dedup_from)

lemma distinct_dedup [simp]: "distinct (dedup xs)"
  by (simp add: dedup_def distinct_dedup_from)

lemma dedup_from_id: "distinct xs \<Longrightarrow> set xs \<inter> set seen = {} \<Longrightarrow> dedup_from seen xs = xs"
  by (induction seen xs rule: dedup_from.induct) auto

lemma dedup_id: "distinct xs \<Longrightarrow> dedup xs = xs"
  by (simp add: dedup_def dedup_from_id)

lemma length_dedup_from: "length (dedup_from seen xs) \<le> length xs"
  by (induction seen xs rule: dedup_from.induct) auto

lemma length_dedup: "length (dedup xs) \<le> length xs"
  by (simp add: dedup_def length_dedup_from)

text \<open>\<open>xs.map(parse)\<close> followed by the test that every result is defined.\<close>

fun parse_all :: "('a \<Rightarrow> 'b option) \<Rightarrow> 'a list \<Rightarrow> 'b list option" where
  "parse_all p [] = Some []"
| "parse_all p (x # xs) =
     (case p x of None \<Rightarrow> None | Some y \<Rightarrow> map_option (\<lambda>ys. y # ys) (parse_all p xs))"

lemma parse_all_Some:
  "parse_all p xs = Some ys \<longleftrightarrow> list_all2 (\<lambda>x y. p x = Some y) xs ys"
proof (induction xs arbitrary: ys)
  case Nil
  then show ?case by auto
next
  case (Cons x xs)
  then show ?case by (cases ys) (auto split: option.splits)
qed

lemma length_parse_all: "parse_all p xs = Some ys \<Longrightarrow> length ys = length xs"
  by (simp add: parse_all_Some list_all2_lengthD)

text \<open>A loop that parses every element, in order, and returns the first rejection.\<close>

fun map_result :: "('a \<Rightarrow> 'e + 'b) \<Rightarrow> 'a list \<Rightarrow> 'e + 'b list" where
  "map_result f [] = accepted []"
| "map_result f (x # xs) = and_then (f x) (\<lambda>y. and_then (map_result f xs) (\<lambda>ys. accepted (y # ys)))"

lemma map_result_accepted: "map_result f xs = Inr ys \<longleftrightarrow> list_all2 (\<lambda>x y. f x = Inr y) xs ys"
  by (induction xs arbitrary: ys) (auto simp: result_simps list_all2_Cons1)

text \<open>\<open>xs.find(P)\<close> returns the first element that satisfies the test.\<close>

lemma find_SomeD: "List.find P xs = Some x \<Longrightarrow> x \<in> set xs \<and> P x"
  by (auto simp: find_Some_iff in_set_conv_nth)

lemma find_None_notin: "List.find P xs = None \<Longrightarrow> x \<in> set xs \<Longrightarrow> \<not> P x"
  by (auto simp: find_None_iff)

end
