(* ===== verification/JsValue.thy ===== *)
theory JsValue
  imports Prelude
begin

text \<open>
  JavaScript values as the packages receive them: the type \<open>unknown\<close> of the sources. Strings are
  sequences of UTF-16 code units, numbers are doubles (finite values as rationals), objects are
  their own enumerable properties in insertion order. Values with behaviour (functions, getters,
  proxies, symbols) do not occur in the JSON-like inputs the operations take and are left out.
\<close>

section \<open>Strings\<close>

type_synonym jsstr = "16 word list"

text \<open>A source literal: every character of the literals used is ASCII.\<close>

definition js :: "string \<Rightarrow> jsstr" where
  "js s = map of_char s"

lemma of_char_16_inj: "inj (of_char :: char \<Rightarrow> 16 word)"
proof (rule injI)
  fix c d :: char
  assume "(of_char c :: 16 word) = of_char d"
  then have "unat (of_char c :: 16 word) = unat (of_char d :: 16 word)" by simp
  then have "unat (of_nat (of_char c) :: 16 word) = unat (of_nat (of_char d) :: 16 word)"
    by (simp only: of_nat_of_char)
  moreover have "of_char c < (256::nat)" "of_char d < (256::nat)" by simp_all
  ultimately show "c = d" by (simp add: unat_of_nat)
qed

lemma js_inject [simp]: "js s = js t \<longleftrightarrow> s = t"
  by (simp add: js_def inj_map_eq_map of_char_16_inj)

lemma js_Nil [simp]: "js [] = []"
  by (simp add: js_def)

lemma js_Cons: "js (c # s) = of_char c # js s"
  by (simp add: js_def)

lemma js_append: "js (s @ t) = js s @ js t"
  by (simp add: js_def)

lemma js_eq_Nil [simp]: "js s = [] \<longleftrightarrow> s = []"
  by (simp add: js_def)

lemma Nil_eq_js [simp]: "[] = js s \<longleftrightarrow> s = []"
  by (auto simp: js_def)

lemma length_js [simp]: "length (js s) = length s"
  by (simp add: js_def)

section \<open>Values\<close>

datatype jsnum = NaN | PosInfinity | NegInfinity | Finite rat

text \<open>The properties of an object are listed in the order in which \<open>Object.keys\<close> enumerates them.\<close>

datatype jsval =
    Undefined
  | Null
  | Bool bool
  | Num jsnum
  | Str jsstr
  | Arr "jsval list"
  | Obj "(jsstr \<times> jsval) list"

abbreviation int_num :: "int \<Rightarrow> jsval" where
  "int_num n \<equiv> Num (Finite (of_int n))"

text \<open>\<open>typeof input === 'object' && input !== null && !Array.isArray(input)\<close>\<close>

fun isRecord :: "jsval \<Rightarrow> bool" where
  "isRecord (Obj _) = True"
| "isRecord _ = False"

text \<open>\<open>input && typeof input === 'object'\<close>\<close>

fun object_like :: "jsval \<Rightarrow> bool" where
  "object_like (Obj _) = True"
| "object_like (Arr _) = True"
| "object_like _ = False"

fun own_keys :: "jsval \<Rightarrow> jsstr list" where
  "own_keys (Obj ps) = map fst ps"
| "own_keys _ = []"

text \<open>\<open>input['key']\<close>\<close>

fun field :: "jsval \<Rightarrow> string \<Rightarrow> jsval" where
  "field (Obj ps) k = (case map_of ps (js k) of None \<Rightarrow> Undefined | Some v \<Rightarrow> v)"
| "field _ k = Undefined"

text \<open>\<open>hasExactKeys\<close>: the sorted lists of keys are equal; keys of an object are distinct.\<close>

definition hasExactKeys :: "jsval \<Rightarrow> string list \<Rightarrow> bool" where
  "hasExactKeys v ks \<longleftrightarrow>
     length (own_keys v) = length ks \<and> set (own_keys v) = js ` set ks"

fun as_string :: "jsval \<Rightarrow> jsstr option" where
  "as_string (Str s) = Some s"
| "as_string _ = None"

fun as_bool :: "jsval \<Rightarrow> bool option" where
  "as_bool (Bool b) = Some b"
| "as_bool _ = None"

fun as_array :: "jsval \<Rightarrow> jsval list option" where
  "as_array (Arr vs) = Some vs"
| "as_array _ = None"

text \<open>\<open>input === undefined ? undefined : input\<close>\<close>

fun defined_value :: "jsval \<Rightarrow> jsval option" where
  "defined_value Undefined = None"
| "defined_value v = Some v"

text \<open>\<open>input ?? default\<close>\<close>

definition nullish :: "jsval \<Rightarrow> jsval \<Rightarrow> jsval" where
  "nullish v d = (if v = Undefined \<or> v = Null then d else v)"

text \<open>\<open>Number.isSafeInteger\<close>, with the integer it recognises.\<close>

fun safe_integer :: "jsval \<Rightarrow> int option" where
  "safe_integer (Num (Finite r)) =
     (if of_int \<lfloor>r\<rfloor> = r \<and> \<bar>\<lfloor>r\<rfloor>\<bar> \<le> max_safe_integer then Some \<lfloor>r\<rfloor> else None)"
| "safe_integer _ = None"

text \<open>\<open>Number.isSafeInteger(input) && input >= lo && input <= hi\<close>\<close>

definition safe_integer_from :: "int \<Rightarrow> jsval \<Rightarrow> int option" where
  "safe_integer_from lo v =
     (case safe_integer v of None \<Rightarrow> None | Some n \<Rightarrow> if lo \<le> n then Some n else None)"

definition safe_integer_within :: "int \<Rightarrow> int \<Rightarrow> jsval \<Rightarrow> int option" where
  "safe_integer_within lo hi v =
     (case safe_integer v of None \<Rightarrow> None | Some n \<Rightarrow> if lo \<le> n \<and> n \<le> hi then Some n else None)"

definition positiveInteger :: "jsval \<Rightarrow> int option" where
  "positiveInteger v = safe_integer_from 1 v"

text \<open>\<open>input === n\<close> for a number \<open>n\<close> of a typed record.\<close>

definition is_int :: "jsval \<Rightarrow> int \<Rightarrow> bool" where
  "is_int v n \<longleftrightarrow> v = int_num n"

text \<open>A closed vocabulary: the input is one of the literals of the table.\<close>

definition one_of :: "(string \<times> 'a) list \<Rightarrow> jsval \<Rightarrow> 'a option" where
  "one_of table v =
     (case v of Str s \<Rightarrow> map_of (map (\<lambda>(k, x). (js k, x)) table) s | _ \<Rightarrow> None)"

lemma field_Obj_Nil [simp]: "field (Obj []) k = Undefined"
  by simp

lemma field_Obj_Cons [simp]:
  "field (Obj ((key, v) # ps)) k = (if key = js k then v else field (Obj ps) k)"
  by simp

declare field.simps(1) [simp del]

lemma safe_integer_bounds:
  "safe_integer v = Some n \<Longrightarrow> - max_safe_integer \<le> n \<and> n \<le> max_safe_integer \<and> v = int_num n"
  by (cases v rule: safe_integer.cases) (auto split: if_splits)

lemma safe_integer_int_num [simp]:
  "safe_integer (int_num n) = (if \<bar>n\<bar> \<le> max_safe_integer then Some n else None)"
  by simp

lemma safe_integer_literal [simp]:
  "safe_integer (Num (Finite 0)) = Some 0"
  "safe_integer (Num (Finite 1)) = Some 1"
  "safe_integer (Num (Finite (numeral k))) =
     (if numeral k \<le> max_safe_integer then Some (numeral k) else None)"
  using safe_integer_int_num [of 0] safe_integer_int_num [of 1] safe_integer_int_num [of "numeral k"]
  by (simp_all add: max_safe_integer_def del: safe_integer_int_num)

declare safe_integer.simps(1) [simp del]

lemma safe_integer_from_Some:
  "safe_integer_from lo v = Some n \<longleftrightarrow> safe_integer v = Some n \<and> lo \<le> n"
  by (auto simp: safe_integer_from_def split: option.splits)

lemma safe_integer_within_Some:
  "safe_integer_within lo hi v = Some n \<longleftrightarrow> safe_integer v = Some n \<and> lo \<le> n \<and> n \<le> hi"
  by (auto simp: safe_integer_within_def split: option.splits)

lemma positiveInteger_Some:
  "positiveInteger v = Some n \<longleftrightarrow> safe_integer v = Some n \<and> 1 \<le> n"
  by (simp add: positiveInteger_def safe_integer_from_Some)

lemma positiveInteger_bounds:
  "positiveInteger v = Some n \<Longrightarrow> 1 \<le> n \<and> n \<le> max_safe_integer"
  by (auto simp: positiveInteger_Some dest: safe_integer_bounds)

lemma positiveInteger_int_num [simp]:
  "positiveInteger (int_num n) = (if 1 \<le> n \<and> n \<le> max_safe_integer then Some n else None)"
  by (auto simp: positiveInteger_def safe_integer_from_def)

lemma positiveInteger_literal [simp]:
  "positiveInteger (Num (Finite 1)) = Some 1"
  "positiveInteger (Num (Finite (numeral k))) =
     (if numeral k \<le> max_safe_integer then Some (numeral k) else None)"
  by (simp_all add: positiveInteger_def safe_integer_from_def max_safe_integer_def)

lemma one_of_Str [simp]: "one_of table (Str (js s)) = map_of table s"
proof -
  have "map_of (map (\<lambda>(k, x). (js k, x)) table) (js s) = map_of table s"
    by (induction table) auto
  then show ?thesis by (simp add: one_of_def)
qed

section \<open>Parameters: what the sources rely on and do not define\<close>

text \<open>
  \<^item> \<open>uuid_format\<close>, \<open>date_time_format\<close>: the string formats \<open>uuid\<close> and \<open>date-time\<close> of the
    third-party ajv-formats package, used by the generated contract validators;
  \<^item> \<open>nfc\<close>: \<open>String.prototype.normalize('NFC')\<close>, i.e. the Unicode tables of the engine;
  \<^item> \<open>other_date\<close>: what the engine's \<open>Date.parse\<close> does on a string that is not a valid
    instance of the ECMAScript date-time format (implementation-defined; \<open>None\<close> is \<open>NaN\<close>);
  \<^item> \<open>lower_case\<close>, \<open>to_upper\<close>: \<open>String.prototype.toLowerCase\<close> and \<open>toUpperCase\<close> on arbitrary text,
    again Unicode tables;
  \<^item> \<open>collation\<close>: the place of a string in the engine's collation order, which is what
    \<open>localeCompare\<close> compares (strings of equal rank compare as equal);
  \<^item> \<open>number_text\<close>: \<open>Number.prototype.toString\<close> on fractions and on numbers beyond the safe integers.
\<close>

record env =
  uuid_format :: "jsstr \<Rightarrow> bool"
  date_time_format :: "jsstr \<Rightarrow> bool"
  nfc :: "jsstr \<Rightarrow> jsstr"
  other_date :: "jsstr \<Rightarrow> int option"
  lower_case :: "jsstr \<Rightarrow> jsstr"
  to_upper :: "jsstr \<Rightarrow> jsstr"
  collation :: "jsstr \<Rightarrow> rat"
  number_text :: "rat \<Rightarrow> jsstr"

section \<open>Character classes and bounded text\<close>

definition in_range :: "nat \<Rightarrow> nat \<Rightarrow> 16 word \<Rightarrow> bool" where
  "in_range lo hi c \<longleftrightarrow> lo \<le> unat c \<and> unat c \<le> hi"

definition is_char :: "char \<Rightarrow> 16 word \<Rightarrow> bool" where
  "is_char ch c \<longleftrightarrow> c = of_char ch"

definition digit :: "16 word \<Rightarrow> bool" where
  "digit c \<longleftrightarrow> in_range 48 57 c"

definition lower :: "16 word \<Rightarrow> bool" where
  "lower c \<longleftrightarrow> in_range 97 122 c"

definition upper :: "16 word \<Rightarrow> bool" where
  "upper c \<longleftrightarrow> in_range 65 90 c"

text \<open>\<open>[0-9a-f]\<close> and its case-insensitive form\<close>

definition lower_hex :: "16 word \<Rightarrow> bool" where
  "lower_hex c \<longleftrightarrow> digit c \<or> in_range 97 102 c"

definition any_hex :: "16 word \<Rightarrow> bool" where
  "any_hex c \<longleftrightarrow> lower_hex c \<or> in_range 65 70 c"

text \<open>\<open>\p{Cc}\<close>\<close>

definition control :: "16 word \<Rightarrow> bool" where
  "control c \<longleftrightarrow> in_range 0 31 c \<or> in_range 127 159 c"

text \<open>White space and line terminators, what \<open>trim\<close> removes and \<open>\s\<close> matches.\<close>

definition whitespace :: "16 word \<Rightarrow> bool" where
  "whitespace c \<longleftrightarrow>
     in_range 9 13 c \<or> unat c \<in> {32, 160, 5760, 8232, 8233, 8239, 8287, 12288, 65279}
     \<or> in_range 8192 8202 c"

definition trim :: "jsstr \<Rightarrow> jsstr" where
  "trim s = rev (dropWhile whitespace (rev (dropWhile whitespace s)))"

text \<open>\<open>toLowerCase\<close> on the ASCII strings it is applied to after a pattern test.\<close>

definition ascii_lower :: "jsstr \<Rightarrow> jsstr" where
  "ascii_lower s = map (\<lambda>c. if upper c then c + 32 else c) s"

definition ascii_upper :: "jsstr \<Rightarrow> jsstr" where
  "ascii_upper s = map (\<lambda>c. if lower c then c - 32 else c) s"

text \<open>
  \<open>function text(input, maxLength)\<close>, the same in every module that has it.
\<close>

definition text_value :: "env \<Rightarrow> jsval \<Rightarrow> nat \<Rightarrow> jsstr option" where
  "text_value E v maxLength =
     (case v of
        Str s \<Rightarrow>
          if s = [] \<or> length s > maxLength then None
          else if list_ex control s then None
          else let normalized = trim (nfc E s) in
            if normalized \<noteq> [] \<and> length normalized \<le> maxLength then Some normalized else None
      | _ \<Rightarrow> None)"

text \<open>\<open>function hash(input)\<close>: 64 lower-case hexadecimal digits.\<close>

definition sha256_hex :: "jsval \<Rightarrow> jsstr option" where
  "sha256_hex v =
     (case v of Str s \<Rightarrow> if length s = 64 \<and> list_all lower_hex s then Some s else None | _ \<Rightarrow> None)"

lemma text_value_bounds:
  "text_value E v n = Some s \<Longrightarrow> s \<noteq> [] \<and> length s \<le> n"
  by (auto simp: text_value_def Let_def split: jsval.splits if_splits)

lemma sha256_hex_Some:
  "sha256_hex v = Some s \<longleftrightarrow> v = Str s \<and> length s = 64 \<and> list_all lower_hex s"
  by (auto simp: sha256_hex_def split: jsval.splits)

lemma dropWhile_rev_dropWhile:
  assumes "dropWhile P t = t"
  shows "dropWhile P (rev (dropWhile P (rev t))) = rev (dropWhile P (rev t))"
proof (cases "rev (dropWhile P (rev t))")
  case Nil
  show ?thesis by (simp only: Nil dropWhile.simps)
next
  case (Cons b bs)
  have "rev t = takeWhile P (rev t) @ dropWhile P (rev t)" by simp
  then have "rev (rev t) = rev (dropWhile P (rev t)) @ rev (takeWhile P (rev t))"
    by (metis rev_append)
  then have t: "t = b # bs @ rev (takeWhile P (rev t))" using Cons by simp
  then have "t \<noteq> []" "hd t = b" by (metis list.distinct(1)) (metis t list.sel(1))
  then have "\<not> P b" using hd_dropWhile [of P t] assms by simp
  then show ?thesis by (simp only: Cons dropWhile.simps if_False)
qed

lemma trim_idem [simp]: "trim (trim s) = trim s"
  by (simp add: trim_def dropWhile_rev_dropWhile dropWhile_idem)

end
