(* ===== verification/IsoDate.thy ===== *)
theory IsoDate
  imports JsValue
begin

text \<open>
  \<open>Date.parse\<close>: milliseconds since the epoch. The ECMAScript date-time format with an
  explicit UTC designator is computed (with or without milliseconds, as the services emit it);
  any other string goes to the engine's own rules, a parameter. \<open>None\<close> is \<open>NaN\<close>,
  and every comparison with \<open>NaN\<close> is false.
\<close>

definition digit_value :: "16 word \<Rightarrow> int" where
  "digit_value c = int (unat c) - 48"

definition decimal :: "jsstr \<Rightarrow> int" where
  "decimal s = foldl (\<lambda>n c. 10 * n + digit_value c) 0 s"

text \<open>The day number of the first of January, and of a month within its year.\<close>

definition day_from_year :: "int \<Rightarrow> int" where
  "day_from_year y =
     365 * (y - 1970) + (y - 1969) div 4 - (y - 1901) div 100 + (y - 1601) div 400"

definition leap_year :: "int \<Rightarrow> bool" where
  "leap_year y \<longleftrightarrow> y mod 4 = 0 \<and> (y mod 100 \<noteq> 0 \<or> y mod 400 = 0)"

definition month_lengths :: "int \<Rightarrow> int list" where
  "month_lengths y = [31, if leap_year y then 29 else 28, 31, 30, 31, 30, 31, 31, 30, 31, 30, 31]"

definition days_in_month :: "int \<Rightarrow> int \<Rightarrow> int" where
  "days_in_month y m = month_lengths y ! nat (m - 1)"

definition day_number :: "int \<Rightarrow> int \<Rightarrow> int \<Rightarrow> int" where
  "day_number y m d = day_from_year y + sum_list (take (nat (m - 1)) (month_lengths y)) + d - 1"

definition iso_seconds_pattern :: "(16 word \<Rightarrow> bool) list" where
  "iso_seconds_pattern =
     replicate 4 digit @ [is_char CHR ''-''] @ replicate 2 digit @ [is_char CHR ''-'']
     @ replicate 2 digit @ [is_char CHR ''T''] @ replicate 2 digit @ [is_char CHR '':'']
     @ replicate 2 digit @ [is_char CHR '':''] @ replicate 2 digit"

definition matches :: "(16 word \<Rightarrow> bool) list \<Rightarrow> jsstr \<Rightarrow> bool" where
  "matches ps s \<longleftrightarrow> list_all2 (\<lambda>p c. p c) ps s"

definition iso_fields_ok :: "int \<Rightarrow> int \<Rightarrow> int \<Rightarrow> int \<Rightarrow> int \<Rightarrow> int \<Rightarrow> bool" where
  "iso_fields_ok y mo d h mi sec \<longleftrightarrow>
     1 \<le> mo \<and> mo \<le> 12 \<and> 1 \<le> d \<and> d \<le> days_in_month y mo \<and> h \<le> 23 \<and> mi \<le> 59 \<and> sec \<le> 59"

definition iso_date :: "jsstr \<Rightarrow> int option" where
  "iso_date s =
     (let y = decimal (take 4 s); mo = decimal (take 2 (drop 5 s)); d = decimal (take 2 (drop 8 s));
          h = decimal (take 2 (drop 11 s)); mi = decimal (take 2 (drop 14 s));
          sec = decimal (take 2 (drop 17 s));
          whole = matches (iso_seconds_pattern @ [is_char CHR ''Z'']) s;
          fraction = matches (iso_seconds_pattern @ [is_char CHR ''.''] @ replicate 3 digit
                              @ [is_char CHR ''Z'']) s;
          ms = (if fraction then decimal (take 3 (drop 20 s)) else 0)
      in if (whole \<or> fraction) \<and> iso_fields_ok y mo d h mi sec
         then Some (((day_number y mo d * 24 + h) * 60 + mi) * 60000 + sec * 1000 + ms)
         else None)"

definition Date_parse :: "env \<Rightarrow> jsstr \<Rightarrow> int option" where
  "Date_parse E s = (case iso_date s of Some t \<Rightarrow> Some t | None \<Rightarrow> other_date E s)"

text \<open>Comparisons and differences of times that may be \<open>NaN\<close>.\<close>

fun date_less :: "int option \<Rightarrow> int option \<Rightarrow> bool" where
  "date_less (Some a) (Some b) = (a < b)"
| "date_less _ _ = False"

fun date_le :: "int option \<Rightarrow> int option \<Rightarrow> bool" where
  "date_le (Some a) (Some b) = (a \<le> b)"
| "date_le _ _ = False"

fun date_diff :: "int option \<Rightarrow> int option \<Rightarrow> int option" where
  "date_diff (Some a) (Some b) = Some (a - b)"
| "date_diff _ _ = None"

lemma date_less_iff:
  "date_less x y \<longleftrightarrow> (\<exists>a b. x = Some a \<and> y = Some b \<and> a < b)"
  by (cases x; cases y) auto

lemma date_le_iff:
  "date_le x y \<longleftrightarrow> (\<exists>a b. x = Some a \<and> y = Some b \<and> a \<le> b)"
  by (cases x; cases y) auto

lemma date_diff_Some:
  "date_diff x y = Some d \<longleftrightarrow> (\<exists>a b. x = Some a \<and> y = Some b \<and> d = a - b)"
  by (cases x; cases y) auto

lemma date_less_trans: "date_less x y \<Longrightarrow> date_less y z \<Longrightarrow> date_less x z"
  by (cases x; cases y; cases z) auto

lemma date_less_irrefl [simp]: "\<not> date_less x x"
  by (cases x) auto

lemma date_le_less: "date_le x y \<Longrightarrow> \<not> date_less y x"
  by (cases x; cases y) auto

lemma date_less_le_trans: "date_less x y \<Longrightarrow> date_le y z \<Longrightarrow> date_less x z"
  by (cases x; cases y; cases z) auto

text \<open>
  \<open>Number.isFinite(b - a) && b - a > 0 && b - a <= limit\<close>: how every module bounds the lifetime
  of a token (\<open>durationWithin\<close>, \<open>lifetimeWithin\<close>).
\<close>

definition lifetime_within :: "env \<Rightarrow> jsstr \<Rightarrow> jsstr \<Rightarrow> int \<Rightarrow> bool" where
  "lifetime_within E issuedAt expiresAt limit =
     (case date_diff (Date_parse E expiresAt) (Date_parse E issuedAt) of
        None \<Rightarrow> False
      | Some d \<Rightarrow> 0 < d \<and> d \<le> limit)"

lemma lifetime_within_iff:
  "lifetime_within E i e limit \<longleftrightarrow>
     (\<exists>a b. Date_parse E i = Some a \<and> Date_parse E e = Some b \<and> a < b \<and> b - a \<le> limit)"
  by (auto simp: lifetime_within_def date_diff_Some split: option.splits)

section \<open>Printing\<close>

text \<open>
  \<open>new Date(t).toISOString()\<close>; \<open>None\<close> where it throws a \<open>RangeError\<close>. The civil date of a day
  number is computed from the 400-year cycle that starts on the first of March of year 0.
\<close>

fun digits :: "nat \<Rightarrow> int \<Rightarrow> jsstr" where
  "digits 0 n = []"
| "digits (Suc k) n = digits k (n div 10) @ [of_int (48 + n mod 10)]"

definition civil_from_days :: "int \<Rightarrow> int \<times> int \<times> int" where
  "civil_from_days day =
     (let z = day + 719468; era = z div 146097; doe = z mod 146097;
          yoe = (doe - doe div 1460 + doe div 36524 - doe div 146096) div 365;
          doy = doe - (365 * yoe + yoe div 4 - yoe div 100);
          mp = (5 * doy + 2) div 153;
          m = (if mp < 10 then mp + 3 else mp - 9)
      in (yoe + era * 400 + (if m \<le> 2 then 1 else 0), m, doy - (153 * mp + 2) div 5 + 1))"

definition year_string :: "int \<Rightarrow> jsstr" where
  "year_string y =
     (if 0 \<le> y \<and> y \<le> 9999 then digits 4 y
      else (if y < 0 then js ''-'' else js ''+'') @ digits 6 \<bar>y\<bar>)"

definition toISOString :: "int \<Rightarrow> jsstr option" where
  "toISOString t =
     (if \<bar>t\<bar> > 8640000000000000 then None
      else case civil_from_days (t div 86400000) of (y, m, d) \<Rightarrow>
        let ms = t mod 86400000 in
        Some (year_string y @ js ''-'' @ digits 2 m @ js ''-'' @ digits 2 d @ js ''T''
              @ digits 2 (ms div 3600000) @ js '':'' @ digits 2 (ms div 60000 mod 60) @ js '':''
              @ digits 2 (ms div 1000 mod 60) @ js ''.'' @ digits 3 (ms mod 1000) @ js ''Z''))"

lemma toISOString_examples:
  "map_option iso_date (toISOString 1767225601000) = Some (Some 1767225601000)"
  "map_option iso_date (toISOString 0) = Some (Some 0)"
  "map_option iso_date (toISOString 951782400001) = Some (Some 951782400001)"
  "map_option iso_date (toISOString 253402300799999) = Some (Some 253402300799999)"
  by code_simp+

end
