(* ===== verification/TenantScope.thy ===== *)
theory TenantScope
  imports IsoDate
begin

text \<open>
  packages/domain/src/tenant-scope/v1.ts: stable identifiers, strict UTC timestamps and tenant
  scopes, their parsers, and the containment of one scope in another. Containment is the order
  on which every authorization decision rests, so the type is made an instance of \<open>order\<close>.
\<close>

section \<open>Data\<close>

type_synonym stable_id = jsstr
type_synonym utc_timestamp = jsstr

datatype tenant_scope =
    Organization_scope (organizationId: stable_id)
  | Workspace_scope (organizationId: stable_id) stable_id
  | Project_scope (organizationId: stable_id) stable_id stable_id

datatype parse_error = INVALID_IDENTIFIER | INVALID_UTC_TIMESTAMP | INVALID_TENANT_SCOPE

datatype scope_type = Organization_type | Workspace_type | Project_type

fun scopeType :: "tenant_scope \<Rightarrow> scope_type" where
  "scopeType (Organization_scope _) = Organization_type"
| "scopeType (Workspace_scope _ _) = Workspace_type"
| "scopeType (Project_scope _ _ _) = Project_type"

section \<open>Contracts and parsers\<close>

text \<open>The JSON schemas \<open>identifier\<close>, \<open>utc-timestamp\<close> and \<open>tenant-scope\<close> of packages/contracts.\<close>

definition contract_identifier :: "env \<Rightarrow> jsval \<Rightarrow> bool" where
  "contract_identifier E v = (case v of Str s \<Rightarrow> uuid_format E s | _ \<Rightarrow> False)"

definition contract_utc_timestamp :: "env \<Rightarrow> jsval \<Rightarrow> bool" where
  "contract_utc_timestamp E v =
     (case v of Str s \<Rightarrow> date_time_format E s \<and> s \<noteq> [] \<and> is_char CHR ''Z'' (last s) | _ \<Rightarrow> False)"

definition contract_scope_shape :: "env \<Rightarrow> string \<Rightarrow> string list \<Rightarrow> jsval \<Rightarrow> bool" where
  "contract_scope_shape E kind ids v \<longleftrightarrow>
     isRecord v
     \<and> list_all (\<lambda>k. k \<in> set (map js (''scopeType'' # ids))) (own_keys v)
     \<and> list_all (\<lambda>k. field v k \<noteq> Undefined) (''scopeType'' # ids)
     \<and> field v ''scopeType'' = Str (js kind)
     \<and> list_all (\<lambda>k. contract_identifier E (field v k)) ids"

definition contract_tenant_scope :: "env \<Rightarrow> jsval \<Rightarrow> bool" where
  "contract_tenant_scope E v \<longleftrightarrow>
     length (filter (\<lambda>b. b)
       [contract_scope_shape E ''organization'' [''organizationId''] v,
        contract_scope_shape E ''workspace'' [''organizationId'', ''workspaceId''] v,
        contract_scope_shape E ''project'' [''organizationId'', ''workspaceId'', ''projectId''] v]) = 1"

text \<open>\<open>nonGuessableUuidPattern\<close>: version 4 and 7 UUIDs, case-insensitive.\<close>

definition uuid_version :: "16 word \<Rightarrow> bool" where
  "uuid_version c \<longleftrightarrow> is_char CHR ''4'' c \<or> is_char CHR ''7'' c"

definition uuid_variant :: "16 word \<Rightarrow> bool" where
  "uuid_variant c \<longleftrightarrow> in_range 56 57 c \<or> in_range 97 98 c \<or> in_range 65 66 c"

definition nonGuessableUuidPattern :: "(16 word \<Rightarrow> bool) list" where
  "nonGuessableUuidPattern =
     replicate 8 any_hex @ [is_char CHR ''-''] @ replicate 4 any_hex @ [is_char CHR ''-'']
     @ uuid_version # replicate 3 any_hex @ [is_char CHR ''-'']
     @ uuid_variant # replicate 3 any_hex @ [is_char CHR ''-''] @ replicate 12 any_hex"

definition parseStableIdentifierV1 :: "env \<Rightarrow> jsval \<Rightarrow> parse_error + stable_id" where
  "parseStableIdentifierV1 E v =
     (case v of
        Str s \<Rightarrow>
          reject_if (\<not> contract_identifier E (Str s) \<or> \<not> matches nonGuessableUuidPattern s)
            INVALID_IDENTIFIER (accepted (ascii_lower s))
      | _ \<Rightarrow> rejected INVALID_IDENTIFIER)"

definition parseStrictUtcTimestampV1 :: "env \<Rightarrow> jsval \<Rightarrow> parse_error + utc_timestamp" where
  "parseStrictUtcTimestampV1 E v =
     (case v of
        Str s \<Rightarrow> reject_if (\<not> contract_utc_timestamp E (Str s)) INVALID_UTC_TIMESTAMP (accepted s)
      | _ \<Rightarrow> rejected INVALID_UTC_TIMESTAMP)"

definition accepted_value :: "'e + 'a \<Rightarrow> 'a option" where
  "accepted_value r = (case r of Inl _ \<Rightarrow> None | Inr v \<Rightarrow> Some v)"

definition identifierFrom :: "env \<Rightarrow> jsval \<Rightarrow> stable_id option" where
  "identifierFrom E v = accepted_value (parseStableIdentifierV1 E v)"

definition parseTenantScopeV1 :: "env \<Rightarrow> jsval \<Rightarrow> parse_error + tenant_scope" where
  "parseTenantScopeV1 E v =
     reject_if (\<not> contract_tenant_scope E v) INVALID_TENANT_SCOPE (
     require INVALID_TENANT_SCOPE (identifierFrom E (field v ''organizationId'')) (\<lambda>organizationId.
     if field v ''scopeType'' = Str (js ''organization'')
     then accepted (Organization_scope organizationId)
     else require INVALID_TENANT_SCOPE (identifierFrom E (field v ''workspaceId'')) (\<lambda>workspaceId.
     if field v ''scopeType'' = Str (js ''workspace'')
     then accepted (Workspace_scope organizationId workspaceId)
     else require INVALID_TENANT_SCOPE (identifierFrom E (field v ''projectId'')) (\<lambda>projectId.
     accepted (Project_scope organizationId workspaceId projectId)))))"

text \<open>The helpers \<open>stable\<close>, \<open>timestamp\<close> and \<open>scope\<close> that every other module defines for itself.\<close>

definition timestamp :: "env \<Rightarrow> jsval \<Rightarrow> utc_timestamp option" where
  "timestamp E v = accepted_value (parseStrictUtcTimestampV1 E v)"

definition scope_value :: "env \<Rightarrow> jsval \<Rightarrow> tenant_scope option" where
  "scope_value E v = accepted_value (parseTenantScopeV1 E v)"

abbreviation stable :: "env \<Rightarrow> jsval \<Rightarrow> stable_id option" where
  "stable \<equiv> identifierFrom"

section \<open>Operations on scopes\<close>

fun tenantScopesEqualV1 :: "tenant_scope \<Rightarrow> tenant_scope \<Rightarrow> bool" where
  "tenantScopesEqualV1 (Organization_scope o1) (Organization_scope o2) = (o1 = o2)"
| "tenantScopesEqualV1 (Workspace_scope o1 w1) (Workspace_scope o2 w2) = (o1 = o2 \<and> w1 = w2)"
| "tenantScopesEqualV1 (Project_scope o1 w1 p1) (Project_scope o2 w2 p2) =
     (o1 = o2 \<and> w1 = w2 \<and> p1 = p2)"
| "tenantScopesEqualV1 _ _ = False"

fun workspace_of :: "tenant_scope \<Rightarrow> stable_id option" where
  "workspace_of (Organization_scope _) = None"
| "workspace_of (Workspace_scope _ w) = Some w"
| "workspace_of (Project_scope _ w _) = Some w"

fun project_of :: "tenant_scope \<Rightarrow> stable_id option" where
  "project_of (Project_scope _ _ p) = Some p"
| "project_of _ = None"

definition tenantScopeContainsV1 :: "tenant_scope \<Rightarrow> tenant_scope \<Rightarrow> bool" where
  "tenantScopeContainsV1 container candidate =
     (if organizationId container \<noteq> organizationId candidate then False
      else if scopeType container = Organization_type then True
      else if scopeType candidate = Organization_type
              \<or> workspace_of container \<noteq> workspace_of candidate then False
      else if scopeType container = Workspace_type then True
      else scopeType candidate = Project_type \<and> project_of container = project_of candidate)"

fun tenantScopeKeyV1 :: "tenant_scope \<Rightarrow> jsstr" where
  "tenantScopeKeyV1 (Organization_scope org) = js ''organization:'' @ org"
| "tenantScopeKeyV1 (Workspace_scope org ws) = js ''workspace:'' @ org @ js '':'' @ ws"
| "tenantScopeKeyV1 (Project_scope org ws pr) =
     js ''project:'' @ org @ js '':'' @ ws @ js '':'' @ pr"

definition narrowTenantScopeV1 :: "tenant_scope \<Rightarrow> tenant_scope \<Rightarrow> tenant_scope option" where
  "narrowTenantScopeV1 current candidate =
     (if tenantScopeContainsV1 current candidate then Some candidate else None)"

section \<open>Identifiers\<close>

text \<open>What the parser returns: a lower-case UUID.\<close>

definition stable_form :: "stable_id \<Rightarrow> bool" where
  "stable_form s \<longleftrightarrow> matches nonGuessableUuidPattern s \<and> ascii_lower s = s"

fun wf_scope :: "tenant_scope \<Rightarrow> bool" where
  "wf_scope (Organization_scope a) = stable_form a"
| "wf_scope (Workspace_scope a b) = (stable_form a \<and> stable_form b)"
| "wf_scope (Project_scope a b c) = (stable_form a \<and> stable_form b \<and> stable_form c)"

lemma accepted_value_Some [simp]: "accepted_value r = Some v \<longleftrightarrow> r = Inr v"
  by (cases r) (simp_all add: accepted_value_def)

lemma matches_length: "matches ps s \<Longrightarrow> length s = length ps"
  by (simp add: matches_def list_all2_lengthD)

lemma length_uuid: "matches nonGuessableUuidPattern s \<Longrightarrow> length s = 36"
  by (drule matches_length) (simp add: nonGuessableUuidPattern_def)

lemma length_ascii_lower [simp]: "length (ascii_lower s) = length s"
  by (simp add: ascii_lower_def)

lemma unat_plus32: "upper c \<Longrightarrow> unat (c + 32) = unat c + 32"
  by (simp add: upper_def in_range_def unat_word_ariths)

lemma ascii_lower_unit: "upper c \<Longrightarrow> \<not> upper (c + 32)"
  by (simp add: unat_plus32 upper_def in_range_def)

lemma ascii_lower_idem [simp]: "ascii_lower (ascii_lower s) = ascii_lower s"
  by (auto simp: ascii_lower_def ascii_lower_unit)

lemma lower_keeps_class:
  assumes "p \<in> set nonGuessableUuidPattern" "p c" "upper c"
  shows "p (c + 32)"
proof -
  from \<open>upper c\<close> have "65 \<le> unat c" "unat c \<le> 90" and u: "unat (c + 32) = unat c + 32"
    using unat_plus32 by (auto simp: upper_def in_range_def)
  then have "\<not> is_char CHR ''-'' c" "\<not> is_char CHR ''4'' c" "\<not> is_char CHR ''7'' c"
    by (auto simp: is_char_def)
  with assms u show ?thesis
    by (auto simp: nonGuessableUuidPattern_def any_hex_def lower_hex_def digit_def in_range_def
        uuid_version_def uuid_variant_def upper_def)
qed

lemma matches_ascii_lower:
  assumes "matches nonGuessableUuidPattern s"
  shows "matches nonGuessableUuidPattern (ascii_lower s)"
proof -
  have "list_all2 (\<lambda>p c. p c) ps (map (\<lambda>c. if upper c then c + 32 else c) t)"
    if "list_all2 (\<lambda>p c. p c) ps t" "set ps \<subseteq> set nonGuessableUuidPattern" for ps t
    using that by (induction rule: list_all2_induct) (auto intro: lower_keeps_class)
  with assms show ?thesis by (simp add: matches_def ascii_lower_def)
qed

lemma identifierFrom_form: "stable E v = Some s \<Longrightarrow> stable_form s"
  by (auto simp: identifierFrom_def parseStableIdentifierV1_def stable_form_def result_simps
      matches_ascii_lower split: jsval.splits)

lemma stable_form_length: "stable_form s \<Longrightarrow> length s = 36"
  by (simp add: stable_form_def length_uuid)

lemma stable_form_append:
  "stable_form a \<Longrightarrow> stable_form b \<Longrightarrow> a @ x = b @ y \<longleftrightarrow> a = b \<and> x = y"
  by (simp add: stable_form_length)

lemma parseTenantScopeV1_wf: "parseTenantScopeV1 E v = Inr s \<Longrightarrow> wf_scope s"
  by (auto simp: parseTenantScopeV1_def result_simps dest: identifierFrom_form split: if_splits)

lemma scope_value_wf: "scope_value E v = Some s \<Longrightarrow> wf_scope s"
  by (simp add: scope_value_def parseTenantScopeV1_wf)

section \<open>Equality, containment and keys\<close>

lemma tenantScopesEqualV1_iff [simp]: "tenantScopesEqualV1 a b \<longleftrightarrow> a = b"
  by (cases a; cases b) auto

lemma contains_simps [simp]:
  "tenantScopeContainsV1 (Organization_scope a) t \<longleftrightarrow> organizationId t = a"
  "tenantScopeContainsV1 (Workspace_scope a b) t \<longleftrightarrow> organizationId t = a \<and> workspace_of t = Some b"
  "tenantScopeContainsV1 (Project_scope a b c) t \<longleftrightarrow> t = Project_scope a b c"
  by (cases t; auto simp: tenantScopeContainsV1_def)+

instantiation tenant_scope :: order
begin

definition less_eq_tenant_scope :: "tenant_scope \<Rightarrow> tenant_scope \<Rightarrow> bool" where
  "less_eq_tenant_scope candidate container = tenantScopeContainsV1 container candidate"

definition less_tenant_scope :: "tenant_scope \<Rightarrow> tenant_scope \<Rightarrow> bool" where
  "less_tenant_scope candidate container \<longleftrightarrow>
     tenantScopeContainsV1 container candidate \<and> \<not> tenantScopeContainsV1 candidate container"

instance
proof
  fix x y z :: tenant_scope
  show "x < y \<longleftrightarrow> x \<le> y \<and> \<not> y \<le> x"
    by (simp add: less_eq_tenant_scope_def less_tenant_scope_def)
  show "x \<le> x"
    by (cases x) (simp_all add: less_eq_tenant_scope_def)
  show "x \<le> y \<Longrightarrow> y \<le> z \<Longrightarrow> x \<le> z"
    by (cases z; cases y; cases x) (auto simp: less_eq_tenant_scope_def)
  show "x \<le> y \<Longrightarrow> y \<le> x \<Longrightarrow> x = y"
    by (cases x; cases y) (auto simp: less_eq_tenant_scope_def)
qed

end

lemmas scope_order_defs = less_eq_tenant_scope_def less_tenant_scope_def

lemma scope_key_inject:
  assumes "wf_scope a" "wf_scope b" "tenantScopeKeyV1 a = tenantScopeKeyV1 b"
  shows "a = b"
  using assms
  by (cases a; cases b)
     (simp_all add: stable_form_append js_def)

text \<open>The object a scope is written as.\<close>

fun scope_object :: "tenant_scope \<Rightarrow> jsval" where
  "scope_object (Organization_scope a) =
     Obj [(js ''scopeType'', Str (js ''organization'')), (js ''organizationId'', Str a)]"
| "scope_object (Workspace_scope a b) =
     Obj [(js ''scopeType'', Str (js ''workspace'')), (js ''organizationId'', Str a),
          (js ''workspaceId'', Str b)]"
| "scope_object (Project_scope a b c) =
     Obj [(js ''scopeType'', Str (js ''project'')), (js ''organizationId'', Str a),
          (js ''workspaceId'', Str b), (js ''projectId'', Str c)]"

text \<open>
  ajv-formats documents \<open>uuid\<close> as any RFC 4122 UUID, upper or lower case; in particular every
  string of the stricter pattern.
\<close>

definition uuid_format_documented :: "env \<Rightarrow> bool" where
  "uuid_format_documented E \<longleftrightarrow> (\<forall>s. matches nonGuessableUuidPattern s \<longrightarrow> uuid_format E s)"

lemma identifierFrom_Str:
  "uuid_format_documented E \<Longrightarrow> stable_form s \<Longrightarrow> stable E (Str s) = Some s"
  by (simp add: identifierFrom_def parseStableIdentifierV1_def contract_identifier_def
      uuid_format_documented_def stable_form_def result_simps)

lemma parse_scope_object:
  assumes "uuid_format_documented E" "wf_scope s"
  shows "parseTenantScopeV1 E (scope_object s) = Inr s"
  using assms
  by (cases s)
     (simp_all add: parseTenantScopeV1_def contract_tenant_scope_def contract_scope_shape_def
       contract_identifier_def identifierFrom_Str result_simps uuid_format_documented_def
       stable_form_def)

end
