(* ===== verification/Permissions.thy ===== *)
theory Permissions
  imports TenantScope
begin

text \<open>
  packages/domain/src/permissions/v1.ts: the permission vocabulary, the channels and resource
  type each permission applies to, the six role bundles, the customer-visible access presets and
  the ordered agent grant levels.
\<close>

section \<open>Vocabulary\<close>

datatype permission =
    ORGANIZATION_PROFILE_READ
  | ORGANIZATION_SETTINGS_MANAGE
  | ORGANIZATION_OWNERSHIP_TRANSFER
  | WORKSPACE_SETTINGS_READ
  | WORKSPACE_SETTINGS_MANAGE
  | PROJECT_RECORD_READ
  | PROJECT_RECORD_MANAGE
  | ARTIFACT_RECORD_READ
  | ARTIFACT_ORIGINAL_DOWNLOAD
  | ARTIFACT_DERIVED_CREATE
  | JOB_EXECUTION_READ
  | JOB_EXECUTION_CREATE
  | JOB_EXECUTION_RUN
  | JOB_EXECUTION_CANCEL
  | APPROVAL_REQUEST_READ
  | APPROVAL_DECISION_CREATE
  | BILLING_ACCOUNT_READ
  | BILLING_ACCOUNT_MANAGE
  | DEVICE_IDENTITY_READ
  | DEVICE_IDENTITY_REVOKE
  | SERVICE_ACCOUNT_READ
  | SERVICE_ACCOUNT_MANAGE
  | SERVICE_ACCOUNT_REVOKE

definition PERMISSIONS_V1 :: "(string \<times> permission) list" where
  "PERMISSIONS_V1 =
    [(''organization.profile.read'', ORGANIZATION_PROFILE_READ),
     (''organization.settings.manage'', ORGANIZATION_SETTINGS_MANAGE),
     (''organization.ownership.transfer'', ORGANIZATION_OWNERSHIP_TRANSFER),
     (''workspace.settings.read'', WORKSPACE_SETTINGS_READ),
     (''workspace.settings.manage'', WORKSPACE_SETTINGS_MANAGE),
     (''project.record.read'', PROJECT_RECORD_READ),
     (''project.record.manage'', PROJECT_RECORD_MANAGE),
     (''artifact.record.read'', ARTIFACT_RECORD_READ),
     (''artifact.original.download'', ARTIFACT_ORIGINAL_DOWNLOAD),
     (''artifact.derived.create'', ARTIFACT_DERIVED_CREATE),
     (''job.execution.read'', JOB_EXECUTION_READ),
     (''job.execution.create'', JOB_EXECUTION_CREATE),
     (''job.execution.run'', JOB_EXECUTION_RUN),
     (''job.execution.cancel'', JOB_EXECUTION_CANCEL),
     (''approval.request.read'', APPROVAL_REQUEST_READ),
     (''approval.decision.create'', APPROVAL_DECISION_CREATE),
     (''billing.account.read'', BILLING_ACCOUNT_READ),
     (''billing.account.manage'', BILLING_ACCOUNT_MANAGE),
     (''device.identity.read'', DEVICE_IDENTITY_READ),
     (''device.identity.revoke'', DEVICE_IDENTITY_REVOKE),
     (''service.account.read'', SERVICE_ACCOUNT_READ),
     (''service.account.manage'', SERVICE_ACCOUNT_MANAGE),
     (''service.account.revoke'', SERVICE_ACCOUNT_REVOKE)]"

datatype channel = Api | Web | Desktop | Android | Worker | Sync | Stream | Shared_link

definition AUTHORIZATION_CHANNELS_V1 :: "(string \<times> channel) list" where
  "AUTHORIZATION_CHANNELS_V1 =
    [(''api'', Api), (''web'', Web), (''desktop'', Desktop), (''android'', Android), (''worker'', Worker), (''sync'', Sync), (''stream'', Stream), (''shared-link'', Shared_link)]"

datatype resource_type =
    Approval_request_resource
  | Artifact_resource
  | Billing_account_resource
  | Device_resource
  | Service_account_resource
  | Job_resource
  | Organization_resource
  | Project_resource
  | Workspace_resource

definition RESOURCE_TYPES_V1 :: "(string \<times> resource_type) list" where
  "RESOURCE_TYPES_V1 =
    [(''approval-request'', Approval_request_resource),
     (''artifact'', Artifact_resource),
     (''billing-account'', Billing_account_resource),
     (''device'', Device_resource),
     (''service-account'', Service_account_resource),
     (''job'', Job_resource),
     (''organization'', Organization_resource),
     (''project'', Project_resource),
     (''workspace'', Workspace_resource)]"

fun permission_resource :: "permission \<Rightarrow> resource_type" where
  "permission_resource ORGANIZATION_PROFILE_READ = Organization_resource"
| "permission_resource ORGANIZATION_SETTINGS_MANAGE = Organization_resource"
| "permission_resource ORGANIZATION_OWNERSHIP_TRANSFER = Organization_resource"
| "permission_resource WORKSPACE_SETTINGS_READ = Workspace_resource"
| "permission_resource WORKSPACE_SETTINGS_MANAGE = Workspace_resource"
| "permission_resource PROJECT_RECORD_READ = Project_resource"
| "permission_resource PROJECT_RECORD_MANAGE = Project_resource"
| "permission_resource ARTIFACT_RECORD_READ = Artifact_resource"
| "permission_resource ARTIFACT_ORIGINAL_DOWNLOAD = Artifact_resource"
| "permission_resource ARTIFACT_DERIVED_CREATE = Artifact_resource"
| "permission_resource JOB_EXECUTION_READ = Job_resource"
| "permission_resource JOB_EXECUTION_CREATE = Job_resource"
| "permission_resource JOB_EXECUTION_RUN = Job_resource"
| "permission_resource JOB_EXECUTION_CANCEL = Job_resource"
| "permission_resource APPROVAL_REQUEST_READ = Approval_request_resource"
| "permission_resource APPROVAL_DECISION_CREATE = Approval_request_resource"
| "permission_resource BILLING_ACCOUNT_READ = Billing_account_resource"
| "permission_resource BILLING_ACCOUNT_MANAGE = Billing_account_resource"
| "permission_resource DEVICE_IDENTITY_READ = Device_resource"
| "permission_resource DEVICE_IDENTITY_REVOKE = Device_resource"
| "permission_resource SERVICE_ACCOUNT_READ = Service_account_resource"
| "permission_resource SERVICE_ACCOUNT_MANAGE = Service_account_resource"
| "permission_resource SERVICE_ACCOUNT_REVOKE = Service_account_resource"

fun allowedChannels :: "permission \<Rightarrow> channel list" where
  "allowedChannels ORGANIZATION_PROFILE_READ = [Api, Web, Desktop, Android]"
| "allowedChannels ORGANIZATION_SETTINGS_MANAGE = [Api, Web]"
| "allowedChannels ORGANIZATION_OWNERSHIP_TRANSFER = [Api, Web]"
| "allowedChannels WORKSPACE_SETTINGS_READ = [Api, Web, Desktop, Android, Worker]"
| "allowedChannels WORKSPACE_SETTINGS_MANAGE = [Api, Web]"
| "allowedChannels PROJECT_RECORD_READ = [Api, Web, Desktop, Android, Worker, Sync]"
| "allowedChannels PROJECT_RECORD_MANAGE = [Api, Web]"
| "allowedChannels ARTIFACT_RECORD_READ = [Api, Web, Desktop, Android, Worker, Sync, Shared_link]"
| "allowedChannels ARTIFACT_ORIGINAL_DOWNLOAD = [Api, Web, Desktop, Android]"
| "allowedChannels ARTIFACT_DERIVED_CREATE = [Api, Web, Desktop, Worker]"
| "allowedChannels JOB_EXECUTION_READ = [Api, Web, Desktop, Android, Worker, Sync, Stream]"
| "allowedChannels JOB_EXECUTION_CREATE = [Api, Web, Desktop, Worker]"
| "allowedChannels JOB_EXECUTION_RUN = [Api, Web, Desktop, Worker]"
| "allowedChannels JOB_EXECUTION_CANCEL = [Api, Web, Desktop]"
| "allowedChannels APPROVAL_REQUEST_READ = [Api, Web, Desktop, Android]"
| "allowedChannels APPROVAL_DECISION_CREATE = [Api, Web, Android]"
| "allowedChannels BILLING_ACCOUNT_READ = [Api, Web]"
| "allowedChannels BILLING_ACCOUNT_MANAGE = [Api, Web]"
| "allowedChannels DEVICE_IDENTITY_READ = [Api, Web]"
| "allowedChannels DEVICE_IDENTITY_REVOKE = [Api, Web]"
| "allowedChannels SERVICE_ACCOUNT_READ = [Api, Web]"
| "allowedChannels SERVICE_ACCOUNT_MANAGE = [Api, Web]"
| "allowedChannels SERVICE_ACCOUNT_REVOKE = [Api, Web]"

section \<open>Roles\<close>

datatype role = Owner | Admin | Analyst | Operator | Approver | Viewer

definition INITIAL_ROLE_IDS_V1 :: "(string \<times> role) list" where
  "INITIAL_ROLE_IDS_V1 =
    [(''owner'', Owner), (''admin'', Admin), (''analyst'', Analyst), (''operator'', Operator), (''approver'', Approver), (''viewer'', Viewer)]"

definition adminPermissions :: "permission list" where
  "adminPermissions =
    [ORGANIZATION_PROFILE_READ,
     ORGANIZATION_SETTINGS_MANAGE,
     WORKSPACE_SETTINGS_READ,
     WORKSPACE_SETTINGS_MANAGE,
     PROJECT_RECORD_READ,
     PROJECT_RECORD_MANAGE,
     JOB_EXECUTION_READ,
     DEVICE_IDENTITY_READ,
     DEVICE_IDENTITY_REVOKE,
     SERVICE_ACCOUNT_READ,
     SERVICE_ACCOUNT_MANAGE,
     SERVICE_ACCOUNT_REVOKE]"

definition ownerPermissionSet :: "permission list" where
  "ownerPermissionSet =
     adminPermissions @ [ARTIFACT_DERIVED_CREATE, ORGANIZATION_OWNERSHIP_TRANSFER, BILLING_ACCOUNT_READ, BILLING_ACCOUNT_MANAGE]"

definition ownerPermissions :: "permission list" where
  "ownerPermissions = filter (\<lambda>p. p \<in> set ownerPermissionSet) (map snd PERMISSIONS_V1)"

fun role_permissions :: "role \<Rightarrow> permission list" where
  "role_permissions Owner = ownerPermissions"
| "role_permissions Admin = adminPermissions"
| "role_permissions Analyst =
     [ORGANIZATION_PROFILE_READ, WORKSPACE_SETTINGS_READ, PROJECT_RECORD_READ, ARTIFACT_RECORD_READ, ARTIFACT_ORIGINAL_DOWNLOAD, ARTIFACT_DERIVED_CREATE, JOB_EXECUTION_READ, JOB_EXECUTION_CREATE, JOB_EXECUTION_RUN, JOB_EXECUTION_CANCEL]"
| "role_permissions Operator =
     [ORGANIZATION_PROFILE_READ, WORKSPACE_SETTINGS_READ, PROJECT_RECORD_READ, ARTIFACT_RECORD_READ, ARTIFACT_DERIVED_CREATE, JOB_EXECUTION_READ, JOB_EXECUTION_RUN]"
| "role_permissions Approver =
     [ORGANIZATION_PROFILE_READ, WORKSPACE_SETTINGS_READ, PROJECT_RECORD_READ, ARTIFACT_RECORD_READ, JOB_EXECUTION_READ, APPROVAL_REQUEST_READ, APPROVAL_DECISION_CREATE]"
| "role_permissions Viewer =
     [ORGANIZATION_PROFILE_READ, WORKSPACE_SETTINGS_READ, PROJECT_RECORD_READ, ARTIFACT_RECORD_READ, JOB_EXECUTION_READ]"

definition isPermissionV1 :: "jsval \<Rightarrow> permission option" where
  "isPermissionV1 v = one_of PERMISSIONS_V1 v"

definition isRoleIdV1 :: "jsval \<Rightarrow> role option" where
  "isRoleIdV1 v = one_of INITIAL_ROLE_IDS_V1 v"

definition roleHasPermissionV1 :: "jsval \<Rightarrow> jsval \<Rightarrow> bool" where
  "roleHasPermissionV1 roleId permission =
     (case (isRoleIdV1 roleId, isPermissionV1 permission) of
        (Some r, Some p) \<Rightarrow> p \<in> set (role_permissions r)
      | _ \<Rightarrow> False)"

section \<open>Access presets\<close>

datatype preset = OWNER | EDITOR | VIEWER

definition MEMBERSHIP_ACCESS_PRESETS_V1 :: "(string \<times> preset) list" where
  "MEMBERSHIP_ACCESS_PRESETS_V1 = [(''OWNER'', OWNER), (''EDITOR'', EDITOR), (''VIEWER'', VIEWER)]"

definition isMembershipAccessPresetV1 :: "jsval \<Rightarrow> preset option" where
  "isMembershipAccessPresetV1 v = one_of MEMBERSHIP_ACCESS_PRESETS_V1 v"

definition editorPermissions :: "permission list" where
  "editorPermissions = dedup (role_permissions Analyst @ [PROJECT_RECORD_MANAGE])"

fun preset_role :: "preset \<Rightarrow> role" where
  "preset_role OWNER = Owner"
| "preset_role EDITOR = Analyst"
| "preset_role VIEWER = Viewer"

fun preset_permissions :: "preset \<Rightarrow> permission list" where
  "preset_permissions OWNER = role_permissions Owner"
| "preset_permissions EDITOR = editorPermissions"
| "preset_permissions VIEWER = role_permissions Viewer"

definition accessPresetForRoleIdV1 :: "jsval \<Rightarrow> preset option" where
  "accessPresetForRoleIdV1 roleId =
     (case isRoleIdV1 roleId of
        None \<Rightarrow> None
      | Some r \<Rightarrow>
          if r = Owner then Some OWNER
          else if r = Analyst then Some EDITOR
          else if r = Viewer then Some VIEWER
          else None)"

section \<open>Agent grant levels\<close>

datatype grant_level = NONE | ANALYZE | PROPOSE_CHANGES | APPLY_CONFIRMED_CHANGES

definition AGENT_GRANT_LEVELS_V1 :: "(string \<times> grant_level) list" where
  "AGENT_GRANT_LEVELS_V1 =
    [(''NONE'', NONE), (''ANALYZE'', ANALYZE), (''PROPOSE_CHANGES'', PROPOSE_CHANGES),
     (''APPLY_CONFIRMED_CHANGES'', APPLY_CONFIRMED_CHANGES)]"

fun AGENT_LEVEL_ORDER_V1 :: "grant_level \<Rightarrow> int" where
  "AGENT_LEVEL_ORDER_V1 NONE = 0"
| "AGENT_LEVEL_ORDER_V1 ANALYZE = 1"
| "AGENT_LEVEL_ORDER_V1 PROPOSE_CHANGES = 2"
| "AGENT_LEVEL_ORDER_V1 APPLY_CONFIRMED_CHANGES = 3"

definition isAgentGrantLevelV1 :: "jsval \<Rightarrow> grant_level option" where
  "isAgentGrantLevelV1 v = one_of AGENT_GRANT_LEVELS_V1 v"

definition lesserAgentGrantLevelV1 :: "grant_level \<Rightarrow> grant_level \<Rightarrow> grant_level" where
  "lesserAgentGrantLevelV1 left right =
     (if AGENT_LEVEL_ORDER_V1 left \<le> AGENT_LEVEL_ORDER_V1 right then left else right)"

definition maxAgentGrantLevelForPresetV1 :: "preset \<Rightarrow> grant_level" where
  "maxAgentGrantLevelForPresetV1 preset =
     (if preset = VIEWER then ANALYZE else APPLY_CONFIRMED_CHANGES)"

definition defaultAgentGrantLevelForPresetV1 :: "preset \<Rightarrow> grant_level" where
  "defaultAgentGrantLevelForPresetV1 preset = (if preset = VIEWER then NONE else ANALYZE)"

section \<open>Facts\<close>

lemma AGENT_LEVEL_ORDER_inject [simp]:
  "AGENT_LEVEL_ORDER_V1 a = AGENT_LEVEL_ORDER_V1 b \<longleftrightarrow> a = b"
  by (cases a; cases b) auto

text \<open>The levels are ordered by \<open>AGENT_LEVEL_ORDER_V1\<close>; the lesser of two levels is their minimum.\<close>

instantiation grant_level :: linorder
begin

definition less_eq_grant_level :: "grant_level \<Rightarrow> grant_level \<Rightarrow> bool" where
  "less_eq_grant_level a b \<longleftrightarrow> AGENT_LEVEL_ORDER_V1 a \<le> AGENT_LEVEL_ORDER_V1 b"

definition less_grant_level :: "grant_level \<Rightarrow> grant_level \<Rightarrow> bool" where
  "less_grant_level a b \<longleftrightarrow> AGENT_LEVEL_ORDER_V1 a < AGENT_LEVEL_ORDER_V1 b"

instance
  by standard (auto simp: less_eq_grant_level_def less_grant_level_def)

end

lemma lesser_is_min: "lesserAgentGrantLevelV1 a b = min a b"
  by (simp add: lesserAgentGrantLevelV1_def min_def less_eq_grant_level_def)

lemma owner_permissions_eq: "set (role_permissions Owner) = set ownerPermissionSet"
proof -
  have "p \<in> set (map snd PERMISSIONS_V1)" for p
    by (cases p) (simp_all add: PERMISSIONS_V1_def)
  then show ?thesis by (auto simp: ownerPermissions_def)
qed

lemma role_preset: "accessPresetForRoleIdV1 v = Some p \<Longrightarrow> isRoleIdV1 v = Some (preset_role p)"
  by (auto simp: accessPresetForRoleIdV1_def split: option.splits if_splits)

section \<open>Property\<close>

text \<open>
  What the customer-visible presets promise and what the roles behind them grant. Every
  preset lists all the permissions of its role, and the only permission a preset lists beyond
  its role is \<open>PROJECT_RECORD_MANAGE\<close>, for the preset EDITOR: its role, analyst, does not have it,
  so a request that relies on it is not authorized.
\<close>

theorem preset_permissions_exact:
  "set (preset_permissions q) =
     set (role_permissions (preset_role q)) \<union> (if q = EDITOR then {PROJECT_RECORD_MANAGE} else {})
   \<and> PROJECT_RECORD_MANAGE \<notin> set (role_permissions Analyst)"
  by (cases q) (auto simp: editorPermissions_def)

end
