(* ===== verification/Json.thy ===== *)
theory Json
  imports TenantScope
begin

text \<open>
  \<open>JSON.stringify\<close> and \<open>JSON.parse\<close> on the values the canonical payloads are made of: null,
  booleans, integers, strings, arrays and objects with their keys in order. Every signature and
  digest of the packages is taken over such a text, so what the signature protects is decided by
  whether the text determines the value: \<open>JSON_parse_stringify\<close> is the answer.
\<close>

datatype json =
    JNull
  | JBool bool
  | JInt int
  | JStr jsstr
  | JArr "json list"
  | JObj "(jsstr \<times> json) list"

section \<open>Printing\<close>

fun show_nat :: "nat \<Rightarrow> jsstr" where
  "show_nat n = (if n < 10 then [of_nat (48 + n)] else show_nat (n div 10) @ [of_nat (48 + n mod 10)])"

declare show_nat.simps [simp del]

definition show_int :: "int \<Rightarrow> jsstr" where
  "show_int n = (if n < 0 then js ''-'' @ show_nat (nat (- n)) else show_nat (nat n))"

definition hex_digit :: "nat \<Rightarrow> 16 word" where
  "hex_digit n = of_nat (if n < 10 then 48 + n else 87 + n)"

definition hex4 :: "16 word \<Rightarrow> jsstr" where
  "hex4 c = (let n = unat c in
     [hex_digit (n div 4096), hex_digit (n div 256 mod 16), hex_digit (n div 16 mod 16),
      hex_digit (n mod 16)])"

definition high_surrogate :: "16 word \<Rightarrow> bool" where
  "high_surrogate c \<longleftrightarrow> in_range 55296 56319 c"

definition low_surrogate :: "16 word \<Rightarrow> bool" where
  "low_surrogate c \<longleftrightarrow> in_range 56320 57343 c"

text \<open>The escape of one unit; a surrogate is escaped only when it stands alone.\<close>

definition escape_unit :: "16 word \<Rightarrow> jsstr" where
  "escape_unit c =
     (if c = 34 then [92, 34] else if c = 92 then [92, 92]
      else if c = 8 then [92, 98] else if c = 9 then [92, 116] else if c = 10 then [92, 110]
      else if c = 12 then [92, 102] else if c = 13 then [92, 114]
      else if unat c < 32 \<or> high_surrogate c \<or> low_surrogate c then [92, 117] @ hex4 c
      else [c])"

fun escape :: "jsstr \<Rightarrow> jsstr" where
  "escape [] = []"
| "escape [c] = escape_unit c"
| "escape (c # d # cs) =
     (if high_surrogate c \<and> low_surrogate d then c # d # escape cs
      else escape_unit c @ escape (d # cs))"

definition quote :: "jsstr \<Rightarrow> jsstr" where
  "quote s = 34 # escape s @ [34]"

fun commas :: "jsstr list \<Rightarrow> jsstr" where
  "commas [] = []"
| "commas [x] = x"
| "commas (x # y # ys) = x @ 44 # commas (y # ys)"

fun stringify :: "json \<Rightarrow> jsstr" where
  "stringify JNull = js ''null''"
| "stringify (JBool b) = (if b then js ''true'' else js ''false'')"
| "stringify (JInt n) = show_int n"
| "stringify (JStr s) = quote s"
| "stringify (JArr vs) = 91 # commas (map stringify vs) @ [93]"
| "stringify (JObj ps) = 123 # commas (map (\<lambda>(k, v). quote k @ 58 # stringify v) ps) @ [125]"

section \<open>Parsing\<close>

definition hex_value :: "16 word \<Rightarrow> nat" where
  "hex_value c = (if unat c < 58 then unat c - 48 else unat c - 87)"

definition hex_number :: "jsstr \<Rightarrow> nat" where
  "hex_number s = foldl (\<lambda>n c. n * 16 + hex_value c) 0 s"

definition unescape_char :: "16 word \<Rightarrow> 16 word" where
  "unescape_char e =
     (if e = 98 then 8 else if e = 116 then 9 else if e = 110 then 10 else if e = 102 then 12
      else if e = 114 then 13 else e)"

fun unescape :: "jsstr \<Rightarrow> (jsstr \<times> jsstr) option" where
  "unescape [] = None"
| "unescape (c # cs) =
     (if c = 34 then Some ([], cs)
      else if c = 92 then
        (case cs of
           [] \<Rightarrow> None
         | e # es \<Rightarrow>
             if e = 117 then
               (case es of
                  w # x # y # z # rest \<Rightarrow>
                    map_option (\<lambda>(s, r). (of_nat (hex_number [w, x, y, z]) # s, r)) (unescape rest)
                | _ \<Rightarrow> None)
             else map_option (\<lambda>(s, r). (unescape_char e # s, r)) (unescape es))
      else map_option (\<lambda>(s, r). (c # s, r)) (unescape cs))"

definition strip :: "jsstr \<Rightarrow> jsstr \<Rightarrow> jsstr option" where
  "strip p s = (if take (length p) s = p then Some (drop (length p) s) else None)"

definition parse_digits :: "jsstr \<Rightarrow> (int \<times> jsstr) option" where
  "parse_digits s =
     (if takeWhile digit s = [] then None
      else Some (decimal (takeWhile digit s), dropWhile digit s))"

fun parse_value :: "nat \<Rightarrow> jsstr \<Rightarrow> (json \<times> jsstr) option"
  and parse_elements :: "nat \<Rightarrow> jsstr \<Rightarrow> (json list \<times> jsstr) option"
  and parse_members :: "nat \<Rightarrow> jsstr \<Rightarrow> ((jsstr \<times> json) list \<times> jsstr) option" where
  "parse_value 0 s = None"
| "parse_value (Suc f) [] = None"
| "parse_value (Suc f) (c # cs) =
     (if c = 34 then map_option (\<lambda>(t, r). (JStr t, r)) (unescape cs)
      else if c = 91 then
        (case strip [93] cs of Some r \<Rightarrow> Some (JArr [], r)
         | None \<Rightarrow> map_option (\<lambda>(vs, r). (JArr vs, r)) (parse_elements f cs))
      else if c = 123 then
        (case strip [125] cs of Some r \<Rightarrow> Some (JObj [], r)
         | None \<Rightarrow> map_option (\<lambda>(ps, r). (JObj ps, r)) (parse_members f cs))
      else if c = 110 then map_option (\<lambda>r. (JNull, r)) (strip (js ''ull'') cs)
      else if c = 116 then map_option (\<lambda>r. (JBool True, r)) (strip (js ''rue'') cs)
      else if c = 102 then map_option (\<lambda>r. (JBool False, r)) (strip (js ''alse'') cs)
      else if c = 45 then map_option (\<lambda>(n, r). (JInt (- n), r)) (parse_digits cs)
      else map_option (\<lambda>(n, r). (JInt n, r)) (parse_digits (c # cs)))"
| "parse_elements 0 s = None"
| "parse_elements (Suc f) s =
     (case parse_value f s of
        None \<Rightarrow> None
      | Some (v, r) \<Rightarrow>
          (case r of
             [] \<Rightarrow> None
           | c # cs \<Rightarrow>
               if c = 44 then map_option (\<lambda>(vs, r'). (v # vs, r')) (parse_elements f cs)
               else if c = 93 then Some ([v], cs) else None))"
| "parse_members 0 s = None"
| "parse_members (Suc f) s =
     (case Option.bind (strip [34] s) unescape of
        None \<Rightarrow> None
      | Some (k, s') \<Rightarrow>
          (case Option.bind (strip [58] s') (parse_value f) of
             None \<Rightarrow> None
           | Some (v, r) \<Rightarrow>
               (case r of
                  [] \<Rightarrow> None
                | c # cs \<Rightarrow>
                    if c = 44 then map_option (\<lambda>(ps, r'). ((k, v) # ps, r')) (parse_members f cs)
                    else if c = 125 then Some ([(k, v)], cs) else None)))"

definition JSON_parse :: "jsstr \<Rightarrow> json option" where
  "JSON_parse s = (case parse_value (2 * length s) s of Some (v, []) \<Rightarrow> Some v | _ \<Rightarrow> None)"

section \<open>Round trip\<close>

lemma digit_of_nat: "n < 10 \<Longrightarrow> digit (of_nat (48 + n))"
  by (simp add: digit_def in_range_def unat_of_nat del: of_nat_add)

lemma digit_value_of_nat: "n < 10 \<Longrightarrow> digit_value (of_nat (48 + n)) = int n"
  by (simp add: digit_value_def unat_of_nat del: of_nat_add)

lemma show_nat_digits: "list_all digit (show_nat n)"
  by (induction n rule: show_nat.induct)
     (subst show_nat.simps, simp add: digit_of_nat del: of_nat_add)

lemma show_nat_nonempty [simp]: "show_nat n \<noteq> []"
  by (subst show_nat.simps) simp

lemma decimal_snoc: "decimal (s @ [c]) = 10 * decimal s + digit_value c"
  by (simp add: decimal_def)

lemma int_div_mod: "10 * int (n div 10) + int (n mod 10) = int n"
  by (metis mult_div_mod_eq of_nat_add of_nat_mult of_nat_numeral)

lemma decimal_show_nat: "decimal (show_nat n) = int n"
proof (induction n rule: show_nat.induct)
  case (1 n)
  show ?case
  proof (cases "n < 10")
    case True
    then show ?thesis
      using digit_value_of_nat [of n] by (subst show_nat.simps) (simp add: decimal_def)
  next
    case False
    then show ?thesis
      using 1 digit_value_of_nat [of "n mod 10"] int_div_mod
      by (subst show_nat.simps) (simp add: decimal_snoc)
  qed
qed

text \<open>A number ends where no digit follows.\<close>

definition no_digit :: "jsstr \<Rightarrow> bool" where
  "no_digit r \<longleftrightarrow> (case r of [] \<Rightarrow> True | c # _ \<Rightarrow> \<not> digit c)"

lemma parse_digits_show_nat:
  assumes "no_digit r"
  shows "parse_digits (show_nat n @ r) = Some (int n, r)"
proof -
  have all: "\<And>c. c \<in> set (show_nat n) \<Longrightarrow> digit c"
    using show_nat_digits by (simp add: list_all_iff)
  have "takeWhile digit r = []" "dropWhile digit r = r"
    using assms by (auto simp: no_digit_def split: list.splits)
  then have "takeWhile digit (show_nat n @ r) = show_nat n" "dropWhile digit (show_nat n @ r) = r"
    using all by (simp_all add: takeWhile_append2 dropWhile_append2)
  then show ?thesis
    by (simp add: parse_digits_def decimal_show_nat)
qed

lemma hex_value_digit: "n < 16 \<Longrightarrow> hex_value (hex_digit n) = n"
  by (auto simp: hex_value_def hex_digit_def unat_of_nat)

lemma hex_number_hex4: "hex_number (hex4 c) = unat c"
proof -
  define n where "n = unat c"
  have "unat c < 2 ^ LENGTH(16)" by (rule unsigned_less)
  then have "n div 4096 < 16" by (simp add: n_def div_less_iff_less_mult)
  then have "hex_number (hex4 c) =
      ((n div 4096 * 16 + n div 256 mod 16) * 16 + n div 16 mod 16) * 16 + n mod 16"
    by (simp add: hex_number_def hex4_def Let_def hex_value_digit n_def)
  moreover have "n div 4096 = n div 256 div 16" "n div 256 = n div 16 div 16"
    by (simp_all add: div_mult2_eq [symmetric])
  ultimately show ?thesis by (simp only: div_mult_mod_eq n_def)
qed

lemma unescape_hex4: "unescape (92 # 117 # hex4 c @ r) = map_option (\<lambda>(s, r). (c # s, r)) (unescape r)"
proof -
  obtain w x y z where h: "hex4 c = [w, x, y, z]" by (simp add: hex4_def Let_def)
  then have "hex_number [w, x, y, z] = unat c" using hex_number_hex4 [of c] by simp
  then show ?thesis by (simp add: h)
qed

lemma unescape_unit:
  "unescape (escape_unit c @ r) = map_option (\<lambda>(s, r). (c # s, r)) (unescape r)"
  by (simp add: escape_unit_def unescape_hex4 unescape_char_def del: unescape.simps(2))
     (simp add: unescape_char_def)

lemma surrogate_raw:
  assumes "high_surrogate c \<or> low_surrogate c"
  shows "c \<noteq> 34" "c \<noteq> 92"
  using assms by (auto simp: high_surrogate_def low_surrogate_def in_range_def)

lemma unescape_escape: "unescape (escape s @ 34 # r) = Some (s, r)"
  by (induction s rule: escape.induct) (auto simp: unescape_unit surrogate_raw)

lemma strip_append [simp]: "strip p (p @ s) = Some s"
  by (simp add: strip_def)

lemma strip_Cons [simp]: "strip [c] (d # s) = (if c = d then Some s else None)"
  by (simp add: strip_def)

lemma strip_single_Nil [simp]: "strip [c] [] = None"
  by (simp add: strip_def)

text \<open>Fuel that suffices for a value.\<close>

fun parse_fuel :: "json \<Rightarrow> nat" where
  "parse_fuel (JArr vs) = 1 + sum_list (map (\<lambda>v. 1 + parse_fuel v) vs)"
| "parse_fuel (JObj ps) = 1 + sum_list (map (\<lambda>(k, v). 1 + parse_fuel v) ps)"
| "parse_fuel _ = 1"

lemma stringify_first:
  "\<exists>c cs. stringify v = c # cs \<and> c \<noteq> 93 \<and> c \<noteq> 125 \<and> c \<noteq> 44"
proof (cases v)
  case (JInt n)
  have "\<exists>c cs. show_nat m = c # cs \<and> digit c" for m
    using show_nat_digits [of m] by (cases "show_nat m") auto
  then obtain c cs where "show_nat (nat \<bar>n\<bar>) = c # cs" "digit c" by blast
  then show ?thesis
    using JInt by (auto simp: show_int_def js_def digit_def in_range_def)
qed (auto simp: quote_def js_def)

lemma show_nat_first: "\<exists>c cs. show_nat m = c # cs \<and> digit c"
  using show_nat_digits [of m] by (cases "show_nat m") auto

lemma no_digit_simps [simp]: "no_digit []" "no_digit (c # r) \<longleftrightarrow> \<not> digit c"
  by (simp_all add: no_digit_def)

lemma digit_units [simp]: "\<not> digit 34" "\<not> digit 44" "\<not> digit 93" "\<not> digit 125"
  by (simp_all add: digit_def in_range_def)

lemma parse_show_int:
  assumes "no_digit r"
  shows "parse_value (Suc f) (show_int n @ r) = Some (JInt n, r)"
proof (cases "n < 0")
  case True
  then show ?thesis
    using assms by (simp add: show_int_def js_def parse_digits_show_nat)
next
  case False
  obtain c cs where c: "show_nat (nat n) = c # cs" "digit c" using show_nat_first by blast
  then have "parse_value (Suc f) (c # cs @ r)
      = map_option (\<lambda>(n, r). (JInt n, r)) (parse_digits (c # cs @ r))"
    by (auto simp: digit_def in_range_def)
  moreover have "parse_digits (c # cs @ r) = Some (n, r)"
    using parse_digits_show_nat [OF assms, of "nat n"] c False by simp
  ultimately show ?thesis using c False by (simp add: show_int_def)
qed

lemma parse_elements_stringify:
  assumes "\<And>v f r. v \<in> set vs \<Longrightarrow> parse_fuel v \<le> f \<Longrightarrow> no_digit r \<Longrightarrow>
             parse_value f (stringify v @ r) = Some (v, r)"
    and "vs \<noteq> []" "sum_list (map (\<lambda>v. 1 + parse_fuel v) vs) \<le> f"
  shows "parse_elements f (commas (map stringify vs) @ 93 # r) = Some (vs, r)"
  using assms
proof (induction vs arbitrary: f)
  case Nil
  then show ?case by simp
next
  case (Cons v vs)
  then obtain g where f: "f = Suc g" by (cases f) auto
  show ?case
  proof (cases vs)
    case Nil
    with Cons.prems f show ?thesis by simp
  next
    case (Cons w ws)
    then have "parse_elements g (commas (map stringify vs) @ 93 # r) = Some (vs, r)"
      using Cons.IH [of g] Cons.prems f by auto
    moreover have "parse_value g (stringify v @ 44 # commas (map stringify vs) @ 93 # r)
        = Some (v, 44 # commas (map stringify vs) @ 93 # r)"
      using Cons.prems f by simp
    ultimately show ?thesis using Cons f by simp
  qed
qed

lemma parse_members_stringify:
  assumes "\<And>k v f r. (k, v) \<in> set ps \<Longrightarrow> parse_fuel v \<le> f \<Longrightarrow> no_digit r \<Longrightarrow>
             parse_value f (stringify v @ r) = Some (v, r)"
    and "ps \<noteq> []" "sum_list (map (\<lambda>(k, v). 1 + parse_fuel v) ps) \<le> f"
  shows "parse_members f (commas (map (\<lambda>(k, v). quote k @ 58 # stringify v) ps) @ 125 # r)
         = Some (ps, r)"
  using assms
proof (induction ps arbitrary: f)
  case Nil
  then show ?case by simp
next
  case (Cons p ps)
  obtain k v where p: "p = (k, v)" by (cases p)
  from Cons.prems p obtain g where f: "f = Suc g" by (cases f) auto
  have val: "parse_value g (stringify v @ r') = Some (v, r')" if "no_digit r'" for r'
    using Cons.prems(1) [of k v g r'] Cons.prems(3) p f that by simp
  let ?rest = "commas (map (\<lambda>(k, v). quote k @ 58 # stringify v) ps) @ 125 # r"
  show ?case
  proof (cases ps)
    case Nil
    then show ?thesis using p f val by (simp add: quote_def unescape_escape)
  next
    case (Cons q qs)
    then have "parse_members g ?rest = Some (ps, r)"
      using Cons.IH [of g] Cons.prems p f by auto
    moreover obtain k' v' where "q = (k', v')" by (cases q)
    ultimately show ?thesis
      using Cons p f val by (simp add: quote_def unescape_escape)
  qed
qed

lemma commas_first:
  assumes "xs \<noteq> []" "\<And>x. x \<in> set xs \<Longrightarrow> \<exists>c cs. x = c # cs \<and> c \<noteq> u"
  shows "\<exists>c cs. commas xs = c # cs \<and> c \<noteq> u"
proof (cases xs rule: commas.cases)
  case (3 x y ys)
  then show ?thesis using assms(2) [of x] by auto
qed (use assms in auto)

lemma parse_stringify:
  "parse_fuel v \<le> f \<Longrightarrow> no_digit r \<Longrightarrow> parse_value f (stringify v @ r) = Some (v, r)"
proof (induction v arbitrary: f r)
  case (JArr vs)
  then obtain g where f: "f = Suc g" by (cases f) auto
  show ?case
  proof (cases "vs = []")
    case True
    with f show ?thesis by simp
  next
    case False
    then obtain c cs where "commas (map stringify vs) = c # cs" "c \<noteq> 93"
      using commas_first [of "map stringify vs" 93] stringify_first by fastforce
    moreover have "parse_elements g (commas (map stringify vs) @ 93 # r) = Some (vs, r)"
      using JArr False f by (intro parse_elements_stringify) auto
    ultimately show ?thesis using f by simp
  qed
next
  case (JObj ps)
  then obtain g where f: "f = Suc g" by (cases f) auto
  show ?case
  proof (cases "ps = []")
    case True
    with f show ?thesis by simp
  next
    case False
    then obtain c cs where "commas (map (\<lambda>(k, v). quote k @ 58 # stringify v) ps) = c # cs" "c \<noteq> 125"
      using commas_first [of "map (\<lambda>(k, v). quote k @ 58 # stringify v) ps" 125]
      by (fastforce simp: quote_def)
    moreover have "parse_members g (commas (map (\<lambda>(k, v). quote k @ 58 # stringify v) ps) @ 125 # r)
        = Some (ps, r)"
      using JObj False f by (intro parse_members_stringify) (auto intro: snds.intros)
    ultimately show ?thesis using f by simp
  qed
next
  case (JInt n)
  then show ?case by (cases f) (simp_all add: parse_show_int)
next
  case (JStr s)
  then show ?case by (cases f) (simp_all add: quote_def unescape_escape)
next
  case (JBool b)
  then show ?case by (cases f) (simp_all add: js_def strip_def)
next
  case JNull
  then show ?case by (cases f) (simp_all add: js_def strip_def)
qed

lemma length_commas: "sum_list (map length xs) + length xs \<le> length (commas xs) + 1"
  by (induction xs rule: commas.induct) auto

lemma parse_fuel_length: "parse_fuel v \<le> 2 * length (stringify v)"
proof (induction v)
  case (JArr vs)
  have "sum_list (map (\<lambda>v. 1 + parse_fuel v) vs) \<le> sum_list (map (\<lambda>v. 1 + 2 * length (stringify v)) vs)"
    using JArr by (intro sum_list_mono) auto
  also have "\<dots> = length vs + 2 * sum_list (map length (map stringify vs))"
    by (induction vs) auto
  also have "\<dots> \<le> 2 * length (commas (map stringify vs)) + 2"
    using length_commas [of "map stringify vs"] by simp
  finally show ?case by simp
next
  case (JObj ps)
  let ?m = "\<lambda>(k, v). quote k @ 58 # stringify v"
  have "sum_list (map (\<lambda>(k, v). 1 + parse_fuel v) ps) \<le> sum_list (map (\<lambda>p. 1 + 2 * length (?m p)) ps)"
    using JObj by (intro sum_list_mono) (fastforce intro: snds.intros)
  also have "\<dots> = length ps + 2 * sum_list (map length (map ?m ps))"
    by (induction ps) auto
  also have "\<dots> \<le> 2 * length (commas (map ?m ps)) + 2"
    using length_commas [of "map ?m ps"] by simp
  finally show ?case by simp
next
  case (JInt n)
  show ?case using stringify_first [of "JInt n"] by auto
next
  case (JStr s)
  show ?case by (simp add: quote_def)
qed (simp_all add: js_def)

lemma JSON_parse_stringify: "JSON_parse (stringify v) = Some v"
  using parse_stringify [OF parse_fuel_length, of "[]" v] by (simp add: JSON_parse_def)

lemma stringify_inject [simp]: "stringify v = stringify w \<longleftrightarrow> v = w"
  by (metis JSON_parse_stringify option.inject)

section \<open>Signed payloads\<close>

text \<open>
  What every signed token of the packages relies on: its payload is a canonical text of its
  fields. A verifier that accepts a payload then accepts it for these fields only.
\<close>

locale signed_payload =
  fixes canonical :: "'u \<Rightarrow> jsstr"
  assumes canonical_inject: "canonical a = canonical b \<Longrightarrow> a = b"
begin

lemma payload_unique: "p = canonical a \<Longrightarrow> p = canonical b \<Longrightarrow> a = b"
  using canonical_inject by simp

text \<open>If only issued payloads carry a valid signature, only issued tokens verify.\<close>

lemma authentic:
  assumes "\<And>p s. verify p s \<Longrightarrow> p \<in> canonical ` issued"
    and "p = canonical u" "verify p s"
  shows "u \<in> issued"
proof -
  obtain w where "w \<in> issued" "p = canonical w" using assms(1) [OF assms(3)] by blast
  with assms(2) canonical_inject show ?thesis by metis
qed

end

text \<open>\<open>xs.join(separator)\<close>\<close>

fun join :: "jsstr \<Rightarrow> jsstr list \<Rightarrow> jsstr" where
  "join separator [] = []"
| "join separator [x] = x"
| "join separator (x # y # ys) = x @ separator @ join separator (y # ys)"

text \<open>A tenant scope inside a payload.\<close>

fun scope_json :: "tenant_scope \<Rightarrow> json" where
  "scope_json (Organization_scope a) =
     JObj [(js ''scopeType'', JStr (js ''organization'')), (js ''organizationId'', JStr a)]"
| "scope_json (Workspace_scope a b) =
     JObj [(js ''scopeType'', JStr (js ''workspace'')), (js ''organizationId'', JStr a),
           (js ''workspaceId'', JStr b)]"
| "scope_json (Project_scope a b c) =
     JObj [(js ''scopeType'', JStr (js ''project'')), (js ''organizationId'', JStr a),
           (js ''workspaceId'', JStr b), (js ''projectId'', JStr c)]"

lemma scope_json_inject [simp]: "scope_json a = scope_json b \<longleftrightarrow> a = b"
  by (cases a; cases b) auto

end
