(* ===== verification/Samples.thy ===== *)
theory Samples
  imports Json
begin

text \<open>
  Concrete inputs for the witnesses: an environment that behaves as documented on every input
  the witnesses use, identifiers, times and scopes.
\<close>

definition sample_env :: env where
  "sample_env =
     \<lparr>uuid_format = matches nonGuessableUuidPattern,
      date_time_format = (\<lambda>s. iso_date s \<noteq> None),
      nfc = (\<lambda>s. s),
      other_date = (\<lambda>_. None),
      lower_case = ascii_lower,
      to_upper = ascii_upper,
      collation = (\<lambda>s. of_nat (length s)),
      number_text = (\<lambda>_. js ''0.5'')\<rparr>"

definition uuid_of :: "char \<Rightarrow> jsstr" where
  "uuid_of c =
     js (replicate 8 c @ ''-'' @ replicate 4 c @ ''-4'' @ replicate 3 c @ ''-8'' @ replicate 3 c
         @ ''-'' @ replicate 12 c)"

abbreviation sample_id :: "char \<Rightarrow> jsval" where
  "sample_id c \<equiv> Str (uuid_of c)"

text \<open>Second \<open>n\<close> (two digits) of a fixed minute.\<close>

definition time_of :: "string \<Rightarrow> jsstr" where
  "time_of n = js (''2026-01-01T00:00:'' @ n @ ''.000Z'')"

abbreviation sample_time :: "string \<Rightarrow> jsval" where
  "sample_time n \<equiv> Str (time_of n)"

definition hash_of :: "char \<Rightarrow> jsstr" where
  "hash_of c = js (replicate 64 c)"

abbreviation sample_hash :: "char \<Rightarrow> jsval" where
  "sample_hash c \<equiv> Str (hash_of c)"

definition org_scope :: "char \<Rightarrow> tenant_scope" where
  "org_scope a = Organization_scope (uuid_of a)"

definition ws_scope :: "char \<Rightarrow> char \<Rightarrow> tenant_scope" where
  "ws_scope a b = Workspace_scope (uuid_of a) (uuid_of b)"

abbreviation sample_scope :: "char \<Rightarrow> char \<Rightarrow> jsval" where
  "sample_scope a b \<equiv> scope_object (ws_scope a b)"

lemma sample_uuid_documented: "uuid_format_documented sample_env"
  by (simp add: uuid_format_documented_def sample_env_def)

section \<open>What the samples parse to\<close>

definition letter :: "char \<Rightarrow> bool" where
  "letter c \<longleftrightarrow> c \<in> set ''abcdef''"

lemma letter_simps [simp]:
  "letter CHR ''a''" "letter CHR ''b''" "letter CHR ''c''" "letter CHR ''d''" "letter CHR ''e''"
  "letter CHR ''f''"
  by (simp_all add: letter_def)

lemma letter_unit:
  assumes "letter c"
  shows "lower_hex (of_char c)" "uuid_variant (of_char CHR ''8'')" "\<not> upper (of_char c)"
  using assms
  by (auto simp: letter_def lower_hex_def in_range_def uuid_variant_def upper_def)

lemma js_replicate: "js (replicate n c) = replicate n (of_char c)"
  by (simp add: js_def)

lemma matches_replicate: "p c \<Longrightarrow> matches (replicate n p) (replicate n c)"
  by (simp add: matches_def list_all2_conv_all_nth)

lemma matches_appendI: "matches ps s \<Longrightarrow> matches qs t \<Longrightarrow> matches (ps @ qs) (s @ t)"
  by (simp add: matches_def list_all2_appendI)

lemma matches_Cons [simp]: "matches (p # ps) (c # s) \<longleftrightarrow> p c \<and> matches ps s"
  by (simp add: matches_def)

lemma matches_uuid_of:
  assumes "letter c"
  shows "matches nonGuessableUuidPattern (uuid_of c)"
proof -
  have "any_hex (of_char c)" using letter_unit [OF assms] by (simp add: any_hex_def)
  moreover have "is_char CHR ''-'' (of_char CHR ''-'')" "uuid_version (of_char CHR ''4'')"
    by (simp_all add: is_char_def uuid_version_def)
  ultimately show ?thesis
    using letter_unit(2) [OF assms]
    by (auto simp only: uuid_of_def nonGuessableUuidPattern_def js_append js_Cons js_Nil js_replicate
        append_Cons append_Nil append_assoc matches_Cons
        intro!: matches_appendI matches_replicate)
qed

lemma stable_form_uuid_of [simp]:
  assumes "letter c"
  shows "stable_form (uuid_of c)"
proof -
  have "\<not> upper (of_char c)" using letter_unit(3) [OF assms] .
  moreover have "\<not> upper (of_char CHR ''-'')" "\<not> upper (of_char CHR ''4'')"
    "\<not> upper (of_char CHR ''8'')"
    by (simp_all add: upper_def in_range_def)
  ultimately have "ascii_lower (uuid_of c) = uuid_of c"
    by (simp add: uuid_of_def ascii_lower_def js_append js_Cons js_replicate)
  with matches_uuid_of [OF assms] show ?thesis by (simp add: stable_form_def)
qed

lemma uuid_of_inject [simp]: "uuid_of a = uuid_of b \<longleftrightarrow> a = b"
  by (auto simp: uuid_of_def numeral_eq_Suc)

lemma stable_sample [simp]: "letter c \<Longrightarrow> stable sample_env (sample_id c) = Some (uuid_of c)"
  by (simp add: identifierFrom_Str sample_uuid_documented)

lemma ws_scope_wf [simp]: "letter a \<Longrightarrow> letter b \<Longrightarrow> wf_scope (ws_scope a b)"
  by (simp add: ws_scope_def)

lemma org_scope_wf [simp]: "letter a \<Longrightarrow> wf_scope (org_scope a)"
  by (simp add: org_scope_def)

lemma scope_sample [simp]: "wf_scope s \<Longrightarrow> scope_value sample_env (scope_object s) = Some s"
  by (simp add: scope_value_def parse_scope_object sample_uuid_documented)

lemma sha256_sample [simp]: "letter c \<Longrightarrow> sha256_hex (sample_hash c) = Some (hash_of c)"
  using letter_unit [of c] by (simp add: sha256_hex_def hash_of_def js_def list_all_iff)

lemma hash_of_inject [simp]: "hash_of a = hash_of b \<longleftrightarrow> a = b"
  by (auto simp: hash_of_def numeral_eq_Suc)

lemma iso_date_sample [simp]:
  "iso_date (time_of ''00'') = Some 1767225600000"
  "iso_date (time_of ''01'') = Some 1767225601000"
  "iso_date (time_of ''02'') = Some 1767225602000"
  "iso_date (time_of ''03'') = Some 1767225603000"
  "iso_date (time_of ''04'') = Some 1767225604000"
  "iso_date (time_of ''05'') = Some 1767225605000"
  "iso_date (time_of ''09'') = Some 1767225609000"
  "iso_date (time_of ''30'') = Some 1767225630000"
  by code_simp+

lemma timestamp_sample [simp]:
  assumes "iso_date (time_of n) = Some t"
  shows "timestamp sample_env (sample_time n) = Some (time_of n)"
proof -
  have "last (time_of n) = of_char CHR ''Z''" by (simp add: time_of_def js_def)
  moreover have "time_of n \<noteq> []" by (simp add: time_of_def)
  ultimately show ?thesis
    using assms
    by (simp add: timestamp_def parseStrictUtcTimestampV1_def contract_utc_timestamp_def
        sample_env_def is_char_def result_simps)
qed

lemma Date_parse_sample [simp]: "iso_date (time_of n) = Some t \<Longrightarrow> Date_parse E (time_of n) = Some t"
  by (simp add: Date_parse_def)

text \<open>A word of printable ASCII characters is its own normal form.\<close>

definition plain :: "string \<Rightarrow> bool" where
  "plain s \<longleftrightarrow> s \<noteq> [] \<and> list_all (\<lambda>c. 33 \<le> (of_char c :: nat) \<and> (of_char c :: nat) \<le> 126) s"

lemma unat_of_char: "unat (of_char c :: 16 word) = of_char c"
proof -
  have "of_char c < (256::nat)" by simp
  then have "(of_char c :: nat) mod 65536 = of_char c" by (intro mod_less) linarith
  then have "unat (of_nat (of_char c) :: 16 word) = of_char c"
    by (simp add: unat_of_nat del: of_nat_of_char)
  then show ?thesis by (simp only: of_nat_of_char)
qed

lemma trim_id: "list_all (\<lambda>c. \<not> whitespace c) s \<Longrightarrow> trim s = s"
proof -
  assume "list_all (\<lambda>c. \<not> whitespace c) s"
  then have "dropWhile whitespace s = s" "dropWhile whitespace (rev s) = rev s"
    by (auto simp: list_all_iff dropWhile_eq_self_iff hd_rev)
  then show ?thesis by (simp add: trim_def)
qed

lemma text_plain [simp]:
  assumes "plain s" "length s \<le> n"
  shows "text_value sample_env (Str (js s)) n = Some (js s)"
proof -
  have unit: "33 \<le> unat c \<and> unat c \<le> 126" if "c \<in> set (js s)" for c
    using assms that by (auto simp: plain_def js_def list_all_iff unat_of_char)
  then have "list_all (\<lambda>c. \<not> whitespace c) (js s)" "\<not> list_ex control (js s)"
    by (fastforce simp: list_all_iff list_ex_iff whitespace_def control_def in_range_def)+
  with assms show ?thesis
    by (simp add: text_value_def Let_def trim_id plain_def sample_env_def)
qed

section \<open>Canonical payloads of the samples\<close>

definition printable :: "16 word \<Rightarrow> bool" where
  "printable c \<longleftrightarrow> in_range 32 126 c"

fun visible_json :: "json \<Rightarrow> bool" where
  "visible_json (JStr s) = list_all printable s"
| "visible_json (JArr vs) = list_all visible_json vs"
| "visible_json (JObj ps) = list_all (\<lambda>(k, v). list_all printable k \<and> visible_json v) ps"
| "visible_json _ = True"

lemma visible_js [simp]:
  "list_all printable (js s) \<longleftrightarrow> (\<forall>c \<in> set s. 32 \<le> (of_char c :: nat) \<and> (of_char c :: nat) \<le> 126)"
  by (simp add: js_def list_all_iff printable_def in_range_def unat_of_char)

lemma visible_units [simp]:
  "printable 34" "printable 44" "printable 58" "printable 91" "printable 93" "printable 123" "printable 125"
  by (simp_all add: printable_def in_range_def)

lemma visible_escape: "list_all printable s \<Longrightarrow> list_all printable (escape s) \<and> length (escape s) \<le> 2 * length s"
  by (induction s rule: escape.induct)
     (auto simp: printable_def in_range_def escape_unit_def high_surrogate_def low_surrogate_def)

lemma visible_quote: "list_all printable s \<Longrightarrow> list_all printable (quote s)"
  using visible_escape [of s] by (simp add: quote_def printable_def in_range_def)

lemma visible_commas: "list_all (list_all printable) xs \<Longrightarrow> list_all printable (commas xs)"
  by (induction xs rule: commas.induct) (auto simp: printable_def in_range_def)

lemma visible_show_int: "list_all printable (show_int n)"
proof -
  have "list_all printable (show_nat m)" for m
    using show_nat_digits [of m] by (auto simp: list_all_iff printable_def digit_def in_range_def)
  then show ?thesis by (simp add: show_int_def)
qed

lemma visible_stringify: "visible_json v \<Longrightarrow> list_all printable (stringify v)"
proof (induction v)
  case (JArr vs)
  then have "list_all (list_all printable) (map stringify vs)" by (auto simp: list_all_iff)
  from visible_commas [OF this] show ?case by simp
next
  case (JObj ps)
  have "list_all printable (quote k @ 58 # stringify v)" if "(k, v) \<in> set ps" for k v
    using JObj that visible_quote [of k] by (fastforce simp: list_all_iff)
  then have "list_all (list_all printable) (map (\<lambda>(k, v). quote k @ 58 # stringify v) ps)"
    by (auto simp: list_all_iff)
  from visible_commas [OF this] show ?case by simp
qed (simp_all add: visible_quote visible_show_int)

lemma trim_nonempty: "s \<noteq> [] \<Longrightarrow> \<not> whitespace (hd s) \<Longrightarrow> trim s \<noteq> []"
  by (cases s) (auto simp: trim_def dropWhile_eq_Nil_conv)

lemma length_trim: "length (trim s) \<le> length s"
  unfolding trim_def by (metis length_rev length_dropWhile_le order_trans)

lemma text_visible:
  assumes "list_all printable s" "s \<noteq> []" "\<not> whitespace (hd s)" "length s \<le> n"
  shows "text_value sample_env (Str s) n \<noteq> None"
proof -
  have "\<not> list_ex control s"
    using assms(1) by (auto simp: list_all_iff list_ex_iff printable_def control_def in_range_def)
  then show ?thesis
    using assms trim_nonempty [of s] length_trim [of s]
    by (simp add: text_value_def Let_def sample_env_def)
qed

lemma visible_samples [simp]:
  "letter c \<Longrightarrow> list_all printable (uuid_of c)"
  "list_all printable (js t) \<Longrightarrow> list_all printable (time_of t)"
  by (auto simp: uuid_of_def time_of_def letter_def)

lemma length_samples [simp]: "length (uuid_of c) = 36" "length (time_of n) = 22 + length n"
  by (simp_all add: uuid_of_def time_of_def)

text \<open>A bound on the length of a printed value.\<close>

fun json_bound :: "json \<Rightarrow> nat" where
  "json_bound JNull = 4"
| "json_bound (JBool b) = 5"
| "json_bound (JInt n) = length (show_int n)"
| "json_bound (JStr s) = 2 * length s + 2"
| "json_bound (JArr vs) = sum_list (map (\<lambda>v. json_bound v + 1) vs) + 2"
| "json_bound (JObj ps) = sum_list (map (\<lambda>(k, v). 2 * length k + json_bound v + 4) ps) + 2"

lemma length_commas_le: "length (commas xs) \<le> sum_list (map (\<lambda>x. length x + 1) xs)"
  by (induction xs rule: commas.induct) auto

lemma length_stringify: "visible_json v \<Longrightarrow> length (stringify v) \<le> json_bound v"
proof (induction v)
  case (JArr vs)
  have "sum_list (map (\<lambda>v. length (stringify v) + 1) vs) \<le> sum_list (map (\<lambda>v. json_bound v + 1) vs)"
    using JArr by (intro sum_list_mono) (auto simp: list_all_iff)
  then show ?case using length_commas_le [of "map stringify vs"] by (simp add: comp_def)
next
  case (JObj ps)
  let ?m = "\<lambda>(k, v). quote k @ 58 # stringify v"
  have "length (?m p) + 1 \<le> (case p of (k, v) \<Rightarrow> 2 * length k + json_bound v + 4)" if "p \<in> set ps" for p
    using JObj that visible_escape [of "fst p"]
    by (cases p) (fastforce simp: list_all_iff quote_def)
  then have "sum_list (map (\<lambda>p. length (?m p) + 1) ps)
      \<le> sum_list (map (\<lambda>(k, v). 2 * length k + json_bound v + 4) ps)"
    by (intro sum_list_mono) simp
  then show ?case using length_commas_le [of "map ?m ps"] by (simp add: comp_def)
qed (auto simp: quote_def dest: visible_escape)

lemma stringify_text:
  assumes "visible_json (JObj ps)" "json_bound (JObj ps) \<le> n"
  shows "text_value sample_env (Str (stringify (JObj ps))) n \<noteq> None"
  using length_stringify [OF assms(1)] visible_stringify [OF assms(1)] assms(2)
  by (intro text_visible) (auto simp: whitespace_def in_range_def)

end
