(* ===== verification/Authorization.thy ===== *)
theory Authorization
  imports Permissions Samples
begin

text \<open>
  packages/domain/src/authorization/v1.ts: the scoped authorization evaluator. The authority
  provider is server-composed code behind an interface, so it is a parameter: a function of the
  calls it has already answered in this evaluation and of the current call, \<open>None\<close> when the
  call throws, rejects or exceeds its time-out. An evaluation returns the decision and the calls
  it made, so that what a denied request can reach is part of the model.
\<close>

section \<open>Data\<close>

datatype denial_code =
    AUTHORITY_INVALID
  | AUTHORITY_UNAVAILABLE
  | CHANNEL_NOT_ALLOWED
  | INACTIVE_MEMBERSHIP
  | INVALID_AUTHORIZATION_REQUEST
  | INVALID_RESOURCE_SELECTOR
  | POLICY_CONDITIONS_REQUIRED
  | RESOURCE_IDENTITY_MISMATCH
  | RESOURCE_OWNERSHIP_MISMATCH
  | RESOURCE_TYPE_MISMATCH
  | ROLE_PERMISSION_MISSING
  | TENANT_FILTER_INVALID
  | TENANT_FILTER_REQUIRED
  | TENANT_SCOPE_MISMATCH
  | UNKNOWN_CHANNEL
  | UNKNOWN_PERMISSION
  | UNKNOWN_ROLE

datatype decision = Allow permission tenant_scope | deny denial_code

record resource_selector =
  resource_type :: resource_type
  resource_id :: stable_id

text \<open>Authoritative resources and scoped lookup queries are selectors with a tenant scope.\<close>

record scoped_resource = resource_selector +
  resource_scope :: tenant_scope

record evaluated_membership =
  member_role :: role
  member_scope :: tenant_scope

record parsed_membership =
  roleId :: jsstr
  membershipScope :: tenant_scope
  membershipActive :: bool

datatype authority_call =
    resolveAuthenticatedPrincipalV1
  | lookupResourceV1 scoped_resource
  | resolveMembershipV1 stable_id scoped_resource
  | evaluatePolicyV1 stable_id permission channel evaluated_membership scoped_resource

type_synonym authority = "authority_call list \<Rightarrow> authority_call \<Rightarrow> jsval option"

section \<open>Parsing\<close>

fun resourceScopeTypes :: "resource_type \<Rightarrow> scope_type list" where
  "resourceScopeTypes Approval_request_resource = [Workspace_type, Project_type]"
| "resourceScopeTypes Artifact_resource = [Workspace_type, Project_type]"
| "resourceScopeTypes Billing_account_resource = [Organization_type]"
| "resourceScopeTypes Device_resource = [Organization_type]"
| "resourceScopeTypes Service_account_resource = [Organization_type, Workspace_type]"
| "resourceScopeTypes Job_resource = [Workspace_type, Project_type]"
| "resourceScopeTypes Organization_resource = [Organization_type]"
| "resourceScopeTypes Project_resource = [Project_type]"
| "resourceScopeTypes Workspace_resource = [Workspace_type]"

definition isAuthorizationChannelV1 :: "jsval \<Rightarrow> channel option" where
  "isAuthorizationChannelV1 v = one_of AUTHORIZATION_CHANNELS_V1 v"

definition isResourceTypeV1 :: "jsval \<Rightarrow> resource_type option" where
  "isResourceTypeV1 v = one_of RESOURCE_TYPES_V1 v"

text \<open>\<open>None\<close> where the source throws a \<open>TypeError\<close>.\<close>

definition providerCallTimeoutMsV1 :: "jsval \<Rightarrow> int option" where
  "providerCallTimeoutMsV1 v =
     (if v = Undefined then Some 1000
      else if \<not> isRecord v \<or> \<not> hasExactKeys v [''providerCallTimeoutMs''] then None
      else safe_integer_within 1 60000 (field v ''providerCallTimeoutMs''))"

definition parseResourceSelectorV1 :: "env \<Rightarrow> jsval \<Rightarrow> resource_selector option" where
  "parseResourceSelectorV1 E v =
     (if \<not> isRecord v \<or> \<not> hasExactKeys v [''resourceId'', ''resourceType''] then None
      else case (isResourceTypeV1 (field v ''resourceType''), stable E (field v ''resourceId'')) of
             (Some t, Some i) \<Rightarrow> Some \<lparr>resource_type = t, resource_id = i\<rparr>
           | _ \<Rightarrow> None)"

definition parsePrincipalV1 :: "env \<Rightarrow> jsval \<Rightarrow> stable_id option" where
  "parsePrincipalV1 E v =
     (if \<not> isRecord v \<or> \<not> hasExactKeys v [''principalId''] then None
      else stable E (field v ''principalId''))"

definition parseAuthoritativeResourceV1 :: "env \<Rightarrow> jsval \<Rightarrow> scoped_resource option" where
  "parseAuthoritativeResourceV1 E v =
     (if \<not> isRecord v \<or> \<not> hasExactKeys v [''resourceId'', ''resourceType'', ''tenantScope''] then None
      else case (isResourceTypeV1 (field v ''resourceType''), stable E (field v ''resourceId''),
                 scope_value E (field v ''tenantScope'')) of
             (Some t, Some i, Some s) \<Rightarrow>
               if scopeType s \<notin> set (resourceScopeTypes t) then None
               else Some \<lparr>resource_type = t, resource_id = i, resource_scope = s\<rparr>
           | _ \<Rightarrow> None)"

definition parseMembershipV1 :: "env \<Rightarrow> jsval \<Rightarrow> parsed_membership option" where
  "parseMembershipV1 E v =
     (if \<not> isRecord v \<or> \<not> hasExactKeys v [''membershipActive'', ''membershipScope'', ''roleId''] then None
      else case (field v ''roleId'', field v ''membershipActive'',
                 scope_value E (field v ''membershipScope'')) of
             (Str r, Bool a, Some s) \<Rightarrow>
               if r = [] then None
               else Some \<lparr>roleId = r, membershipScope = s, membershipActive = a\<rparr>
           | _ \<Rightarrow> None)"

definition parsePolicyResultV1 :: "jsval \<Rightarrow> bool option" where
  "parsePolicyResultV1 v =
     (if \<not> isRecord v \<or> \<not> hasExactKeys v [''satisfied''] then None
      else as_bool (field v ''satisfied''))"

definition resourceIdentityIsCoherentV1 :: "scoped_resource \<Rightarrow> bool" where
  "resourceIdentityIsCoherentV1 r =
     (if resource_type r = Organization_resource then
        scopeType (resource_scope r) = Organization_type
        \<and> resource_id r = organizationId (resource_scope r)
      else if resource_type r = Workspace_resource then
        scopeType (resource_scope r) = Workspace_type
        \<and> Some (resource_id r) = workspace_of (resource_scope r)
      else if resource_type r = Project_resource then
        scopeType (resource_scope r) = Project_type
        \<and> Some (resource_id r) = project_of (resource_scope r)
      else True)"

section \<open>The evaluator\<close>

text \<open>An evaluation threads the log of provider calls; every early return keeps it.\<close>

type_synonym evaluation = "authority_call list \<Rightarrow> decision \<times> authority_call list"

definition deny_now :: "denial_code \<Rightarrow> evaluation" where
  "deny_now c calls = (deny c, calls)"

definition check :: "bool \<Rightarrow> denial_code \<Rightarrow> evaluation \<Rightarrow> evaluation" where
  "check bad c k = (if bad then deny_now c else k)"

definition need :: "'a option \<Rightarrow> denial_code \<Rightarrow> ('a \<Rightarrow> evaluation) \<Rightarrow> evaluation" where
  "need x c k = (case x of None \<Rightarrow> deny_now c | Some v \<Rightarrow> k v)"

text \<open>\<open>await withProviderCallTimeoutV1(...)\<close> inside the \<open>try\<close> block\<close>

definition withProviderCallTimeoutV1 ::
    "authority \<Rightarrow> authority_call \<Rightarrow> (jsval \<Rightarrow> evaluation) \<Rightarrow> evaluation" where
  "withProviderCallTimeoutV1 P call k calls =
     (case P calls call of
        None \<Rightarrow> (deny AUTHORITY_UNAVAILABLE, calls @ [call])
      | Some v \<Rightarrow> k v (calls @ [call]))"

text \<open>The part inside \<open>try\<close>: everything the provider is asked.\<close>

definition consultAuthority ::
    "env \<Rightarrow> authority \<Rightarrow> permission \<Rightarrow> channel \<Rightarrow> tenant_scope \<Rightarrow> resource_selector \<Rightarrow> evaluation" where
  "consultAuthority E P permission channel tenantFilter selector =
     withProviderCallTimeoutV1 P resolveAuthenticatedPrincipalV1 (\<lambda>answer.
     need (parsePrincipalV1 E answer) AUTHORITY_INVALID (\<lambda>principal.
     withProviderCallTimeoutV1 P
       (lookupResourceV1 \<lparr>resource_type = resource_type selector, resource_id = resource_id selector,
                          resource_scope = tenantFilter\<rparr>) (\<lambda>answer.
     need (parseAuthoritativeResourceV1 E answer) AUTHORITY_INVALID (\<lambda>resource.
     check (resource_type resource \<noteq> resource_type selector
            \<or> resource_id resource \<noteq> resource_id selector
            \<or> \<not> tenantScopesEqualV1 (resource_scope resource) tenantFilter)
       RESOURCE_OWNERSHIP_MISMATCH (
     check (\<not> resourceIdentityIsCoherentV1 resource) RESOURCE_IDENTITY_MISMATCH (
     withProviderCallTimeoutV1 P (resolveMembershipV1 principal resource) (\<lambda>answer.
     need (parseMembershipV1 E answer) AUTHORITY_INVALID (\<lambda>membership.
     need (isRoleIdV1 (Str (roleId membership))) UNKNOWN_ROLE (\<lambda>role.
     check (\<not> membershipActive membership) INACTIVE_MEMBERSHIP (
     check (\<not> tenantScopeContainsV1 (membershipScope membership) (resource_scope resource))
       TENANT_SCOPE_MISMATCH (
     check (permission \<notin> set (role_permissions role)) ROLE_PERMISSION_MISSING (
     withProviderCallTimeoutV1 P
       (evaluatePolicyV1 principal permission channel
          \<lparr>member_role = role, member_scope = membershipScope membership\<rparr> resource) (\<lambda>answer.
     need (parsePolicyResultV1 answer) AUTHORITY_INVALID (\<lambda>satisfied.
     check (\<not> satisfied) POLICY_CONDITIONS_REQUIRED (
     Pair (Allow permission (resource_scope resource)))))))))))))))))"

definition authorizeV1 :: "env \<Rightarrow> authority \<Rightarrow> jsval \<Rightarrow> decision \<times> authority_call list" where
  "authorizeV1 E P request =
     (check (\<not> isRecord request) INVALID_AUTHORIZATION_REQUEST (
      check (field request ''tenantFilter'' \<in> {Undefined, Null}) TENANT_FILTER_REQUIRED (
      check (\<not> hasExactKeys request [''channel'', ''permission'', ''resource'', ''tenantFilter''])
        INVALID_AUTHORIZATION_REQUEST (
      need (isPermissionV1 (field request ''permission'')) UNKNOWN_PERMISSION (\<lambda>permission.
      need (isAuthorizationChannelV1 (field request ''channel'')) UNKNOWN_CHANNEL (\<lambda>channel.
      check (channel \<notin> set (allowedChannels permission)) CHANNEL_NOT_ALLOWED (
      need (scope_value E (field request ''tenantFilter'')) TENANT_FILTER_INVALID (\<lambda>tenantFilter.
      need (parseResourceSelectorV1 E (field request ''resource'')) INVALID_RESOURCE_SELECTOR (\<lambda>selector.
      check (resource_type selector \<noteq> permission_resource permission) RESOURCE_TYPE_MISMATCH (
      consultAuthority E P permission channel tenantFilter selector))))))))) [])"

section \<open>Facts\<close>

lemmas evaluation_defs = need_def check_def deny_now_def withProviderCallTimeoutV1_def

lemma need_allow:
  "need x c k calls = (Allow p s, l) \<longleftrightarrow> (\<exists>v. x = Some v \<and> k v calls = (Allow p s, l))"
  by (auto simp: evaluation_defs split: option.splits)

lemma check_allow:
  "check b c k calls = (Allow p s, l) \<longleftrightarrow> \<not> b \<and> k calls = (Allow p s, l)"
  by (auto simp: evaluation_defs)

lemma await_allow:
  "withProviderCallTimeoutV1 P call k calls = (Allow p s, l)
     \<longleftrightarrow> (\<exists>v. P calls call = Some v \<and> k v (calls @ [call]) = (Allow p s, l))"
  by (auto simp: evaluation_defs split: option.splits)

lemmas allow_simps = need_allow check_allow await_allow

text \<open>What holds of every call an evaluation makes, whatever it decides.\<close>

definition calls_all :: "(authority_call \<Rightarrow> bool) \<Rightarrow> evaluation \<Rightarrow> bool" where
  "calls_all Q k \<longleftrightarrow> (\<forall>calls. list_all Q calls \<longrightarrow> list_all Q (snd (k calls)))"

lemma calls_all_intros:
  "calls_all Q (deny_now c)"
  "calls_all Q (Pair d)"
  "(\<not> b \<Longrightarrow> calls_all Q k) \<Longrightarrow> calls_all Q (check b c k)"
  "(\<And>v. x = Some v \<Longrightarrow> calls_all Q (f v)) \<Longrightarrow> calls_all Q (need x c f)"
  "Q call \<Longrightarrow> (\<And>a. calls_all Q (g a)) \<Longrightarrow> calls_all Q (withProviderCallTimeoutV1 P call g)"
  by (auto simp: calls_all_def evaluation_defs split: option.splits)

text \<open>
  An unanswered call ends the evaluation: it is the last call, and the decision is
  \<open>AUTHORITY_UNAVAILABLE\<close>.
\<close>

definition unanswered :: "authority \<Rightarrow> authority_call list \<Rightarrow> nat \<Rightarrow> bool" where
  "unanswered P calls i \<longleftrightarrow> i < length calls \<and> P (take i calls) (calls ! i) = None"

definition fails_closed :: "authority \<Rightarrow> evaluation \<Rightarrow> bool" where
  "fails_closed P k \<longleftrightarrow>
     (\<forall>calls. \<exists>more. snd (k calls) = calls @ more
        \<and> (\<forall>i. length calls \<le> i \<longrightarrow> unanswered P (calls @ more) i \<longrightarrow>
              fst (k calls) = deny AUTHORITY_UNAVAILABLE \<and> Suc i = length (calls @ more)))"

lemma fails_closed_await:
  assumes "\<And>v. fails_closed P (f v)"
  shows "fails_closed P (withProviderCallTimeoutV1 P call f)"
  unfolding fails_closed_def
proof (intro allI)
  fix calls
  show "\<exists>more. snd (withProviderCallTimeoutV1 P call f calls) = calls @ more \<and>
      (\<forall>i. length calls \<le> i \<longrightarrow> unanswered P (calls @ more) i \<longrightarrow>
        fst (withProviderCallTimeoutV1 P call f calls) = deny AUTHORITY_UNAVAILABLE
        \<and> Suc i = length (calls @ more))"
  proof (cases "P calls call")
    case None
    then show ?thesis
      by (intro exI [of _ "[call]"]) (auto simp: withProviderCallTimeoutV1_def unanswered_def)
  next
    case (Some v)
    obtain more where m: "snd (f v (calls @ [call])) = (calls @ [call]) @ more"
      and u: "\<And>i. length (calls @ [call]) \<le> i \<Longrightarrow> unanswered P ((calls @ [call]) @ more) i \<Longrightarrow>
            fst (f v (calls @ [call])) = deny AUTHORITY_UNAVAILABLE
            \<and> Suc i = length ((calls @ [call]) @ more)"
      using assms [of v] unfolding fails_closed_def by blast
    have "\<not> unanswered P (calls @ call # more) (length calls)"
      using Some by (simp add: unanswered_def)
    then have "fst (f v (calls @ [call])) = deny AUTHORITY_UNAVAILABLE
        \<and> Suc i = length (calls @ call # more)"
      if "length calls \<le> i" "unanswered P (calls @ call # more) i" for i
      using that u [of i] by (cases "i = length calls") auto
    with Some m show ?thesis
      by (intro exI [of _ "call # more"]) (auto simp: withProviderCallTimeoutV1_def)
  qed
qed

lemma fails_closed_intros:
  "fails_closed P (deny_now c)"
  "fails_closed P (Pair d)"
  "fails_closed P k \<Longrightarrow> fails_closed P (check b c k)"
  "(\<And>v. fails_closed P (f v)) \<Longrightarrow> fails_closed P (need x c f)"
  by (auto simp: fails_closed_def evaluation_defs unanswered_def split: option.splits)

lemmas fails_closed_rules = fails_closed_intros fails_closed_await

text \<open>The tenant-scoped resource that a call discloses to the provider's data layer.\<close>

fun call_resource :: "authority_call \<Rightarrow> scoped_resource option" where
  "call_resource resolveAuthenticatedPrincipalV1 = None"
| "call_resource (lookupResourceV1 r) = Some r"
| "call_resource (resolveMembershipV1 _ r) = Some r"
| "call_resource (evaluatePolicyV1 _ _ _ _ r) = Some r"

definition confined :: "tenant_scope \<Rightarrow> resource_selector \<Rightarrow> authority_call \<Rightarrow> bool" where
  "confined s sel call =
     (case call_resource call of
        None \<Rightarrow> True
      | Some r \<Rightarrow> resource_scope r = s \<and> resource_type r = resource_type sel
                  \<and> resource_id r = resource_id sel)"

lemma consultAuthority_confined: "calls_all (confined s sel) (consultAuthority E P p ch s sel)"
  unfolding consultAuthority_def
  by (rule calls_all_intros | clarsimp simp: confined_def)+

lemma consultAuthority_allow:
  "consultAuthority E P p ch s sel calls = (Allow q t, l) \<Longrightarrow> q = p \<and> t = s"
  unfolding consultAuthority_def allow_simps by auto

lemma consultAuthority_fails_closed: "fails_closed P (consultAuthority E P p ch s sel)"
  unfolding consultAuthority_def by (intro fails_closed_rules)

text \<open>A request that reaches the provider has passed every check of the request itself.\<close>

lemma authorize_reaches_provider:
  assumes "authorizeV1 E P request = (d, calls)" "calls \<noteq> []"
  obtains p ch s sel where
    "isPermissionV1 (field request ''permission'') = Some p"
    "isAuthorizationChannelV1 (field request ''channel'') = Some ch"
    "ch \<in> set (allowedChannels p)"
    "scope_value E (field request ''tenantFilter'') = Some s"
    "parseResourceSelectorV1 E (field request ''resource'') = Some sel"
    "resource_type sel = permission_resource p"
    "consultAuthority E P p ch s sel [] = (d, calls)"
  using assms
  by (auto simp: authorizeV1_def need_def check_def deny_now_def split: option.splits if_splits)

section \<open>A sample evaluation\<close>

definition sample_request :: "string \<Rightarrow> string \<Rightarrow> jsval" where
  "sample_request permission channel =
     Obj [(js ''permission'', Str (js permission)), (js ''channel'', Str (js channel)),
          (js ''tenantFilter'', sample_scope CHR ''a'' CHR ''b''),
          (js ''resource'', Obj [(js ''resourceType'', Str (js ''artifact'')),
                                 (js ''resourceId'', sample_id CHR ''c'')])]"

fun sample_authority :: "authority_call list \<Rightarrow> authority_call \<Rightarrow> jsval option" where
  "sample_authority _ resolveAuthenticatedPrincipalV1 =
     Some (Obj [(js ''principalId'', sample_id CHR ''d'')])"
| "sample_authority _ (lookupResourceV1 r) =
     Some (Obj [(js ''resourceType'', Str (js ''artifact'')), (js ''resourceId'', Str (resource_id r)),
                (js ''tenantScope'', scope_object (resource_scope r))])"
| "sample_authority _ (resolveMembershipV1 _ _) =
     Some (Obj [(js ''roleId'', Str (js ''viewer'')), (js ''membershipActive'', Bool True),
                (js ''membershipScope'', scope_object (org_scope CHR ''a''))])"
| "sample_authority _ (evaluatePolicyV1 _ _ _ _ _) = Some (Obj [(js ''satisfied'', Bool True)])"

definition silent_authority :: "authority_call list \<Rightarrow> authority_call \<Rightarrow> jsval option" where
  "silent_authority _ _ = None"

abbreviation sample_evaluation :: "string \<Rightarrow> decision \<times> authority_call list" where
  "sample_evaluation channel \<equiv>
     authorizeV1 sample_env sample_authority (sample_request ''artifact.record.read'' channel)"

lemmas sample_evaluation_defs =
  authorizeV1_def consultAuthority_def evaluation_defs sample_request_def hasExactKeys_def
  parseResourceSelectorV1_def parsePrincipalV1_def parseAuthoritativeResourceV1_def
  parseMembershipV1_def parsePolicyResultV1_def resourceIdentityIsCoherentV1_def
  isAuthorizationChannelV1_def isPermissionV1_def isRoleIdV1_def isResourceTypeV1_def
  AUTHORIZATION_CHANNELS_V1_def PERMISSIONS_V1_def INITIAL_ROLE_IDS_V1_def RESOURCE_TYPES_V1_def

lemma sample_scopes [simp]:
  "sample_scope a b \<noteq> Null" "sample_scope a b \<noteq> Undefined"
  "tenantScopeContainsV1 (org_scope a) (ws_scope a b)" "scopeType (ws_scope a b) = Workspace_type"
  by (simp_all add: org_scope_def ws_scope_def)

lemma sample_evaluation_allows:
  "fst (sample_evaluation ''web'') = Allow ARTIFACT_RECORD_READ (ws_scope CHR ''a'' CHR ''b'')"
  "fst (sample_evaluation ''shared-link'') = Allow ARTIFACT_RECORD_READ (ws_scope CHR ''a'' CHR ''b'')"
  "length (snd (sample_evaluation ''web'')) = 4"
  by (simp_all add: sample_evaluation_defs insert_commute)

lemma silent_evaluation:
  "authorizeV1 sample_env silent_authority (sample_request ''artifact.record.read'' ''web'')
     = (deny AUTHORITY_UNAVAILABLE, [resolveAuthenticatedPrincipalV1])"
  by (simp add: sample_evaluation_defs silent_authority_def insert_commute)

section \<open>Properties\<close>

text \<open>
  C1: an evaluation allows a request only if every condition of the policy holds. The permission
  and the channel are known and the channel is one the permission may be used on; the resource
  the provider confirms is the selected one, lies exactly in the requested tenant scope and is of
  the type the permission applies to; the authenticated principal has an active membership whose
  scope contains the resource and whose role includes the permission; and the policy conditions
  are satisfied. The four provider calls are made in order, each with the facts established
  before it.
\<close>

theorem authorize_sound:
  assumes "authorizeV1 E P request = (Allow p s, calls)"
  shows "\<exists>ch sel u m role a0 a1 a2 a3.
    let r = \<lparr>resource_type = resource_type sel, resource_id = resource_id sel, resource_scope = s\<rparr>;
        c1 = lookupResourceV1 r; c2 = resolveMembershipV1 u r;
        c3 = evaluatePolicyV1 u p ch \<lparr>member_role = role, member_scope = membershipScope m\<rparr> r
    in isPermissionV1 (field request ''permission'') = Some p
     \<and> isAuthorizationChannelV1 (field request ''channel'') = Some ch \<and> ch \<in> set (allowedChannels p)
     \<and> scope_value E (field request ''tenantFilter'') = Some s
     \<and> parseResourceSelectorV1 E (field request ''resource'') = Some sel
     \<and> resource_type sel = permission_resource p
     \<and> calls = [resolveAuthenticatedPrincipalV1, c1, c2, c3]
     \<and> P [] resolveAuthenticatedPrincipalV1 = Some a0 \<and> parsePrincipalV1 E a0 = Some u
     \<and> P [resolveAuthenticatedPrincipalV1] c1 = Some a1 \<and> parseAuthoritativeResourceV1 E a1 = Some r
     \<and> P [resolveAuthenticatedPrincipalV1, c1] c2 = Some a2 \<and> parseMembershipV1 E a2 = Some m
     \<and> membershipActive m \<and> s \<le> membershipScope m
     \<and> isRoleIdV1 (Str (roleId m)) = Some role \<and> p \<in> set (role_permissions role)
     \<and> P [resolveAuthenticatedPrincipalV1, c1, c2] c3 = Some a3 \<and> parsePolicyResultV1 a3 = Some True"
  using assms
  unfolding authorizeV1_def consultAuthority_def allow_simps Let_def less_eq_tenant_scope_def scoped_resource.splits(3)
  by clarsimp

theorem authorize_sound_witness:
  "\<exists>m calls call. parseMembershipV1 sample_env (the (sample_authority calls call)) = Some m
     \<and> ws_scope CHR ''a'' CHR ''b'' \<le> membershipScope m \<and> membershipActive m"
proof -
  obtain calls where e: "sample_evaluation ''web'' = (Allow ARTIFACT_RECORD_READ (ws_scope CHR ''a'' CHR ''b''), calls)"
    using sample_evaluation_allows(1) by (metis prod.collapse)
  obtain m a qs q where "sample_authority qs q = Some a" "parseMembershipV1 sample_env a = Some m"
    "ws_scope CHR ''a'' CHR ''b'' \<le> membershipScope m" "membershipActive m"
    using authorize_sound [OF e] unfolding Let_def by blast
  then show ?thesis by (intro exI [of _ m] exI [of _ qs] exI [of _ q]) simp
qed

text \<open>
  C2: tenant isolation of the evaluator. Whatever it decides, it makes a provider call only for a
  request whose own fields are all valid, and every resource it names to the provider (in the
  scoped lookup, the membership query and the policy query) is the selected resource in the
  tenant scope of the request: no answer of the provider can redirect it to another tenant.
\<close>

theorem authorize_confined:
  assumes "authorizeV1 E P request = (d, calls)" and "calls \<noteq> []"
  shows "\<exists>p ch s sel.
     isPermissionV1 (field request ''permission'') = Some p
     \<and> isAuthorizationChannelV1 (field request ''channel'') = Some ch \<and> ch \<in> set (allowedChannels p)
     \<and> scope_value E (field request ''tenantFilter'') = Some s
     \<and> parseResourceSelectorV1 E (field request ''resource'') = Some sel
     \<and> list_all (confined s sel) calls"
proof -
  from assms obtain p ch s sel where *:
    "isPermissionV1 (field request ''permission'') = Some p"
    "isAuthorizationChannelV1 (field request ''channel'') = Some ch"
    "ch \<in> set (allowedChannels p)"
    "scope_value E (field request ''tenantFilter'') = Some s"
    "parseResourceSelectorV1 E (field request ''resource'') = Some sel"
    "consultAuthority E P p ch s sel [] = (d, calls)"
    by (rule authorize_reaches_provider)
  moreover have "list_all (confined s sel) calls"
    using consultAuthority_confined [of s sel E P p ch] *(6)
    unfolding calls_all_def by (metis list.pred_inject(1) snd_conv)
  ultimately show ?thesis by blast
qed

theorem authorize_confined_witness:
  "\<exists>s sel. list_all (confined s sel) (snd (sample_evaluation ''web''))"
  using authorize_confined [of sample_env sample_authority
      "sample_request ''artifact.record.read'' ''web''", OF surjective_pairing]
    sample_evaluation_allows(3)
  by force

text \<open>
  C5: The evaluator fails closed. When a provider call throws, rejects or times out, the request
  is denied with \<open>AUTHORITY_UNAVAILABLE\<close> and no further call is made.
\<close>

theorem authorize_fails_closed:
  assumes "authorizeV1 E P request = (d, calls)" and "unanswered P calls i"
  shows "d = deny AUTHORITY_UNAVAILABLE \<and> Suc i = length calls"
proof -
  have "calls \<noteq> []" using assms(2) by (auto simp: unanswered_def)
  with assms(1) obtain p ch s sel where *: "consultAuthority E P p ch s sel [] = (d, calls)"
    by (rule authorize_reaches_provider)
  from consultAuthority_fails_closed [of P E p ch s sel]
  obtain more where "snd (consultAuthority E P p ch s sel []) = [] @ more"
    "\<forall>i. unanswered P ([] @ more) i \<longrightarrow>
       fst (consultAuthority E P p ch s sel []) = deny AUTHORITY_UNAVAILABLE \<and> Suc i = length ([] @ more)"
    unfolding fails_closed_def by (metis le0 list.size(3))
  with * assms(2) show ?thesis by simp
qed

theorem authorize_fails_closed_witness:
  "unanswered silent_authority [resolveAuthenticatedPrincipalV1] 0
   \<and> Suc 0 = length [resolveAuthenticatedPrincipalV1]"
  using authorize_fails_closed [OF silent_evaluation, of 0]
  by (simp add: unanswered_def silent_authority_def)

text \<open>
  A shared link can read the record of an artifact and do nothing else, whatever the provider
  answers.
\<close>

theorem shared_link_reads_only:
  assumes "authorizeV1 E P request = (Allow p s, calls)"
    and "isAuthorizationChannelV1 (field request ''channel'') = Some Shared_link"
  shows "p = ARTIFACT_RECORD_READ"
proof -
  have "Shared_link \<in> set (allowedChannels p)"
    using assms unfolding authorizeV1_def allow_simps by (auto dest: consultAuthority_allow)
  then show ?thesis by (cases p) simp_all
qed

theorem shared_link_reads_only_witness:
  "\<exists>p s. fst (sample_evaluation ''shared-link'') = Allow p s \<and> p = ARTIFACT_RECORD_READ"
proof -
  obtain p s calls where e: "sample_evaluation ''shared-link'' = (Allow p s, calls)"
    using sample_evaluation_allows(2) by (metis prod.collapse)
  have "isAuthorizationChannelV1 (field (sample_request ''artifact.record.read'' ''shared-link'')
      ''channel'') = Some Shared_link"
    by (simp add: sample_request_def isAuthorizationChannelV1_def AUTHORIZATION_CHANNELS_V1_def)
  from shared_link_reads_only [OF e this] e show ?thesis by simp
qed

end
