(* ===== verification/Machine.thy ===== *)
theory Machine
  imports TenantScope
begin

text \<open>
  The contract that every revisioned record of the packages shares: an operation either returns
  the record as it is, or moves its status along an edge of the module's table and increments
  its revision; it never touches the record's identity. The locales state that contract over a
  step relation and prove once what holds of whole histories: a status without outgoing edges is
  final, statuses follow paths of the table, revisions grow, and a revision identifies the
  record, which is what makes \<open>expectedRevision\<close> guards (optimistic concurrency) sound.
\<close>

locale revisioned =
  fixes step :: "'s \<Rightarrow> 's \<Rightarrow> bool"
    and status :: "'s \<Rightarrow> 'q"
    and edge :: "'q \<Rightarrow> 'q \<Rightarrow> bool"
    and revision :: "'s \<Rightarrow> int"
  assumes step_edge: "step s t \<Longrightarrow> s = t \<or> edge (status s) (status t)"
    and step_revision: "step s t \<Longrightarrow> s = t \<or> revision t = js_succ (revision s)"
begin

lemma run_path: "step\<^sup>*\<^sup>* s t \<Longrightarrow> edge\<^sup>*\<^sup>* (status s) (status t)"
proof (induction rule: rtranclp_induct)
  case base
  show ?case by simp
next
  case (step t u)
  with step_edge show ?case by (metis rtranclp.rtrancl_into_rtrancl)
qed

lemma final_stays:
  assumes "step\<^sup>*\<^sup>* s t" "\<And>q. \<not> edge (status s) q"
  shows "t = s"
  using assms(1)
proof (induction rule: rtranclp_induct)
  case base
  show ?case by simp
next
  case (step t u)
  with assms(2) step_edge [of t u] show ?case by auto
qed

definition sane_revision :: "'s \<Rightarrow> bool" where
  "sane_revision s \<longleftrightarrow> 0 \<le> revision s \<and> revision s \<le> 9007199254740992"

lemma step_revision_mono:
  assumes "step s t" "sane_revision s"
  shows "revision s \<le> revision t \<and> sane_revision t"
proof (cases "s = t")
  case False
  with assms step_revision have t: "revision t = js_succ (revision s)" by blast
  show ?thesis
  proof (cases "revision s = 9007199254740992")
    case True
    have "js_succ 9007199254740992 = 9007199254740992" by code_simp
    with True t show ?thesis by (simp add: sane_revision_def)
  next
    case False
    with assms(2) t show ?thesis by (simp add: sane_revision_def js_add_exact)
  qed
qed (use assms in simp)

lemma run_revision_mono:
  "step\<^sup>*\<^sup>* s t \<Longrightarrow> sane_revision s \<Longrightarrow> revision s \<le> revision t \<and> sane_revision t"
  by (induction rule: rtranclp_induct) (auto dest: step_revision_mono)

lemma step_revision_less:
  assumes "step s t" "s \<noteq> t" "0 \<le> revision s" "revision s \<le> max_safe_integer"
  shows "revision t = revision s + 1"
  using assms step_revision [of s t] by (auto simp: js_succ_exact)

text \<open>A later version with the same revision is the same record.\<close>

lemma revision_identifies:
  assumes run: "step\<^sup>*\<^sup>* s t" and rev: "revision t = revision s"
    and "0 \<le> revision s" "revision s \<le> max_safe_integer"
  shows "t = s"
proof -
  have sane: "sane_revision s"
    using assms by (simp add: sane_revision_def max_safe_integer_def)
  from run show ?thesis
  proof (cases rule: converse_rtranclpE)
    case base
    then show ?thesis by simp
  next
    case (step u)
    have "step\<^sup>*\<^sup>* s t \<Longrightarrow> s = t \<or> (\<exists>u. step s u \<and> s \<noteq> u \<and> step\<^sup>*\<^sup>* u t)"
      by (induction rule: converse_rtranclp_induct) auto
    then consider "s = t" | u where "step s u" "s \<noteq> u" "step\<^sup>*\<^sup>* u t" using run by blast
    then show ?thesis
    proof cases
      case 1
      then show ?thesis by simp
    next
      case 2
      then have "revision u = revision s + 1" using assms step_revision_less by blast
      moreover have "revision u \<le> revision t"
        using run_revision_mono [OF 2(3)] step_revision_mono [OF 2(1) sane] by simp
      ultimately show ?thesis using rev by simp
    qed
  qed
qed

end

text \<open>Machines whose operations keep the identifying fields.\<close>

locale framed = revisioned step status edge revision
  for step :: "'s \<Rightarrow> 's \<Rightarrow> bool" and status :: "'s \<Rightarrow> 'q"
    and edge :: "'q \<Rightarrow> 'q \<Rightarrow> bool" and revision :: "'s \<Rightarrow> int" +
  fixes key :: "'s \<Rightarrow> 'k"
  assumes step_key: "step s t \<Longrightarrow> key t = key s"
begin

lemma run_key: "step\<^sup>*\<^sup>* s t \<Longrightarrow> key t = key s"
  by (induction rule: rtranclp_induct) (auto dest: step_key)

end

text \<open>
  Machines with an invariant that constructors establish and every operation keeps: what holds
  of every record the module can hand out.
\<close>

locale guarded = framed step status edge revision key
  for step :: "'s \<Rightarrow> 's \<Rightarrow> bool" and status :: "'s \<Rightarrow> 'q"
    and edge :: "'q \<Rightarrow> 'q \<Rightarrow> bool" and revision :: "'s \<Rightarrow> int" and key :: "'s \<Rightarrow> 'k" +
  fixes initial :: "'s \<Rightarrow> bool" and invariant :: "'s \<Rightarrow> bool"
  assumes initial_invariant: "initial s \<Longrightarrow> invariant s"
    and step_invariant: "invariant s \<Longrightarrow> step s t \<Longrightarrow> invariant t"
begin

lemma reachable_invariant: "step\<^sup>*\<^sup>* s t \<Longrightarrow> initial s \<Longrightarrow> invariant t"
  by (induction rule: rtranclp_induct) (auto intro: initial_invariant step_invariant)

end

text \<open>
  Bearers: records that one accepted operation ends. Whatever operations are tried, in whatever
  order, at most one of them is ever accepted.
\<close>

locale single_use =
  fixes spend :: "'s \<Rightarrow> 's \<Rightarrow> bool" and live :: "'s \<Rightarrow> bool"
  assumes spend_live: "spend s t \<Longrightarrow> live s \<and> \<not> live t"
begin

lemma spent_once: "spend\<^sup>*\<^sup>* s t \<Longrightarrow> t = s \<or> spend s t"
proof (induction rule: rtranclp_induct)
  case base
  show ?case by simp
next
  case (step t u)
  then show ?case using spend_live by blast
qed

lemma spent_stays: "spend s t \<Longrightarrow> spend\<^sup>*\<^sup>* t u \<Longrightarrow> u = t"
  using spent_once spend_live by blast

end

text \<open>
  Insert-only stores: a step leaves the entries as they are or adds one entry under its own key, and an
  entry that is there already may only be written again as it is. Then nothing stored is ever changed
  or lost, and every entry was made by an accepted operation.
\<close>

locale immutable_store =
  fixes step :: "'s \<Rightarrow> 's \<Rightarrow> bool" and entries :: "'s \<Rightarrow> 'k \<Rightarrow> 'v option" and made :: "'k \<Rightarrow> 'v \<Rightarrow> bool"
  assumes step_entries: "step s t \<Longrightarrow>
    entries t = entries s
    \<or> (\<exists>k v. (entries s k = None \<or> entries s k = Some v) \<and> made k v \<and> entries t = (entries s)(k \<mapsto> v))"
begin

lemma step_kept: "step s t \<Longrightarrow> entries s k = Some v \<Longrightarrow> entries t k = Some v"
  using step_entries by fastforce

lemma history_kept: "step\<^sup>*\<^sup>* s t \<Longrightarrow> entries s k = Some v \<Longrightarrow> entries t k = Some v"
  by (induction rule: rtranclp_induct) (auto intro: step_kept)

lemma step_made: "step s t \<Longrightarrow> entries t k = Some v \<Longrightarrow> entries s k = Some v \<or> made k v"
  using step_entries [of s t] by (auto split: if_splits)

lemma history_made: "step\<^sup>*\<^sup>* s t \<Longrightarrow> entries t k = Some v \<Longrightarrow> entries s k = Some v \<or> made k v"
  by (induction rule: rtranclp_induct) (auto dest: step_made)

end

end
