(* ===== verification/Jobs.thy ===== *)
theory Jobs
  imports Machine Samples
begin

text \<open>
  packages/domain/src/jobs/v1.ts: typed action definitions and the state machine of durable jobs.
\<close>

section \<open>Data\<close>

datatype job_state =
    Job_CREATED
  | Job_QUEUED
  | Job_WAITING_FOR_DEVICE
  | Job_DISPATCHED
  | Job_RUNNING
  | Job_NEEDS_REVIEW
  | Job_AWAITING_APPROVAL
  | Job_SUCCEEDED
  | Job_PARTIALLY_SUCCEEDED
  | Job_FAILED
  | Job_CANCEL_REQUESTED
  | Job_CANCELLED
  | Job_EXPIRED

datatype risk_class = Risk_READ_ONLY | Risk_LOW | Risk_CONSEQUENTIAL | Risk_RESTRICTED

datatype side_effect_class =
    Effect_NONE
  | Effect_REVERSIBLE
  | Effect_EXTERNAL
  | Effect_DESTRUCTIVE
  | Effect_BILLING_PROVIDER_EFFECT

datatype approval_class = Approval_NONE | Approval_OPTIONAL | Approval_REQUIRED

record typed_action =
  actionType :: jsstr
  action_version :: int
  inputSchemaId :: jsstr
  outputSchemaId :: jsstr
  handlerDigest :: jsstr
  requiredCapabilities :: "jsstr list"
  sideEffectClass :: side_effect_class
  riskClass :: risk_class
  defaultTimeoutSeconds :: int
  maxAttempts :: int
  approvalClass :: approval_class

record job =
  jobId :: stable_id
  job_scope :: tenant_scope
  job_requestedBy :: stable_id
  job_action :: typed_action
  inputManifestHash :: jsstr
  job_idempotencyKey :: jsstr
  job_state :: job_state
  job_createdAt :: utc_timestamp
  job_startedAt :: "utc_timestamp option"
  job_finishedAt :: "utc_timestamp option"
  job_revision :: int

datatype job_error =
    Job_INVALID_IDENTIFIER
  | Job_INVALID_SCOPE
  | Job_INVALID_TEXT
  | Job_INVALID_HASH
  | Job_INVALID_VERSION
  | Job_INVALID_CAPABILITY
  | Job_INVALID_EFFECT
  | Job_INVALID_RISK
  | Job_INVALID_TIMEOUT
  | Job_INVALID_ATTEMPTS
  | Job_INVALID_APPROVAL_CLASS
  | Job_INVALID_TIMESTAMP
  | Job_INVALID_STATE
  | Job_INVALID_REVISION
  | Job_INVALID_TRANSITION
  | Job_INVALID_TERMINAL_TIMESTAMP

section \<open>Typed actions\<close>

definition effects :: "(string \<times> side_effect_class) list" where
  "effects =
     [(''NONE'', Effect_NONE), (''REVERSIBLE'', Effect_REVERSIBLE), (''EXTERNAL'', Effect_EXTERNAL),
      (''DESTRUCTIVE'', Effect_DESTRUCTIVE),
      (''BILLING_PROVIDER_EFFECT'', Effect_BILLING_PROVIDER_EFFECT)]"

definition risks :: "(string \<times> risk_class) list" where
  "risks =
     [(''READ_ONLY'', Risk_READ_ONLY), (''LOW'', Risk_LOW), (''CONSEQUENTIAL'', Risk_CONSEQUENTIAL),
      (''RESTRICTED'', Risk_RESTRICTED)]"

definition approvals :: "(string \<times> approval_class) list" where
  "approvals =
     [(''NONE'', Approval_NONE), (''OPTIONAL'', Approval_OPTIONAL), (''REQUIRED'', Approval_REQUIRED)]"

record action_input =
  in_actionType :: jsval
  in_version :: jsval
  in_inputSchemaId :: jsval
  in_outputSchemaId :: jsval
  in_handlerDigest :: jsval
  in_requiredCapabilities :: jsval
  in_sideEffectClass :: jsval
  in_riskClass :: jsval
  in_defaultTimeoutSeconds :: jsval
  in_maxAttempts :: jsval
  in_approvalClass :: jsval

text \<open>\<open>/^[a-z][a-z0-9_.-]{1,63}$/u\<close>\<close>

definition capability_unit :: "16 word \<Rightarrow> bool" where
  "capability_unit c \<longleftrightarrow>
     lower c \<or> digit c \<or> is_char CHR ''_'' c \<or> is_char CHR ''.'' c \<or> is_char CHR ''-'' c"

definition capability :: "jsval \<Rightarrow> jsstr option" where
  "capability v =
     (case v of
        Str (c # cs) \<Rightarrow>
          if lower c \<and> 1 \<le> length cs \<and> length cs \<le> 63 \<and> list_all capability_unit cs
          then Some (c # cs) else None
      | _ \<Rightarrow> None)"

definition capability_list :: "jsval \<Rightarrow> jsstr list option" where
  "capability_list v =
     (case as_array v of
        None \<Rightarrow> None
      | Some vs \<Rightarrow> if length vs > 64 then None else parse_all capability vs)"

definition createTypedActionDefinitionV1 :: "env \<Rightarrow> action_input \<Rightarrow> job_error + typed_action" where
  "createTypedActionDefinitionV1 E i =
     (let digest = sha256_hex (in_handlerDigest i);
          bad_text = (if digest \<noteq> None then Job_INVALID_TEXT else Job_INVALID_HASH)
      in
      require bad_text (text_value E (in_actionType i) 128) (\<lambda>action_type.
      require bad_text (text_value E (in_inputSchemaId i) 128) (\<lambda>input_schema.
      require bad_text (text_value E (in_outputSchemaId i) 128) (\<lambda>output_schema.
      require bad_text digest (\<lambda>handler.
      require Job_INVALID_CAPABILITY (capability_list (in_requiredCapabilities i)) (\<lambda>capabilities.
      require Job_INVALID_EFFECT (one_of effects (in_sideEffectClass i)) (\<lambda>effect.
      require Job_INVALID_RISK (one_of risks (in_riskClass i)) (\<lambda>risk.
      require Job_INVALID_APPROVAL_CLASS (one_of approvals (in_approvalClass i)) (\<lambda>approval.
      require Job_INVALID_VERSION (positiveInteger (in_version i)) (\<lambda>version.
      require Job_INVALID_TIMEOUT
        (safe_integer_within 1 86400 (in_defaultTimeoutSeconds i)) (\<lambda>seconds.
      require Job_INVALID_ATTEMPTS (safe_integer_within 1 20 (in_maxAttempts i)) (\<lambda>attempts.
      reject_if (effect = Effect_BILLING_PROVIDER_EFFECT \<and> risk \<noteq> Risk_RESTRICTED)
        Job_INVALID_RISK (
      reject_if (risk = Risk_RESTRICTED \<and> approval \<noteq> Approval_REQUIRED)
        Job_INVALID_APPROVAL_CLASS (
      accepted
        \<lparr>actionType = action_type, action_version = version, inputSchemaId = input_schema,
         outputSchemaId = output_schema, handlerDigest = handler,
         requiredCapabilities = dedup capabilities, sideEffectClass = effect, riskClass = risk,
         defaultTimeoutSeconds = seconds, maxAttempts = attempts,
         approvalClass = approval\<rparr>))))))))))))))"

section \<open>Jobs\<close>

record job_input =
  in_jobId :: jsval
  in_job_scope :: jsval
  in_job_requestedBy :: jsval
  in_job_action :: typed_action
  in_inputManifestHash :: jsval
  in_job_idempotencyKey :: jsval
  in_job_createdAt :: jsval

definition createJobV1 :: "env \<Rightarrow> job_input \<Rightarrow> job_error + job" where
  "createJobV1 E i =
     require Job_INVALID_IDENTIFIER (stable E (in_jobId i)) (\<lambda>job_id.
     require Job_INVALID_IDENTIFIER (stable E (in_job_requestedBy i)) (\<lambda>requested_by.
     require Job_INVALID_SCOPE (scope_value E (in_job_scope i)) (\<lambda>scope.
     require Job_INVALID_HASH (sha256_hex (in_inputManifestHash i)) (\<lambda>manifest_hash.
     require Job_INVALID_TEXT (text_value E (in_job_idempotencyKey i) 200) (\<lambda>key.
     require Job_INVALID_TIMESTAMP (timestamp E (in_job_createdAt i)) (\<lambda>created_at.
     accepted
       \<lparr>jobId = job_id, job_scope = scope, job_requestedBy = requested_by,
        job_action = in_job_action i, inputManifestHash = manifest_hash,
        job_idempotencyKey = key, job_state = Job_CREATED, job_createdAt = created_at,
        job_startedAt = None, job_finishedAt = None, job_revision = 1\<rparr>))))))"

definition job_states :: "(string \<times> job_state) list" where
  "job_states =
     [(''CREATED'', Job_CREATED), (''QUEUED'', Job_QUEUED),
      (''WAITING_FOR_DEVICE'', Job_WAITING_FOR_DEVICE), (''DISPATCHED'', Job_DISPATCHED),
      (''RUNNING'', Job_RUNNING), (''NEEDS_REVIEW'', Job_NEEDS_REVIEW),
      (''AWAITING_APPROVAL'', Job_AWAITING_APPROVAL), (''SUCCEEDED'', Job_SUCCEEDED),
      (''PARTIALLY_SUCCEEDED'', Job_PARTIALLY_SUCCEEDED), (''FAILED'', Job_FAILED),
      (''CANCEL_REQUESTED'', Job_CANCEL_REQUESTED), (''CANCELLED'', Job_CANCELLED),
      (''EXPIRED'', Job_EXPIRED)]"

fun job_transitions :: "job_state \<Rightarrow> job_state list" where
  "job_transitions Job_CREATED = [Job_QUEUED, Job_CANCEL_REQUESTED, Job_EXPIRED]"
| "job_transitions Job_QUEUED =
     [Job_WAITING_FOR_DEVICE, Job_DISPATCHED, Job_CANCEL_REQUESTED, Job_EXPIRED]"
| "job_transitions Job_WAITING_FOR_DEVICE = [Job_DISPATCHED, Job_CANCEL_REQUESTED, Job_EXPIRED]"
| "job_transitions Job_DISPATCHED = [Job_RUNNING, Job_CANCEL_REQUESTED, Job_EXPIRED]"
| "job_transitions Job_RUNNING =
     [Job_NEEDS_REVIEW, Job_AWAITING_APPROVAL, Job_SUCCEEDED, Job_PARTIALLY_SUCCEEDED, Job_FAILED,
      Job_CANCEL_REQUESTED]"
| "job_transitions Job_NEEDS_REVIEW =
     [Job_RUNNING, Job_AWAITING_APPROVAL, Job_CANCEL_REQUESTED, Job_EXPIRED]"
| "job_transitions Job_AWAITING_APPROVAL =
     [Job_RUNNING, Job_SUCCEEDED, Job_CANCEL_REQUESTED, Job_EXPIRED]"
| "job_transitions Job_SUCCEEDED = []"
| "job_transitions Job_PARTIALLY_SUCCEEDED = []"
| "job_transitions Job_FAILED = [Job_QUEUED, Job_CANCELLED]"
| "job_transitions Job_CANCEL_REQUESTED = [Job_CANCELLED, Job_FAILED]"
| "job_transitions Job_CANCELLED = []"
| "job_transitions Job_EXPIRED = []"

definition job_terminal :: "job_state \<Rightarrow> bool" where
  "job_terminal s \<longleftrightarrow>
     s \<in> {Job_SUCCEEDED, Job_PARTIALLY_SUCCEEDED, Job_FAILED, Job_CANCELLED, Job_EXPIRED}"

text \<open>
  \<open>Object.hasOwn(transitions, input)\<close> converts its argument to a property key: a one-element
  array converts to its element. Such an array passes that test and then fails the strict
  comparison of \<open>includes\<close>.
\<close>

fun names_state :: "jsval \<Rightarrow> bool" where
  "names_state (Str s) = (one_of job_states (Str s) \<noteq> None)"
| "names_state (Arr [v]) = names_state v"
| "names_state _ = False"

definition move_job :: "job \<Rightarrow> job_state \<Rightarrow> utc_timestamp \<Rightarrow> job" where
  "move_job j nextState now =
     j\<lparr>job_state := nextState,
       job_startedAt := (if job_startedAt j \<noteq> None \<or> nextState \<noteq> Job_RUNNING
                         then job_startedAt j else Some now),
       job_finishedAt := (if job_terminal nextState then Some now else job_finishedAt j),
       job_revision := js_succ (job_revision j)\<rparr>"

definition transitionJobV1 :: "env \<Rightarrow> job \<Rightarrow> jsval \<Rightarrow> jsval \<Rightarrow> job_error + job" where
  "transitionJobV1 E j nextStateInput nowInput =
     require Job_INVALID_TIMESTAMP (timestamp E nowInput) (\<lambda>now.
     reject_if (\<not> names_state nextStateInput) Job_INVALID_STATE (
     require Job_INVALID_TRANSITION
       (Option.bind (one_of job_states nextStateInput)
          (\<lambda>s. if s \<in> set (job_transitions (job_state j)) then Some s else None)) (\<lambda>nextState.
     reject_if (date_less (Date_parse E now) (Date_parse E (job_createdAt j)))
       Job_INVALID_TIMESTAMP (
     reject_if (job_terminal nextState \<and> job_finishedAt j \<noteq> None)
       Job_INVALID_TERMINAL_TIMESTAMP (
     accepted (move_job j nextState now))))))"

section \<open>Histories\<close>

inductive job_step :: "env \<Rightarrow> job \<Rightarrow> job \<Rightarrow> bool" for E where
  transition: "transitionJobV1 E j target now = Inr k \<Longrightarrow> job_step E j k"

inductive_simps job_step_iff: "job_step E j k"

definition job_edge :: "job_state \<Rightarrow> job_state \<Rightarrow> bool" where
  "job_edge s t \<longleftrightarrow> t \<in> set (job_transitions s)"

definition job_key :: "job \<Rightarrow> stable_id \<times> tenant_scope \<times> stable_id \<times> typed_action \<times> jsstr \<times> jsstr \<times> jsstr" where
  "job_key j = (jobId j, job_scope j, job_requestedBy j, job_action j, inputManifestHash j,
                job_idempotencyKey j, job_createdAt j)"

definition job_initial :: "env \<Rightarrow> job \<Rightarrow> bool" where
  "job_initial E j \<longleftrightarrow>
     (\<exists>i a. createTypedActionDefinitionV1 E a = Inr (in_job_action i) \<and> createJobV1 E i = Inr j)"

definition action_safe :: "typed_action \<Rightarrow> bool" where
  "action_safe a \<longleftrightarrow>
     (sideEffectClass a = Effect_BILLING_PROVIDER_EFFECT \<longrightarrow> riskClass a = Risk_RESTRICTED)
     \<and> (riskClass a = Risk_RESTRICTED \<longrightarrow> approvalClass a = Approval_REQUIRED)
     \<and> 1 \<le> action_version a \<and> 1 \<le> maxAttempts a \<and> maxAttempts a \<le> 20
     \<and> 1 \<le> defaultTimeoutSeconds a \<and> defaultTimeoutSeconds a \<le> 86400
     \<and> distinct (requiredCapabilities a) \<and> length (requiredCapabilities a) \<le> 64"

text \<open>
  What a job record promises in every state: a job under review, awaiting approval or finished by
  its own run has been started; exactly the terminal states are dated, and never before the
  creation of the job.
\<close>

definition has_run :: "job_state \<Rightarrow> bool" where
  "has_run s \<longleftrightarrow>
     s \<in> {Job_RUNNING, Job_NEEDS_REVIEW, Job_AWAITING_APPROVAL, Job_SUCCEEDED, Job_PARTIALLY_SUCCEEDED}"

definition job_ok :: "env \<Rightarrow> job \<Rightarrow> bool" where
  "job_ok E j \<longleftrightarrow>
     wf_scope (job_scope j) \<and> action_safe (job_action j)
     \<and> (has_run (job_state j) \<longrightarrow> job_startedAt j \<noteq> None)
     \<and> (job_terminal (job_state j) \<longrightarrow> job_finishedAt j \<noteq> None)
     \<and> (\<forall>t. job_startedAt j = Some t \<or> job_finishedAt j = Some t \<longrightarrow>
          \<not> date_less (Date_parse E t) (Date_parse E (job_createdAt j)))
     \<and> 1 \<le> job_revision j \<and> job_revision j \<le> 9007199254740992"

lemma capability_list_length: "capability_list v = Some cs \<Longrightarrow> length (dedup cs) \<le> 64"
  by (rule le_trans [OF length_dedup])
     (auto simp: capability_list_def length_parse_all split: option.splits if_splits)

lemma createTypedAction_safe: "createTypedActionDefinitionV1 E i = Inr a \<Longrightarrow> action_safe a"
  by (auto simp: createTypedActionDefinitionV1_def Let_def result_simps action_safe_def
      safe_integer_within_Some dest: positiveInteger_bounds capability_list_length)

lemma transitionJobV1_iff:
  "transitionJobV1 E j target now = Inr k \<longleftrightarrow>
     (\<exists>s t. one_of job_states target = Some s \<and> s \<in> set (job_transitions (job_state j))
        \<and> timestamp E now = Some t
        \<and> \<not> date_less (Date_parse E t) (Date_parse E (job_createdAt j))
        \<and> (job_terminal s \<longrightarrow> job_finishedAt j = None) \<and> k = move_job j s t)"
proof -
  have "names_state target" if "one_of job_states target = Some s" for s
    using that by (cases target) (simp_all add: one_of_def)
  then show ?thesis
    by (auto simp: transitionJobV1_def result_simps Option.bind_eq_Some_conv split: if_splits)
qed

lemma move_job_simps [simp]:
  "job_state (move_job j s t) = s"
  "job_revision (move_job j s t) = js_succ (job_revision j)"
  "job_finishedAt (move_job j s t) = (if job_terminal s then Some t else job_finishedAt j)"
  "job_startedAt (move_job j s t) =
     (if job_startedAt j \<noteq> None \<or> s \<noteq> Job_RUNNING then job_startedAt j else Some t)"
  "job_key (move_job j s t) = job_key j"
  by (simp_all add: move_job_def job_key_def)

lemma move_job_key [simp]:
  "job_scope (move_job j s t) = job_scope j" "job_action (move_job j s t) = job_action j"
  "job_createdAt (move_job j s t) = job_createdAt j"
  by (simp_all add: move_job_def)

lemma job_initial_ok: "job_initial E j \<Longrightarrow> job_ok E j"
  by (auto simp: job_initial_def createJobV1_def result_simps job_ok_def has_run_def
      job_terminal_def createTypedAction_safe dest: scope_value_wf)

lemma has_run_source:
  "s \<in> set (job_transitions r) \<Longrightarrow> has_run s \<Longrightarrow> s \<noteq> Job_RUNNING \<Longrightarrow> has_run r"
  by (cases r) (auto simp: has_run_def)

lemma job_step_ok:
  assumes "job_ok E j" "job_step E j k"
  shows "job_ok E k"
proof -
  from assms(2) obtain s t where s: "s \<in> set (job_transitions (job_state j))"
    and t: "\<not> date_less (Date_parse E t) (Date_parse E (job_createdAt j))" and k: "k = move_job j s t"
    by (auto simp: job_step_iff transitionJobV1_iff)
  have "has_run s \<Longrightarrow> job_startedAt k \<noteq> None"
    using has_run_source [OF s] assms(1) k by (auto simp: job_ok_def)
  with assms(1) t k js_succ_bounds [of "job_revision j"] show ?thesis
    by (auto simp: job_ok_def split: if_splits)
qed

lemma job_step_shape:
  "job_step E j k \<Longrightarrow> job_edge (job_state j) (job_state k) \<and> job_revision k = js_succ (job_revision j)
     \<and> job_key k = job_key j"
  by (auto simp: job_step_iff transitionJobV1_iff job_edge_def)

interpretation jobs: guarded "job_step E" job_state job_edge job_revision job_key
    "job_initial E" "job_ok E"
  by unfold_locales (simp_all add: job_step_shape job_initial_ok job_step_ok)

section \<open>A sample job\<close>

definition sample_action :: action_input where
  "sample_action =
     \<lparr>in_actionType = Str (js ''profile''), in_version = int_num 1, in_inputSchemaId = Str (js ''in''),
      in_outputSchemaId = Str (js ''out''), in_handlerDigest = sample_hash CHR ''a'',
      in_requiredCapabilities = Arr [Str (js ''files'')], in_sideEffectClass = Str (js ''NONE''),
      in_riskClass = Str (js ''LOW''), in_defaultTimeoutSeconds = int_num 60,
      in_maxAttempts = int_num 3, in_approvalClass = Str (js ''NONE'')\<rparr>"

definition sample_typed_action :: typed_action where
  "sample_typed_action =
     \<lparr>actionType = js ''profile'', action_version = 1, inputSchemaId = js ''in'',
      outputSchemaId = js ''out'', handlerDigest = hash_of CHR ''a'',
      requiredCapabilities = [js ''files''], sideEffectClass = Effect_NONE, riskClass = Risk_LOW,
      defaultTimeoutSeconds = 60, maxAttempts = 3, approvalClass = Approval_NONE\<rparr>"

definition sample_job_input :: job_input where
  "sample_job_input =
     \<lparr>in_jobId = sample_id CHR ''a'', in_job_scope = sample_scope CHR ''a'' CHR ''b'',
      in_job_requestedBy = sample_id CHR ''c'', in_job_action = sample_typed_action,
      in_inputManifestHash = sample_hash CHR ''b'', in_job_idempotencyKey = Str (js ''key''),
      in_job_createdAt = sample_time ''00''\<rparr>"

definition sample_job :: job where
  "sample_job =
     \<lparr>jobId = uuid_of CHR ''a'', job_scope = ws_scope CHR ''a'' CHR ''b'',
      job_requestedBy = uuid_of CHR ''c'', job_action = sample_typed_action,
      inputManifestHash = hash_of CHR ''b'', job_idempotencyKey = js ''key'',
      job_state = Job_CREATED, job_createdAt = time_of ''00'', job_startedAt = None,
      job_finishedAt = None, job_revision = 1\<rparr>"

lemma sample_capability: "capability_list (Arr [Str (js ''files'')]) = Some [js ''files'']"
  by (simp add: capability_list_def capability_def js_def lower_def in_range_def capability_unit_def)

lemma sample_action_created: "createTypedActionDefinitionV1 sample_env sample_action = Inr sample_typed_action"
  by (simp add: createTypedActionDefinitionV1_def sample_action_def sample_typed_action_def Let_def
      result_simps sample_capability effects_def risks_def approvals_def safe_integer_within_def
      max_safe_integer_def dedup_def positiveInteger_def safe_integer_from_def plain_def)

lemma sample_job_initial: "job_initial sample_env sample_job"
proof -
  have "createJobV1 sample_env sample_job_input = Inr sample_job"
    by (simp add: createJobV1_def sample_job_input_def sample_job_def result_simps plain_def)
  moreover have "in_job_action sample_job_input = sample_typed_action"
    by (simp add: sample_job_input_def)
  ultimately show ?thesis unfolding job_initial_def using sample_action_created by metis
qed

lemma sample_transition:
  assumes "one_of job_states (Str (js n)) = Some s" "s \<in> set (job_transitions (job_state j))"
    and "iso_date (time_of t) \<noteq> None" "1767225600000 \<le> the (iso_date (time_of t))" "job_createdAt j = time_of ''00''"
    and "job_terminal s \<longrightarrow> job_finishedAt j = None"
  shows "job_step sample_env j (move_job j s (time_of t))"
proof -
  obtain m where "iso_date (time_of t) = Some m" "1767225600000 \<le> m" using assms by auto
  with assms have "transitionJobV1 sample_env j (Str (js n)) (sample_time t)
      = Inr (move_job j s (time_of t))"
    unfolding transitionJobV1_iff by (intro exI [of _ s] exI [of _ "time_of t"]) simp
  then show ?thesis by (rule job_step.transition)
qed

definition sample_failed_job :: job where
  "sample_failed_job =
     move_job (move_job sample_job Job_CANCEL_REQUESTED (time_of ''01'')) Job_FAILED (time_of ''02'')"

definition sample_retried_job :: job where
  "sample_retried_job = move_job sample_failed_job Job_QUEUED (time_of ''03'')"

lemma sample_job_fields [simp]:
  "job_state sample_job = Job_CREATED" "job_createdAt sample_job = time_of ''00''"
  "job_finishedAt sample_job = None"
  by (simp_all add: sample_job_def)

lemma sample_job_runs:
  "(job_step sample_env)\<^sup>*\<^sup>* sample_job sample_failed_job"
  "job_step sample_env sample_failed_job sample_retried_job"
proof -
  have "job_step sample_env sample_job (move_job sample_job Job_CANCEL_REQUESTED (time_of ''01''))"
    by (rule sample_transition [where n = "''CANCEL_REQUESTED''"]) (simp_all add: job_states_def job_terminal_def)
  moreover have "job_step sample_env (move_job sample_job Job_CANCEL_REQUESTED (time_of ''01'')) sample_failed_job"
    unfolding sample_failed_job_def
    by (rule sample_transition [where n = "''FAILED''"]) (simp_all add: job_states_def job_terminal_def)
  ultimately show "(job_step sample_env)\<^sup>*\<^sup>* sample_job sample_failed_job" by simp
  show "job_step sample_env sample_failed_job sample_retried_job"
    unfolding sample_retried_job_def sample_failed_job_def
    by (rule sample_transition [where n = "''QUEUED''"]) (simp_all add: job_states_def job_terminal_def)
qed

section \<open>Properties\<close>

text \<open>
  C11: every job a history of accepted operations can produce from its creation keeps its identity
  (identifier, tenant, requester, typed action, manifest, idempotency key, creation time) and is
  well formed: a billing effect is restricted, a restricted action requires approval, attempts
  and time-out stay in their bounds, a job that was reviewed or has succeeded was started, a job
  in a terminal state carries its finishing time, and no recorded time precedes the creation.
\<close>

theorem job_history:
  assumes "job_initial E j" and "(job_step E)\<^sup>*\<^sup>* j k"
  shows "job_ok E k \<and> job_key k = job_key j"
  using jobs.reachable_invariant [OF assms(2,1)] jobs.run_key [OF assms(2)] by simp

theorem job_history_witness:
  "job_ok sample_env sample_failed_job \<and> job_key sample_failed_job = job_key sample_job"
  using job_history [OF sample_job_initial sample_job_runs(1)] .

text \<open>
  Succeeded, partially succeeded, cancelled and expired jobs are final: no operation the
  module offers changes such a job.
\<close>

theorem job_final:
  assumes "job_state j \<in> {Job_SUCCEEDED, Job_PARTIALLY_SUCCEEDED, Job_CANCELLED, Job_EXPIRED}"
    and "(job_step E)\<^sup>*\<^sup>* j k"
  shows "k = j"
  using assms(1) by (intro jobs.final_stays [OF assms(2)]) (auto simp: job_edge_def)

theorem job_final_witness:
  "let j = move_job sample_job Job_EXPIRED (time_of ''01'')
   in \<forall>k. (job_step sample_env)\<^sup>*\<^sup>* j k \<longrightarrow> k = j"
  unfolding Let_def by (intro allI impI job_final) simp_all

text \<open>
  C20: A failed job that is queued again can never finish. The failure dates the job, the retry
  keeps that date, and every transition into a terminal state is rejected while a date is there;
  so along every history that starts at a dated job, all later states are non-terminal. (The
  source intends the edges \<open>FAILED \<rightarrow> QUEUED\<close> and \<open>FAILED \<rightarrow> CANCELLED\<close>; the second is dead and
  the first leads to a job that can be neither completed, failed, cancelled nor expired.)
\<close>

theorem retried_job_never_finishes:
  assumes "job_finishedAt j \<noteq> None" and "(job_step E)\<^sup>*\<^sup>* j k"
  shows "k = j \<or> (\<not> job_terminal (job_state k) \<and> job_finishedAt k = job_finishedAt j)"
  using assms(2)
proof (induction rule: rtranclp_induct)
  case base
  show ?case by simp
next
  case (step k l)
  then show ?case using assms(1) by (auto simp: job_step_iff transitionJobV1_iff)
qed

theorem retried_job_never_finishes_witness:
  "job_initial sample_env sample_job \<and> (job_step sample_env)\<^sup>*\<^sup>* sample_job sample_retried_job
   \<and> \<not> job_terminal (job_state sample_retried_job)"
proof -
  have "job_finishedAt sample_failed_job \<noteq> None"
    by (simp add: sample_failed_job_def job_terminal_def)
  moreover have "sample_retried_job \<noteq> sample_failed_job"
    by (auto simp: sample_failed_job_def sample_retried_job_def dest: arg_cong [where f = job_state])
  ultimately have "\<not> job_terminal (job_state sample_retried_job)"
    using retried_job_never_finishes [OF _ r_into_rtranclp [where r = "job_step sample_env", OF sample_job_runs(2)]] by simp
  with sample_job_initial sample_job_runs show ?thesis by simp
qed

end
