(* ===== verification/ExecutionAttempt.thy ===== *)
theory ExecutionAttempt
  imports Machine Samples
begin

text \<open>
  packages/domain/src/execution-attempt/v1.ts: attempts at executing a job, held under a lease.
\<close>

section \<open>Data\<close>

datatype attempt_state =
    Attempt_CLAIMED
  | Attempt_RUNNING
  | Attempt_SUCCEEDED
  | Attempt_FAILED
  | Attempt_CANCELLED
  | Attempt_EXPIRED

datatype executor_type = CLOUD_WORKER | DESKTOP_AGENT

record execution_attempt =
  attemptId :: stable_id
  attempt_jobId :: stable_id
  attempt_scope :: tenant_scope
  attemptNumber :: int
  executorType :: executor_type
  executorId :: stable_id
  leaseTokenHash :: jsstr
  leaseExpiresAt :: utc_timestamp
  attempt_state :: attempt_state
  attempt_createdAt :: utc_timestamp
  heartbeatAt :: utc_timestamp
  attempt_startedAt :: "utc_timestamp option"
  attempt_finishedAt :: "utc_timestamp option"
  resultManifestHash :: "jsstr option"
  attempt_revision :: int

datatype attempt_error =
    Attempt_INVALID_IDENTIFIER
  | Attempt_INVALID_SCOPE
  | Attempt_INVALID_NUMBER
  | Attempt_INVALID_EXECUTOR
  | Attempt_INVALID_HASH
  | Attempt_INVALID_TIMESTAMP
  | Attempt_INVALID_LEASE
  | Attempt_LEASE_EXPIRED
  | Attempt_INVALID_STATE
  | Attempt_INVALID_OUTCOME
  | Attempt_INVALID_RESULT_HASH
  | Attempt_INVALID_REVISION

section \<open>Operations\<close>

definition after :: "env \<Rightarrow> utc_timestamp \<Rightarrow> utc_timestamp \<Rightarrow> bool" where
  "after E l r \<longleftrightarrow> date_less (Date_parse E r) (Date_parse E l)"

definition notBefore :: "env \<Rightarrow> utc_timestamp \<Rightarrow> utc_timestamp \<Rightarrow> bool" where
  "notBefore E l r \<longleftrightarrow> date_le (Date_parse E r) (Date_parse E l)"

definition active :: "execution_attempt \<Rightarrow> bool" where
  "active a \<longleftrightarrow> attempt_state a = Attempt_CLAIMED \<or> attempt_state a = Attempt_RUNNING"

definition leaseMatches :: "execution_attempt \<Rightarrow> jsval \<Rightarrow> bool" where
  "leaseMatches a token \<longleftrightarrow> token = Str (leaseTokenHash a)"

record attempt_input =
  in_attemptId :: jsval
  in_attempt_jobId :: jsval
  in_attempt_scope :: jsval
  in_attemptNumber :: jsval
  in_executorType :: jsval
  in_executorId :: jsval
  in_leaseTokenHash :: jsval
  in_leaseExpiresAt :: jsval
  in_attempt_createdAt :: jsval

definition executor_types :: "(string \<times> executor_type) list" where
  "executor_types = [(''CLOUD_WORKER'', CLOUD_WORKER), (''DESKTOP_AGENT'', DESKTOP_AGENT)]"

definition createExecutionAttemptV1 :: "env \<Rightarrow> attempt_input \<Rightarrow> attempt_error + execution_attempt" where
  "createExecutionAttemptV1 E i =
     require Attempt_INVALID_IDENTIFIER (stable E (in_attemptId i)) (\<lambda>attempt_id.
     require Attempt_INVALID_IDENTIFIER (stable E (in_attempt_jobId i)) (\<lambda>job_id.
     require Attempt_INVALID_IDENTIFIER (stable E (in_executorId i)) (\<lambda>executor.
     require Attempt_INVALID_SCOPE (scope_value E (in_attempt_scope i)) (\<lambda>scope.
     require Attempt_INVALID_HASH (sha256_hex (in_leaseTokenHash i)) (\<lambda>token_hash.
     require Attempt_INVALID_TIMESTAMP (timestamp E (in_leaseExpiresAt i)) (\<lambda>expires_at.
     require Attempt_INVALID_TIMESTAMP (timestamp E (in_attempt_createdAt i)) (\<lambda>created_at.
     reject_if (\<not> after E expires_at created_at) Attempt_INVALID_LEASE (
     require Attempt_INVALID_NUMBER (safe_integer_within 1 20 (in_attemptNumber i)) (\<lambda>number.
     require Attempt_INVALID_EXECUTOR (one_of executor_types (in_executorType i)) (\<lambda>type.
     accepted
       \<lparr>attemptId = attempt_id, attempt_jobId = job_id, attempt_scope = scope,
        attemptNumber = number, executorType = type, executorId = executor,
        leaseTokenHash = token_hash, leaseExpiresAt = expires_at,
        attempt_state = Attempt_CLAIMED, attempt_createdAt = created_at,
        heartbeatAt = created_at, attempt_startedAt = None, attempt_finishedAt = None,
        resultManifestHash = None, attempt_revision = 1\<rparr>))))))))))"

definition startExecutionAttemptV1 ::
    "env \<Rightarrow> execution_attempt \<Rightarrow> jsval \<Rightarrow> jsval \<Rightarrow> attempt_error + execution_attempt" where
  "startExecutionAttemptV1 E a token nowInput =
     require Attempt_INVALID_TIMESTAMP (timestamp E nowInput) (\<lambda>now.
     reject_if (\<not> active a) Attempt_INVALID_STATE (
     reject_if (\<not> leaseMatches a token) Attempt_INVALID_LEASE (
     reject_if (\<not> notBefore E (leaseExpiresAt a) now) Attempt_LEASE_EXPIRED (
     if attempt_state a = Attempt_RUNNING then accepted a
     else accepted (a\<lparr>attempt_state := Attempt_RUNNING, attempt_startedAt := Some now,
                       heartbeatAt := now, attempt_revision := js_succ (attempt_revision a)\<rparr>)))))"

definition renewExecutionAttemptLeaseV1 ::
    "env \<Rightarrow> execution_attempt \<Rightarrow> jsval \<Rightarrow> jsval \<Rightarrow> jsval \<Rightarrow> attempt_error + execution_attempt" where
  "renewExecutionAttemptLeaseV1 E a token nowInput nextLeaseExpiresAtInput =
     require Attempt_INVALID_TIMESTAMP (timestamp E nowInput) (\<lambda>now.
     require Attempt_INVALID_TIMESTAMP (timestamp E nextLeaseExpiresAtInput) (\<lambda>next_expires.
     reject_if (\<not> active a) Attempt_INVALID_STATE (
     reject_if (\<not> leaseMatches a token) Attempt_INVALID_LEASE (
     reject_if (\<not> notBefore E (leaseExpiresAt a) now) Attempt_LEASE_EXPIRED (
     reject_if (\<not> after E next_expires now \<or> \<not> after E next_expires (leaseExpiresAt a))
       Attempt_INVALID_LEASE (
     accepted (a\<lparr>leaseExpiresAt := next_expires, heartbeatAt := now,
                 attempt_revision := js_succ (attempt_revision a)\<rparr>)))))))"

definition outcomes :: "(string \<times> attempt_state) list" where
  "outcomes =
     [(''SUCCEEDED'', Attempt_SUCCEEDED), (''FAILED'', Attempt_FAILED),
      (''CANCELLED'', Attempt_CANCELLED)]"

definition completeExecutionAttemptV1 ::
    "env \<Rightarrow> execution_attempt \<Rightarrow> jsval \<Rightarrow> jsval \<Rightarrow> jsval \<Rightarrow> jsval \<Rightarrow> attempt_error + execution_attempt"
  where
  "completeExecutionAttemptV1 E a token outcomeInput nowInput hashInput =
     require Attempt_INVALID_TIMESTAMP (timestamp E nowInput) (\<lambda>now.
     reject_if (\<not> active a) Attempt_INVALID_STATE (
     reject_if (\<not> leaseMatches a token) Attempt_INVALID_LEASE (
     reject_if (\<not> notBefore E (leaseExpiresAt a) now) Attempt_LEASE_EXPIRED (
     require Attempt_INVALID_OUTCOME (one_of outcomes outcomeInput) (\<lambda>outcome.
     require Attempt_INVALID_RESULT_HASH (optional sha256_hex (defined_value hashInput)) (\<lambda>hash.
     accepted (a\<lparr>attempt_state := outcome, attempt_finishedAt := Some now, heartbeatAt := now,
                 resultManifestHash := (if hash = None then resultManifestHash a else hash),
                 attempt_revision := js_succ (attempt_revision a)\<rparr>)))))))"

definition expireExecutionAttemptV1 ::
    "env \<Rightarrow> execution_attempt \<Rightarrow> jsval \<Rightarrow> attempt_error + execution_attempt" where
  "expireExecutionAttemptV1 E a nowInput =
     require Attempt_INVALID_TIMESTAMP (timestamp E nowInput) (\<lambda>now.
     reject_if (\<not> active a) Attempt_INVALID_STATE (
     reject_if (notBefore E (leaseExpiresAt a) now) Attempt_INVALID_LEASE (
     accepted (a\<lparr>attempt_state := Attempt_EXPIRED, attempt_finishedAt := Some now,
                 heartbeatAt := now, attempt_revision := js_succ (attempt_revision a)\<rparr>))))"

section \<open>Histories\<close>

inductive attempt_step :: "env \<Rightarrow> execution_attempt \<Rightarrow> execution_attempt \<Rightarrow> bool" for E where
  start: "startExecutionAttemptV1 E a token now = Inr b \<Longrightarrow> attempt_step E a b"
| renew: "renewExecutionAttemptLeaseV1 E a token now expires = Inr b \<Longrightarrow> attempt_step E a b"
| complete: "completeExecutionAttemptV1 E a token outcome now hash = Inr b \<Longrightarrow> attempt_step E a b"
| expire: "expireExecutionAttemptV1 E a now = Inr b \<Longrightarrow> attempt_step E a b"

definition attempt_edge :: "attempt_state \<Rightarrow> attempt_state \<Rightarrow> bool" where
  "attempt_edge s t \<longleftrightarrow>
     s \<in> {Attempt_CLAIMED, Attempt_RUNNING} \<and> \<not> (s = Attempt_RUNNING \<and> t = Attempt_CLAIMED)"

definition attempt_key ::
    "execution_attempt \<Rightarrow> stable_id \<times> stable_id \<times> tenant_scope \<times> int \<times> executor_type \<times> stable_id \<times> jsstr \<times> jsstr"
  where
  "attempt_key a = (attemptId a, attempt_jobId a, attempt_scope a, attemptNumber a, executorType a,
                    executorId a, leaseTokenHash a, attempt_createdAt a)"

definition attempt_initial :: "env \<Rightarrow> execution_attempt \<Rightarrow> bool" where
  "attempt_initial E a \<longleftrightarrow> (\<exists>i. createExecutionAttemptV1 E i = Inr a)"

text \<open>
  What an attempt promises in every state: exactly the finished attempts are dated, a running one
  has been started, only a completed one carries a result, and its lease outlives its creation.
\<close>

definition attempt_ok :: "env \<Rightarrow> execution_attempt \<Rightarrow> bool" where
  "attempt_ok E a \<longleftrightarrow>
     wf_scope (attempt_scope a) \<and> 1 \<le> attemptNumber a \<and> attemptNumber a \<le> 20
     \<and> (active a \<longleftrightarrow> attempt_finishedAt a = None)
     \<and> (attempt_state a = Attempt_RUNNING \<longrightarrow> attempt_startedAt a \<noteq> None)
     \<and> (resultManifestHash a \<noteq> None \<longrightarrow>
          attempt_state a \<in> {Attempt_SUCCEEDED, Attempt_FAILED, Attempt_CANCELLED})
     \<and> after E (leaseExpiresAt a) (attempt_createdAt a)
     \<and> 1 \<le> attempt_revision a \<and> attempt_revision a \<le> 9007199254740992"

lemma outcomes_Some:
  "one_of outcomes v = Some s \<Longrightarrow> s \<in> {Attempt_SUCCEEDED, Attempt_FAILED, Attempt_CANCELLED}"
  by (auto simp: one_of_def outcomes_def split: jsval.splits if_splits)

definition started :: "execution_attempt \<Rightarrow> utc_timestamp \<Rightarrow> execution_attempt" where
  "started a t =
     (if attempt_state a = Attempt_RUNNING then a
      else a\<lparr>attempt_state := Attempt_RUNNING, attempt_startedAt := Some t, heartbeatAt := t,
              attempt_revision := js_succ (attempt_revision a)\<rparr>)"

lemma start_iff:
  "startExecutionAttemptV1 E a token now = Inr b \<longleftrightarrow>
     (\<exists>t. timestamp E now = Some t \<and> active a \<and> leaseMatches a token
        \<and> notBefore E (leaseExpiresAt a) t \<and> b = started a t)"
proof -
  have eq: "(if attempt_state a = Attempt_RUNNING then Inr a
      else Inr (a\<lparr>attempt_state := Attempt_RUNNING, attempt_startedAt := Some t, heartbeatAt := t,
                   attempt_revision := js_succ (attempt_revision a)\<rparr>)) = Inr b
      \<longleftrightarrow> b = started a t" for t
    unfolding started_def by (cases "attempt_state a = Attempt_RUNNING") (auto simp only: simp_thms if_True if_False sum.inject)
  show ?thesis
    unfolding startExecutionAttemptV1_def result_simps eq by blast
qed

lemma started_fields [simp]:
  "attempt_state (started a t) = Attempt_RUNNING" "attempt_key (started a t) = attempt_key a"
  "attempt_scope (started a t) = attempt_scope a" "attemptNumber (started a t) = attemptNumber a"
  "attempt_finishedAt (started a t) = attempt_finishedAt a"
  "leaseExpiresAt (started a t) = leaseExpiresAt a"
  "attempt_createdAt (started a t) = attempt_createdAt a"
  "resultManifestHash (started a t) = resultManifestHash a"
  by (simp_all add: started_def attempt_key_def)

lemma started_cases:
  "started a t = a \<or> attempt_state a \<noteq> Attempt_RUNNING \<and> attempt_startedAt (started a t) = Some t
     \<and> attempt_revision (started a t) = js_succ (attempt_revision a)"
  by (simp add: started_def)

lemma renew_iff:
  "renewExecutionAttemptLeaseV1 E a token now expires = Inr b \<longleftrightarrow>
     (\<exists>t e. timestamp E now = Some t \<and> timestamp E expires = Some e \<and> active a
        \<and> leaseMatches a token \<and> notBefore E (leaseExpiresAt a) t
        \<and> after E e t \<and> after E e (leaseExpiresAt a)
        \<and> b = a\<lparr>leaseExpiresAt := e, heartbeatAt := t,
                attempt_revision := js_succ (attempt_revision a)\<rparr>)"
  unfolding renewExecutionAttemptLeaseV1_def result_simps by blast

lemma complete_iff:
  "completeExecutionAttemptV1 E a token outcome now hash = Inr b \<longleftrightarrow>
     (\<exists>t s h. timestamp E now = Some t \<and> active a \<and> leaseMatches a token
        \<and> notBefore E (leaseExpiresAt a) t \<and> one_of outcomes outcome = Some s
        \<and> optional sha256_hex (defined_value hash) = Some h
        \<and> b = a\<lparr>attempt_state := s, attempt_finishedAt := Some t, heartbeatAt := t,
                resultManifestHash := (if h = None then resultManifestHash a else h),
                attempt_revision := js_succ (attempt_revision a)\<rparr>)"
  unfolding completeExecutionAttemptV1_def result_simps by blast

lemma expire_iff:
  "expireExecutionAttemptV1 E a now = Inr b \<longleftrightarrow>
     (\<exists>t. timestamp E now = Some t \<and> active a \<and> \<not> notBefore E (leaseExpiresAt a) t
        \<and> b = a\<lparr>attempt_state := Attempt_EXPIRED, attempt_finishedAt := Some t,
                heartbeatAt := t, attempt_revision := js_succ (attempt_revision a)\<rparr>)"
  unfolding expireExecutionAttemptV1_def result_simps by (blast 5)

lemmas attempt_ops = start_iff renew_iff complete_iff expire_iff

lemma attempt_initial_ok: "attempt_initial E a \<Longrightarrow> attempt_ok E a"
  by (auto simp: attempt_initial_def createExecutionAttemptV1_def result_simps attempt_ok_def
      active_def safe_integer_within_Some dest: scope_value_wf)

lemma after_trans: "after E a b \<Longrightarrow> after E b c \<Longrightarrow> after E a c"
  by (auto simp: after_def dest: date_less_trans)

lemma attempt_step_ok:
  assumes "attempt_step E a b" "attempt_ok E a"
  shows "attempt_ok E b"
  using assms(1)
proof cases
  case (start token now)
  then obtain t where b: "b = started a t" "active a" unfolding start_iff by blast
  from started_cases [of a t] show ?thesis
  proof (elim disjE conjE)
    assume "started a t = a"
    with b assms(2) show ?thesis by simp
  next
    assume "attempt_startedAt (started a t) = Some t"
      "attempt_revision (started a t) = js_succ (attempt_revision a)"
    with b assms(2) js_succ_bounds [of "attempt_revision a"] show ?thesis
      by (auto simp: attempt_ok_def active_def)
  qed
next
  case (renew token now expires)
  with assms(2) js_succ_bounds [of "attempt_revision a"] show ?thesis
    unfolding renew_iff by (clarsimp simp: attempt_ok_def active_def) (blast intro: after_trans)
next
  case (complete token outcome now hash)
  then obtain t s h where s: "one_of outcomes outcome = Some s"
    and b: "b = a\<lparr>attempt_state := s, attempt_finishedAt := Some t, heartbeatAt := t,
                resultManifestHash := (if h = None then resultManifestHash a else h),
                attempt_revision := js_succ (attempt_revision a)\<rparr>"
    unfolding complete_iff by blast
  from outcomes_Some [OF s] assms(2) js_succ_bounds [of "attempt_revision a"] show ?thesis
    unfolding b by (auto simp: attempt_ok_def active_def)
next
  case (expire now)
  then obtain t where b: "b = a\<lparr>attempt_state := Attempt_EXPIRED, attempt_finishedAt := Some t,
      heartbeatAt := t, attempt_revision := js_succ (attempt_revision a)\<rparr>" "active a"
    unfolding expire_iff by blast
  from assms(2) b(2) js_succ_bounds [of "attempt_revision a"] show ?thesis
    unfolding b(1) by (auto simp: attempt_ok_def active_def)
qed

lemma attempt_step_shape:
  assumes "attempt_step E a b"
  shows "attempt_key b = attempt_key a
     \<and> (a = b \<or> attempt_edge (attempt_state a) (attempt_state b)
              \<and> attempt_revision b = js_succ (attempt_revision a))"
  using assms
proof cases
  case (start token now)
  then obtain t where "b = started a t" "active a" unfolding start_iff by blast
  then show ?thesis
    using started_cases [of a t] by (auto simp: attempt_edge_def active_def)
next
  case (renew token now expires)
  then obtain t e where b: "active a" "b = a\<lparr>leaseExpiresAt := e, heartbeatAt := t,
      attempt_revision := js_succ (attempt_revision a)\<rparr>"
    unfolding renew_iff by blast
  then show ?thesis
    by (intro conjI disjI2) (simp_all add: attempt_key_def attempt_edge_def active_def)
next
  case (complete token outcome now hash)
  then obtain t s h where s: "active a" "one_of outcomes outcome = Some s"
    and b: "b = a\<lparr>attempt_state := s, attempt_finishedAt := Some t, heartbeatAt := t,
                resultManifestHash := (if h = None then resultManifestHash a else h),
                attempt_revision := js_succ (attempt_revision a)\<rparr>"
    unfolding complete_iff by blast
  from s(1) outcomes_Some [OF s(2)] show ?thesis
    unfolding b by (intro conjI disjI2) (auto simp: attempt_key_def attempt_edge_def active_def)
next
  case (expire now)
  then obtain t where b: "active a" "b = a\<lparr>attempt_state := Attempt_EXPIRED, attempt_finishedAt := Some t,
      heartbeatAt := t, attempt_revision := js_succ (attempt_revision a)\<rparr>"
    unfolding expire_iff by blast
  then show ?thesis
    by (intro conjI disjI2) (auto simp: attempt_key_def attempt_edge_def active_def)
qed

interpretation attempts: guarded "attempt_step E" attempt_state attempt_edge attempt_revision
    attempt_key "attempt_initial E" "attempt_ok E"
  by unfold_locales
     (use attempt_step_shape attempt_initial_ok attempt_step_ok in blast)+

section \<open>A sample attempt\<close>

definition sample_attempt_input :: attempt_input where
  "sample_attempt_input =
     \<lparr>in_attemptId = sample_id CHR ''a'', in_attempt_jobId = sample_id CHR ''b'',
      in_attempt_scope = sample_scope CHR ''a'' CHR ''b'', in_attemptNumber = int_num 1,
      in_executorType = Str (js ''CLOUD_WORKER''), in_executorId = sample_id CHR ''c'',
      in_leaseTokenHash = sample_hash CHR ''d'', in_leaseExpiresAt = sample_time ''05'',
      in_attempt_createdAt = sample_time ''00''\<rparr>"

definition sample_attempt :: execution_attempt where
  "sample_attempt =
     \<lparr>attemptId = uuid_of CHR ''a'', attempt_jobId = uuid_of CHR ''b'',
      attempt_scope = ws_scope CHR ''a'' CHR ''b'', attemptNumber = 1, executorType = CLOUD_WORKER,
      executorId = uuid_of CHR ''c'', leaseTokenHash = hash_of CHR ''d'',
      leaseExpiresAt = time_of ''05'', attempt_state = Attempt_CLAIMED,
      attempt_createdAt = time_of ''00'', heartbeatAt = time_of ''00'', attempt_startedAt = None,
      attempt_finishedAt = None, resultManifestHash = None, attempt_revision = 1\<rparr>"

lemma sample_attempt_initial: "attempt_initial sample_env sample_attempt"
proof -
  have "createExecutionAttemptV1 sample_env sample_attempt_input = Inr sample_attempt"
    by (simp add: createExecutionAttemptV1_def sample_attempt_input_def sample_attempt_def
        result_simps after_def safe_integer_within_def executor_types_def max_safe_integer_def)
  then show ?thesis unfolding attempt_initial_def by blast
qed

definition sample_renewed :: execution_attempt where
  "sample_renewed = sample_attempt\<lparr>leaseExpiresAt := time_of ''09'', heartbeatAt := time_of ''04'',
     attempt_revision := js_succ (attempt_revision sample_attempt)\<rparr>"

lemma sample_attempt_renews: "attempt_step sample_env sample_attempt sample_renewed"
proof (rule attempt_step.renew)
  show "renewExecutionAttemptLeaseV1 sample_env sample_attempt (sample_hash CHR ''d'')
      (sample_time ''04'') (sample_time ''09'') = Inr sample_renewed"
    by (simp add: renewExecutionAttemptLeaseV1_def result_simps active_def leaseMatches_def
        notBefore_def after_def sample_attempt_def sample_renewed_def)
qed

section \<open>Properties\<close>

text \<open>
  Whatever sequence of starts, renewals, completions and expiries is accepted, an attempt keeps
  its identity and its lease token, exactly a finished attempt carries a finishing time, a running
  one was started, only a reported outcome carries a result manifest, the attempt number stays
  within 1 to 20, and a finished attempt is never changed again.
\<close>

theorem attempt_history:
  assumes "attempt_initial E a" and "(attempt_step E)\<^sup>*\<^sup>* a b"
  shows "attempt_ok E b \<and> attempt_key b = attempt_key a
     \<and> (\<forall>c. (attempt_step E)\<^sup>*\<^sup>* b c \<longrightarrow> attempt_finishedAt b \<noteq> None \<longrightarrow> c = b)"
proof (intro conjI allI impI)
  show ok: "attempt_ok E b" using attempts.reachable_invariant [OF assms(2,1)] .
  show "attempt_key b = attempt_key a" using attempts.run_key [OF assms(2)] .
  fix c
  assume "(attempt_step E)\<^sup>*\<^sup>* b c" "attempt_finishedAt b \<noteq> None"
  with ok show "c = b"
    by (intro attempts.final_stays) (auto simp: attempt_ok_def active_def attempt_edge_def)
qed

theorem attempt_history_witness:
  "attempt_ok sample_env sample_renewed \<and> attempt_key sample_renewed = attempt_key sample_attempt"
  using attempt_history [OF sample_attempt_initial, of sample_renewed] sample_attempt_renews by blast

text \<open>
  C9: completion and expiry exclude each other and leave no gap. At every instant at which both
  the lease's end and the clock are proper times, an active attempt can be completed by the holder
  of the lease token exactly when it cannot be expired, so a worker and the reaper can never both
  win and one of the two always can act.
\<close>

theorem attempt_race:
  assumes "active a" and "timestamp E now = Some t"
    and "Date_parse E t \<noteq> None" and "Date_parse E (leaseExpiresAt a) \<noteq> None"
    and "one_of outcomes outcome = Some s"
  shows "(\<exists>b. completeExecutionAttemptV1 E a (Str (leaseTokenHash a)) outcome now Undefined = Inr b)
     \<longleftrightarrow> \<not> (\<exists>c. expireExecutionAttemptV1 E a now = Inr c)"
  using assms by (simp add: complete_iff expire_iff leaseMatches_def optional_def)

theorem attempt_race_witness:
  "(\<exists>b. completeExecutionAttemptV1 sample_env sample_attempt (sample_hash CHR ''d'')
        (Str (js ''SUCCEEDED'')) (sample_time ''05'') Undefined = Inr b)
   \<longleftrightarrow> \<not> (\<exists>c. expireExecutionAttemptV1 sample_env sample_attempt (sample_time ''05'') = Inr c)"
proof -
  have "leaseTokenHash sample_attempt = hash_of CHR ''d''" by (simp add: sample_attempt_def)
  with attempt_race [of sample_attempt sample_env "sample_time ''05''" "time_of ''05''"
      "Str (js ''SUCCEEDED'')" Attempt_SUCCEEDED]
  show ?thesis by (simp add: active_def outcomes_def sample_attempt_def)
qed

text \<open>
  A lease only grows. Along every history the end of the lease moves from a proper time only
  to later ones, and no operation other than a renewal by the holder of the token moves it.
\<close>

theorem attempt_lease_grows:
  assumes "(attempt_step E)\<^sup>*\<^sup>* a b"
  shows "leaseExpiresAt b = leaseExpiresAt a \<or> after E (leaseExpiresAt b) (leaseExpiresAt a)"
  using assms
proof (induction rule: rtranclp_induct)
  case base
  show ?case by simp
next
  case (step b c)
  from step(2) have "leaseExpiresAt c = leaseExpiresAt b \<or> after E (leaseExpiresAt c) (leaseExpiresAt b)"
    by (cases rule: attempt_step.cases) (unfold attempt_ops, auto)
  with step(3) show ?case by (auto intro: after_trans)
qed

theorem attempt_lease_grows_witness:
  "leaseExpiresAt sample_renewed = leaseExpiresAt sample_attempt
   \<or> after sample_env (leaseExpiresAt sample_renewed) (leaseExpiresAt sample_attempt)"
  by (rule attempt_lease_grows) (use sample_attempt_renews in blast)

end
