(* ===== verification/Approval.thy ===== *)
theory Approval
  imports Machine Samples "HOL-Library.AList"
begin

text \<open>
  packages/domain/src/approval/v1.ts: approval policies, requests and decisions.
\<close>

section \<open>Data\<close>

datatype policy_status = Policy_DRAFT | Policy_ACTIVE | Policy_RETIRED

datatype request_status =
    Request_OPEN | Request_APPROVED | Request_REJECTED | Request_EXPIRED | Request_CANCELLED

datatype approval_verdict = APPROVE | REJECT

record approval_policy =
  policyId :: stable_id
  policy_workspaceId :: stable_id
  policy_version :: int
  actionMatcher :: "(jsstr \<times> jsstr) list"
  minimumApprovals :: int
  eligibleRoles :: "jsstr list"
  selfApprovalAllowed :: bool
  expiresAfterMinutes :: int
  requireMfa :: bool
  policy_status :: policy_status

record approval_request =
  requestId :: stable_id
  request_scope :: tenant_scope
  subjectType :: jsstr
  subjectId :: stable_id
  subjectVersion :: int
  subjectHash :: jsstr
  requestedAction :: jsstr
  request_policyId :: stable_id
  request_policyVersion :: int
  requestedBy :: stable_id
  request_status :: request_status
  request_createdAt :: utc_timestamp
  dueAt :: "utc_timestamp option"
  request_revision :: int

record approval_decision =
  decisionId :: stable_id
  decision_requestId :: stable_id
  actorId :: stable_id
  verdict :: approval_verdict
  reason :: "jsstr option"
  mfaAssertionId :: "stable_id option"
  decision_subjectHash :: jsstr
  decidedAt :: utc_timestamp

datatype approval_error =
    Approval_INVALID_IDENTIFIER
  | Approval_INVALID_SCOPE
  | Approval_INVALID_TEXT
  | Approval_INVALID_HASH
  | Approval_INVALID_VERSION
  | Approval_INVALID_COUNT
  | Approval_INVALID_EXPIRY
  | Approval_INVALID_ROLE
  | Approval_INVALID_STATUS
  | Approval_INVALID_TIMESTAMP
  | Approval_INVALID_DECISION
  | Approval_SUBJECT_HASH_MISMATCH
  | Approval_SELF_APPROVAL_FORBIDDEN
  | Approval_MFA_REQUIRED
  | Approval_MFA_REENROLLMENT_REQUIRED
  | Approval_REQUEST_NOT_OPEN

section \<open>Policies\<close>

definition roleList :: "env \<Rightarrow> jsval \<Rightarrow> jsstr list option" where
  "roleList E v =
     (case as_array v of
        None \<Rightarrow> None
      | Some vs \<Rightarrow>
          if vs = [] \<or> length vs > 32 then None
          else map_option dedup (parse_all (\<lambda>role. text_value E role 64) vs))"

definition policyStatuses :: "(string \<times> policy_status) list" where
  "policyStatuses = [(''DRAFT'', Policy_DRAFT), (''ACTIVE'', Policy_ACTIVE), (''RETIRED'', Policy_RETIRED)]"

text \<open>
  The loop that copies the matcher. Assigning a string to \<open>__proto__\<close> has no effect; two keys with
  the same normal form overwrite each other.
\<close>

definition assign :: "jsstr \<Rightarrow> jsstr \<Rightarrow> (jsstr \<times> jsstr) list \<Rightarrow> (jsstr \<times> jsstr) list" where
  "assign k v m = (if k = js ''__proto__'' then m else AList.update k v m)"

fun copy_matcher :: "env \<Rightarrow> (jsstr \<times> jsval) list \<Rightarrow> (jsstr \<times> jsstr) list \<Rightarrow> (jsstr \<times> jsstr) list option"
  where
  "copy_matcher E [] m = Some m"
| "copy_matcher E ((k, v) # entries) m =
     (case (text_value E (Str k) 64, text_value E v 128) of
        (Some k', Some v') \<Rightarrow> copy_matcher E entries (assign k' v' m)
      | _ \<Rightarrow> None)"

fun entries :: "jsval \<Rightarrow> (jsstr \<times> jsval) list option" where
  "entries (Obj ps) = Some ps"
| "entries _ = None"

record policy_input =
  in_policyId :: jsval
  in_policy_workspaceId :: jsval
  in_policy_version :: jsval
  in_actionMatcher :: jsval
  in_minimumApprovals :: jsval
  in_eligibleRoles :: jsval
  in_selfApprovalAllowed :: jsval
  in_expiresAfterMinutes :: jsval
  in_requireMfa :: jsval
  in_policy_status :: jsval

definition createApprovalPolicyV1 :: "env \<Rightarrow> policy_input \<Rightarrow> approval_error + approval_policy" where
  "createApprovalPolicyV1 E i =
     require Approval_INVALID_IDENTIFIER (stable E (in_policyId i)) (\<lambda>policy_id.
     require Approval_INVALID_IDENTIFIER (stable E (in_policy_workspaceId i)) (\<lambda>workspace_id.
     require Approval_INVALID_VERSION (positiveInteger (in_policy_version i)) (\<lambda>version.
     require Approval_INVALID_TEXT (entries (in_actionMatcher i)) (\<lambda>matcher_entries.
     require Approval_INVALID_COUNT (positiveInteger (in_minimumApprovals i)) (\<lambda>minimum.
     require Approval_INVALID_ROLE (roleList E (in_eligibleRoles i)) (\<lambda>roles.
     reject_if (minimum > int (length roles)) Approval_INVALID_ROLE (
     require Approval_INVALID_EXPIRY
       (safe_integer_within 1 43200 (in_expiresAfterMinutes i)) (\<lambda>minutes.
     require Approval_INVALID_STATUS (as_bool (in_selfApprovalAllowed i)) (\<lambda>self_allowed.
     require Approval_INVALID_STATUS (as_bool (in_requireMfa i)) (\<lambda>require_mfa.
     require Approval_INVALID_STATUS
       (one_of policyStatuses (nullish (in_policy_status i) (Str (js ''DRAFT'')))) (\<lambda>status.
     require Approval_INVALID_TEXT (copy_matcher E matcher_entries []) (\<lambda>matcher.
     accepted
       \<lparr>policyId = policy_id, policy_workspaceId = workspace_id, policy_version = version,
        actionMatcher = matcher, minimumApprovals = minimum, eligibleRoles = roles,
        selfApprovalAllowed = self_allowed, expiresAfterMinutes = minutes,
        requireMfa = require_mfa, policy_status = status\<rparr>))))))))))))"

section \<open>Requests\<close>

record request_input =
  in_requestId :: jsval
  in_request_scope :: jsval
  in_subjectType :: jsval
  in_subjectId :: jsval
  in_subjectVersion :: jsval
  in_subjectHash :: jsval
  in_requestedAction :: jsval
  in_request_policyId :: jsval
  in_request_policyVersion :: jsval
  in_requestedBy :: jsval
  in_request_createdAt :: jsval
  in_dueAt :: jsval

definition createApprovalRequestV1 :: "env \<Rightarrow> request_input \<Rightarrow> approval_error + approval_request" where
  "createApprovalRequestV1 E i =
     require Approval_INVALID_IDENTIFIER (stable E (in_requestId i)) (\<lambda>request_id.
     require Approval_INVALID_IDENTIFIER (stable E (in_subjectId i)) (\<lambda>subject_id.
     require Approval_INVALID_IDENTIFIER (stable E (in_request_policyId i)) (\<lambda>policy_id.
     require Approval_INVALID_IDENTIFIER (stable E (in_requestedBy i)) (\<lambda>requested_by.
     require Approval_INVALID_SCOPE (scope_value E (in_request_scope i)) (\<lambda>scope.
     require Approval_INVALID_TEXT (text_value E (in_subjectType i) 80) (\<lambda>subject_type.
     require Approval_INVALID_TEXT (text_value E (in_requestedAction i) 80) (\<lambda>action.
     require Approval_INVALID_HASH (sha256_hex (in_subjectHash i)) (\<lambda>subject_hash.
     require Approval_INVALID_VERSION (positiveInteger (in_subjectVersion i)) (\<lambda>subject_version.
     require Approval_INVALID_VERSION (positiveInteger (in_request_policyVersion i)) (\<lambda>version.
     require Approval_INVALID_TIMESTAMP (timestamp E (in_request_createdAt i)) (\<lambda>created_at.
     require Approval_INVALID_TIMESTAMP
       (optional (timestamp E) (defined_value (in_dueAt i))) (\<lambda>due_at.
     reject_if (case due_at of None \<Rightarrow> False
                | Some d \<Rightarrow> date_less (Date_parse E d) (Date_parse E created_at))
       Approval_INVALID_EXPIRY (
     accepted
       \<lparr>requestId = request_id, request_scope = scope, subjectType = subject_type,
        subjectId = subject_id, subjectVersion = subject_version, subjectHash = subject_hash,
        requestedAction = action, request_policyId = policy_id, request_policyVersion = version,
        requestedBy = requested_by, request_status = Request_OPEN,
        request_createdAt = created_at, dueAt = due_at, request_revision = 1\<rparr>)))))))))))))"

section \<open>Decisions\<close>

definition verdicts :: "(string \<times> approval_verdict) list" where
  "verdicts = [(''APPROVE'', APPROVE), (''REJECT'', REJECT)]"

record decision_input =
  in_decisionId :: jsval
  in_actorId :: jsval
  in_decision :: jsval
  in_reason :: jsval
  in_mfaAssertionId :: jsval
  in_decision_subjectHash :: jsval
  in_decidedAt :: jsval
  in_actorRole :: jsval

text \<open>An unparsable optional MFA assertion counts as absent; it matters only if MFA is required.\<close>

definition createApprovalDecisionV1 ::
    "env \<Rightarrow> decision_input \<Rightarrow> approval_request \<Rightarrow> bool \<Rightarrow> bool \<Rightarrow> approval_error + approval_decision" where
  "createApprovalDecisionV1 E i request self_allowed require_mfa =
     (let mfa = (if in_mfaAssertionId i = Undefined then None else stable E (in_mfaAssertionId i)) in
     require Approval_INVALID_IDENTIFIER (stable E (in_decisionId i)) (\<lambda>decision_id.
     require Approval_INVALID_IDENTIFIER (stable E (in_actorId i)) (\<lambda>actor_id.
     require Approval_SUBJECT_HASH_MISMATCH (sha256_hex (in_decision_subjectHash i)) (\<lambda>subject_hash.
     reject_if (subject_hash \<noteq> subjectHash request) Approval_SUBJECT_HASH_MISMATCH (
     require Approval_INVALID_TIMESTAMP (timestamp E (in_decidedAt i)) (\<lambda>decided_at.
     require Approval_INVALID_TIMESTAMP
       (optional (\<lambda>v. text_value E v 512) (defined_value (in_reason i))) (\<lambda>reason_text.
     require Approval_INVALID_DECISION (one_of verdicts (in_decision i)) (\<lambda>decision.
     reject_if (request_status request \<noteq> Request_OPEN) Approval_REQUEST_NOT_OPEN (
     require Approval_INVALID_ROLE (text_value E (in_actorRole i) 64) (\<lambda>actor_role.
     reject_if (\<not> self_allowed \<and> actor_id = requestedBy request) Approval_SELF_APPROVAL_FORBIDDEN (
     reject_if (require_mfa \<and> mfa = None) Approval_MFA_REQUIRED (
     accepted
       \<lparr>decisionId = decision_id, decision_requestId = requestId request, actorId = actor_id,
        verdict = decision, reason = reason_text, mfaAssertionId = mfa,
        decision_subjectHash = subject_hash, decidedAt = decided_at\<rparr>))))))))))))"

definition with_status :: "approval_request \<Rightarrow> request_status \<Rightarrow> approval_request" where
  "with_status request status =
     request\<lparr>request_status := status, request_revision := js_succ (request_revision request)\<rparr>"

definition applyApprovalDecisionV1 ::
    "approval_request \<Rightarrow> approval_decision \<Rightarrow> int \<Rightarrow> int \<Rightarrow> approval_error + approval_request" where
  "applyApprovalDecisionV1 request decision approvedDecisionCount minimum =
     reject_if (request_status request \<noteq> Request_OPEN) Approval_REQUEST_NOT_OPEN (
     reject_if (decision_requestId decision \<noteq> requestId request
                \<or> decision_subjectHash decision \<noteq> subjectHash request)
       Approval_SUBJECT_HASH_MISMATCH (
     accepted (with_status request
       (if verdict decision = REJECT then Request_REJECTED
        else if approvedDecisionCount \<ge> minimum then Request_APPROVED
        else Request_OPEN))))"

section \<open>Facts\<close>

definition request_key ::
    "approval_request \<Rightarrow> stable_id \<times> tenant_scope \<times> jsstr \<times> stable_id \<times> int \<times> jsstr \<times> jsstr \<times> stable_id \<times> int
       \<times> stable_id \<times> jsstr \<times> jsstr option" where
  "request_key r =
     (requestId r, request_scope r, subjectType r, subjectId r, subjectVersion r, subjectHash r,
      requestedAction r, request_policyId r, request_policyVersion r, requestedBy r,
      request_createdAt r, dueAt r)"

lemma with_status_simps [simp]:
  "request_status (with_status r s) = s"
  "request_revision (with_status r s) = js_succ (request_revision r)"
  "request_key (with_status r s) = request_key r"
  "requestId (with_status r s) = requestId r"
  "request_scope (with_status r s) = request_scope r"
  "subjectHash (with_status r s) = subjectHash r"
  "request_policyId (with_status r s) = request_policyId r"
  "request_policyVersion (with_status r s) = request_policyVersion r"
  by (simp_all add: with_status_def request_key_def)

lemma createApprovalDecisionV1_accepted:
  "createApprovalDecisionV1 E i r s m = Inr d \<Longrightarrow>
     stable E (in_decisionId i) = Some (decisionId d) \<and> stable E (in_actorId i) = Some (actorId d)
     \<and> decision_requestId d = requestId r
     \<and> decision_subjectHash d = subjectHash r \<and> request_status r = Request_OPEN
     \<and> (s \<or> actorId d \<noteq> requestedBy r) \<and> (m \<longrightarrow> mfaAssertionId d \<noteq> None)"
  by (auto simp: createApprovalDecisionV1_def Let_def result_simps)

lemma applyApprovalDecisionV1_iff:
  "applyApprovalDecisionV1 r d n m = Inr r' \<longleftrightarrow>
     request_status r = Request_OPEN \<and> decision_requestId d = requestId r
     \<and> decision_subjectHash d = subjectHash r
     \<and> r' = with_status r (if verdict d = REJECT then Request_REJECTED
                           else if n \<ge> m then Request_APPROVED else Request_OPEN)"
  by (auto simp: applyApprovalDecisionV1_def result_simps)

definition policy_ok :: "approval_policy \<Rightarrow> bool" where
  "policy_ok p \<longleftrightarrow>
     1 \<le> minimumApprovals p \<and> minimumApprovals p \<le> int (length (eligibleRoles p))
     \<and> distinct (eligibleRoles p) \<and> [] \<notin> set (eligibleRoles p) \<and> length (eligibleRoles p) \<le> 32
     \<and> 1 \<le> expiresAfterMinutes p \<and> expiresAfterMinutes p \<le> 43200 \<and> 1 \<le> policy_version p
     \<and> distinct (map fst (actionMatcher p)) \<and> js ''__proto__'' \<notin> fst ` set (actionMatcher p)"

lemma copy_matcher_keys:
  "copy_matcher E ps m = Some m' \<Longrightarrow> distinct (map fst m) \<Longrightarrow> js ''__proto__'' \<notin> fst ` set m \<Longrightarrow>
     distinct (map fst m') \<and> js ''__proto__'' \<notin> fst ` set m'"
proof (induction E ps m rule: copy_matcher.induct)
  case (2 E k v ps m)
  have "distinct (map fst (assign x y m)) \<and> js ''__proto__'' \<notin> fst ` set (assign x y m)" for x y
    using 2(3,4) by (auto simp: assign_def distinct_update dom_update)
  with 2 show ?case by (auto split: option.splits)
qed simp

lemma roleList_Some:
  assumes "roleList E v = Some rs"
  shows "distinct rs \<and> [] \<notin> set rs \<and> length rs \<le> 32"
proof -
  obtain vs ys where ys: "parse_all (\<lambda>role. text_value E role 64) vs = Some ys" "length vs \<le> 32"
    and rs: "rs = dedup ys"
    using assms by (auto simp: roleList_def split: option.splits if_splits)
  have "y \<noteq> []" if "y \<in> set ys" for y
    using ys(1) that by (auto simp: parse_all_Some list_all2_conv_all_nth in_set_conv_nth
        dest: text_value_bounds)
  with ys rs length_dedup [of ys] length_parse_all [OF ys(1)] show ?thesis by auto
qed

lemma createApprovalPolicyV1_ok: "createApprovalPolicyV1 E i = Inr p \<Longrightarrow> policy_ok p"
  by (auto simp: createApprovalPolicyV1_def result_simps policy_ok_def safe_integer_within_Some
      dest!: copy_matcher_keys roleList_Some dest: positiveInteger_bounds)

end
