(* ===== verification/ApprovalService.thy ===== *)
theory ApprovalService
  imports Approval Json "HOL-Library.AList"
begin

text \<open>
  services/api/src/features/jra: \<open>ApprovalService\<close> (application/approval.service.ts) over the
  in-memory repository (adapter/in-memory-approval-repository.adapter.ts). The repository runs
  transactions one after the other and restores its state when one throws, so a transaction is a
  function from the stored state to an error or a result with the new state.
\<close>

section \<open>The repository\<close>

datatype repo_error =
    JRA_SCOPE_NARROWING_REQUIRED
  | JRA_IMMUTABLE_POLICY
  | JRA_IMMUTABLE_REQUEST
  | JRA_REVISION_INVALID
  | JRA_IMMUTABLE_DECISION
  | JRA_DUPLICATE_DECISION
  | RangeError

type_synonym policy_key = "stable_id \<times> stable_id \<times> stable_id \<times> int"

record approval_repo =
  policies :: "policy_key \<Rightarrow> approval_policy option"
  request_list :: "(stable_id \<times> approval_request) list"
  decisions :: "approval_decision list"

abbreviation requests :: "approval_repo \<Rightarrow> stable_id \<Rightarrow> approval_request option" where
  "requests repo \<equiv> map_of (request_list repo)"

declare update_conv' [simp]

definition empty_repo :: approval_repo where
  "empty_repo = \<lparr>policies = (\<lambda>_. None), request_list = [], decisions = []\<rparr>"

text \<open>The parts of the tenant context the service reads.\<close>

record tenant_context =
  context_scope :: tenant_scope
  mfaReenrollmentRequired :: bool

definition mutable :: "tenant_context \<Rightarrow> tenant_scope \<Rightarrow> bool" where
  "mutable ctx candidate = tenantScopesEqualV1 (context_scope ctx) candidate"

text \<open>\<open>JSON.stringify\<close> of stored records; absent properties are left out.\<close>

definition text_member :: "string \<Rightarrow> jsstr \<Rightarrow> (jsstr \<times> json) list" where
  "text_member k s = [(js k, JStr s)]"

definition optional_member :: "string \<Rightarrow> jsstr option \<Rightarrow> (jsstr \<times> json) list" where
  "optional_member k x = (case x of None \<Rightarrow> [] | Some s \<Rightarrow> text_member k s)"

definition verdict_text :: "approval_verdict \<Rightarrow> jsstr" where
  "verdict_text v = (case v of APPROVE \<Rightarrow> js ''APPROVE'' | REJECT \<Rightarrow> js ''REJECT'')"

definition decision_json :: "approval_decision \<Rightarrow> json" where
  "decision_json d = JObj
     ((js ''schemaVersion'', JInt 1) # text_member ''decisionId'' (decisionId d)
      @ text_member ''requestId'' (decision_requestId d) @ text_member ''actorId'' (actorId d)
      @ text_member ''decision'' (verdict_text (verdict d)) @ optional_member ''reason'' (reason d)
      @ optional_member ''mfaAssertionId'' (mfaAssertionId d)
      @ text_member ''subjectHash'' (decision_subjectHash d) @ text_member ''decidedAt'' (decidedAt d))"

definition policy_status_text :: "policy_status \<Rightarrow> jsstr" where
  "policy_status_text s =
     (case s of Policy_DRAFT \<Rightarrow> js ''DRAFT'' | Policy_ACTIVE \<Rightarrow> js ''ACTIVE'' | Policy_RETIRED \<Rightarrow> js ''RETIRED'')"

definition policy_json :: "approval_policy \<Rightarrow> json" where
  "policy_json p = JObj
     [(js ''schemaVersion'', JInt 1), (js ''policyId'', JStr (policyId p)),
      (js ''workspaceId'', JStr (policy_workspaceId p)), (js ''version'', JInt (policy_version p)),
      (js ''actionMatcher'', JObj (map (\<lambda>(k, v). (k, JStr v)) (actionMatcher p))),
      (js ''minimumApprovals'', JInt (minimumApprovals p)),
      (js ''eligibleRoles'', JArr (map JStr (eligibleRoles p))),
      (js ''selfApprovalAllowed'', JBool (selfApprovalAllowed p)),
      (js ''expiresAfterMinutes'', JInt (expiresAfterMinutes p)),
      (js ''requireMfa'', JBool (requireMfa p)),
      (js ''status'', JStr (policy_status_text (policy_status p)))]"

definition request_status_text :: "request_status \<Rightarrow> jsstr" where
  "request_status_text s =
     (case s of Request_OPEN \<Rightarrow> js ''OPEN'' | Request_APPROVED \<Rightarrow> js ''APPROVED''
      | Request_REJECTED \<Rightarrow> js ''REJECTED'' | Request_EXPIRED \<Rightarrow> js ''EXPIRED''
      | Request_CANCELLED \<Rightarrow> js ''CANCELLED'')"

definition request_json :: "approval_request \<Rightarrow> json" where
  "request_json r = JObj
     ([(js ''schemaVersion'', JInt 1), (js ''requestId'', JStr (requestId r)),
       (js ''tenantScope'', scope_json (request_scope r)), (js ''subjectType'', JStr (subjectType r)),
       (js ''subjectId'', JStr (subjectId r)), (js ''subjectVersion'', JInt (subjectVersion r)),
       (js ''subjectHash'', JStr (subjectHash r)), (js ''requestedAction'', JStr (requestedAction r)),
       (js ''policyId'', JStr (request_policyId r)),
       (js ''policyVersion'', JInt (request_policyVersion r)),
       (js ''requestedBy'', JStr (requestedBy r)),
       (js ''status'', JStr (request_status_text (request_status r))),
       (js ''createdAt'', JStr (request_createdAt r))]
      @ optional_member ''dueAt'' (dueAt r) @ [(js ''revision'', JInt (request_revision r))])"

type_synonym 'a transaction = "approval_repo \<Rightarrow> repo_error + 'a \<times> approval_repo"

definition savePolicy :: "tenant_context \<Rightarrow> approval_policy \<Rightarrow> unit transaction" where
  "savePolicy ctx policy repo =
     (case context_scope ctx of
        Workspace_scope org ws \<Rightarrow>
          if ws \<noteq> policy_workspaceId policy then Inl JRA_SCOPE_NARROWING_REQUIRED
          else let key = (org, policy_workspaceId policy, policyId policy, policy_version policy) in
            (case policies repo key of
               Some existing \<Rightarrow>
                 if stringify (policy_json existing) = stringify (policy_json policy) then Inr ((), repo)
                 else Inl JRA_IMMUTABLE_POLICY
             | None \<Rightarrow> Inr ((), repo\<lparr>policies := (policies repo)(key \<mapsto> policy)\<rparr>))
      | _ \<Rightarrow> Inl JRA_SCOPE_NARROWING_REQUIRED)"

definition findPolicy ::
    "tenant_context \<Rightarrow> stable_id \<Rightarrow> int \<Rightarrow> approval_repo \<Rightarrow> approval_policy option" where
  "findPolicy ctx policy_id version repo =
     (case workspace_of (context_scope ctx) of
        None \<Rightarrow> None
      | Some ws \<Rightarrow>
          (case policies repo (organizationId (context_scope ctx), ws, policy_id, version) of
             None \<Rightarrow> None
           | Some policy \<Rightarrow> if ws = policy_workspaceId policy then Some policy else None))"

definition saveRequest :: "tenant_context \<Rightarrow> approval_request \<Rightarrow> unit transaction" where
  "saveRequest ctx request repo =
     (if \<not> mutable ctx (request_scope request) then Inl JRA_SCOPE_NARROWING_REQUIRED
      else case requests repo (requestId request) of
        Some existing \<Rightarrow>
          if stringify (request_json existing) = stringify (request_json request) then Inr ((), repo)
          else Inl JRA_IMMUTABLE_REQUEST
      | None \<Rightarrow> Inr ((), repo\<lparr>request_list := AList.update (requestId request) request (request_list repo)\<rparr>))"

definition findRequest :: "tenant_context \<Rightarrow> stable_id \<Rightarrow> approval_repo \<Rightarrow> approval_request option" where
  "findRequest ctx request_id repo =
     (case requests repo request_id of
        Some request \<Rightarrow>
          if tenantScopesEqualV1 (context_scope ctx) (request_scope request) then Some request else None
      | None \<Rightarrow> None)"

definition immutable_part_changed :: "approval_request \<Rightarrow> approval_request \<Rightarrow> bool" where
  "immutable_part_changed existing request \<longleftrightarrow>
     stringify (scope_json (request_scope existing)) \<noteq> stringify (scope_json (request_scope request))
     \<or> subjectType existing \<noteq> subjectType request \<or> subjectId existing \<noteq> subjectId request
     \<or> subjectVersion existing \<noteq> subjectVersion request \<or> subjectHash existing \<noteq> subjectHash request
     \<or> requestedAction existing \<noteq> requestedAction request
     \<or> request_policyId existing \<noteq> request_policyId request
     \<or> request_policyVersion existing \<noteq> request_policyVersion request
     \<or> requestedBy existing \<noteq> requestedBy request
     \<or> request_createdAt existing \<noteq> request_createdAt request \<or> dueAt existing \<noteq> dueAt request"

definition updateRequest ::
    "tenant_context \<Rightarrow> approval_request \<Rightarrow> int \<Rightarrow> approval_request option transaction" where
  "updateRequest ctx request expectedRevision repo =
     (if \<not> mutable ctx (request_scope request) then Inl JRA_SCOPE_NARROWING_REQUIRED
      else if request_revision request \<noteq> js_succ expectedRevision then Inl JRA_REVISION_INVALID
      else case requests repo (requestId request) of
        None \<Rightarrow> Inr (None, repo)
      | Some existing \<Rightarrow>
          if request_revision existing \<noteq> expectedRevision then Inr (None, repo)
          else if immutable_part_changed existing request then Inl JRA_IMMUTABLE_REQUEST
          else Inr (Some request, repo\<lparr>request_list := AList.update (requestId request) request (request_list repo)\<rparr>))"

definition saveDecision :: "tenant_context \<Rightarrow> approval_decision \<Rightarrow> unit transaction" where
  "saveDecision ctx decision repo =
     (case requests repo (decision_requestId decision) of
        None \<Rightarrow> Inl JRA_SCOPE_NARROWING_REQUIRED
      | Some request \<Rightarrow>
          if \<not> mutable ctx (request_scope request) then Inl JRA_SCOPE_NARROWING_REQUIRED
          else (case List.find (\<lambda>d. decisionId d = decisionId decision) (decisions repo) of
             Some existing \<Rightarrow>
               if stringify (decision_json existing) = stringify (decision_json decision)
               then Inr ((), repo) else Inl JRA_IMMUTABLE_DECISION
           | None \<Rightarrow>
               if list_ex (\<lambda>d. decision_requestId d = decision_requestId decision
                               \<and> actorId d = actorId decision) (decisions repo)
               then Inl JRA_DUPLICATE_DECISION
               else Inr ((), repo\<lparr>decisions := decisions repo @ [decision]\<rparr>)))"

definition decisions_of :: "stable_id \<Rightarrow> approval_repo \<Rightarrow> approval_decision list" where
  "decisions_of request_id repo = filter (\<lambda>d. decision_requestId d = request_id) (decisions repo)"

definition listDecisions ::
    "tenant_context \<Rightarrow> stable_id \<Rightarrow> approval_repo \<Rightarrow> approval_decision list" where
  "listDecisions ctx request_id repo =
     (case requests repo request_id of
        None \<Rightarrow> []
      | Some request \<Rightarrow>
          if \<not> tenantScopesEqualV1 (context_scope ctx) (request_scope request) then []
          else decisions_of request_id repo)"

section \<open>The service\<close>

text \<open>Each operation is one transaction; \<open>Inl\<close> is a throw, which leaves the repository as it was.\<close>

type_synonym 'a service_call = "(approval_error + 'a) transaction"

definition publishPolicy :: "env \<Rightarrow> tenant_context \<Rightarrow> policy_input \<Rightarrow> approval_policy service_call" where
  "publishPolicy E ctx i repo =
     (case createApprovalPolicyV1 E i of
        Inl e \<Rightarrow> Inr (rejected e, repo)
      | Inr policy \<Rightarrow>
          if scopeType (context_scope ctx) \<noteq> Workspace_type
             \<or> Some (policy_workspaceId policy) \<noteq> workspace_of (context_scope ctx)
          then Inr (rejected Approval_INVALID_IDENTIFIER, repo)
          else (case savePolicy ctx policy repo of
             Inl e \<Rightarrow> Inl e
           | Inr (_, repo') \<Rightarrow> Inr (accepted policy, repo')))"

text \<open>\<open>None\<close> where \<open>toISOString\<close> throws.\<close>

definition policyExpiry :: "env \<Rightarrow> utc_timestamp \<Rightarrow> approval_policy \<Rightarrow> jsstr option" where
  "policyExpiry E createdAt policy =
     Option.bind (Date_parse E createdAt) (\<lambda>t. toISOString (t + expiresAfterMinutes policy * 60000))"

definition earlier_due :: "env \<Rightarrow> utc_timestamp option \<Rightarrow> jsstr \<Rightarrow> jsstr" where
  "earlier_due E due policyDueAt =
     (case due of
        None \<Rightarrow> policyDueAt
      | Some d \<Rightarrow> if date_less (Date_parse E policyDueAt) (Date_parse E d) then policyDueAt else d)"

definition openRequest :: "env \<Rightarrow> tenant_context \<Rightarrow> request_input \<Rightarrow> approval_request service_call" where
  "openRequest E ctx i repo =
     (case createApprovalRequestV1 E i of
        Inl e \<Rightarrow> Inr (rejected e, repo)
      | Inr created \<Rightarrow>
          (case findPolicy ctx (request_policyId created) (request_policyVersion created) repo of
             None \<Rightarrow> Inr (rejected Approval_INVALID_IDENTIFIER, repo)
           | Some policy \<Rightarrow>
               if policy_status policy \<noteq> Policy_ACTIVE
               then Inr (rejected Approval_INVALID_IDENTIFIER, repo)
               else (case policyExpiry E (request_createdAt created) policy of
                  None \<Rightarrow> Inl RangeError
                | Some policyDueAt \<Rightarrow>
                    (case createApprovalRequestV1 E
                            (i\<lparr>in_dueAt := Str (earlier_due E (dueAt created) policyDueAt)\<rparr>) of
                       Inl e \<Rightarrow> Inr (rejected e, repo)
                     | Inr withExpiry \<Rightarrow>
                         (case saveRequest ctx withExpiry repo of
                            Inl e \<Rightarrow> Inl e
                          | Inr (_, repo') \<Rightarrow> Inr (accepted withExpiry, repo'))))))"

definition effectiveDueAt :: "env \<Rightarrow> approval_request \<Rightarrow> approval_policy \<Rightarrow> jsstr option" where
  "effectiveDueAt E request policy =
     map_option (earlier_due E (dueAt request)) (policyExpiry E (request_createdAt request) policy)"

text \<open>
  The role of the deciding actor: the controller's validator admits strings only, so the
  conversion \<open>String(input.actorRole)\<close> is the identity.
\<close>

definition eligible :: "approval_policy \<Rightarrow> jsval \<Rightarrow> bool" where
  "eligible policy role = (case role of Str s \<Rightarrow> s \<in> set (eligibleRoles policy) | _ \<Rightarrow> False)"

definition decided_time :: "env \<Rightarrow> jsval \<Rightarrow> int option" where
  "decided_time E v = Date_parse E (case v of Str s \<Rightarrow> s | _ \<Rightarrow> [])"

definition approved_count :: "approval_decision list \<Rightarrow> int" where
  "approved_count ds = int (length (filter (\<lambda>d. verdict d = APPROVE) ds))"

definition decide ::
    "env \<Rightarrow> tenant_context \<Rightarrow> stable_id \<Rightarrow> decision_input \<Rightarrow> (approval_request \<times> approval_decision) service_call"
  where
  "decide E ctx request_id i repo =
     (if mfaReenrollmentRequired ctx then Inr (rejected Approval_MFA_REENROLLMENT_REQUIRED, repo)
      else case findRequest ctx request_id repo of
        None \<Rightarrow> Inr (rejected Approval_INVALID_IDENTIFIER, repo)
      | Some request \<Rightarrow>
      (case findPolicy ctx (request_policyId request) (request_policyVersion request) repo of
        None \<Rightarrow> Inr (rejected Approval_INVALID_IDENTIFIER, repo)
      | Some policy \<Rightarrow>
      (case effectiveDueAt E request policy of
        None \<Rightarrow> Inl RangeError
      | Some due \<Rightarrow>
      if date_le (Date_parse E due) (decided_time E (in_decidedAt i)) then
        (case updateRequest ctx (with_status request Request_EXPIRED) (request_revision request) repo of
           Inl e \<Rightarrow> Inl e
         | Inr (_, repo') \<Rightarrow> Inr (rejected Approval_REQUEST_NOT_OPEN, repo'))
      else if \<not> eligible policy (in_actorRole i) then Inr (rejected Approval_INVALID_ROLE, repo)
      else
      (case createApprovalDecisionV1 E i request (selfApprovalAllowed policy) (requireMfa policy) of
        Inl e \<Rightarrow> Inr (rejected e, repo)
      | Inr decision \<Rightarrow>
      (case applyApprovalDecisionV1 request decision
              (approved_count (listDecisions ctx (requestId request) repo)
               + (if verdict decision = APPROVE then 1 else 0))
              (minimumApprovals policy) of
        Inl e \<Rightarrow> Inr (rejected e, repo)
      | Inr updated \<Rightarrow>
      (case saveDecision ctx decision repo of
        Inl e \<Rightarrow> Inl e
      | Inr (_, repo') \<Rightarrow>
      (case updateRequest ctx updated (request_revision request) repo' of
        Inl e \<Rightarrow> Inl e
      | Inr (None, repo'') \<Rightarrow> Inr (rejected Approval_REQUEST_NOT_OPEN, repo'')
      | Inr (Some stored, repo'') \<Rightarrow> Inr (accepted (stored, decision), repo''))))))))"

section \<open>Facts about the repository\<close>

lemma decision_json_inject [simp]: "decision_json a = decision_json b \<longleftrightarrow> a = b"
proof -
  have "verdict_text u = verdict_text v \<longleftrightarrow> u = v" for u v
    by (cases u; cases v) (simp_all add: verdict_text_def)
  then show ?thesis
    by (cases "reason a"; cases "reason b"; cases "mfaAssertionId a"; cases "mfaAssertionId b")
       (auto simp: decision_json_def text_member_def optional_member_def)
qed

lemma immutable_with_status [simp]: "\<not> immutable_part_changed r (with_status r s)"
  by (simp add: immutable_part_changed_def with_status_def)

lemma updateRequest_with_status:
  assumes "requests repo (requestId r) = Some r" "mutable ctx (request_scope r)"
  shows "updateRequest ctx (with_status r s) (request_revision r) repo =
     Inr (Some (with_status r s), repo\<lparr>request_list := AList.update (requestId r) (with_status r s) (request_list repo)\<rparr>)"
  using assms by (simp add: updateRequest_def)

text \<open>
  What the service needs of a decision store, as an interface: saving keeps all decisions and
  appends a new one once, and an accepted decision is the only one of its actor.
\<close>

locale decision_store =
  fixes stored :: "stable_id \<Rightarrow> 'r \<Rightarrow> approval_decision list"
    and save :: "approval_decision \<Rightarrow> 'r \<Rightarrow> 'r option"
  assumes save_stored: "save d r = Some r' \<Longrightarrow>
      stored q r' = stored q r @ (if decision_requestId d = q \<and> d \<notin> set (stored q r) then [d] else [])"
    and save_actor: "save d r = Some r' \<Longrightarrow> d \<notin> set (stored (decision_requestId d) r) \<Longrightarrow>
      e \<in> set (stored (decision_requestId d) r) \<Longrightarrow> actorId e \<noteq> actorId d"
begin

definition approving :: "stable_id \<Rightarrow> 'r \<Rightarrow> stable_id set" where
  "approving q r = actorId ` {d \<in> set (stored q r). verdict d = APPROVE}"

lemma save_distinct:
  assumes "save d r = Some r'" "distinct (map actorId (stored q r))"
  shows "distinct (map actorId (stored q r'))"
proof (cases "decision_requestId d = q \<and> d \<notin> set (stored q r)")
  case True
  then have "actorId d \<notin> actorId ` set (stored q r)" using save_actor [OF assms(1)] by force
  with assms(2) True show ?thesis by (simp add: save_stored [OF assms(1)])
next
  case False
  then have "stored q r' = stored q r" by (auto simp: save_stored [OF assms(1)])
  with assms(2) show ?thesis by simp
qed

lemma count_distinct_approvals:
  assumes "distinct (map actorId (stored q r))"
  shows "approved_count (stored q r) = int (card (approving q r))"
proof -
  let ?ds = "filter (\<lambda>d. verdict d = APPROVE) (stored q r)"
  have "distinct (map actorId ?ds)" using assms by (rule distinct_map_filter)
  then have "card (actorId ` set ?ds) = length ?ds"
    by (metis distinct_card length_map list.set_map)
  then show ?thesis by (simp add: approved_count_def approving_def)
qed

lemma save_approving:
  assumes "save d r = Some r'"
  shows "approving q r' = approving q r
     \<union> (if decision_requestId d = q \<and> verdict d = APPROVE then {actorId d} else {})"
proof -
  have "set (stored q r') = set (stored q r) \<union> (if decision_requestId d = q then {d} else {})"
    by (auto simp: save_stored [OF assms])
  then show ?thesis by (auto simp: approving_def)
qed

end

lemma saveDecision_cases:
  assumes "saveDecision ctx d repo = Inr (u, repo')"
  shows "(d \<in> set (decisions repo) \<and> repo' = repo)
    \<or> (d \<notin> set (decisions repo)
       \<and> (\<forall>e \<in> set (decisions repo). decisionId e \<noteq> decisionId d
            \<and> \<not> (decision_requestId e = decision_requestId d \<and> actorId e = actorId d))
       \<and> repo' = repo\<lparr>decisions := decisions repo @ [d]\<rparr>)"
proof (cases "List.find (\<lambda>e. decisionId e = decisionId d) (decisions repo)")
  case None
  then have "\<forall>e \<in> set (decisions repo). decisionId e \<noteq> decisionId d"
    by (auto simp: find_None_iff)
  with assms None show ?thesis
    by (auto simp: saveDecision_def list_ex_iff split: option.splits if_splits)
next
  case (Some e)
  then have "e \<in> set (decisions repo)" by (auto dest: find_SomeD)
  with assms Some show ?thesis
    by (auto simp: saveDecision_def split: option.splits if_splits)
qed

definition saved :: "tenant_context \<Rightarrow> approval_decision \<Rightarrow> approval_repo \<Rightarrow> approval_repo option" where
  "saved ctx d repo = (case saveDecision ctx d repo of Inl _ \<Rightarrow> None | Inr (_, repo') \<Rightarrow> Some repo')"

interpretation store: decision_store decisions_of "saved ctx" for ctx
proof
  fix d repo repo' q e
  assume "saved ctx d repo = Some repo'"
  then obtain u where "saveDecision ctx d repo = Inr (u, repo')"
    by (auto simp: saved_def split: sum.splits)
  note cases = saveDecision_cases [OF this]
  then show "decisions_of q repo' = decisions_of q repo
      @ (if decision_requestId d = q \<and> d \<notin> set (decisions_of q repo) then [d] else [])"
    by (auto simp: decisions_of_def)
  assume "d \<notin> set (decisions_of (decision_requestId d) repo)"
    "e \<in> set (decisions_of (decision_requestId d) repo)"
  with cases show "actorId e \<noteq> actorId d" by (auto simp: decisions_of_def)
qed

section \<open>What decide does\<close>

lemma findRequest_Some:
  "findRequest ctx q repo = Some r \<longleftrightarrow> requests repo q = Some r \<and> request_scope r = context_scope ctx"
  by (auto simp: findRequest_def split: option.splits)

text \<open>
  An accepted call of \<open>decide\<close> leaves the repository alone, expires the request, or stores a
  decision and moves the request to the status the decision and the count give.
\<close>

lemma decide_cases:
  assumes "decide E ctx q i repo = Inr (x, repo')"
    and "\<forall>q r. requests repo q = Some r \<longrightarrow> requestId r = q"
  obtains "repo' = repo" "isl x"
  | r where "requests repo q = Some r"
      "repo' = repo\<lparr>request_list := AList.update q (with_status r Request_EXPIRED) (request_list repo)\<rparr>" "isl x"
  | r p d s repo1 where "requests repo q = Some r" "request_scope r = context_scope ctx"
      "findPolicy ctx (request_policyId r) (request_policyVersion r) repo = Some p"
      "createApprovalDecisionV1 E i r (selfApprovalAllowed p) (requireMfa p) = Inr d"
      "saved ctx d repo = Some repo1"
      "repo' = repo1\<lparr>request_list := AList.update q (with_status r s) (request_list repo1)\<rparr>"
      "s = (if verdict d = REJECT then Request_REJECTED
            else if approved_count (decisions_of q repo) + 1 \<ge> minimumApprovals p then Request_APPROVED
            else Request_OPEN)"
      "x = Inr (with_status r s, d)"
proof (cases "findRequest ctx q repo")
  case None
  with assms(1) that(1) show thesis by (auto simp: decide_def split: if_splits)
next
  case (Some r)
  then have r: "requests repo q = Some r" "request_scope r = context_scope ctx"
    by (auto simp: findRequest_Some)
  then have id: "requestId r = q" using assms(2) by blast
  have m: "mutable ctx (request_scope r)" using r by (simp add: mutable_def)
  have list: "listDecisions ctx (requestId r) repo = decisions_of q repo"
    using r id by (simp add: listDecisions_def)
  show thesis
  proof (cases "findPolicy ctx (request_policyId r) (request_policyVersion r) repo")
    case None
    with assms(1) Some that(1) show thesis by (auto simp: decide_def split: if_splits)
  next
    case p: (Some p)
    show thesis
    proof (cases "createApprovalDecisionV1 E i r (selfApprovalAllowed p) (requireMfa p)")
      case Inl
      with assms(1) Some p r id m updateRequest_with_status [of repo r ctx] show thesis
        by (auto simp: decide_def split: if_splits option.splits intro: that(1,2))
    next
      case (Inr d)
      define s where "s = (if verdict d = REJECT then Request_REJECTED
            else if approved_count (decisions_of q repo) + 1 \<ge> minimumApprovals p then Request_APPROVED
            else Request_OPEN)"
      have ap: "applyApprovalDecisionV1 r d
          (approved_count (listDecisions ctx (requestId r) repo) + (if verdict d = APPROVE then 1 else 0))
          (minimumApprovals p) = Inr (with_status r s)"
        using createApprovalDecisionV1_accepted [OF Inr] list
        by (cases "verdict d") (simp_all add: applyApprovalDecisionV1_iff s_def)
      have up: "updateRequest ctx (with_status r s) (request_revision r) repo1 =
          Inr (Some (with_status r s), repo1\<lparr>request_list := AList.update q (with_status r s) (request_list repo1)\<rparr>)"
        if "saved ctx d repo = Some repo1" for repo1
      proof -
        have "requests repo1 = requests repo"
          using that by (auto simp: saved_def split: sum.splits dest!: saveDecision_cases)
        then show ?thesis using updateRequest_with_status [of repo1 r ctx s] r id m by simp
      qed
      consider "repo' = repo" "isl x"
        | "repo' = repo\<lparr>request_list := AList.update q (with_status r Request_EXPIRED) (request_list repo)\<rparr>" "isl x"
        | repo1 y where "saved ctx d repo = Some repo1"
            "updateRequest ctx (with_status r s) (request_revision r) repo1 = Inr (Some y, repo')"
            "x = Inr (y, d)"
        | repo1 where "saved ctx d repo = Some repo1"
            "updateRequest ctx (with_status r s) (request_revision r) repo1 = Inr (None, repo')"
        using assms(1) Some p r id Inr ap updateRequest_with_status [of repo r ctx Request_EXPIRED] m
        by (auto simp: decide_def saved_def split: if_splits option.splits sum.splits prod.splits)
      then show thesis
      proof cases
        case 1 then show thesis by (rule that(1))
      next
        case 2 with r(1) show thesis by (rule that(2))
      next
        case 3
        then have "x = Inr (with_status r s, d)"
          "repo' = repo1\<lparr>request_list := AList.update q (with_status r s) (request_list repo1)\<rparr>"
          using up [OF 3(1)] by auto
        from that(3) [OF r p Inr 3(1) this(2) s_def this(1)] show thesis .
      qed (use up in auto)
    qed
  qed
qed

section \<open>Histories of the service\<close>

text \<open>
  \<open>service_step E once\<close>: one accepted or rejected call; with \<open>once\<close>, no decision is submitted again
  under an identifier that is already stored.
\<close>

definition resubmitted :: "env \<Rightarrow> decision_input \<Rightarrow> approval_repo \<Rightarrow> bool" where
  "resubmitted E i repo \<longleftrightarrow>
     list_ex (\<lambda>d. stable E (in_decisionId i) = Some (decisionId d)) (decisions repo)"

inductive service_step :: "env \<Rightarrow> bool \<Rightarrow> approval_repo \<Rightarrow> approval_repo \<Rightarrow> bool" for E once where
  publish: "publishPolicy E ctx pol repo = Inr (x, repo') \<Longrightarrow> service_step E once repo repo'"
| open_request: "openRequest E ctx req repo = Inr (y, repo') \<Longrightarrow> service_step E once repo repo'"
| decide: "decide E ctx q i repo = Inr (z, repo') \<Longrightarrow> (once \<longrightarrow> \<not> resubmitted E i repo) \<Longrightarrow>
    service_step E once repo repo'"

definition policy_for :: "approval_repo \<Rightarrow> approval_request \<Rightarrow> approval_policy option" where
  "policy_for repo r =
     Option.bind (workspace_of (request_scope r))
       (\<lambda>ws. policies repo (organizationId (request_scope r), ws, request_policyId r, request_policyVersion r))"

text \<open>The distinct actors whose approval of a request is stored.\<close>

definition approvers :: "approval_repo \<Rightarrow> stable_id \<Rightarrow> stable_id set" where
  "approvers repo q = actorId ` {d \<in> set (decisions_of q repo). verdict d = APPROVE}"

definition quorum :: "approval_repo \<Rightarrow> approval_request \<Rightarrow> bool" where
  "quorum repo r \<longleftrightarrow>
     (\<exists>p. policy_for repo r = Some p \<and> minimumApprovals p \<le> int (card (approvers repo (requestId r))))"

text \<open>A stored decision obeys the policy of its request.\<close>

definition lawful :: "approval_repo \<Rightarrow> approval_decision \<Rightarrow> bool" where
  "lawful repo d \<longleftrightarrow>
     (\<exists>r p. requests repo (decision_requestId d) = Some r \<and> policy_for repo r = Some p
        \<and> decision_subjectHash d = subjectHash r
        \<and> (selfApprovalAllowed p \<or> actorId d \<noteq> requestedBy r)
        \<and> (requireMfa p \<longrightarrow> mfaAssertionId d \<noteq> None))"

definition repo_ok :: "approval_repo \<Rightarrow> bool" where
  "repo_ok repo \<longleftrightarrow>
     (\<forall>q r. requests repo q = Some r \<longrightarrow> requestId r = q)
     \<and> (\<forall>q. distinct (map actorId (decisions_of q repo)))
     \<and> (\<forall>d \<in> set (decisions repo). lawful repo d)"

definition quorum_ok :: "approval_repo \<Rightarrow> bool" where
  "quorum_ok repo \<longleftrightarrow>
     (\<forall>q r. requests repo q = Some r \<longrightarrow> request_status r = Request_APPROVED \<longrightarrow> quorum repo r)"

lemma approvers_eq: "approvers repo q = store.approving q repo"
  by (simp add: approvers_def store.approving_def)

lemma findPolicy_policy_for:
  "findPolicy ctx (request_policyId r) (request_policyVersion r) repo = Some p \<Longrightarrow>
     request_scope r = context_scope ctx \<Longrightarrow> policy_for repo r = Some p"
  by (auto simp: findPolicy_def policy_for_def split: option.splits if_splits)

text \<open>Policies are immutable: a version once published stays.\<close>

lemma publishPolicy_keeps:
  assumes "publishPolicy E ctx pol repo = Inr (x, repo')"
  shows "requests repo' = requests repo \<and> decisions repo' = decisions repo
    \<and> (\<forall>k p. policies repo k = Some p \<longrightarrow> policies repo' k = Some p)"
  using assms
  by (auto simp: publishPolicy_def savePolicy_def Let_def
      split: sum.splits if_splits tenant_scope.splits option.splits)

lemma openRequest_cases:
  assumes "openRequest E ctx req repo = Inr (y, repo')"
  shows "repo' = repo \<or> (\<exists>r. requests repo (requestId r) = None \<and> request_status r = Request_OPEN
     \<and> repo' = repo\<lparr>request_list := AList.update (requestId r) r (request_list repo)\<rparr>)"
proof -
  have "request_status r = Request_OPEN" if "createApprovalRequestV1 E j = Inr r" for j r
    using that by (auto simp: createApprovalRequestV1_def result_simps)
  with assms show ?thesis
    by (auto simp: openRequest_def saveRequest_def split: sum.splits option.splits if_splits)
qed

lemma lawful_mono:
  assumes "lawful repo d"
    and "\<And>q r. requests repo q = Some r \<Longrightarrow> \<exists>r'. requests repo' q = Some r' \<and> request_key r' = request_key r"
    and "\<And>k p. policies repo k = Some p \<Longrightarrow> policies repo' k = Some p"
  shows "lawful repo' d"
proof -
  obtain r p where r: "requests repo (decision_requestId d) = Some r" "policy_for repo r = Some p"
    "decision_subjectHash d = subjectHash r" "selfApprovalAllowed p \<or> actorId d \<noteq> requestedBy r"
    "requireMfa p \<longrightarrow> mfaAssertionId d \<noteq> None"
    using assms(1) by (auto simp: lawful_def)
  then obtain r' where r': "requests repo' (decision_requestId d) = Some r'" "request_key r' = request_key r"
    using assms(2) by blast
  then have "policy_for repo' r' = Some p"
    using r(2) assms(3) by (auto simp: policy_for_def request_key_def Option.bind_eq_Some_conv)
  with r r' show ?thesis by (auto simp: lawful_def request_key_def)
qed

lemma saved_fields:
  "saved ctx d repo = Some repo1 \<Longrightarrow> requests repo1 = requests repo \<and> policies repo1 = policies repo
     \<and> set (decisions repo1) = insert d (set (decisions repo))"
  by (auto simp: saved_def split: sum.splits dest!: saveDecision_cases)

lemma decisions_of_update [simp]: "decisions_of q (repo\<lparr>request_list := f\<rparr>) = decisions_of q repo"
  by (simp add: decisions_of_def)

lemma repo_ok_update:
  assumes "repo_ok repo" "requests repo q = Some r"
  shows "repo_ok (repo\<lparr>request_list := AList.update q (with_status r s) (request_list repo)\<rparr>)"
proof -
  have "lawful (repo\<lparr>request_list := AList.update q (with_status r s) (request_list repo)\<rparr>) d"
    if "d \<in> set (decisions repo)" for d
    by (rule lawful_mono [of repo]) (use assms that in \<open>auto simp: repo_ok_def\<close>)
  with assms show ?thesis by (auto simp: repo_ok_def)
qed

lemma service_step_ok:
  assumes "service_step E once repo repo'" "repo_ok repo"
  shows "repo_ok repo'"
  using assms(1)
proof cases
  case (publish ctx pol x)
  note * = publishPolicy_keeps [OF this]
  have "lawful repo' d" if "d \<in> set (decisions repo)" for d
    by (rule lawful_mono [of repo]) (use assms(2) * that in \<open>auto simp: repo_ok_def\<close>)
  with * assms(2) show ?thesis by (simp add: repo_ok_def decisions_of_def)
next
  case (open_request ctx req y)
  from openRequest_cases [OF this] show ?thesis
  proof (elim disjE exE conjE)
    fix r
    assume r: "requests repo (requestId r) = None"
      "repo' = repo\<lparr>request_list := AList.update (requestId r) r (request_list repo)\<rparr>"
    have "lawful repo' d" if "d \<in> set (decisions repo)" for d
      by (rule lawful_mono [of repo]) (use assms(2) r that in \<open>auto simp: repo_ok_def\<close>)
    with r assms(2) show ?thesis by (simp add: repo_ok_def)
  qed (use assms(2) in simp)
next
  case (decide ctx q i z)
  from assms(2) have ids: "\<forall>q r. requests repo q = Some r \<longrightarrow> requestId r = q" by (simp add: repo_ok_def)
  show ?thesis
  proof (cases rule: decide_cases [OF decide(1) ids, consumes 0, case_names kept expired decided])
    case kept
    with assms(2) show ?thesis by simp
  next
    case (expired r)
    with assms(2) show ?thesis by (simp add: repo_ok_update)
  next
    case (decided r p d s repo1)
    note 3 = this
    note f = saved_fields [OF 3(5)] and a = createApprovalDecisionV1_accepted [OF 3(4)]
    have "decision_requestId d = q" using a ids 3(1) by simp
    then have d: "lawful repo1 d"
      using a f 3(1) findPolicy_policy_for [OF 3(3,2)] by (auto simp: lawful_def policy_for_def)
    have "lawful repo1 e" if "e \<in> set (decisions repo)" for e
      by (rule lawful_mono [of repo]) (use assms(2) f that in \<open>auto simp: repo_ok_def\<close>)
    with d f assms(2) store.save_distinct [OF 3(5)] have "repo_ok repo1"
      by (simp add: repo_ok_def)
    with 3(1,6) f repo_ok_update [of repo1 q r s] show ?thesis by simp
  qed
qed

lemma quorum_cong:
  assumes "request_key r' = request_key r" "\<And>k p. policies repo k = Some p \<Longrightarrow> policies repo' k = Some p"
    and "approvers repo q \<subseteq> approvers repo' q" "requestId r = q" "quorum repo r"
  shows "quorum repo' r'"
proof -
  obtain p where p: "policy_for repo r = Some p" "minimumApprovals p \<le> int (card (approvers repo q))"
    using assms by (auto simp: quorum_def)
  have "card (approvers repo q) \<le> card (approvers repo' q)"
    by (rule card_mono [OF _ assms(3)]) (simp add: approvers_def)
  moreover have "policy_for repo' r' = Some p" "requestId r' = q"
    using p(1) assms(1,2,4) by (auto simp: policy_for_def request_key_def Option.bind_eq_Some_conv)
  ultimately show ?thesis using p(2) by (auto simp: quorum_def)
qed

lemma quorum_simps [simp]:
  "quorum (repo\<lparr>request_list := f\<rparr>) r = quorum repo r"
  "quorum repo (with_status r s) = quorum repo r"
  by (simp_all add: quorum_def policy_for_def approvers_def)

lemma quorum_ok_update:
  assumes "quorum_ok repo" "s = Request_APPROVED \<longrightarrow> quorum repo r"
  shows "quorum_ok (repo\<lparr>request_list := AList.update q (with_status r s) (request_list repo)\<rparr>)"
  using assms by (auto simp: quorum_ok_def)

lemma approvers_saved:
  assumes "saved ctx d repo = Some repo1"
  shows "approvers repo q \<subseteq> approvers repo1 q"
  using store.save_approving [OF assms] by (auto simp: approvers_eq)

lemma quorum_ok_step:
  assumes "service_step E True repo repo'" "repo_ok repo" "quorum_ok repo"
  shows "quorum_ok repo'"
  using assms(1)
proof cases
  case (publish ctx pol x)
  note * = publishPolicy_keeps [OF this]
  have "quorum repo' r" if "quorum repo r" for r
    by (rule quorum_cong [of r r repo repo' "requestId r"])
       (use * that in \<open>auto simp: approvers_def decisions_of_def\<close>)
  with * assms(3) show ?thesis by (auto simp: quorum_ok_def)
next
  case (open_request ctx req y)
  from openRequest_cases [OF this] show ?thesis
  proof (elim disjE exE conjE)
    fix r
    assume r: "request_status r = Request_OPEN"
      "repo' = repo\<lparr>request_list := AList.update (requestId r) r (request_list repo)\<rparr>"
    have "quorum repo' r'" if "quorum repo r'" for r'
      by (rule quorum_cong [of r' r' repo repo' "requestId r'"]) (use r that in \<open>auto simp: approvers_def\<close>)
    with r assms(3) show ?thesis by (auto simp: quorum_ok_def)
  qed (use assms(3) in simp)
next
  case (decide ctx q i z)
  from assms(2) have ids: "\<forall>q r. requests repo q = Some r \<longrightarrow> requestId r = q" by (simp add: repo_ok_def)
  show ?thesis
  proof (cases rule: decide_cases [OF decide(1) ids, consumes 0, case_names kept expired decided])
    case kept
    with assms(3) show ?thesis by simp
  next
    case (expired r)
    with assms(3) quorum_ok_update [of repo Request_EXPIRED r q] show ?thesis by simp
  next
    case (decided r p d s repo1)
    note 3 = this
    note f = saved_fields [OF 3(5)] and a = createApprovalDecisionV1_accepted [OF 3(4)]
    have q: "requestId r = q" "decision_requestId d = q" using a ids 3(1) by auto
    have new: "d \<notin> set (decisions_of q repo)"
      using decide(2) a by (auto simp: resubmitted_def list_ex_iff decisions_of_def)
    have pol: "policy_for repo1 r = Some p"
      using findPolicy_policy_for [OF 3(3,2)] f by (simp add: policy_for_def)
    have dist: "distinct (map actorId (decisions_of q repo1))"
      using assms(2) store.save_distinct [OF 3(5)] by (simp add: repo_ok_def)
    have card: "int (card (approvers repo1 q)) = approved_count (decisions_of q repo)
        + (if verdict d = APPROVE then 1 else 0)"
      using store.count_distinct_approvals [OF dist] store.save_stored [OF 3(5), of q] q new
      by (cases "verdict d") (simp_all add: approvers_eq approved_count_def)
    have "quorum repo1 r" if "s = Request_APPROVED"
      using that 3(7) pol card q(1) by (cases "verdict d") (auto simp: quorum_def split: if_splits)
    moreover have "quorum_ok repo1"
      using assms(3) f approvers_saved [OF 3(5)]
      by (auto simp: quorum_ok_def intro!: quorum_cong [of _ _ repo repo1])
    ultimately show ?thesis using 3(6) f quorum_ok_update [of repo1 s r q] by simp
  qed
qed

lemma empty_repo_ok: "repo_ok empty_repo \<and> quorum_ok empty_repo"
  by (simp add: repo_ok_def quorum_ok_def empty_repo_def decisions_of_def)

lemma service_step_weaken: "service_step E True repo repo' \<Longrightarrow> service_step E False repo repo'"
  by (auto elim!: service_step.cases intro: service_step.intros)

section \<open>A sample history\<close>

definition sample_policy_input :: policy_input where
  "sample_policy_input =
     \<lparr>in_policyId = sample_id CHR ''c'', in_policy_workspaceId = sample_id CHR ''b'',
      in_policy_version = int_num 1, in_actionMatcher = Obj [(js ''actionType'', Str (js ''run'')), (js ''subjectType'', Str (js ''job'')),
        (js ''subjectId'', sample_id CHR ''a'')],
      in_minimumApprovals = int_num 2,
      in_eligibleRoles = Arr [Str (js ''ADMIN''), Str (js ''OWNER'')],
      in_selfApprovalAllowed = Bool False, in_expiresAfterMinutes = int_num 60,
      in_requireMfa = Bool False, in_policy_status = Str (js ''ACTIVE'')\<rparr>"

definition sample_policy :: approval_policy where
  "sample_policy =
     \<lparr>policyId = uuid_of CHR ''c'', policy_workspaceId = uuid_of CHR ''b'', policy_version = 1,
      actionMatcher = [(js ''actionType'', js ''run''), (js ''subjectType'', js ''job''), (js ''subjectId'', uuid_of CHR ''a'')],
      minimumApprovals = 2, eligibleRoles = [js ''ADMIN'', js ''OWNER''],
      selfApprovalAllowed = False, expiresAfterMinutes = 60, requireMfa = False,
      policy_status = Policy_ACTIVE\<rparr>"

definition sample_request_input :: request_input where
  "sample_request_input =
     \<lparr>in_requestId = sample_id CHR ''d'', in_request_scope = sample_scope CHR ''a'' CHR ''b'',
      in_subjectType = Str (js ''job''), in_subjectId = sample_id CHR ''a'',
      in_subjectVersion = int_num 1, in_subjectHash = sample_hash CHR ''e'',
      in_requestedAction = Str (js ''run''), in_request_policyId = sample_id CHR ''c'',
      in_request_policyVersion = int_num 1, in_requestedBy = sample_id CHR ''a'',
      in_request_createdAt = sample_time ''00'', in_dueAt = sample_time ''30''\<rparr>"

definition sample_approval_request :: approval_request where
  "sample_approval_request =
     \<lparr>requestId = uuid_of CHR ''d'', request_scope = ws_scope CHR ''a'' CHR ''b'',
      subjectType = js ''job'', subjectId = uuid_of CHR ''a'', subjectVersion = 1,
      subjectHash = hash_of CHR ''e'', requestedAction = js ''run'',
      request_policyId = uuid_of CHR ''c'', request_policyVersion = 1,
      requestedBy = uuid_of CHR ''a'', request_status = Request_OPEN,
      request_createdAt = time_of ''00'', dueAt = Some (time_of ''30''), request_revision = 1\<rparr>"

definition sample_decision_input :: "char \<Rightarrow> char \<Rightarrow> decision_input" where
  "sample_decision_input c actor =
     \<lparr>in_decisionId = sample_id c, in_actorId = sample_id actor,
      in_decision = Str (js ''APPROVE''), in_reason = Undefined, in_mfaAssertionId = Undefined,
      in_decision_subjectHash = sample_hash CHR ''e'', in_decidedAt = sample_time ''05'',
      in_actorRole = Str (js ''ADMIN'')\<rparr>"

definition sample_decision :: "char \<Rightarrow> char \<Rightarrow> approval_decision" where
  "sample_decision c actor =
     \<lparr>decisionId = uuid_of c, decision_requestId = uuid_of CHR ''d'',
      actorId = uuid_of actor, verdict = APPROVE, reason = None, mfaAssertionId = None,
      decision_subjectHash = hash_of CHR ''e'', decidedAt = time_of ''05''\<rparr>"

definition sample_context :: tenant_context where
  "sample_context = \<lparr>context_scope = ws_scope CHR ''a'' CHR ''b'', mfaReenrollmentRequired = False\<rparr>"

definition sample_repo :: "approval_request option \<Rightarrow> approval_decision list \<Rightarrow> approval_repo" where
  "sample_repo r ds =
     \<lparr>policies = (\<lambda>_. None)((uuid_of CHR ''a'', uuid_of CHR ''b'', uuid_of CHR ''c'', 1) \<mapsto> sample_policy),
      request_list = (case r of None \<Rightarrow> [] | Some x \<Rightarrow> [(uuid_of CHR ''d'', x)]),
      decisions = ds\<rparr>"

definition once_decided :: approval_request where
  "once_decided = with_status sample_approval_request Request_OPEN"

lemma sample_policy_expiry:
  "policyExpiry sample_env (time_of ''00'') sample_policy = Some (js ''2026-01-01T01:00:00.000Z'')"
  "Date_parse sample_env (js ''2026-01-01T01:00:00.000Z'') = Some 1767229200000"
proof -
  have "toISOString 1767229200000 = Some (js ''2026-01-01T01:00:00.000Z'')" by code_simp
  then show "policyExpiry sample_env (time_of ''00'') sample_policy = Some (js ''2026-01-01T01:00:00.000Z'')"
    by (simp add: policyExpiry_def sample_policy_def)
  have "iso_date (js ''2026-01-01T01:00:00.000Z'') = Some 1767229200000" by code_simp
  then show "Date_parse sample_env (js ''2026-01-01T01:00:00.000Z'') = Some 1767229200000"
    by (simp add: Date_parse_def)
qed

lemma sample_subject_text: "text_value sample_env (sample_id CHR ''a'') 128 = Some (uuid_of CHR ''a'')"
  unfolding uuid_of_def by (rule text_plain) (simp_all add: plain_def numeral_eq_Suc)

lemma sample_policy_created: "createApprovalPolicyV1 sample_env sample_policy_input = Inr sample_policy"
  by (simp add: createApprovalPolicyV1_def sample_policy_input_def sample_policy_def result_simps
      sample_subject_text assign_def
      roleList_def plain_def dedup_id safe_integer_within_def max_safe_integer_def
      policyStatuses_def nullish_def positiveInteger_def safe_integer_from_def)

lemma sample_request_created:
  "createApprovalRequestV1 sample_env sample_request_input = Inr sample_approval_request"
  by (simp add: createApprovalRequestV1_def sample_request_input_def sample_approval_request_def
      result_simps plain_def positiveInteger_def safe_integer_from_def optional_def)

lemma sample_decision_created:
  assumes "letter c" "letter actor" "actor \<noteq> CHR ''a''"
  shows "createApprovalDecisionV1 sample_env (sample_decision_input c actor) sample_approval_request False False
     = Inr (sample_decision c actor)"
    "createApprovalDecisionV1 sample_env (sample_decision_input c actor) once_decided False False
     = Inr (sample_decision c actor)"
  using assms
  by (simp_all add: createApprovalDecisionV1_def sample_decision_input_def sample_approval_request_def
      sample_decision_def once_decided_def with_status_def result_simps plain_def optional_def
      verdicts_def)

lemma sample_repo_simps [simp]:
  "requests (sample_repo (Some r) ds) (uuid_of CHR ''d'') = Some r"
  "decisions (sample_repo x ds) = ds"
  "policies (sample_repo x ds) (uuid_of CHR ''a'', uuid_of CHR ''b'', uuid_of CHR ''c'', 1) = Some sample_policy"
  by (simp_all add: sample_repo_def)

lemma sample_find [simp]:
  "request_scope r = ws_scope CHR ''a'' CHR ''b'' \<Longrightarrow>
     findRequest sample_context (uuid_of CHR ''d'') (sample_repo (Some r) ds) = Some r"
  "findPolicy sample_context (uuid_of CHR ''c'') 1 (sample_repo x ds) = Some sample_policy"
  by (simp_all add: findRequest_def findPolicy_def sample_context_def ws_scope_def sample_policy_def)

lemma once_decided_simps [simp]:
  "request_scope once_decided = ws_scope CHR ''a'' CHR ''b''"
  "request_policyId once_decided = uuid_of CHR ''c''" "request_policyVersion once_decided = 1"
  "requestId once_decided = uuid_of CHR ''d''" "request_status once_decided = Request_OPEN"
  "request_createdAt once_decided = time_of ''00''" "dueAt once_decided = Some (time_of ''30'')"
  by (simp_all add: once_decided_def with_status_def sample_approval_request_def)

lemma sample_request_simps [simp]:
  "request_scope sample_approval_request = ws_scope CHR ''a'' CHR ''b''"
  "request_policyId sample_approval_request = uuid_of CHR ''c''"
  "request_policyVersion sample_approval_request = 1"
  "requestId sample_approval_request = uuid_of CHR ''d''"
  "request_createdAt sample_approval_request = time_of ''00''"
  "dueAt sample_approval_request = Some (time_of ''30'')"
  by (simp_all add: sample_approval_request_def)

lemma sample_publish: "service_step sample_env once empty_repo (sample_repo None [])"
proof (rule service_step.publish)
  show "publishPolicy sample_env sample_context sample_policy_input empty_repo
      = Inr (Inr sample_policy, sample_repo None [])"
    by (simp add: publishPolicy_def sample_policy_created sample_context_def ws_scope_def savePolicy_def
        empty_repo_def sample_repo_def) (simp add: sample_policy_def)
qed

lemma sample_open:
  "service_step sample_env once (sample_repo None []) (sample_repo (Some sample_approval_request) [])"
proof (rule service_step.open_request)
  have "sample_request_input\<lparr>in_dueAt := sample_time ''30''\<rparr> = sample_request_input"
    by (simp add: sample_request_input_def)
  then show "openRequest sample_env sample_context sample_request_input (sample_repo None [])
      = Inr (Inr sample_approval_request, sample_repo (Some sample_approval_request) [])"
    by (simp add: openRequest_def sample_request_created earlier_due_def sample_policy_expiry
        saveRequest_def mutable_def)
       (simp add: sample_context_def sample_repo_def sample_policy_def)
qed

lemma sample_due:
  "effectiveDueAt sample_env sample_approval_request sample_policy = Some (time_of ''30'')"
  "effectiveDueAt sample_env once_decided sample_policy = Some (time_of ''30'')"
  by (simp_all add: effectiveDueAt_def earlier_due_def sample_policy_expiry)

lemma sample_eligible: "eligible sample_policy (in_actorRole (sample_decision_input c a))"
  by (simp add: eligible_def sample_policy_def sample_decision_input_def)

lemma sample_decided_time: "decided_time sample_env (in_decidedAt (sample_decision_input c a)) = Some 1767225605000"
  by (simp add: decided_time_def sample_decision_input_def)

lemma sample_policy_simps [simp]:
  "selfApprovalAllowed sample_policy = False" "requireMfa sample_policy = False"
  "minimumApprovals sample_policy = 2"
  by (simp_all add: sample_policy_def)

lemma sample_decision_simps [simp]:
  "decision_requestId (sample_decision c a) = uuid_of CHR ''d''" "verdict (sample_decision c a) = APPROVE"
  "actorId (sample_decision c a) = uuid_of a" "decisionId (sample_decision c a) = uuid_of c"
  "decision_subjectHash (sample_decision c a) = hash_of CHR ''e''"
  by (simp_all add: sample_decision_def)

lemmas sample_decide_defs =
  decide_def sample_due sample_eligible sample_decided_time sample_decision_created
  listDecisions_def decisions_of_def approved_count_def applyApprovalDecisionV1_def result_simps
  saveDecision_def updateRequest_def mutable_def

lemma sample_scope_context [simp]:
  "context_scope sample_context = ws_scope CHR ''a'' CHR ''b''" "mfaReenrollmentRequired sample_context = False"
  by (simp_all add: sample_context_def)

abbreviation decided_request :: approval_request where
  "decided_request \<equiv> with_status once_decided Request_APPROVED"

lemma sample_decide_first:
  "decide sample_env sample_context (uuid_of CHR ''d'') (sample_decision_input CHR ''e'' CHR ''f'')
      (sample_repo (Some sample_approval_request) [])
   = Inr (Inr (once_decided, sample_decision CHR ''e'' CHR ''f''),
          sample_repo (Some once_decided) [sample_decision CHR ''e'' CHR ''f''])"
proof -
  have "subjectHash sample_approval_request = hash_of CHR ''e''"
    "request_status sample_approval_request = Request_OPEN"
    by (simp_all add: sample_approval_request_def)
  then show ?thesis
    by (simp add: sample_decide_defs once_decided_def) (simp add: sample_repo_def)
qed

lemma sample_decide_second:
  "decide sample_env sample_context (uuid_of CHR ''d'') (sample_decision_input CHR ''c'' CHR ''b'')
      (sample_repo (Some once_decided) [sample_decision CHR ''e'' CHR ''f''])
   = Inr (Inr (decided_request, sample_decision CHR ''c'' CHR ''b''),
          sample_repo (Some decided_request)
            [sample_decision CHR ''e'' CHR ''f'', sample_decision CHR ''c'' CHR ''b''])"
proof -
  have "subjectHash once_decided = hash_of CHR ''e''"
    by (simp add: once_decided_def sample_approval_request_def)
  then show ?thesis
    by (simp add: sample_decide_defs) (simp add: sample_repo_def)
qed

section \<open>Submitting a decision again\<close>

lemma createApprovalDecisionV1_again:
  "request_status r = Request_OPEN \<Longrightarrow>
     createApprovalDecisionV1 E i (with_status r Request_OPEN) a m = createApprovalDecisionV1 E i r a m"
  by (simp add: createApprovalDecisionV1_def with_status_def)

lemma effectiveDueAt_with_status: "effectiveDueAt E (with_status r s) p = effectiveDueAt E r p"
  by (simp add: effectiveDueAt_def with_status_def)

lemma decide_accepted:
  assumes "decide E ctx q i repo = Inr (Inr (r1, d), repo1)"
    and "\<forall>q r. requests repo q = Some r \<longrightarrow> requestId r = q"
  obtains r p due where "findRequest ctx q repo = Some r"
    "findPolicy ctx (request_policyId r) (request_policyVersion r) repo = Some p"
    "effectiveDueAt E r p = Some due" "\<not> date_le (Date_parse E due) (decided_time E (in_decidedAt i))"
    "\<not> mfaReenrollmentRequired ctx" "eligible p (in_actorRole i)"
    "createApprovalDecisionV1 E i r (selfApprovalAllowed p) (requireMfa p) = Inr d"
  using assms(1)
  by (auto simp: decide_def split: if_splits option.splits sum.splits prod.splits)

lemma saved_again:
  assumes "saved ctx d repo = Some repo1" "distinct (map decisionId (decisions repo1))"
    and "requests repo2 = (requests repo1)(decision_requestId d \<mapsto> r)" "decisions repo2 = decisions repo1"
    and "mutable ctx (request_scope r)"
  shows "saveDecision ctx d repo2 = Inr ((), repo2)"
proof -
  have "d \<in> set (decisions repo2)" using saved_fields [OF assms(1)] assms(4) by simp
  moreover have "e = d" if "e \<in> set (decisions repo2)" "decisionId e = decisionId d" for e
    using that calculation assms(2,4) by (auto simp: distinct_map inj_on_def)
  ultimately have "List.find (\<lambda>e. decisionId e = decisionId d) (decisions repo2) = Some d"
    by (metis (mono_tags, lifting) find_None_notin find_SomeD option.exhaust)
  with assms(3,5) show ?thesis by (simp add: saveDecision_def)
qed

lemma sample_run: "(service_step sample_env once)\<^sup>*\<^sup>* empty_repo (sample_repo (Some sample_approval_request) [])"
proof -
  have "(service_step sample_env once)\<^sup>*\<^sup>* empty_repo (sample_repo None [])"
    by (rule r_into_rtranclp) (rule sample_publish)
  then show ?thesis by (rule rtranclp.rtrancl_into_rtrancl) (rule sample_open)
qed

section \<open>Properties\<close>

text \<open>
  C3: the quorum. In every repository the service can reach from the empty one by publishing
  policies, opening requests and deciding, with no decision submitted twice, an approved request
  has at least as many distinct approving actors as its policy demands, and every decision stored
  for it is bound to the hash of the subject, was not made by the requester unless the policy
  allows it, and carries an MFA assertion where the policy demands one.
\<close>

theorem approval_quorum:
  assumes "(service_step E True)\<^sup>*\<^sup>* empty_repo repo"
    and "requests repo q = Some r" and "request_status r = Request_APPROVED"
  shows "\<exists>p. policy_for repo r = Some p
     \<and> minimumApprovals p \<le> int (card (approvers repo q))
     \<and> (\<forall>d \<in> set (decisions_of q repo). decision_subjectHash d = subjectHash r
          \<and> (selfApprovalAllowed p \<or> actorId d \<noteq> requestedBy r)
          \<and> (requireMfa p \<longrightarrow> mfaAssertionId d \<noteq> None))"
proof -
  have "repo_ok repo \<and> quorum_ok repo"
    using assms(1) empty_repo_ok
    by (induction rule: rtranclp_induct) (auto intro: service_step_ok quorum_ok_step)
  moreover from this have "requestId r = q" using assms(2) by (simp add: repo_ok_def)
  ultimately obtain p where p: "policy_for repo r = Some p"
      "minimumApprovals p \<le> int (card (approvers repo q))" and ok: "repo_ok repo"
    using assms(2,3) by (auto simp: quorum_ok_def quorum_def)
  have "decision_subjectHash d = subjectHash r \<and> (selfApprovalAllowed p \<or> actorId d \<noteq> requestedBy r)
      \<and> (requireMfa p \<longrightarrow> mfaAssertionId d \<noteq> None)" if "d \<in> set (decisions_of q repo)" for d
  proof -
    have "lawful repo d" "decision_requestId d = q"
      using that ok by (auto simp: repo_ok_def decisions_of_def)
    with p(1) assms(2) show ?thesis by (auto simp: lawful_def)
  qed
  with p show ?thesis by blast
qed

theorem approval_quorum_witness:
  "minimumApprovals sample_policy = 2 \<and> 2 \<le> int (card (approvers (sample_repo (Some decided_request)
      [sample_decision CHR ''e'' CHR ''f'', sample_decision CHR ''c'' CHR ''b'']) (uuid_of CHR ''d'')))"
proof -
  let ?one = "sample_repo (Some once_decided) [sample_decision CHR ''e'' CHR ''f'']"
  let ?two = "sample_repo (Some decided_request)
      [sample_decision CHR ''e'' CHR ''f'', sample_decision CHR ''c'' CHR ''b'']"
  have "service_step sample_env True (sample_repo (Some sample_approval_request) []) ?one"
    by (rule service_step.decide [OF sample_decide_first]) (simp add: resubmitted_def)
  then have "(service_step sample_env True)\<^sup>*\<^sup>* empty_repo ?one"
    by (rule rtranclp.rtrancl_into_rtrancl [OF sample_run])
  moreover have "service_step sample_env True ?one ?two"
    by (rule service_step.decide [OF sample_decide_second])
       (simp add: resubmitted_def sample_decision_input_def)
  ultimately have "(service_step sample_env True)\<^sup>*\<^sup>* empty_repo ?two"
    by (rule rtranclp.rtrancl_into_rtrancl)
  moreover have "policy_for ?two decided_request = Some sample_policy"
    by (simp add: policy_for_def ws_scope_def)
  ultimately show ?thesis
    using approval_quorum [of sample_env ?two "uuid_of CHR ''d''" decided_request] by auto
qed

text \<open>
  C19: one approver can complete the quorum alone. When a decision that approved a request and left
  it open is submitted once more, unchanged, the repository takes it for the stored one and keeps
  a single copy, while the service counts it a second time. If one approval is missing, the request
  is approved with one distinct actor fewer than the policy demands. (The exclusion of repeated
  submissions in the quorum property is therefore necessary.)
\<close>

theorem replayed_approval_completes_quorum:
  assumes first: "decide E ctx q i repo = Inr (Inr (r1, d), repo1)"
    and ok: "repo_ok repo" "distinct (map decisionId (decisions repo1))"
    and open1: "request_status r1 = Request_OPEN" and approve: "verdict d = APPROVE"
    and policy: "policy_for repo1 r1 = Some p"
    and short: "int (card (approvers repo1 q)) + 1 = minimumApprovals p"
  shows "\<exists>repo2. decide E ctx q i repo1 = Inr (Inr (with_status r1 Request_APPROVED, d), repo2)
     \<and> approvers repo2 q = approvers repo1 q
     \<and> int (card (approvers repo2 q)) < minimumApprovals p"
proof -
  have ids: "\<forall>q r. requests repo q = Some r \<longrightarrow> requestId r = q" using ok by (simp add: repo_ok_def)
  obtain r p' due where f: "findRequest ctx q repo = Some r"
    "findPolicy ctx (request_policyId r) (request_policyVersion r) repo = Some p'"
    "effectiveDueAt E r p' = Some due" "\<not> date_le (Date_parse E due) (decided_time E (in_decidedAt i))"
    "\<not> mfaReenrollmentRequired ctx" "eligible p' (in_actorRole i)"
    "createApprovalDecisionV1 E i r (selfApprovalAllowed p') (requireMfa p') = Inr d"
    by (rule decide_accepted [OF first ids])
  note a = createApprovalDecisionV1_accepted [OF f(7)]
  from f(1) have r: "requests repo q = Some r" "request_scope r = context_scope ctx"
    by (simp_all add: findRequest_Some)
  obtain repo0 where s: "saved ctx d repo = Some repo0" "r1 = with_status r Request_OPEN"
    "repo1 = repo0\<lparr>request_list := AList.update q (r1) (request_list repo0)\<rparr>"
  proof (cases rule: decide_cases [OF first ids, consumes 0, case_names kept expired decided])
    case (decided r' p'' d' s' repo0)
    then have "r' = r" "d' = d" "r1 = with_status r s'" using r(1) by simp_all
    moreover from this have "s' = Request_OPEN" using open1 by simp
    ultimately show thesis using decided that by simp
  qed simp_all
  have q: "requestId r = q" "decision_requestId d = q" using ids r a by auto
  have p: "p' = p"
    using findPolicy_policy_for [OF f(2) r(2)] policy saved_fields [OF s(1)] s(2,3)
    by (simp add: policy_for_def)
  have scope: "mutable ctx (request_scope r1)" using r s(2) by (simp add: mutable_def)
  have save: "saveDecision ctx d repo1 = Inr ((), repo1)"
    by (rule saved_again [OF s(1), of repo1 r1]) (use ok(2) s(3) q scope in auto)
  have stored: "requests repo1 q = Some r1" "requestId r1 = q" using s q by simp_all
  have count: "approved_count (decisions_of q repo1) = int (card (approvers repo1 q))"
    using store.count_distinct_approvals [of q repo1] store.save_distinct [OF s(1), of q] ok(1) s(3)
    by (simp add: approvers_eq repo_ok_def)
  have up: "updateRequest ctx (with_status r1 Request_APPROVED) (request_revision r1) repo1 =
      Inr (Some (with_status r1 Request_APPROVED),
           repo1\<lparr>request_list := AList.update q (with_status r1 Request_APPROVED) (request_list repo1)\<rparr>)"
    using updateRequest_with_status [of repo1 r1 ctx Request_APPROVED] stored scope by simp
  have "findRequest ctx q repo1 = Some r1" "listDecisions ctx q repo1 = decisions_of q repo1"
    using stored scope by (simp_all add: findRequest_Some mutable_def listDecisions_def)
  moreover have "findPolicy ctx (request_policyId r1) (request_policyVersion r1) repo1 = Some p"
    using f(2) saved_fields [OF s(1)] s(2,3) p by (simp add: findPolicy_def cong: option.case_cong)
  moreover have "createApprovalDecisionV1 E i r1 (selfApprovalAllowed p) (requireMfa p) = Inr d"
    using f(7) a p s(2) by (simp add: createApprovalDecisionV1_again)
  moreover have "applyApprovalDecisionV1 r1 d (int (card (approvers repo1 q)) + 1) (minimumApprovals p)
      = Inr (with_status r1 Request_APPROVED)"
    using open1 q stored a s(2) approve short by (simp add: applyApprovalDecisionV1_iff)
  ultimately have "decide E ctx q i repo1 = Inr (Inr (with_status r1 Request_APPROVED, d),
      repo1\<lparr>request_list := AList.update q (with_status r1 Request_APPROVED) (request_list repo1)\<rparr>)"
    using f(3-6) p s(2) approve save up stored count
    by (simp add: decide_def effectiveDueAt_with_status)
  with short show ?thesis by (simp add: approvers_def)
qed

theorem replayed_approval_completes_quorum_witness:
  "let repo = sample_repo (Some once_decided) [sample_decision CHR ''e'' CHR ''f'']
   in (service_step sample_env False)\<^sup>*\<^sup>* empty_repo repo
      \<and> (\<exists>repo2. decide sample_env sample_context (uuid_of CHR ''d'')
              (sample_decision_input CHR ''e'' CHR ''f'') repo
            = Inr (Inr (decided_request, sample_decision CHR ''e'' CHR ''f''), repo2)
          \<and> approvers repo2 (uuid_of CHR ''d'') = {uuid_of CHR ''f''}
          \<and> minimumApprovals sample_policy = 2)"
proof -
  let ?start = "sample_repo (Some sample_approval_request) []"
  let ?one = "sample_repo (Some once_decided) [sample_decision CHR ''e'' CHR ''f'']"
  have run: "(service_step sample_env False)\<^sup>*\<^sup>* empty_repo ?start"
    by (rule sample_run)
  then have ok: "repo_ok ?start"
    using empty_repo_ok by (induction rule: rtranclp_induct) (auto intro: service_step_ok)
  have "service_step sample_env False ?start ?one"
    by (rule service_step.decide [OF sample_decide_first]) simp
  moreover have one: "approvers ?one (uuid_of CHR ''d'') = {uuid_of CHR ''f''}"
    by (auto simp: approvers_def decisions_of_def image_def)
  moreover have "policy_for ?one once_decided = Some sample_policy"
    by (simp add: policy_for_def ws_scope_def)
  moreover have "request_status once_decided = Request_OPEN" by simp
  ultimately show ?thesis
    using run replayed_approval_completes_quorum [OF sample_decide_first ok, of sample_policy]
    unfolding Let_def by (auto intro: rtranclp.rtrancl_into_rtrancl)
qed

text \<open>
  The time of a decision comes from its author, and expiry is decided before anything else is
  checked. Whoever submits a time after the due date turns any request of the tenant, an approved
  or a rejected one included, into an expired one, whatever the role, the verdict and the
  identifiers of the submission are.
\<close>

theorem late_decision_expires_any_request:
  assumes "findRequest ctx q repo = Some r" and "requestId r = q"
    and "findPolicy ctx (request_policyId r) (request_policyVersion r) repo = Some p"
    and "\<not> mfaReenrollmentRequired ctx"
    and "effectiveDueAt E r p = Some due"
    and "date_le (Date_parse E due) (decided_time E (in_decidedAt i))"
  shows "\<exists>repo'. decide E ctx q i repo = Inr (rejected Approval_REQUEST_NOT_OPEN, repo')
     \<and> requests repo' q = Some (with_status r Request_EXPIRED)"
proof -
  have "requests repo (requestId r) = Some r" "mutable ctx (request_scope r)"
    using assms(1,2) by (auto simp: findRequest_Some mutable_def)
  with assms updateRequest_with_status [of repo r ctx Request_EXPIRED] show ?thesis
    by (simp add: decide_def)
qed

theorem late_decision_expires_any_request_witness:
  "\<exists>repo'. decide sample_env sample_context (uuid_of CHR ''d'')
       \<lparr>in_decisionId = Undefined, in_actorId = Undefined, in_decision = Undefined,
        in_reason = Undefined, in_mfaAssertionId = Undefined, in_decision_subjectHash = Undefined,
        in_decidedAt = sample_time ''30'', in_actorRole = Undefined\<rparr>
       (sample_repo (Some decided_request) []) = Inr (rejected Approval_REQUEST_NOT_OPEN, repo')
   \<and> requests repo' (uuid_of CHR ''d'') = Some (with_status decided_request Request_EXPIRED)"
  by (rule late_decision_expires_any_request [where p = sample_policy and due = "time_of ''30''"])
     (simp_all add: effectiveDueAt_with_status sample_due decided_time_def)

end
