(* ===== verification/TenantContext.thy ===== *)
theory TenantContext
  imports TenantScope
begin

text \<open>
  services/api/src/platform/iam-tenant-context.ts: the authenticated context every feature service
  takes, and the shape of the in-memory repositories the services run on. Those run transactions one
  after the other and restore their maps when the work throws, so a transaction is a function from
  the stored state to a thrown error or a result with the new state.
\<close>

section \<open>The context\<close>

record tenant_ctx =
  ctx_sessionId :: "stable_id option"
  ctx_tenantScope :: tenant_scope
  ctx_actorId :: stable_id
  ctx_correlationId :: stable_id
  ctx_idempotencyKey :: jsstr
  ctx_authorizationEpoch :: int
  ctx_workspaceAuthorizationEpoch :: "int option"
  ctx_mfaRequired :: "bool option"
  ctx_mfaReenrollmentRequired :: bool
  ctx_expectedRevision :: "int option"

datatype context_error =
    Context_INVALID_SCOPE | Context_INVALID_IDENTIFIER | Context_INVALID_TEXT | Context_INVALID_EPOCH
  | Context_INVALID_REVISION

record context_input =
  in_ctx_sessionId :: jsval
  in_ctx_tenantScope :: jsval
  in_ctx_actorId :: jsval
  in_ctx_correlationId :: jsval
  in_ctx_idempotencyKey :: jsval
  in_ctx_authorizationEpoch :: jsval
  in_ctx_workspaceAuthorizationEpoch :: jsval
  in_ctx_mfaRequired :: jsval
  in_ctx_mfaReenrollmentRequired :: jsval
  in_ctx_expectedRevision :: jsval

definition key_value :: "jsval \<Rightarrow> jsstr option" where
  "key_value v =
     (case v of
        Str s \<Rightarrow> if s = [] \<or> length s > 200 \<or> list_ex control s then None else Some s
      | _ \<Rightarrow> None)"

definition createIamTenantContextV1 :: "env \<Rightarrow> context_input \<Rightarrow> context_error + tenant_ctx" where
  "createIamTenantContextV1 E i =
     require Context_INVALID_SCOPE (scope_value E (in_ctx_tenantScope i)) (\<lambda>scope.
     require Context_INVALID_IDENTIFIER (stable E (in_ctx_actorId i)) (\<lambda>actorId.
     require Context_INVALID_IDENTIFIER (stable E (in_ctx_correlationId i)) (\<lambda>correlationId.
     require Context_INVALID_IDENTIFIER
       (optional (stable E) (defined_value (in_ctx_sessionId i))) (\<lambda>sessionId.
     require Context_INVALID_TEXT (key_value (in_ctx_idempotencyKey i)) (\<lambda>key.
     require Context_INVALID_EPOCH (positiveInteger (in_ctx_authorizationEpoch i)) (\<lambda>epoch.
     require Context_INVALID_EPOCH
       (optional positiveInteger (defined_value (in_ctx_workspaceAuthorizationEpoch i))) (\<lambda>workspaceEpoch.
     require Context_INVALID_TEXT
       (optional as_bool (defined_value (in_ctx_mfaRequired i))) (\<lambda>mfa.
     require Context_INVALID_TEXT
       (optional as_bool (defined_value (in_ctx_mfaReenrollmentRequired i))) (\<lambda>reenrollment.
     require Context_INVALID_REVISION
       (optional positiveInteger (defined_value (in_ctx_expectedRevision i))) (\<lambda>expected.
     accepted
       \<lparr>ctx_sessionId = sessionId, ctx_tenantScope = scope, ctx_actorId = actorId,
        ctx_correlationId = correlationId, ctx_idempotencyKey = key, ctx_authorizationEpoch = epoch,
        ctx_workspaceAuthorizationEpoch = workspaceEpoch, ctx_mfaRequired = mfa,
        ctx_mfaReenrollmentRequired = (case reenrollment of None \<Rightarrow> False | Some b \<Rightarrow> b),
        ctx_expectedRevision = expected\<rparr>))))))))))"

section \<open>Transactions\<close>

type_synonym ('s, 'e, 'a) work = "'s \<Rightarrow> 'e + ('a \<times> 's)"

definition give :: "'a \<Rightarrow> ('s, 'e, 'a) work" where
  "give a = (\<lambda>s. Inr (a, s))"

definition throw :: "'e \<Rightarrow> ('s, 'e, 'a) work" where
  "throw e = (\<lambda>s. Inl e)"

text \<open>\<open>const a = await work; ...\<close>\<close>

definition await :: "('s, 'e, 'a) work \<Rightarrow> ('a \<Rightarrow> ('s, 'e, 'b) work) \<Rightarrow> ('s, 'e, 'b) work" where
  "await w k = (\<lambda>s. case w s of Inl e \<Rightarrow> Inl e | Inr (a, s') \<Rightarrow> k a s')"

text \<open>A read of the store inside a transaction.\<close>

definition read_store :: "('s \<Rightarrow> 'a) \<Rightarrow> ('a \<Rightarrow> ('s, 'e, 'b) work) \<Rightarrow> ('s, 'e, 'b) work" where
  "read_store q k = (\<lambda>s. k (q s) s)"

text \<open>\<open>repository.withTransaction(context, work)\<close>: what it returns or throws, and the stored state.\<close>

definition withTransaction :: "('s, 'e, 'a) work \<Rightarrow> 's \<Rightarrow> ('e + 'a) \<times> 's" where
  "withTransaction w s = (case w s of Inl e \<Rightarrow> (Inl e, s) | Inr (a, s') \<Rightarrow> (Inr a, s'))"

text \<open>\<open>visible(context, candidate)\<close> of the in-memory adapters.\<close>

definition visible :: "tenant_scope \<Rightarrow> tenant_scope \<Rightarrow> bool" where
  "visible container candidate \<longleftrightarrow>
     tenantScopeContainsV1 container candidate \<or> tenantScopeContainsV1 candidate container"

lemma visible_self [simp]: "visible scope scope"
  unfolding visible_def less_eq_tenant_scope_def [symmetric] by simp

named_theorems work_simps "how the steps of a transaction compute"

lemma await_give [work_simps]: "await (give a) k = k a"
  by (simp add: await_def give_def)

lemma await_throw [work_simps]: "await (throw e) k = throw e"
  by (simp add: await_def throw_def)

lemma read_store_apply [work_simps]: "read_store q k s = k (q s) s"
  by (simp add: read_store_def)

lemma give_apply [work_simps]: "give a s = Inr (a, s)"
  by (simp add: give_def)

lemma throw_apply [work_simps]: "throw e s = Inl e"
  by (simp add: throw_def)

lemma await_apply: "await w k s = (case w s of Inl e \<Rightarrow> Inl e | Inr (a, s') \<Rightarrow> k a s')"
  by (simp add: await_def)

lemma await_Inr:
  "await w k s = Inr r \<longleftrightarrow> (\<exists>a s'. w s = Inr (a, s') \<and> k a s' = Inr r)"
  by (auto simp: await_def split: sum.splits)

lemma withTransaction_cases:
  obtains (thrown) e where "w s = Inl e" "withTransaction w s = (Inl e, s)"
  | (finished) a s' where "w s = Inr (a, s')" "withTransaction w s = (Inr a, s')"
  by (cases "w s") (auto simp: withTransaction_def)

end
