(* ===== verification/ApprovalAuthority.thy ===== *)
theory ApprovalAuthority
  imports ApprovalService TenantContext
begin

text \<open>
  The authority that other services ask about approvals, services/api/src/features/jra
  (\<open>JraApprovalAuthorityPortV1\<close> as implemented by application/approval.service.ts): the lookup of a
  current approval and the two invalidations. The lookup runs one transaction for the candidates and a
  further one for the policy of each of them, so others may work on the repository in between: the
  states these later transactions see are an argument.
\<close>

section \<open>Looking requests up\<close>

record request_search =
  find_subjectType :: "jsstr option"
  find_subjectId :: "stable_id option"
  find_subjectHash :: "jsstr option"
  find_requestedAction :: "jsstr option"
  find_statuses :: "request_status list option"

definition fits :: "'a option \<Rightarrow> 'a \<Rightarrow> bool" where
  "fits wanted actual = (case wanted of None \<Rightarrow> True | Some x \<Rightarrow> actual = x)"

definition findRequests :: "env \<Rightarrow> tenant_context \<Rightarrow> request_search \<Rightarrow> approval_repo \<Rightarrow> approval_request list" where
  "findRequests E ctx search repo =
     sort_key (\<lambda>r. - collation E (request_createdAt r))
       (filter (\<lambda>r. tenantScopesEqualV1 (context_scope ctx) (request_scope r)
                  \<and> fits (find_subjectType search) (subjectType r) \<and> fits (find_subjectId search) (subjectId r)
                  \<and> fits (find_subjectHash search) (subjectHash r)
                  \<and> fits (find_requestedAction search) (requestedAction r)
                  \<and> (case find_statuses search of None \<Rightarrow> True | Some ss \<Rightarrow> request_status r \<in> set ss))
          (map snd (request_list repo)))"

section \<open>The authority\<close>

type_synonym binding = "(jsstr \<times> jsstr) list"

definition policyMatchesBinding :: "(jsstr \<times> jsstr) list \<Rightarrow> binding \<Rightarrow> bool" where
  "policyMatchesBinding matcher binding \<longleftrightarrow> list_all (\<lambda>(key, val). map_of matcher key = Some val) binding"

text \<open>\<open>authorityContext\<close>; \<open>None\<close> where it throws.\<close>

definition authorityContext :: "env \<Rightarrow> tenant_scope \<Rightarrow> string \<Rightarrow> tenant_context option" where
  "authorityContext E scope key =
     (case createIamTenantContextV1 E
             \<lparr>in_ctx_sessionId = Undefined, in_ctx_tenantScope = scope_object scope,
              in_ctx_actorId = Str (js ''00000000-0000-4000-8000-000000000001''),
              in_ctx_correlationId = Str (js ''00000000-0000-4000-8000-000000000002''),
              in_ctx_idempotencyKey = Str (js key), in_ctx_authorizationEpoch = int_num 1,
              in_ctx_workspaceAuthorizationEpoch = Undefined, in_ctx_mfaRequired = Undefined,
              in_ctx_mfaReenrollmentRequired = Undefined, in_ctx_expectedRevision = Undefined\<rparr> of
        Inl e \<Rightarrow> None
      | Inr c \<Rightarrow> Some \<lparr>context_scope = ctx_tenantScope c,
                       mfaReenrollmentRequired = ctx_mfaReenrollmentRequired c\<rparr>)"

record approval_question =
  aq_tenantScope :: tenant_scope
  aq_subjectType :: jsstr
  aq_subjectId :: stable_id
  aq_subjectHash :: jsstr
  aq_requestedAction :: jsstr
  aq_binding :: binding

definition base_binding :: "jsstr \<Rightarrow> jsstr \<Rightarrow> stable_id \<Rightarrow> binding" where
  "base_binding action type subject =
     [(js ''actionType'', action), (js ''subjectType'', type), (js ''subjectId'', subject)]"

text \<open>\<open>{ ...base, ...extra }\<close>\<close>

definition spread :: "binding \<Rightarrow> binding \<Rightarrow> binding" where
  "spread base extra = foldl (\<lambda>b (key, val). AList.update key val b) base extra"

datatype authority_answer =
    Authority_found approval_request approval_policy jsstr
  | Authority_NOT_FOUND | Authority_UNAVAILABLE | Authority_INVALID

text \<open>
  The loop over the candidates: the transaction for the policy of candidate \<open>n\<close> sees \<open>later n\<close>, and the
  clock reads \<open>now\<close>.
\<close>

fun first_current ::
    "env \<Rightarrow> int \<Rightarrow> tenant_context \<Rightarrow> binding \<Rightarrow> (nat \<Rightarrow> approval_repo) \<Rightarrow> nat \<Rightarrow> approval_request list \<Rightarrow> authority_answer"
  where
  "first_current E now ctx binding later n [] = Authority_NOT_FOUND"
| "first_current E now ctx binding later n (r # rs) =
     (case findPolicy ctx (request_policyId r) (request_policyVersion r) (later n) of
        None \<Rightarrow> first_current E now ctx binding later (Suc n) rs
      | Some p \<Rightarrow>
          if policy_status p \<noteq> Policy_ACTIVE \<or> \<not> policyMatchesBinding (actionMatcher p) binding
          then first_current E now ctx binding later (Suc n) rs
          else (case effectiveDueAt E r p of
             None \<Rightarrow> Authority_UNAVAILABLE
           | Some validUntil \<Rightarrow>
               if date_le (Date_parse E validUntil) (Some now) then Authority_NOT_FOUND
               else Authority_found r p validUntil))"

definition findCurrentApproved ::
    "env \<Rightarrow> int \<Rightarrow> approval_question \<Rightarrow> approval_repo \<Rightarrow> (nat \<Rightarrow> approval_repo) \<Rightarrow> authority_answer" where
  "findCurrentApproved E now i repo later =
     (case authorityContext E (aq_tenantScope i) ''jra-authority-read'' of
        None \<Rightarrow> Authority_UNAVAILABLE
      | Some ctx \<Rightarrow>
          first_current E now ctx
            (spread (base_binding (aq_requestedAction i) (aq_subjectType i) (aq_subjectId i)) (aq_binding i)) later 0
            (findRequests E ctx
               \<lparr>find_subjectType = Some (aq_subjectType i), find_subjectId = Some (aq_subjectId i),
                find_subjectHash = Some (aq_subjectHash i), find_requestedAction = Some (aq_requestedAction i),
                find_statuses = Some [Request_APPROVED]\<rparr> repo))"

text \<open>The loop of the invalidations; \<open>None\<close> where it throws.\<close>

fun cancel_requests ::
    "tenant_context \<Rightarrow> (approval_policy \<Rightarrow> approval_request \<Rightarrow> bool) \<Rightarrow> approval_request list \<Rightarrow> approval_repo
     \<Rightarrow> approval_repo option" where
  "cancel_requests ctx affected [] repo = Some repo"
| "cancel_requests ctx affected (r # rs) repo =
     (case findPolicy ctx (request_policyId r) (request_policyVersion r) repo of
        None \<Rightarrow> cancel_requests ctx affected rs repo
      | Some p \<Rightarrow>
          if \<not> affected p r then cancel_requests ctx affected rs repo
          else (case updateRequest ctx (with_status r Request_CANCELLED) (request_revision r) repo of
             Inl e \<Rightarrow> None
           | Inr (None, repo') \<Rightarrow> None
           | Inr (Some _, repo') \<Rightarrow> cancel_requests ctx affected rs repo'))"

definition cancel_candidates ::
    "env \<Rightarrow> tenant_context \<Rightarrow> jsstr \<Rightarrow> stable_id \<Rightarrow> jsstr \<Rightarrow> (approval_policy \<Rightarrow> approval_request \<Rightarrow> bool)
     \<Rightarrow> approval_repo \<Rightarrow> approval_repo option" where
  "cancel_candidates E ctx type subject action affected repo =
     cancel_requests ctx affected
       (findRequests E ctx
          \<lparr>find_subjectType = Some type, find_subjectId = Some subject, find_subjectHash = None,
           find_requestedAction = Some action, find_statuses = Some [Request_OPEN, Request_APPROVED]\<rparr> repo) repo"

definition materially_changed :: "approval_question \<Rightarrow> approval_policy \<Rightarrow> approval_request \<Rightarrow> bool" where
  "materially_changed i p r \<longleftrightarrow>
     policyMatchesBinding (actionMatcher p)
       (base_binding (aq_requestedAction i) (aq_subjectType i) (aq_subjectId i))
     \<and> \<not> (map_of (aq_binding i) (js ''versionId'') \<noteq> None
          \<and> map_of (actionMatcher p) (js ''versionId'') = map_of (aq_binding i) (js ''versionId'')
          \<and> subjectHash r = aq_subjectHash i)"

text \<open>\<open>{ accepted: true }\<close> is \<open>True\<close>; a transaction that throws leaves the repository as it was.\<close>

definition invalidateMaterialChange :: "env \<Rightarrow> approval_question \<Rightarrow> approval_repo \<Rightarrow> bool \<times> approval_repo" where
  "invalidateMaterialChange E i repo =
     (case authorityContext E (aq_tenantScope i) ''jra-authority-invalidate'' of
        None \<Rightarrow> (False, repo)
      | Some ctx \<Rightarrow>
          (case cancel_candidates E ctx (aq_subjectType i) (aq_subjectId i) (aq_requestedAction i)
                  (materially_changed i) repo of
             None \<Rightarrow> (False, repo)
           | Some repo' \<Rightarrow> (True, repo')))"

record version_question =
  vq_tenantScope :: tenant_scope
  vq_subjectType :: jsstr
  vq_subjectId :: stable_id
  vq_requestedAction :: jsstr
  vq_priorVersionId :: stable_id

definition invalidatePriorVersion :: "env \<Rightarrow> version_question \<Rightarrow> approval_repo \<Rightarrow> bool \<times> approval_repo" where
  "invalidatePriorVersion E i repo =
     (case authorityContext E (vq_tenantScope i) ''jra-authority-prior-version'' of
        None \<Rightarrow> (False, repo)
      | Some ctx \<Rightarrow>
          (case cancel_candidates E ctx (vq_subjectType i) (vq_subjectId i) (vq_requestedAction i)
                  (\<lambda>p r. policyMatchesBinding (actionMatcher p)
                           (base_binding (vq_requestedAction i) (vq_subjectType i) (vq_subjectId i)
                            @ [(js ''versionId'', vq_priorVersionId i)])) repo of
             None \<Rightarrow> (False, repo)
           | Some repo' \<Rightarrow> (True, repo')))"

section \<open>Histories\<close>

inductive authority_step :: "env \<Rightarrow> approval_repo \<Rightarrow> approval_repo \<Rightarrow> bool" for E where
  service: "service_step E True repo repo' \<Longrightarrow> authority_step E repo repo'"
| material_change: "invalidateMaterialChange E i repo = (x, repo') \<Longrightarrow> authority_step E repo repo'"
| prior_version: "invalidatePriorVersion E j repo = (x, repo') \<Longrightarrow> authority_step E repo repo'"

text \<open>What a history keeps: besides the facts about quorums, that a request has its policy.\<close>

definition authority_ok :: "approval_repo \<Rightarrow> bool" where
  "authority_ok repo \<longleftrightarrow>
     repo_ok repo \<and> quorum_ok repo \<and> distinct (map fst (request_list repo))
     \<and> (\<forall>q r. requests repo q = Some r \<longrightarrow> policy_for repo r \<noteq> None)
     \<and> (\<forall>k p. policies repo k = Some p \<longrightarrow> policy_workspaceId p = fst (snd k))"

text \<open>Only \<open>APPROVED\<close> and \<open>OPEN\<close> requests are live; a request that is not stays so.\<close>

definition live :: "approval_request \<Rightarrow> bool" where
  "live r \<longleftrightarrow> request_status r = Request_OPEN \<or> request_status r = Request_APPROVED"

definition repo_grows :: "approval_repo \<Rightarrow> approval_repo \<Rightarrow> bool" where
  "repo_grows repo repo' \<longleftrightarrow>
     (\<forall>k p. policies repo k = Some p \<longrightarrow> policies repo' k = Some p)
     \<and> (\<forall>q r. requests repo q = Some r \<longrightarrow>
          (\<exists>r'. requests repo' q = Some r' \<and> request_key r' = request_key r \<and> (live r' \<longrightarrow> live r)))"

lemma repo_grows_refl [simp]: "repo_grows repo repo"
  by (auto simp: repo_grows_def)

lemma repo_grows_request:
  "repo_grows a b \<Longrightarrow> requests a q = Some r \<Longrightarrow> requests b q = Some r'
     \<Longrightarrow> request_key r = request_key r' \<and> (live r' \<longrightarrow> live r)"
  unfolding repo_grows_def by fastforce

lemma repo_grows_trans:
  assumes "repo_grows a b" "repo_grows b c"
  shows "repo_grows a c"
proof -
  have "\<exists>r''. requests c q = Some r'' \<and> request_key r'' = request_key r \<and> (live r'' \<longrightarrow> live r)"
    if "requests a q = Some r" for q r
  proof -
    obtain r' where r': "requests b q = Some r'" "request_key r' = request_key r" "live r' \<longrightarrow> live r"
      using assms(1) \<open>requests a q = Some r\<close> unfolding repo_grows_def by blast
    then obtain r'' where "requests c q = Some r''" "request_key r'' = request_key r'" "live r'' \<longrightarrow> live r'"
      using assms(2) unfolding repo_grows_def by blast
    with r' show ?thesis by simp
  qed
  with assms show ?thesis unfolding repo_grows_def by blast
qed

lemma repo_grows_update:
  assumes "requests repo q = Some r" "live (with_status r s) \<longrightarrow> live r"
  shows "repo_grows repo (repo\<lparr>request_list := AList.update q (with_status r s) (request_list repo)\<rparr>)"
  using assms by (auto simp: repo_grows_def)

lemma fits_simps [simp]: "fits None x" "fits (Some y) x \<longleftrightarrow> x = y"
  by (simp_all add: fits_def)

lemma set_findRequests:
  assumes "distinct (map fst (request_list repo))" "\<forall>q r. requests repo q = Some r \<longrightarrow> requestId r = q"
  shows "r \<in> set (findRequests E ctx search repo) \<longleftrightarrow>
     requests repo (requestId r) = Some r \<and> request_scope r = context_scope ctx
     \<and> fits (find_subjectType search) (subjectType r) \<and> fits (find_subjectId search) (subjectId r)
     \<and> fits (find_subjectHash search) (subjectHash r) \<and> fits (find_requestedAction search) (requestedAction r)
     \<and> (case find_statuses search of None \<Rightarrow> True | Some ss \<Rightarrow> request_status r \<in> set ss)"
proof -
  have "r \<in> snd ` set (request_list repo) \<longleftrightarrow> requests repo (requestId r) = Some r"
  proof
    assume "r \<in> snd ` set (request_list repo)"
    then obtain q where "(q, r) \<in> set (request_list repo)" by force
    with assms show "requests repo (requestId r) = Some r" by (metis map_of_eq_Some_iff)
  qed (force dest: map_of_SomeD)
  then show ?thesis by (auto simp: findRequests_def)
qed

lemma distinct_findRequests:
  assumes "distinct (map fst (request_list repo))" "\<forall>q r. requests repo q = Some r \<longrightarrow> requestId r = q"
  shows "distinct (map requestId (findRequests E ctx search repo))"
proof -
  have "map requestId (map snd (request_list repo)) = map fst (request_list repo)"
    using assms by (auto simp: map_of_eq_Some_iff)
  from arg_cong [where f = distinct, OF this] have "distinct (map requestId (map snd (request_list repo)))"
    using assms(1) by simp
  from distinct_map_filter [OF this] show ?thesis
    unfolding findRequests_def distinct_map by simp
qed

text \<open>The loop cancels exactly the affected candidates and does not throw.\<close>

definition cancelled ::
    "tenant_context \<Rightarrow> (approval_policy \<Rightarrow> approval_request \<Rightarrow> bool) \<Rightarrow> approval_request list \<Rightarrow> approval_repo
     \<Rightarrow> approval_request \<Rightarrow> bool" where
  "cancelled ctx affected rs repo r \<longleftrightarrow>
     r \<in> set rs
     \<and> (\<exists>p. findPolicy ctx (request_policyId r) (request_policyVersion r) repo = Some p \<and> affected p r)"

lemma findPolicy_update [simp]: "findPolicy ctx p v (repo\<lparr>request_list := f\<rparr>) = findPolicy ctx p v repo"
  by (simp add: findPolicy_def cong: option.case_cong)

lemma cancel_requests_effect:
  assumes "\<forall>r \<in> set rs. requests repo (requestId r) = Some r \<and> request_scope r = context_scope ctx"
    and "distinct (map requestId rs)" "\<forall>q r. requests repo q = Some r \<longrightarrow> requestId r = q"
  shows "\<exists>repo'. cancel_requests ctx affected rs repo = Some repo'
    \<and> policies repo' = policies repo \<and> decisions repo' = decisions repo
    \<and> (distinct (map fst (request_list repo)) \<longrightarrow> distinct (map fst (request_list repo')))
    \<and> (\<forall>q. requests repo' q =
         map_option (\<lambda>r. if cancelled ctx affected rs repo r then with_status r Request_CANCELLED else r)
           (requests repo q))"
  using assms
proof (induction rs arbitrary: repo)
  case Nil
  show ?case by (simp add: cancelled_def option.map_ident)
next
  case (Cons r rs)
  have r: "requests repo (requestId r) = Some r" "mutable ctx (request_scope r)" "r \<notin> set rs"
    using Cons.prems by (auto simp: mutable_def)
  show ?case
  proof (cases "cancelled ctx affected (r # rs) repo r")
    case False
    have "cancelled ctx affected (r # rs) repo x \<longleftrightarrow> cancelled ctx affected rs repo x" for x
      using False r(3) by (auto simp: cancelled_def)
    moreover have "cancel_requests ctx affected (r # rs) repo = cancel_requests ctx affected rs repo"
      using False by (auto simp: cancelled_def split: option.splits)
    ultimately show ?thesis using Cons.IH [of repo] Cons.prems by simp
  next
    case True
    let ?c = "with_status r Request_CANCELLED"
    let ?repo = "repo\<lparr>request_list := AList.update (requestId r) ?c (request_list repo)\<rparr>"
    have step: "cancel_requests ctx affected (r # rs) repo = cancel_requests ctx affected rs ?repo"
      using True updateRequest_with_status [OF r(1,2)] by (auto simp: cancelled_def)
    have other: "requestId x \<noteq> requestId r" if "x \<in> set rs" for x
      using Cons.prems(2) that by (auto simp: image_iff)
    then have not_c: "?c \<notin> set rs" by force
    have "\<forall>x \<in> set rs. requests ?repo (requestId x) = Some x \<and> request_scope x = context_scope ctx"
      using Cons.prems(1) other by simp
    moreover have "distinct (map requestId rs)" "\<forall>q x. requests ?repo q = Some x \<longrightarrow> requestId x = q"
      using Cons.prems(2,3) by simp_all
    ultimately obtain repo' where repo': "cancel_requests ctx affected rs ?repo = Some repo'"
      "policies repo' = policies ?repo" "decisions repo' = decisions ?repo"
      "distinct (map fst (request_list ?repo)) \<longrightarrow> distinct (map fst (request_list repo'))"
      "\<forall>q. requests repo' q =
         map_option (\<lambda>x. if cancelled ctx affected rs ?repo x then with_status x Request_CANCELLED else x)
           (requests ?repo q)"
      using Cons.IH [of ?repo] by blast
    have same: "cancelled ctx affected rs ?repo x \<longleftrightarrow> cancelled ctx affected rs repo x" for x
      by (simp add: cancelled_def)
    have "requests repo' q =
        map_option (\<lambda>x. if cancelled ctx affected (r # rs) repo x then with_status x Request_CANCELLED else x)
          (requests repo q)" for q
    proof (cases "q = requestId r")
      case True
      then show ?thesis
        using repo'(5) r(1) not_c \<open>cancelled ctx affected (r # rs) repo r\<close>
        by (simp add: cancelled_def)
    next
      case False
      show ?thesis
      proof (cases "requests repo q")
        case (Some x)
        then have "x \<noteq> r" using Cons.prems(3) False by auto
        with Some show ?thesis using repo'(5) False same by (auto simp: cancelled_def)
      qed (use repo'(5) False in simp)
    qed
    with step repo'(1-4) distinct_update [of "request_list repo"] show ?thesis by auto
  qed
qed

section \<open>What the steps keep\<close>

lemma openRequest_stored:
  assumes "openRequest E ctx req repo = Inr (y, repo')"
  shows "repo' = repo \<or> (\<exists>r. requests repo (requestId r) = None \<and> policy_for repo r \<noteq> None
     \<and> repo' = repo\<lparr>request_list := AList.update (requestId r) r (request_list repo)\<rparr>)"
proof -
  have same: "request_policyId b = request_policyId a \<and> request_policyVersion b = request_policyVersion a"
    if "createApprovalRequestV1 E req = Inr a" "createApprovalRequestV1 E (req\<lparr>in_dueAt := v\<rparr>) = Inr b" for a b v
    using that by (auto simp: createApprovalRequestV1_def result_simps)
  have known: "policy_for repo b \<noteq> None"
    if "createApprovalRequestV1 E req = Inr a" "createApprovalRequestV1 E (req\<lparr>in_dueAt := v\<rparr>) = Inr b"
      "findPolicy ctx (request_policyId a) (request_policyVersion a) repo = Some p" "mutable ctx (request_scope b)"
    for a b v p
  proof -
    have "findPolicy ctx (request_policyId b) (request_policyVersion b) repo = Some p"
      using same [OF that(1,2)] that(3) by simp
    from findPolicy_policy_for [OF this] that(4) show ?thesis by (simp add: mutable_def)
  qed
  show ?thesis
    using assms
    by (auto simp: openRequest_def saveRequest_def split: sum.splits option.splits if_splits dest: known)
qed

definition keeps :: "approval_repo \<Rightarrow> approval_repo \<Rightarrow> bool" where
  "keeps repo repo' \<longleftrightarrow>
     repo_grows repo repo'
     \<and> (distinct (map fst (request_list repo)) \<longrightarrow> distinct (map fst (request_list repo')))
     \<and> (\<forall>q r'. requests repo' q = Some r' \<longrightarrow>
          (\<exists>r. requests repo q = Some r \<and> request_key r' = request_key r) \<or> policy_for repo r' \<noteq> None)
     \<and> (\<forall>k p. policies repo' k = Some p \<longrightarrow> policies repo k = Some p \<or> policy_workspaceId p = fst (snd k))"

lemma keeps_update:
  assumes "requests repo q = Some r" "live (with_status r s) \<longrightarrow> live r"
  shows "keeps repo (repo\<lparr>request_list := AList.update q (with_status r s) (request_list repo)\<rparr>)"
  using assms repo_grows_update [OF assms] by (auto simp: keeps_def distinct_update)

lemma saved_list: "saved ctx d repo = Some repo1 \<Longrightarrow> request_list repo1 = request_list repo"
  by (auto simp: saved_def saveDecision_def split: option.splits sum.splits if_splits)

lemma service_keeps:
  assumes "service_step E once repo repo'" "repo_ok repo"
  shows "keeps repo repo'"
  using assms(1)
proof cases
  case (publish ctx pol x)
  then have "request_list repo' = request_list repo
      \<and> (\<forall>k p. policies repo' k = Some p \<longrightarrow> policies repo k = Some p \<or> policy_workspaceId p = fst (snd k))"
    by (auto simp: publishPolicy_def savePolicy_def Let_def split: sum.splits if_splits tenant_scope.splits option.splits)
  with publishPolicy_keeps [OF publish] show ?thesis by (auto simp: keeps_def repo_grows_def)
next
  case (open_request ctx req y)
  from openRequest_stored [OF this] show ?thesis
    by (auto simp: keeps_def repo_grows_def distinct_update split: if_splits)
next
  case (decide ctx q i z)
  from assms(2) have ids: "\<forall>q r. requests repo q = Some r \<longrightarrow> requestId r = q" by (simp add: repo_ok_def)
  show ?thesis
  proof (cases rule: decide_cases [OF decide(1) ids, consumes 0, case_names kept expired decided])
    case kept
    then show ?thesis by (auto simp: keeps_def)
  next
    case (expired r)
    then show ?thesis by (auto intro: keeps_update simp: live_def)
  next
    case (decided r p d s repo1)
    have "live r" using createApprovalDecisionV1_accepted [OF decided(4)] by (simp add: live_def)
    then have "keeps repo (repo\<lparr>request_list := AList.update q (with_status r s) (request_list repo)\<rparr>)"
      by (intro keeps_update decided) simp
    with saved_fields [OF decided(5)] saved_list [OF decided(5)] decided(6) show ?thesis
      by (simp add: keeps_def repo_grows_def)
  qed
qed

lemma cancel_candidates_effect:
  assumes "authority_ok repo"
  obtains repo' where "cancel_candidates E ctx type subject action affected repo = Some repo'"
    "policies repo' = policies repo" "decisions repo' = decisions repo"
    "distinct (map fst (request_list repo'))"
    "\<And>q. requests repo' q = map_option (\<lambda>r.
       if request_scope r = context_scope ctx \<and> subjectType r = type \<and> subjectId r = subject
          \<and> requestedAction r = action \<and> live r
          \<and> (\<exists>p. findPolicy ctx (request_policyId r) (request_policyVersion r) repo = Some p \<and> affected p r)
       then with_status r Request_CANCELLED else r) (requests repo q)"
proof -
  let ?search = "\<lparr>find_subjectType = Some type, find_subjectId = Some subject, find_subjectHash = None,
      find_requestedAction = Some action, find_statuses = Some [Request_OPEN, Request_APPROVED]\<rparr>"
  have ok: "distinct (map fst (request_list repo))" "\<forall>q r. requests repo q = Some r \<longrightarrow> requestId r = q"
    using assms by (simp_all add: authority_ok_def repo_ok_def)
  note members = set_findRequests [OF ok, of _ E ctx ?search]
  have stored: "\<forall>r \<in> set (findRequests E ctx ?search repo).
      requests repo (requestId r) = Some r \<and> request_scope r = context_scope ctx"
    using members by blast
  obtain repo' where repo': "cancel_requests ctx affected (findRequests E ctx ?search repo) repo = Some repo'"
    "policies repo' = policies repo" "decisions repo' = decisions repo"
    "distinct (map fst (request_list repo))
     \<longrightarrow> distinct (map fst (request_list repo'))"
    "\<forall>q. requests repo' q =
       map_option (\<lambda>r. if cancelled ctx affected (findRequests E ctx ?search repo) repo r
                       then with_status r Request_CANCELLED else r) (requests repo q)"
    using cancel_requests_effect [OF stored distinct_findRequests [OF ok] ok(2), of affected] by blast
  have "cancelled ctx affected (findRequests E ctx ?search repo) repo r \<longleftrightarrow>
      request_scope r = context_scope ctx \<and> subjectType r = type \<and> subjectId r = subject
          \<and> requestedAction r = action \<and> live r
          \<and> (\<exists>p. findPolicy ctx (request_policyId r) (request_policyVersion r) repo = Some p \<and> affected p r)"
    if "requests repo q = Some r" for q r
    using that ok(2) members [of r] by (auto simp: cancelled_def live_def)
  with repo' ok(1) show thesis
    by (intro that [of repo']) (auto simp: cancel_candidates_def intro!: option.map_cong)
qed

lemma cancelled_keeps:
  assumes "authority_ok repo" "policies repo' = policies repo" "decisions repo' = decisions repo"
    and "distinct (map fst (request_list repo'))"
    and "\<And>q. requests repo' q = map_option (\<lambda>r. if P r then with_status r Request_CANCELLED else r) (requests repo q)"
  shows "keeps repo repo'" "repo_ok repo'" "quorum_ok repo'"
proof -
  have key: "\<exists>r'. requests repo' q = Some r' \<and> request_key r' = request_key r \<and> (live r' \<longrightarrow> live r)"
    if "requests repo q = Some r" for q r
    using that assms(5) [of q] by (auto simp: live_def)
  then show "keeps repo repo'"
    using assms(2,4,5) by (auto simp: keeps_def repo_grows_def split: if_splits)
  have decs: "decisions_of q repo' = decisions_of q repo" for q using assms(3) by (simp add: decisions_of_def)
  have ok: "repo_ok repo" "quorum_ok repo" using assms(1) by (simp_all add: authority_ok_def)
  have "lawful repo' d" if "d \<in> set (decisions repo)" for d
  proof (rule lawful_mono [of repo])
    show "lawful repo d" using ok(1) that by (simp add: repo_ok_def)
  qed (use key assms(2) in auto)
  then show "repo_ok repo'"
    using ok(1) assms(3,5) decs by (auto simp: repo_ok_def split: if_splits)
  have "quorum repo' r = quorum repo r" for r
    using assms(2) decs by (simp add: quorum_def policy_for_def approvers_def)
  then show "quorum_ok repo'" using ok(2) assms(5) by (auto simp: quorum_ok_def split: if_splits)
qed

lemma invalidation_keeps:
  assumes "authority_ok repo"
    and "invalidateMaterialChange E i repo = (x, repo') \<or> invalidatePriorVersion E j repo = (x, repo')"
  shows "keeps repo repo' \<and> repo_ok repo' \<and> quorum_ok repo'"
proof -
  have cancelled: "keeps repo repo2 \<and> repo_ok repo2 \<and> quorum_ok repo2"
    if "cancel_candidates E ctx type subject action affected repo = Some repo2" for ctx type subject action affected repo2
  proof -
    show ?thesis
    proof (rule cancel_candidates_effect [OF assms(1), of E ctx type subject action affected])
      fix repo1
      assume "cancel_candidates E ctx type subject action affected repo = Some repo1"
        and effect: "policies repo1 = policies repo" "decisions repo1 = decisions repo"
          "distinct (map fst (request_list repo1))"
          "\<And>q. requests repo1 q = map_option (\<lambda>r.
             if request_scope r = context_scope ctx \<and> subjectType r = type \<and> subjectId r = subject
                \<and> requestedAction r = action \<and> live r
                \<and> (\<exists>p. findPolicy ctx (request_policyId r) (request_policyVersion r) repo = Some p \<and> affected p r)
             then with_status r Request_CANCELLED else r) (requests repo q)"
      then show ?thesis using that cancelled_keeps [OF assms(1) effect] by simp
    qed
  qed
  have "keeps repo repo \<and> repo_ok repo \<and> quorum_ok repo"
    using assms(1) by (auto simp: keeps_def authority_ok_def)
  moreover have "repo' = repo
      \<or> (\<exists>ctx type subject action affected. cancel_candidates E ctx type subject action affected repo = Some repo')"
    using assms(2) by (auto simp: invalidateMaterialChange_def invalidatePriorVersion_def split: option.splits)
  ultimately show ?thesis using cancelled by blast
qed

lemma authority_step_ok:
  assumes "authority_step E repo repo'" "authority_ok repo"
  shows "keeps repo repo' \<and> authority_ok repo'"
proof -
  have parts: "keeps repo repo' \<and> repo_ok repo' \<and> quorum_ok repo'"
    using assms(1)
  proof cases
    case service
    have "repo_ok repo" "quorum_ok repo" using assms(2) by (simp_all add: authority_ok_def)
    with service show ?thesis using service_keeps service_step_ok quorum_ok_step by blast
  qed (use invalidation_keeps [OF assms(2)] in blast)+
  have "policy_for repo' r' \<noteq> None" if "requests repo' q = Some r'" for q r'
  proof -
    have "policy_for repo r' \<noteq> None"
      using parts that assms(2) by (fastforce simp: keeps_def authority_ok_def policy_for_def request_key_def)
    with parts show ?thesis by (auto simp: policy_for_def keeps_def repo_grows_def bind_eq_Some_conv)
  qed
  moreover have "policy_workspaceId p = fst (snd k)" if "policies repo' k = Some p" for k p
    using parts that assms(2) unfolding keeps_def authority_ok_def by blast
  ultimately show ?thesis using parts assms(2) by (simp add: authority_ok_def keeps_def)
qed

lemma authority_history_ok:
  assumes "(authority_step E)\<^sup>*\<^sup>* repo repo'" "authority_ok repo"
  shows "repo_grows repo repo' \<and> authority_ok repo'"
  using assms
proof (induction rule: rtranclp_induct)
  case (step y z)
  then have y: "repo_grows repo y" "authority_ok y" by simp_all
  with authority_step_ok [OF step(2)] have "repo_grows y z" "authority_ok z" by (simp_all add: keeps_def)
  with y show ?case using repo_grows_trans by blast
qed simp

lemma empty_authority_ok: "authority_ok empty_repo"
  using empty_repo_ok by (simp add: authority_ok_def empty_repo_def)

section \<open>Answers\<close>

lemma first_current_found:
  assumes "first_current E now ctx binding later n rs = Authority_found r p validUntil"
  shows "r \<in> set rs \<and> policy_status p = Policy_ACTIVE \<and> policyMatchesBinding (actionMatcher p) binding
    \<and> effectiveDueAt E r p = Some validUntil \<and> \<not> date_le (Date_parse E validUntil) (Some now)
    \<and> (\<exists>m. findPolicy ctx (request_policyId r) (request_policyVersion r) (later m) = Some p)"
  using assms
  by (induction rs arbitrary: n) (auto split: option.splits if_splits)

lemma authorityContext_scope:
  assumes "uuid_format_documented E" "wf_scope scope" "authorityContext E scope key = Some ctx"
  shows "context_scope ctx = scope"
  using assms
  by (auto simp: authorityContext_def createIamTenantContextV1_def result_simps scope_value_def parse_scope_object
      split: sum.splits)

lemma spread_base:
  assumes "js ''actionType'' \<notin> fst ` set extra" "js ''subjectType'' \<notin> fst ` set extra"
    "js ''subjectId'' \<notin> fst ` set extra"
    and "policyMatchesBinding m (spread (base_binding action type subject) extra)"
  shows "policyMatchesBinding m (base_binding action type subject)"
proof -
  have keep: "(k, v) \<in> set (foldl (\<lambda>b (key, val). AList.update key val b) b extra)"
    if "(k, v) \<in> set b" "k \<notin> fst ` set extra" for k v and b extra :: binding
    using that
  proof (induction extra arbitrary: b)
    case (Cons e extra)
    obtain key val where e: "e = (key, val)" by (cases e)
    have "(k, v) \<in> set (AList.update key val b)"
      using Cons.prems e by (induction b) auto
    with Cons e show ?case by simp
  qed simp
  have "(js ''actionType'', action) \<in> set (spread (base_binding action type subject) extra)"
    "(js ''subjectType'', type) \<in> set (spread (base_binding action type subject) extra)"
    "(js ''subjectId'', subject) \<in> set (spread (base_binding action type subject) extra)"
    unfolding spread_def by (rule keep; simp add: base_binding_def assms)+
  with assms(4) show ?thesis
    by (force simp: policyMatchesBinding_def list_all_iff base_binding_def [of action])
qed

lemma material_change_cancels:
  assumes "uuid_format_documented E" "wf_scope (aq_tenantScope i)" "authority_ok repo"
    and "invalidateMaterialChange E i repo = (True, repo')"
    and "requests repo q = Some r" "request_scope r = aq_tenantScope i" "subjectType r = aq_subjectType i"
    and "subjectId r = aq_subjectId i" "requestedAction r = aq_requestedAction i"
    and "policy_for repo r = Some p" "materially_changed i p r"
  shows "\<exists>r1. requests repo' q = Some r1 \<and> \<not> live r1"
proof -
  obtain ctx where ctx: "authorityContext E (aq_tenantScope i) ''jra-authority-invalidate'' = Some ctx"
    using assms(4) by (auto simp: invalidateMaterialChange_def split: option.splits)
  have scope: "request_scope r = context_scope ctx"
    using authorityContext_scope [OF assms(1,2) ctx] assms(6) by simp
  have found: "findPolicy ctx (request_policyId r) (request_policyVersion r) repo = Some p"
    using assms(3,10) scope by (auto simp: policy_for_def findPolicy_def authority_ok_def bind_eq_Some_conv)
  show ?thesis
  proof (rule cancel_candidates_effect [OF assms(3), of E ctx "aq_subjectType i" "aq_subjectId i"
          "aq_requestedAction i" "materially_changed i"])
    fix repo1
    assume c: "cancel_candidates E ctx (aq_subjectType i) (aq_subjectId i) (aq_requestedAction i)
        (materially_changed i) repo = Some repo1"
      and effect: "\<And>q. requests repo1 q = map_option (\<lambda>r.
         if request_scope r = context_scope ctx \<and> subjectType r = aq_subjectType i \<and> subjectId r = aq_subjectId i
            \<and> requestedAction r = aq_requestedAction i \<and> live r
            \<and> (\<exists>p. findPolicy ctx (request_policyId r) (request_policyVersion r) repo = Some p \<and> materially_changed i p r)
         then with_status r Request_CANCELLED else r) (requests repo q)"
    have "repo' = repo1" using assms(4) ctx c by (simp add: invalidateMaterialChange_def)
    then show ?thesis
      using effect [of q] assms(5,7-9,11) scope found by (cases "live r") (simp_all add: live_def)
  qed
qed

lemma current_approval_facts:
  assumes "uuid_format_documented E" "wf_scope (aq_tenantScope i)"
    and "(authority_step E)\<^sup>*\<^sup>* empty_repo repo" "\<forall>n. (authority_step E)\<^sup>*\<^sup>* repo (later n)"
    and "findCurrentApproved E now i repo later = Authority_found r p validUntil"
  shows "requests repo (requestId r) = Some r \<and> request_status r = Request_APPROVED
     \<and> request_scope r = aq_tenantScope i \<and> subjectType r = aq_subjectType i \<and> subjectId r = aq_subjectId i
     \<and> subjectHash r = aq_subjectHash i \<and> requestedAction r = aq_requestedAction i
     \<and> policy_for repo r = Some p \<and> policy_status p = Policy_ACTIVE
     \<and> policyMatchesBinding (actionMatcher p)
          (spread (base_binding (aq_requestedAction i) (aq_subjectType i) (aq_subjectId i)) (aq_binding i))
     \<and> minimumApprovals p \<le> int (card (approvers repo (requestId r)))
     \<and> effectiveDueAt E r p = Some validUntil \<and> \<not> date_le (Date_parse E validUntil) (Some now)"
proof -
  have ok: "authority_ok repo" using authority_history_ok [OF assms(3) empty_authority_ok] by simp
  then have repo: "distinct (map fst (request_list repo))" "\<forall>q r. requests repo q = Some r \<longrightarrow> requestId r = q"
    by (simp_all add: authority_ok_def repo_ok_def)
  obtain ctx where ctx: "authorityContext E (aq_tenantScope i) ''jra-authority-read'' = Some ctx"
    using assms(5) by (auto simp: findCurrentApproved_def split: option.splits)
  note scope = authorityContext_scope [OF assms(1,2) ctx]
  from first_current_found [OF assms(5) [unfolded findCurrentApproved_def ctx option.case]]
  obtain m where r: "requests repo (requestId r) = Some r" "request_scope r = aq_tenantScope i"
    "subjectType r = aq_subjectType i" "subjectId r = aq_subjectId i" "subjectHash r = aq_subjectHash i"
    "requestedAction r = aq_requestedAction i" "request_status r = Request_APPROVED"
    and p: "policy_status p = Policy_ACTIVE" "effectiveDueAt E r p = Some validUntil"
      "\<not> date_le (Date_parse E validUntil) (Some now)"
      "policyMatchesBinding (actionMatcher p)
         (spread (base_binding (aq_requestedAction i) (aq_subjectType i) (aq_subjectId i)) (aq_binding i))"
    and found: "findPolicy ctx (request_policyId r) (request_policyVersion r) (later m) = Some p"
    by (auto simp: set_findRequests [OF repo] scope)
  have "quorum repo r" using ok r(1,7) by (auto simp: authority_ok_def quorum_ok_def)
  then obtain q where q: "policy_for repo r = Some q" "minimumApprovals q \<le> int (card (approvers repo (requestId r)))"
    by (auto simp: quorum_def)
  have "policy_for (later m) r = Some p" using findPolicy_policy_for [OF found] r(2) scope by simp
  moreover have "policy_for (later m) r = Some q"
    using q(1) authority_history_ok [OF spec [OF assms(4)] ok]
    by (auto simp: policy_for_def repo_grows_def bind_eq_Some_conv)
  ultimately have "p = q" by simp
  with r p q show ?thesis by simp
qed



section \<open>Sample answers\<close>

definition sample_question :: "char \<Rightarrow> approval_question" where
  "sample_question hash =
     \<lparr>aq_tenantScope = ws_scope CHR ''a'' CHR ''b'', aq_subjectType = js ''job'', aq_subjectId = uuid_of CHR ''a'',
      aq_subjectHash = hash_of hash, aq_requestedAction = js ''run'', aq_binding = []\<rparr>"

lemma sample_authority_context:
  assumes "key_value (Str (js key)) = Some (js key)"
  shows "authorityContext sample_env (ws_scope CHR ''a'' CHR ''b'') key = Some sample_context"
proof -
  have "stable_form (js ''00000000-0000-4000-8000-000000000001'')"
    "stable_form (js ''00000000-0000-4000-8000-000000000002'')"
    by code_simp+
  then have "stable sample_env (Str (js ''00000000-0000-4000-8000-000000000001'')) = Some (js ''00000000-0000-4000-8000-000000000001'')"
    "stable sample_env (Str (js ''00000000-0000-4000-8000-000000000002'')) = Some (js ''00000000-0000-4000-8000-000000000002'')"
    by (simp_all add: identifierFrom_Str sample_uuid_documented)
  with assms show ?thesis
    by (simp add: authorityContext_def createIamTenantContextV1_def result_simps sample_context_def
        positiveInteger_Some max_safe_integer_def optional_def)
qed

lemma sample_keys:
  "key_value (Str (js ''jra-authority-read'')) = Some (js ''jra-authority-read'')"
  "key_value (Str (js ''jra-authority-invalidate'')) = Some (js ''jra-authority-invalidate'')"
  by code_simp+

abbreviation decided_repo :: approval_repo where
  "decided_repo \<equiv> sample_repo (Some decided_request)
     [sample_decision CHR ''e'' CHR ''f'', sample_decision CHR ''c'' CHR ''b'']"

lemma service_history: "(service_step E True)\<^sup>*\<^sup>* a b \<Longrightarrow> (authority_step E)\<^sup>*\<^sup>* a b"
  by (induction rule: rtranclp_induct) (auto intro: authority_step.service rtranclp.rtrancl_into_rtrancl)

lemma sample_opened: "(service_step sample_env True)\<^sup>*\<^sup>* (sample_repo None []) decided_repo"
proof -
  have "service_step sample_env True (sample_repo None []) (sample_repo (Some sample_approval_request) [])"
    by (rule sample_open)
  moreover have "service_step sample_env True (sample_repo (Some sample_approval_request) [])
      (sample_repo (Some once_decided) [sample_decision CHR ''e'' CHR ''f''])"
    by (rule service_step.decide [OF sample_decide_first]) (simp add: resubmitted_def)
  moreover have "service_step sample_env True (sample_repo (Some once_decided) [sample_decision CHR ''e'' CHR ''f'']) decided_repo"
    by (rule service_step.decide [OF sample_decide_second]) (simp add: resubmitted_def sample_decision_input_def)
  ultimately show ?thesis by (meson rtranclp.rtrancl_into_rtrancl rtranclp.rtrancl_refl)
qed

lemma sample_answer:
  "findCurrentApproved sample_env 1767225605000 (sample_question CHR ''e'') decided_repo (\<lambda>_. decided_repo)
     = Authority_found decided_request sample_policy (time_of ''30'')"
proof -
  have r: "subjectType decided_request = js ''job''" "subjectId decided_request = uuid_of CHR ''a''"
    "subjectHash decided_request = hash_of CHR ''e''" "requestedAction decided_request = js ''run''"
    and hash: "subjectHash once_decided = hash_of CHR ''e''"
    by (simp_all add: once_decided_def with_status_def sample_approval_request_def)
  have found: "findRequests sample_env sample_context
      \<lparr>find_subjectType = Some (js ''job''), find_subjectId = Some (uuid_of CHR ''a''),
       find_subjectHash = Some (hash_of CHR ''e''), find_requestedAction = Some (js ''run''),
       find_statuses = Some [Request_APPROVED]\<rparr> decided_repo = [decided_request]"
    by (simp add: findRequests_def r hash sample_repo_def)
  have "effectiveDueAt sample_env decided_request sample_policy = Some (time_of ''30'')"
    by (simp add: effectiveDueAt_with_status sample_due)
  moreover have "policyMatchesBinding (actionMatcher sample_policy)
      (base_binding (js ''run'') (js ''job'') (uuid_of CHR ''a''))" "policy_status sample_policy = Policy_ACTIVE"
    by (simp_all add: policyMatchesBinding_def base_binding_def sample_policy_def)
  ultimately show ?thesis
    using sample_authority_context [OF sample_keys(1)]
    by (simp add: findCurrentApproved_def sample_question_def found spread_def)
qed



end
