(* ===== verification/Identity.thy ===== *)
theory Identity
  imports Permissions Machine Samples
begin

text \<open>
  packages/domain/src/identity/v1.ts, first part: users, organizations, workspaces, projects and
  memberships, the bootstrap of a personal organization and the guard on removing owners.
\<close>

section \<open>Data\<close>

definition STEP_UP_MAX_SECONDS_V1 :: int where "STEP_UP_MAX_SECONDS_V1 = 10 * 60"

definition ACCESS_TOKEN_MAX_SECONDS_V1 :: int where "ACCESS_TOKEN_MAX_SECONDS_V1 = 15 * 60"

definition INVITATION_MAX_SECONDS_V1 :: int where "INVITATION_MAX_SECONDS_V1 = 7 * 24 * 60 * 60"

definition DEVICE_ENROLLMENT_CHALLENGE_MAX_SECONDS_V1 :: int where
  "DEVICE_ENROLLMENT_CHALLENGE_MAX_SECONDS_V1 = 5 * 60"

datatype locale_id = Vi_VN | En

datatype user_status = User_ACTIVE | User_LOCKED | User_SUSPENDED | User_DEACTIVATED

datatype membership_status = Member_INVITED | Member_ACTIVE | Member_SUSPENDED | Member_REMOVED

datatype principal_type = Principal_USER | Principal_SERVICE_ACCOUNT

datatype organization_status = Organization_ACTIVE | Organization_SUSPENDED | Organization_DEACTIVATED

datatype archive_status = Status_ACTIVE | Status_ARCHIVED

datatype project_kind = INTERNAL | CLIENT | LOCATION | ENGAGEMENT

record user_identity =
  user_id :: stable_id
  user_status :: user_status
  displayName :: jsstr
  user_locale :: locale_id
  user_securityEpoch :: int
  user_createdAt :: utc_timestamp

record organization_identity =
  organization_id :: stable_id
  organization_name :: jsstr
  personal :: bool
  organization_status :: organization_status
  organization_createdAt :: utc_timestamp

record workspace_identity =
  workspace_id :: stable_id
  workspace_organizationId :: stable_id
  workspace_name :: jsstr
  workspace_status :: archive_status
  authorizationEpoch :: int
  workspace_createdAt :: utc_timestamp

record project_identity =
  project_id :: stable_id
  project_organizationId :: stable_id
  project_workspaceId :: stable_id
  project_kind :: project_kind
  project_name :: jsstr
  project_status :: archive_status
  project_createdAt :: utc_timestamp

record membership_identity =
  membership_id :: stable_id
  principalType :: principal_type
  principalId :: stable_id
  membership_scope :: tenant_scope
  membership_role :: role
  membership_status :: membership_status
  startsAt :: "utc_timestamp option"
  membership_expiresAt :: "utc_timestamp option"
  membership_revision :: int

record personal_organization =
  boot_user :: user_identity
  boot_organization :: organization_identity
  boot_workspace :: workspace_identity
  boot_project :: project_identity
  boot_membership :: membership_identity

datatype identity_error =
    Identity_INVALID_IDENTIFIER
  | Identity_INVALID_TIMESTAMP
  | Identity_INVALID_TEXT
  | Identity_INVALID_LOCALE
  | Identity_INVALID_EPOCH
  | Identity_INVALID_SCOPE
  | Identity_INVALID_LIFETIME
  | Identity_INVALID_KIND
  | Identity_INVALID_ROLE
  | Identity_INVALID_PLATFORM
  | Identity_INVALID_PUBLIC_KEY
  | Identity_INVALID_STATE

section \<open>Text\<close>

definition containsControlCharacterV1 :: "jsstr \<Rightarrow> bool" where
  "containsControlCharacterV1 s \<longleftrightarrow> list_ex (\<lambda>c. unat c \<le> 31 \<or> unat c = 127) s"

definition boundedText :: "env \<Rightarrow> jsval \<Rightarrow> nat \<Rightarrow> jsstr option" where
  "boundedText E v maxLength =
     (case v of
        Str s \<Rightarrow>
          if s = [] \<or> length s > maxLength then None
          else if containsControlCharacterV1 s then None
          else let normalized = trim (nfc E s) in
            if normalized \<noteq> [] \<and> length normalized \<le> maxLength then Some normalized else None
      | _ \<Rightarrow> None)"

definition positiveEpoch :: "jsval \<Rightarrow> int option" where
  "positiveEpoch v = positiveInteger v"

text \<open>\<open>input.x === undefined ? 1 : positiveEpoch(input.x)\<close>\<close>

definition epoch_or_one :: "jsval \<Rightarrow> int option" where
  "epoch_or_one v = (if v = Undefined then Some 1 else positiveEpoch v)"

definition durationWithin :: "env \<Rightarrow> utc_timestamp \<Rightarrow> utc_timestamp \<Rightarrow> int \<Rightarrow> bool" where
  "durationWithin E start finish maxSeconds \<longleftrightarrow> lifetime_within E start finish (maxSeconds * 1000)"

definition at_sign :: "16 word" where "at_sign = of_char CHR ''@''"

definition dot :: "16 word" where "dot = of_char CHR ''.''"

text \<open>\<open>/^[a-z0-9](?:[a-z0-9.-]*[a-z0-9])?$/u\<close>, and no two dots in a row\<close>

definition domain_unit :: "16 word \<Rightarrow> bool" where
  "domain_unit c \<longleftrightarrow> lower c \<or> digit c"

definition domain_ok :: "jsstr \<Rightarrow> bool" where
  "domain_ok d \<longleftrightarrow>
     d \<noteq> [] \<and> domain_unit (hd d) \<and> domain_unit (last d)
     \<and> list_all (\<lambda>c. domain_unit c \<or> c = dot \<or> is_char CHR ''-'' c) d
     \<and> list_all (\<lambda>(a, b). \<not> (a = dot \<and> b = dot)) (zip d (tl d))"

definition normalizeEmailAddressV1 :: "env \<Rightarrow> jsval \<Rightarrow> identity_error + jsstr" where
  "normalizeEmailAddressV1 E v =
     (case v of
        Str s \<Rightarrow>
          reject_if (length s > 254 \<or> list_ex whitespace s \<or> containsControlCharacterV1 s)
            Identity_INVALID_TEXT
          (let normalized = lower_case E (nfc E s);
               local = takeWhile (\<lambda>c. c \<noteq> at_sign) normalized;
               domain = drop (length local + 1) normalized in
           reject_if (at_sign \<notin> set normalized \<or> local = [] \<or> at_sign \<in> set domain
                      \<or> hd local = dot \<or> length local > 64 \<or> \<not> domain_ok domain)
             Identity_INVALID_TEXT
           (accepted normalized))
      | _ \<Rightarrow> rejected Identity_INVALID_TEXT)"

section \<open>Constructors\<close>

definition locales :: "(string \<times> locale_id) list" where
  "locales = [(''vi-VN'', Vi_VN), (''en'', En)]"

definition user_statuses :: "(string \<times> user_status) list" where
  "user_statuses =
     [(''ACTIVE'', User_ACTIVE), (''LOCKED'', User_LOCKED), (''SUSPENDED'', User_SUSPENDED),
      (''DEACTIVATED'', User_DEACTIVATED)]"

definition organization_statuses :: "(string \<times> organization_status) list" where
  "organization_statuses =
     [(''ACTIVE'', Organization_ACTIVE), (''SUSPENDED'', Organization_SUSPENDED),
      (''DEACTIVATED'', Organization_DEACTIVATED)]"

definition archive_statuses :: "(string \<times> archive_status) list" where
  "archive_statuses = [(''ACTIVE'', Status_ACTIVE), (''ARCHIVED'', Status_ARCHIVED)]"

definition project_kinds :: "(string \<times> project_kind) list" where
  "project_kinds =
     [(''INTERNAL'', INTERNAL), (''CLIENT'', CLIENT), (''LOCATION'', LOCATION), (''ENGAGEMENT'', ENGAGEMENT)]"

definition isProjectKindV1 :: "jsval \<Rightarrow> project_kind option" where
  "isProjectKindV1 v = one_of project_kinds v"

record user_input =
  in_user_id :: jsval
  in_displayName :: jsval
  in_locale :: jsval
  in_user_securityEpoch :: jsval
  in_user_createdAt :: jsval
  in_user_status :: jsval

definition createUserIdentityV1 :: "env \<Rightarrow> user_input \<Rightarrow> identity_error + user_identity" where
  "createUserIdentityV1 E i =
     require Identity_INVALID_IDENTIFIER (stable E (in_user_id i)) (\<lambda>uid.
     require Identity_INVALID_TEXT (boundedText E (in_displayName i) 200) (\<lambda>name.
     require Identity_INVALID_TIMESTAMP (timestamp E (in_user_createdAt i)) (\<lambda>created_at.
     require Identity_INVALID_LOCALE (one_of locales (nullish (in_locale i) (Str (js ''vi-VN'')))) (\<lambda>loc.
     require Identity_INVALID_EPOCH (epoch_or_one (in_user_securityEpoch i)) (\<lambda>epoch.
     require Identity_INVALID_STATE
       (one_of user_statuses (nullish (in_user_status i) (Str (js ''ACTIVE'')))) (\<lambda>status.
     accepted \<lparr>user_id = uid, user_status = status, displayName = name, user_locale = loc,
               user_securityEpoch = epoch, user_createdAt = created_at\<rparr>))))))"

record organization_input =
  in_organization_id :: jsval
  in_organization_name :: jsval
  in_personal :: jsval
  in_organization_status :: jsval
  in_organization_createdAt :: jsval

definition createOrganizationIdentityV1 ::
    "env \<Rightarrow> organization_input \<Rightarrow> identity_error + organization_identity" where
  "createOrganizationIdentityV1 E i =
     require Identity_INVALID_IDENTIFIER (stable E (in_organization_id i)) (\<lambda>oid.
     require Identity_INVALID_TEXT (boundedText E (in_organization_name i) 200) (\<lambda>name.
     require Identity_INVALID_TIMESTAMP (timestamp E (in_organization_createdAt i)) (\<lambda>created_at.
     require Identity_INVALID_STATE (as_bool (nullish (in_personal i) (Bool False))) (\<lambda>is_personal.
     require Identity_INVALID_STATE
       (one_of organization_statuses (nullish (in_organization_status i) (Str (js ''ACTIVE'')))) (\<lambda>status.
     accepted \<lparr>organization_id = oid, organization_name = name, personal = is_personal,
               organization_status = status, organization_createdAt = created_at\<rparr>)))))"

record workspace_input =
  in_workspace_id :: jsval
  in_workspace_organizationId :: jsval
  in_workspace_name :: jsval
  in_workspace_status :: jsval
  in_authorizationEpoch :: jsval
  in_workspace_createdAt :: jsval

definition createWorkspaceIdentityV1 :: "env \<Rightarrow> workspace_input \<Rightarrow> identity_error + workspace_identity" where
  "createWorkspaceIdentityV1 E i =
     require Identity_INVALID_IDENTIFIER (stable E (in_workspace_id i)) (\<lambda>wid.
     require Identity_INVALID_IDENTIFIER (stable E (in_workspace_organizationId i)) (\<lambda>oid.
     require Identity_INVALID_TEXT (boundedText E (in_workspace_name i) 200) (\<lambda>name.
     require Identity_INVALID_TIMESTAMP (timestamp E (in_workspace_createdAt i)) (\<lambda>created_at.
     require Identity_INVALID_STATE
       (one_of archive_statuses (nullish (in_workspace_status i) (Str (js ''ACTIVE'')))) (\<lambda>status.
     require Identity_INVALID_EPOCH (epoch_or_one (in_authorizationEpoch i)) (\<lambda>epoch.
     accepted \<lparr>workspace_id = wid, workspace_organizationId = oid, workspace_name = name,
               workspace_status = status, authorizationEpoch = epoch,
               workspace_createdAt = created_at\<rparr>))))))"

record project_input =
  in_project_id :: jsval
  in_project_organizationId :: jsval
  in_project_workspaceId :: jsval
  in_project_kind :: jsval
  in_project_name :: jsval
  in_project_status :: jsval
  in_project_createdAt :: jsval

definition createProjectIdentityV1 :: "env \<Rightarrow> project_input \<Rightarrow> identity_error + project_identity" where
  "createProjectIdentityV1 E i =
     require Identity_INVALID_IDENTIFIER (stable E (in_project_id i)) (\<lambda>pid.
     require Identity_INVALID_IDENTIFIER (stable E (in_project_organizationId i)) (\<lambda>oid.
     require Identity_INVALID_IDENTIFIER (stable E (in_project_workspaceId i)) (\<lambda>wid.
     require Identity_INVALID_TEXT (boundedText E (in_project_name i) 200) (\<lambda>name.
     require Identity_INVALID_TIMESTAMP (timestamp E (in_project_createdAt i)) (\<lambda>created_at.
     require Identity_INVALID_KIND (isProjectKindV1 (in_project_kind i)) (\<lambda>kind.
     require Identity_INVALID_STATE
       (one_of archive_statuses (nullish (in_project_status i) (Str (js ''ACTIVE'')))) (\<lambda>status.
     accepted \<lparr>project_id = pid, project_organizationId = oid, project_workspaceId = wid,
               project_kind = kind, project_name = name, project_status = status,
               project_createdAt = created_at\<rparr>)))))))"

section \<open>Bootstrap\<close>

record bootstrap_input =
  in_boot_user :: user_input
  in_boot_organizationId :: jsval
  in_boot_workspaceId :: jsval
  in_boot_projectId :: jsval
  in_boot_membershipId :: jsval
  in_boot_createdAt :: jsval

definition bootstrapPersonalOrganizationV1 ::
    "env \<Rightarrow> bootstrap_input \<Rightarrow> identity_error + personal_organization" where
  "bootstrapPersonalOrganizationV1 E i =
     and_then (createUserIdentityV1 E (in_boot_user i)) (\<lambda>user.
     require Identity_INVALID_IDENTIFIER (stable E (in_boot_organizationId i)) (\<lambda>oid.
     require Identity_INVALID_IDENTIFIER (stable E (in_boot_workspaceId i)) (\<lambda>wid.
     require Identity_INVALID_IDENTIFIER (stable E (in_boot_projectId i)) (\<lambda>pid.
     require Identity_INVALID_IDENTIFIER (stable E (in_boot_membershipId i)) (\<lambda>mid.
     require Identity_INVALID_TIMESTAMP (timestamp E (in_boot_createdAt i)) (\<lambda>created_at.
     accepted
       \<lparr>boot_user = user,
        boot_organization =
          \<lparr>organization_id = oid,
           organization_name = displayName user @ js ([CHR 0x27] @ ''s DataBreeze''),
           personal = True, organization_status = Organization_ACTIVE,
           organization_createdAt = created_at\<rparr>,
        boot_workspace =
          \<lparr>workspace_id = wid, workspace_organizationId = oid,
           workspace_name = js ''Personal workspace'', workspace_status = Status_ACTIVE,
           authorizationEpoch = 1, workspace_createdAt = created_at\<rparr>,
        boot_project =
          \<lparr>project_id = pid, project_organizationId = oid, project_workspaceId = wid,
           project_kind = INTERNAL, project_name = js ''Personal project'',
           project_status = Status_ACTIVE, project_createdAt = created_at\<rparr>,
        boot_membership =
          \<lparr>membership_id = mid, principalType = Principal_USER, principalId = user_id user,
           membership_scope = Organization_scope oid, membership_role = Owner,
           membership_status = Member_ACTIVE, startsAt = None, membership_expiresAt = None,
           membership_revision = 1\<rparr>\<rparr>))))))"

section \<open>Memberships\<close>

definition principal_types :: "(string \<times> principal_type) list" where
  "principal_types = [(''USER'', Principal_USER), (''SERVICE_ACCOUNT'', Principal_SERVICE_ACCOUNT)]"

definition membership_statuses :: "(string \<times> membership_status) list" where
  "membership_statuses =
     [(''INVITED'', Member_INVITED), (''ACTIVE'', Member_ACTIVE), (''SUSPENDED'', Member_SUSPENDED),
      (''REMOVED'', Member_REMOVED)]"

definition isRole :: "jsval \<Rightarrow> role option" where
  "isRole v = one_of INITIAL_ROLE_IDS_V1 v"

definition validateMembershipV1 :: "env \<Rightarrow> jsval \<Rightarrow> identity_error + membership_identity" where
  "validateMembershipV1 E v =
     reject_if (\<not> isRecord v) Identity_INVALID_STATE
     (let scope = scope_value E (field v ''scope'');
          missing = (if scope = None then Identity_INVALID_SCOPE else Identity_INVALID_IDENTIFIER) in
     require missing (stable E (field v ''id'')) (\<lambda>mid.
     require missing (stable E (field v ''principalId'')) (\<lambda>pid.
     require missing scope (\<lambda>tenant.
     require missing (positiveEpoch (field v ''revision'')) (\<lambda>revision.
     require Identity_INVALID_STATE (one_of principal_types (field v ''principalType'')) (\<lambda>type.
     require Identity_INVALID_ROLE (isRole (field v ''roleId'')) (\<lambda>role.
     require Identity_INVALID_STATE (one_of membership_statuses (field v ''status'')) (\<lambda>status.
     require Identity_INVALID_TIMESTAMP
       (optional (timestamp E) (defined_value (field v ''startsAt''))) (\<lambda>starts_at.
     require Identity_INVALID_TIMESTAMP
       (optional (timestamp E) (defined_value (field v ''expiresAt''))) (\<lambda>expires_at.
     reject_if (case (starts_at, expires_at) of
                  (Some s, Some e) \<Rightarrow> \<not> durationWithin E s e INVITATION_MAX_SECONDS_V1
                | _ \<Rightarrow> False)
       Identity_INVALID_LIFETIME (
     accepted \<lparr>membership_id = mid, principalType = type, principalId = pid,
               membership_scope = tenant, membership_role = role, membership_status = status,
               startsAt = starts_at, membership_expiresAt = expires_at,
               membership_revision = revision\<rparr>)))))))))))"

datatype owner_removal = ALLOWED | LAST_OWNER | NOT_ACTIVE | NOT_FOUND

definition active_owner :: "membership_identity \<Rightarrow> bool" where
  "active_owner m \<longleftrightarrow> membership_status m = Member_ACTIVE \<and> membership_role m = Owner"

definition checkOwnerRemovalV1 :: "membership_identity list \<Rightarrow> stable_id \<Rightarrow> owner_removal" where
  "checkOwnerRemovalV1 memberships targetId =
     (case List.find (\<lambda>m. membership_id m = targetId) memberships of
        None \<Rightarrow> NOT_FOUND
      | Some target \<Rightarrow>
          if membership_status target \<noteq> Member_ACTIVE then NOT_ACTIVE
          else if membership_role target \<noteq> Owner then ALLOWED
          else if length (filter active_owner memberships) \<le> 1 then LAST_OWNER else ALLOWED)"

section \<open>Facts\<close>

lemma find_distinct:
  assumes "distinct (map f xs)" "x \<in> set xs"
  shows "List.find (\<lambda>y. f y = f x) xs = Some x"
  using assms by (induction xs) (auto simp: image_iff)

lemma length_filter_le_1:
  assumes "distinct xs" "length (filter P xs) \<le> 1" "x \<in> set xs" "P x" "y \<in> set xs" "P y"
  shows "x = y"
proof -
  have "x \<in> set (filter P xs)" "y \<in> set (filter P xs)" using assms by auto
  with assms(2) show ?thesis by (cases "filter P xs") (auto simp: le_Suc_eq)
qed

lemma bootstrap_accepted:
  "bootstrapPersonalOrganizationV1 E i = Inr b \<Longrightarrow>
     createUserIdentityV1 E (in_boot_user i) = Inr (boot_user b)
     \<and> workspace_organizationId (boot_workspace b) = organization_id (boot_organization b)
     \<and> project_organizationId (boot_project b) = organization_id (boot_organization b)
     \<and> project_workspaceId (boot_project b) = workspace_id (boot_workspace b)
     \<and> membership_scope (boot_membership b) = Organization_scope (organization_id (boot_organization b))
     \<and> principalId (boot_membership b) = user_id (boot_user b)
     \<and> membership_role (boot_membership b) = Owner \<and> membership_status (boot_membership b) = Member_ACTIVE
     \<and> personal (boot_organization b)
     \<and> stable_form (organization_id (boot_organization b)) \<and> stable_form (workspace_id (boot_workspace b))
     \<and> stable_form (project_id (boot_project b)) \<and> stable_form (membership_id (boot_membership b))"
  by (auto simp: bootstrapPersonalOrganizationV1_def result_simps dest: identifierFrom_form)

section \<open>Properties\<close>

lemma owner_removal_exact:
  assumes "distinct (map membership_id ms)"
  shows "checkOwnerRemovalV1 ms t = LAST_OWNER \<longleftrightarrow>
       (\<exists>m \<in> set ms. membership_id m = t \<and> active_owner m \<and> (\<forall>n \<in> set ms. active_owner n \<longrightarrow> n = m))"
    and "checkOwnerRemovalV1 ms t = ALLOWED \<Longrightarrow> \<exists>n \<in> set ms. active_owner n \<Longrightarrow>
       \<exists>n \<in> set ms. active_owner n \<and> membership_id n \<noteq> t"
proof -
  have d: "distinct ms" using assms by (simp add: distinct_map)
  have fd: "List.find (\<lambda>m. membership_id m = t) ms = Some m" if "m \<in> set ms" "membership_id m = t" for m
    using find_distinct [OF assms that(1)] that(2) by simp
  have only: "length (filter active_owner ms) \<le> 1"
    if "m \<in> set ms" "\<forall>n \<in> set ms. active_owner n \<longrightarrow> n = m" for m
  proof -
    have "set (filter active_owner ms) \<subseteq> {m}" using that by auto
    then have "card (set (filter active_owner ms)) \<le> card {m}" by (rule card_mono [rotated]) simp
    moreover have "card (set (filter active_owner ms)) = length (filter active_owner ms)"
      using d by (intro distinct_card) simp
    moreover have "card {m} = 1" by simp
    ultimately show ?thesis by metis
  qed
  show "checkOwnerRemovalV1 ms t = LAST_OWNER \<longleftrightarrow>
       (\<exists>m \<in> set ms. membership_id m = t \<and> active_owner m \<and> (\<forall>n \<in> set ms. active_owner n \<longrightarrow> n = m))"
  proof
    assume l: "checkOwnerRemovalV1 ms t = LAST_OWNER"
    then obtain m where m: "List.find (\<lambda>m. membership_id m = t) ms = Some m"
      "active_owner m" "length (filter active_owner ms) \<le> 1"
      by (auto simp: checkOwnerRemovalV1_def active_owner_def split: option.splits if_splits)
    then have "m \<in> set ms" "membership_id m = t" by (auto dest: find_SomeD)
    with m length_filter_le_1 [OF d m(3)]
    show "\<exists>m \<in> set ms. membership_id m = t \<and> active_owner m \<and> (\<forall>n \<in> set ms. active_owner n \<longrightarrow> n = m)"
      by blast
  next
    assume "\<exists>m \<in> set ms. membership_id m = t \<and> active_owner m \<and> (\<forall>n \<in> set ms. active_owner n \<longrightarrow> n = m)"
    then obtain m where m: "m \<in> set ms" "membership_id m = t" "active_owner m"
      "\<forall>n \<in> set ms. active_owner n \<longrightarrow> n = m" by blast
    from only [OF m(1,4)] fd [OF m(1,2)] m(3) show "checkOwnerRemovalV1 ms t = LAST_OWNER"
      by (simp add: checkOwnerRemovalV1_def active_owner_def)
  qed
  assume a: "checkOwnerRemovalV1 ms t = ALLOWED" and "\<exists>n \<in> set ms. active_owner n"
  then obtain n where n: "n \<in> set ms" "active_owner n" by blast
  show "\<exists>n \<in> set ms. active_owner n \<and> membership_id n \<noteq> t"
  proof (rule ccontr)
    assume "\<not> (\<exists>n \<in> set ms. active_owner n \<and> membership_id n \<noteq> t)"
    then have all: "\<forall>k \<in> set ms. active_owner k \<longrightarrow> membership_id k = t" by blast
    then have "\<forall>k \<in> set ms. active_owner k \<longrightarrow> k = n"
      using n assms by (auto simp: distinct_map inj_on_def)
    then have "length (filter active_owner ms) \<le> 1" by (rule only [OF n(1)])
    moreover have "List.find (\<lambda>m. membership_id m = t) ms = Some n"
      using all n by (intro fd) blast+
    ultimately show False
      using a n(2) by (simp add: checkOwnerRemovalV1_def active_owner_def)
  qed
qed

text \<open>
  The owner guard is exact. In a list of memberships with distinct identifiers, the removal of
  a membership is refused as the last owner's exactly when it is the only active owner; and when
  there is an active owner and a removal is allowed, an active owner other than the removed
  membership remains.
\<close>

theorem owner_removal_guard:
  assumes "distinct (map membership_id ms)"
  shows "(checkOwnerRemovalV1 ms t = LAST_OWNER \<longleftrightarrow>
       (\<exists>m \<in> set ms. membership_id m = t \<and> active_owner m \<and> (\<forall>n \<in> set ms. active_owner n \<longrightarrow> n = m)))
     \<and> (checkOwnerRemovalV1 ms t = ALLOWED \<longrightarrow> (\<exists>n \<in> set ms. active_owner n) \<longrightarrow>
       (\<exists>n \<in> set ms. active_owner n \<and> membership_id n \<noteq> t))"
  using owner_removal_exact [OF assms, of t] by blast

definition sample_member :: "char \<Rightarrow> role \<Rightarrow> membership_identity" where
  "sample_member c r =
     \<lparr>membership_id = uuid_of c, principalType = Principal_USER, principalId = uuid_of c,
      membership_scope = org_scope CHR ''a'', membership_role = r, membership_status = Member_ACTIVE,
      startsAt = None, membership_expiresAt = None, membership_revision = 1\<rparr>"

theorem owner_removal_guard_witness:
  "let ms = [sample_member CHR ''a'' Owner, sample_member CHR ''b'' Owner, sample_member CHR ''c'' Viewer]
   in \<exists>n \<in> set ms. active_owner n \<and> membership_id n \<noteq> uuid_of CHR ''a''"
proof -
  let ?ms = "[sample_member CHR ''a'' Owner, sample_member CHR ''b'' Owner, sample_member CHR ''c'' Viewer]"
  have "distinct (map membership_id ?ms)" by (simp add: sample_member_def)
  moreover have "checkOwnerRemovalV1 ?ms (uuid_of CHR ''a'') = ALLOWED"
    by (simp add: checkOwnerRemovalV1_def sample_member_def active_owner_def)
  moreover have "\<exists>n \<in> set ?ms. active_owner n" by (simp add: sample_member_def active_owner_def)
  ultimately show ?thesis using owner_removal_guard unfolding Let_def by blast
qed

text \<open>
  The bootstrap of a personal organization builds one consistent hierarchy: the workspace lies
  in the organization and the project in both, all under well-formed identifiers, and the user
  holds an active owner membership whose scope contains the project, and so holds on it every
  permission of the owner role.
\<close>

theorem bootstrap_hierarchy:
  assumes "bootstrapPersonalOrganizationV1 E i = Inr b"
  shows "let project = Project_scope (project_organizationId (boot_project b))
                         (project_workspaceId (boot_project b)) (project_id (boot_project b));
             workspace = Workspace_scope (workspace_organizationId (boot_workspace b))
                           (workspace_id (boot_workspace b)) in
     project \<le> workspace \<and> workspace \<le> membership_scope (boot_membership b)
     \<and> wf_scope project \<and> principalId (boot_membership b) = user_id (boot_user b)
     \<and> active_owner (boot_membership b)
     \<and> set ownerPermissionSet \<subseteq> set (role_permissions (membership_role (boot_membership b)))"
proof -
  note b = bootstrap_accepted [OF assms]
  with owner_permissions_eq show ?thesis
    by (simp add: Let_def less_eq_tenant_scope_def active_owner_def del: role_permissions.simps)
qed

definition sample_bootstrap :: bootstrap_input where
  "sample_bootstrap =
     \<lparr>in_boot_user = \<lparr>in_user_id = sample_id CHR ''a'', in_displayName = Str (js ''Lan''),
                      in_locale = Undefined, in_user_securityEpoch = Undefined,
                      in_user_createdAt = sample_time ''00'', in_user_status = Null\<rparr>,
      in_boot_organizationId = sample_id CHR ''b'', in_boot_workspaceId = sample_id CHR ''c'',
      in_boot_projectId = sample_id CHR ''d'', in_boot_membershipId = sample_id CHR ''e'',
      in_boot_createdAt = sample_time ''00''\<rparr>"

lemma boundedText_plain [simp]:
  assumes "plain s" "length s \<le> n"
  shows "boundedText sample_env (Str (js s)) n = Some (js s)"
proof -
  have "text_value sample_env (Str (js s)) n = Some (js s)" using assms by (rule text_plain)
  moreover have "\<not> containsControlCharacterV1 (js s)"
    using assms(1)
    by (auto simp: containsControlCharacterV1_def plain_def list_ex_iff js_def list_all_iff unat_of_char)
  ultimately show ?thesis
    by (auto simp: text_value_def boundedText_def Let_def split: if_splits)
qed

theorem bootstrap_hierarchy_witness:
  "\<exists>b. bootstrapPersonalOrganizationV1 sample_env sample_bootstrap = Inr b
     \<and> active_owner (boot_membership b)"
proof -
  have "\<exists>b. bootstrapPersonalOrganizationV1 sample_env sample_bootstrap = Inr b"
    by (simp add: bootstrapPersonalOrganizationV1_def sample_bootstrap_def createUserIdentityV1_def
        result_simps locales_def user_statuses_def nullish_def epoch_or_one_def plain_def)
  then show ?thesis using bootstrap_hierarchy unfolding Let_def by blast
qed

end
