(* ===== verification/Sessions.thy ===== *)
theory Sessions
  imports Identity
begin

text \<open>
  packages/domain/src/identity/v1.ts, second part: session records, the rotation of refresh token
  families, device identities and their enrollment challenges, and step-up assertions.
\<close>

section \<open>Sessions\<close>

datatype principal_kind = TENANT | PLATFORM

datatype session_status = Session_ACTIVE | Session_REVOKED | Session_EXPIRED

record session_record =
  sessionId :: stable_id
  session_userId :: stable_id
  principalKind :: principal_kind
  session_organizationId :: "stable_id option"
  session_workspaceId :: "stable_id option"
  familyId :: stable_id
  session_issuedAt :: utc_timestamp
  accessExpiresAt :: utc_timestamp
  inactivityExpiresAt :: utc_timestamp
  absoluteExpiresAt :: utc_timestamp
  session_status :: session_status

record session_input =
  in_sessionId :: jsval
  in_session_userId :: jsval
  in_principalKind :: jsval
  in_session_organizationId :: jsval
  in_session_workspaceId :: jsval
  in_familyId :: jsval
  in_session_issuedAt :: jsval
  in_accessExpiresAt :: jsval
  in_inactivityExpiresAt :: jsval
  in_absoluteExpiresAt :: jsval

definition principal_kinds :: "(string \<times> principal_kind) list" where
  "principal_kinds = [(''TENANT'', TENANT), (''PLATFORM'', PLATFORM)]"

definition optional_stable :: "env \<Rightarrow> jsval \<Rightarrow> stable_id option" where
  "optional_stable E v = (if v = Undefined then None else stable E v)"

definition createSessionRecordV1 :: "env \<Rightarrow> session_input \<Rightarrow> identity_error + session_record" where
  "createSessionRecordV1 E i =
     (let organization = optional_stable E (in_session_organizationId i);
          workspace = optional_stable E (in_session_workspaceId i) in
     require Identity_INVALID_IDENTIFIER (stable E (in_sessionId i)) (\<lambda>session.
     require Identity_INVALID_IDENTIFIER (stable E (in_session_userId i)) (\<lambda>user.
     require Identity_INVALID_IDENTIFIER (stable E (in_familyId i)) (\<lambda>family.
     require Identity_INVALID_KIND
       (one_of principal_kinds (nullish (in_principalKind i) (Str (js ''TENANT'')))) (\<lambda>kind.
     reject_if ((kind = TENANT \<and> (organization = None \<or> workspace = None))
                \<or> (kind = PLATFORM \<and> (in_session_organizationId i \<noteq> Undefined
                                       \<or> in_session_workspaceId i \<noteq> Undefined)))
       Identity_INVALID_SCOPE (
     require Identity_INVALID_TIMESTAMP (timestamp E (in_session_issuedAt i)) (\<lambda>issued.
     require Identity_INVALID_TIMESTAMP (timestamp E (in_accessExpiresAt i)) (\<lambda>access_expires.
     require Identity_INVALID_TIMESTAMP (timestamp E (in_inactivityExpiresAt i)) (\<lambda>inactivity.
     require Identity_INVALID_TIMESTAMP (timestamp E (in_absoluteExpiresAt i)) (\<lambda>absolute.
     reject_if (\<not> durationWithin E issued access_expires ACCESS_TOKEN_MAX_SECONDS_V1
                \<or> date_le (Date_parse E inactivity) (Date_parse E issued)
                \<or> date_less (Date_parse E absolute) (Date_parse E inactivity)
                \<or> \<not> durationWithin E issued inactivity (90 * 24 * 60 * 60)
                \<or> \<not> durationWithin E issued absolute (365 * 24 * 60 * 60))
       Identity_INVALID_LIFETIME (
     accepted
       \<lparr>sessionId = session, session_userId = user, principalKind = kind,
        session_organizationId = organization, session_workspaceId = workspace,
        familyId = family, session_issuedAt = issued, accessExpiresAt = access_expires,
        inactivityExpiresAt = inactivity, absoluteExpiresAt = absolute,
        session_status = Session_ACTIVE\<rparr>)))))))))))"

section \<open>Refresh token families\<close>

datatype family_status = Family_ACTIVE | Family_REVOKED

datatype rotation_code = ROTATED | REUSE_DETECTED | REVOKED_FAMILY | EXPIRED

record rotation_result =
  rotation_accepted :: bool
  rotation_code :: rotation_code
  familyStatus :: family_status
  nextTokenId :: "stable_id option"

definition rotateRefreshFamilyV1 ::
    "env \<Rightarrow> jsval \<Rightarrow> stable_id \<Rightarrow> stable_id \<Rightarrow> stable_id \<Rightarrow> family_status \<Rightarrow> jsval \<Rightarrow> rotation_result" where
  "rotateRefreshFamilyV1 E nowInput presentedTokenId activeTokenId next_token status expiresInput =
     (let refuse = (\<lambda>code after. \<lparr>rotation_accepted = False, rotation_code = code,
                                   familyStatus = after, nextTokenId = None\<rparr>) in
      case timestamp E nowInput of
        None \<Rightarrow> refuse REVOKED_FAMILY Family_REVOKED
      | Some now \<Rightarrow>
          if status = Family_REVOKED then refuse REVOKED_FAMILY Family_REVOKED
          else if (case timestamp E expiresInput of
                     None \<Rightarrow> True
                   | Some e \<Rightarrow> date_le (Date_parse E e) (Date_parse E now))
          then refuse EXPIRED Family_ACTIVE
          else if presentedTokenId \<noteq> activeTokenId then refuse REUSE_DETECTED Family_REVOKED
          else \<lparr>rotation_accepted = True, rotation_code = ROTATED, familyStatus = Family_ACTIVE,
                nextTokenId = Some next_token\<rparr>)"

section \<open>Devices\<close>

datatype device_platform = WINDOWS | ANDROID

datatype device_status = Device_PENDING | Device_ACTIVE | Device_REVOKED

record device_identity =
  device_id :: stable_id
  device_userId :: stable_id
  device_organizationId :: stable_id
  device_platform :: device_platform
  device_publicKey :: jsstr
  installationIdHash :: "jsstr option"
  device_status :: device_status
  device_securityEpoch :: int
  enrolledAt :: utc_timestamp
  activatedAt :: "utc_timestamp option"
  device_revokedAt :: "utc_timestamp option"
  device_revision :: int

datatype challenge_status = Challenge_PENDING | Challenge_USED | Challenge_EXPIRED

record enrollment_challenge =
  challenge_id :: stable_id
  challenge_userId :: stable_id
  challenge_organizationId :: stable_id
  challenge_platform :: device_platform
  challenge_installationIdHash :: jsstr
  challengeDigest :: jsstr
  challenge_status :: challenge_status
  challenge_issuedAt :: utc_timestamp
  challenge_expiresAt :: utc_timestamp
  challenge_revision :: int

definition platforms :: "(string \<times> device_platform) list" where
  "platforms = [(''WINDOWS'', WINDOWS), (''ANDROID'', ANDROID)]"

definition isDevicePlatform :: "jsval \<Rightarrow> device_platform option" where
  "isDevicePlatform v = one_of platforms v"

definition publicKey :: "env \<Rightarrow> jsval \<Rightarrow> jsstr option" where
  "publicKey E v =
     (case v of
        Str s \<Rightarrow>
          if s = [] \<or> length s > 2048 then None
          else if containsControlCharacterV1 s \<or> list_ex whitespace s then None
          else if nfc E s = [] then None else Some (nfc E s)
      | _ \<Rightarrow> None)"

record challenge_input =
  in_challengeId :: jsval
  in_challenge_userId :: jsval
  in_challenge_organizationId :: jsval
  in_challenge_platform :: jsval
  in_challenge_installationIdHash :: jsval
  in_challengeDigest :: jsval
  in_challenge_issuedAt :: jsval
  in_challenge_expiresAt :: jsval

definition createDeviceEnrollmentChallengeV1 ::
    "env \<Rightarrow> challenge_input \<Rightarrow> identity_error + enrollment_challenge" where
  "createDeviceEnrollmentChallengeV1 E i =
     require Identity_INVALID_IDENTIFIER (stable E (in_challengeId i)) (\<lambda>cid.
     require Identity_INVALID_IDENTIFIER (stable E (in_challenge_userId i)) (\<lambda>user.
     require Identity_INVALID_IDENTIFIER (stable E (in_challenge_organizationId i)) (\<lambda>organization.
     require Identity_INVALID_PLATFORM (isDevicePlatform (in_challenge_platform i)) (\<lambda>platform.
     require Identity_INVALID_TEXT (sha256_hex (in_challenge_installationIdHash i)) (\<lambda>installation.
     require Identity_INVALID_TEXT (sha256_hex (in_challengeDigest i)) (\<lambda>digest.
     require Identity_INVALID_TIMESTAMP (timestamp E (in_challenge_issuedAt i)) (\<lambda>issued.
     require Identity_INVALID_TIMESTAMP (timestamp E (in_challenge_expiresAt i)) (\<lambda>expires.
     reject_if (\<not> durationWithin E issued expires DEVICE_ENROLLMENT_CHALLENGE_MAX_SECONDS_V1)
       Identity_INVALID_LIFETIME (
     accepted
       \<lparr>challenge_id = cid, challenge_userId = user, challenge_organizationId = organization,
        challenge_platform = platform, challenge_installationIdHash = installation,
        challengeDigest = digest, challenge_status = Challenge_PENDING,
        challenge_issuedAt = issued, challenge_expiresAt = expires, challenge_revision = 1\<rparr>)))))))))"

definition used_challenge :: "enrollment_challenge \<Rightarrow> enrollment_challenge" where
  "used_challenge c = c\<lparr>challenge_status := Challenge_USED, challenge_revision := js_succ (challenge_revision c)\<rparr>"

definition consumeDeviceEnrollmentChallengeV1 ::
    "env \<Rightarrow> enrollment_challenge \<Rightarrow> jsval \<Rightarrow> identity_error + enrollment_challenge" where
  "consumeDeviceEnrollmentChallengeV1 E c at_time =
     require Identity_INVALID_TIMESTAMP (timestamp E at_time) (\<lambda>now.
     reject_if (challenge_status c \<noteq> Challenge_PENDING) Identity_INVALID_STATE (
     reject_if (date_less (Date_parse E now) (Date_parse E (challenge_issuedAt c)))
       Identity_INVALID_TIMESTAMP (
     reject_if (date_le (Date_parse E (challenge_expiresAt c)) (Date_parse E now))
       Identity_INVALID_STATE (
     accepted (used_challenge c)))))"

record device_input =
  in_device_id :: jsval
  in_device_userId :: jsval
  in_device_organizationId :: jsval
  in_device_platform :: jsval
  in_device_publicKey :: jsval
  in_installationIdHash :: jsval
  in_enrolledAt :: jsval

definition createDeviceIdentityV1 :: "env \<Rightarrow> device_input \<Rightarrow> identity_error + device_identity" where
  "createDeviceIdentityV1 E i =
     require Identity_INVALID_IDENTIFIER (stable E (in_device_id i)) (\<lambda>did.
     require Identity_INVALID_IDENTIFIER (stable E (in_device_userId i)) (\<lambda>user.
     require Identity_INVALID_IDENTIFIER (stable E (in_device_organizationId i)) (\<lambda>organization.
     require Identity_INVALID_PLATFORM (isDevicePlatform (in_device_platform i)) (\<lambda>platform.
     require Identity_INVALID_TEXT (publicKey E (in_device_publicKey i)) (\<lambda>key.
     require Identity_INVALID_TEXT
       (optional sha256_hex (defined_value (in_installationIdHash i))) (\<lambda>installation.
     require Identity_INVALID_TIMESTAMP (timestamp E (in_enrolledAt i)) (\<lambda>enrolled.
     accepted
       \<lparr>device_id = did, device_userId = user, device_organizationId = organization,
        device_platform = platform, device_publicKey = key, installationIdHash = installation,
        device_status = Device_PENDING, device_securityEpoch = 1, enrolledAt = enrolled,
        activatedAt = None, device_revokedAt = None, device_revision = 1\<rparr>)))))))"

definition device_bumped :: "device_identity \<Rightarrow> device_identity" where
  "device_bumped d = d\<lparr>device_securityEpoch := js_succ (device_securityEpoch d),
                        device_revision := js_succ (device_revision d)\<rparr>"

definition rotateDeviceIdentityKeyV1 ::
    "env \<Rightarrow> device_identity \<Rightarrow> jsval \<Rightarrow> jsval \<Rightarrow> identity_error + device_identity" where
  "rotateDeviceIdentityKeyV1 E d nextPublicKey at_time =
     require Identity_INVALID_TIMESTAMP (timestamp E at_time) (\<lambda>now.
     require Identity_INVALID_TEXT (publicKey E nextPublicKey) (\<lambda>key.
     reject_if (device_status d = Device_REVOKED \<or> key = device_publicKey d) Identity_INVALID_STATE (
     reject_if (date_less (Date_parse E now) (Date_parse E (enrolledAt d)))
       Identity_INVALID_TIMESTAMP (
     accepted ((device_bumped d)\<lparr>device_publicKey := key\<rparr>)))))"

datatype device_transition = ACTIVATE | REVOKE

definition device_transitioned :: "device_identity \<Rightarrow> device_transition \<Rightarrow> utc_timestamp \<Rightarrow> device_identity" where
  "device_transitioned d t now =
     (case t of
        ACTIVATE \<Rightarrow> (device_bumped d)\<lparr>device_status := Device_ACTIVE, activatedAt := Some now\<rparr>
      | REVOKE \<Rightarrow> (device_bumped d)\<lparr>device_status := Device_REVOKED, device_revokedAt := Some now\<rparr>)"

definition transitionDeviceIdentityV1 ::
    "env \<Rightarrow> device_identity \<Rightarrow> device_transition \<Rightarrow> jsval \<Rightarrow> identity_error + device_identity" where
  "transitionDeviceIdentityV1 E d t at_time =
     require Identity_INVALID_TIMESTAMP (timestamp E at_time) (\<lambda>now.
     reject_if (t = ACTIVATE \<and> device_status d \<noteq> Device_PENDING) Identity_INVALID_STATE (
     reject_if (t = REVOKE \<and> device_status d = Device_REVOKED) Identity_INVALID_STATE (
     accepted (device_transitioned d t now))))"

section \<open>Step-up assertions\<close>

datatype step_up_method = Step_up_TOTP | Step_up_WEBAUTHN

record step_up_assertion =
  assertionId :: stable_id
  assertion_principalId :: stable_id
  assertion_issuedAt :: utc_timestamp
  assertion_method :: step_up_method

definition isFreshStepUpV1 :: "env \<Rightarrow> step_up_assertion \<Rightarrow> stable_id \<Rightarrow> jsval \<Rightarrow> bool" where
  "isFreshStepUpV1 E a user now =
     (case timestamp E now of
        None \<Rightarrow> False
      | Some t \<Rightarrow>
          assertion_principalId a = user
          \<and> (case date_diff (Date_parse E t) (Date_parse E (assertion_issuedAt a)) of
               None \<Rightarrow> False
             | Some age \<Rightarrow> 0 \<le> age \<and> age \<le> STEP_UP_MAX_SECONDS_V1 * 1000))"

section \<open>Histories of a refresh token family\<close>

text \<open>A family as its owner keeps it: each result's status and next token are stored.\<close>

record token_family =
  active_token :: stable_id
  token_family_status :: family_status

record presentation =
  presented_now :: jsval
  presented_token :: stable_id
  fresh_token :: stable_id
  presented_expiry :: jsval

definition present :: "env \<Rightarrow> token_family \<Rightarrow> presentation \<Rightarrow> rotation_result \<times> token_family" where
  "present E f p =
     (let r = rotateRefreshFamilyV1 E (presented_now p) (presented_token p) (active_token f)
                (fresh_token p) (token_family_status f) (presented_expiry p) in
      (r, \<lparr>active_token = (case nextTokenId r of None \<Rightarrow> active_token f | Some t \<Rightarrow> t),
           token_family_status = familyStatus r\<rparr>))"

fun answers :: "env \<Rightarrow> token_family \<Rightarrow> presentation list \<Rightarrow> rotation_result list" where
  "answers E f [] = []"
| "answers E f (p # ps) = fst (present E f p) # answers E (snd (present E f p)) ps"

lemma length_answers [simp]: "length (answers E f ps) = length ps"
  by (induction ps arbitrary: f) simp_all

lemma present_accepted:
  "rotation_accepted (fst (present E f p)) \<Longrightarrow>
     presented_token p = active_token f \<and> active_token (snd (present E f p)) = fresh_token p"
  by (auto simp: present_def rotateRefreshFamilyV1_def Let_def split: option.splits if_splits)

lemma present_refused:
  "\<not> rotation_accepted (fst (present E f p)) \<Longrightarrow> active_token (snd (present E f p)) = active_token f"
  by (auto simp: present_def rotateRefreshFamilyV1_def Let_def split: option.splits if_splits)

lemma present_reuse:
  "rotation_code (fst (present E f p)) = REUSE_DETECTED \<Longrightarrow>
     token_family_status (snd (present E f p)) = Family_REVOKED"
  by (auto simp: present_def rotateRefreshFamilyV1_def Let_def split: option.splits if_splits)

lemma present_revoked:
  "token_family_status f = Family_REVOKED \<Longrightarrow>
     \<not> rotation_accepted (fst (present E f p))
     \<and> token_family_status (snd (present E f p)) = Family_REVOKED"
  by (simp add: present_def rotateRefreshFamilyV1_def Let_def split: option.splits)

lemma active_token_next:
  "active_token (snd (present E f p)) \<in> {active_token f, fresh_token p}"
  using present_accepted [of E f p] present_refused [of E f p] by blast

lemma revoked_answers:
  "token_family_status f = Family_REVOKED \<Longrightarrow> i < length ps \<Longrightarrow> \<not> rotation_accepted (answers E f ps ! i)"
  using present_revoked by (induction ps arbitrary: f i) (auto simp: nth_Cons')

lemma accepted_token:
  "i < length ps \<Longrightarrow> rotation_accepted (answers E f ps ! i) \<Longrightarrow>
     presented_token (ps ! i) \<in> insert (active_token f) (fresh_token ` set (take i ps))"
proof (induction ps arbitrary: f i)
  case (Cons p ps)
  show ?case
  proof (cases i)
    case 0
    with Cons.prems show ?thesis by (auto dest: present_accepted)
  next
    case (Suc j)
    with Cons.IH [of j "snd (present E f p)"] Cons.prems active_token_next [of E f p]
    show ?thesis by auto
  qed
qed simp

lemma accepted_once:
  assumes "distinct (active_token f # map fresh_token ps)" "i < j" "j < length ps"
    and "rotation_accepted (answers E f ps ! i)" "presented_token (ps ! j) = presented_token (ps ! i)"
  shows "\<not> rotation_accepted (answers E f ps ! j)"
  using assms
proof (induction ps arbitrary: f i j)
  case (Cons p ps)
  let ?f = "snd (present E f p)"
  obtain k where j: "j = Suc k" using Cons.prems by (cases j) auto
  show ?case
  proof (cases i)
    case 0
    then have a: "presented_token p = active_token f" "active_token ?f = fresh_token p"
      using Cons.prems(4) present_accepted [of E f p] by simp_all
    show ?thesis
    proof
      assume "rotation_accepted (answers E f (p # ps) ! j)"
      then have "presented_token (ps ! k) \<in> insert (active_token ?f) (fresh_token ` set (take k ps))"
        using accepted_token [of k ps E ?f] Cons.prems(3) j by simp
      then have "presented_token (ps ! k) \<in> fresh_token ` set (p # ps)"
        using a(2) by (auto dest: in_set_takeD)
      moreover have "presented_token (ps ! k) = active_token f" using Cons.prems(5) 0 j a(1) by simp
      ultimately show False using Cons.prems(1) by auto
    qed
  next
    case (Suc i')
    have "distinct (active_token ?f # map fresh_token ps)"
      using Cons.prems(1) active_token_next [of E f p] by auto
    with Cons.IH [of ?f i' k] Cons.prems(2-5) j Suc show ?thesis by simp
  qed
qed simp

lemma reuse_ends_family:
  assumes "i < j" "j < length ps" "rotation_code (answers E f ps ! i) = REUSE_DETECTED"
  shows "\<not> rotation_accepted (answers E f ps ! j)"
  using assms
proof (induction ps arbitrary: f i j)
  case (Cons p ps)
  obtain k where j: "j = Suc k" using Cons.prems by (cases j) auto
  show ?case
  proof (cases i)
    case 0
    with Cons.prems j show ?thesis using present_reuse revoked_answers by simp
  next
    case (Suc i')
    with Cons.IH [of i' k] Cons.prems j show ?thesis by simp
  qed
qed simp

section \<open>Histories of a device\<close>

inductive device_step :: "env \<Rightarrow> device_identity \<Rightarrow> device_identity \<Rightarrow> bool" for E where
  rotate_key: "rotateDeviceIdentityKeyV1 E d key t = Inr d' \<Longrightarrow> device_step E d d'"
| transition: "transitionDeviceIdentityV1 E d tr t = Inr d' \<Longrightarrow> device_step E d d'"

lemma rotate_key_iff:
  "rotateDeviceIdentityKeyV1 E d next_key t = Inr d' \<longleftrightarrow>
     (\<exists>now key. timestamp E t = Some now \<and> publicKey E next_key = Some key
        \<and> device_status d \<noteq> Device_REVOKED \<and> key \<noteq> device_publicKey d
        \<and> \<not> date_less (Date_parse E now) (Date_parse E (enrolledAt d))
        \<and> d' = (device_bumped d)\<lparr>device_publicKey := key\<rparr>)"
  unfolding rotateDeviceIdentityKeyV1_def result_simps by blast

lemma transition_iff:
  "transitionDeviceIdentityV1 E d tr t = Inr d' \<longleftrightarrow>
     (\<exists>now. timestamp E t = Some now \<and> (tr = ACTIVATE \<longrightarrow> device_status d = Device_PENDING)
        \<and> (tr = REVOKE \<longrightarrow> device_status d \<noteq> Device_REVOKED)
        \<and> d' = device_transitioned d tr now)"
  unfolding transitionDeviceIdentityV1_def result_simps by blast

definition device_edge :: "device_status \<Rightarrow> device_status \<Rightarrow> bool" where
  "device_edge s t \<longleftrightarrow> s \<noteq> Device_REVOKED \<and> \<not> (s = Device_ACTIVE \<and> t = Device_PENDING)"

definition device_key :: "device_identity \<Rightarrow> stable_id \<times> stable_id \<times> stable_id \<times> device_platform \<times> jsstr option \<times> jsstr"
  where
  "device_key d = (device_id d, device_userId d, device_organizationId d, device_platform d,
                   installationIdHash d, enrolledAt d)"

definition device_initial :: "env \<Rightarrow> device_identity \<Rightarrow> bool" where
  "device_initial E d \<longleftrightarrow> (\<exists>i. createDeviceIdentityV1 E i = Inr d)"

text \<open>
  An active device was activated, a revoked one is dated, and the security epoch moves in step
  with the revision: every accepted change of a device, of its key or of its status, has its own
  epoch, so that credentials bound to an earlier epoch are recognisably stale.
\<close>

definition device_ok :: "device_identity \<Rightarrow> bool" where
  "device_ok d \<longleftrightarrow>
     (device_status d = Device_ACTIVE \<longrightarrow> activatedAt d \<noteq> None)
     \<and> (device_status d = Device_REVOKED \<longleftrightarrow> device_revokedAt d \<noteq> None)
     \<and> (device_status d = Device_PENDING \<longrightarrow> activatedAt d = None)
     \<and> device_securityEpoch d = device_revision d
     \<and> device_publicKey d \<noteq> []"

lemma publicKey_nonempty: "publicKey E v = Some k \<Longrightarrow> k \<noteq> []"
  by (auto simp: publicKey_def split: jsval.splits if_splits)

lemma device_initial_ok: "device_initial E d \<Longrightarrow> device_ok d"
  by (auto simp: device_initial_def createDeviceIdentityV1_def result_simps device_ok_def
      dest: publicKey_nonempty)

lemma device_step_facts:
  assumes "device_step E d d'"
  shows "device_edge (device_status d) (device_status d') \<and> device_revision d' = js_succ (device_revision d)
     \<and> device_key d' = device_key d \<and> (device_ok d \<longrightarrow> device_ok d')"
  using assms
proof cases
  case (rotate_key key t)
  then obtain k where "device_status d \<noteq> Device_REVOKED" "k \<noteq> []"
    and d': "d' = (device_bumped d)\<lparr>device_publicKey := k\<rparr>"
    unfolding rotate_key_iff using publicKey_nonempty by blast
  then show ?thesis
    unfolding d' by (auto simp: device_edge_def device_key_def device_bumped_def device_ok_def)
next
  case (transition tr t)
  then obtain now where "tr = ACTIVATE \<longrightarrow> device_status d = Device_PENDING"
    "tr = REVOKE \<longrightarrow> device_status d \<noteq> Device_REVOKED" and d': "d' = device_transitioned d tr now"
    unfolding transition_iff by blast
  then show ?thesis
    unfolding d'
    by (cases tr) (auto simp: device_edge_def device_key_def device_bumped_def device_transitioned_def
        device_ok_def)
qed

interpretation devices: guarded "device_step E" device_status device_edge device_revision device_key
    "device_initial E" device_ok
  by unfold_locales (simp_all add: device_step_facts device_initial_ok)

section \<open>Enrollment challenges\<close>

inductive challenge_step :: "env \<Rightarrow> enrollment_challenge \<Rightarrow> enrollment_challenge \<Rightarrow> bool" for E where
  consume: "consumeDeviceEnrollmentChallengeV1 E c t = Inr c' \<Longrightarrow> challenge_step E c c'"

lemma consume_challenge_iff:
  "consumeDeviceEnrollmentChallengeV1 E c t = Inr c' \<longleftrightarrow>
     (\<exists>now. timestamp E t = Some now \<and> challenge_status c = Challenge_PENDING
        \<and> \<not> date_less (Date_parse E now) (Date_parse E (challenge_issuedAt c))
        \<and> \<not> date_le (Date_parse E (challenge_expiresAt c)) (Date_parse E now)
        \<and> c' = used_challenge c)"
  unfolding consumeDeviceEnrollmentChallengeV1_def result_simps by blast

interpretation challenges: single_use "challenge_step E" "\<lambda>c. challenge_status c = Challenge_PENDING"
  by unfold_locales (auto elim!: challenge_step.cases simp: consume_challenge_iff used_challenge_def)

section \<open>Samples\<close>

definition sample_challenge_input :: challenge_input where
  "sample_challenge_input =
     \<lparr>in_challengeId = sample_id CHR ''a'', in_challenge_userId = sample_id CHR ''b'',
      in_challenge_organizationId = sample_id CHR ''c'', in_challenge_platform = Str (js ''WINDOWS''),
      in_challenge_installationIdHash = sample_hash CHR ''a'', in_challengeDigest = sample_hash CHR ''b'',
      in_challenge_issuedAt = sample_time ''00'', in_challenge_expiresAt = sample_time ''30''\<rparr>"

definition sample_device :: device_identity where
  "sample_device =
     \<lparr>device_id = uuid_of CHR ''a'', device_userId = uuid_of CHR ''b'',
      device_organizationId = uuid_of CHR ''c'', device_platform = WINDOWS,
      device_publicKey = js ''key'', installationIdHash = None, device_status = Device_PENDING,
      device_securityEpoch = 1, enrolledAt = time_of ''00'', activatedAt = None,
      device_revokedAt = None, device_revision = 1\<rparr>"

lemma publicKey_plain: "plain s \<Longrightarrow> length s \<le> 2048 \<Longrightarrow> publicKey sample_env (Str (js s)) = Some (js s)"
proof -
  assume s: "plain s" "length s \<le> 2048"
  have "33 \<le> unat c \<and> unat c \<le> 126" if "c \<in> set (js s)" for c
    using s that by (auto simp: plain_def js_def list_all_iff unat_of_char)
  then have "\<not> containsControlCharacterV1 (js s)" "\<not> list_ex whitespace (js s)"
    by (fastforce simp: containsControlCharacterV1_def list_ex_iff whitespace_def in_range_def)+
  with s show ?thesis by (simp add: publicKey_def plain_def sample_env_def)
qed

lemma sample_device_initial: "device_initial sample_env sample_device"
proof -
  have "createDeviceIdentityV1 sample_env
      \<lparr>in_device_id = sample_id CHR ''a'', in_device_userId = sample_id CHR ''b'',
       in_device_organizationId = sample_id CHR ''c'', in_device_platform = Str (js ''WINDOWS''),
       in_device_publicKey = Str (js ''key''), in_installationIdHash = Undefined,
       in_enrolledAt = sample_time ''00''\<rparr> = Inr sample_device"
    by (simp add: createDeviceIdentityV1_def result_simps isDevicePlatform_def platforms_def
        publicKey_plain plain_def optional_def sample_device_def)
  then show ?thesis unfolding device_initial_def by blast
qed

definition sample_revoked_device :: device_identity where
  "sample_revoked_device = device_transitioned sample_device REVOKE (time_of ''01'')"

lemma sample_device_step: "device_step sample_env sample_device sample_revoked_device"
  by (rule device_step.transition [where tr = REVOKE and t = "sample_time ''01''"])
     (simp add: transition_iff sample_revoked_device_def sample_device_def)

section \<open>Properties\<close>

text \<open>
  C6: Refresh tokens are single-use. A family starts with one token and every rotation hands out a
  token that was not handed out before. Then, whatever is presented to the family in whatever
  order, a token that was accepted once is never accepted again; and after a presentation that was
  answered with \<open>REUSE_DETECTED\<close> nothing is accepted any more, so neither the thief nor the owner
  of a stolen token can go on.
\<close>

theorem refresh_tokens_single_use:
  assumes "distinct (active_token f # map fresh_token ps)" and "i < j" and "j < length ps"
  shows "(rotation_accepted (answers E f ps ! i) \<longrightarrow> presented_token (ps ! j) = presented_token (ps ! i)
            \<longrightarrow> \<not> rotation_accepted (answers E f ps ! j))
     \<and> (rotation_code (answers E f ps ! i) = REUSE_DETECTED \<longrightarrow> \<not> rotation_accepted (answers E f ps ! j))"
  using accepted_once [OF assms] reuse_ends_family [OF assms(2,3)] by blast

definition sample_presentation :: "char \<Rightarrow> char \<Rightarrow> presentation" where
  "sample_presentation c fresh =
     \<lparr>presented_now = sample_time ''01'', presented_token = uuid_of c, fresh_token = uuid_of fresh,
      presented_expiry = sample_time ''30''\<rparr>"

theorem refresh_tokens_single_use_witness:
  "let f = \<lparr>active_token = uuid_of CHR ''a'', token_family_status = Family_ACTIVE\<rparr>;
       ps = [sample_presentation CHR ''a'' CHR ''b'', sample_presentation CHR ''a'' CHR ''c'',
             sample_presentation CHR ''b'' CHR ''d'']
   in rotation_accepted (answers sample_env f ps ! 0) \<and> \<not> rotation_accepted (answers sample_env f ps ! 1)
      \<and> rotation_code (answers sample_env f ps ! 1) = REUSE_DETECTED
      \<and> \<not> rotation_accepted (answers sample_env f ps ! 2)"
proof -
  let ?f = "\<lparr>active_token = uuid_of CHR ''a'', token_family_status = Family_ACTIVE\<rparr>"
  let ?ps = "[sample_presentation CHR ''a'' CHR ''b'', sample_presentation CHR ''a'' CHR ''c'',
              sample_presentation CHR ''b'' CHR ''d'']"
  have d: "distinct (active_token ?f # map fresh_token ?ps)" by (simp add: sample_presentation_def)
  have "rotation_accepted (answers sample_env ?f ?ps ! 0)"
    "rotation_code (answers sample_env ?f ?ps ! 1) = REUSE_DETECTED"
    by (simp_all add: sample_presentation_def present_def rotateRefreshFamilyV1_def Let_def)
  moreover have "presented_token (?ps ! 1) = presented_token (?ps ! 0)"
    by (simp add: sample_presentation_def)
  ultimately show ?thesis
    using refresh_tokens_single_use [OF d, of 0 1 sample_env] refresh_tokens_single_use [OF d, of 1 2 sample_env]
    unfolding Let_def by simp
qed

text \<open>
  An accepted session is bounded and bound. It has proper times with access for at most 15
  minutes, inactivity within 90 days and not beyond the absolute end, the absolute end within 365
  days; a tenant session names an organization and a workspace, a platform session neither.
\<close>

theorem session_bounds:
  assumes "createSessionRecordV1 E i = Inr s"
  shows "\<exists>issued access inactivity absolute.
     Date_parse E (session_issuedAt s) = Some issued \<and> Date_parse E (accessExpiresAt s) = Some access
     \<and> Date_parse E (inactivityExpiresAt s) = Some inactivity
     \<and> Date_parse E (absoluteExpiresAt s) = Some absolute
     \<and> issued < access \<and> access \<le> issued + 900000
     \<and> issued < inactivity \<and> inactivity \<le> absolute \<and> inactivity \<le> issued + 7776000000
     \<and> absolute \<le> issued + 31536000000 \<and> session_status s = Session_ACTIVE
     \<and> (case principalKind s of
          TENANT \<Rightarrow> session_organizationId s \<noteq> None \<and> session_workspaceId s \<noteq> None
        | PLATFORM \<Rightarrow> session_organizationId s = None \<and> session_workspaceId s = None)"
  using assms
  by (auto simp: createSessionRecordV1_def Let_def result_simps durationWithin_def lifetime_within_iff
      ACCESS_TOKEN_MAX_SECONDS_V1_def optional_stable_def split: principal_kind.splits)

definition sample_session_input :: session_input where
  "sample_session_input =
     \<lparr>in_sessionId = sample_id CHR ''a'', in_session_userId = sample_id CHR ''b'',
      in_principalKind = Str (js ''PLATFORM''), in_session_organizationId = Undefined,
      in_session_workspaceId = Undefined, in_familyId = sample_id CHR ''c'',
      in_session_issuedAt = sample_time ''00'', in_accessExpiresAt = sample_time ''05'',
      in_inactivityExpiresAt = sample_time ''09'', in_absoluteExpiresAt = sample_time ''30''\<rparr>"

theorem session_bounds_witness:
  "\<exists>s access. createSessionRecordV1 sample_env sample_session_input = Inr s
     \<and> Date_parse sample_env (accessExpiresAt s) = Some access"
proof -
  have "\<exists>s. createSessionRecordV1 sample_env sample_session_input = Inr s"
    by (simp add: createSessionRecordV1_def sample_session_input_def Let_def result_simps
        principal_kinds_def nullish_def optional_stable_def durationWithin_def lifetime_within_iff
        ACCESS_TOKEN_MAX_SECONDS_V1_def)
  then show ?thesis using session_bounds by blast
qed

text \<open>
  Whatever sequence of key rotations, activations and revocations is accepted, a device keeps
  its identity, its security epoch moves with every change, an active device was activated, exactly
  a revoked device carries a revocation time, and a revoked device never changes again.
\<close>

theorem device_history:
  assumes "device_initial E d" and "(device_step E)\<^sup>*\<^sup>* d e"
  shows "device_ok e \<and> device_key e = device_key d
     \<and> (\<forall>f. (device_step E)\<^sup>*\<^sup>* e f \<longrightarrow> device_status e = Device_REVOKED \<longrightarrow> f = e)"
proof (intro conjI allI impI)
  show "device_ok e" using devices.reachable_invariant [OF assms(2,1)] .
  show "device_key e = device_key d" using devices.run_key [OF assms(2)] .
  fix f
  assume "(device_step E)\<^sup>*\<^sup>* e f" "device_status e = Device_REVOKED"
  then show "f = e" by (intro devices.final_stays) (auto simp: device_edge_def)
qed

theorem device_history_witness:
  "device_ok sample_revoked_device \<and> device_key sample_revoked_device = device_key sample_device"
  using device_history [OF sample_device_initial, of sample_revoked_device]
    r_into_rtranclp [of "device_step sample_env", OF sample_device_step] by blast

text \<open>
  An enrollment challenge is used at most once, and only while it lasts: of all attempts to
  consume it at most one is accepted, at a time that (where it is a proper time) is before its end
  and not before its issue, and its end lies at most five minutes after its issue.
\<close>

theorem challenge_single_use:
  assumes "createDeviceEnrollmentChallengeV1 E i = Inr c" and "(challenge_step E)\<^sup>*\<^sup>* c d"
  shows "lifetime_within E (challenge_issuedAt c) (challenge_expiresAt c) 300000
     \<and> (d = c \<or> (d = used_challenge c \<and> (\<forall>e. (challenge_step E)\<^sup>*\<^sup>* d e \<longrightarrow> e = d)
          \<and> (\<exists>t now. timestamp E t = Some now \<and> (\<forall>n. Date_parse E now = Some n \<longrightarrow>
               \<not> date_less (Some n) (Date_parse E (challenge_issuedAt c))
               \<and> date_less (Some n) (Date_parse E (challenge_expiresAt c))))))"
proof
  show life: "lifetime_within E (challenge_issuedAt c) (challenge_expiresAt c) 300000"
    using assms(1)
    by (auto simp: createDeviceEnrollmentChallengeV1_def result_simps durationWithin_def
        DEVICE_ENROLLMENT_CHALLENGE_MAX_SECONDS_V1_def)
  from challenges.spent_once [OF assms(2)]
  show "d = c \<or> (d = used_challenge c \<and> (\<forall>e. (challenge_step E)\<^sup>*\<^sup>* d e \<longrightarrow> e = d)
          \<and> (\<exists>t now. timestamp E t = Some now \<and> (\<forall>n. Date_parse E now = Some n \<longrightarrow>
               \<not> date_less (Some n) (Date_parse E (challenge_issuedAt c))
               \<and> date_less (Some n) (Date_parse E (challenge_expiresAt c)))))"
  proof
    assume step: "challenge_step E c d"
    then obtain t where "consumeDeviceEnrollmentChallengeV1 E c t = Inr d"
      by (auto elim: challenge_step.cases)
    then obtain now where "timestamp E t = Some now" "d = used_challenge c"
      "\<not> date_less (Date_parse E now) (Date_parse E (challenge_issuedAt c))"
      "\<not> date_le (Date_parse E (challenge_expiresAt c)) (Date_parse E now)"
      unfolding consume_challenge_iff by blast
    moreover from this life have "\<forall>n. Date_parse E now = Some n \<longrightarrow>
        \<not> date_less (Some n) (Date_parse E (challenge_issuedAt c))
        \<and> date_less (Some n) (Date_parse E (challenge_expiresAt c))"
      by (auto simp: lifetime_within_iff)
    ultimately show ?thesis using challenges.spent_stays [OF step] by blast
  qed simp
qed

theorem challenge_single_use_witness:
  "\<exists>c. createDeviceEnrollmentChallengeV1 sample_env sample_challenge_input = Inr c
     \<and> (\<forall>e. (challenge_step sample_env)\<^sup>*\<^sup>* c e \<longrightarrow> e = c \<or> e = used_challenge c)"
proof -
  have "\<exists>c. createDeviceEnrollmentChallengeV1 sample_env sample_challenge_input = Inr c"
    by (simp add: createDeviceEnrollmentChallengeV1_def sample_challenge_input_def result_simps
        isDevicePlatform_def platforms_def durationWithin_def lifetime_within_iff
        DEVICE_ENROLLMENT_CHALLENGE_MAX_SECONDS_V1_def)
  then show ?thesis using challenge_single_use by blast
qed

end
