(* ===== verification/Bearers.thy ===== *)
theory Bearers
  imports Identity
begin

text \<open>
  packages/domain/src/invitation/v1.ts and packages/domain/src/recovery/v1.ts: the two bearer
  tokens that are stored as digests and end with their first use. Both are instances of the
  single-use interface.
\<close>

section \<open>Invitations\<close>

datatype invitation_status = Invitation_ACTIVE | Invitation_REDEEMED | Invitation_REVOKED

record invitation_token =
  invitation_id :: stable_id
  invitation_membershipId :: stable_id
  invitation_principalId :: stable_id
  invitation_scope :: tenant_scope
  invitation_roleId :: role
  invitation_tokenDigest :: jsstr
  invitation_emailDigest :: jsstr
  invitation_issuedAt :: utc_timestamp
  invitation_expiresAt :: utc_timestamp
  invitation_status :: invitation_status
  invitation_consumedAt :: "utc_timestamp option"
  invitation_revision :: int

datatype invitation_error =
    Invitation_INVALID_IDENTIFIER
  | Invitation_INVALID_SCOPE
  | Invitation_INVALID_ROLE
  | Invitation_INVALID_DIGEST
  | Invitation_INVALID_TIMESTAMP
  | Invitation_INVALID_LIFETIME
  | Invitation_INVALID_STATE
  | Invitation_ALREADY_CONSUMED
  | Invitation_EXPIRED

record invitation_input =
  in_invitation_id :: jsval
  in_invitation_membershipId :: jsval
  in_invitation_principalId :: jsval
  in_invitation_scope :: jsval
  in_invitation_roleId :: jsval
  in_invitation_tokenDigest :: jsval
  in_invitation_emailDigest :: jsval
  in_invitation_issuedAt :: jsval
  in_invitation_expiresAt :: jsval
  in_invitation_revision :: jsval

definition positiveRevision :: "jsval \<Rightarrow> int option" where
  "positiveRevision v = positiveInteger v"

definition revision_or_one :: "jsval \<Rightarrow> int option" where
  "revision_or_one v = (if v = Undefined then Some 1 else positiveRevision v)"

definition createInvitationTokenV1 :: "env \<Rightarrow> invitation_input \<Rightarrow> invitation_error + invitation_token" where
  "createInvitationTokenV1 E i =
     require Invitation_INVALID_IDENTIFIER (stable E (in_invitation_id i)) (\<lambda>iid.
     require Invitation_INVALID_IDENTIFIER (stable E (in_invitation_membershipId i)) (\<lambda>membership.
     require Invitation_INVALID_IDENTIFIER (stable E (in_invitation_principalId i)) (\<lambda>user.
     require Invitation_INVALID_SCOPE (scope_value E (in_invitation_scope i)) (\<lambda>scope.
     require Invitation_INVALID_ROLE (isRole (in_invitation_roleId i)) (\<lambda>role.
     require Invitation_INVALID_DIGEST (sha256_hex (in_invitation_tokenDigest i)) (\<lambda>token_digest.
     require Invitation_INVALID_DIGEST (sha256_hex (in_invitation_emailDigest i)) (\<lambda>email_digest.
     require Invitation_INVALID_TIMESTAMP (timestamp E (in_invitation_issuedAt i)) (\<lambda>issued.
     require Invitation_INVALID_TIMESTAMP (timestamp E (in_invitation_expiresAt i)) (\<lambda>expires.
     require Invitation_INVALID_STATE (revision_or_one (in_invitation_revision i)) (\<lambda>revision.
     reject_if (\<not> lifetime_within E issued expires (INVITATION_MAX_SECONDS_V1 * 1000))
       Invitation_INVALID_LIFETIME (
     accepted
       \<lparr>invitation_id = iid, invitation_membershipId = membership, invitation_principalId = user,
        invitation_scope = scope, invitation_roleId = role, invitation_tokenDigest = token_digest,
        invitation_emailDigest = email_digest, invitation_issuedAt = issued,
        invitation_expiresAt = expires, invitation_status = Invitation_ACTIVE,
        invitation_consumedAt = None, invitation_revision = revision\<rparr>)))))))))))"

definition redeemed :: "invitation_token \<Rightarrow> utc_timestamp \<Rightarrow> invitation_token" where
  "redeemed t now = t\<lparr>invitation_status := Invitation_REDEEMED, invitation_consumedAt := Some now,
                       invitation_revision := js_succ (invitation_revision t)\<rparr>"

definition consumeInvitationTokenV1 ::
    "env \<Rightarrow> invitation_token \<Rightarrow> jsval \<Rightarrow> invitation_error + invitation_token" where
  "consumeInvitationTokenV1 E t at_time =
     require Invitation_INVALID_TIMESTAMP (timestamp E at_time) (\<lambda>now.
     reject_if (invitation_status t = Invitation_REDEEMED) Invitation_ALREADY_CONSUMED (
     reject_if (invitation_status t \<noteq> Invitation_ACTIVE) Invitation_INVALID_STATE (
     reject_if (Date_parse E now = None
                \<or> date_less (Date_parse E now) (Date_parse E (invitation_issuedAt t)))
       Invitation_INVALID_TIMESTAMP (
     reject_if (date_le (Date_parse E (invitation_expiresAt t)) (Date_parse E now))
       Invitation_EXPIRED (
     accepted (redeemed t now))))))"

definition invitation_revoked :: "invitation_token \<Rightarrow> invitation_token" where
  "invitation_revoked t = t\<lparr>invitation_status := Invitation_REVOKED,
                             invitation_revision := js_succ (invitation_revision t)\<rparr>"

definition revokeInvitationTokenV1 ::
    "env \<Rightarrow> invitation_token \<Rightarrow> jsval \<Rightarrow> invitation_error + invitation_token" where
  "revokeInvitationTokenV1 E t at_time =
     require Invitation_INVALID_TIMESTAMP (timestamp E at_time) (\<lambda>now.
     reject_if (invitation_status t \<noteq> Invitation_ACTIVE) Invitation_INVALID_STATE (
     reject_if (date_less (Date_parse E now) (Date_parse E (invitation_issuedAt t)))
       Invitation_INVALID_TIMESTAMP (
     accepted (invitation_revoked t))))"

inductive invitation_step :: "env \<Rightarrow> invitation_token \<Rightarrow> invitation_token \<Rightarrow> bool" for E where
  consume: "consumeInvitationTokenV1 E t now = Inr u \<Longrightarrow> invitation_step E t u"
| revoke: "revokeInvitationTokenV1 E t now = Inr u \<Longrightarrow> invitation_step E t u"

lemma consume_invitation_iff:
  "consumeInvitationTokenV1 E t at_time = Inr u \<longleftrightarrow>
     (\<exists>now. timestamp E at_time = Some now \<and> invitation_status t = Invitation_ACTIVE
        \<and> Date_parse E now \<noteq> None
        \<and> \<not> date_less (Date_parse E now) (Date_parse E (invitation_issuedAt t))
        \<and> \<not> date_le (Date_parse E (invitation_expiresAt t)) (Date_parse E now)
        \<and> u = redeemed t now)"
  unfolding consumeInvitationTokenV1_def result_simps by auto

lemma revoke_invitation_iff:
  "revokeInvitationTokenV1 E t at_time = Inr u \<longleftrightarrow>
     (\<exists>now. timestamp E at_time = Some now \<and> invitation_status t = Invitation_ACTIVE
        \<and> \<not> date_less (Date_parse E now) (Date_parse E (invitation_issuedAt t))
        \<and> u = invitation_revoked t)"
  unfolding revokeInvitationTokenV1_def result_simps by blast

inductive_cases invitation_step_cases: "invitation_step E t u"

interpretation invitations: single_use "invitation_step E" "\<lambda>t. invitation_status t = Invitation_ACTIVE"
  by unfold_locales
     (auto elim!: invitation_step_cases simp: consume_invitation_iff revoke_invitation_iff
       redeemed_def invitation_revoked_def)

lemma invitation_step_window:
  assumes "invitation_step E t u" "lifetime_within E (invitation_issuedAt t) (invitation_expiresAt t) l"
  shows "u = invitation_revoked t
        \<or> (\<exists>now n a b. u = redeemed t now \<and> Date_parse E now = Some n
             \<and> Date_parse E (invitation_issuedAt t) = Some a
             \<and> Date_parse E (invitation_expiresAt t) = Some b \<and> a \<le> n \<and> n < b)"
  using assms(1)
proof cases
  case (consume at_time)
  then obtain now n where "u = redeemed t now" "Date_parse E now = Some n"
    "\<not> date_less (Some n) (Date_parse E (invitation_issuedAt t))"
    "\<not> date_le (Date_parse E (invitation_expiresAt t)) (Some n)"
    by (auto simp: consume_invitation_iff)
  with assms(2) show ?thesis by (force simp: lifetime_within_iff)
next
  case (revoke at_time)
  then show ?thesis by (auto simp: revoke_invitation_iff)
qed

section \<open>Recovery challenges\<close>

definition RECOVERY_CHALLENGE_MAX_SECONDS_V1 :: int where
  "RECOVERY_CHALLENGE_MAX_SECONDS_V1 = 60 * 60"

datatype recovery_status = Recovery_ACTIVE | Recovery_CONSUMED | Recovery_REVOKED

record recovery_challenge =
  recovery_id :: stable_id
  recovery_userId :: stable_id
  recovery_tokenDigest :: jsstr
  recovery_emailDigest :: jsstr
  recovery_issuedAt :: utc_timestamp
  recovery_expiresAt :: utc_timestamp
  recovery_status :: recovery_status
  recovery_consumedAt :: "utc_timestamp option"
  recovery_revokedAt :: "utc_timestamp option"
  recovery_revision :: int

datatype recovery_error =
    Recovery_INVALID_IDENTIFIER
  | Recovery_INVALID_DIGEST
  | Recovery_INVALID_TIMESTAMP
  | Recovery_INVALID_LIFETIME
  | Recovery_INVALID_STATE
  | Recovery_ALREADY_TERMINAL
  | Recovery_EXPIRED

record recovery_input =
  in_recovery_id :: jsval
  in_recovery_userId :: jsval
  in_recovery_tokenDigest :: jsval
  in_recovery_emailDigest :: jsval
  in_recovery_issuedAt :: jsval
  in_recovery_expiresAt :: jsval
  in_recovery_revision :: jsval

definition createRecoveryChallengeV1 :: "env \<Rightarrow> recovery_input \<Rightarrow> recovery_error + recovery_challenge" where
  "createRecoveryChallengeV1 E i =
     require Recovery_INVALID_IDENTIFIER (stable E (in_recovery_id i)) (\<lambda>rid.
     require Recovery_INVALID_IDENTIFIER (stable E (in_recovery_userId i)) (\<lambda>user.
     require Recovery_INVALID_DIGEST (sha256_hex (in_recovery_tokenDigest i)) (\<lambda>token_digest.
     require Recovery_INVALID_DIGEST (sha256_hex (in_recovery_emailDigest i)) (\<lambda>email_digest.
     require Recovery_INVALID_TIMESTAMP (timestamp E (in_recovery_issuedAt i)) (\<lambda>issued.
     require Recovery_INVALID_TIMESTAMP (timestamp E (in_recovery_expiresAt i)) (\<lambda>expires.
     require Recovery_INVALID_STATE (revision_or_one (in_recovery_revision i)) (\<lambda>revision.
     reject_if (\<not> lifetime_within E issued expires (RECOVERY_CHALLENGE_MAX_SECONDS_V1 * 1000))
       Recovery_INVALID_LIFETIME (
     accepted
       \<lparr>recovery_id = rid, recovery_userId = user, recovery_tokenDigest = token_digest,
        recovery_emailDigest = email_digest, recovery_issuedAt = issued, recovery_expiresAt = expires,
        recovery_status = Recovery_ACTIVE, recovery_consumedAt = None, recovery_revokedAt = None,
        recovery_revision = revision\<rparr>))))))))"

definition recovery_consumed :: "recovery_challenge \<Rightarrow> utc_timestamp \<Rightarrow> recovery_challenge" where
  "recovery_consumed c now = c\<lparr>recovery_status := Recovery_CONSUMED, recovery_consumedAt := Some now,
                                recovery_revision := js_succ (recovery_revision c)\<rparr>"

definition consumeRecoveryChallengeV1 ::
    "env \<Rightarrow> recovery_challenge \<Rightarrow> jsval \<Rightarrow> recovery_error + recovery_challenge" where
  "consumeRecoveryChallengeV1 E c at_time =
     require Recovery_INVALID_TIMESTAMP (timestamp E at_time) (\<lambda>now.
     reject_if (recovery_status c \<noteq> Recovery_ACTIVE) Recovery_ALREADY_TERMINAL (
     reject_if (Date_parse E now = None
                \<or> date_less (Date_parse E now) (Date_parse E (recovery_issuedAt c)))
       Recovery_INVALID_TIMESTAMP (
     reject_if (date_le (Date_parse E (recovery_expiresAt c)) (Date_parse E now)) Recovery_EXPIRED (
     accepted (recovery_consumed c now)))))"

definition recovery_revoked :: "recovery_challenge \<Rightarrow> utc_timestamp \<Rightarrow> recovery_challenge" where
  "recovery_revoked c now = c\<lparr>recovery_status := Recovery_REVOKED, recovery_revokedAt := Some now,
                               recovery_revision := js_succ (recovery_revision c)\<rparr>"

definition revokeRecoveryChallengeV1 ::
    "env \<Rightarrow> recovery_challenge \<Rightarrow> jsval \<Rightarrow> recovery_error + recovery_challenge" where
  "revokeRecoveryChallengeV1 E c at_time =
     require Recovery_INVALID_TIMESTAMP (timestamp E at_time) (\<lambda>now.
     reject_if (recovery_status c \<noteq> Recovery_ACTIVE) Recovery_ALREADY_TERMINAL (
     accepted (recovery_revoked c now)))"

inductive recovery_step :: "env \<Rightarrow> recovery_challenge \<Rightarrow> recovery_challenge \<Rightarrow> bool" for E where
  consume: "consumeRecoveryChallengeV1 E c now = Inr d \<Longrightarrow> recovery_step E c d"
| revoke: "revokeRecoveryChallengeV1 E c now = Inr d \<Longrightarrow> recovery_step E c d"

lemma consume_recovery_iff:
  "consumeRecoveryChallengeV1 E c at_time = Inr d \<longleftrightarrow>
     (\<exists>now. timestamp E at_time = Some now \<and> recovery_status c = Recovery_ACTIVE
        \<and> Date_parse E now \<noteq> None
        \<and> \<not> date_less (Date_parse E now) (Date_parse E (recovery_issuedAt c))
        \<and> \<not> date_le (Date_parse E (recovery_expiresAt c)) (Date_parse E now)
        \<and> d = recovery_consumed c now)"
  unfolding consumeRecoveryChallengeV1_def result_simps by auto

lemma revoke_recovery_iff:
  "revokeRecoveryChallengeV1 E c at_time = Inr d \<longleftrightarrow>
     (\<exists>now. timestamp E at_time = Some now \<and> recovery_status c = Recovery_ACTIVE
        \<and> d = recovery_revoked c now)"
  unfolding revokeRecoveryChallengeV1_def result_simps by blast

inductive_cases recovery_step_cases: "recovery_step E c d"

interpretation recoveries: single_use "recovery_step E" "\<lambda>c. recovery_status c = Recovery_ACTIVE"
  by unfold_locales
     (auto elim!: recovery_step_cases simp: consume_recovery_iff revoke_recovery_iff
       recovery_consumed_def recovery_revoked_def)

lemma recovery_step_window:
  assumes "recovery_step E c d" "lifetime_within E (recovery_issuedAt c) (recovery_expiresAt c) l"
  shows "(\<exists>now. d = recovery_revoked c now)
        \<or> (\<exists>now n a b. d = recovery_consumed c now \<and> Date_parse E now = Some n
             \<and> Date_parse E (recovery_issuedAt c) = Some a
             \<and> Date_parse E (recovery_expiresAt c) = Some b \<and> a \<le> n \<and> n < b)"
  using assms(1)
proof cases
  case (consume at_time)
  then obtain now n where "d = recovery_consumed c now" "Date_parse E now = Some n"
    "\<not> date_less (Some n) (Date_parse E (recovery_issuedAt c))"
    "\<not> date_le (Date_parse E (recovery_expiresAt c)) (Some n)"
    by (auto simp: consume_recovery_iff)
  with assms(2) show ?thesis by (force simp: lifetime_within_iff)
next
  case (revoke at_time)
  then show ?thesis by (auto simp: revoke_recovery_iff)
qed

section \<open>Properties\<close>

text \<open>
  An invitation is answered at most once, and only while it lasts. From a freshly created
  invitation, which lasts at most seven days, every history of consume and revoke calls accepts at
  most one of them; a redeemed invitation was redeemed at a proper time from its issue to before
  its end, and still names the membership, principal, scope and role it was issued for.
\<close>

theorem invitation_single_use:
  assumes "createInvitationTokenV1 E i = Inr t" and "(invitation_step E)\<^sup>*\<^sup>* t u"
  shows "lifetime_within E (invitation_issuedAt t) (invitation_expiresAt t) 604800000
     \<and> (u = t \<or> u = invitation_revoked t
        \<or> (\<exists>now n a b. u = redeemed t now \<and> Date_parse E now = Some n
             \<and> Date_parse E (invitation_issuedAt t) = Some a
             \<and> Date_parse E (invitation_expiresAt t) = Some b \<and> a \<le> n \<and> n < b))
     \<and> (u \<noteq> t \<longrightarrow> (\<forall>v. (invitation_step E)\<^sup>*\<^sup>* u v \<longrightarrow> v = u))"
proof (intro conjI impI allI)
  show l: "lifetime_within E (invitation_issuedAt t) (invitation_expiresAt t) 604800000"
    using assms(1)
    by (auto simp: createInvitationTokenV1_def result_simps INVITATION_MAX_SECONDS_V1_def)
  show "u = t \<or> u = invitation_revoked t
        \<or> (\<exists>now n a b. u = redeemed t now \<and> Date_parse E now = Some n
             \<and> Date_parse E (invitation_issuedAt t) = Some a
             \<and> Date_parse E (invitation_expiresAt t) = Some b \<and> a \<le> n \<and> n < b)"
    using invitations.spent_once [OF assms(2)] invitation_step_window [OF _ l] by blast
  fix v
  assume "u \<noteq> t" "(invitation_step E)\<^sup>*\<^sup>* u v"
  with invitations.spent_once [OF assms(2)] invitations.spent_stays show "v = u" by blast
qed

definition sample_invitation_input :: invitation_input where
  "sample_invitation_input =
     \<lparr>in_invitation_id = sample_id CHR ''a'', in_invitation_membershipId = sample_id CHR ''b'',
      in_invitation_principalId = sample_id CHR ''c'',
      in_invitation_scope = sample_scope CHR ''a'' CHR ''b'', in_invitation_roleId = Str (js ''viewer''),
      in_invitation_tokenDigest = sample_hash CHR ''a'', in_invitation_emailDigest = sample_hash CHR ''b'',
      in_invitation_issuedAt = sample_time ''00'', in_invitation_expiresAt = sample_time ''30'',
      in_invitation_revision = Undefined\<rparr>"

theorem invitation_single_use_witness:
  "\<exists>t. createInvitationTokenV1 sample_env sample_invitation_input = Inr t
     \<and> invitation_step sample_env t (redeemed t (time_of ''05''))
     \<and> (\<forall>v. (invitation_step sample_env)\<^sup>*\<^sup>* (redeemed t (time_of ''05'')) v
           \<longrightarrow> v = redeemed t (time_of ''05''))"
proof -
  have "\<exists>t. createInvitationTokenV1 sample_env sample_invitation_input = Inr t
      \<and> invitation_status t = Invitation_ACTIVE \<and> invitation_issuedAt t = time_of ''00''
      \<and> invitation_expiresAt t = time_of ''30''"
    by (simp add: createInvitationTokenV1_def sample_invitation_input_def result_simps isRole_def
        INITIAL_ROLE_IDS_V1_def revision_or_one_def lifetime_within_iff INVITATION_MAX_SECONDS_V1_def)
  then obtain t where t: "createInvitationTokenV1 sample_env sample_invitation_input = Inr t"
    "invitation_status t = Invitation_ACTIVE" "invitation_issuedAt t = time_of ''00''"
    "invitation_expiresAt t = time_of ''30''" by blast
  have "consumeInvitationTokenV1 sample_env t (sample_time ''05'') = Inr (redeemed t (time_of ''05''))"
    using t by (simp add: consume_invitation_iff)
  then have step: "invitation_step sample_env t (redeemed t (time_of ''05''))" by (rule invitation_step.consume)
  have "redeemed t (time_of ''05'') \<noteq> t"
    using t(2) by (auto simp: redeemed_def dest: arg_cong [where f = invitation_status])
  with invitation_single_use [OF t(1), of "redeemed t (time_of ''05'')"] step t(1) show ?thesis by blast
qed

text \<open>
  A recovery challenge is answered at most once, lasts at most an hour, and is consumed only at
  a proper time from its issue to before its end; consumed and revoked are exclusive and final.
\<close>

theorem recovery_single_use:
  assumes "createRecoveryChallengeV1 E i = Inr c" and "(recovery_step E)\<^sup>*\<^sup>* c d"
  shows "lifetime_within E (recovery_issuedAt c) (recovery_expiresAt c) 3600000
     \<and> (d = c \<or> (\<exists>now. d = recovery_revoked c now)
        \<or> (\<exists>now n a b. d = recovery_consumed c now \<and> Date_parse E now = Some n
             \<and> Date_parse E (recovery_issuedAt c) = Some a
             \<and> Date_parse E (recovery_expiresAt c) = Some b \<and> a \<le> n \<and> n < b))
     \<and> (d \<noteq> c \<longrightarrow> (\<forall>e. (recovery_step E)\<^sup>*\<^sup>* d e \<longrightarrow> e = d))"
proof (intro conjI impI allI)
  show l: "lifetime_within E (recovery_issuedAt c) (recovery_expiresAt c) 3600000"
    using assms(1)
    by (auto simp: createRecoveryChallengeV1_def result_simps RECOVERY_CHALLENGE_MAX_SECONDS_V1_def)
  show "d = c \<or> (\<exists>now. d = recovery_revoked c now)
        \<or> (\<exists>now n a b. d = recovery_consumed c now \<and> Date_parse E now = Some n
             \<and> Date_parse E (recovery_issuedAt c) = Some a
             \<and> Date_parse E (recovery_expiresAt c) = Some b \<and> a \<le> n \<and> n < b)"
    using recoveries.spent_once [OF assms(2)] recovery_step_window [OF _ l] by blast
  fix e
  assume "d \<noteq> c" "(recovery_step E)\<^sup>*\<^sup>* d e"
  with recoveries.spent_once [OF assms(2)] recoveries.spent_stays show "e = d" by blast
qed

definition sample_recovery_input :: recovery_input where
  "sample_recovery_input =
     \<lparr>in_recovery_id = sample_id CHR ''a'', in_recovery_userId = sample_id CHR ''b'',
      in_recovery_tokenDigest = sample_hash CHR ''a'', in_recovery_emailDigest = sample_hash CHR ''b'',
      in_recovery_issuedAt = sample_time ''00'', in_recovery_expiresAt = sample_time ''30'',
      in_recovery_revision = int_num 3\<rparr>"

theorem recovery_single_use_witness:
  "\<exists>c. createRecoveryChallengeV1 sample_env sample_recovery_input = Inr c
     \<and> (\<forall>d. (recovery_step sample_env)\<^sup>*\<^sup>* c d \<longrightarrow> d \<noteq> c \<longrightarrow>
          (\<forall>e. (recovery_step sample_env)\<^sup>*\<^sup>* d e \<longrightarrow> e = d))"
proof -
  have "\<exists>c. createRecoveryChallengeV1 sample_env sample_recovery_input = Inr c"
    by (simp add: createRecoveryChallengeV1_def sample_recovery_input_def result_simps
        revision_or_one_def positiveRevision_def positiveInteger_def safe_integer_from_def
        max_safe_integer_def lifetime_within_iff RECOVERY_CHALLENGE_MAX_SECONDS_V1_def)
  then show ?thesis using recovery_single_use by blast
qed

end
