(* ===== verification/Mfa.thy ===== *)
theory Mfa
  imports Sessions
begin

text \<open>
  packages/domain/src/mfa/v1.ts: MFA factors, one-time recovery codes and step-up. The comparison
  of a presented with a stored code digest is a port of the caller and a parameter here.
\<close>

section \<open>Data\<close>

datatype factor_status = Factor_PENDING | Factor_ACTIVE | Factor_REVOKED

datatype code_status = Code_AVAILABLE | Code_USED | Code_REVOKED

datatype step_up_risk = Risk_NORMAL | Risk_HIGH | Risk_CRITICAL

record mfa_factor =
  factor_id :: stable_id
  factor_userId :: stable_id
  factor_method :: step_up_method
  secretReference :: jsstr
  factor_status :: factor_status
  factor_enrolledAt :: utc_timestamp
  factor_verifiedAt :: "utc_timestamp option"
  factor_revokedAt :: "utc_timestamp option"
  factor_revision :: int

record recovery_code =
  code_id :: stable_id
  code_userId :: stable_id
  code_digest :: jsstr
  code_status :: code_status
  code_createdAt :: utc_timestamp
  code_usedAt :: "utc_timestamp option"
  code_revision :: int

record mfa_state =
  factors :: "mfa_factor list"
  recoveryCodes :: "recovery_code list"

datatype mfa_error =
    Mfa_INVALID_IDENTIFIER
  | Mfa_INVALID_TIMESTAMP
  | Mfa_INVALID_TEXT
  | Mfa_INVALID_METHOD
  | Mfa_INVALID_STATE
  | Mfa_INVALID_REVISION
  | Mfa_FACTOR_NOT_ACTIVE
  | Mfa_FACTOR_PROOF_INVALID
  | Mfa_RECOVERY_CODE_INVALID
  | Mfa_RECOVERY_CODE_USED
  | Mfa_MFA_REENROLLMENT_REQUIRED
  | Mfa_STEP_UP_REQUIRED

section \<open>Factors\<close>

record factor_input =
  in_factor_id :: jsval
  in_factor_userId :: jsval
  in_factor_method :: jsval
  in_secretReference :: jsval
  in_factor_enrolledAt :: jsval
  in_factor_revision :: jsval

definition methods :: "(string \<times> step_up_method) list" where
  "methods = [(''TOTP'', Step_up_TOTP), (''WEBAUTHN'', Step_up_WEBAUTHN)]"

definition integer_or_one :: "jsval \<Rightarrow> int option" where
  "integer_or_one v = (if v = Undefined then Some 1 else positiveInteger v)"

definition createMfaFactorV1 :: "env \<Rightarrow> factor_input \<Rightarrow> mfa_error + mfa_factor" where
  "createMfaFactorV1 E i =
     require Mfa_INVALID_IDENTIFIER (stable E (in_factor_id i)) (\<lambda>fid.
     require Mfa_INVALID_IDENTIFIER (stable E (in_factor_userId i)) (\<lambda>user.
     require Mfa_INVALID_METHOD (one_of methods (in_factor_method i)) (\<lambda>meth.
     require Mfa_INVALID_TEXT (text_value E (in_secretReference i) 512) (\<lambda>secret.
     require Mfa_INVALID_TIMESTAMP (timestamp E (in_factor_enrolledAt i)) (\<lambda>enrolled.
     require Mfa_INVALID_REVISION (integer_or_one (in_factor_revision i)) (\<lambda>revision.
     accepted
       \<lparr>factor_id = fid, factor_userId = user, factor_method = meth, secretReference = secret,
        factor_status = Factor_PENDING, factor_enrolledAt = enrolled, factor_verifiedAt = None,
        factor_revokedAt = None, factor_revision = revision\<rparr>))))))"

datatype factor_transition = VERIFY_factor | REVOKE_factor

definition factor_transitioned :: "mfa_factor \<Rightarrow> factor_transition \<Rightarrow> utc_timestamp \<Rightarrow> mfa_factor" where
  "factor_transitioned f t now =
     (case t of
        VERIFY_factor \<Rightarrow> f\<lparr>factor_status := Factor_ACTIVE, factor_verifiedAt := Some now,
                           factor_revision := js_succ (factor_revision f)\<rparr>
      | REVOKE_factor \<Rightarrow> f\<lparr>factor_status := Factor_REVOKED, factor_revokedAt := Some now,
                           factor_revision := js_succ (factor_revision f)\<rparr>)"

definition transitionMfaFactorV1 ::
    "env \<Rightarrow> mfa_factor \<Rightarrow> factor_transition \<Rightarrow> jsval \<Rightarrow> mfa_error + mfa_factor" where
  "transitionMfaFactorV1 E f t at_time =
     require Mfa_INVALID_TIMESTAMP (timestamp E at_time) (\<lambda>now.
     reject_if (t = VERIFY_factor \<and> factor_status f \<noteq> Factor_PENDING) Mfa_INVALID_STATE (
     reject_if (t = REVOKE_factor \<and> factor_status f = Factor_REVOKED) Mfa_INVALID_STATE (
     accepted (factor_transitioned f t now))))"

section \<open>Recovery codes\<close>

record code_input =
  in_code_id :: jsval
  in_code_userId :: jsval
  in_code_digest :: jsval
  in_code_createdAt :: jsval
  in_code_revision :: jsval

definition createRecoveryCodeV1 :: "env \<Rightarrow> code_input \<Rightarrow> mfa_error + recovery_code" where
  "createRecoveryCodeV1 E i =
     require Mfa_INVALID_IDENTIFIER (stable E (in_code_id i)) (\<lambda>cid.
     require Mfa_INVALID_IDENTIFIER (stable E (in_code_userId i)) (\<lambda>user.
     require Mfa_INVALID_TEXT (text_value E (in_code_digest i) 256) (\<lambda>digest.
     require Mfa_INVALID_TIMESTAMP (timestamp E (in_code_createdAt i)) (\<lambda>created.
     require Mfa_INVALID_REVISION (integer_or_one (in_code_revision i)) (\<lambda>revision.
     accepted
       \<lparr>code_id = cid, code_userId = user, code_digest = digest, code_status = Code_AVAILABLE,
        code_createdAt = created, code_usedAt = None, code_revision = revision\<rparr>)))))"

definition used_code :: "recovery_code \<Rightarrow> utc_timestamp \<Rightarrow> recovery_code" where
  "used_code c now = c\<lparr>code_status := Code_USED, code_usedAt := Some now,
                        code_revision := js_succ (code_revision c)\<rparr>"

definition redeemRecoveryCodeV1 ::
    "env \<Rightarrow> (jsstr \<Rightarrow> jsstr \<Rightarrow> bool) \<Rightarrow> mfa_state \<Rightarrow> jsval \<Rightarrow> jsval \<Rightarrow> jsval \<Rightarrow> mfa_error + mfa_state" where
  "redeemRecoveryCodeV1 E matcher state userInput digestInput at_time =
     require Mfa_INVALID_IDENTIFIER (stable E userInput) (\<lambda>user.
     require Mfa_RECOVERY_CODE_INVALID (text_value E digestInput 256) (\<lambda>presented.
     require Mfa_INVALID_TIMESTAMP (timestamp E at_time) (\<lambda>now.
     case List.find (\<lambda>c. code_userId c = user \<and> code_status c = Code_AVAILABLE
                         \<and> matcher presented (code_digest c)) (recoveryCodes state) of
       None \<Rightarrow>
         rejected (if list_ex (\<lambda>c. code_userId c = user \<and> matcher presented (code_digest c))
                        (recoveryCodes state)
                   then Mfa_RECOVERY_CODE_USED else Mfa_RECOVERY_CODE_INVALID)
     | Some candidate \<Rightarrow>
         accepted (state\<lparr>recoveryCodes :=
           map (\<lambda>c. if code_id c = code_id candidate then used_code candidate now else c)
             (recoveryCodes state)\<rparr>))))"

section \<open>Step-up\<close>

definition step_up_risks :: "(string \<times> step_up_risk) list" where
  "step_up_risks = [(''NORMAL'', Risk_NORMAL), (''HIGH'', Risk_HIGH), (''CRITICAL'', Risk_CRITICAL)]"

definition requiresStepUpV1 ::
    "env \<Rightarrow> jsval \<Rightarrow> step_up_assertion option \<Rightarrow> stable_id \<Rightarrow> jsval \<Rightarrow> bool \<Rightarrow> mfa_error + unit" where
  "requiresStepUpV1 E riskInput assertion user now reenroll =
     require Mfa_INVALID_STATE (one_of step_up_risks riskInput) (\<lambda>risk.
     reject_if (risk \<noteq> Risk_NORMAL \<and> reenroll) Mfa_MFA_REENROLLMENT_REQUIRED (
     if risk = Risk_NORMAL then accepted ()
     else if (case assertion of None \<Rightarrow> False | Some a \<Rightarrow> isFreshStepUpV1 E a user now) then accepted ()
     else rejected Mfa_STEP_UP_REQUIRED))"

definition hasActiveMfaFactorV1 :: "mfa_state \<Rightarrow> stable_id \<Rightarrow> identity_error + bool" where
  "hasActiveMfaFactorV1 state user =
     accepted (list_ex (\<lambda>f. factor_userId f = user \<and> factor_status f = Factor_ACTIVE) (factors state))"

section \<open>Facts\<close>

lemma redeem_accepted:
  assumes "redeemRecoveryCodeV1 E matcher s u d t = Inr s'"
  obtains user presented now c where
    "stable E u = Some user" "text_value E d 256 = Some presented" "timestamp E t = Some now"
    "c \<in> set (recoveryCodes s)" "code_userId c = user" "code_status c = Code_AVAILABLE"
    "matcher presented (code_digest c)"
    "s' = s\<lparr>recoveryCodes := map (\<lambda>x. if code_id x = code_id c then used_code c now else x) (recoveryCodes s)\<rparr>"
proof -
  obtain user presented now where k: "stable E u = Some user" "text_value E d 256 = Some presented"
    "timestamp E t = Some now"
    using assms unfolding redeemRecoveryCodeV1_def result_simps by blast
  obtain c where f: "List.find (\<lambda>c. code_userId c = user \<and> code_status c = Code_AVAILABLE
      \<and> matcher presented (code_digest c)) (recoveryCodes s) = Some c"
    using assms k unfolding redeemRecoveryCodeV1_def by (auto simp: result_simps split: option.splits)
  from find_SomeD [OF f] k assms f show thesis
    by (intro that [of user presented now c]) (auto simp: redeemRecoveryCodeV1_def result_simps)
qed

text \<open>The codes of a state that can still be redeemed.\<close>

definition available :: "mfa_state \<Rightarrow> stable_id set" where
  "available s = code_id ` {c \<in> set (recoveryCodes s). code_status c = Code_AVAILABLE}"

lemma used_code_simps [simp]:
  "code_id (used_code c t) = code_id c" "code_status (used_code c t) = Code_USED"
  "code_userId (used_code c t) = code_userId c" "code_digest (used_code c t) = code_digest c"
  by (simp_all add: used_code_def)

lemma redeem_ids:
  "redeemRecoveryCodeV1 E matcher s u d t = Inr s' \<Longrightarrow> map code_id (recoveryCodes s') = map code_id (recoveryCodes s)"
  by (erule redeem_accepted) (simp add: comp_def)

section \<open>Properties\<close>

text \<open>
  A recovery code is redeemed once. In a state whose codes have distinct identifiers an
  accepted redemption uses up exactly one available code, which belongs to the user and matches
  the presented digest; all other codes and all factors stay as they were; the set of available
  codes loses that one code, so a state with n codes supports at most n redemptions.
\<close>

theorem recovery_code_single_use:
  assumes "redeemRecoveryCodeV1 E matcher s u d t = Inr s'"
    and "distinct (map code_id (recoveryCodes s))"
  shows "\<exists>c \<in> set (recoveryCodes s). \<exists>presented now.
     text_value E d 256 = Some presented \<and> matcher presented (code_digest c)
     \<and> stable E u = Some (code_userId c) \<and> timestamp E t = Some now
     \<and> available s' = available s - {code_id c} \<and> code_id c \<in> available s
     \<and> (\<forall>x \<in> set (recoveryCodes s). x \<noteq> c \<longrightarrow> x \<in> set (recoveryCodes s'))
     \<and> used_code c now \<in> set (recoveryCodes s')
     \<and> factors s' = factors s \<and> distinct (map code_id (recoveryCodes s'))"
  using assms(1)
proof (rule redeem_accepted)
  fix user presented now c
  assume c: "stable E u = Some user" "text_value E d 256 = Some presented" "timestamp E t = Some now"
    "c \<in> set (recoveryCodes s)" "code_userId c = user" "code_status c = Code_AVAILABLE"
    "matcher presented (code_digest c)"
    and s': "s' = s\<lparr>recoveryCodes := map (\<lambda>x. if code_id x = code_id c then used_code c now else x) (recoveryCodes s)\<rparr>"
  have same: "x = c" if "x \<in> set (recoveryCodes s)" "code_id x = code_id c" for x
    using assms(2) c(4) that by (auto simp: distinct_map inj_on_def)
  have "available s' = available s - {code_id c}"
    using same by (force simp: available_def s' image_iff)
  moreover have "code_id c \<in> available s" using c by (auto simp: available_def)
  moreover have "\<forall>x \<in> set (recoveryCodes s). x \<noteq> c \<longrightarrow> x \<in> set (recoveryCodes s')"
    using same by (force simp: s')
  moreover have "used_code c now \<in> set (recoveryCodes s')" using c(4) by (force simp: s')
  moreover have "distinct (map code_id (recoveryCodes s'))"
    using redeem_ids [OF assms(1)] assms(2) by simp
  moreover have "factors s' = factors s" by (simp add: s')
  ultimately show ?thesis using c by (intro bexI [of _ c] exI conjI) simp_all
qed

definition sample_code :: recovery_code where
  "sample_code = \<lparr>code_id = uuid_of CHR ''a'', code_userId = uuid_of CHR ''b'', code_digest = js ''digest'',
     code_status = Code_AVAILABLE, code_createdAt = time_of ''00'', code_usedAt = None, code_revision = 1\<rparr>"

definition sample_mfa_state :: mfa_state where
  "sample_mfa_state = \<lparr>factors = [], recoveryCodes = [sample_code]\<rparr>"

theorem recovery_code_single_use_witness:
  "\<exists>s'. redeemRecoveryCodeV1 sample_env (=) sample_mfa_state (sample_id CHR ''b'') (Str (js ''digest''))
       (sample_time ''05'') = Inr s'
     \<and> (\<exists>c \<in> set (recoveryCodes sample_mfa_state). available s' = available sample_mfa_state - {code_id c})"
proof -
  have "\<exists>s'. redeemRecoveryCodeV1 sample_env (=) sample_mfa_state (sample_id CHR ''b'') (Str (js ''digest''))
       (sample_time ''05'') = Inr s'"
    by (simp add: redeemRecoveryCodeV1_def result_simps sample_mfa_state_def sample_code_def plain_def)
  moreover have "distinct (map code_id (recoveryCodes sample_mfa_state))"
    by (simp add: sample_mfa_state_def)
  ultimately show ?thesis using recovery_code_single_use by blast
qed

text \<open>
  Step-up. A normal operation never needs an assertion; an operation of high or critical risk
  passes exactly when no re-enrollment is pending and there is an assertion of the same principal
  that was issued at a proper time at most ten minutes before the present one.
\<close>

theorem step_up_exact:
  "requiresStepUpV1 E riskInput assertion user now reenroll = Inr () \<longleftrightarrow>
     (\<exists>risk. one_of step_up_risks riskInput = Some risk
        \<and> (risk = Risk_NORMAL
           \<or> \<not> reenroll \<and> (\<exists>a t n i. assertion = Some a \<and> assertion_principalId a = user
                \<and> timestamp E now = Some t \<and> Date_parse E t = Some n
                \<and> Date_parse E (assertion_issuedAt a) = Some i \<and> i \<le> n \<and> n \<le> i + 600000)))"
proof -
  have "isFreshStepUpV1 E a user now \<longleftrightarrow>
      (\<exists>t n i. assertion_principalId a = user \<and> timestamp E now = Some t \<and> Date_parse E t = Some n
         \<and> Date_parse E (assertion_issuedAt a) = Some i \<and> i \<le> n \<and> n \<le> i + 600000)" for a
    by (auto simp: isFreshStepUpV1_def date_diff_Some STEP_UP_MAX_SECONDS_V1_def split: option.splits)
  then show ?thesis
    by (auto simp: requiresStepUpV1_def result_simps split: option.splits)
qed

end
