(* ===== verification/Entitlements.thy ===== *)
theory Entitlements
  imports Json Samples Machine
begin

text \<open>
  packages/domain/src/entitlements/v1.ts: plans and their quotas, entitlement snapshots, the usage
  ledger with its reservations, and signed offline leases. The signer and the verifier of the
  leases are ports of the caller: functions that may throw (\<open>None\<close>).
\<close>

section \<open>Data\<close>

definition OFFLINE_LEASE_MAX_SECONDS_V1 :: int where
  "OFFLINE_LEASE_MAX_SECONDS_V1 = 24 * 60 * 60"

datatype plan_code =
    Plan_free | Plan_development | Plan_admin_granted
  | Plan_personal_monthly | Plan_personal_annual
  | Plan_professional_monthly | Plan_professional_annual
  | Plan_team_monthly | Plan_team_annual

datatype entitlement_status = Entitlement_ACTIVE | Entitlement_SUSPENDED | Entitlement_EXPIRED

datatype usage_metric =
    Metric_artifact_bytes | Metric_processing_seconds | Metric_job_count | Metric_member_count
  | Metric_ocr_pages

datatype usage_bucket = Bucket_RESERVED | Bucket_COMMITTED

datatype reservation_status = Reservation_ACTIVE | Reservation_FINALIZED | Reservation_RELEASED

record entitlement_quota =
  quota_metric :: usage_metric
  quota_limit :: int

record entitlement_plan =
  plan_planCode :: plan_code
  plan_displayNameKey :: jsstr
  plan_features :: "jsstr list"
  plan_quotas :: "entitlement_quota list"

record entitlement_snapshot =
  snap_snapshotId :: stable_id
  snap_organizationId :: stable_id
  snap_workspaceId :: "stable_id option"
  snap_planCode :: plan_code
  snap_status :: entitlement_status
  snap_revision :: int
  snap_securityEpoch :: int
  snap_effectiveAt :: utc_timestamp
  snap_expiresAt :: "utc_timestamp option"
  snap_features :: "jsstr list"
  snap_quotas :: "entitlement_quota list"

record usage_entry =
  usage_entryId :: stable_id
  usage_scope :: tenant_scope
  usage_metric :: usage_metric
  usage_bucket :: usage_bucket
  usage_deltaUnits :: int
  usage_sequence :: int
  usage_reservationId :: "stable_id option"
  usage_idempotencyKey :: jsstr
  usage_occurredAt :: utc_timestamp

record usage_reservation =
  rsv_reservationId :: stable_id
  rsv_scope :: tenant_scope
  rsv_metric :: usage_metric
  rsv_reservedUnits :: int
  rsv_status :: reservation_status
  rsv_createdAt :: utc_timestamp
  rsv_revision :: int

record usage_ledger =
  ledger_entries :: "usage_entry list"
  ledger_reservations :: "usage_reservation list"

record unsigned_lease =
  lease_leaseId :: stable_id
  lease_scope :: tenant_scope
  lease_snapshotRevision :: int
  lease_securityEpoch :: int
  lease_issuedAt :: utc_timestamp
  lease_expiresAt :: utc_timestamp

record entitlement_lease = unsigned_lease +
  lease_payload :: jsstr
  lease_signature :: jsstr

datatype entitlement_error =
    Entitlement_INVALID_IDENTIFIER
  | Entitlement_INVALID_SCOPE
  | Entitlement_INVALID_TIMESTAMP
  | Entitlement_INVALID_TEXT
  | Entitlement_INVALID_PLAN
  | Entitlement_INVALID_QUOTA
  | Entitlement_INVALID_METRIC
  | Entitlement_INVALID_UNITS
  | Entitlement_INVALID_STATE
  | Entitlement_is_SUSPENDED
  | Entitlement_is_EXPIRED
  | Entitlement_NOT_FOUND
  | Entitlement_FEATURE_NOT_GRANTED
  | Entitlement_QUOTA_EXCEEDED
  | Entitlement_IDEMPOTENCY_CONFLICT
  | Entitlement_LEASE_INVALID
  | Entitlement_LEASE_STALE

definition plans :: "(string \<times> plan_code) list" where
  "plans =
     [(''free'', Plan_free), (''development'', Plan_development), (''admin_granted'', Plan_admin_granted),
      (''personal-monthly'', Plan_personal_monthly), (''personal-annual'', Plan_personal_annual),
      (''professional-monthly'', Plan_professional_monthly),
      (''professional-annual'', Plan_professional_annual),
      (''team-monthly'', Plan_team_monthly), (''team-annual'', Plan_team_annual)]"

definition metrics :: "(string \<times> usage_metric) list" where
  "metrics =
     [(''artifact_bytes'', Metric_artifact_bytes), (''processing_seconds'', Metric_processing_seconds),
      (''job_count'', Metric_job_count), (''member_count'', Metric_member_count),
      (''ocr_pages'', Metric_ocr_pages)]"

definition entitlement_statuses :: "(string \<times> entitlement_status) list" where
  "entitlement_statuses =
     [(''ACTIVE'', Entitlement_ACTIVE), (''SUSPENDED'', Entitlement_SUSPENDED),
      (''EXPIRED'', Entitlement_EXPIRED)]"

section \<open>Helpers\<close>

fun scopeKey :: "tenant_scope \<Rightarrow> jsstr" where
  "scopeKey (Organization_scope org) = js ''organization:'' @ org"
| "scopeKey (Workspace_scope org ws) = js ''workspace:'' @ org @ js '':'' @ ws"
| "scopeKey (Project_scope org ws pr) = js ''project:'' @ org @ js '':'' @ ws @ js '':'' @ pr"

definition sameScope :: "tenant_scope \<Rightarrow> tenant_scope \<Rightarrow> bool" where
  "sameScope l r \<longleftrightarrow> scopeKey l = scopeKey r"

definition quotaFor :: "entitlement_snapshot \<Rightarrow> usage_metric \<Rightarrow> int option" where
  "quotaFor s m = map_option quota_limit (List.find (\<lambda>q. quota_metric q = m) (snap_quotas s))"

definition usageTotal :: "usage_ledger \<Rightarrow> tenant_scope \<Rightarrow> usage_metric \<Rightarrow> usage_bucket \<Rightarrow> int" where
  "usageTotal st scope m b =
     foldl (\<lambda>total e. js_add total (usage_deltaUnits e)) 0
       (filter (\<lambda>e. sameScope (usage_scope e) scope \<and> usage_metric e = m \<and> usage_bucket e = b)
          (ledger_entries st))"

definition snapshotAllows ::
    "env \<Rightarrow> entitlement_snapshot \<Rightarrow> utc_timestamp \<Rightarrow> entitlement_error option" where
  "snapshotAllows E s now =
     (if snap_status s = Entitlement_SUSPENDED then Some Entitlement_is_SUSPENDED
      else if snap_status s = Entitlement_EXPIRED then Some Entitlement_is_EXPIRED
      else (case snap_expiresAt s of
              None \<Rightarrow> None
            | Some x \<Rightarrow> if date_le (Date_parse E x) (Date_parse E now) then Some Entitlement_is_EXPIRED
                        else None))"

text \<open>\<open>const blocked = snapshotAllows(...); if (blocked) return rejected(blocked);\<close>\<close>

definition unless_blocked :: "'e option \<Rightarrow> 'e + 'a \<Rightarrow> 'e + 'a" where
  "unless_blocked b k = (case b of None \<Rightarrow> k | Some e \<Rightarrow> rejected e)"

lemma unless_blocked_accepted [result_simps]:
  "unless_blocked b k = Inr v \<longleftrightarrow> b = None \<and> k = Inr v"
  by (cases b) (simp_all add: unless_blocked_def)

text \<open>\<open>b - a > limit\<close> on times.\<close>

definition lasts_longer :: "env \<Rightarrow> utc_timestamp \<Rightarrow> utc_timestamp \<Rightarrow> int \<Rightarrow> bool" where
  "lasts_longer E a b limit =
     (case date_diff (Date_parse E b) (Date_parse E a) of None \<Rightarrow> False | Some d \<Rightarrow> limit < d)"

section \<open>Plans and snapshots\<close>

record plan_input =
  in_plan_planCode :: jsval
  in_plan_displayNameKey :: jsval
  in_plan_features :: jsval
  in_plan_quotas :: jsval

fun collect_quotas ::
    "entitlement_quota list \<Rightarrow> jsval list \<Rightarrow> entitlement_error + entitlement_quota list" where
  "collect_quotas quotas [] = accepted quotas"
| "collect_quotas quotas (item # items) =
     reject_if (\<not> object_like item) Entitlement_INVALID_QUOTA (
     require Entitlement_INVALID_METRIC (one_of metrics (field item ''metric'')) (\<lambda>m.
     require Entitlement_INVALID_QUOTA (positiveInteger (field item ''limit'')) (\<lambda>limit.
     reject_if (list_ex (\<lambda>q. quota_metric q = m) quotas) Entitlement_INVALID_QUOTA (
     collect_quotas (quotas @ [\<lparr>quota_metric = m, quota_limit = limit\<rparr>]) items))))"

definition createPlanV1 :: "env \<Rightarrow> plan_input \<Rightarrow> entitlement_error + entitlement_plan" where
  "createPlanV1 E i =
     require Entitlement_INVALID_PLAN (one_of plans (in_plan_planCode i)) (\<lambda>code.
     require Entitlement_INVALID_TEXT (text_value E (in_plan_displayNameKey i) 120) (\<lambda>name.
     require Entitlement_INVALID_TEXT (as_array (in_plan_features i)) (\<lambda>features.
     reject_if (list_ex (\<lambda>v. text_value E v 120 = None) features) Entitlement_INVALID_TEXT (
     require Entitlement_INVALID_QUOTA (as_array (in_plan_quotas i)) (\<lambda>items.
     and_then (collect_quotas [] items) (\<lambda>quotas.
     require Entitlement_INVALID_TEXT (parse_all as_string features) (\<lambda>strings.
     accepted
       \<lparr>plan_planCode = code, plan_displayNameKey = name, plan_features = strings,
        plan_quotas = quotas\<rparr>)))))))"

record snapshot_input =
  in_snap_snapshotId :: jsval
  in_snap_scope :: jsval
  in_snap_plan :: jsval
  in_snap_status :: jsval
  in_snap_revision :: jsval
  in_snap_securityEpoch :: jsval
  in_snap_effectiveAt :: jsval
  in_snap_expiresAt :: jsval

definition createEntitlementSnapshotV1 ::
    "env \<Rightarrow> snapshot_input \<Rightarrow> entitlement_error + entitlement_snapshot" where
  "createEntitlementSnapshotV1 E i =
     require Entitlement_INVALID_IDENTIFIER (stable E (in_snap_snapshotId i)) (\<lambda>sid.
     require Entitlement_INVALID_SCOPE (scope_value E (in_snap_scope i)) (\<lambda>scope.
     reject_if (scopeType scope = Project_type) Entitlement_INVALID_SCOPE (
     reject_if (\<not> object_like (in_snap_plan i)
                \<or> \<not> is_int (field (in_snap_plan i) ''schemaVersion'') 1
                \<or> field (in_snap_plan i) ''providerIndependent'' \<noteq> Bool True)
       Entitlement_INVALID_PLAN (
     require Entitlement_INVALID_PLAN
       (accepted_value (createPlanV1 E
          \<lparr>in_plan_planCode = field (in_snap_plan i) ''planCode'',
           in_plan_displayNameKey = field (in_snap_plan i) ''displayNameKey'',
           in_plan_features = field (in_snap_plan i) ''features'',
           in_plan_quotas = field (in_snap_plan i) ''quotas''\<rparr>)) (\<lambda>plan.
     require Entitlement_INVALID_STATE (one_of entitlement_statuses (in_snap_status i)) (\<lambda>status.
     require Entitlement_INVALID_STATE (positiveInteger (in_snap_revision i)) (\<lambda>revision.
     require Entitlement_INVALID_STATE (positiveInteger (in_snap_securityEpoch i)) (\<lambda>epoch.
     require Entitlement_INVALID_TIMESTAMP (timestamp E (in_snap_effectiveAt i)) (\<lambda>effective.
     require Entitlement_INVALID_TIMESTAMP
       (optional (timestamp E) (defined_value (in_snap_expiresAt i))) (\<lambda>expires.
     reject_if (case expires of None \<Rightarrow> False
                | Some x \<Rightarrow> date_le (Date_parse E x) (Date_parse E effective))
       Entitlement_INVALID_TIMESTAMP (
     accepted
       \<lparr>snap_snapshotId = sid, snap_organizationId = organizationId scope,
        snap_workspaceId = (if scopeType scope = Workspace_type then workspace_of scope else None),
        snap_planCode = plan_planCode plan, snap_status = status, snap_revision = revision,
        snap_securityEpoch = epoch, snap_effectiveAt = effective, snap_expiresAt = expires,
        snap_features = plan_features plan, snap_quotas = plan_quotas plan\<rparr>)))))))))))"

definition evaluateEntitlementV1 ::
    "env \<Rightarrow> entitlement_snapshot \<Rightarrow> jsval \<Rightarrow> jsval \<Rightarrow> entitlement_error + unit" where
  "evaluateEntitlementV1 E s nowInput feature =
     require Entitlement_INVALID_TIMESTAMP (timestamp E nowInput) (\<lambda>now.
     require Entitlement_INVALID_TEXT (text_value E feature 120) (\<lambda>featureKey.
     unless_blocked (snapshotAllows E s now) (
     if featureKey \<in> set (snap_features s) then accepted ()
     else rejected Entitlement_FEATURE_NOT_GRANTED)))"

section \<open>The usage ledger\<close>

record reserve_input =
  in_rsv_reservationId :: jsval
  in_rsv_entryId :: jsval
  in_rsv_scope :: jsval
  in_rsv_metric :: jsval
  in_rsv_requestedUnits :: jsval
  in_rsv_idempotencyKey :: jsval
  in_rsv_now :: jsval

text \<open>The number of entries of a scope and metric.\<close>

definition entry_count :: "usage_ledger \<Rightarrow> tenant_scope \<Rightarrow> usage_metric \<Rightarrow> int" where
  "entry_count st scope m =
     int (length (filter (\<lambda>e. sameScope (usage_scope e) scope \<and> usage_metric e = m) (ledger_entries st)))"

definition add_reservation :: "usage_ledger \<Rightarrow> usage_entry \<Rightarrow> usage_reservation \<Rightarrow> usage_ledger" where
  "add_reservation st e r =
     \<lparr>ledger_entries = ledger_entries st @ [e], ledger_reservations = ledger_reservations st @ [r]\<rparr>"

definition reserveUsageV1 ::
    "env \<Rightarrow> entitlement_snapshot \<Rightarrow> usage_ledger \<Rightarrow> reserve_input
     \<Rightarrow> entitlement_error + usage_ledger \<times> usage_reservation" where
  "reserveUsageV1 E s st i =
     require Entitlement_INVALID_IDENTIFIER (stable E (in_rsv_reservationId i)) (\<lambda>rid.
     require Entitlement_INVALID_IDENTIFIER (stable E (in_rsv_entryId i)) (\<lambda>eid.
     require Entitlement_INVALID_SCOPE (scope_value E (in_rsv_scope i)) (\<lambda>scope.
     require Entitlement_INVALID_METRIC (one_of metrics (in_rsv_metric i)) (\<lambda>m.
     require Entitlement_INVALID_UNITS (positiveInteger (in_rsv_requestedUnits i)) (\<lambda>units.
     require Entitlement_INVALID_TEXT (text_value E (in_rsv_idempotencyKey i) 200) (\<lambda>key.
     require Entitlement_INVALID_TIMESTAMP (timestamp E (in_rsv_now i)) (\<lambda>now.
     unless_blocked (snapshotAllows E s now) (
     case List.find (\<lambda>r. rsv_reservationId r = rid) (ledger_reservations st) of
       Some existing \<Rightarrow>
         if rsv_reservedUnits existing = units \<and> rsv_metric existing = m
            \<and> sameScope (rsv_scope existing) scope
         then accepted (st, existing)
         else rejected Entitlement_IDEMPOTENCY_CONFLICT
     | None \<Rightarrow>
         reject_if (List.find (\<lambda>e. usage_idempotencyKey e = key) (ledger_entries st) \<noteq> None)
           Entitlement_IDEMPOTENCY_CONFLICT (
         require Entitlement_QUOTA_EXCEEDED (quotaFor s m) (\<lambda>limit.
         reject_if (limit < js_add (js_add (usageTotal st scope m Bucket_COMMITTED)
                                           (usageTotal st scope m Bucket_RESERVED)) units)
           Entitlement_QUOTA_EXCEEDED (
         let entry = \<lparr>usage_entryId = eid, usage_scope = scope, usage_metric = m,
                      usage_bucket = Bucket_RESERVED, usage_deltaUnits = units,
                      usage_sequence = entry_count st scope m + 1, usage_reservationId = Some rid,
                      usage_idempotencyKey = key, usage_occurredAt = now\<rparr>;
             reservation = \<lparr>rsv_reservationId = rid, rsv_scope = scope, rsv_metric = m,
                            rsv_reservedUnits = units, rsv_status = Reservation_ACTIVE,
                            rsv_createdAt = now, rsv_revision = 1\<rparr>
         in accepted (add_reservation st entry reservation, reservation))))))))))))"

record settle_input =
  in_settle_reservationId :: jsval
  in_settle_releaseEntryId :: jsval
  in_settle_commitEntryId :: jsval
  in_settle_committedUnits :: jsval
  in_settle_now :: jsval
  in_settle_idempotencyKey :: jsval

definition closed_reservation :: "usage_reservation \<Rightarrow> reservation_status \<Rightarrow> usage_reservation" where
  "closed_reservation r target = r\<lparr>rsv_status := target, rsv_revision := js_succ (rsv_revision r)\<rparr>"

definition settled_ledger ::
    "usage_ledger \<Rightarrow> usage_reservation \<Rightarrow> reservation_status \<Rightarrow> usage_entry list \<Rightarrow> usage_ledger" where
  "settled_ledger st r target es =
     \<lparr>ledger_entries = ledger_entries st @ es,
      ledger_reservations =
        map (\<lambda>x. if rsv_reservationId x = rsv_reservationId r then closed_reservation r target else x)
          (ledger_reservations st)\<rparr>"

definition release_entry ::
    "usage_ledger \<Rightarrow> usage_reservation \<Rightarrow> stable_id \<Rightarrow> jsstr \<Rightarrow> utc_timestamp \<Rightarrow> usage_entry" where
  "release_entry st r eid key now =
     \<lparr>usage_entryId = eid, usage_scope = rsv_scope r, usage_metric = rsv_metric r,
      usage_bucket = Bucket_RESERVED, usage_deltaUnits = - rsv_reservedUnits r,
      usage_sequence = entry_count st (rsv_scope r) (rsv_metric r) + 1,
      usage_reservationId = Some (rsv_reservationId r), usage_idempotencyKey = key,
      usage_occurredAt = now\<rparr>"

definition commit_entry ::
    "usage_ledger \<Rightarrow> usage_reservation \<Rightarrow> stable_id \<Rightarrow> int \<Rightarrow> jsstr \<Rightarrow> utc_timestamp \<Rightarrow> usage_entry" where
  "commit_entry st r eid units key now =
     \<lparr>usage_entryId = eid, usage_scope = rsv_scope r, usage_metric = rsv_metric r,
      usage_bucket = Bucket_COMMITTED, usage_deltaUnits = units,
      usage_sequence = entry_count st (rsv_scope r) (rsv_metric r) + 2,
      usage_reservationId = Some (rsv_reservationId r),
      usage_idempotencyKey = key @ js '':commit'', usage_occurredAt = now\<rparr>"

text \<open>
  The units to commit and the entry that commits them: none for a release. \<open>commitEntryId\<close> is
  parsed for both targets but only a finalization needs it.
\<close>

definition commitment ::
    "env \<Rightarrow> settle_input \<Rightarrow> reservation_status \<Rightarrow> entitlement_error + (int \<times> stable_id) option" where
  "commitment E i target =
     (if target = Reservation_FINALIZED
      then require Entitlement_INVALID_UNITS (positiveInteger (in_settle_committedUnits i)) (\<lambda>units.
           require Entitlement_INVALID_UNITS
             (if in_settle_commitEntryId i = Undefined then None
              else stable E (in_settle_commitEntryId i)) (\<lambda>eid.
           accepted (Some (units, eid))))
      else accepted None)"

definition settleReservationV1 ::
    "env \<Rightarrow> usage_ledger \<Rightarrow> settle_input \<Rightarrow> reservation_status \<Rightarrow> entitlement_error + usage_ledger" where
  "settleReservationV1 E st i target =
     require Entitlement_INVALID_IDENTIFIER (stable E (in_settle_reservationId i)) (\<lambda>rid.
     require Entitlement_INVALID_IDENTIFIER (stable E (in_settle_releaseEntryId i)) (\<lambda>eid.
     require Entitlement_INVALID_IDENTIFIER (timestamp E (in_settle_now i)) (\<lambda>now.
     require Entitlement_INVALID_TEXT (text_value E (in_settle_idempotencyKey i) 200) (\<lambda>key.
     require Entitlement_INVALID_STATE
       (List.find (\<lambda>r. rsv_reservationId r = rid) (ledger_reservations st)) (\<lambda>r.
     if rsv_status r \<noteq> Reservation_ACTIVE
     then (if List.find (\<lambda>e. usage_idempotencyKey e = key) (ledger_entries st) \<noteq> None
           then accepted st else rejected Entitlement_INVALID_STATE)
     else and_then (commitment E i target) (\<lambda>commit.
       reject_if (rsv_reservedUnits r < (case commit of None \<Rightarrow> 0 | Some (units, _) \<Rightarrow> units))
         Entitlement_INVALID_UNITS (
       reject_if (list_ex (\<lambda>e. usage_idempotencyKey e = key) (ledger_entries st))
         Entitlement_IDEMPOTENCY_CONFLICT (
       accepted (settled_ledger st r target
         (release_entry st r eid key now #
          (case commit of None \<Rightarrow> []
           | Some (units, ceid) \<Rightarrow> [commit_entry st r ceid units key now])))))))))))"

definition finalizeUsageV1 ::
    "env \<Rightarrow> usage_ledger \<Rightarrow> settle_input \<Rightarrow> entitlement_error + usage_ledger" where
  "finalizeUsageV1 E st i = settleReservationV1 E st i Reservation_FINALIZED"

definition releaseUsageV1 ::
    "env \<Rightarrow> usage_ledger \<Rightarrow> settle_input \<Rightarrow> entitlement_error + usage_ledger" where
  "releaseUsageV1 E st i = settleReservationV1 E st i Reservation_RELEASED"

text \<open>Every operation on a ledger, under any of the snapshots \<open>Snap\<close>.\<close>

inductive ledger_step ::
    "env \<Rightarrow> entitlement_snapshot set \<Rightarrow> usage_ledger \<Rightarrow> usage_ledger \<Rightarrow> bool" for E Snap where
  reserve: "s \<in> Snap \<Longrightarrow> reserveUsageV1 E s st i = Inr (st', r) \<Longrightarrow> ledger_step E Snap st st'"
| finalize: "finalizeUsageV1 E st j = Inr st' \<Longrightarrow> ledger_step E Snap st st'"
| release: "releaseUsageV1 E st j = Inr st' \<Longrightarrow> ledger_step E Snap st st'"

definition empty_ledger :: usage_ledger where
  "empty_ledger = \<lparr>ledger_entries = [], ledger_reservations = []\<rparr>"

section \<open>Leases\<close>

definition canonicalLease :: "unsigned_lease \<Rightarrow> jsstr" where
  "canonicalLease l =
     stringify (JObj
       [(js ''schemaVersion'', JInt 1), (js ''leaseId'', JStr (lease_leaseId l)),
        (js ''tenantScope'', scope_json (lease_scope l)),
        (js ''snapshotRevision'', JInt (lease_snapshotRevision l)),
        (js ''securityEpoch'', JInt (lease_securityEpoch l)),
        (js ''issuedAt'', JStr (lease_issuedAt l)), (js ''expiresAt'', JStr (lease_expiresAt l))])"

record lease_input =
  in_lease_leaseId :: jsval
  in_lease_issuedAt :: jsval
  in_lease_expiresAt :: jsval

definition snapshot_scope :: "entitlement_snapshot \<Rightarrow> tenant_scope" where
  "snapshot_scope s =
     (case snap_workspaceId s of
        Some w \<Rightarrow> Workspace_scope (snap_organizationId s) w
      | None \<Rightarrow> Organization_scope (snap_organizationId s))"

definition lease_times_invalid ::
    "env \<Rightarrow> entitlement_snapshot \<Rightarrow> utc_timestamp \<Rightarrow> utc_timestamp \<Rightarrow> bool" where
  "lease_times_invalid E s issued expires \<longleftrightarrow>
     Date_parse E issued = None \<or> Date_parse E expires = None
     \<or> date_less (Date_parse E issued) (Date_parse E (snap_effectiveAt s))
     \<or> date_le (Date_parse E expires) (Date_parse E issued)
     \<or> lasts_longer E issued expires (OFFLINE_LEASE_MAX_SECONDS_V1 * 1000)
     \<or> (case snap_expiresAt s of None \<Rightarrow> False
        | Some x \<Rightarrow> date_less (Date_parse E x) (Date_parse E expires))"

definition createEntitlementLeaseV1 ::
    "env \<Rightarrow> entitlement_snapshot \<Rightarrow> lease_input \<Rightarrow> (jsstr \<Rightarrow> jsval option)
     \<Rightarrow> entitlement_error + entitlement_lease" where
  "createEntitlementLeaseV1 E s i sign =
     require Entitlement_INVALID_IDENTIFIER (stable E (in_lease_leaseId i)) (\<lambda>lid.
     require Entitlement_INVALID_TIMESTAMP (timestamp E (in_lease_issuedAt i)) (\<lambda>issued.
     require Entitlement_INVALID_TIMESTAMP (timestamp E (in_lease_expiresAt i)) (\<lambda>expires.
     unless_blocked (snapshotAllows E s issued) (
     reject_if (lease_times_invalid E s issued expires) Entitlement_LEASE_INVALID (
     let unsigned = \<lparr>lease_leaseId = lid, lease_scope = snapshot_scope s,
                     lease_snapshotRevision = snap_revision s,
                     lease_securityEpoch = snap_securityEpoch s,
                     lease_issuedAt = issued, lease_expiresAt = expires\<rparr>;
         payload = canonicalLease unsigned
     in require Entitlement_LEASE_INVALID (sign payload) (\<lambda>signed.
        require Entitlement_LEASE_INVALID (text_value E signed 2048) (\<lambda>signature.
        accepted (unsigned_lease.extend unsigned
                    (entitlement_lease.fields payload signature)))))))))"

text \<open>A lease as a device presents it: nothing about its fields is known yet.\<close>

record presented_lease =
  got_schemaVersion :: jsval
  got_leaseId :: jsval
  got_scope :: jsval
  got_snapshotRevision :: jsval
  got_securityEpoch :: jsval
  got_issuedAt :: jsval
  got_expiresAt :: jsval
  got_payload :: jsval
  got_signature :: jsval

record accept_input =
  in_accept_now :: jsval
  in_accept_scope :: jsval
  in_accept_snapshotRevision :: jsval
  in_accept_securityEpoch :: jsval

text \<open>The long condition of the acceptance; its result are the parsed fields.\<close>

definition well_formed_lease :: "env \<Rightarrow> presented_lease \<Rightarrow> (unsigned_lease \<times> jsstr \<times> jsstr) option" where
  "well_formed_lease E p =
     accepted_value (
       require () (stable E (got_leaseId p)) (\<lambda>lid.
       require () (scope_value E (got_scope p)) (\<lambda>scope.
       reject_if (scopeType scope = Project_type) () (
       require () (timestamp E (got_issuedAt p)) (\<lambda>issued.
       require () (timestamp E (got_expiresAt p)) (\<lambda>expires.
       reject_if (\<not> is_int (got_schemaVersion p) 1) () (
       require () (positiveInteger (got_snapshotRevision p)) (\<lambda>revision.
       require () (positiveInteger (got_securityEpoch p)) (\<lambda>epoch.
       require () (as_string (got_payload p)) (\<lambda>payload.
       reject_if (text_value E (got_payload p) 10000 = None) () (
       require () (as_string (got_signature p)) (\<lambda>signature.
       reject_if (text_value E (got_signature p) 2048 = None) () (
       reject_if (date_le (Date_parse E expires) (Date_parse E issued)) () (
       reject_if (lasts_longer E issued expires (OFFLINE_LEASE_MAX_SECONDS_V1 * 1000)) () (
       let l = \<lparr>lease_leaseId = lid, lease_scope = scope, lease_snapshotRevision = revision,
                lease_securityEpoch = epoch, lease_issuedAt = issued, lease_expiresAt = expires\<rparr>
       in reject_if (payload \<noteq> canonicalLease l) () (accepted (l, payload, signature)))))))))))))))))"

definition acceptEntitlementLeaseV1 ::
    "env \<Rightarrow> presented_lease \<Rightarrow> accept_input \<Rightarrow> (jsstr \<Rightarrow> jsstr \<Rightarrow> bool option)
     \<Rightarrow> entitlement_error + unit" where
  "acceptEntitlementLeaseV1 E p i verify =
     require Entitlement_INVALID_TIMESTAMP (timestamp E (in_accept_now i)) (\<lambda>now.
     require Entitlement_INVALID_SCOPE (scope_value E (in_accept_scope i)) (\<lambda>scope.
     require Entitlement_INVALID_STATE (positiveInteger (in_accept_snapshotRevision i)) (\<lambda>revision.
     require Entitlement_INVALID_STATE (positiveInteger (in_accept_securityEpoch i)) (\<lambda>epoch.
     require Entitlement_LEASE_INVALID (well_formed_lease E p) (\<lambda>(l, payload, signature).
     reject_if (\<not> sameScope (lease_scope l) scope) Entitlement_LEASE_STALE (
     reject_if (lease_snapshotRevision l \<noteq> revision \<or> lease_securityEpoch l \<noteq> epoch)
       Entitlement_LEASE_STALE (
     reject_if (verify payload signature \<noteq> Some True) Entitlement_LEASE_INVALID (
     reject_if (date_less (Date_parse E now) (Date_parse E (lease_issuedAt l))
                \<or> date_le (Date_parse E (lease_expiresAt l)) (Date_parse E now))
       Entitlement_LEASE_INVALID (
     accepted ())))))))))"

section \<open>Facts about the ledger\<close>

lemma reserve_accepted:
  assumes "reserveUsageV1 E s st i = Inr (st', r)"
  obtains (replay) "st' = st" "r \<in> set (ledger_reservations st)"
  | (fresh) e limit where "st' = add_reservation st e r"
    "rsv_reservationId r \<notin> rsv_reservationId ` set (ledger_reservations st)"
    "usage_idempotencyKey e \<notin> usage_idempotencyKey ` set (ledger_entries st)"
    "rsv_status r = Reservation_ACTIVE" "1 \<le> rsv_reservedUnits r" "rsv_reservedUnits r \<le> max_safe_integer"
    "usage_scope e = rsv_scope r" "usage_metric e = rsv_metric r" "usage_bucket e = Bucket_RESERVED"
    "usage_deltaUnits e = rsv_reservedUnits r"
    "usage_sequence e = entry_count st (rsv_scope r) (rsv_metric r) + 1"
    "quotaFor s (rsv_metric r) = Some limit"
    "\<not> limit < js_add (js_add (usageTotal st (rsv_scope r) (rsv_metric r) Bucket_COMMITTED)
                            (usageTotal st (rsv_scope r) (rsv_metric r) Bucket_RESERVED)) (rsv_reservedUnits r)"
proof -
  obtain rid eid scope m units key now where k:
    "positiveInteger (in_rsv_requestedUnits i) = Some units"
    and c: "(case List.find (\<lambda>r. rsv_reservationId r = rid) (ledger_reservations st) of
       Some existing \<Rightarrow>
         if rsv_reservedUnits existing = units \<and> rsv_metric existing = m
            \<and> sameScope (rsv_scope existing) scope
         then accepted (st, existing)
         else rejected Entitlement_IDEMPOTENCY_CONFLICT
     | None \<Rightarrow>
         reject_if (List.find (\<lambda>e. usage_idempotencyKey e = key) (ledger_entries st) \<noteq> None)
           Entitlement_IDEMPOTENCY_CONFLICT (
         require Entitlement_QUOTA_EXCEEDED (quotaFor s m) (\<lambda>limit.
         reject_if (limit < js_add (js_add (usageTotal st scope m Bucket_COMMITTED)
                                           (usageTotal st scope m Bucket_RESERVED)) units)
           Entitlement_QUOTA_EXCEEDED (
         let entry = \<lparr>usage_entryId = eid, usage_scope = scope, usage_metric = m,
                      usage_bucket = Bucket_RESERVED, usage_deltaUnits = units,
                      usage_sequence = entry_count st scope m + 1, usage_reservationId = Some rid,
                      usage_idempotencyKey = key, usage_occurredAt = now\<rparr>;
             reservation = \<lparr>rsv_reservationId = rid, rsv_scope = scope, rsv_metric = m,
                            rsv_reservedUnits = units, rsv_status = Reservation_ACTIVE,
                            rsv_createdAt = now, rsv_revision = 1\<rparr>
         in accepted (add_reservation st entry reservation, reservation))))) = Inr (st', r)"
    using assms unfolding reserveUsageV1_def result_simps by blast
  show thesis
  proof (cases "List.find (\<lambda>r. rsv_reservationId r = rid) (ledger_reservations st)")
    case (Some existing)
    with c find_SomeD [OF Some] show ?thesis by (intro replay) (auto split: if_splits)
  next
    case None
    obtain limit where "quotaFor s m = Some limit"
      and "List.find (\<lambda>e. usage_idempotencyKey e = key) (ledger_entries st) = None"
      and "\<not> limit < js_add (js_add (usageTotal st scope m Bucket_COMMITTED)
                                           (usageTotal st scope m Bucket_RESERVED)) units"
      and "r = \<lparr>rsv_reservationId = rid, rsv_scope = scope, rsv_metric = m,
                            rsv_reservedUnits = units, rsv_status = Reservation_ACTIVE,
                            rsv_createdAt = now, rsv_revision = 1\<rparr>"
      and "st' = add_reservation st \<lparr>usage_entryId = eid, usage_scope = scope, usage_metric = m,
                      usage_bucket = Bucket_RESERVED, usage_deltaUnits = units,
                      usage_sequence = entry_count st scope m + 1, usage_reservationId = Some rid,
                      usage_idempotencyKey = key, usage_occurredAt = now\<rparr> r"
      using c None by (auto simp: result_simps Let_def)
    with None positiveInteger_bounds [OF k] show ?thesis
      by (intro fresh) (auto simp: find_None_iff)
  qed
qed

lemma settle_accepted:
  assumes "settleReservationV1 E st i target = Inr st'"
  obtains (replay) "st' = st"
  | (close) r eid key now commit where "st' = settled_ledger st r target
      (release_entry st r eid key now #
        (case commit of None \<Rightarrow> [] | Some (units, ceid) \<Rightarrow> [commit_entry st r ceid units key now]))"
    "r \<in> set (ledger_reservations st)" "rsv_status r = Reservation_ACTIVE"
    "commitment E i target = Inr commit"
    "\<forall>units ceid. commit = Some (units, ceid) \<longrightarrow> 1 \<le> units \<and> units \<le> rsv_reservedUnits r"
    "key \<notin> usage_idempotencyKey ` set (ledger_entries st)"
proof -
  obtain rid eid now key r where
    f: "List.find (\<lambda>r. rsv_reservationId r = rid) (ledger_reservations st) = Some r"
    and c: "(if rsv_status r \<noteq> Reservation_ACTIVE
     then (if List.find (\<lambda>e. usage_idempotencyKey e = key) (ledger_entries st) \<noteq> None
           then accepted st else rejected Entitlement_INVALID_STATE)
     else and_then (commitment E i target) (\<lambda>commit.
       reject_if (rsv_reservedUnits r < (case commit of None \<Rightarrow> 0 | Some (units, _) \<Rightarrow> units))
         Entitlement_INVALID_UNITS (
       reject_if (list_ex (\<lambda>e. usage_idempotencyKey e = key) (ledger_entries st))
         Entitlement_IDEMPOTENCY_CONFLICT (
       accepted (settled_ledger st r target
         (release_entry st r eid key now #
          (case commit of None \<Rightarrow> []
           | Some (units, ceid) \<Rightarrow> [commit_entry st r ceid units key now]))))))) = Inr st'"
    using assms unfolding settleReservationV1_def result_simps by blast
  show thesis
  proof (cases "rsv_status r = Reservation_ACTIVE")
    case False
    with c show ?thesis by (intro replay) (auto split: if_splits)
  next
    case True
    with c obtain commit where k: "commitment E i target = Inr commit"
      "\<not> rsv_reservedUnits r < (case commit of None \<Rightarrow> 0 | Some (units, _) \<Rightarrow> units)"
      "\<not> list_ex (\<lambda>e. usage_idempotencyKey e = key) (ledger_entries st)"
      "st' = settled_ledger st r target
         (release_entry st r eid key now #
          (case commit of None \<Rightarrow> []
           | Some (units, ceid) \<Rightarrow> [commit_entry st r ceid units key now]))"
      by (auto simp: result_simps)
    have "1 \<le> units \<and> units \<le> rsv_reservedUnits r" if "commit = Some (units, ceid)" for units ceid
      using k that by (auto simp: commitment_def result_simps split: if_splits dest: positiveInteger_bounds)
    with k True find_SomeD [OF f] show ?thesis
      by (intro close [of r eid key now commit]) (auto simp: list_ex_iff)
  qed
qed

lemma ledger_step_cases [consumes 1, case_names replay reserve close]:
  assumes "ledger_step E Snap st st'"
  obtains (replay) "st' = st"
  | (reserve) s r e limit where "s \<in> Snap" "st' = add_reservation st e r"
    "rsv_reservationId r \<notin> rsv_reservationId ` set (ledger_reservations st)"
    "rsv_status r = Reservation_ACTIVE" "1 \<le> rsv_reservedUnits r" "rsv_reservedUnits r \<le> max_safe_integer"
    "usage_scope e = rsv_scope r" "usage_metric e = rsv_metric r" "usage_bucket e = Bucket_RESERVED"
    "usage_deltaUnits e = rsv_reservedUnits r"
    "usage_sequence e = entry_count st (rsv_scope r) (rsv_metric r) + 1"
    "quotaFor s (rsv_metric r) = Some limit"
    "\<not> limit < js_add (js_add (usageTotal st (rsv_scope r) (rsv_metric r) Bucket_COMMITTED)
                            (usageTotal st (rsv_scope r) (rsv_metric r) Bucket_RESERVED)) (rsv_reservedUnits r)"
  | (close) r target eid key now commit where "st' = settled_ledger st r target
      (release_entry st r eid key now #
        (case commit of None \<Rightarrow> [] | Some (units, ceid) \<Rightarrow> [commit_entry st r ceid units key now]))"
    "r \<in> set (ledger_reservations st)" "rsv_status r = Reservation_ACTIVE"
    "target \<noteq> Reservation_ACTIVE"
    "\<forall>units ceid. commit = Some (units, ceid) \<longrightarrow> 1 \<le> units \<and> units \<le> rsv_reservedUnits r"
  using assms
proof cases
  case (reserve s i r)
  from reserve(2) show thesis by (cases rule: reserve_accepted) (use reserve(1) that(1,2) in blast)+
next
  case (finalize j)
  then have "settleReservationV1 E st j Reservation_FINALIZED = Inr st'" by (simp add: finalizeUsageV1_def)
  then show thesis
  proof (cases rule: settle_accepted)
    case replay
    then show thesis by (rule that(1))
  next
    case (close r eid key now commit)
    then show thesis by (intro that(3)) auto
  qed
next
  case (release j)
  then have "settleReservationV1 E st j Reservation_RELEASED = Inr st'" by (simp add: releaseUsageV1_def)
  then show thesis
  proof (cases rule: settle_accepted)
    case replay
    then show thesis by (rule that(1))
  next
    case (close r eid key now commit)
    then show thesis by (intro that(3)) auto
  qed
qed

text \<open>Totals when entries are appended and reservations closed.\<close>

definition counted :: "tenant_scope \<Rightarrow> usage_metric \<Rightarrow> usage_bucket \<Rightarrow> usage_entry \<Rightarrow> bool" where
  "counted scope m b e \<longleftrightarrow> sameScope (usage_scope e) scope \<and> usage_metric e = m \<and> usage_bucket e = b"

definition total_of :: "usage_entry list \<Rightarrow> tenant_scope \<Rightarrow> usage_metric \<Rightarrow> usage_bucket \<Rightarrow> int" where
  "total_of es scope m b = foldl (\<lambda>t e. js_add t (usage_deltaUnits e)) 0 (filter (counted scope m b) es)"

lemma usageTotal_total_of: "usageTotal st scope m b = total_of (ledger_entries st) scope m b"
  unfolding usageTotal_def total_of_def counted_def by simp

lemma total_of_Nil [simp]: "total_of [] scope m b = 0"
  by (simp add: total_of_def)

lemma total_of_snoc:
  "total_of (es @ [e]) scope m b =
     (if counted scope m b e then js_add (total_of es scope m b) (usage_deltaUnits e)
      else total_of es scope m b)"
  by (simp add: total_of_def)

lemma total_of_snoc2:
  "total_of (es @ [e, f]) scope m b =
     (if counted scope m b f then js_add (total_of (es @ [e]) scope m b) (usage_deltaUnits f)
      else total_of (es @ [e]) scope m b)"
  using total_of_snoc [of "es @ [e]" f] by simp

lemma total_of_sameScope: "sameScope r scope \<Longrightarrow> total_of es r m b = total_of es scope m b"
proof -
  assume "sameScope r scope"
  then have "counted r m b = counted scope m b" by (intro ext) (simp add: counted_def sameScope_def)
  then show ?thesis by (simp add: total_of_def)
qed

definition holds_units :: "tenant_scope \<Rightarrow> usage_metric \<Rightarrow> usage_reservation \<Rightarrow> bool" where
  "holds_units scope m r \<longleftrightarrow>
     sameScope (rsv_scope r) scope \<and> rsv_metric r = m \<and> rsv_status r = Reservation_ACTIVE"

definition active_units :: "usage_reservation list \<Rightarrow> tenant_scope \<Rightarrow> usage_metric \<Rightarrow> int" where
  "active_units rs scope m = sum_list (map rsv_reservedUnits (filter (holds_units scope m) rs))"

lemma active_units_nonneg: "\<forall>r \<in> set rs. 1 \<le> rsv_reservedUnits r \<Longrightarrow> 0 \<le> active_units rs scope m"
  by (induction rs) (auto simp: active_units_def)

lemma active_units_member:
  "\<forall>r \<in> set rs. 1 \<le> rsv_reservedUnits r \<Longrightarrow> r \<in> set rs \<Longrightarrow> holds_units scope m r
   \<Longrightarrow> rsv_reservedUnits r \<le> active_units rs scope m"
proof (induction rs)
  case (Cons x rs)
  then show ?case
    using active_units_nonneg [of rs scope m] by (auto simp: active_units_def)
qed simp

lemma closed_reservation_simps [simp]:
  "rsv_reservationId (closed_reservation r t) = rsv_reservationId r"
  "rsv_scope (closed_reservation r t) = rsv_scope r"
  "rsv_metric (closed_reservation r t) = rsv_metric r"
  "rsv_reservedUnits (closed_reservation r t) = rsv_reservedUnits r"
  "rsv_status (closed_reservation r t) = t"
  "rsv_revision (closed_reservation r t) = js_succ (rsv_revision r)"
  by (simp_all add: closed_reservation_def)

lemma active_units_close:
  assumes "distinct (map rsv_reservationId rs)" "r \<in> set rs" "rsv_status r = Reservation_ACTIVE"
    and "t \<noteq> Reservation_ACTIVE"
  shows "active_units (map (\<lambda>x. if rsv_reservationId x = rsv_reservationId r
                                then closed_reservation r t else x) rs) scope m
         = active_units rs scope m - (if holds_units scope m r then rsv_reservedUnits r else 0)"
  using assms
proof (induction rs)
  case (Cons x rs)
  show ?case
  proof (cases "x = r")
    case True
    have "\<forall>y \<in> set rs. rsv_reservationId y \<noteq> rsv_reservationId r"
      using Cons.prems(1) True by (auto simp: image_iff)
    then have "map (\<lambda>x. if rsv_reservationId x = rsv_reservationId r then closed_reservation r t else x) rs = rs"
      by (intro map_idI) auto
    with True Cons.prems show ?thesis by (auto simp: active_units_def holds_units_def)
  next
    case False
    with Cons have "rsv_reservationId x \<noteq> rsv_reservationId r" by auto
    with False Cons show ?thesis by (auto simp: active_units_def)
  qed
qed simp

section \<open>Quotas hold\<close>

definition ledger_ok :: "(usage_metric \<Rightarrow> int) \<Rightarrow> usage_ledger \<Rightarrow> bool" where
  "ledger_ok Q st \<longleftrightarrow>
     distinct (map rsv_reservationId (ledger_reservations st))
     \<and> (\<forall>r \<in> set (ledger_reservations st). 1 \<le> rsv_reservedUnits r)
     \<and> (\<forall>scope m.
          usageTotal st scope m Bucket_RESERVED = active_units (ledger_reservations st) scope m
          \<and> 0 \<le> usageTotal st scope m Bucket_COMMITTED
          \<and> usageTotal st scope m Bucket_RESERVED + usageTotal st scope m Bucket_COMMITTED \<le> Q m)"

definition within_plan :: "(usage_metric \<Rightarrow> int) \<Rightarrow> entitlement_snapshot set \<Rightarrow> bool" where
  "within_plan Q Snap \<longleftrightarrow>
     (\<forall>m. 0 \<le> Q m \<and> Q m \<le> max_safe_integer)
     \<and> (\<forall>s \<in> Snap. \<forall>m limit. quotaFor s m = Some limit \<longrightarrow> limit \<le> Q m)"

lemma ledger_ok_empty: "within_plan Q Snap \<Longrightarrow> ledger_ok Q empty_ledger"
  by (simp add: ledger_ok_def empty_ledger_def within_plan_def usageTotal_total_of active_units_def)

lemma ledger_ok_total:
  assumes "ledger_ok Q st"
  shows "total_of (ledger_entries st) scope m Bucket_RESERVED = active_units (ledger_reservations st) scope m"
    and "0 \<le> active_units (ledger_reservations st) scope m"
    and "0 \<le> total_of (ledger_entries st) scope m Bucket_COMMITTED"
    and "active_units (ledger_reservations st) scope m
         + total_of (ledger_entries st) scope m Bucket_COMMITTED \<le> Q m"
proof -
  have u: "\<forall>r \<in> set (ledger_reservations st). 1 \<le> rsv_reservedUnits r"
    and t: "usageTotal st scope m Bucket_RESERVED = active_units (ledger_reservations st) scope m"
      "0 \<le> usageTotal st scope m Bucket_COMMITTED"
      "usageTotal st scope m Bucket_RESERVED + usageTotal st scope m Bucket_COMMITTED \<le> Q m"
    using assms unfolding ledger_ok_def by blast+
  show "0 \<le> active_units (ledger_reservations st) scope m" by (rule active_units_nonneg [OF u])
  show "total_of (ledger_entries st) scope m Bucket_RESERVED = active_units (ledger_reservations st) scope m"
    "0 \<le> total_of (ledger_entries st) scope m Bucket_COMMITTED"
    "active_units (ledger_reservations st) scope m
         + total_of (ledger_entries st) scope m Bucket_COMMITTED \<le> Q m"
    using t by (simp_all add: usageTotal_total_of)
qed

lemma ledger_ok_reserve:
  assumes ok: "ledger_ok Q st" and Q: "Q (rsv_metric r) \<le> max_safe_integer" "limit \<le> Q (rsv_metric r)"
    and r: "rsv_reservationId r \<notin> rsv_reservationId ` set (ledger_reservations st)"
      "rsv_status r = Reservation_ACTIVE" "1 \<le> rsv_reservedUnits r" "rsv_reservedUnits r \<le> max_safe_integer"
    and e: "usage_scope e = rsv_scope r" "usage_metric e = rsv_metric r" "usage_bucket e = Bucket_RESERVED"
      "usage_deltaUnits e = rsv_reservedUnits r"
    and fits: "\<not> limit < js_add (js_add (usageTotal st (rsv_scope r) (rsv_metric r) Bucket_COMMITTED)
                 (usageTotal st (rsv_scope r) (rsv_metric r) Bucket_RESERVED)) (rsv_reservedUnits r)"
  shows "ledger_ok Q (add_reservation st e r)"
proof -
  let ?T = "total_of (ledger_entries st)" and ?A = "active_units (ledger_reservations st)"
  note tot = ledger_ok_total [OF ok]
  have exact: "js_add (?T (rsv_scope r) (rsv_metric r) Bucket_COMMITTED)
      (?A (rsv_scope r) (rsv_metric r))
    = ?A (rsv_scope r) (rsv_metric r) + ?T (rsv_scope r) (rsv_metric r) Bucket_COMMITTED"
    using tot [of "rsv_scope r" "rsv_metric r"] Q(1)
    by (simp add: js_add_exact max_safe_integer_def)
  have "limit \<le> max_safe_integer" using Q by simp
  then have "\<not> limit < ?A (rsv_scope r) (rsv_metric r)
      + ?T (rsv_scope r) (rsv_metric r) Bucket_COMMITTED + rsv_reservedUnits r"
    using fits tot [of "rsv_scope r" "rsv_metric r"] r(3)
    by (simp add: usageTotal_total_of exact js_add_less_iff)
  then have room: "?A scope (rsv_metric r) + ?T scope (rsv_metric r) Bucket_COMMITTED
      + rsv_reservedUnits r \<le> Q (rsv_metric r)" if "sameScope (rsv_scope r) scope" for scope
    using Q(2) total_of_sameScope [OF that, of "ledger_entries st" "rsv_metric r"]
      tot(1) [of scope "rsv_metric r"] tot(1) [of "rsv_scope r" "rsv_metric r"] by simp
  have "usageTotal (add_reservation st e r) scope m Bucket_RESERVED
        = active_units (ledger_reservations (add_reservation st e r)) scope m
      \<and> 0 \<le> usageTotal (add_reservation st e r) scope m Bucket_COMMITTED
      \<and> usageTotal (add_reservation st e r) scope m Bucket_RESERVED
        + usageTotal (add_reservation st e r) scope m Bucket_COMMITTED \<le> Q m" for scope m
  proof (cases "sameScope (rsv_scope r) scope \<and> rsv_metric r = m")
    case True
    then have "?A scope m + ?T scope m Bucket_COMMITTED + rsv_reservedUnits r \<le> Q m"
      using room by blast
    moreover from this have "js_add (?A scope m) (rsv_reservedUnits r) = ?A scope m + rsv_reservedUnits r"
      using True tot [of scope m] r(3) Q(1) by (intro js_add_exact) (auto simp: max_safe_integer_def)
    ultimately show ?thesis
      using True tot [of scope m] e r
      by (simp add: usageTotal_total_of add_reservation_def total_of_snoc counted_def
          active_units_def holds_units_def)
  next
    case False
    then show ?thesis
      using tot [of scope m] e
      by (auto simp: usageTotal_total_of add_reservation_def total_of_snoc counted_def
          active_units_def holds_units_def)
  qed
  moreover have "distinct (map rsv_reservationId (ledger_reservations (add_reservation st e r)))"
    "\<forall>x \<in> set (ledger_reservations (add_reservation st e r)). 1 \<le> rsv_reservedUnits x"
    using ok r by (auto simp: ledger_ok_def add_reservation_def)
  ultimately show ?thesis unfolding ledger_ok_def by blast
qed

lemma ledger_ok_close:
  assumes ok: "ledger_ok Q st" and Q: "\<forall>m. Q m \<le> max_safe_integer"
    and r: "r \<in> set (ledger_reservations st)" "rsv_status r = Reservation_ACTIVE"
      "target \<noteq> Reservation_ACTIVE"
    and c: "\<forall>units ceid. commit = Some (units, ceid) \<longrightarrow> 1 \<le> units \<and> units \<le> rsv_reservedUnits r"
  shows "ledger_ok Q (settled_ledger st r target
      (release_entry st r eid key now #
        (case commit of None \<Rightarrow> [] | Some (units, ceid) \<Rightarrow> [commit_entry st r ceid units key now])))"
    (is "ledger_ok Q ?st'")
proof -
  let ?T = "total_of (ledger_entries st)" and ?A = "active_units (ledger_reservations st)"
  note tot = ledger_ok_total [OF ok]
  have d: "distinct (map rsv_reservationId (ledger_reservations st))"
    and u: "\<forall>r \<in> set (ledger_reservations st). 1 \<le> rsv_reservedUnits r"
    using ok by (auto simp: ledger_ok_def)
  define units where "units = (case commit of None \<Rightarrow> 0 | Some (n, _) \<Rightarrow> n)"
  have un: "0 \<le> units" "units \<le> rsv_reservedUnits r"
    using c u r(1) by (auto simp: units_def split: option.splits)
  have act: "active_units (ledger_reservations ?st') scope m
      = ?A scope m - (if holds_units scope m r then rsv_reservedUnits r else 0)" for scope m
    using active_units_close [OF d r] by (simp add: settled_ledger_def)
  have "usageTotal ?st' scope m Bucket_RESERVED
        = ?A scope m - (if holds_units scope m r then rsv_reservedUnits r else 0)
      \<and> usageTotal ?st' scope m Bucket_COMMITTED
        = ?T scope m Bucket_COMMITTED + (if holds_units scope m r then units else 0)" for scope m
  proof (cases "holds_units scope m r")
    case True
    then have room: "rsv_reservedUnits r \<le> ?A scope m" using active_units_member [OF u r(1)] by blast
    have "1 \<le> rsv_reservedUnits r" using u r(1) by blast
    then have "js_add (?A scope m) (- rsv_reservedUnits r) = ?A scope m - rsv_reservedUnits r"
      "js_add (?T scope m Bucket_COMMITTED) units = ?T scope m Bucket_COMMITTED + units"
      using room tot [of scope m] un spec [OF Q, of m] by (simp_all add: js_add_exact max_safe_integer_def)
    then show ?thesis
      using True tot(1) [of scope m]
      by (cases commit)
         (auto simp: usageTotal_total_of settled_ledger_def total_of_snoc total_of_snoc2 counted_def
           release_entry_def commit_entry_def holds_units_def units_def)
  next
    case False
    then show ?thesis
      using tot(1) [of scope m] r(2)
      by (cases commit)
         (auto simp: usageTotal_total_of settled_ledger_def total_of_snoc total_of_snoc2 counted_def
           release_entry_def commit_entry_def holds_units_def)
  qed
  then have "usageTotal ?st' scope m Bucket_RESERVED = active_units (ledger_reservations ?st') scope m
      \<and> 0 \<le> usageTotal ?st' scope m Bucket_COMMITTED
      \<and> usageTotal ?st' scope m Bucket_RESERVED + usageTotal ?st' scope m Bucket_COMMITTED \<le> Q m" for scope m
    using tot [of scope m] un act by auto
  moreover have "distinct (map rsv_reservationId (ledger_reservations ?st'))"
    using d by (simp add: settled_ledger_def comp_def if_distrib [of rsv_reservationId] cong: if_cong)
  moreover have "\<forall>x \<in> set (ledger_reservations ?st'). 1 \<le> rsv_reservedUnits x"
    using u r(1) by (auto simp: settled_ledger_def)
  ultimately show ?thesis unfolding ledger_ok_def by blast
qed

lemma ledger_step_ok:
  assumes "ledger_ok Q st" "within_plan Q Snap" "ledger_step E Snap st st'"
  shows "ledger_ok Q st'"
  using assms(3)
proof (cases rule: ledger_step_cases)
  case replay
  with assms show ?thesis by simp
next
  case (reserve s r e limit)
  then have "Q (rsv_metric r) \<le> max_safe_integer" "limit \<le> Q (rsv_metric r)"
    using assms(2) by (auto simp: within_plan_def)
  from ledger_ok_reserve [OF assms(1) this reserve(3-10) reserve(13)] reserve(2) show ?thesis by simp
next
  case (close r target eid key now commit)
  have "\<forall>m. Q m \<le> max_safe_integer" using assms(2) by (simp add: within_plan_def)
  from ledger_ok_close [OF assms(1) this close(2-5)] close(1) show ?thesis by simp
qed

text \<open>Reservations end once, and entries are only ever appended.\<close>

definition reservation_closes :: "usage_reservation \<Rightarrow> usage_reservation \<Rightarrow> bool" where
  "reservation_closes r r' \<longleftrightarrow>
     rsv_status r = Reservation_ACTIVE \<and> (\<exists>t. t \<noteq> Reservation_ACTIVE \<and> r' = closed_reservation r t)"

interpretation reservations: single_use reservation_closes "\<lambda>r. rsv_status r = Reservation_ACTIVE"
  by unfold_locales (auto simp: reservation_closes_def)

definition reservation_moves :: "usage_reservation \<Rightarrow> usage_reservation \<Rightarrow> bool" where
  "reservation_moves r r' \<longleftrightarrow> reservation_closes\<^sup>*\<^sup>* r r'"

definition ledger_extends :: "usage_ledger \<Rightarrow> usage_ledger \<Rightarrow> bool" where
  "ledger_extends st st' \<longleftrightarrow>
     (\<exists>es. ledger_entries st' = ledger_entries st @ es)
     \<and> (\<exists>moved new. ledger_reservations st' = moved @ new
          \<and> list_all2 reservation_moves (ledger_reservations st) moved)"

lemma reservation_moves_refl [simp]: "reservation_moves r r"
  by (simp add: reservation_moves_def)

lemma reservation_moves_close:
  "rsv_status r = Reservation_ACTIVE \<Longrightarrow> t \<noteq> Reservation_ACTIVE
   \<Longrightarrow> reservation_moves r (closed_reservation r t)"
  unfolding reservation_moves_def reservation_closes_def by (rule r_into_rtranclp) blast

lemma list_all2_moves_refl: "list_all2 reservation_moves rs rs"
  by (rule list.rel_refl) simp

lemma list_all2_moves_trans:
  "list_all2 reservation_moves a b \<Longrightarrow> list_all2 reservation_moves b c \<Longrightarrow> list_all2 reservation_moves a c"
  by (rule list_all2_trans [where ?P1.0 = reservation_moves and ?P2.0 = reservation_moves])
     (simp_all add: reservation_moves_def)

lemma ledger_extends_refl: "ledger_extends st st"
  unfolding ledger_extends_def
  by (intro conjI exI [of _ "[]"] exI [of _ "ledger_reservations st"]) (simp_all add: list_all2_moves_refl)

lemma ledger_extends_trans:
  assumes "ledger_extends a b" "ledger_extends b c"
  shows "ledger_extends a c"
proof -
  obtain es moved new where ab: "ledger_entries b = ledger_entries a @ es"
    "ledger_reservations b = moved @ new" "list_all2 reservation_moves (ledger_reservations a) moved"
    using assms(1) unfolding ledger_extends_def by blast
  obtain es' moved' new' where bc: "ledger_entries c = ledger_entries b @ es'"
    "ledger_reservations c = moved' @ new'" "list_all2 reservation_moves (ledger_reservations b) moved'"
    using assms(2) unfolding ledger_extends_def by blast
  obtain m n where "moved' = m @ n" "list_all2 reservation_moves moved m"
    using bc(3) ab(2) by (auto simp: list_all2_append1)
  with ab bc list_all2_moves_trans [OF ab(3)] have
    "ledger_entries c = ledger_entries a @ (es @ es')" "ledger_reservations c = m @ (n @ new')"
    "list_all2 reservation_moves (ledger_reservations a) m" by simp_all
  then show ?thesis unfolding ledger_extends_def by blast
qed

lemma ledger_step_extends:
  assumes "ledger_ok Q st" "ledger_step E Snap st st'"
  shows "ledger_extends st st'"
  using assms(2)
proof (cases rule: ledger_step_cases)
  case replay
  then show ?thesis by (simp add: ledger_extends_refl)
next
  case (reserve s r e limit)
  have "list_all2 reservation_moves (ledger_reservations st) (ledger_reservations st)"
    by (rule list_all2_moves_refl)
  with reserve(2) show ?thesis unfolding ledger_extends_def by (auto simp: add_reservation_def)
next
  case (close r target eid key now commit)
  have "x = r" if "x \<in> set (ledger_reservations st)" "rsv_reservationId x = rsv_reservationId r" for x
    using assms(1) close(2) that by (auto simp: ledger_ok_def distinct_map inj_on_def)
  then have "reservation_moves x (if rsv_reservationId x = rsv_reservationId r
      then closed_reservation r target else x)" if "x \<in> set (ledger_reservations st)" for x
    using that close(3,4) reservation_moves_close by auto
  then have "list_all2 reservation_moves (ledger_reservations st)
      (map (\<lambda>x. if rsv_reservationId x = rsv_reservationId r then closed_reservation r target else x)
        (ledger_reservations st))"
    by (simp add: list_all2_map2 list.rel_refl_strong)
  with close(1) show ?thesis unfolding ledger_extends_def by (auto simp: settled_ledger_def)
qed

lemma ledger_run_ok:
  assumes "within_plan Q Snap" "(ledger_step E Snap)\<^sup>*\<^sup>* st st'" "ledger_ok Q st"
  shows "ledger_ok Q st' \<and> ledger_extends st st'"
  using assms(2)
proof (induction rule: rtranclp_induct)
  case base
  with assms(3) ledger_extends_refl show ?case by blast
next
  case (step t u)
  with assms(1) ledger_step_ok ledger_step_extends ledger_extends_trans show ?case by blast
qed

section \<open>Facts about leases\<close>

lemma canonicalLease_inject: "canonicalLease a = canonicalLease b \<Longrightarrow> a = b"
  by (cases a; cases b) (simp add: canonicalLease_def del: stringify.simps)

interpretation leases: signed_payload canonicalLease
  by unfold_locales (rule canonicalLease_inject)

lemma create_lease_accepted:
  assumes "createEntitlementLeaseV1 E s i sign = Inr l"
  shows "lease_payload l = canonicalLease (unsigned_lease.truncate l)"
    and "lease_scope l = snapshot_scope s" and "lease_snapshotRevision l = snap_revision s"
    and "lease_securityEpoch l = snap_securityEpoch s"
    and "lifetime_within E (lease_issuedAt l) (lease_expiresAt l) 86400000"
    and "snap_status s = Entitlement_ACTIVE"
proof -
  obtain lid issued expires sig where k: "snapshotAllows E s issued = None"
    "\<not> lease_times_invalid E s issued expires"
    and l: "l = unsigned_lease.extend
        \<lparr>lease_leaseId = lid, lease_scope = snapshot_scope s,
         lease_snapshotRevision = snap_revision s, lease_securityEpoch = snap_securityEpoch s,
         lease_issuedAt = issued, lease_expiresAt = expires\<rparr>
        (entitlement_lease.fields
          (canonicalLease \<lparr>lease_leaseId = lid, lease_scope = snapshot_scope s,
         lease_snapshotRevision = snap_revision s, lease_securityEpoch = snap_securityEpoch s,
         lease_issuedAt = issued, lease_expiresAt = expires\<rparr>) sig)"
    using assms unfolding createEntitlementLeaseV1_def result_simps Let_def by auto
  show "lease_payload l = canonicalLease (unsigned_lease.truncate l)"
    "lease_scope l = snapshot_scope s" "lease_snapshotRevision l = snap_revision s"
    "lease_securityEpoch l = snap_securityEpoch s"
    by (simp_all add: l unsigned_lease.defs entitlement_lease.defs)
  show "lifetime_within E (lease_issuedAt l) (lease_expiresAt l) 86400000"
    using k(2) by (auto simp: l unsigned_lease.defs entitlement_lease.defs lease_times_invalid_def
        lifetime_within_iff lasts_longer_def OFFLINE_LEASE_MAX_SECONDS_V1_def)
  show "snap_status s = Entitlement_ACTIVE"
    using k(1) by (cases "snap_status s") (auto simp: snapshotAllows_def)
qed

lemma well_formed_lease_Some:
  assumes "well_formed_lease E p = Some (l, payload, signature)"
  shows "stable E (got_leaseId p) = Some (lease_leaseId l)" "scope_value E (got_scope p) = Some (lease_scope l)"
    "timestamp E (got_issuedAt p) = Some (lease_issuedAt l)"
    "timestamp E (got_expiresAt p) = Some (lease_expiresAt l)"
    "positiveInteger (got_snapshotRevision p) = Some (lease_snapshotRevision l)"
    "positiveInteger (got_securityEpoch p) = Some (lease_securityEpoch l)"
    "got_payload p = Str payload" "payload = canonicalLease l"
proof -
  obtain lid scope issued expires revision epoch where k: "stable E (got_leaseId p) = Some lid"
    "scope_value E (got_scope p) = Some scope" "timestamp E (got_issuedAt p) = Some issued"
    "timestamp E (got_expiresAt p) = Some expires"
    "positiveInteger (got_snapshotRevision p) = Some revision"
    "positiveInteger (got_securityEpoch p) = Some epoch"
    "as_string (got_payload p) = Some payload"
    "l = \<lparr>lease_leaseId = lid, lease_scope = scope, lease_snapshotRevision = revision,
          lease_securityEpoch = epoch, lease_issuedAt = issued, lease_expiresAt = expires\<rparr>"
    "payload = canonicalLease l"
    using assms unfolding well_formed_lease_def accepted_value_Some result_simps Let_def by blast
  then show "stable E (got_leaseId p) = Some (lease_leaseId l)" "scope_value E (got_scope p) = Some (lease_scope l)"
    "timestamp E (got_issuedAt p) = Some (lease_issuedAt l)"
    "timestamp E (got_expiresAt p) = Some (lease_expiresAt l)"
    "positiveInteger (got_snapshotRevision p) = Some (lease_snapshotRevision l)"
    "positiveInteger (got_securityEpoch p) = Some (lease_securityEpoch l)" "payload = canonicalLease l"
    by simp_all
  show "got_payload p = Str payload" using k(7) by (cases "got_payload p") simp_all
qed

lemma accept_lease_iff:
  "acceptEntitlementLeaseV1 E p i verify = Inr () \<longleftrightarrow>
     (\<exists>now scope l payload signature. timestamp E (in_accept_now i) = Some now
        \<and> scope_value E (in_accept_scope i) = Some scope
        \<and> positiveInteger (in_accept_snapshotRevision i) = Some (lease_snapshotRevision l)
        \<and> positiveInteger (in_accept_securityEpoch i) = Some (lease_securityEpoch l)
        \<and> well_formed_lease E p = Some (l, payload, signature)
        \<and> sameScope (lease_scope l) scope \<and> verify payload signature = Some True
        \<and> \<not> date_less (Date_parse E now) (Date_parse E (lease_issuedAt l))
        \<and> \<not> date_le (Date_parse E (lease_expiresAt l)) (Date_parse E now))"
  unfolding acceptEntitlementLeaseV1_def result_simps by (auto simp: result_simps split: prod.splits)

section \<open>Properties\<close>

definition sample_snapshot :: entitlement_snapshot where
  "sample_snapshot =
     \<lparr>snap_snapshotId = uuid_of CHR ''a'', snap_organizationId = uuid_of CHR ''b'',
      snap_workspaceId = None, snap_planCode = Plan_free, snap_status = Entitlement_ACTIVE,
      snap_revision = 3, snap_securityEpoch = 2, snap_effectiveAt = time_of ''00'',
      snap_expiresAt = None, snap_features = [js ''export''],
      snap_quotas = [\<lparr>quota_metric = Metric_job_count, quota_limit = 10\<rparr>]\<rparr>"

definition sample_reserve :: reserve_input where
  "sample_reserve =
     \<lparr>in_rsv_reservationId = sample_id CHR ''c'', in_rsv_entryId = sample_id CHR ''d'',
      in_rsv_scope = scope_object (org_scope CHR ''b''), in_rsv_metric = Str (js ''job_count''),
      in_rsv_requestedUnits = int_num 4, in_rsv_idempotencyKey = Str (js ''key''),
      in_rsv_now = sample_time ''01''\<rparr>"

lemma sample_snapshot_fields:
  "snap_revision sample_snapshot = 3" "snap_securityEpoch sample_snapshot = 2"
  "snap_effectiveAt sample_snapshot = time_of ''00''" "snap_expiresAt sample_snapshot = None"
  by (simp_all add: sample_snapshot_def)

lemma sample_snapshot_allows: "snapshotAllows E sample_snapshot now = None"
  by (simp add: snapshotAllows_def sample_snapshot_def)

lemma sample_reserves: "\<exists>st' r. reserveUsageV1 sample_env sample_snapshot empty_ledger sample_reserve = Inr (st', r)"
proof -
  have "one_of metrics (Str (js ''job_count'')) = Some Metric_job_count" by (simp add: metrics_def)
  moreover have "quotaFor sample_snapshot Metric_job_count = Some 10"
    by (simp add: quotaFor_def sample_snapshot_def)
  moreover have "usageTotal empty_ledger scope m b = 0" for scope m b
    by (simp add: usageTotal_def empty_ledger_def)
  ultimately show ?thesis
    by (simp add: reserveUsageV1_def sample_reserve_def result_simps sample_snapshot_allows
        unless_blocked_def plain_def max_safe_integer_def js_add_def empty_ledger_def Let_def)
qed

text \<open>
  C4: quotas hold. Whatever reservations, finalizations and releases are accepted, in whatever
  order, by a ledger that started empty and under snapshots whose quotas are at most Q (Q safe
  integers): in every scope the committed and the reserved usage of a metric together never
  exceed its quota; the reserved usage is exactly what the active reservations hold, however
  many entries recorded it; and the committed usage is never negative.
\<close>

theorem usage_within_quota:
  assumes "within_plan Q Snap" and "(ledger_step E Snap)\<^sup>*\<^sup>* empty_ledger st"
  shows "usageTotal st scope m Bucket_COMMITTED + usageTotal st scope m Bucket_RESERVED \<le> Q m
     \<and> 0 \<le> usageTotal st scope m Bucket_COMMITTED
     \<and> usageTotal st scope m Bucket_RESERVED = active_units (ledger_reservations st) scope m"
proof -
  have "ledger_ok Q st"
    using ledger_run_ok [OF assms ledger_ok_empty [OF assms(1)]] by blast
  from ledger_ok_total [OF this, of scope m] show ?thesis by (simp add: usageTotal_total_of)
qed

theorem usage_within_quota_witness:
  "\<exists>st. st \<noteq> empty_ledger
     \<and> usageTotal st (org_scope CHR ''b'') Metric_job_count Bucket_COMMITTED
       + usageTotal st (org_scope CHR ''b'') Metric_job_count Bucket_RESERVED \<le> 10"
proof -
  obtain st r where r: "reserveUsageV1 sample_env sample_snapshot empty_ledger sample_reserve = Inr (st, r)"
    using sample_reserves by blast
  then have run: "(ledger_step sample_env {sample_snapshot})\<^sup>*\<^sup>* empty_ledger st"
    by (intro r_into_rtranclp ledger_step.reserve) simp_all
  have "within_plan (\<lambda>_. 10) {sample_snapshot}"
    by (auto simp: within_plan_def quotaFor_def sample_snapshot_def max_safe_integer_def)
  from usage_within_quota [OF this run] have
    "usageTotal st (org_scope CHR ''b'') Metric_job_count Bucket_COMMITTED
       + usageTotal st (org_scope CHR ''b'') Metric_job_count Bucket_RESERVED \<le> 10" by blast
  moreover from r have "st \<noteq> empty_ledger"
    by (cases rule: reserve_accepted) (simp_all add: empty_ledger_def add_reservation_def)
  ultimately show ?thesis by blast
qed

text \<open>
  The ledger is an append-only history. Between any two states of a ledger that started
  empty, the later entries extend the earlier ones, no reservation disappears or changes its
  place, and each reservation is either as it was or was closed, from ACTIVE, exactly once:
  its scope, metric and units are fixed, and a finalized or released one never changes again.
\<close>

theorem ledger_history:
  assumes "within_plan Q Snap" and "(ledger_step E Snap)\<^sup>*\<^sup>* empty_ledger st"
    and "(ledger_step E Snap)\<^sup>*\<^sup>* st st'"
  shows "\<exists>es moved new. ledger_entries st' = ledger_entries st @ es
     \<and> ledger_reservations st' = moved @ new
     \<and> list_all2 (\<lambda>r r'. r' = r \<or> reservation_closes r r') (ledger_reservations st) moved"
proof -
  have "ledger_ok Q st"
    using ledger_run_ok [OF assms(1,2) ledger_ok_empty [OF assms(1)]] by blast
  then have "ledger_extends st st'" using ledger_run_ok [OF assms(1,3)] by blast
  then obtain es moved new where e: "ledger_entries st' = ledger_entries st @ es"
    "ledger_reservations st' = moved @ new" "list_all2 reservation_moves (ledger_reservations st) moved"
    unfolding ledger_extends_def by blast
  have "list_all2 (\<lambda>r r'. r' = r \<or> reservation_closes r r') (ledger_reservations st) moved"
    by (rule list_all2_mono [OF e(3)]) (auto simp: reservation_moves_def dest: reservations.spent_once)
  with e show ?thesis by blast
qed

definition sample_settle :: settle_input where
  "sample_settle =
     \<lparr>in_settle_reservationId = sample_id CHR ''c'', in_settle_releaseEntryId = sample_id CHR ''e'',
      in_settle_commitEntryId = sample_id CHR ''f'', in_settle_committedUnits = int_num 3,
      in_settle_now = sample_time ''02'', in_settle_idempotencyKey = Str (js ''settle'')\<rparr>"

lemma sample_finalizes:
  assumes "reserveUsageV1 sample_env sample_snapshot empty_ledger sample_reserve = Inr (st, r)"
  shows "\<exists>st'. finalizeUsageV1 sample_env st sample_settle = Inr st' \<and> length (ledger_entries st') = 3"
proof -
  have k: "one_of metrics (Str (js ''job_count'')) = Some Metric_job_count"
    "quotaFor sample_snapshot Metric_job_count = Some 10" "usageTotal empty_ledger scope m b = 0" for scope m b
    by (simp_all add: metrics_def quotaFor_def sample_snapshot_def usageTotal_def empty_ledger_def)
  have "ledger_reservations st = [r] \<and> rsv_reservationId r = uuid_of CHR ''c'' \<and> rsv_reservedUnits r = 4
      \<and> rsv_status r = Reservation_ACTIVE \<and> (\<exists>e. ledger_entries st = [e] \<and> usage_idempotencyKey e = js ''key'')"
    using assms k
    by (auto simp: reserveUsageV1_def sample_reserve_def result_simps sample_snapshot_allows
        unless_blocked_def plain_def max_safe_integer_def js_add_def empty_ledger_def Let_def
        add_reservation_def)
  then show ?thesis
    by (auto simp: finalizeUsageV1_def settleReservationV1_def sample_settle_def result_simps plain_def
        commitment_def max_safe_integer_def settled_ledger_def)
qed

theorem ledger_history_witness:
  "\<exists>st st'. finalizeUsageV1 sample_env st sample_settle = Inr st' \<and> length (ledger_entries st') = 3
     \<and> (\<exists>es. ledger_entries st' = ledger_entries st @ es)"
proof -
  obtain st r where r: "reserveUsageV1 sample_env sample_snapshot empty_ledger sample_reserve = Inr (st, r)"
    using sample_reserves by blast
  then have run: "(ledger_step sample_env {sample_snapshot})\<^sup>*\<^sup>* empty_ledger st"
    by (intro r_into_rtranclp ledger_step.reserve) simp_all
  obtain st' where f: "finalizeUsageV1 sample_env st sample_settle = Inr st'"
    "length (ledger_entries st') = 3"
    using sample_finalizes [OF r] by blast
  then have run': "(ledger_step sample_env {sample_snapshot})\<^sup>*\<^sup>* st st'"
    by (intro r_into_rtranclp ledger_step.finalize)
  have "within_plan (\<lambda>_. 10) {sample_snapshot}"
    by (auto simp: within_plan_def quotaFor_def sample_snapshot_def max_safe_integer_def)
  from ledger_history [OF this run run'] f show ?thesis by blast
qed

text \<open>
  C10: Offline leases are authentic. Suppose signatures cannot be forged (a signature only verifies
  for the payload of an issued lease) and every issued lease came from \<open>createEntitlementLeaseV1\<close>
  for a snapshot of \<open>Snap\<close>. A presented lease is then accepted only if it is one of the issued
  leases, field by field: its scope is the snapshot's and the one asked for, its revision and
  security epoch are the snapshot's and the current ones, the snapshot was active, the lease
  lives at most a day, and the present time is within it.
\<close>

theorem lease_authentic:
  assumes "acceptEntitlementLeaseV1 E p i verify = Inr ()"
    and unforgeable: "\<And>payload signature. verify payload signature = Some True \<Longrightarrow> \<exists>l \<in> Issued. lease_payload l = payload"
    and issued: "\<And>l. l \<in> Issued \<Longrightarrow> \<exists>s \<in> Snap. \<exists>j sign. createEntitlementLeaseV1 E s j sign = Inr l"
  shows "\<exists>l \<in> Issued. \<exists>s \<in> Snap. \<exists>scope now.
     stable E (got_leaseId p) = Some (lease_leaseId l)
     \<and> scope_value E (got_scope p) = Some (snapshot_scope s)
     \<and> scope_value E (in_accept_scope i) = Some scope \<and> sameScope (snapshot_scope s) scope
     \<and> positiveInteger (in_accept_snapshotRevision i) = Some (snap_revision s)
     \<and> positiveInteger (in_accept_securityEpoch i) = Some (snap_securityEpoch s)
     \<and> snap_status s = Entitlement_ACTIVE
     \<and> timestamp E (got_issuedAt p) = Some (lease_issuedAt l)
     \<and> timestamp E (got_expiresAt p) = Some (lease_expiresAt l)
     \<and> lifetime_within E (lease_issuedAt l) (lease_expiresAt l) 86400000
     \<and> timestamp E (in_accept_now i) = Some now
     \<and> (\<forall>n. Date_parse E now = Some n \<longrightarrow>
          date_le (Date_parse E (lease_issuedAt l)) (Some n)
          \<and> date_less (Some n) (Date_parse E (lease_expiresAt l)))"
proof -
  obtain now scope u payload signature where a:
    "timestamp E (in_accept_now i) = Some now" "scope_value E (in_accept_scope i) = Some scope"
    "positiveInteger (in_accept_snapshotRevision i) = Some (lease_snapshotRevision u)"
    "positiveInteger (in_accept_securityEpoch i) = Some (lease_securityEpoch u)"
    "well_formed_lease E p = Some (u, payload, signature)" "sameScope (lease_scope u) scope"
    "verify payload signature = Some True"
    "\<not> date_less (Date_parse E now) (Date_parse E (lease_issuedAt u))"
    "\<not> date_le (Date_parse E (lease_expiresAt u)) (Date_parse E now)"
    using assms(1) unfolding accept_lease_iff by blast
  obtain l where l: "l \<in> Issued" "lease_payload l = payload" using unforgeable [OF a(7)] by blast
  obtain s j sign where s: "s \<in> Snap" "createEntitlementLeaseV1 E s j sign = Inr l"
    using issued [OF l(1)] by blast
  note w = well_formed_lease_Some [OF a(5)] and c = create_lease_accepted [OF s(2)]
  have "u = unsigned_lease.truncate l" by (rule leases.payload_unique [OF w(8)]) (use l(2) c(1) in simp)
  then have u: "lease_leaseId u = lease_leaseId l" "lease_scope u = lease_scope l"
    "lease_snapshotRevision u = lease_snapshotRevision l" "lease_securityEpoch u = lease_securityEpoch l"
    "lease_issuedAt u = lease_issuedAt l" "lease_expiresAt u = lease_expiresAt l"
    by (simp_all add: unsigned_lease.defs)
  have "\<forall>n. Date_parse E now = Some n \<longrightarrow>
          date_le (Date_parse E (lease_issuedAt l)) (Some n)
          \<and> date_less (Some n) (Date_parse E (lease_expiresAt l))"
    using a(8,9) c(5) u(5,6) by (auto simp: lifetime_within_iff)
  with a w c l s u show ?thesis by (metis)
qed

definition sample_lease_input :: lease_input where
  "sample_lease_input = \<lparr>in_lease_leaseId = sample_id CHR ''c'', in_lease_issuedAt = sample_time ''01'',
     in_lease_expiresAt = sample_time ''30''\<rparr>"

definition sample_lease_fields :: unsigned_lease where
  "sample_lease_fields =
     \<lparr>lease_leaseId = uuid_of CHR ''c'', lease_scope = org_scope CHR ''b'', lease_snapshotRevision = 3,
      lease_securityEpoch = 2, lease_issuedAt = time_of ''01'', lease_expiresAt = time_of ''30''\<rparr>"

definition sample_presented :: presented_lease where
  "sample_presented =
     \<lparr>got_schemaVersion = int_num 1, got_leaseId = sample_id CHR ''c'',
      got_scope = scope_object (org_scope CHR ''b''), got_snapshotRevision = int_num 3,
      got_securityEpoch = int_num 2, got_issuedAt = sample_time ''01'',
      got_expiresAt = sample_time ''30'', got_payload = Str (canonicalLease sample_lease_fields),
      got_signature = Str (js ''signed'')\<rparr>"

definition sample_accept :: accept_input where
  "sample_accept = \<lparr>in_accept_now = sample_time ''05'', in_accept_scope = scope_object (org_scope CHR ''b''),
     in_accept_snapshotRevision = int_num 3, in_accept_securityEpoch = int_num 2\<rparr>"

lemma sample_payload_text:
  "text_value sample_env (Str (canonicalLease sample_lease_fields)) 10000 \<noteq> None"
  unfolding canonicalLease_def
proof (rule stringify_text)
  have "length (show_int 1) = 1" "length (show_int 2) = 1" "length (show_int 3) = 1" by code_simp+
  then show "json_bound (JObj
       [(js ''schemaVersion'', JInt 1), (js ''leaseId'', JStr (lease_leaseId sample_lease_fields)),
        (js ''tenantScope'', scope_json (lease_scope sample_lease_fields)),
        (js ''snapshotRevision'', JInt (lease_snapshotRevision sample_lease_fields)),
        (js ''securityEpoch'', JInt (lease_securityEpoch sample_lease_fields)),
        (js ''issuedAt'', JStr (lease_issuedAt sample_lease_fields)),
        (js ''expiresAt'', JStr (lease_expiresAt sample_lease_fields))]) \<le> 10000"
    by (simp add: sample_lease_fields_def org_scope_def)
qed (simp add: sample_lease_fields_def org_scope_def)

lemma sample_lease_issued:
  "\<exists>l. createEntitlementLeaseV1 sample_env sample_snapshot sample_lease_input (\<lambda>_. Some (Str (js ''signed''))) = Inr l
     \<and> lease_payload l = canonicalLease sample_lease_fields"
proof -
  have "snapshot_scope sample_snapshot = org_scope CHR ''b''"
    by (simp add: snapshot_scope_def sample_snapshot_def org_scope_def)
  then show ?thesis
    by (simp add: createEntitlementLeaseV1_def sample_lease_input_def result_simps sample_snapshot_allows
        unless_blocked_def lease_times_invalid_def lasts_longer_def OFFLINE_LEASE_MAX_SECONDS_V1_def
        plain_def Let_def unsigned_lease.defs entitlement_lease.defs sample_lease_fields_def
        sample_snapshot_fields)
qed

lemma sample_lease_accepted:
  "acceptEntitlementLeaseV1 sample_env sample_presented sample_accept
     (\<lambda>payload signature. Some (payload = canonicalLease sample_lease_fields)) = Inr ()"
proof -
  have scope_org: "scopeType (org_scope c) = Organization_type" for c by (simp add: org_scope_def)
  obtain y where y: "text_value sample_env (Str (canonicalLease sample_lease_fields)) 10000 = Some y"
    using sample_payload_text by blast
  have "well_formed_lease sample_env sample_presented
      = Some (sample_lease_fields, canonicalLease sample_lease_fields, js ''signed'')"
    using y scope_org
    by (simp add: well_formed_lease_def sample_presented_def result_simps plain_def lasts_longer_def
        OFFLINE_LEASE_MAX_SECONDS_V1_def is_int_def max_safe_integer_def Let_def
        accepted_value_def sample_lease_fields_def)
  then show ?thesis
    by (simp add: acceptEntitlementLeaseV1_def sample_accept_def result_simps sample_lease_fields_def
        max_safe_integer_def sameScope_def)
qed

theorem lease_authentic_witness:
  "acceptEntitlementLeaseV1 sample_env sample_presented sample_accept
     (\<lambda>payload signature. Some (payload = canonicalLease sample_lease_fields)) = Inr ()
   \<and> scope_value sample_env (got_scope sample_presented) = Some (snapshot_scope sample_snapshot)"
proof -
  obtain l where l: "createEntitlementLeaseV1 sample_env sample_snapshot sample_lease_input
      (\<lambda>_. Some (Str (js ''signed''))) = Inr l" "lease_payload l = canonicalLease sample_lease_fields"
    using sample_lease_issued by blast
  have "\<exists>k \<in> {l}. lease_payload k = payload"
    if "Some (payload = canonicalLease sample_lease_fields) = Some True" for payload
    using that l(2) by simp
  moreover have "\<exists>s \<in> {sample_snapshot}. \<exists>j sign. createEntitlementLeaseV1 sample_env s j sign = Inr k"
    if "k \<in> {l}" for k
    using that l(1) by blast
  ultimately show ?thesis
    using lease_authentic [OF sample_lease_accepted, of "{l}" "{sample_snapshot}"] sample_lease_accepted
    by blast
qed

text \<open>
  What grants a feature. An evaluation succeeds exactly when the normalised key (NFC, trimmed,
  at most 120 units) is literally among the snapshot's features and the snapshot is active and
  not past its expiry. A key is always trimmed, but a plan keeps its features as they were
  written, so a feature that a plan was allowed to list with surrounding white space is granted
  to nobody.
\<close>

theorem feature_grant_exact:
  "evaluateEntitlementV1 E s now feature = Inr () \<longleftrightarrow>
     (\<exists>t f. timestamp E now = Some t \<and> text_value E feature 120 = Some f \<and> f \<in> set (snap_features s)
        \<and> trim f = f \<and> snap_status s = Entitlement_ACTIVE
        \<and> (\<nexists>x. snap_expiresAt s = Some x \<and> date_le (Date_parse E x) (Date_parse E t)))"
proof -
  have trimmed: "text_value E feature 120 = Some f \<Longrightarrow> trim f = f" for f
    by (auto simp: text_value_def Let_def split: jsval.splits if_splits)
  have "snapshotAllows E s t = None \<longleftrightarrow> snap_status s = Entitlement_ACTIVE
        \<and> (\<nexists>x. snap_expiresAt s = Some x \<and> date_le (Date_parse E x) (Date_parse E t))" for t
    by (cases "snap_status s") (auto simp: snapshotAllows_def split: option.splits)
  then show ?thesis
    unfolding evaluateEntitlementV1_def result_simps using trimmed
    by (auto simp: result_simps split: if_splits)
qed

end
