(* ===== verification/AuditChain.thy ===== *)
theory AuditChain
  imports "HOL-Library.Multiset" Json Samples Machine
begin

text \<open>
  packages/domain/src/audit/v1.ts: the tenant-scoped audit ledger. Events of a scope are numbered
  from 1 and linked by digests; seals summarise a scope's chain, and attestations sign seals. The
  digest port and the signer are parameters: functions from texts to texts.
\<close>

section \<open>Data\<close>

datatype audit_action =
    Action_auth_sign_in | Action_auth_sign_out | Action_auth_mfa_enrolled | Action_auth_mfa_recovered
  | Action_organization_created | Action_workspace_created
  | Action_membership_invited | Action_membership_accepted | Action_membership_suspended
  | Action_membership_removed
  | Action_device_enrolled | Action_device_activated | Action_device_revoked
  | Action_service_account_created | Action_service_account_rotated | Action_service_account_revoked
  | Action_entitlement_granted | Action_entitlement_suspended
  | Action_artifact_registered | Action_artifact_deleted
  | Action_job_started | Action_job_completed | Action_job_failed
  | Action_approval_requested | Action_approval_accepted | Action_approval_rejected
  | Action_audit_exported

definition AUDIT_ACTIONS_V1 :: "(string \<times> audit_action) list" where
  "AUDIT_ACTIONS_V1 =
     [(''auth.sign_in'', Action_auth_sign_in), (''auth.sign_out'', Action_auth_sign_out),
      (''auth.mfa_enrolled'', Action_auth_mfa_enrolled),
      (''auth.mfa_recovered'', Action_auth_mfa_recovered),
      (''organization.created'', Action_organization_created),
      (''workspace.created'', Action_workspace_created),
      (''membership.invited'', Action_membership_invited),
      (''membership.accepted'', Action_membership_accepted),
      (''membership.suspended'', Action_membership_suspended),
      (''membership.removed'', Action_membership_removed),
      (''device.enrolled'', Action_device_enrolled), (''device.activated'', Action_device_activated),
      (''device.revoked'', Action_device_revoked),
      (''service_account.created'', Action_service_account_created),
      (''service_account.rotated'', Action_service_account_rotated),
      (''service_account.revoked'', Action_service_account_revoked),
      (''entitlement.granted'', Action_entitlement_granted),
      (''entitlement.suspended'', Action_entitlement_suspended),
      (''artifact.registered'', Action_artifact_registered),
      (''artifact.deleted'', Action_artifact_deleted),
      (''job.started'', Action_job_started), (''job.completed'', Action_job_completed),
      (''job.failed'', Action_job_failed), (''approval.requested'', Action_approval_requested),
      (''approval.accepted'', Action_approval_accepted),
      (''approval.rejected'', Action_approval_rejected), (''audit.exported'', Action_audit_exported)]"

datatype actor_type = Actor_USER | Actor_SERVICE_ACCOUNT | Actor_DEVICE | Actor_SYSTEM

definition actor_types :: "(string \<times> actor_type) list" where
  "actor_types =
     [(''USER'', Actor_USER), (''SERVICE_ACCOUNT'', Actor_SERVICE_ACCOUNT),
      (''DEVICE'', Actor_DEVICE), (''SYSTEM'', Actor_SYSTEM)]"

text \<open>The literal of a value of a closed vocabulary: the table read backwards.\<close>

definition literal :: "(string \<times> 'a) list \<Rightarrow> 'a \<Rightarrow> json" where
  "literal table x =
     (case List.find (\<lambda>p. snd p = x) table of None \<Rightarrow> JNull | Some p \<Rightarrow> JStr (js (fst p)))"

datatype summary_value =
    Summary_text jsstr | Summary_number int | Summary_flag bool | Summary_null

type_synonym audit_summary = "(jsstr \<times> summary_value) list"

record audit_actor =
  actor_actorType :: actor_type
  actor_actorId :: stable_id

record audit_record =
  audit_schemaVersion :: int
  audit_eventId :: stable_id
  audit_action :: audit_action
  audit_tenantScope :: tenant_scope
  audit_actor :: audit_actor
  audit_entityType :: jsstr
  audit_entityId :: stable_id
  audit_entityRevision :: int
  audit_sequence :: int
  audit_occurredAt :: utc_timestamp
  audit_correlationId :: stable_id
  audit_idempotencyKey :: jsstr
  audit_summary :: audit_summary
  audit_previousDigest :: "jsstr option"

record audit_event = audit_record +
  audit_digest :: jsstr

type_synonym audit_ledger = "audit_event list"

type_synonym digest_port = "jsstr \<Rightarrow> jsstr"

record audit_input =
  in_audit_eventId :: jsval
  in_audit_action :: jsval
  in_audit_tenantScope :: jsval
  in_audit_actor :: jsval
  in_audit_entityType :: jsval
  in_audit_entityId :: jsval
  in_audit_entityRevision :: jsval
  in_audit_occurredAt :: jsval
  in_audit_correlationId :: jsval
  in_audit_idempotencyKey :: jsval
  in_audit_summary :: jsval

record audit_seal =
  seal_tenantScope :: tenant_scope
  seal_firstSequence :: int
  seal_lastSequence :: int
  seal_eventCount :: int
  seal_rootDigest :: jsstr
  seal_sealedAt :: utc_timestamp

record unsigned_attestation =
  attest_schemaVersion :: int
  attest_attestationId :: stable_id
  attest_tenantScope :: tenant_scope
  attest_firstSequence :: int
  attest_lastSequence :: int
  attest_eventCount :: int
  attest_rootDigest :: jsstr
  attest_sealedAt :: utc_timestamp
  attest_signerKeyId :: jsstr

record attestation = unsigned_attestation +
  attest_payload :: jsstr
  attest_signature :: jsstr

datatype audit_error =
    Audit_INVALID_IDENTIFIER
  | Audit_INVALID_TIMESTAMP
  | Audit_INVALID_SCOPE
  | Audit_INVALID_ACTION
  | Audit_INVALID_ACTOR
  | Audit_INVALID_TEXT
  | Audit_INVALID_REVISION
  | Audit_INVALID_SEQUENCE
  | Audit_INVALID_SUMMARY
  | Audit_IDEMPOTENCY_CONFLICT
  | Audit_CHAIN_INVALID

definition SAFE_SUMMARY_KEYS_V1 :: "string list" where
  "SAFE_SUMMARY_KEYS_V1 =
     [''outcome'', ''status'', ''reasonCode'', ''resourceType'', ''providerCode'', ''attemptCount'',
      ''revision'']"

section \<open>Canonical texts\<close>

fun summary_json :: "summary_value \<Rightarrow> json" where
  "summary_json (Summary_text s) = JStr s"
| "summary_json (Summary_number n) = JInt n"
| "summary_json (Summary_flag b) = JBool b"
| "summary_json Summary_null = JNull"

text \<open>
  \<open>Object.fromEntries\<close>: the object enumerates its array indices first, in ascending order, then
  the other keys in the order of the entries.
\<close>

definition array_index :: "jsstr \<Rightarrow> bool" where
  "array_index k \<longleftrightarrow> k \<noteq> [] \<and> list_all digit k \<and> (k = js ''0'' \<or> hd k \<noteq> of_char CHR ''0'')
     \<and> decimal k < 4294967295"

definition from_entries :: "(jsstr \<times> 'a) list \<Rightarrow> (jsstr \<times> 'a) list" where
  "from_entries es =
     sort_key (\<lambda>e. decimal (fst e)) (filter (\<lambda>e. array_index (fst e)) es)
     @ filter (\<lambda>e. \<not> array_index (fst e)) es"

definition canonicalSummary :: "env \<Rightarrow> audit_summary \<Rightarrow> jsstr" where
  "canonicalSummary E summary =
     stringify (JObj (map (\<lambda>(k, v). (k, summary_json v))
       (from_entries (sort_key (\<lambda>e. collation E (fst e)) summary))))"

text \<open>\<open>JSON.parse\<close> of a text that \<open>JSON.stringify\<close> made.\<close>

definition reparsed :: "jsstr \<Rightarrow> json" where
  "reparsed s = (case JSON_parse s of None \<Rightarrow> JNull | Some v \<Rightarrow> v)"

definition digest_json :: "jsstr option \<Rightarrow> json" where
  "digest_json d = (case d of None \<Rightarrow> JNull | Some s \<Rightarrow> JStr s)"

definition actor_json :: "audit_actor \<Rightarrow> json" where
  "actor_json a =
     JObj [(js ''actorType'', literal actor_types (actor_actorType a)),
           (js ''actorId'', JStr (actor_actorId a))]"

definition canonicalEvent :: "env \<Rightarrow> audit_record \<Rightarrow> jsstr" where
  "canonicalEvent E e =
     stringify (JObj
       [(js ''schemaVersion'', JInt (audit_schemaVersion e)),
        (js ''eventId'', JStr (audit_eventId e)),
        (js ''action'', literal AUDIT_ACTIONS_V1 (audit_action e)),
        (js ''tenantScope'', scope_json (audit_tenantScope e)),
        (js ''actor'', actor_json (audit_actor e)),
        (js ''entityType'', JStr (audit_entityType e)),
        (js ''entityId'', JStr (audit_entityId e)),
        (js ''entityRevision'', JInt (audit_entityRevision e)),
        (js ''sequence'', JInt (audit_sequence e)),
        (js ''occurredAt'', JStr (audit_occurredAt e)),
        (js ''correlationId'', JStr (audit_correlationId e)),
        (js ''idempotencyKey'', JStr (audit_idempotencyKey e)),
        (js ''summary'', reparsed (canonicalSummary E (audit_summary e))),
        (js ''previousDigest'', digest_json (audit_previousDigest e))])"

definition canonicalAttestation :: "unsigned_attestation \<Rightarrow> jsstr" where
  "canonicalAttestation a =
     stringify (JObj
       [(js ''schemaVersion'', JInt (attest_schemaVersion a)),
        (js ''attestationId'', JStr (attest_attestationId a)),
        (js ''tenantScope'', scope_json (attest_tenantScope a)),
        (js ''firstSequence'', JInt (attest_firstSequence a)),
        (js ''lastSequence'', JInt (attest_lastSequence a)),
        (js ''eventCount'', JInt (attest_eventCount a)),
        (js ''rootDigest'', JStr (attest_rootDigest a)),
        (js ''sealedAt'', JStr (attest_sealedAt a)),
        (js ''signerKeyId'', JStr (attest_signerKeyId a))])"

section \<open>Operations\<close>

fun sanitize_value :: "env \<Rightarrow> jsval \<Rightarrow> summary_value option" where
  "sanitize_value E (Str s) = map_option Summary_text (text_value E (Str s) 200)"
| "sanitize_value E Null = Some Summary_null"
| "sanitize_value E (Bool b) = Some (Summary_flag b)"
| "sanitize_value E (Num n) = map_option Summary_number (safe_integer (Num n))"
| "sanitize_value E _ = None"

fun sanitize_entries :: "env \<Rightarrow> (jsstr \<times> jsval) list \<Rightarrow> audit_error + audit_summary" where
  "sanitize_entries E [] = accepted []"
| "sanitize_entries E ((key, v) # ps) =
     reject_if (key \<notin> js ` set SAFE_SUMMARY_KEYS_V1) Audit_INVALID_SUMMARY (
     require Audit_INVALID_SUMMARY (sanitize_value E v) (\<lambda>w.
     and_then (sanitize_entries E ps) (\<lambda>rest. accepted ((key, w) # rest))))"

definition sanitizeAuditSummaryV1 :: "env \<Rightarrow> jsval \<Rightarrow> audit_error + audit_summary" where
  "sanitizeAuditSummaryV1 E v =
     (case v of
        Undefined \<Rightarrow> accepted []
      | Obj ps \<Rightarrow> sanitize_entries E ps
      | _ \<Rightarrow> rejected Audit_INVALID_SUMMARY)"

definition in_scope :: "tenant_scope \<Rightarrow> audit_event \<Rightarrow> bool" where
  "in_scope scope e \<longleftrightarrow> tenantScopeKeyV1 (audit_tenantScope e) = tenantScopeKeyV1 scope"

text \<open>\<open>scopedEvents.at(-1)\<close>\<close>

definition last_option :: "'a list \<Rightarrow> 'a option" where
  "last_option xs = (if xs = [] then None else Some (last xs))"

definition next_sequence :: "audit_event option \<Rightarrow> int" where
  "next_sequence previous = js_succ (case previous of None \<Rightarrow> 0 | Some p \<Rightarrow> audit_sequence p)"

text \<open>The branch that appends: the record is linked to the scope's last event and digested.\<close>

definition append_record ::
    "env \<Rightarrow> digest_port \<Rightarrow> audit_ledger \<Rightarrow> audit_record \<Rightarrow> audit_error + audit_ledger \<times> audit_event" where
  "append_record E D st r =
     require Audit_CHAIN_INVALID (text_value E (Str (D (canonicalEvent E r))) 512) (\<lambda>digest.
     let event = audit_record.extend r (audit_event.fields digest)
     in accepted (st @ [event], event))"

definition appendAuditEventV1 ::
    "env \<Rightarrow> digest_port \<Rightarrow> audit_ledger \<Rightarrow> audit_input \<Rightarrow> audit_error + audit_ledger \<times> audit_event" where
  "appendAuditEventV1 E D st i =
     require Audit_INVALID_IDENTIFIER (stable E (in_audit_eventId i)) (\<lambda>eventId.
     require Audit_INVALID_IDENTIFIER (stable E (in_audit_entityId i)) (\<lambda>entityId.
     require Audit_INVALID_IDENTIFIER (stable E (in_audit_correlationId i)) (\<lambda>correlationId.
     require Audit_INVALID_ACTION (one_of AUDIT_ACTIONS_V1 (in_audit_action i)) (\<lambda>action.
     require Audit_INVALID_SCOPE (scope_value E (in_audit_tenantScope i)) (\<lambda>scope.
     require Audit_INVALID_ACTOR (stable E (field (in_audit_actor i) ''actorId'')) (\<lambda>actorId.
     require Audit_INVALID_ACTOR
       (one_of actor_types (field (in_audit_actor i) ''actorType'')) (\<lambda>actorType.
     require Audit_INVALID_TEXT (text_value E (in_audit_entityType i) 80) (\<lambda>entityType.
     require Audit_INVALID_TEXT (text_value E (in_audit_idempotencyKey i) 200) (\<lambda>idempotencyKey.
     require Audit_INVALID_REVISION (positiveInteger (in_audit_entityRevision i)) (\<lambda>entityRevision.
     require Audit_INVALID_REVISION (timestamp E (in_audit_occurredAt i)) (\<lambda>occurredAt.
     and_then (sanitizeAuditSummaryV1 E (in_audit_summary i)) (\<lambda>summary.
     case List.find (\<lambda>e. audit_idempotencyKey e = idempotencyKey \<and> in_scope scope e) st of
       Some existing \<Rightarrow>
         if audit_eventId existing = eventId then accepted (st, existing)
         else rejected Audit_IDEMPOTENCY_CONFLICT
     | None \<Rightarrow>
         let previous = last_option (filter (in_scope scope) st)
         in append_record E D st
              \<lparr>audit_schemaVersion = 1, audit_eventId = eventId, audit_action = action,
               audit_tenantScope = scope,
               audit_actor = \<lparr>actor_actorType = actorType, actor_actorId = actorId\<rparr>,
               audit_entityType = entityType, audit_entityId = entityId,
               audit_entityRevision = entityRevision,
               audit_sequence = next_sequence previous,
               audit_occurredAt = occurredAt, audit_correlationId = correlationId,
               audit_idempotencyKey = idempotencyKey, audit_summary = summary,
               audit_previousDigest = map_option audit_digest previous\<rparr>))))))))))))"

definition verifyAuditEventDigestV1 ::
    "env \<Rightarrow> digest_port \<Rightarrow> audit_event \<Rightarrow> audit_error + unit" where
  "verifyAuditEventDigestV1 E D e =
     (if D (canonicalEvent E (audit_record.truncate e)) \<noteq> audit_digest e
      then rejected Audit_CHAIN_INVALID else accepted ())"

text \<open>The map from scope keys to lists of events, in the order the keys are first seen.\<close>

fun push_scoped ::
    "jsstr \<Rightarrow> 'e \<Rightarrow> (jsstr \<times> 'e list) list \<Rightarrow> (jsstr \<times> 'e list) list" where
  "push_scoped key e [] = [(key, [e])]"
| "push_scoped key e ((k, es) # groups) =
     (if k = key then (k, es @ [e]) # groups else (k, es) # push_scoped key e groups)"

definition group_by_scope :: "audit_event list \<Rightarrow> (jsstr \<times> audit_event list) list" where
  "group_by_scope es =
     foldl (\<lambda>groups e. push_scoped (tenantScopeKeyV1 (audit_tenantScope e)) e groups) [] es"

text \<open>The loop over one ordered chain.\<close>

fun chain_loop ::
    "env \<Rightarrow> digest_port \<Rightarrow> int \<Rightarrow> jsstr option \<Rightarrow> audit_event list \<Rightarrow> audit_error + unit" where
  "chain_loop E D index previousDigest [] = accepted ()"
| "chain_loop E D index previousDigest (e # es) =
     reject_if (audit_sequence e \<noteq> index + 1 \<or> audit_previousDigest e \<noteq> previousDigest)
       Audit_CHAIN_INVALID (
     reject_if (verifyAuditEventDigestV1 E D e \<noteq> accepted ()) Audit_CHAIN_INVALID (
     chain_loop E D (index + 1) (Some (audit_digest e)) es))"

fun chains_loop ::
    "env \<Rightarrow> digest_port \<Rightarrow> (jsstr \<times> audit_event list) list \<Rightarrow> audit_error + unit" where
  "chains_loop E D [] = accepted ()"
| "chains_loop E D ((key, es) # groups) =
     and_then (chain_loop E D 0 None (sort_key audit_sequence es)) (\<lambda>_. chains_loop E D groups)"

definition verifyAuditChainV1 ::
    "env \<Rightarrow> digest_port \<Rightarrow> audit_event list \<Rightarrow> audit_error + unit" where
  "verifyAuditChainV1 E D es = chains_loop E D (group_by_scope es)"

definition sealed_events :: "tenant_scope \<Rightarrow> audit_event list \<Rightarrow> audit_event list" where
  "sealed_events scope es = sort_key audit_sequence (filter (in_scope scope) es)"

definition createAuditSealV1 ::
    "env \<Rightarrow> digest_port \<Rightarrow> audit_event list \<Rightarrow> jsval \<Rightarrow> jsval \<Rightarrow> audit_error + audit_seal" where
  "createAuditSealV1 E D es scopeInput sealedAtInput =
     require Audit_INVALID_SCOPE (scope_value E scopeInput) (\<lambda>scope.
     require Audit_INVALID_TIMESTAMP (timestamp E sealedAtInput) (\<lambda>sealedAt.
     let scoped = sealed_events scope es
     in reject_if (scoped = []) Audit_INVALID_SEQUENCE (
        and_then (verifyAuditChainV1 E D scoped) (\<lambda>_.
        require Audit_CHAIN_INVALID
          (text_value E (Str (D (join (js ''|'') (map audit_digest scoped)))) 512) (\<lambda>root.
        accepted
          \<lparr>seal_tenantScope = scope, seal_firstSequence = audit_sequence (hd scoped),
           seal_lastSequence = audit_sequence (last scoped), seal_eventCount = int (length scoped),
           seal_rootDigest = root, seal_sealedAt = sealedAt\<rparr>)))))"

record attestation_input =
  in_attest_attestationId :: jsval
  in_attest_signerKeyId :: jsval

definition createAuditSealAttestationV1 ::
    "env \<Rightarrow> audit_seal \<Rightarrow> attestation_input \<Rightarrow> (jsstr \<Rightarrow> jsstr) \<Rightarrow> audit_error + attestation" where
  "createAuditSealAttestationV1 E seal i sign =
     require Audit_INVALID_IDENTIFIER (stable E (in_attest_attestationId i)) (\<lambda>attestationId.
     require Audit_INVALID_IDENTIFIER (text_value E (in_attest_signerKeyId i) 200) (\<lambda>signerKeyId.
     let unsigned =
       \<lparr>attest_schemaVersion = 1, attest_attestationId = attestationId,
        attest_tenantScope = seal_tenantScope seal, attest_firstSequence = seal_firstSequence seal,
        attest_lastSequence = seal_lastSequence seal, attest_eventCount = seal_eventCount seal,
        attest_rootDigest = seal_rootDigest seal, attest_sealedAt = seal_sealedAt seal,
        attest_signerKeyId = signerKeyId\<rparr>;
         payload = canonicalAttestation unsigned
     in require Audit_INVALID_TEXT (text_value E (Str (sign payload)) 2048) (\<lambda>signature.
        accepted (unsigned_attestation.extend unsigned (attestation.fields payload signature)))))"

definition verifyAuditSealAttestationV1 ::
    "attestation \<Rightarrow> audit_seal \<Rightarrow> (jsstr \<Rightarrow> jsstr \<Rightarrow> bool) \<Rightarrow> audit_error + unit" where
  "verifyAuditSealAttestationV1 a seal verify =
     reject_if (attest_schemaVersion a \<noteq> 1
                \<or> tenantScopeKeyV1 (attest_tenantScope a) \<noteq> tenantScopeKeyV1 (seal_tenantScope seal)
                \<or> attest_firstSequence a \<noteq> seal_firstSequence seal
                \<or> attest_lastSequence a \<noteq> seal_lastSequence seal
                \<or> attest_eventCount a \<noteq> seal_eventCount seal
                \<or> attest_rootDigest a \<noteq> seal_rootDigest seal
                \<or> attest_sealedAt a \<noteq> seal_sealedAt seal) Audit_CHAIN_INVALID (
     reject_if (canonicalAttestation (unsigned_attestation.truncate a) \<noteq> attest_payload a
                \<or> \<not> verify (attest_payload a) (attest_signature a)) Audit_CHAIN_INVALID (
     accepted ()))"

section \<open>Facts about the canonical texts\<close>

lemma literal_Some:
  assumes "x \<in> snd ` set table"
  shows "\<exists>k. (k, x) \<in> set table \<and> literal table x = JStr (js k)"
proof (cases "List.find (\<lambda>p. snd p = x) table")
  case None
  with assms show ?thesis by (auto simp: find_None_iff)
next
  case (Some p)
  from find_SomeD [OF Some] have "(fst p, x) \<in> set table" by (cases p) auto
  with Some show ?thesis by (auto simp: literal_def)
qed

lemma literal_inject:
  assumes "distinct (map fst table)" "x \<in> snd ` set table" "y \<in> snd ` set table"
    and "literal table x = literal table y"
  shows "x = y"
  using literal_Some [OF assms(2)] literal_Some [OF assms(3)] assms(1,4)
  by (auto dest: eq_key_imp_eq_value)

lemma action_literal_inject [simp]:
  "literal AUDIT_ACTIONS_V1 a = literal AUDIT_ACTIONS_V1 b \<longleftrightarrow> a = b"
proof -
  have "x \<in> snd ` set AUDIT_ACTIONS_V1" for x by (cases x) (simp_all add: AUDIT_ACTIONS_V1_def)
  moreover have "distinct (map fst AUDIT_ACTIONS_V1)" by (simp add: AUDIT_ACTIONS_V1_def)
  ultimately show ?thesis using literal_inject by metis
qed

lemma actor_literal_inject [simp]: "literal actor_types a = literal actor_types b \<longleftrightarrow> a = b"
proof -
  have "x \<in> snd ` set actor_types" for x by (cases x) (simp_all add: actor_types_def)
  moreover have "distinct (map fst actor_types)" by (simp add: actor_types_def)
  ultimately show ?thesis using literal_inject by metis
qed

lemma actor_json_inject [simp]: "actor_json a = actor_json b \<longleftrightarrow> a = b"
  by (cases a; cases b) (simp add: actor_json_def)

lemma digest_json_inject [simp]: "digest_json a = digest_json b \<longleftrightarrow> a = b"
  by (cases a; cases b) (simp_all add: digest_json_def)

lemma summary_json_inject [simp]: "summary_json a = summary_json b \<longleftrightarrow> a = b"
  by (cases a; cases b) simp_all

lemma mset_from_entries [simp]: "mset (from_entries es) = mset es"
  by (simp add: from_entries_def)

lemma summary_text_mset:
  assumes "canonicalSummary E s = canonicalSummary E t"
  shows "mset s = mset t"
proof -
  let ?f = "\<lambda>(k :: jsstr, v). (k, summary_json v)"
  have "inj ?f" by (auto simp: inj_def)
  with assms have "from_entries (sort_key (\<lambda>e. collation E (fst e)) s)
      = from_entries (sort_key (\<lambda>e. collation E (fst e)) t)"
    by (simp add: canonicalSummary_def inj_map_eq_map del: stringify.simps)
  from arg_cong [where f = mset, OF this] show ?thesis by simp
qed

lemma reparsed_stringify [simp]: "reparsed (stringify v) = v"
  by (simp add: reparsed_def JSON_parse_stringify)

lemma reparsed_summary [simp]:
  "reparsed (canonicalSummary E s) = reparsed (canonicalSummary E t)
     \<longleftrightarrow> canonicalSummary E s = canonicalSummary E t"
  by (auto simp: canonicalSummary_def simp del: stringify.simps)

text \<open>Events that differ at most in the order in which their summaries list their entries.\<close>

definition same_event :: "audit_event \<Rightarrow> audit_event \<Rightarrow> bool" where
  "same_event e f \<longleftrightarrow>
     e\<lparr>audit_summary := []\<rparr> = f\<lparr>audit_summary := []\<rparr> \<and> mset (audit_summary e) = mset (audit_summary f)"

lemma canonicalEvent_fields:
  assumes "canonicalEvent E r = canonicalEvent E q"
  shows "audit_schemaVersion r = audit_schemaVersion q" "audit_eventId r = audit_eventId q"
    "audit_action r = audit_action q" "audit_tenantScope r = audit_tenantScope q"
    "audit_actor r = audit_actor q" "audit_entityType r = audit_entityType q"
    "audit_entityId r = audit_entityId q" "audit_entityRevision r = audit_entityRevision q"
    "audit_sequence r = audit_sequence q" "audit_occurredAt r = audit_occurredAt q"
    "audit_correlationId r = audit_correlationId q" "audit_idempotencyKey r = audit_idempotencyKey q"
    "mset (audit_summary r) = mset (audit_summary q)"
    "audit_previousDigest r = audit_previousDigest q"
  using assms unfolding canonicalEvent_def stringify_inject json.inject list.inject prod.inject
    scope_json_inject actor_json_inject digest_json_inject action_literal_inject reparsed_summary
  by (blast dest: summary_text_mset)+

lemma canonical_same_event:
  assumes "canonicalEvent E (audit_record.truncate e) = canonicalEvent E (audit_record.truncate f)"
    and "audit_digest e = audit_digest f"
  shows "same_event e f"
  using canonicalEvent_fields [OF assms(1)] assms(2)
  unfolding same_event_def by (intro conjI audit_event.equality) (simp_all add: audit_record.defs)

lemma canonicalAttestation_inject:
  "canonicalAttestation a = canonicalAttestation b \<Longrightarrow> a = b"
  by (cases a; cases b) (simp add: canonicalAttestation_def del: stringify.simps)

interpretation attestations: signed_payload canonicalAttestation
  by unfold_locales (rule canonicalAttestation_inject)

section \<open>Facts about chains\<close>

definition scope_key :: "audit_event \<Rightarrow> jsstr" where
  "scope_key e = tenantScopeKeyV1 (audit_tenantScope e)"

lemma in_scope_key: "in_scope scope e \<longleftrightarrow> scope_key e = tenantScopeKeyV1 scope"
  by (simp add: in_scope_def scope_key_def)

lemma map_of_push_scoped:
  "map_of (push_scoped key e g) k =
     (if k = key then Some ((case map_of g key of None \<Rightarrow> [] | Some es \<Rightarrow> es) @ [e]) else map_of g k)"
  by (induction g rule: push_scoped.induct) auto

lemma distinct_push_scoped:
  "distinct (map fst g) \<Longrightarrow> distinct (map fst (push_scoped key e g))
     \<and> fst ` set (push_scoped key e g) = insert key (fst ` set g)"
  by (induction g rule: push_scoped.induct) auto

lemma group_by_scope_facts:
  "distinct (map fst (group_by_scope es))
   \<and> map_of (group_by_scope es) k =
       (let l = filter (\<lambda>e. scope_key e = k) es in if l = [] then None else Some l)"
proof (induction es rule: rev_induct)
  case Nil
  then show ?case by (simp add: group_by_scope_def)
next
  case (snoc e es)
  have g: "group_by_scope (es @ [e]) = push_scoped (scope_key e) e (group_by_scope es)"
    by (simp add: group_by_scope_def scope_key_def)
  show ?case
    using snoc distinct_push_scoped [of "group_by_scope es" "scope_key e" e]
    unfolding g map_of_push_scoped by (auto simp: Let_def split: if_splits)
qed

lemma chains_loop_accepted:
  "chains_loop E D groups = Inr () \<longleftrightarrow>
     (\<forall>(k, es) \<in> set groups. chain_loop E D 0 None (sort_key audit_sequence es) = Inr ())"
  by (induction groups) (auto simp: result_simps)

lemma verify_chain_accepted:
  "verifyAuditChainV1 E D es = Inr () \<longleftrightarrow>
     (\<forall>k. chain_loop E D 0 None (sort_key audit_sequence (filter (\<lambda>e. scope_key e = k) es)) = Inr ())"
proof -
  have "(k, l) \<in> set (group_by_scope es) \<longleftrightarrow> map_of (group_by_scope es) k = Some l" for k l
    using group_by_scope_facts [of es k] map_of_eq_Some_iff by metis
  then have "(k, l) \<in> set (group_by_scope es)
      \<longleftrightarrow> l \<noteq> [] \<and> l = filter (\<lambda>e. scope_key e = k) es" for k l
    using group_by_scope_facts [of es k] by (auto simp: Let_def split: if_splits)
  then have "set (group_by_scope es)
      = (\<lambda>k. (k, filter (\<lambda>e. scope_key e = k) es)) ` {k. filter (\<lambda>e. scope_key e = k) es \<noteq> []}"
    by auto
  then have "verifyAuditChainV1 E D es = Inr () \<longleftrightarrow>
     (\<forall>k \<in> {k. filter (\<lambda>e. scope_key e = k) es \<noteq> []}.
        chain_loop E D 0 None (sort_key audit_sequence (filter (\<lambda>e. scope_key e = k) es)) = Inr ())"
    by (simp add: verifyAuditChainV1_def chains_loop_accepted)
  moreover have "chain_loop E D 0 None (sort_key audit_sequence []) = Inr ()" by simp
  ultimately show ?thesis by (metis (mono_tags, lifting) mem_Collect_eq)
qed

lemma verify_event_accepted:
  "verifyAuditEventDigestV1 E D e = Inr () \<longleftrightarrow> D (canonicalEvent E (audit_record.truncate e)) = audit_digest e"
  by (simp add: verifyAuditEventDigestV1_def)

lemma chain_loop_snoc:
  "chain_loop E D n prev (es @ [e]) = Inr () \<longleftrightarrow>
     chain_loop E D n prev es = Inr ()
     \<and> audit_sequence e = n + int (length es) + 1
     \<and> audit_previousDigest e = (if es = [] then prev else Some (audit_digest (last es)))
     \<and> verifyAuditEventDigestV1 E D e = Inr ()"
  by (induction E D n prev es rule: chain_loop.induct) (auto simp: result_simps)

lemma chain_loop_sequences:
  "chain_loop E D n prev es = Inr () \<Longrightarrow>
     map audit_sequence es = map (\<lambda>i. n + int i + 1) [0..<length es]
     \<and> (\<forall>e \<in> set es. verifyAuditEventDigestV1 E D e = Inr ())"
  by (induction es rule: rev_induct) (auto simp: chain_loop_snoc)

lemma chain_loop_sorted:
  assumes "chain_loop E D n prev es = Inr ()"
  shows "sort_key audit_sequence es = es"
proof (rule sort_key_id_if_sorted)
  have "sorted (map (\<lambda>i. n + int i + 1) [0..<length es])"
    by (auto simp: sorted_iff_nth_mono)
  with chain_loop_sequences [OF assms] show "sorted (map audit_sequence es)" by simp
qed

section \<open>What the ledger promises\<close>

text \<open>
  The abstract ledger: for every scope the list of facts recorded there, without numbers, links
  and digests; recording a fact appends it to its scope's list unless its key was used.
\<close>

record audit_fact =
  fact_eventId :: stable_id
  fact_action :: audit_action
  fact_actor :: audit_actor
  fact_entityType :: jsstr
  fact_entityId :: stable_id
  fact_entityRevision :: int
  fact_occurredAt :: utc_timestamp
  fact_correlationId :: stable_id
  fact_idempotencyKey :: jsstr
  fact_summary :: audit_summary

type_synonym audit_log = "jsstr \<Rightarrow> audit_fact list"

definition record_fact :: "audit_log \<Rightarrow> jsstr \<Rightarrow> audit_fact \<Rightarrow> audit_error + audit_log \<times> audit_fact" where
  "record_fact facts scope f =
     (case List.find (\<lambda>g. fact_idempotencyKey g = fact_idempotencyKey f) (facts scope) of
        None \<Rightarrow> accepted (facts(scope := facts scope @ [f]), f)
      | Some g \<Rightarrow> if fact_eventId g = fact_eventId f then accepted (facts, g)
                  else rejected Audit_IDEMPOTENCY_CONFLICT)"

text \<open>The fact an input asks to record, or why it is none.\<close>

definition input_fact :: "env \<Rightarrow> audit_input \<Rightarrow> audit_error + tenant_scope \<times> audit_fact" where
  "input_fact E i =
     require Audit_INVALID_IDENTIFIER (stable E (in_audit_eventId i)) (\<lambda>eventId.
     require Audit_INVALID_IDENTIFIER (stable E (in_audit_entityId i)) (\<lambda>entityId.
     require Audit_INVALID_IDENTIFIER (stable E (in_audit_correlationId i)) (\<lambda>correlationId.
     require Audit_INVALID_ACTION (one_of AUDIT_ACTIONS_V1 (in_audit_action i)) (\<lambda>action.
     require Audit_INVALID_SCOPE (scope_value E (in_audit_tenantScope i)) (\<lambda>scope.
     require Audit_INVALID_ACTOR (stable E (field (in_audit_actor i) ''actorId'')) (\<lambda>actorId.
     require Audit_INVALID_ACTOR
       (one_of actor_types (field (in_audit_actor i) ''actorType'')) (\<lambda>actorType.
     require Audit_INVALID_TEXT (text_value E (in_audit_entityType i) 80) (\<lambda>entityType.
     require Audit_INVALID_TEXT (text_value E (in_audit_idempotencyKey i) 200) (\<lambda>idempotencyKey.
     require Audit_INVALID_REVISION (positiveInteger (in_audit_entityRevision i)) (\<lambda>entityRevision.
     require Audit_INVALID_REVISION (timestamp E (in_audit_occurredAt i)) (\<lambda>occurredAt.
     and_then (sanitizeAuditSummaryV1 E (in_audit_summary i)) (\<lambda>summary.
     accepted (scope,
       \<lparr>fact_eventId = eventId, fact_action = action,
        fact_actor = \<lparr>actor_actorType = actorType, actor_actorId = actorId\<rparr>,
        fact_entityType = entityType, fact_entityId = entityId,
        fact_entityRevision = entityRevision, fact_occurredAt = occurredAt,
        fact_correlationId = correlationId, fact_idempotencyKey = idempotencyKey,
        fact_summary = summary\<rparr>)))))))))))))"

definition fact_of :: "'a audit_record_scheme \<Rightarrow> audit_fact" where
  "fact_of e =
     \<lparr>fact_eventId = audit_eventId e, fact_action = audit_action e, fact_actor = audit_actor e,
      fact_entityType = audit_entityType e, fact_entityId = audit_entityId e,
      fact_entityRevision = audit_entityRevision e, fact_occurredAt = audit_occurredAt e,
      fact_correlationId = audit_correlationId e,
      fact_idempotencyKey = audit_idempotencyKey e, fact_summary = audit_summary e\<rparr>"

definition audit_log :: "audit_ledger \<Rightarrow> audit_log" where
  "audit_log st scope = map fact_of (filter (\<lambda>e. scope_key e = scope) st)"

text \<open>What a digest port delivers: printable text without the separator of the seal.\<close>

definition digest_port_documented :: "env \<Rightarrow> digest_port \<Rightarrow> bool" where
  "digest_port_documented E D \<longleftrightarrow>
     (\<forall>x. text_value E (Str (D x)) 512 = Some (D x) \<and> of_char CHR ''|'' \<notin> set (D x))"

text \<open>The record that \<open>appendAuditEventV1\<close> makes of a fact.\<close>

definition link_record :: "tenant_scope \<Rightarrow> audit_fact \<Rightarrow> audit_event option \<Rightarrow> audit_record" where
  "link_record scope f previous =
     \<lparr>audit_schemaVersion = 1, audit_eventId = fact_eventId f, audit_action = fact_action f,
      audit_tenantScope = scope, audit_actor = fact_actor f,
      audit_entityType = fact_entityType f, audit_entityId = fact_entityId f,
      audit_entityRevision = fact_entityRevision f, audit_sequence = next_sequence previous,
      audit_occurredAt = fact_occurredAt f, audit_correlationId = fact_correlationId f,
      audit_idempotencyKey = fact_idempotencyKey f, audit_summary = fact_summary f,
      audit_previousDigest = map_option audit_digest previous\<rparr>"

lemma and_then_require:
  "and_then (require e x k) f = require e x (\<lambda>v. and_then (k v) f)"
  by (cases x) (simp_all add: result_simps)

lemma and_then_assoc: "and_then (and_then r k) f = and_then r (\<lambda>v. and_then (k v) f)"
  by (cases r) (simp_all add: result_simps)

lemma append_by_fact:
  "appendAuditEventV1 E D st i =
     and_then (input_fact E i) (\<lambda>(scope, f).
       case List.find (\<lambda>e. audit_idempotencyKey e = fact_idempotencyKey f \<and> in_scope scope e) st of
         Some existing \<Rightarrow>
           if audit_eventId existing = fact_eventId f then accepted (st, existing)
           else rejected Audit_IDEMPOTENCY_CONFLICT
       | None \<Rightarrow> append_record E D st (link_record scope f (last_option (filter (in_scope scope) st))))"
  unfolding appendAuditEventV1_def input_fact_def and_then_require and_then_assoc and_then_Inr
    prod.case link_record_def audit_fact.simps Let_def ..

lemma find_map: "List.find P (map f xs) = map_option f (List.find (P \<circ> f) xs)"
  by (induction xs) auto

lemma find_filter: "List.find P (filter Q xs) = List.find (\<lambda>x. P x \<and> Q x) xs"
  by (induction xs) auto

lemma fact_of_simps [simp]:
  "fact_idempotencyKey (fact_of e) = audit_idempotencyKey e" "fact_eventId (fact_of e) = audit_eventId e"
  by (simp_all add: fact_of_def)

lemma append_record_documented:
  assumes "digest_port_documented E D"
  shows "append_record E D st r =
    accepted (st @ [audit_record.extend r (audit_event.fields (D (canonicalEvent E r)))],
              audit_record.extend r (audit_event.fields (D (canonicalEvent E r))))"
  using assms by (simp add: append_record_def digest_port_documented_def result_simps Let_def)

lemma fact_of_linked [simp]:
  "fact_of (audit_record.extend (link_record scope f p) m) = f"
  by (cases f) (simp add: fact_of_def link_record_def audit_record.defs)

lemma scope_key_linked [simp]:
  "audit_tenantScope (audit_record.extend (link_record scope f p) m) = scope"
  by (simp add: link_record_def audit_record.defs)

lemma audit_log_snoc:
  "audit_log (st @ [e]) = (audit_log st)(scope_key e := audit_log st (scope_key e) @ [fact_of e])"
  by (auto simp: audit_log_def)

inductive audit_step :: "env \<Rightarrow> digest_port \<Rightarrow> audit_ledger \<Rightarrow> audit_ledger \<Rightarrow> bool" for E D where
  append: "appendAuditEventV1 E D st i = Inr (st', e) \<Longrightarrow> audit_step E D st st'"

lemma append_accepted [consumes 1, case_names replay fresh]:
  assumes "appendAuditEventV1 E D st i = Inr (st', e)"
  obtains (replay) "st' = st" "e \<in> set st"
  | (fresh) r where "st' = st @ [e]" "audit_record.truncate e = r"
    "text_value E (Str (D (canonicalEvent E r))) 512 = Some (audit_digest e)"
    "audit_sequence e = next_sequence (last_option (filter (\<lambda>x. scope_key x = scope_key e) st))"
    "audit_previousDigest e
       = map_option audit_digest (last_option (filter (\<lambda>x. scope_key x = scope_key e) st))"
    "\<And>x. x \<in> set st \<Longrightarrow> scope_key x = scope_key e \<Longrightarrow> audit_idempotencyKey x \<noteq> audit_idempotencyKey e"
proof -
  obtain scope f where c:
    "(case List.find (\<lambda>e. audit_idempotencyKey e = fact_idempotencyKey f \<and> in_scope scope e) st of
         Some existing \<Rightarrow>
           if audit_eventId existing = fact_eventId f then accepted (st, existing)
           else rejected Audit_IDEMPOTENCY_CONFLICT
       | None \<Rightarrow> append_record E D st (link_record scope f (last_option (filter (in_scope scope) st))))
     = Inr (st', e)"
    using assms unfolding append_by_fact and_then_accepted by force
  show thesis
  proof (cases "List.find (\<lambda>e. audit_idempotencyKey e = fact_idempotencyKey f \<and> in_scope scope e) st")
    case (Some existing)
    with c find_SomeD [OF Some] show thesis by (intro replay) (auto split: if_splits)
  next
    case None
    let ?r = "link_record scope f (last_option (filter (in_scope scope) st))"
    obtain digest where d: "text_value E (Str (D (canonicalEvent E ?r))) 512 = Some digest"
      "e = audit_record.extend ?r (audit_event.fields digest)" "st' = st @ [e]"
      using c None by (auto simp: append_record_def result_simps Let_def)
    have key: "in_scope scope x \<longleftrightarrow> scope_key x = scope_key e" for x
      by (simp add: in_scope_key d(2) scope_key_def link_record_def audit_record.defs)
    then have same: "in_scope scope = (\<lambda>x. scope_key x = scope_key e)" by blast
    have e: "audit_record.truncate e = ?r" "audit_digest e = digest"
      "audit_sequence e = next_sequence (last_option (filter (in_scope scope) st))"
      "audit_previousDigest e = map_option audit_digest (last_option (filter (in_scope scope) st))"
      "audit_idempotencyKey e = fact_idempotencyKey f"
      by (simp_all add: d(2) link_record_def audit_record.defs audit_event.defs)
    show thesis
    proof (rule fresh [of ?r])
      show "audit_idempotencyKey x \<noteq> audit_idempotencyKey e"
        if "x \<in> set st" "scope_key x = scope_key e" for x
        using find_None_notin [OF None that(1)] that(2) key [of x] e(5) by simp
    qed (use d(1,3) e(1-4) in \<open>simp_all only: same\<close>)
  qed
qed

text \<open>A ledger whose scopes are all intact chains and use every key once.\<close>

definition chains_intact :: "env \<Rightarrow> digest_port \<Rightarrow> audit_ledger \<Rightarrow> bool" where
  "chains_intact E D st \<longleftrightarrow> (\<forall>k. chain_loop E D 0 None (filter (\<lambda>e. scope_key e = k) st) = Inr ())"

definition keys_unique :: "audit_ledger \<Rightarrow> bool" where
  "keys_unique st \<longleftrightarrow> distinct (map (\<lambda>e. (scope_key e, audit_idempotencyKey e)) st)"

lemma chains_intact_verifies: "chains_intact E D st \<Longrightarrow> verifyAuditChainV1 E D st = Inr ()"
  unfolding verify_chain_accepted chains_intact_def by (metis chain_loop_sorted)

lemma chain_last_sequence:
  assumes "chain_loop E D 0 None es = Inr ()" "int (length es) < max_safe_integer"
  shows "next_sequence (last_option es) = int (length es) + 1"
proof (cases es rule: rev_cases)
  case Nil
  then show ?thesis by (simp add: next_sequence_def last_option_def js_add_exact)
next
  case (snoc xs x)
  with assms show ?thesis
    by (simp add: next_sequence_def last_option_def chain_loop_snoc js_add_exact max_safe_integer_def)
qed

lemma append_keeps_chains:
  assumes "digest_port_documented E D" "chains_intact E D st" "int (length st) < max_safe_integer"
    and "appendAuditEventV1 E D st i = Inr (st', e)"
  shows "chains_intact E D st'"
  using assms(4)
proof (cases rule: append_accepted)
  case replay
  with assms show ?thesis by simp
next
  case (fresh r)
  have "chain_loop E D 0 None (filter (\<lambda>x. scope_key x = k) (st @ [e])) = Inr ()" for k
  proof (cases "k = scope_key e")
    case False
    with assms(2) show ?thesis by (simp add: chains_intact_def)
  next
    case True
    let ?es = "filter (\<lambda>x. scope_key x = scope_key e) st"
    have es: "chain_loop E D 0 None ?es = Inr ()" using assms(2) by (simp add: chains_intact_def)
    have "int (length ?es) < max_safe_integer"
      using assms(3) length_filter_le [of "\<lambda>x. scope_key x = scope_key e" st] by linarith
    note seq = chain_last_sequence [OF es this]
    have "verifyAuditEventDigestV1 E D e = Inr ()"
      using fresh(2,3) assms(1) by (simp add: verify_event_accepted digest_port_documented_def)
    with es seq fresh(4,5) True show ?thesis
      by (simp add: chain_loop_snoc last_option_def split: if_splits)
  qed
  with fresh(1) show ?thesis by (simp add: chains_intact_def)
qed

lemma append_extends:
  assumes "appendAuditEventV1 E D st i = Inr (st', e)"
  shows "\<exists>es. st' = st @ es" "keys_unique st \<Longrightarrow> keys_unique st'" "e \<in> set st'"
  using assms
  by (cases rule: append_accepted; force simp: keys_unique_def)+

lemma audit_run:
  assumes "digest_port_documented E D"
  shows "(audit_step E D)\<^sup>*\<^sup>* st st' \<Longrightarrow> chains_intact E D st \<Longrightarrow> keys_unique st \<Longrightarrow>
    (\<exists>es. st' = st @ es) \<and> keys_unique st'
    \<and> (int (length st') \<le> max_safe_integer \<longrightarrow> chains_intact E D st')"
proof (induction rule: rtranclp_induct)
  case base
  then show ?case by simp
next
  case (step t u)
  from step.hyps(2) obtain i e where a: "appendAuditEventV1 E D t i = Inr (u, e)" by cases
  from a have "chains_intact E D u" if "int (length u) \<le> max_safe_integer"
  proof (cases rule: append_accepted)
    case replay
    with that step show ?thesis by simp
  next
    case (fresh r)
    with that step append_keeps_chains [OF assms _ _ a] show ?thesis by simp
  qed
  with step append_extends(1,2) [OF a] show ?case by auto
qed

lemma chains_intact_Nil: "chains_intact E D [] \<and> keys_unique []"
  by (simp add: chains_intact_def keys_unique_def)

section \<open>Facts about seals\<close>

lemma split_first:
  assumes "c \<notin> set x" "c \<notin> set y"
  shows "x @ c # r = y @ c # s \<longleftrightarrow> x = y \<and> r = s"
  using assms by (induction x arbitrary: y) (auto simp: Cons_eq_append_conv, (metis append_Cons neq_Nil_conv set_ConsD)+)

lemma join_inject:
  assumes "\<forall>x \<in> set xs \<union> set ys. c \<notin> set x" "xs \<noteq> []" "ys \<noteq> []" "join [c] xs = join [c] ys"
  shows "xs = ys"
  using assms
proof (induction xs arbitrary: ys)
  case Nil
  then show ?case by simp
next
  case (Cons x xs)
  obtain y ys' where ys: "ys = y # ys'" using Cons.prems(3) by (cases ys) auto
  show ?case
  proof (cases "xs = [] \<or> ys' = []")
    case True
    with Cons.prems ys show ?thesis by (cases xs; cases ys') auto
  next
    case False
    then obtain a as b bs where l: "xs = a # as" "ys' = b # bs" by (meson neq_Nil_conv)
    with Cons.prems ys split_first [of c x y] have "x = y" "join [c] xs = join [c] ys'" by auto
    with Cons.IH [of ys'] Cons.prems False ys show ?thesis by auto
  qed
qed

lemma seal_accepted:
  assumes "createAuditSealV1 E D es scopeInput sealedAtInput = Inr seal"
  shows "sealed_events (seal_tenantScope seal) es \<noteq> []"
    "\<forall>e \<in> set (sealed_events (seal_tenantScope seal) es).
       D (canonicalEvent E (audit_record.truncate e)) = audit_digest e"
    "map audit_sequence (sealed_events (seal_tenantScope seal) es)
       = map (\<lambda>i. int i + 1) [0..<length (sealed_events (seal_tenantScope seal) es)]"
    "text_value E (Str (D (join (js ''|'') (map audit_digest (sealed_events (seal_tenantScope seal) es))))) 512
       = Some (seal_rootDigest seal)"
    "seal_eventCount seal = int (length (sealed_events (seal_tenantScope seal) es))"
proof -
  let ?l = "sealed_events (seal_tenantScope seal) es"
  from assms have v: "?l \<noteq> []" "verifyAuditChainV1 E D ?l = Inr ()"
    "text_value E (Str (D (join (js ''|'') (map audit_digest ?l)))) 512 = Some (seal_rootDigest seal)"
    "seal_eventCount seal = int (length ?l)"
    by (auto simp: createAuditSealV1_def result_simps Let_def)
  have "set ?l = {e \<in> set es. in_scope (seal_tenantScope seal) e}" by (simp add: sealed_events_def)
  then have "filter (\<lambda>e. scope_key e = tenantScopeKeyV1 (seal_tenantScope seal)) ?l = ?l"
    by (auto simp: filter_id_conv in_scope_key)
  moreover have "sort_key audit_sequence ?l = ?l"
    by (rule sort_key_id_if_sorted) (simp add: sealed_events_def)
  ultimately have "chain_loop E D 0 None ?l = Inr ()"
    using v(2) unfolding verify_chain_accepted by metis
  from chain_loop_sequences [OF this] v show "?l \<noteq> []"
    "\<forall>e \<in> set ?l. D (canonicalEvent E (audit_record.truncate e)) = audit_digest e"
    "map audit_sequence ?l = map (\<lambda>i. int i + 1) [0..<length ?l]"
    "text_value E (Str (D (join (js ''|'') (map audit_digest ?l)))) 512 = Some (seal_rootDigest seal)"
    "seal_eventCount seal = int (length ?l)"
    by (simp_all add: verify_event_accepted)
qed

text \<open>The texts whose digests a seal rests on.\<close>

definition digested :: "env \<Rightarrow> tenant_scope \<Rightarrow> audit_event list \<Rightarrow> jsstr set" where
  "digested E scope es =
     insert (join (js ''|'') (map audit_digest (sealed_events scope es)))
       ((\<lambda>e. canonicalEvent E (audit_record.truncate e)) ` set (sealed_events scope es))"

lemma seal_determines_events:
  assumes D: "digest_port_documented E D"
    and s1: "createAuditSealV1 E D es1 sc1 at1 = Inr seal1"
    and s2: "createAuditSealV1 E D es2 sc2 at2 = Inr seal2"
    and root: "seal_rootDigest seal1 = seal_rootDigest seal2"
    and inj: "inj_on D (digested E (seal_tenantScope seal1) es1 \<union> digested E (seal_tenantScope seal2) es2)"
  shows "list_all2 same_event (sealed_events (seal_tenantScope seal1) es1)
           (sealed_events (seal_tenantScope seal2) es2)"
proof -
  let ?l1 = "sealed_events (seal_tenantScope seal1) es1" and ?l2 = "sealed_events (seal_tenantScope seal2) es2"
  note a1 = seal_accepted [OF s1] and a2 = seal_accepted [OF s2]
  have bar: "of_char CHR ''|'' \<notin> set (D x)" "text_value E (Str (D x)) 512 = Some (D x)" for x
    using D by (simp_all add: digest_port_documented_def del: of_char_of)
  from a1(4) a2(4) root
  have "D (join (js ''|'') (map audit_digest ?l1)) = D (join (js ''|'') (map audit_digest ?l2))"
    unfolding bar(2) by simp
  then have j: "join (js ''|'') (map audit_digest ?l1) = join (js ''|'') (map audit_digest ?l2)"
    by (rule inj_onD [OF inj]) (simp_all add: digested_def)
  have clean: "of_char CHR ''|'' \<notin> set x" if "x \<in> audit_digest ` (set ?l1 \<union> set ?l2)" for x
    using that a1(2) a2(2) bar(1) by (auto simp del: of_char_of) metis+
  have "js ''|'' = [of_char CHR ''|'']" by (simp add: js_def)
  then have m: "map audit_digest ?l1 = map audit_digest ?l2"
    using join_inject [of "map audit_digest ?l1" "map audit_digest ?l2" "of_char CHR ''|''"] j clean
      a1(1) a2(1) by auto
  then have len: "length ?l1 = length ?l2" by (rule map_eq_imp_length_eq)
  have "same_event (?l1 ! i) (?l2 ! i)" if i: "i < length ?l1" for i
  proof (rule canonical_same_event)
    from m i len show d: "audit_digest (?l1 ! i) = audit_digest (?l2 ! i)" by (metis nth_map)
    show "canonicalEvent E (audit_record.truncate (?l1 ! i)) = canonicalEvent E (audit_record.truncate (?l2 ! i))"
    proof (rule inj_onD [OF inj])
      show "D (canonicalEvent E (audit_record.truncate (?l1 ! i))) = D (canonicalEvent E (audit_record.truncate (?l2 ! i)))"
        using a1(2) a2(2) d i len by simp
    qed (use i len in \<open>simp_all add: digested_def\<close>)
  qed
  with len show ?thesis by (simp add: list_all2_conv_all_nth)
qed

section \<open>Samples\<close>

text \<open>A digest that tells apart the texts of a one-event chain.\<close>

definition sample_digest :: digest_port where
  "sample_digest x = (if x = hash_of CHR ''a'' then hash_of CHR ''b'' else hash_of CHR ''a'')"

definition sample_audit_input :: audit_input where
  "sample_audit_input =
     \<lparr>in_audit_eventId = sample_id CHR ''a'', in_audit_action = Str (js ''job.started''),
      in_audit_tenantScope = scope_object (org_scope CHR ''b''),
      in_audit_actor = Obj [(js ''actorType'', Str (js ''USER'')), (js ''actorId'', sample_id CHR ''c'')],
      in_audit_entityType = Str (js ''job''), in_audit_entityId = sample_id CHR ''d'',
      in_audit_entityRevision = int_num 2, in_audit_occurredAt = sample_time ''01'',
      in_audit_correlationId = sample_id CHR ''e'', in_audit_idempotencyKey = Str (js ''key''),
      in_audit_summary = Obj [(js ''outcome'', Str (js ''ok'')), (js ''attemptCount'', int_num 1)]\<rparr>"

definition sample_fact :: audit_fact where
  "sample_fact =
     \<lparr>fact_eventId = uuid_of CHR ''a'', fact_action = Action_job_started,
      fact_actor = \<lparr>actor_actorType = Actor_USER, actor_actorId = uuid_of CHR ''c''\<rparr>,
      fact_entityType = js ''job'', fact_entityId = uuid_of CHR ''d'', fact_entityRevision = 2,
      fact_occurredAt = time_of ''01'', fact_correlationId = uuid_of CHR ''e'',
      fact_idempotencyKey = js ''key'',
      fact_summary = [(js ''outcome'', Summary_text (js ''ok'')), (js ''attemptCount'', Summary_number 1)]\<rparr>"

definition sample_event :: audit_event where
  "sample_event =
     audit_record.extend (link_record (org_scope CHR ''b'') sample_fact None)
       (audit_event.fields (hash_of CHR ''a''))"

lemma text_hash [simp]: "letter c \<Longrightarrow> 64 \<le> n \<Longrightarrow> text_value sample_env (Str (hash_of c)) n = Some (hash_of c)"
  unfolding hash_of_def by (rule text_plain) (auto simp: plain_def letter_def list_all_iff)

lemma sample_digest_documented: "digest_port_documented sample_env sample_digest"
proof -
  have "of_char CHR ''|'' \<notin> set (hash_of c)" if "c = CHR ''a'' \<or> c = CHR ''b''" for c
    using that by (auto simp: hash_of_def js_def)
  then show ?thesis by (simp add: digest_port_documented_def sample_digest_def)
qed

lemma sample_input_fact: "input_fact sample_env sample_audit_input = Inr (org_scope CHR ''b'', sample_fact)"
proof -
  have "one_of AUDIT_ACTIONS_V1 (Str (js ''job.started'')) = Some Action_job_started"
    "one_of actor_types (Str (js ''USER'')) = Some Actor_USER"
    by (simp_all add: AUDIT_ACTIONS_V1_def actor_types_def)
  then show ?thesis
    by (simp add: input_fact_def sample_audit_input_def sample_fact_def result_simps plain_def
        max_safe_integer_def sanitizeAuditSummaryV1_def SAFE_SUMMARY_KEYS_V1_def)
qed

lemma canonicalEvent_first: "hd (canonicalEvent E r) = 123"
  by (simp add: canonicalEvent_def)

lemma sample_appends:
  "appendAuditEventV1 sample_env sample_digest [] sample_audit_input = Inr ([sample_event], sample_event)"
proof -
  have "canonicalEvent sample_env r \<noteq> hash_of CHR ''a''" for r
    using canonicalEvent_first [of sample_env r] by (auto simp: hash_of_def js_def)
  then show ?thesis
    by (simp add: append_by_fact sample_input_fact result_simps last_option_def
        append_record_documented [OF sample_digest_documented] sample_event_def sample_digest_def)
qed

section \<open>Properties\<close>

text \<open>
  C12: the ledger implements an append-only log per tenant scope. Forgetting numbers, links and
  digests, an append does to the scopes' lists of facts what recording the input's fact does:
  it appends the fact to the list of its own scope, returns the recorded fact when its key was used
  for the same event, and fails with the same code in every other case. The digest port is
  assumed to deliver printable text, as a hexadecimal digest is.
\<close>

theorem audit_append_refines:
  assumes "digest_port_documented E D"
  shows "map_sum id (\<lambda>(st', e). (audit_log st', fact_of e)) (appendAuditEventV1 E D st i)
     = and_then (input_fact E i) (\<lambda>(scope, f). record_fact (audit_log st) (tenantScopeKeyV1 scope) f)"
proof (cases "input_fact E i")
  case (Inl e)
  then show ?thesis by (simp add: append_by_fact result_simps)
next
  case (Inr sf)
  obtain scope f where sf: "sf = (scope, f)" by (cases sf)
  have find: "List.find (\<lambda>g. fact_idempotencyKey g = fact_idempotencyKey f) (audit_log st (tenantScopeKeyV1 scope))
      = map_option fact_of (List.find (\<lambda>e. audit_idempotencyKey e = fact_idempotencyKey f \<and> in_scope scope e) st)"
    by (simp add: audit_log_def find_map find_filter in_scope_key)
  let ?r = "link_record scope f (last_option (filter (in_scope scope) st))"
  let ?e = "audit_record.extend ?r (audit_event.fields (D (canonicalEvent E ?r)))"
  have "scope_key ?e = tenantScopeKeyV1 scope" "fact_of ?e = f" by (simp_all add: scope_key_def)
  with Inr sf find show ?thesis
    by (auto simp: append_by_fact record_fact_def result_simps append_record_documented [OF assms]
        audit_log_snoc split: option.splits)
qed

theorem audit_append_refines_witness:
  "map_sum id (\<lambda>(st', e). (audit_log st', fact_of e))
       (appendAuditEventV1 sample_env sample_digest [] sample_audit_input)
     = record_fact (audit_log []) (tenantScopeKeyV1 (org_scope CHR ''b'')) sample_fact"
  using audit_append_refines [OF sample_digest_documented, of "[]" sample_audit_input]
  by (simp add: sample_input_fact result_simps)

text \<open>
  C13: a ledger that started empty always verifies. After any sequence of appends, of any scopes and
  in any interleaving, every event ever appended is still there in its place, no scope has two
  events with one idempotency key, and the chain verification accepts the whole ledger (while it
  is shorter than the largest exact number).
\<close>

theorem audit_ledger_verifies:
  assumes "digest_port_documented E D"
    and "(audit_step E D)\<^sup>*\<^sup>* [] st" and "(audit_step E D)\<^sup>*\<^sup>* st st'"
    and "int (length st') \<le> max_safe_integer"
  shows "(\<exists>es. st' = st @ es) \<and> distinct (map (\<lambda>e. (scope_key e, audit_idempotencyKey e)) st')
     \<and> verifyAuditChainV1 E D st' = Inr ()"
proof -
  have whole: "(audit_step E D)\<^sup>*\<^sup>* [] st'" using assms(2,3) by (rule rtranclp_trans)
  have nil: "chains_intact E D []" "keys_unique []" using chains_intact_Nil by blast+
  note r = audit_run [OF assms(1) assms(2) nil] and r' = audit_run [OF assms(1) whole nil]
  obtain es where st': "st' = st @ es"
  proof -
    have "\<exists>es. st' = st @ es" using assms(3)
    proof (induction rule: rtranclp_induct)
      case (step t u)
      from step.hyps(2) obtain es where "u = t @ es" by cases (use append_extends(1) in blast)
      with step.IH show ?case by auto
    qed simp
    with that show thesis by blast
  qed
  from r' assms(4) have "chains_intact E D st'" "keys_unique st'" by blast+
  with st' chains_intact_verifies show ?thesis by (auto simp: keys_unique_def)
qed

theorem audit_ledger_verifies_witness:
  "verifyAuditChainV1 sample_env sample_digest [sample_event] = Inr ()"
proof -
  have "(audit_step sample_env sample_digest)\<^sup>*\<^sup>* [] [sample_event]"
    using sample_appends by (intro r_into_rtranclp audit_step.append)
  from audit_ledger_verifies [OF sample_digest_documented this] show ?thesis
    by (auto simp: max_safe_integer_def)
qed

text \<open>
  C14: Attested history cannot be rewritten. Suppose signatures cannot be forged (one only verifies
  for the payload of an issued attestation), attestations were issued only for seals made from the
  event lists \<open>Sealed\<close>, and the digest has no collision among the texts involved. If a seal made
  from any list of events is accepted against an attestation, then the events of its scope are
  those of one of the sealed lists, one by one and in order, in every field but the order in which a
  summary lists its entries.
\<close>

theorem attested_history:
  assumes "verifyAuditSealAttestationV1 a seal verify = Inr ()"
    and now: "createAuditSealV1 E D es sc sealedAt = Inr seal"
    and unforgeable: "\<And>p s. verify p s \<Longrightarrow> \<exists>b \<in> Issued. attest_payload b = p"
    and issued: "\<And>b. b \<in> Issued \<Longrightarrow> \<exists>es' \<in> Sealed. \<exists>sc' at' seal' j sign.
      createAuditSealV1 E D es' sc' at' = Inr seal' \<and> createAuditSealAttestationV1 E seal' j sign = Inr b"
    and digest: "digest_port_documented E D"
    and collision_free: "\<And>es'. es' \<in> Sealed \<Longrightarrow>
      inj_on D (digested E (seal_tenantScope seal) es' \<union> digested E (seal_tenantScope seal) es)"
  shows "\<exists>es' \<in> Sealed.
    list_all2 same_event (sealed_events (seal_tenantScope seal) es') (sealed_events (seal_tenantScope seal) es)"
proof -
  from assms(1) have v: "attest_rootDigest a = seal_rootDigest seal"
    "tenantScopeKeyV1 (attest_tenantScope a) = tenantScopeKeyV1 (seal_tenantScope seal)"
    "canonicalAttestation (unsigned_attestation.truncate a) = attest_payload a"
    "verify (attest_payload a) (attest_signature a)"
    by (auto simp: verifyAuditSealAttestationV1_def result_simps)
  obtain b where b: "b \<in> Issued" "attest_payload b = attest_payload a" using unforgeable v(4) by blast
  obtain es' sc' at' seal' j sign where s: "es' \<in> Sealed" "createAuditSealV1 E D es' sc' at' = Inr seal'"
    "createAuditSealAttestationV1 E seal' j sign = Inr b"
    using issued [OF b(1)] by blast
  from s(3) have c: "attest_payload b = canonicalAttestation (unsigned_attestation.truncate b)"
    "attest_tenantScope b = seal_tenantScope seal'" "attest_rootDigest b = seal_rootDigest seal'"
    by (auto simp: createAuditSealAttestationV1_def result_simps Let_def unsigned_attestation.defs
        attestation.defs)
  have "unsigned_attestation.truncate a = unsigned_attestation.truncate b"
    by (rule attestations.payload_unique [OF v(3) [symmetric]]) (use b(2) c(1) in simp)
  then have ab: "attest_tenantScope a = attest_tenantScope b" "attest_rootDigest a = attest_rootDigest b"
    by (simp_all add: unsigned_attestation.defs)
  have wf: "wf_scope (seal_tenantScope seal)" "wf_scope (seal_tenantScope seal')"
    using now s(2) by (auto simp: createAuditSealV1_def result_simps Let_def dest: scope_value_wf)
  with v(2) ab(1) c(2) have "seal_tenantScope seal = attest_tenantScope a" by (metis scope_key_inject)
  then have same: "seal_tenantScope seal' = seal_tenantScope seal" using ab(1) c(2) by simp
  have "list_all2 same_event (sealed_events (seal_tenantScope seal') es') (sealed_events (seal_tenantScope seal) es)"
  proof (rule seal_determines_events [OF digest s(2) now])
    show "seal_rootDigest seal' = seal_rootDigest seal" using v(1) ab(2) c(3) by simp
  qed (use collision_free [OF s(1)] same in simp)
  with same s(1) show ?thesis by auto
qed

definition sample_seal :: audit_seal where
  "sample_seal =
     \<lparr>seal_tenantScope = org_scope CHR ''b'', seal_firstSequence = 1, seal_lastSequence = 1,
      seal_eventCount = 1, seal_rootDigest = hash_of CHR ''b'', seal_sealedAt = time_of ''02''\<rparr>"

definition sample_attestation_input :: attestation_input where
  "sample_attestation_input =
     \<lparr>in_attest_attestationId = sample_id CHR ''f'', in_attest_signerKeyId = Str (js ''k1'')\<rparr>"

lemma sample_event_fields [simp]:
  "audit_sequence sample_event = 1" "audit_digest sample_event = hash_of CHR ''a''"
  "audit_tenantScope sample_event = org_scope CHR ''b''"
  by (simp_all add: sample_event_def link_record_def next_sequence_def js_add_exact
      audit_record.defs audit_event.defs)

lemma sample_sealed [simp]: "sealed_events (org_scope CHR ''b'') [sample_event] = [sample_event]"
  by (simp add: sealed_events_def in_scope_def)

lemma sample_seals:
  "createAuditSealV1 sample_env sample_digest [sample_event] (scope_object (org_scope CHR ''b''))
     (sample_time ''02'') = Inr sample_seal"
proof -
  have "chains_intact sample_env sample_digest [sample_event]"
    using append_keeps_chains [OF sample_digest_documented _ _ sample_appends] chains_intact_Nil
    by (simp add: max_safe_integer_def)
  then have "verifyAuditChainV1 sample_env sample_digest [sample_event] = Inr ()"
    by (rule chains_intact_verifies)
  then show ?thesis
    by (simp add: createAuditSealV1_def sample_seal_def result_simps sample_digest_def)
qed

theorem attested_history_witness:
  "\<exists>a. verifyAuditSealAttestationV1 a sample_seal (\<lambda>p s. p = attest_payload a) = Inr ()
     \<and> list_all2 same_event (sealed_events (seal_tenantScope sample_seal) [sample_event])
         (sealed_events (seal_tenantScope sample_seal) [sample_event])"
proof -
  obtain a where a: "createAuditSealAttestationV1 sample_env sample_seal sample_attestation_input
      (\<lambda>_. hash_of CHR ''c'') = Inr a"
    by (simp add: createAuditSealAttestationV1_def sample_attestation_input_def result_simps plain_def Let_def)
  then have v: "verifyAuditSealAttestationV1 a sample_seal (\<lambda>p s. p = attest_payload a) = Inr ()"
    by (auto simp: createAuditSealAttestationV1_def verifyAuditSealAttestationV1_def result_simps
        Let_def unsigned_attestation.defs attestation.defs)
  have "canonicalEvent sample_env r \<noteq> hash_of CHR ''a''" for r
    using canonicalEvent_first [of sample_env r] by (auto simp: hash_of_def js_def)
  then have "inj_on sample_digest (digested sample_env (seal_tenantScope sample_seal) [sample_event])"
    by (auto simp: digested_def sample_seal_def sample_digest_def inj_on_def)
  then have "\<exists>es' \<in> {[sample_event]}.
      list_all2 same_event (sealed_events (seal_tenantScope sample_seal) es')
        (sealed_events (seal_tenantScope sample_seal) [sample_event])"
    using a sample_seals sample_digest_documented
    by (intro attested_history [OF v sample_seals, of "{a}"]) (simp_all, blast+)
  with v show ?thesis by blast
qed

end
