(* ===== verification/Upload.thy ===== *)
theory Upload
  imports "HOL-Library.Multiset" Json Samples Machine
begin

text \<open>
  packages/domain/src/artifact-upload/v1.ts: resumable multipart uploads. A session is opened for
  an artifact of known size and hash, records its parts in any order, and is finalized in two
  phases once all parts are there; an open or finalizing session can be aborted and expires.
\<close>

section \<open>Data\<close>

datatype upload_state =
    Upload_OPEN | Upload_FINALIZING | Upload_COMPLETED | Upload_ABORTED | Upload_EXPIRED

record verified_object =
  opaqueLocator :: jsstr
  objectVersionId :: jsstr

record upload_part =
  part_partNumber :: int
  part_contentSha256 :: jsstr
  part_byteSize :: int
  part_uploadedAt :: utc_timestamp

record upload_session =
  up_sessionId :: stable_id
  up_artifactId :: stable_id
  up_artifactVersionId :: stable_id
  up_intakeId :: stable_id
  up_policyVersionId :: stable_id
  up_authorizationEpoch :: int
  up_tenantScope :: tenant_scope
  up_expectedSha256 :: jsstr
  up_expectedByteSize :: int
  up_mediaType :: jsstr
  up_partSize :: int
  up_totalParts :: int
  up_parts :: "upload_part list"
  up_state :: upload_state
  up_verifiedObject :: "verified_object option"
  up_createdAt :: utc_timestamp
  up_expiresAt :: utc_timestamp
  up_revision :: int

datatype upload_error =
    Upload_INVALID_IDENTIFIER
  | Upload_INVALID_SCOPE
  | Upload_INVALID_TIMESTAMP
  | Upload_INVALID_HASH
  | Upload_INVALID_SIZE
  | Upload_INVALID_MEDIA_TYPE
  | Upload_INVALID_PART
  | Upload_INVALID_STATE
  | Upload_REVISION_CONFLICT
  | Upload_MISSING_PARTS
  | Upload_SIZE_MISMATCH
  | Upload_DIGEST_MISMATCH
  | Upload_is_EXPIRED

section \<open>Helpers\<close>

text \<open>
  The classes of \<open>/^[a-z0-9][a-z0-9!#$&^_.+-]*\/[a-z0-9][a-z0-9!#$&^_.+-]*$/iu\<close>: with both flags
  letters match up to Unicode case folding, so the long s (383) and the Kelvin sign (8490) belong to
  \<open>[a-z]\<close>; the latter is lower-cased to \<open>k\<close>.
\<close>

definition media_start :: "16 word \<Rightarrow> bool" where
  "media_start c \<longleftrightarrow> digit c \<or> lower c \<or> upper c \<or> unat c \<in> {383, 8490}"

definition media_char :: "16 word \<Rightarrow> bool" where
  "media_char c \<longleftrightarrow> media_start c \<or> c \<in> set (js ''!#$&^_.+-'')"

definition media_word :: "jsstr \<Rightarrow> bool" where
  "media_word s \<longleftrightarrow> s \<noteq> [] \<and> media_start (hd s) \<and> list_all media_char s"

definition media_lower :: "jsstr \<Rightarrow> jsstr" where
  "media_lower s = map (\<lambda>c. if unat c = 8490 then 107 else c) (ascii_lower s)"

definition mediaType :: "jsval \<Rightarrow> jsstr option" where
  "mediaType v =
     (case v of
        Str s \<Rightarrow>
          (case dropWhile (\<lambda>c. c \<noteq> of_char CHR ''/'') s of
             [] \<Rightarrow> None
           | slash # rest \<Rightarrow>
               if media_word (takeWhile (\<lambda>c. c \<noteq> of_char CHR ''/'') s) \<and> media_word rest
               then Some (media_lower s) else None)
      | _ \<Rightarrow> None)"

text \<open>\<open>String(value)\<close>, which \<open>Date.parse\<close> applies to whatever it is given.\<close>

fun to_text :: "env \<Rightarrow> jsval \<Rightarrow> jsstr" where
  "to_text E Undefined = js ''undefined''"
| "to_text E Null = js ''null''"
| "to_text E (Bool b) = (if b then js ''true'' else js ''false'')"
| "to_text E (Num NaN) = js ''NaN''"
| "to_text E (Num PosInfinity) = js ''Infinity''"
| "to_text E (Num NegInfinity) = js ''-Infinity''"
| "to_text E (Num (Finite r)) =
     (case safe_integer (Num (Finite r)) of Some n \<Rightarrow> show_int n | None \<Rightarrow> number_text E r)"
| "to_text E (Str s) = s"
| "to_text E (Arr vs) =
     commas (map (\<lambda>v. if v = Undefined \<or> v = Null then [] else to_text E v) vs)"
| "to_text E (Obj _) = js ''[object Object]''"

definition part_of_value :: "env \<Rightarrow> int \<Rightarrow> jsval \<Rightarrow> upload_part option" where
  "part_of_value E totalParts v =
     accepted_value (
       reject_if (\<not> isRecord v) () (
       require () (safe_integer_within 1 totalParts (field v ''partNumber'')) (\<lambda>partNumber.
       require () (sha256_hex (field v ''contentSha256'')) (\<lambda>contentSha256.
       require () (safe_integer_from 0 (field v ''byteSize'')) (\<lambda>byteSize.
       require () (timestamp E (field v ''uploadedAt'')) (\<lambda>uploadedAt.
       accepted \<lparr>part_partNumber = partNumber, part_contentSha256 = contentSha256,
                 part_byteSize = byteSize, part_uploadedAt = uploadedAt\<rparr>))))))"

definition validPart :: "env \<Rightarrow> jsval \<Rightarrow> int \<Rightarrow> bool" where
  "validPart E v totalParts \<longleftrightarrow> part_of_value E totalParts v \<noteq> None"

definition isArtifactUploadPartV1 :: "env \<Rightarrow> jsval \<Rightarrow> int \<Rightarrow> bool" where
  "isArtifactUploadPartV1 E v totalParts \<longleftrightarrow> validPart E v totalParts"

section \<open>Operations\<close>

record upload_input =
  in_up_sessionId :: jsval
  in_up_artifactId :: jsval
  in_up_artifactVersionId :: jsval
  in_up_intakeId :: jsval
  in_up_policyVersionId :: jsval
  in_up_authorizationEpoch :: jsval
  in_up_tenantScope :: jsval
  in_up_expectedSha256 :: jsval
  in_up_expectedByteSize :: jsval
  in_up_mediaType :: jsval
  in_up_partSize :: jsval
  in_up_createdAt :: jsval
  in_up_expiresAt :: jsval

text \<open>
  \<open>Math.max(1, Math.ceil(size / partSize))\<close>. The quotient is a double; up to 10000 its ceiling is
  exact, because a part is at most \<open>2 ^ 30\<close> bytes and a quotient that is no integer is at least
  \<open>2 ^ -30\<close> above the integer below it, and a larger quotient is rejected either way.
\<close>

definition part_count :: "int \<Rightarrow> int \<Rightarrow> int" where
  "part_count bytes partSize = max 1 ((bytes + partSize - 1) div partSize)"

definition createArtifactUploadSessionV1 :: "env \<Rightarrow> upload_input \<Rightarrow> upload_error + upload_session" where
  "createArtifactUploadSessionV1 E i =
     require Upload_INVALID_IDENTIFIER (stable E (in_up_sessionId i)) (\<lambda>sessionId.
     require Upload_INVALID_IDENTIFIER (stable E (in_up_artifactId i)) (\<lambda>artifactId.
     require Upload_INVALID_IDENTIFIER (stable E (in_up_artifactVersionId i)) (\<lambda>artifactVersionId.
     require Upload_INVALID_IDENTIFIER (stable E (in_up_intakeId i)) (\<lambda>intakeId.
     require Upload_INVALID_IDENTIFIER (stable E (in_up_policyVersionId i)) (\<lambda>policyVersionId.
     require Upload_INVALID_STATE (safe_integer_from 1 (in_up_authorizationEpoch i)) (\<lambda>epoch.
     require Upload_INVALID_SCOPE (scope_value E (in_up_tenantScope i)) (\<lambda>scope.
     require Upload_INVALID_HASH (sha256_hex (in_up_expectedSha256 i)) (\<lambda>expectedSha256.
     require Upload_INVALID_SIZE (safe_integer_from 0 (in_up_expectedByteSize i)) (\<lambda>bytes.
     require Upload_INVALID_SIZE (positiveInteger (in_up_partSize i)) (\<lambda>partSize.
     reject_if (partSize > 1024 * 1024 * 1024) Upload_INVALID_SIZE (
     require Upload_INVALID_MEDIA_TYPE (mediaType (in_up_mediaType i)) (\<lambda>media.
     require Upload_INVALID_TIMESTAMP (timestamp E (in_up_createdAt i)) (\<lambda>createdAt.
     require Upload_INVALID_TIMESTAMP (timestamp E (in_up_expiresAt i)) (\<lambda>expiresAt.
     reject_if (date_le (Date_parse E expiresAt) (Date_parse E createdAt)) Upload_INVALID_TIMESTAMP (
     reject_if (part_count bytes partSize > 10000) Upload_INVALID_SIZE (
     accepted
       \<lparr>up_sessionId = sessionId, up_artifactId = artifactId,
        up_artifactVersionId = artifactVersionId, up_intakeId = intakeId,
        up_policyVersionId = policyVersionId, up_authorizationEpoch = epoch,
        up_tenantScope = scope, up_expectedSha256 = expectedSha256,
        up_expectedByteSize = bytes, up_mediaType = media, up_partSize = partSize,
        up_totalParts = part_count bytes partSize, up_parts = [], up_state = Upload_OPEN,
        up_verifiedObject = None, up_createdAt = createdAt, up_expiresAt = expiresAt,
        up_revision = 1\<rparr>))))))))))))))))"

record part_input =
  in_part_partNumber :: jsval
  in_part_contentSha256 :: jsval
  in_part_byteSize :: jsval
  in_part_uploadedAt :: jsval
  in_part_expectedRevision :: jsval

text \<open>The long condition on a delivered part; its result is the part.\<close>

definition delivered_part :: "env \<Rightarrow> upload_session \<Rightarrow> part_input \<Rightarrow> upload_part option" where
  "delivered_part E s i =
     accepted_value (
       require () (safe_integer_within 1 (up_totalParts s) (in_part_partNumber i)) (\<lambda>partNumber.
       require () (sha256_hex (in_part_contentSha256 i)) (\<lambda>contentSha256.
       require () (safe_integer_from 0 (in_part_byteSize i)) (\<lambda>byteSize.
       require () (timestamp E (in_part_uploadedAt i)) (\<lambda>uploadedAt.
       reject_if (byteSize > up_partSize s) () (
       reject_if (partNumber < up_totalParts s \<and> byteSize \<noteq> up_partSize s) () (
       accepted \<lparr>part_partNumber = partNumber, part_contentSha256 = contentSha256,
                 part_byteSize = byteSize, part_uploadedAt = uploadedAt\<rparr>)))))))"

definition add_part :: "upload_session \<Rightarrow> upload_part \<Rightarrow> upload_session" where
  "add_part s part =
     s\<lparr>up_parts := sort_key part_partNumber (up_parts s @ [part]),
       up_revision := js_succ (up_revision s)\<rparr>"

definition merge_part :: "upload_session \<Rightarrow> upload_part \<Rightarrow> upload_error + upload_session" where
  "merge_part s part =
     (case List.find (\<lambda>p. part_partNumber p = part_partNumber part) (up_parts s) of
        Some existing \<Rightarrow>
          if part_contentSha256 existing = part_contentSha256 part
             \<and> part_byteSize existing = part_byteSize part
          then accepted s else rejected Upload_DIGEST_MISMATCH
      | None \<Rightarrow> accepted (add_part s part))"

definition recordArtifactUploadPartV1 ::
    "env \<Rightarrow> upload_session \<Rightarrow> part_input \<Rightarrow> upload_error + upload_session" where
  "recordArtifactUploadPartV1 E s i =
     reject_if (up_state s \<noteq> Upload_OPEN) Upload_INVALID_STATE (
     reject_if (date_less (Date_parse E (up_expiresAt s)) (Date_parse E (to_text E (in_part_uploadedAt i))))
       Upload_is_EXPIRED (
     reject_if (\<not> is_int (in_part_expectedRevision i) (up_revision s)) Upload_REVISION_CONFLICT (
     require Upload_INVALID_PART (delivered_part E s i) (\<lambda>part.
     merge_part s part))))"

definition advance_upload :: "upload_session \<Rightarrow> upload_state \<Rightarrow> upload_session" where
  "advance_upload s q = s\<lparr>up_state := q, up_revision := js_succ (up_revision s)\<rparr>"

definition recorded_bytes :: "upload_part list \<Rightarrow> int" where
  "recorded_bytes parts = foldl (\<lambda>total part. js_add total (part_byteSize part)) 0 parts"

definition beginArtifactUploadFinalizationV1 ::
    "upload_session \<Rightarrow> jsval \<Rightarrow> jsval \<Rightarrow> upload_error + upload_session" where
  "beginArtifactUploadFinalizationV1 s assembledSha256 expectedRevision =
     reject_if (up_state s \<noteq> Upload_OPEN) Upload_INVALID_STATE (
     reject_if (\<not> is_int expectedRevision (up_revision s)) Upload_REVISION_CONFLICT (
     require Upload_INVALID_HASH (sha256_hex assembledSha256) (\<lambda>assembled.
     reject_if (int (length (up_parts s)) \<noteq> up_totalParts s) Upload_MISSING_PARTS (
     reject_if (list_ex (\<lambda>(part, index). part_partNumber part \<noteq> int index + 1)
                  (zip (up_parts s) [0..<length (up_parts s)])) Upload_MISSING_PARTS (
     reject_if (recorded_bytes (up_parts s) \<noteq> up_expectedByteSize s) Upload_SIZE_MISMATCH (
     reject_if (assembled \<noteq> up_expectedSha256 s) Upload_DIGEST_MISMATCH (
     accepted (advance_upload s Upload_FINALIZING))))))))"

text \<open>\<open>/^[A-Za-z0-9_-]{16,512}$/u\<close>\<close>

definition boundedOpaqueLocator :: "jsval \<Rightarrow> jsstr option" where
  "boundedOpaqueLocator v =
     (case v of
        Str s \<Rightarrow>
          if 16 \<le> length s \<and> length s \<le> 512
             \<and> list_all (\<lambda>c. digit c \<or> lower c \<or> upper c \<or> c \<in> set (js ''_-'')) s
          then Some s else None
      | _ \<Rightarrow> None)"

definition boundedObjectVersion :: "jsval \<Rightarrow> jsstr option" where
  "boundedObjectVersion v =
     (case v of
        Str s \<Rightarrow>
          if length s < 1 \<or> length s > 1024 then None
          else if list_ex (\<lambda>c. unat c \<le> 31 \<or> unat c = 127) s then None
          else Some s
      | _ \<Rightarrow> None)"

definition complete_upload :: "upload_session \<Rightarrow> verified_object \<Rightarrow> upload_session" where
  "complete_upload s ob =
     s\<lparr>up_state := Upload_COMPLETED, up_verifiedObject := Some ob,
       up_revision := js_succ (up_revision s)\<rparr>"

definition completeArtifactUploadFinalizationV1 ::
    "upload_session \<Rightarrow> jsval \<Rightarrow> jsval \<Rightarrow> jsval \<Rightarrow> upload_error + upload_session" where
  "completeArtifactUploadFinalizationV1 s locator version expectedRevision =
     reject_if (up_state s \<noteq> Upload_FINALIZING) Upload_INVALID_STATE (
     reject_if (\<not> is_int expectedRevision (up_revision s)) Upload_REVISION_CONFLICT (
     require Upload_INVALID_STATE (boundedOpaqueLocator locator) (\<lambda>opaque.
     require Upload_INVALID_STATE (boundedObjectVersion version) (\<lambda>vid.
     accepted (complete_upload s \<lparr>opaqueLocator = opaque, objectVersionId = vid\<rparr>)))))"

definition completeArtifactUploadSessionV1 ::
    "upload_session \<Rightarrow> jsval \<Rightarrow> jsval \<Rightarrow> upload_error + upload_session" where
  "completeArtifactUploadSessionV1 = beginArtifactUploadFinalizationV1"

definition abortArtifactUploadSessionV1 ::
    "upload_session \<Rightarrow> jsval \<Rightarrow> upload_error + upload_session" where
  "abortArtifactUploadSessionV1 s expectedRevision =
     reject_if (up_state s \<noteq> Upload_OPEN \<and> up_state s \<noteq> Upload_FINALIZING) Upload_INVALID_STATE (
     reject_if (\<not> is_int expectedRevision (up_revision s)) Upload_REVISION_CONFLICT (
     accepted (advance_upload s Upload_ABORTED)))"

definition expireArtifactUploadSessionV1 ::
    "env \<Rightarrow> upload_session \<Rightarrow> jsval \<Rightarrow> upload_error + upload_session" where
  "expireArtifactUploadSessionV1 E s now =
     require Upload_INVALID_TIMESTAMP (timestamp E now) (\<lambda>t.
     reject_if (up_state s \<noteq> Upload_OPEN \<and> up_state s \<noteq> Upload_FINALIZING) Upload_INVALID_STATE (
     reject_if (date_less (Date_parse E t) (Date_parse E (up_expiresAt s))) Upload_INVALID_TIMESTAMP (
     accepted (advance_upload s Upload_EXPIRED))))"

inductive upload_step :: "env \<Rightarrow> upload_session \<Rightarrow> upload_session \<Rightarrow> bool" for E where
  record_part: "recordArtifactUploadPartV1 E s i = Inr t \<Longrightarrow> upload_step E s t"
| begin_finalization: "beginArtifactUploadFinalizationV1 s h r = Inr t \<Longrightarrow> upload_step E s t"
| complete: "completeArtifactUploadFinalizationV1 s l v r = Inr t \<Longrightarrow> upload_step E s t"
| abort: "abortArtifactUploadSessionV1 s r = Inr t \<Longrightarrow> upload_step E s t"
| expire: "expireArtifactUploadSessionV1 E s now = Inr t \<Longrightarrow> upload_step E s t"

definition upload_initial :: "env \<Rightarrow> upload_session \<Rightarrow> bool" where
  "upload_initial E s \<longleftrightarrow> (\<exists>i. createArtifactUploadSessionV1 E i = Inr s)"

section \<open>Sessions\<close>

definition upload_edge :: "upload_state \<Rightarrow> upload_state \<Rightarrow> bool" where
  "upload_edge p q \<longleftrightarrow>
     (p = Upload_OPEN \<and> q \<in> {Upload_OPEN, Upload_FINALIZING, Upload_ABORTED, Upload_EXPIRED})
     \<or> (p = Upload_FINALIZING \<and> q \<in> {Upload_COMPLETED, Upload_ABORTED, Upload_EXPIRED})"

text \<open>What the creation fixes for ever.\<close>

definition upload_key :: "upload_session \<Rightarrow> upload_session" where
  "upload_key s =
     s\<lparr>up_parts := [], up_state := Upload_OPEN, up_verifiedObject := None, up_revision := 0\<rparr>"

definition part_fits :: "upload_session \<Rightarrow> upload_part \<Rightarrow> bool" where
  "part_fits s p \<longleftrightarrow>
     1 \<le> part_partNumber p \<and> part_partNumber p \<le> up_totalParts s
     \<and> 0 \<le> part_byteSize p \<and> part_byteSize p \<le> up_partSize s
     \<and> (part_partNumber p < up_totalParts s \<longrightarrow> part_byteSize p = up_partSize s)"

definition parts_complete :: "upload_session \<Rightarrow> bool" where
  "parts_complete s \<longleftrightarrow>
     map part_partNumber (up_parts s) = [1..up_totalParts s]
     \<and> sum_list (map part_byteSize (up_parts s)) = up_expectedByteSize s"

definition upload_ok :: "upload_session \<Rightarrow> bool" where
  "upload_ok s \<longleftrightarrow>
     1 \<le> up_totalParts s \<and> up_totalParts s \<le> 10000 \<and> 1 \<le> up_partSize s \<and> up_partSize s \<le> 1073741824
     \<and> sorted (map part_partNumber (up_parts s)) \<and> distinct (map part_partNumber (up_parts s))
     \<and> (\<forall>p \<in> set (up_parts s). part_fits s p)
     \<and> (up_state s \<in> {Upload_FINALIZING, Upload_COMPLETED} \<longrightarrow> parts_complete s)
     \<and> (up_state s = Upload_COMPLETED \<longleftrightarrow> up_verifiedObject s \<noteq> None)"

lemma delivered_part_fits:
  "delivered_part E s i = Some p \<Longrightarrow> part_fits s p"
  by (auto simp: delivered_part_def part_fits_def result_simps safe_integer_within_Some
      safe_integer_from_Some)

lemma merge_accepted [consumes 1, case_names replay fresh]:
  assumes "merge_part s p = Inr t"
  obtains (replay) e where "t = s" "e \<in> set (up_parts s)" "part_partNumber e = part_partNumber p"
  | (fresh) "t = add_part s p" "part_partNumber p \<notin> part_partNumber ` set (up_parts s)"
proof (cases "List.find (\<lambda>e. part_partNumber e = part_partNumber p) (up_parts s)")
  case None
  with assms show thesis by (intro fresh) (auto simp: merge_part_def find_None_iff)
next
  case (Some e)
  with assms find_SomeD [OF Some] show thesis
    by (intro replay [of e]) (auto simp: merge_part_def split: if_splits)
qed

lemma record_iff:
  "recordArtifactUploadPartV1 E s i = Inr t \<longleftrightarrow>
     up_state s = Upload_OPEN
     \<and> \<not> date_less (Date_parse E (up_expiresAt s)) (Date_parse E (to_text E (in_part_uploadedAt i)))
     \<and> is_int (in_part_expectedRevision i) (up_revision s)
     \<and> (\<exists>p. delivered_part E s i = Some p \<and> merge_part s p = Inr t)"
  unfolding recordArtifactUploadPartV1_def result_simps by blast

lemma begin_accepted:
  assumes "beginArtifactUploadFinalizationV1 s h r = Inr t"
  shows "t = advance_upload s Upload_FINALIZING" "up_state s = Upload_OPEN"
    "int (length (up_parts s)) = up_totalParts s"
    "\<forall>n < length (up_parts s). part_partNumber (up_parts s ! n) = int n + 1"
    "recorded_bytes (up_parts s) = up_expectedByteSize s" "sha256_hex h = Some (up_expectedSha256 s)"
proof -
  let ?parts = "up_parts s"
  from assms have a: "t = advance_upload s Upload_FINALIZING" "up_state s = Upload_OPEN"
    "int (length ?parts) = up_totalParts s"
    "\<forall>x \<in> set (zip ?parts [0..<length ?parts]). part_partNumber (fst x) = int (snd x) + 1"
    "recorded_bytes ?parts = up_expectedByteSize s" "sha256_hex h = Some (up_expectedSha256 s)"
    unfolding beginArtifactUploadFinalizationV1_def result_simps list_ex_iff by auto
  have "(?parts ! n, n) \<in> set (zip ?parts [0..<length ?parts])" if "n < length ?parts" for n
    using that by (force simp: set_zip)
  with a(4) have "\<forall>n < length ?parts. part_partNumber (?parts ! n) = int n + 1" by fastforce
  with a show "t = advance_upload s Upload_FINALIZING" "up_state s = Upload_OPEN"
    "int (length ?parts) = up_totalParts s"
    "\<forall>n < length ?parts. part_partNumber (?parts ! n) = int n + 1"
    "recorded_bytes ?parts = up_expectedByteSize s" "sha256_hex h = Some (up_expectedSha256 s)"
    by blast+
qed

lemma complete_accepted:
  assumes "completeArtifactUploadFinalizationV1 s l v r = Inr t"
  shows "\<exists>ob. t = complete_upload s ob" "up_state s = Upload_FINALIZING"
  using assms by (auto simp: completeArtifactUploadFinalizationV1_def result_simps)

lemma abort_accepted:
  assumes "abortArtifactUploadSessionV1 s r = Inr t"
  shows "t = advance_upload s Upload_ABORTED" "up_state s \<in> {Upload_OPEN, Upload_FINALIZING}"
  using assms by (auto simp: abortArtifactUploadSessionV1_def result_simps)

lemma expire_accepted:
  assumes "expireArtifactUploadSessionV1 E s now = Inr t"
  shows "t = advance_upload s Upload_EXPIRED" "up_state s \<in> {Upload_OPEN, Upload_FINALIZING}"
  using assms by (auto simp: expireArtifactUploadSessionV1_def result_simps)

text \<open>Every step in one of four shapes.\<close>

lemma upload_step_cases [consumes 1, case_names same part move complete]:
  assumes "upload_step E s t"
  obtains (same) "t = s"
  | (part) p where "t = add_part s p" "up_state s = Upload_OPEN" "part_fits s p"
      "part_partNumber p \<notin> part_partNumber ` set (up_parts s)"
  | (move) q where "t = advance_upload s q" "up_state s \<in> {Upload_OPEN, Upload_FINALIZING}"
      "q \<in> {Upload_ABORTED, Upload_EXPIRED} \<or> (q = Upload_FINALIZING \<and> up_state s = Upload_OPEN
        \<and> int (length (up_parts s)) = up_totalParts s
        \<and> (\<forall>n < length (up_parts s). part_partNumber (up_parts s ! n) = int n + 1)
        \<and> recorded_bytes (up_parts s) = up_expectedByteSize s)"
  | (complete) ob where "t = complete_upload s ob" "up_state s = Upload_FINALIZING"
  using assms
proof cases
  case (record_part i)
  then obtain p where p: "up_state s = Upload_OPEN" "delivered_part E s i = Some p" "merge_part s p = Inr t"
    unfolding record_iff by blast
  from p(3) show thesis
    by (cases rule: merge_accepted) (use that(1,2) p delivered_part_fits in blast)+
next
  case (begin_finalization h r)
  with begin_accepted [of s h r t] that(3) show thesis by blast
next
  case (complete l v r)
  with complete_accepted [of s l v r t] that(4) show thesis by blast
next
  case (abort r)
  with abort_accepted [of s r t] that(3) show thesis by blast
next
  case (expire now)
  with expire_accepted [of E s now t] that(3) show thesis by blast
qed

lemma add_part_fields [simp]:
  "up_parts (add_part s p) = sort_key part_partNumber (up_parts s @ [p])"
  "up_state (add_part s p) = up_state s" "up_revision (add_part s p) = js_succ (up_revision s)"
  "up_verifiedObject (add_part s p) = up_verifiedObject s"
  "up_totalParts (add_part s p) = up_totalParts s" "up_partSize (add_part s p) = up_partSize s"
  "up_expectedByteSize (add_part s p) = up_expectedByteSize s" "up_expiresAt (add_part s p) = up_expiresAt s"
  "upload_key (add_part s p) = upload_key s" "part_fits (add_part s p) = part_fits s"
  by (simp_all add: add_part_def upload_key_def part_fits_def fun_eq_iff)

lemma advance_fields [simp]:
  "up_parts (advance_upload s q) = up_parts s" "up_state (advance_upload s q) = q"
  "up_revision (advance_upload s q) = js_succ (up_revision s)"
  "up_verifiedObject (advance_upload s q) = up_verifiedObject s"
  "up_totalParts (advance_upload s q) = up_totalParts s" "up_partSize (advance_upload s q) = up_partSize s"
  "up_expectedByteSize (advance_upload s q) = up_expectedByteSize s"
  "upload_key (advance_upload s q) = upload_key s" "part_fits (advance_upload s q) = part_fits s"
  "parts_complete (advance_upload s q) = parts_complete s"
  by (simp_all add: advance_upload_def upload_key_def part_fits_def parts_complete_def fun_eq_iff)

lemma complete_fields [simp]:
  "up_parts (complete_upload s ob) = up_parts s" "up_state (complete_upload s ob) = Upload_COMPLETED"
  "up_revision (complete_upload s ob) = js_succ (up_revision s)"
  "up_verifiedObject (complete_upload s ob) = Some ob"
  "up_totalParts (complete_upload s ob) = up_totalParts s" "up_partSize (complete_upload s ob) = up_partSize s"
  "upload_key (complete_upload s ob) = upload_key s" "part_fits (complete_upload s ob) = part_fits s"
  "parts_complete (complete_upload s ob) = parts_complete s"
  by (simp_all add: complete_upload_def upload_key_def part_fits_def parts_complete_def fun_eq_iff)

lemma upload_step_shape:
  assumes "upload_step E s t"
  shows "upload_key t = upload_key s
     \<and> (s = t \<or> upload_edge (up_state s) (up_state t) \<and> up_revision t = js_succ (up_revision s))"
  using assms by (cases rule: upload_step_cases) (auto simp: upload_edge_def)

lemma upload_initial_ok: "upload_initial E s \<Longrightarrow> upload_ok s"
  by (auto simp: upload_initial_def createArtifactUploadSessionV1_def result_simps upload_ok_def
      part_count_def positiveInteger_Some)

lemma recorded_bytes_exact:
  assumes "\<forall>p \<in> set ps. 0 \<le> part_byteSize p \<and> part_byteSize p \<le> 1073741824" "length ps \<le> 10000"
  shows "recorded_bytes ps = sum_list (map part_byteSize ps)
     \<and> 0 \<le> sum_list (map part_byteSize ps) \<and> sum_list (map part_byteSize ps) \<le> int (length ps) * 1073741824"
  using assms
proof (induction ps rule: rev_induct)
  case Nil
  then show ?case by (simp add: recorded_bytes_def)
next
  case (snoc p ps)
  then have IH: "recorded_bytes ps = sum_list (map part_byteSize ps)"
    "0 \<le> sum_list (map part_byteSize ps)" "sum_list (map part_byteSize ps) \<le> int (length ps) * 1073741824"
    by simp_all
  have "recorded_bytes (ps @ [p]) = js_add (recorded_bytes ps) (part_byteSize p)"
    by (simp add: recorded_bytes_def)
  also have "\<dots> = recorded_bytes ps + part_byteSize p"
    using IH snoc.prems by (intro js_add_exact) simp
  finally show ?case using IH snoc.prems by simp
qed

lemma numbers_upto:
  assumes "\<forall>n < length ps. f (ps ! n) = int n + 1" "int (length ps) = k"
  shows "map f ps = [1..k]"
  using assms by (intro nth_equalityI) auto

lemma begin_keeps_ok:
  assumes "upload_ok s" "up_state s = Upload_OPEN" "int (length (up_parts s)) = up_totalParts s"
    and "\<forall>n < length (up_parts s). part_partNumber (up_parts s ! n) = int n + 1"
    and "recorded_bytes (up_parts s) = up_expectedByteSize s"
  shows "parts_complete s"
proof -
  from assms(1,3) have "\<forall>p \<in> set (up_parts s). 0 \<le> part_byteSize p \<and> part_byteSize p \<le> 1073741824"
    "length (up_parts s) \<le> 10000"
    by (auto simp: upload_ok_def part_fits_def)
  from recorded_bytes_exact [OF this] numbers_upto [OF assms(4,3)] assms(5) show ?thesis
    by (simp add: parts_complete_def)
qed

lemma distinct_sort_key [simp]: "distinct (map f (sort_key f xs)) \<longleftrightarrow> distinct (map f xs)"
  by (rule mset_eq_imp_distinct_iff) simp

lemma upload_step_ok:
  assumes "upload_step E s t" "upload_ok s"
  shows "upload_ok t"
  using assms(1)
proof (cases rule: upload_step_cases)
  case same
  with assms(2) show ?thesis by simp
next
  case (part p)
  have "distinct (map part_partNumber (sort_key part_partNumber (up_parts s @ [p])))"
    using part assms(2) by (simp add: upload_ok_def)
  then show ?thesis using part assms(2) by (auto simp: upload_ok_def)
next
  case (move q)
  from move(3) have "upload_ok (advance_upload s q)"
  proof
    assume "q \<in> {Upload_ABORTED, Upload_EXPIRED}"
    with move(2) assms(2) show ?thesis by (auto simp: upload_ok_def)
  next
    assume q: "q = Upload_FINALIZING \<and> up_state s = Upload_OPEN
        \<and> int (length (up_parts s)) = up_totalParts s
        \<and> (\<forall>n < length (up_parts s). part_partNumber (up_parts s ! n) = int n + 1)
        \<and> recorded_bytes (up_parts s) = up_expectedByteSize s"
    with begin_keeps_ok [OF assms(2)] have "parts_complete s" by blast
    with q assms(2) show ?thesis by (auto simp: upload_ok_def)
  qed
  with move(1) show ?thesis by simp
next
  case (complete ob)
  with assms(2) show ?thesis by (auto simp: upload_ok_def)
qed

interpretation uploads: guarded "upload_step E" up_state upload_edge up_revision upload_key
    "upload_initial E" upload_ok
  by unfold_locales (use upload_step_shape upload_initial_ok upload_step_ok in blast)+

section \<open>Delivering many parts\<close>

text \<open>A client that reads the revision before each delivery, and a batch of deliveries.\<close>

definition deliver :: "env \<Rightarrow> upload_session \<Rightarrow> part_input \<Rightarrow> upload_error + upload_session" where
  "deliver E s i =
     recordArtifactUploadPartV1 E s (i\<lparr>in_part_expectedRevision := int_num (up_revision s)\<rparr>)"

fun deliver_all :: "env \<Rightarrow> upload_session \<Rightarrow> part_input list \<Rightarrow> upload_error + upload_session" where
  "deliver_all E s [] = accepted s"
| "deliver_all E s (i # rest) = and_then (deliver E s i) (\<lambda>t. deliver_all E t rest)"

lemma deliver_iff:
  "deliver E s i = Inr t \<longleftrightarrow>
     up_state s = Upload_OPEN
     \<and> \<not> date_less (Date_parse E (up_expiresAt s)) (Date_parse E (to_text E (in_part_uploadedAt i)))
     \<and> (\<exists>p. delivered_part E s i = Some p \<and> merge_part s p = Inr t)"
  by (simp add: deliver_def record_iff is_int_def delivered_part_def)

definition parts_distinct :: "upload_session \<Rightarrow> bool" where
  "parts_distinct s \<longleftrightarrow> distinct (map part_partNumber (up_parts s))"

definition has_part :: "upload_session \<Rightarrow> upload_part \<Rightarrow> bool" where
  "has_part s p \<longleftrightarrow> (\<exists>e \<in> set (up_parts s). part_partNumber e = part_partNumber p
     \<and> part_contentSha256 e = part_contentSha256 p \<and> part_byteSize e = part_byteSize p)"

lemma has_part_number: "has_part s p \<Longrightarrow> part_partNumber p \<in> part_partNumber ` set (up_parts s)"
  unfolding has_part_def by (metis image_eqI)

lemma merge_iff:
  assumes "parts_distinct s"
  shows "merge_part s p = Inr t \<longleftrightarrow>
     (has_part s p \<and> t = s)
     \<or> (part_partNumber p \<notin> part_partNumber ` set (up_parts s) \<and> t = add_part s p)"
proof (cases "List.find (\<lambda>e. part_partNumber e = part_partNumber p) (up_parts s)")
  case None
  have "part_partNumber p \<notin> part_partNumber ` set (up_parts s)"
    using None by (auto simp: find_None_iff)
  with None has_part_number [of s p] show ?thesis by (auto simp: merge_part_def)
next
  case (Some e)
  have "e' = e" if "e' \<in> set (up_parts s)" "part_partNumber e' = part_partNumber p" for e'
    using that find_SomeD [OF Some] assms by (auto simp: parts_distinct_def distinct_map inj_on_def)
  then have "has_part s p \<longleftrightarrow> part_contentSha256 e = part_contentSha256 p \<and> part_byteSize e = part_byteSize p"
    using find_SomeD [OF Some] by (auto simp: has_part_def)
  moreover have "part_partNumber p \<in> part_partNumber ` set (up_parts s)"
    using find_SomeD [OF Some] by (metis image_eqI)
  ultimately show ?thesis using Some by (auto simp: merge_part_def)
qed

lemma delivered_part_add [simp]: "delivered_part E (add_part s p) = delivered_part E s"
  by (simp add: fun_eq_iff delivered_part_def)

lemma delivered_part_number:
  "delivered_part E s i = Some p \<Longrightarrow> in_part_partNumber i = int_num (part_partNumber p)"
  by (auto simp: delivered_part_def result_simps safe_integer_within_Some dest: safe_integer_bounds)

lemma has_part_add [simp]:
  "part_partNumber p \<noteq> part_partNumber q \<Longrightarrow> has_part (add_part s q) p \<longleftrightarrow> has_part s p"
  by (auto simp: has_part_def)

lemma add_part_commute:
  assumes "distinct (map part_partNumber (up_parts s @ [p, q]))"
  shows "add_part (add_part s p) q = add_part (add_part s q) p"
proof -
  let ?f = part_partNumber and ?l = "up_parts s"
  have "sort_key ?f (sort_key ?f (?l @ [p]) @ [q]) = sort_key ?f (sort_key ?f (?l @ [q]) @ [p])"
  proof (rule map_sorted_distinct_set_unique)
    have "inj_on ?f (set (?l @ [p, q]))" using assms by (simp only: distinct_map)
    then show "inj_on ?f (set (sort_key ?f (sort_key ?f (?l @ [p]) @ [q]))
        \<union> set (sort_key ?f (sort_key ?f (?l @ [q]) @ [p])))"
      by (rule inj_on_subset) auto
    show "set (sort_key ?f (sort_key ?f (?l @ [p]) @ [q])) = set (sort_key ?f (sort_key ?f (?l @ [q]) @ [p]))"
      by auto
  qed (use assms in \<open>simp_all del: set_map add: set_map [symmetric]\<close>, auto)
  then show ?thesis by (simp add: add_part_def)
qed

lemma parts_distinct_add:
  "parts_distinct s \<Longrightarrow> part_partNumber p \<notin> part_partNumber ` set (up_parts s) \<Longrightarrow> parts_distinct (add_part s p)"
  by (simp add: parts_distinct_def)

lemma deliver_distinct: "deliver E s i = Inr t \<Longrightarrow> parts_distinct s \<Longrightarrow> parts_distinct t"
  by (auto simp: deliver_iff merge_iff intro: parts_distinct_add)

lemma deliver_swap:
  assumes d: "parts_distinct s" and ne: "in_part_partNumber a \<noteq> in_part_partNumber b"
    and s1: "deliver E s a = Inr t1" and s2: "deliver E t1 b = Inr t2"
  shows "\<exists>u. deliver E s b = Inr u \<and> deliver E u a = Inr t2"
proof -
  obtain p where p: "delivered_part E s a = Some p"
    "has_part s p \<and> t1 = s \<or> part_partNumber p \<notin> part_partNumber ` set (up_parts s) \<and> t1 = add_part s p"
    using s1 d by (auto simp: deliver_iff merge_iff)
  from p(2) have same: "delivered_part E t1 = delivered_part E s" by auto
  obtain q where q: "delivered_part E s b = Some q"
    "has_part t1 q \<and> t2 = t1 \<or> part_partNumber q \<notin> part_partNumber ` set (up_parts t1) \<and> t2 = add_part t1 q"
    using s2 deliver_distinct [OF s1 d] unfolding same deliver_iff by (auto simp: merge_iff same)
  have pq: "part_partNumber p \<noteq> part_partNumber q" "part_partNumber q \<noteq> part_partNumber p"
    using ne delivered_part_number [OF p(1)] delivered_part_number [OF q(1)] by auto
  have g: "up_state s = Upload_OPEN"
    "\<not> date_less (Date_parse E (up_expiresAt s)) (Date_parse E (to_text E (in_part_uploadedAt a)))"
    "\<not> date_less (Date_parse E (up_expiresAt s)) (Date_parse E (to_text E (in_part_uploadedAt b)))"
    using s1 s2 p(2) by (auto simp: deliver_iff)
  let ?u = "if has_part s q then s else add_part s q"
  have u: "deliver E s b = Inr ?u" "parts_distinct ?u"
    using g q p(2) pq d by (auto simp: deliver_iff merge_iff parts_distinct_add)
  have "deliver E ?u a = Inr t2"
  proof -
    have "merge_part ?u p = Inr t2"
      unfolding merge_iff [OF u(2)]
      using p(2) q(2) pq d has_part_number [of s p] has_part_number [of s q]
      by (auto simp: add_part_commute parts_distinct_def)
    with g p(1) show ?thesis by (auto simp: deliver_iff)
  qed
  with u show ?thesis by blast
qed

lemma deliver_front:
  assumes "parts_distinct s" "in_part_partNumber x \<notin> in_part_partNumber ` set us"
    and "deliver_all E s (us @ x # vs) = Inr t"
  shows "deliver_all E s (x # us @ vs) = Inr t"
  using assms
proof (induction us arbitrary: s)
  case Nil
  then show ?case by simp
next
  case (Cons u us)
  then obtain s1 where s1: "deliver E s u = Inr s1" "deliver_all E s1 (us @ x # vs) = Inr t"
    by (auto simp: result_simps)
  with Cons.IH [OF deliver_distinct [OF s1(1) Cons.prems(1)]] Cons.prems(2)
  obtain s2 where s2: "deliver E s1 x = Inr s2" "deliver_all E s2 (us @ vs) = Inr t"
    by (auto simp: result_simps)
  from deliver_swap [OF Cons.prems(1) _ s1(1) s2(1)] Cons.prems(2)
  obtain w where "deliver E s x = Inr w" "deliver E w u = Inr s2" by auto
  with s2 show ?case by (simp add: result_simps)
qed

lemma deliver_permuted:
  assumes "mset xs = mset ys" "distinct (map in_part_partNumber ys)" "parts_distinct s"
    and "deliver_all E s ys = Inr t"
  shows "deliver_all E s xs = Inr t"
  using assms
proof (induction xs arbitrary: ys s)
  case Nil
  then show ?case by simp
next
  case (Cons i xs)
  from Cons.prems(1) have "i \<in> set ys" by (metis list.set_intros(1) set_mset_mset)
  then obtain us vs where ys: "ys = us @ i # vs" by (meson split_list)
  have "deliver_all E s (i # us @ vs) = Inr t"
    using Cons.prems ys by (intro deliver_front) auto
  then obtain s1 where s1: "deliver E s i = Inr s1" "deliver_all E s1 (us @ vs) = Inr t"
    by (auto simp: result_simps)
  have "deliver_all E s1 xs = Inr t"
    by (rule Cons.IH [OF _ _ deliver_distinct [OF s1(1) Cons.prems(3)] s1(2)])
       (use Cons.prems(1,2) ys in auto)
  with s1(1) show ?case by (simp add: result_simps)
qed

section \<open>Histories\<close>

lemma complete_sizes:
  assumes "upload_ok s" "parts_complete s"
  shows "map part_byteSize (up_parts s)
    = replicate (nat (up_totalParts s - 1)) (up_partSize s)
      @ [up_expectedByteSize s - (up_totalParts s - 1) * up_partSize s]"
proof -
  let ?n = "up_totalParts s"
  have nums: "map part_partNumber (up_parts s) = [1..?n]"
    and total: "sum_list (map part_byteSize (up_parts s)) = up_expectedByteSize s"
    using assms(2) by (simp_all add: parts_complete_def)
  have n: "1 \<le> ?n" using assms(1) by (simp add: upload_ok_def)
  from arg_cong [where f = length, OF nums] have len: "length (up_parts s) = nat ?n" by simp
  with n obtain ps p where ps: "up_parts s = ps @ [p]" by (cases "up_parts s" rule: rev_cases) auto
  have first: "map part_byteSize ps = replicate (length ps) (up_partSize s)"
  proof (rule nth_equalityI)
    fix i
    assume "i < length (map part_byteSize ps)"
    then have i: "i < length ps" by simp
    have i': "i < length (up_parts s)" "int i + 1 < ?n" using i ps len by auto
    then have "part_partNumber (up_parts s ! i) = int i + 1"
      using arg_cong [where f = "\<lambda>l. l ! i", OF nums] by simp
    moreover have "part_fits s (up_parts s ! i)"
      using assms(1) i ps by (simp add: upload_ok_def nth_append)
    ultimately have "part_byteSize (up_parts s ! i) = up_partSize s"
      using i'(2) by (simp add: part_fits_def)
    then show "map part_byteSize ps ! i = replicate (length ps) (up_partSize s) ! i"
      using i ps by (simp add: nth_append)
  qed simp
  have "int (length ps) = ?n - 1" using len ps n by simp
  then show ?thesis using first total ps by (simp add: sum_list_replicate)
qed

lemma upload_step_parts:
  assumes "upload_step E s t"
  shows "set (up_parts s) \<subseteq> set (up_parts t)" "up_state s \<noteq> Upload_OPEN \<Longrightarrow> up_parts t = up_parts s \<and> up_state t \<noteq> Upload_OPEN"
  using assms by (cases rule: upload_step_cases; auto)+

lemma upload_run_parts:
  "(upload_step E)\<^sup>*\<^sup>* s t \<Longrightarrow> set (up_parts s) \<subseteq> set (up_parts t)
     \<and> (up_state s \<noteq> Upload_OPEN \<longrightarrow> up_parts t = up_parts s \<and> up_state t \<noteq> Upload_OPEN)"
proof (induction rule: rtranclp_induct)
  case (step t u)
  with upload_step_parts [OF step.hyps(2)] show ?case by auto
qed simp

section \<open>Samples\<close>

definition sample_upload_input :: upload_input where
  "sample_upload_input =
     \<lparr>in_up_sessionId = sample_id CHR ''a'', in_up_artifactId = sample_id CHR ''b'',
      in_up_artifactVersionId = sample_id CHR ''c'', in_up_intakeId = sample_id CHR ''d'',
      in_up_policyVersionId = sample_id CHR ''e'', in_up_authorizationEpoch = int_num 1,
      in_up_tenantScope = sample_scope CHR ''a'' CHR ''b'', in_up_expectedSha256 = sample_hash CHR ''a'',
      in_up_expectedByteSize = int_num 10, in_up_mediaType = Str (js ''text/csv''),
      in_up_partSize = int_num 6, in_up_createdAt = sample_time ''00'',
      in_up_expiresAt = sample_time ''09''\<rparr>"

definition sample_upload :: upload_session where
  "sample_upload =
     \<lparr>up_sessionId = uuid_of CHR ''a'', up_artifactId = uuid_of CHR ''b'',
      up_artifactVersionId = uuid_of CHR ''c'', up_intakeId = uuid_of CHR ''d'',
      up_policyVersionId = uuid_of CHR ''e'', up_authorizationEpoch = 1,
      up_tenantScope = ws_scope CHR ''a'' CHR ''b'', up_expectedSha256 = hash_of CHR ''a'',
      up_expectedByteSize = 10, up_mediaType = js ''text/csv'', up_partSize = 6, up_totalParts = 2,
      up_parts = [], up_state = Upload_OPEN, up_verifiedObject = None,
      up_createdAt = time_of ''00'', up_expiresAt = time_of ''09'', up_revision = 1\<rparr>"

definition sample_part_input :: "int \<Rightarrow> int \<Rightarrow> part_input" where
  "sample_part_input n bytes =
     \<lparr>in_part_partNumber = int_num n, in_part_contentSha256 = sample_hash CHR ''b'',
      in_part_byteSize = int_num bytes, in_part_uploadedAt = sample_time ''01'',
      in_part_expectedRevision = Undefined\<rparr>"

definition sample_part :: "int \<Rightarrow> int \<Rightarrow> upload_part" where
  "sample_part n bytes =
     \<lparr>part_partNumber = n, part_contentSha256 = hash_of CHR ''b'', part_byteSize = bytes,
      part_uploadedAt = time_of ''01''\<rparr>"

lemma sample_media: "mediaType (Str (js ''text/csv'')) = Some (js ''text/csv'')"
  by code_simp

lemma sample_upload_initial: "upload_initial sample_env sample_upload"
proof -
  have "createArtifactUploadSessionV1 sample_env sample_upload_input = Inr sample_upload"
    by (simp add: createArtifactUploadSessionV1_def sample_upload_input_def sample_upload_def
        result_simps sample_media max_safe_integer_def part_count_def safe_integer_from_def)
  then show ?thesis unfolding upload_initial_def by blast
qed

definition sample_full :: upload_session where
  "sample_full = add_part (add_part sample_upload (sample_part 2 4)) (sample_part 1 6)"

lemma sample_delivers:
  "deliver_all sample_env sample_upload [sample_part_input 2 4, sample_part_input 1 6] = Inr sample_full"
proof -
  have o: "up_state sample_upload = Upload_OPEN" "up_totalParts sample_upload = 2"
    "up_partSize sample_upload = 6" "up_expiresAt sample_upload = time_of ''09''" "up_parts sample_upload = []"
    by (simp_all add: sample_upload_def)
  have d: "delivered_part sample_env sample_upload (sample_part_input 2 4) = Some (sample_part 2 4)"
    "delivered_part sample_env sample_upload (sample_part_input 1 6) = Some (sample_part 1 6)"
    using o
    by (simp_all add: delivered_part_def sample_part_input_def sample_part_def result_simps
        safe_integer_within_def safe_integer_from_def max_safe_integer_def accepted_value_def)
  have "deliver sample_env sample_upload (sample_part_input 2 4) = Inr (add_part sample_upload (sample_part 2 4))"
    unfolding deliver_iff d(1) using o by (simp add: sample_part_input_def merge_part_def)
  moreover have "deliver sample_env (add_part sample_upload (sample_part 2 4)) (sample_part_input 1 6)
      = Inr sample_full"
    unfolding deliver_iff delivered_part_add d(2)
    using o by (simp add: sample_part_input_def merge_part_def sample_part_def sample_full_def)
  ultimately show ?thesis by (simp add: result_simps)
qed

lemma deliver_all_run: "deliver_all E s xs = Inr t \<Longrightarrow> (upload_step E)\<^sup>*\<^sup>* s t"
proof (induction xs arbitrary: s)
  case (Cons x xs)
  then obtain u where u: "deliver E s x = Inr u" "(upload_step E)\<^sup>*\<^sup>* u t" by (auto simp: result_simps)
  from u(1) have "upload_step E s u" unfolding deliver_def by (rule upload_step.record_part)
  with u(2) show ?case by (simp add: converse_rtranclp_into_rtranclp)
qed simp

lemma sample_full_parts: "up_parts sample_full = [sample_part 1 6, sample_part 2 4]"
  by (simp add: sample_full_def sample_upload_def sample_part_def)

lemma sample_upload_finalizes:
  "beginArtifactUploadFinalizationV1 sample_full (sample_hash CHR ''a'') (int_num (up_revision sample_full))
     = Inr (advance_upload sample_full Upload_FINALIZING)"
proof -
  have "up_state sample_full = Upload_OPEN" "up_totalParts sample_full = 2"
    "up_expectedByteSize sample_full = 10" "up_expectedSha256 sample_full = hash_of CHR ''a''"
    by (simp_all add: sample_full_def sample_upload_def add_part_def)
  then show ?thesis
    by (simp add: beginArtifactUploadFinalizationV1_def result_simps is_int_def sample_full_parts
        sample_part_def recorded_bytes_def js_add_exact upt_rec)
qed

section \<open>Properties\<close>

text \<open>
  C15: a finalized upload is exactly the announced one. Along every history a session keeps what its
  creation fixed, a recorded part is never lost or replaced, the parts never change once finalization
  has begun, and a completed, aborted or expired session never changes again. When finalization has
  begun, the parts are the numbers 1 to the total, each of the full part size except the last, which
  is what is left of the expected size.
\<close>

theorem upload_history:
  assumes "upload_initial E s" and "(upload_step E)\<^sup>*\<^sup>* s t"
  shows "upload_key t = upload_key s
     \<and> (up_state t \<in> {Upload_FINALIZING, Upload_COMPLETED} \<longrightarrow>
          map part_partNumber (up_parts t) = [1..up_totalParts t]
          \<and> map part_byteSize (up_parts t)
              = replicate (nat (up_totalParts t - 1)) (up_partSize t)
                @ [up_expectedByteSize t - (up_totalParts t - 1) * up_partSize t])
     \<and> (\<forall>u. (upload_step E)\<^sup>*\<^sup>* t u \<longrightarrow>
          set (up_parts t) \<subseteq> set (up_parts u)
          \<and> (up_state t \<noteq> Upload_OPEN \<longrightarrow> up_parts u = up_parts t)
          \<and> (up_state t \<notin> {Upload_OPEN, Upload_FINALIZING} \<longrightarrow> u = t))"
proof (intro conjI impI allI)
  have ok: "upload_ok t" using uploads.reachable_invariant [OF assms(2,1)] .
  show "upload_key t = upload_key s" using uploads.run_key [OF assms(2)] .
  {
    assume "up_state t \<in> {Upload_FINALIZING, Upload_COMPLETED}"
    with ok have c: "parts_complete t" unfolding upload_ok_def by blast
    from c show "map part_partNumber (up_parts t) = [1..up_totalParts t]" by (simp add: parts_complete_def)
    from complete_sizes [OF ok c] show "map part_byteSize (up_parts t)
              = replicate (nat (up_totalParts t - 1)) (up_partSize t)
                @ [up_expectedByteSize t - (up_totalParts t - 1) * up_partSize t]" .
  }
  fix u
  assume u: "(upload_step E)\<^sup>*\<^sup>* t u"
  from upload_run_parts [OF u] show "set (up_parts t) \<subseteq> set (up_parts u)" by blast
  show "up_parts u = up_parts t" if "up_state t \<noteq> Upload_OPEN" using upload_run_parts [OF u] that by blast
  show "u = t" if "up_state t \<notin> {Upload_OPEN, Upload_FINALIZING}"
    using u that by (intro uploads.final_stays) (auto simp: upload_edge_def)
qed

theorem upload_history_witness:
  "map part_byteSize (up_parts (advance_upload sample_full Upload_FINALIZING)) = [6, 4]
   \<and> upload_key (advance_upload sample_full Upload_FINALIZING) = upload_key sample_upload"
proof -
  have "(upload_step sample_env)\<^sup>*\<^sup>* sample_upload (advance_upload sample_full Upload_FINALIZING)"
    using deliver_all_run [OF sample_delivers] upload_step.begin_finalization [OF sample_upload_finalizes]
    by (rule rtranclp.rtrancl_into_rtrancl)
  from upload_history [OF sample_upload_initial this] show ?thesis
    by (simp add: sample_full_parts sample_part_def)
qed

text \<open>
  C16: the order of delivery does not matter. If a batch of parts with distinct numbers is accepted
  by an open session, part by part, every other order of the same batch is accepted as well and
  leads to the very same session.
\<close>

theorem upload_order_free:
  assumes "upload_initial E s0" and "(upload_step E)\<^sup>*\<^sup>* s0 s"
    and "mset ys = mset xs" and "distinct (map in_part_partNumber xs)"
    and "deliver_all E s xs = Inr t"
  shows "deliver_all E s ys = Inr t"
proof (rule deliver_permuted [OF assms(3-4) _ assms(5)])
  show "parts_distinct s"
    using uploads.reachable_invariant [OF assms(2,1)] by (simp add: upload_ok_def parts_distinct_def)
qed

theorem upload_order_free_witness:
  "deliver_all sample_env sample_upload [sample_part_input 1 6, sample_part_input 2 4] = Inr sample_full"
  by (rule upload_order_free [OF sample_upload_initial _ _ _ sample_delivers])
     (simp_all add: sample_part_input_def)

end
