(* ===== verification/Fingerprint.thy ===== *)
theory Fingerprint
  imports Json
begin

text \<open>
  \<open>JSON.stringify\<close> on arbitrary values, and the 32-bit FNV-1a hash of a text written in hexadecimal:
  the fingerprints of packages/domain/src/data-quality-guard/v1.ts and the canonical hash of
  packages/domain/src/data-to-dashboard/v1.ts are made of them.
\<close>

text \<open>\<open>JSON.stringify\<close>; \<open>None\<close> is its result \<open>undefined\<close>.\<close>

fun number_json :: "env \<Rightarrow> jsnum \<Rightarrow> jsstr" where
  "number_json E (Finite r) =
     (if of_int \<lfloor>r\<rfloor> = r \<and> \<bar>\<lfloor>r\<rfloor>\<bar> \<le> max_safe_integer then show_int \<lfloor>r\<rfloor> else number_text E r)"
| "number_json E _ = js ''null''"

fun JSON_text :: "env \<Rightarrow> jsval \<Rightarrow> jsstr option" where
  "JSON_text E Undefined = None"
| "JSON_text E Null = Some (js ''null'')"
| "JSON_text E (Bool b) = Some (if b then js ''true'' else js ''false'')"
| "JSON_text E (Num n) = Some (number_json E n)"
| "JSON_text E (Str s) = Some (quote s)"
| "JSON_text E (Arr vs) =
     Some (91 # commas (map (\<lambda>v. case JSON_text E v of None \<Rightarrow> js ''null'' | Some s \<Rightarrow> s) vs) @ [93])"
| "JSON_text E (Obj ps) =
     Some (123 # commas (concat (map (\<lambda>(k, v). case JSON_text E v of None \<Rightarrow> [] | Some s \<Rightarrow> [quote k @ 58 # s]) ps))
       @ [125])"

unbundle bit_operations_syntax

text \<open>The 32-bit FNV-1a hash of the code units: \<open>^=\<close> and \<open>Math.imul\<close> work on 32-bit integers.\<close>

definition fnv_step :: "32 word \<Rightarrow> 16 word \<Rightarrow> 32 word" where
  "fnv_step h c = (h XOR ucast c) * 16777619"

definition fnv_hash :: "jsstr \<Rightarrow> 32 word" where
  "fnv_hash s = foldl fnv_step 2166136261 s"

text \<open>\<open>toString(16)\<close> and \<open>padStart\<close>\<close>

fun hex_text :: "nat \<Rightarrow> jsstr" where
  "hex_text n = (if n < 16 then [hex_digit n] else hex_text (n div 16) @ [hex_digit (n mod 16)])"

declare hex_text.simps [simp del]

definition pad_start :: "nat \<Rightarrow> 16 word \<Rightarrow> jsstr \<Rightarrow> jsstr" where
  "pad_start n c s = replicate (n - length s) c @ s"

definition pad_end :: "nat \<Rightarrow> 16 word \<Rightarrow> jsstr \<Rightarrow> jsstr" where
  "pad_end n c s = s @ replicate (n - length s) c"

lemma hex_text_hex: "list_all lower_hex (hex_text n)"
proof (induction n rule: hex_text.induct)
  case (1 n)
  have "lower_hex (hex_digit k)" if "k < 16" for k
    using that by (auto simp: lower_hex_def hex_digit_def digit_def in_range_def unat_of_nat)
  with 1 show ?case by (subst hex_text.simps) simp
qed

lemma hex_zero [simp]: "lower_hex 48"
  by (simp add: lower_hex_def digit_def in_range_def)

end
