(* ===== verification/Dashboards.thy ===== *)
theory Dashboards
  imports Fingerprint Samples "HOL-Library.List_Lexorder"
begin

text \<open>
  packages/domain/src/data-to-dashboard/v1.ts: preparation and analysis plans, dashboard versions,
  materializations and snapshots, and the events and candidates around them. Every constructor takes an
  object of unknown values and returns either a code or the frozen record; a missing property of the input
  reads as \<open>Undefined\<close>.
\<close>

section \<open>Data\<close>

datatype dda_error =
    Dda_INVALID_IDENTIFIER | Dda_INVALID_SCOPE | Dda_INVALID_TEXT | Dda_INVALID_HASH | Dda_INVALID_TIMESTAMP
  | Dda_INVALID_COLLECTION | Dda_INVALID_VERSION | Dda_UNSUPPORTED_TRANSFORM | Dda_UNSUPPORTED_FRESHNESS
  | Dda_UNSUPPORTED_WIDGET | Dda_UNSUPPORTED_POLICY | Dda_CROSS_SCOPE_REFERENCE
  | Dda_INCOMPLETE_CACHE_IDENTITY | Dda_ORIGINAL_MUTATION | Dda_UNSUPPORTED_AGENT_LEVEL
  | Dda_UNSUPPORTED_CONTEXT_KIND | Dda_BOUNDS_EXCEEDED

datatype dda_classification = Dda_PUBLIC | Dda_INTERNAL | Dda_CONFIDENTIAL | Dda_RESTRICTED

datatype transformation_kind =
    SELECT_COLUMNS | RENAME_COLUMNS | TRIM_TEXT | NORMALIZE_TEXT | PARSE_DATE | PARSE_TIME | PARSE_NUMBER
  | PARSE_CURRENCY | CAST_TYPE | REPLACE_NULL | FILTER_ROWS | DEDUPLICATE | DERIVE_FIELD | UNION_COMPATIBLE
  | LOOKUP_JOIN | AGGREGATE

datatype freshness_policy = ON_CHANGE | MANUAL | SCHEDULED

datatype publication_policy = DRAFT_ONLY | REVIEWED | CERTIFIED

datatype widget_type =
    Widget_KPI | Widget_TABLE | Widget_BAR | Widget_LINE | Widget_AREA | Widget_PIE | Widget_DONUT
  | Widget_TEXT_NOTE | Widget_EVIDENCE_NOTE

datatype freshness_state = Fresh_FRESH | Fresh_STALE | Fresh_PENDING | Fresh_BLOCKED | Fresh_SOURCE_UNAVAILABLE

datatype evidence_state = Evidence_AVAILABLE | Evidence_PARTIAL | Evidence_UNAVAILABLE

datatype audience = Audience_OWNER | Audience_WORKSPACE_VIEWERS | Audience_PROJECT_VIEWERS | Audience_SHARED_LINK

datatype time_grain = Grain_DAY | Grain_WEEK | Grain_MONTH | Grain_QUARTER | Grain_YEAR

datatype output_form = Output_TABLE | Output_KPI | Output_CHART | Output_EVIDENCE

datatype filter_scope = Filter_DASHBOARD | Filter_PAGE | Filter_WIDGET

datatype dda_grant_level = Dda_NONE | Dda_ANALYZE | Dda_PROPOSE_CHANGES | Dda_APPLY_CONFIRMED_CHANGES

datatype context_kind =
    CONTEXT_RESTORED | DATASET_VERSION_ADVANCED | DATASET_ATTACHED | DATASET_DETACHED
  | DASHBOARD_VERSION_ADVANCED | FILTER_CONTEXT_CHANGED

datatype message_role = Role_USER | Role_AGENT | Role_SYSTEM

record localized_text =
  lt_vi :: jsstr
  lt_en :: jsstr

type_synonym config_map = "(jsstr \<times> jsval) list"

record transformation_step =
  ts_stepId :: stable_id
  ts_kind :: transformation_kind
  ts_inputs :: "stable_id list"
  ts_config :: config_map

record etl_plan =
  etl_planId :: stable_id
  etl_planVersionId :: stable_id
  etl_tenantScope :: tenant_scope
  etl_inputArtifactVersionId :: stable_id
  etl_schemaVersionId :: stable_id
  etl_mappingVersionId :: stable_id
  etl_ruleSetVersionId :: stable_id
  etl_engineBindingId :: stable_id
  etl_transformations :: "transformation_step list"
  etl_contentHash :: jsstr
  etl_schemaHash :: jsstr
  etl_dataClassification :: dda_classification
  etl_dataModePolicyVersionId :: stable_id
  etl_retentionReferenceId :: stable_id
  etl_evidenceReferenceId :: stable_id
  etl_createdAt :: utc_timestamp

record analysis_plan =
  ap_planId :: stable_id
  ap_planVersionId :: stable_id
  ap_tenantScope :: tenant_scope
  ap_datasetVersionId :: stable_id
  ap_semanticVersionId :: stable_id
  ap_metricVersionId :: stable_id
  ap_dimensions :: "jsstr list"
  ap_filters :: "config_map list"
  ap_start :: utc_timestamp
  ap_end :: utc_timestamp
  ap_timeGrain :: time_grain
  ap_joins :: "config_map list"
  ap_units :: config_map
  ap_parameters :: config_map
  ap_form :: output_form
  ap_maxRows :: int
  ap_assumptions :: "jsstr list"
  ap_cpuMs :: int
  ap_memoryMb :: int
  ap_permissionProjectionVersionId :: stable_id
  ap_planHash :: jsstr
  ap_createdAt :: utc_timestamp

record layout_cell =
  cell_widgetId :: stable_id
  cell_x :: int
  cell_y :: int
  cell_w :: int
  cell_h :: int

record dashboard_page =
  page_pageId :: stable_id
  page_order :: int
  page_title :: localized_text
  page_desktop :: "layout_cell list"
  page_tablet :: "layout_cell list"
  page_mobile :: "layout_cell list"

record dashboard_widget =
  widget_widgetId :: stable_id
  widget_type :: widget_type
  widget_pageId :: stable_id
  widget_analysisPlanVersionId :: stable_id
  widget_materializationDefinitionId :: stable_id
  widget_title :: localized_text

record dashboard_filter =
  filter_filterId :: stable_id
  filter_field :: jsstr
  filter_operator :: jsstr
  filter_filterScope :: filter_scope

record dataset_binding =
  bind_datasetVersionId :: stable_id
  bind_semanticVersionId :: stable_id
  bind_metricVersionId :: stable_id

record dashboard_version =
  dv_dashboardId :: stable_id
  dv_versionId :: stable_id
  dv_tenantScope :: tenant_scope
  dv_parentVersionId :: "stable_id option"
  dv_pages :: "dashboard_page list"
  dv_widgets :: "dashboard_widget list"
  dv_filters :: "dashboard_filter list"
  dv_datasetBindings :: "dataset_binding list"
  dv_locale :: jsstr
  dv_timezone :: jsstr
  dv_freshnessPolicy :: freshness_policy
  dv_publicationPolicy :: publication_policy
  dv_canonicalHash :: jsstr
  dv_createdAt :: utc_timestamp

record materialization =
  mz_materializationId :: stable_id
  mz_tenantScope :: tenant_scope
  mz_dashboardVersionId :: stable_id
  mz_widgetId :: stable_id
  mz_analysisPlanVersionId :: stable_id
  mz_datasetVersionId :: stable_id
  mz_semanticVersionId :: stable_id
  mz_metricVersionId :: stable_id
  mz_permissionProjectionVersionId :: stable_id
  mz_parameterHash :: jsstr
  mz_locale :: jsstr
  mz_timezone :: jsstr
  mz_engineVersion :: jsstr
  mz_adapterVersion :: jsstr
  mz_effectivePolicyVersionId :: stable_id
  mz_resultManifestId :: stable_id
  mz_cacheIdentityHash :: jsstr
  mz_createdAt :: utc_timestamp

record dashboard_snapshot =
  ds_snapshotId :: stable_id
  ds_tenantScope :: tenant_scope
  ds_dashboardVersionId :: stable_id
  ds_materializationIds :: "stable_id list"
  ds_inputSelectorHash :: jsstr
  ds_permissionProjectionVersionId :: stable_id
  ds_audience :: audience
  ds_freshnessState :: freshness_state
  ds_evidenceState :: evidence_state
  ds_canonicalHash :: jsstr
  ds_createdAt :: utc_timestamp

record folder_manifest =
  fm_manifestId :: stable_id
  fm_tenantScope :: tenant_scope
  fm_capabilityGrantId :: stable_id
  fm_purpose :: jsstr
  fm_supportedProfiles :: "jsstr list"
  fm_publicationProjectionId :: stable_id
  fm_manifestHash :: jsstr
  fm_version :: int

record field_candidate =
  fc_value :: jsstr
  fc_confidence :: rat

record receipt_candidate =
  rcp_candidateId :: stable_id
  rcp_tenantScope :: tenant_scope
  rcp_artifactVersionId :: stable_id
  rcp_profileVersionId :: stable_id
  rcp_fieldCandidates :: "jsstr \<rightharpoonup> field_candidate"
  rcp_adapterVersion :: jsstr
  rcp_evidenceReferenceId :: stable_id
  rcp_candidateHash :: jsstr

record refresh_event =
  rfe_eventId :: stable_id
  rfe_tenantScope :: tenant_scope
  rfe_dashboardId :: stable_id
  rfe_snapshotId :: stable_id
  rfe_freshnessState :: freshness_state
  rfe_occurredAt :: utc_timestamp
  rfe_eventHash :: jsstr

record agent_grant =
  ag_grantId :: stable_id
  ag_tenantScope :: tenant_scope
  ag_memberId :: stable_id
  ag_level :: dda_grant_level
  ag_revision :: int
  ag_updatedAt :: utc_timestamp

record context_event =
  ce_eventId :: stable_id
  ce_conversationId :: stable_id
  ce_tenantScope :: tenant_scope
  ce_kind :: context_kind
  ce_beforeVersionId :: "stable_id option"
  ce_afterVersionId :: "stable_id option"
  ce_occurredAt :: utc_timestamp

record conversation_message =
  msg_messageId :: stable_id
  msg_role :: message_role
  msg_text :: jsstr
  msg_createdAt :: utc_timestamp

record conversation =
  conv_conversationId :: stable_id
  conv_tenantScope :: tenant_scope
  conv_title :: jsstr
  conv_activeDatasetIds :: "stable_id list"
  conv_history :: "conversation_message list"
  conv_updatedAt :: utc_timestamp

record table_candidate =
  tc_candidateId :: stable_id
  tc_tenantScope :: tenant_scope
  tc_artifactVersionId :: stable_id
  tc_pageCount :: int
  tc_columns :: "jsval list"
  tc_cells :: "jsval list"
  tc_evidenceReferenceId :: stable_id
  tc_candidateHash :: jsstr

record starter_event =
  se_eventId :: stable_id
  se_tenantScope :: tenant_scope
  se_datasetVersionId :: stable_id
  se_dashboardVersionId :: stable_id
  se_templateId :: jsstr
  se_occurredAt :: utc_timestamp

section \<open>Vocabularies\<close>

definition dda_classifications :: "(string \<times> dda_classification) list" where
  "dda_classifications =
     [(''PUBLIC'', Dda_PUBLIC), (''INTERNAL'', Dda_INTERNAL), (''CONFIDENTIAL'', Dda_CONFIDENTIAL),
      (''RESTRICTED'', Dda_RESTRICTED)]"

definition transformationKinds :: "(string \<times> transformation_kind) list" where
  "transformationKinds =
     [(''SELECT_COLUMNS'', SELECT_COLUMNS), (''RENAME_COLUMNS'', RENAME_COLUMNS), (''TRIM_TEXT'', TRIM_TEXT),
      (''NORMALIZE_TEXT'', NORMALIZE_TEXT), (''PARSE_DATE'', PARSE_DATE), (''PARSE_TIME'', PARSE_TIME),
      (''PARSE_NUMBER'', PARSE_NUMBER), (''PARSE_CURRENCY'', PARSE_CURRENCY), (''CAST_TYPE'', CAST_TYPE),
      (''REPLACE_NULL'', REPLACE_NULL), (''FILTER_ROWS'', FILTER_ROWS), (''DEDUPLICATE'', DEDUPLICATE),
      (''DERIVE_FIELD'', DERIVE_FIELD), (''UNION_COMPATIBLE'', UNION_COMPATIBLE), (''LOOKUP_JOIN'', LOOKUP_JOIN),
      (''AGGREGATE'', AGGREGATE)]"

definition freshnessPolicies :: "(string \<times> freshness_policy) list" where
  "freshnessPolicies = [(''ON_CHANGE'', ON_CHANGE), (''MANUAL'', MANUAL), (''SCHEDULED'', SCHEDULED)]"

definition publicationPolicies :: "(string \<times> publication_policy) list" where
  "publicationPolicies = [(''DRAFT_ONLY'', DRAFT_ONLY), (''REVIEWED'', REVIEWED), (''CERTIFIED'', CERTIFIED)]"

definition widgetTypes :: "(string \<times> widget_type) list" where
  "widgetTypes =
     [(''KPI'', Widget_KPI), (''TABLE'', Widget_TABLE), (''BAR'', Widget_BAR), (''LINE'', Widget_LINE),
      (''AREA'', Widget_AREA), (''PIE'', Widget_PIE), (''DONUT'', Widget_DONUT),
      (''TEXT_NOTE'', Widget_TEXT_NOTE), (''EVIDENCE_NOTE'', Widget_EVIDENCE_NOTE)]"

definition freshnessStates :: "(string \<times> freshness_state) list" where
  "freshnessStates =
     [(''FRESH'', Fresh_FRESH), (''STALE'', Fresh_STALE), (''PENDING'', Fresh_PENDING),
      (''BLOCKED'', Fresh_BLOCKED), (''SOURCE_UNAVAILABLE'', Fresh_SOURCE_UNAVAILABLE)]"

definition evidenceStates :: "(string \<times> evidence_state) list" where
  "evidenceStates =
     [(''AVAILABLE'', Evidence_AVAILABLE), (''PARTIAL'', Evidence_PARTIAL), (''UNAVAILABLE'', Evidence_UNAVAILABLE)]"

definition audiences :: "(string \<times> audience) list" where
  "audiences =
     [(''OWNER'', Audience_OWNER), (''WORKSPACE_VIEWERS'', Audience_WORKSPACE_VIEWERS),
      (''PROJECT_VIEWERS'', Audience_PROJECT_VIEWERS), (''SHARED_LINK'', Audience_SHARED_LINK)]"

definition timeGrains :: "(string \<times> time_grain) list" where
  "timeGrains =
     [(''DAY'', Grain_DAY), (''WEEK'', Grain_WEEK), (''MONTH'', Grain_MONTH), (''QUARTER'', Grain_QUARTER),
      (''YEAR'', Grain_YEAR)]"

definition outputForms :: "(string \<times> output_form) list" where
  "outputForms =
     [(''TABLE'', Output_TABLE), (''KPI'', Output_KPI), (''CHART'', Output_CHART), (''EVIDENCE'', Output_EVIDENCE)]"

definition filterScopes :: "(string \<times> filter_scope) list" where
  "filterScopes = [(''DASHBOARD'', Filter_DASHBOARD), (''PAGE'', Filter_PAGE), (''WIDGET'', Filter_WIDGET)]"

definition agentGrantLevels :: "(string \<times> dda_grant_level) list" where
  "agentGrantLevels =
     [(''NONE'', Dda_NONE), (''ANALYZE'', Dda_ANALYZE), (''PROPOSE_CHANGES'', Dda_PROPOSE_CHANGES),
      (''APPLY_CONFIRMED_CHANGES'', Dda_APPLY_CONFIRMED_CHANGES)]"

definition conversationContextKinds :: "(string \<times> context_kind) list" where
  "conversationContextKinds =
     [(''CONTEXT_RESTORED'', CONTEXT_RESTORED), (''DATASET_VERSION_ADVANCED'', DATASET_VERSION_ADVANCED),
      (''DATASET_ATTACHED'', DATASET_ATTACHED), (''DATASET_DETACHED'', DATASET_DETACHED),
      (''DASHBOARD_VERSION_ADVANCED'', DASHBOARD_VERSION_ADVANCED),
      (''FILTER_CONTEXT_CHANGED'', FILTER_CONTEXT_CHANGED)]"

definition messageRoles :: "(string \<times> message_role) list" where
  "messageRoles = [(''USER'', Role_USER), (''AGENT'', Role_AGENT), (''SYSTEM'', Role_SYSTEM)]"

text \<open>The literal of a value of a vocabulary.\<close>

fun audience_text :: "audience \<Rightarrow> string" where
  "audience_text Audience_OWNER = ''OWNER''"
| "audience_text Audience_WORKSPACE_VIEWERS = ''WORKSPACE_VIEWERS''"
| "audience_text Audience_PROJECT_VIEWERS = ''PROJECT_VIEWERS''"
| "audience_text Audience_SHARED_LINK = ''SHARED_LINK''"

fun freshness_text :: "freshness_state \<Rightarrow> string" where
  "freshness_text Fresh_FRESH = ''FRESH''"
| "freshness_text Fresh_STALE = ''STALE''"
| "freshness_text Fresh_PENDING = ''PENDING''"
| "freshness_text Fresh_BLOCKED = ''BLOCKED''"
| "freshness_text Fresh_SOURCE_UNAVAILABLE = ''SOURCE_UNAVAILABLE''"

fun evidence_text :: "evidence_state \<Rightarrow> string" where
  "evidence_text Evidence_AVAILABLE = ''AVAILABLE''"
| "evidence_text Evidence_PARTIAL = ''PARTIAL''"
| "evidence_text Evidence_UNAVAILABLE = ''UNAVAILABLE''"

section \<open>Helpers\<close>

definition dda_sameScope :: "tenant_scope \<Rightarrow> tenant_scope \<Rightarrow> bool" where
  "dda_sameScope l r \<longleftrightarrow>
     scopeType l = scopeType r \<and> organizationId l = organizationId r
     \<and> (workspace_of l = None \<and> workspace_of r = None \<or> workspace_of l \<noteq> None \<and> workspace_of l = workspace_of r)
     \<and> (project_of l = None \<and> project_of r = None \<or> project_of l \<noteq> None \<and> project_of l = project_of r)"

fun scope_type_text :: "scope_type \<Rightarrow> string" where
  "scope_type_text Organization_type = ''organization''"
| "scope_type_text Workspace_type = ''workspace''"
| "scope_type_text Project_type = ''project''"

definition or_empty :: "jsstr option \<Rightarrow> jsstr" where
  "or_empty x = (case x of None \<Rightarrow> [] | Some s \<Rightarrow> s)"

definition dda_scopeKey :: "tenant_scope \<Rightarrow> jsstr" where
  "dda_scopeKey s =
     js (scope_type_text (scopeType s)) @ js ''|'' @ organizationId s @ js ''|'' @ or_empty (workspace_of s)
     @ js ''|'' @ or_empty (project_of s)"

text \<open>
  \<open>JSON.stringify(parts, Object.keys(parts).sort())\<close>: the properties in the order of the sorted keys, none of
  them an object; then FNV-1a, as eight hexadecimal digits repeated eight times.
\<close>

definition canonical_parts :: "(jsstr \<times> json) list \<Rightarrow> jsstr" where
  "canonical_parts parts = stringify (JObj (sort_key fst parts))"

definition stableCanonicalHash :: "(jsstr \<times> json) list \<Rightarrow> jsstr" where
  "stableCanonicalHash parts =
     concat (replicate 8 (pad_start 8 (of_char CHR ''0'') (hex_text (unat (fnv_hash (canonical_parts parts))))))"

definition localized :: "env \<Rightarrow> jsval \<Rightarrow> localized_text option" where
  "localized E v =
     (if \<not> isRecord v then None
      else case (text_value E (field v ''vi'') 200, text_value E (field v ''en'') 200) of
             (Some vi, Some en) \<Rightarrow> Some \<lparr>lt_vi = vi, lt_en = en\<rparr>
           | _ \<Rightarrow> None)"

definition config_entry :: "env \<Rightarrow> jsstr \<times> jsval \<Rightarrow> (jsstr \<times> jsval) option" where
  "config_entry E e =
     (if text_value E (Str (fst e)) 64 = None then None
      else case snd e of
             Null \<Rightarrow> Some e
           | Num _ \<Rightarrow> Some e
           | Bool _ \<Rightarrow> Some e
           | Str s \<Rightarrow> if length s > 256 \<or> list_ex control s then None else Some e
           | _ \<Rightarrow> None)"

definition configMap :: "env \<Rightarrow> jsval \<Rightarrow> config_map option" where
  "configMap E v = (case v of Obj ps \<Rightarrow> parse_all (config_entry E) ps | _ \<Rightarrow> None)"

text \<open>An array with at least \<open>lo\<close> and at most \<open>hi\<close> elements.\<close>

definition array_within :: "nat \<Rightarrow> nat \<Rightarrow> jsval \<Rightarrow> jsval list option" where
  "array_within lo hi v =
     (case v of Arr vs \<Rightarrow> if lo \<le> length vs \<and> length vs \<le> hi then Some vs else None | _ \<Rightarrow> None)"

fun transformation_loop :: "env \<Rightarrow> jsstr list \<Rightarrow> jsval list \<Rightarrow> dda_error + transformation_step list" where
  "transformation_loop E seen [] = accepted []"
| "transformation_loop E seen (v # vs) =
     reject_if (\<not> isRecord v) Dda_INVALID_COLLECTION (
     require Dda_INVALID_IDENTIFIER (stable E (field v ''stepId'')) (\<lambda>stepId.
     require Dda_UNSUPPORTED_TRANSFORM (one_of transformationKinds (field v ''kind'')) (\<lambda>kind.
     require Dda_INVALID_COLLECTION (array_within 1 32 (field v ''inputs'')) (\<lambda>inputs.
     require Dda_INVALID_IDENTIFIER (parse_all (stable E) inputs) (\<lambda>parsedInputs.
     require Dda_INVALID_COLLECTION (configMap E (nullish (field v ''config'') (Obj []))) (\<lambda>config.
     reject_if (stepId \<in> set seen) Dda_INVALID_COLLECTION (
     and_then (transformation_loop E (stepId # seen) vs) (\<lambda>steps.
     accepted (\<lparr>ts_stepId = stepId, ts_kind = kind, ts_inputs = parsedInputs, ts_config = config\<rparr> # steps)))))))))"

definition transformationSteps :: "env \<Rightarrow> jsval \<Rightarrow> dda_error + transformation_step list" where
  "transformationSteps E v =
     require Dda_INVALID_COLLECTION (array_within 1 256 v) (\<lambda>vs. transformation_loop E [] vs)"

definition layout_cell_of :: "env \<Rightarrow> jsval \<Rightarrow> layout_cell option" where
  "layout_cell_of E v =
     (if \<not> isRecord v then None
      else case (stable E (field v ''widgetId''), safe_integer_from 0 (field v ''x''), safe_integer_from 0 (field v ''y''),
                 safe_integer_from 0 (field v ''w''), safe_integer_from 0 (field v ''h'')) of
             (Some i, Some x, Some y, Some w, Some h) \<Rightarrow>
               if w < 1 \<or> h < 1 then None
               else Some \<lparr>cell_widgetId = i, cell_x = x, cell_y = y, cell_w = w, cell_h = h\<rparr>
           | _ \<Rightarrow> None)"

definition layoutCells :: "env \<Rightarrow> jsval \<Rightarrow> layout_cell list option" where
  "layoutCells E v =
     (case array_within 1 64 v of None \<Rightarrow> None | Some vs \<Rightarrow> parse_all (layout_cell_of E) vs)"

section \<open>Plans, versions and materializations\<close>

text \<open>An optional second scope must parse and be the same scope.\<close>

definition other_scope_ok :: "env \<Rightarrow> tenant_scope \<Rightarrow> jsval \<Rightarrow> dda_error + unit" where
  "other_scope_ok E scope v =
     (if v = Undefined then accepted ()
      else require Dda_INVALID_SCOPE (scope_value E v) (\<lambda>other.
           reject_if (\<not> dda_sameScope scope other) Dda_CROSS_SCOPE_REFERENCE (accepted ())))"

definition createDdaEtlPlanV1 :: "env \<Rightarrow> jsval \<Rightarrow> dda_error + etl_plan" where
  "createDdaEtlPlanV1 E i =
     require Dda_INVALID_SCOPE (scope_value E (field i ''tenantScope'')) (\<lambda>tenantScope.
     and_then (other_scope_ok E tenantScope (field i ''inputTenantScope'')) (\<lambda>_.
     require Dda_INVALID_IDENTIFIER (stable E (field i ''planId'')) (\<lambda>planId.
     require Dda_INVALID_IDENTIFIER (stable E (field i ''planVersionId'')) (\<lambda>planVersionId.
     require Dda_INVALID_IDENTIFIER (stable E (field i ''inputArtifactVersionId'')) (\<lambda>inputArtifactVersionId.
     require Dda_INVALID_IDENTIFIER (stable E (field i ''schemaVersionId'')) (\<lambda>schemaVersionId.
     require Dda_INVALID_IDENTIFIER (stable E (field i ''mappingVersionId'')) (\<lambda>mappingVersionId.
     require Dda_INVALID_IDENTIFIER (stable E (field i ''ruleSetVersionId'')) (\<lambda>ruleSetVersionId.
     require Dda_INVALID_IDENTIFIER (stable E (field i ''engineBindingId'')) (\<lambda>engineBindingId.
     require Dda_INVALID_IDENTIFIER (stable E (field i ''dataModePolicyVersionId'')) (\<lambda>dataModePolicyVersionId.
     require Dda_INVALID_IDENTIFIER (stable E (field i ''retentionReferenceId'')) (\<lambda>retentionReferenceId.
     require Dda_INVALID_IDENTIFIER (stable E (field i ''evidenceReferenceId'')) (\<lambda>evidenceReferenceId.
     require Dda_INVALID_HASH (sha256_hex (field i ''contentHash'')) (\<lambda>contentHash.
     require Dda_INVALID_HASH (sha256_hex (field i ''schemaHash'')) (\<lambda>schemaHash.
     require Dda_INVALID_TIMESTAMP (timestamp E (field i ''createdAt'')) (\<lambda>createdAt.
     and_then (transformationSteps E (field i ''transformations'')) (\<lambda>transformations.
     require Dda_UNSUPPORTED_POLICY (one_of dda_classifications (field i ''dataClassification'')) (\<lambda>dataClassification.
     accepted \<lparr>etl_planId = planId, etl_planVersionId = planVersionId, etl_tenantScope = tenantScope,
        etl_inputArtifactVersionId = inputArtifactVersionId, etl_schemaVersionId = schemaVersionId,
        etl_mappingVersionId = mappingVersionId, etl_ruleSetVersionId = ruleSetVersionId,
        etl_engineBindingId = engineBindingId, etl_transformations = transformations,
        etl_contentHash = contentHash, etl_schemaHash = schemaHash,
        etl_dataClassification = dataClassification, etl_dataModePolicyVersionId = dataModePolicyVersionId,
        etl_retentionReferenceId = retentionReferenceId, etl_evidenceReferenceId = evidenceReferenceId,
        etl_createdAt = createdAt\<rparr>)))))))))))))))))"

text \<open>\<open>xs.map((value) => text(value, n))\<close>\<close>

definition text_list :: "env \<Rightarrow> nat \<Rightarrow> jsval list \<Rightarrow> jsstr list option" where
  "text_list E n vs = parse_all (\<lambda>v. text_value E v n) vs"

text \<open>\<open>{ ...value }\<close>: the own properties of a value, code units and elements by their index.\<close>

definition own_properties :: "jsval \<Rightarrow> config_map" where
  "own_properties v =
     (case v of
        Obj ps \<Rightarrow> ps
      | Arr vs \<Rightarrow> zip (map show_nat [0..<length vs]) vs
      | Str s \<Rightarrow> zip (map show_nat [0..<length s]) (map (\<lambda>c. Str [c]) s)
      | _ \<Rightarrow> [])"

definition createDdaAnalysisPlanV1 :: "env \<Rightarrow> jsval \<Rightarrow> dda_error + analysis_plan" where
  "createDdaAnalysisPlanV1 E i =
     require Dda_INVALID_SCOPE (scope_value E (field i ''tenantScope'')) (\<lambda>tenantScope.
     require Dda_INVALID_IDENTIFIER (stable E (field i ''planId'')) (\<lambda>planId.
     require Dda_INVALID_IDENTIFIER (stable E (field i ''planVersionId'')) (\<lambda>planVersionId.
     require Dda_INVALID_IDENTIFIER (stable E (field i ''datasetVersionId'')) (\<lambda>datasetVersionId.
     require Dda_INVALID_IDENTIFIER (stable E (field i ''semanticVersionId'')) (\<lambda>semanticVersionId.
     require Dda_INVALID_IDENTIFIER (stable E (field i ''metricVersionId'')) (\<lambda>metricVersionId.
     require Dda_INVALID_IDENTIFIER (stable E (field i ''permissionProjectionVersionId'')) (\<lambda>permissionProjectionVersionId.
     require Dda_INVALID_HASH (sha256_hex (field i ''planHash'')) (\<lambda>planHash.
     require Dda_INVALID_TIMESTAMP (timestamp E (field i ''createdAt'')) (\<lambda>createdAt.
     require Dda_INVALID_COLLECTION (array_within 0 32 (field i ''dimensions'')) (\<lambda>ds.
     require Dda_INVALID_TEXT (text_list E 96 ds) (\<lambda>dimensions.
     reject_if (\<not> isRecord (field i ''timeRange'')) Dda_INVALID_TIMESTAMP (
     require Dda_INVALID_TIMESTAMP (timestamp E (field (field i ''timeRange'') ''start'')) (\<lambda>start.
     require Dda_INVALID_TIMESTAMP (timestamp E (field (field i ''timeRange'') ''end'')) (\<lambda>end.
     reject_if (date_less (Date_parse E end) (Date_parse E start)) Dda_INVALID_TIMESTAMP (
     require Dda_UNSUPPORTED_POLICY (one_of timeGrains (field i ''timeGrain'')) (\<lambda>timeGrain.
     require Dda_INVALID_COLLECTION (array_within 0 64 (field i ''filters'')) (\<lambda>filters.
     require Dda_INVALID_COLLECTION (array_within 0 32 (field i ''joins'')) (\<lambda>joins.
     require Dda_INVALID_COLLECTION (array_within 0 32 (field i ''assumptions'')) (\<lambda>as.
     require Dda_INVALID_TEXT (text_list E 500 as) (\<lambda>assumptions.
     reject_if (\<not> isRecord (field i ''output'')) Dda_INVALID_COLLECTION (
     require Dda_UNSUPPORTED_POLICY (one_of outputForms (field (field i ''output'') ''form'')) (\<lambda>form.
     require Dda_INVALID_COLLECTION (safe_integer_within 1 10000 (field (field i ''output'') ''maxRows'')) (\<lambda>maxRows.
     reject_if (\<not> isRecord (field i ''estimate'')) Dda_INVALID_COLLECTION (
     require Dda_INVALID_COLLECTION (safe_integer_from 0 (field (field i ''estimate'') ''cpuMs'')) (\<lambda>cpuMs.
     require Dda_INVALID_COLLECTION (safe_integer_from 0 (field (field i ''estimate'') ''memoryMb'')) (\<lambda>memoryMb.
     reject_if (\<not> isRecord (field i ''units'')) Dda_INVALID_COLLECTION (
     reject_if (\<not> isRecord (field i ''parameters'')) Dda_INVALID_COLLECTION (
     accepted \<lparr>ap_planId = planId, ap_planVersionId = planVersionId, ap_tenantScope = tenantScope,
        ap_datasetVersionId = datasetVersionId, ap_semanticVersionId = semanticVersionId,
        ap_metricVersionId = metricVersionId, ap_dimensions = dimensions,
        ap_filters = map own_properties filters, ap_start = start, ap_end = end, ap_timeGrain = timeGrain,
        ap_joins = map own_properties joins, ap_units = own_properties (field i ''units''),
        ap_parameters = own_properties (field i ''parameters''), ap_form = form, ap_maxRows = maxRows,
        ap_assumptions = assumptions, ap_cpuMs = cpuMs, ap_memoryMb = memoryMb,
        ap_permissionProjectionVersionId = permissionProjectionVersionId, ap_planHash = planHash,
        ap_createdAt = createdAt\<rparr>))))))))))))))))))))))))))))"

text \<open>The pages: distinct identifiers, titles, layouts and orders from 1.\<close>

fun page_loop :: "env \<Rightarrow> jsstr list \<Rightarrow> jsval list \<Rightarrow> dda_error + dashboard_page list" where
  "page_loop E seen [] = accepted []"
| "page_loop E seen (v # vs) =
     reject_if (\<not> isRecord v) Dda_INVALID_COLLECTION (
     require Dda_INVALID_IDENTIFIER (stable E (field v ''pageId'')) (\<lambda>pageId.
     require Dda_INVALID_TEXT (localized E (field v ''title'')) (\<lambda>title.
     reject_if (\<not> isRecord (field v ''layout'')) Dda_INVALID_COLLECTION (
     require Dda_INVALID_COLLECTION (layoutCells E (field (field v ''layout'') ''desktop'')) (\<lambda>desktop.
     require Dda_INVALID_COLLECTION (layoutCells E (field (field v ''layout'') ''tablet'')) (\<lambda>tablet.
     require Dda_INVALID_COLLECTION (layoutCells E (field (field v ''layout'') ''mobile'')) (\<lambda>mobile.
     require Dda_INVALID_COLLECTION (safe_integer_from 1 (field v ''order'')) (\<lambda>order.
     reject_if (pageId \<in> set seen) Dda_INVALID_COLLECTION (
     and_then (page_loop E (pageId # seen) vs) (\<lambda>pages.
     accepted (\<lparr>page_pageId = pageId, page_order = order, page_title = title, page_desktop = desktop,
        page_tablet = tablet, page_mobile = mobile\<rparr> # pages)))))))))))"

fun widget_loop ::
    "env \<Rightarrow> jsstr list \<Rightarrow> jsstr list \<Rightarrow> jsval list \<Rightarrow> dda_error + dashboard_widget list" where
  "widget_loop E pageIds seen [] = accepted []"
| "widget_loop E pageIds seen (v # vs) =
     reject_if (\<not> isRecord v) Dda_INVALID_COLLECTION (
     require Dda_INVALID_IDENTIFIER (stable E (field v ''widgetId'')) (\<lambda>widgetId.
     require Dda_UNSUPPORTED_WIDGET (one_of widgetTypes (field v ''type'')) (\<lambda>type.
     require Dda_INVALID_IDENTIFIER (stable E (field v ''pageId'')) (\<lambda>pageId.
     reject_if (pageId \<notin> set pageIds) Dda_INVALID_IDENTIFIER (
     require Dda_INVALID_TEXT (localized E (field v ''title'')) (\<lambda>title.
     reject_if (\<not> isRecord (field v ''binding'')) Dda_INVALID_COLLECTION (
     require Dda_INVALID_IDENTIFIER (stable E (field (field v ''binding'') ''analysisPlanVersionId'')) (\<lambda>plan.
     require Dda_INVALID_IDENTIFIER (stable E (field (field v ''binding'') ''materializationDefinitionId'')) (\<lambda>definitionId.
     reject_if (widgetId \<in> set seen) Dda_INVALID_COLLECTION (
     and_then (widget_loop E pageIds (widgetId # seen) vs) (\<lambda>widgets.
     accepted (\<lparr>widget_widgetId = widgetId, widget_type = type, widget_pageId = pageId,
        widget_analysisPlanVersionId = plan, widget_materializationDefinitionId = definitionId,
        widget_title = title\<rparr> # widgets))))))))))))"

definition filter_of :: "env \<Rightarrow> jsval \<Rightarrow> dda_error + dashboard_filter" where
  "filter_of E v =
     reject_if (\<not> isRecord v) Dda_INVALID_COLLECTION (
     require Dda_INVALID_IDENTIFIER (stable E (field v ''filterId'')) (\<lambda>filterId.
     require Dda_INVALID_TEXT (text_value E (field v ''field'') 96) (\<lambda>name.
     require Dda_INVALID_TEXT (text_value E (field v ''operator'') 32) (\<lambda>operator.
     require Dda_UNSUPPORTED_POLICY (one_of filterScopes (field v ''scope'')) (\<lambda>scope.
     accepted \<lparr>filter_filterId = filterId, filter_field = name, filter_operator = operator,
        filter_filterScope = scope\<rparr>)))))"

definition binding_of :: "env \<Rightarrow> jsval \<Rightarrow> dda_error + dataset_binding" where
  "binding_of E v =
     reject_if (\<not> isRecord v) Dda_INVALID_COLLECTION (
     require Dda_INVALID_IDENTIFIER (stable E (field v ''datasetVersionId'')) (\<lambda>dataset.
     require Dda_INVALID_IDENTIFIER (stable E (field v ''semanticVersionId'')) (\<lambda>semantic.
     require Dda_INVALID_IDENTIFIER (stable E (field v ''metricVersionId'')) (\<lambda>metric.
     accepted \<lparr>bind_datasetVersionId = dataset, bind_semanticVersionId = semantic, bind_metricVersionId = metric\<rparr>))))"

definition createDashboardVersionV1 :: "env \<Rightarrow> jsval \<Rightarrow> dda_error + dashboard_version" where
  "createDashboardVersionV1 E i =
     require Dda_INVALID_SCOPE (scope_value E (field i ''tenantScope'')) (\<lambda>tenantScope.
     and_then (other_scope_ok E tenantScope (field i ''parentTenantScope'')) (\<lambda>_.
     require Dda_INVALID_IDENTIFIER (stable E (field i ''dashboardId'')) (\<lambda>dashboardId.
     require Dda_INVALID_IDENTIFIER (stable E (field i ''versionId'')) (\<lambda>versionId.
     require Dda_INVALID_IDENTIFIER (optional (stable E) (defined_value (field i ''parentVersionId''))) (\<lambda>parentVersionId.
     require Dda_INVALID_HASH (sha256_hex (field i ''canonicalHash'')) (\<lambda>canonicalHash.
     require Dda_INVALID_TIMESTAMP (timestamp E (field i ''createdAt'')) (\<lambda>createdAt.
     require Dda_INVALID_TEXT (text_value E (field i ''locale'') 32) (\<lambda>locale.
     require Dda_INVALID_TEXT (text_value E (field i ''timezone'') 64) (\<lambda>timezone.
     require Dda_UNSUPPORTED_FRESHNESS (one_of freshnessPolicies (field i ''freshnessPolicy'')) (\<lambda>freshnessPolicy.
     require Dda_UNSUPPORTED_POLICY (one_of publicationPolicies (field i ''publicationPolicy'')) (\<lambda>publicationPolicy.
     require Dda_INVALID_COLLECTION (array_within 1 32 (field i ''pages'')) (\<lambda>ps.
     require Dda_INVALID_COLLECTION (array_within 1 128 (field i ''widgets'')) (\<lambda>ws.
     require Dda_INVALID_COLLECTION (array_within 0 64 (field i ''filters'')) (\<lambda>fs.
     require Dda_INVALID_COLLECTION (array_within 1 32 (field i ''datasetBindings'')) (\<lambda>bs.
     and_then (page_loop E [] ps) (\<lambda>pages.
     and_then (widget_loop E (map page_pageId pages) [] ws) (\<lambda>widgets.
     and_then (map_result (filter_of E) fs) (\<lambda>filters.
     and_then (map_result (binding_of E) bs) (\<lambda>datasetBindings.
     accepted \<lparr>dv_dashboardId = dashboardId, dv_versionId = versionId, dv_tenantScope = tenantScope,
        dv_parentVersionId = parentVersionId, dv_pages = pages, dv_widgets = widgets, dv_filters = filters,
        dv_datasetBindings = datasetBindings, dv_locale = locale, dv_timezone = timezone,
        dv_freshnessPolicy = freshnessPolicy, dv_publicationPolicy = publicationPolicy,
        dv_canonicalHash = canonicalHash, dv_createdAt = createdAt\<rparr>)))))))))))))))))))"

text \<open>The code for a missing identifier: incomplete when one of these inputs is absent.\<close>

definition identity_code :: "jsval \<Rightarrow> dda_error" where
  "identity_code i =
     (if list_ex (\<lambda>k. field i k = Undefined)
           [''permissionProjectionVersionId'', ''effectivePolicyVersionId'', ''parameterHash'', ''locale'',
            ''timezone'', ''engineVersion'', ''adapterVersion'']
      then Dda_INCOMPLETE_CACHE_IDENTITY else Dda_INVALID_IDENTIFIER)"

definition createDdaMaterializationV1 :: "env \<Rightarrow> jsval \<Rightarrow> dda_error + materialization" where
  "createDdaMaterializationV1 E i =
     require Dda_INVALID_SCOPE (scope_value E (field i ''tenantScope'')) (\<lambda>tenantScope.
     require (identity_code i) (stable E (field i ''materializationId'')) (\<lambda>materializationId.
     require (identity_code i) (stable E (field i ''dashboardVersionId'')) (\<lambda>dashboardVersionId.
     require (identity_code i) (stable E (field i ''widgetId'')) (\<lambda>widgetId.
     require (identity_code i) (stable E (field i ''analysisPlanVersionId'')) (\<lambda>analysisPlanVersionId.
     require (identity_code i) (stable E (field i ''datasetVersionId'')) (\<lambda>datasetVersionId.
     require (identity_code i) (stable E (field i ''semanticVersionId'')) (\<lambda>semanticVersionId.
     require (identity_code i) (stable E (field i ''metricVersionId'')) (\<lambda>metricVersionId.
     require (identity_code i) (stable E (field i ''permissionProjectionVersionId'')) (\<lambda>permissionProjectionVersionId.
     require (identity_code i) (stable E (field i ''effectivePolicyVersionId'')) (\<lambda>effectivePolicyVersionId.
     require (identity_code i) (stable E (field i ''resultManifestId'')) (\<lambda>resultManifestId.
     require Dda_INCOMPLETE_CACHE_IDENTITY (sha256_hex (field i ''parameterHash'')) (\<lambda>parameterHash.
     require Dda_INCOMPLETE_CACHE_IDENTITY (sha256_hex (field i ''cacheIdentityHash'')) (\<lambda>cacheIdentityHash.
     require Dda_INCOMPLETE_CACHE_IDENTITY (text_value E (field i ''locale'') 32) (\<lambda>locale.
     require Dda_INCOMPLETE_CACHE_IDENTITY (text_value E (field i ''timezone'') 64) (\<lambda>timezone.
     require Dda_INCOMPLETE_CACHE_IDENTITY (text_value E (field i ''engineVersion'') 64) (\<lambda>engineVersion.
     require Dda_INCOMPLETE_CACHE_IDENTITY (text_value E (field i ''adapterVersion'') 64) (\<lambda>adapterVersion.
     require Dda_INVALID_TIMESTAMP (timestamp E (field i ''createdAt'')) (\<lambda>createdAt.
     accepted \<lparr>mz_materializationId = materializationId, mz_tenantScope = tenantScope,
        mz_dashboardVersionId = dashboardVersionId, mz_widgetId = widgetId,
        mz_analysisPlanVersionId = analysisPlanVersionId, mz_datasetVersionId = datasetVersionId,
        mz_semanticVersionId = semanticVersionId, mz_metricVersionId = metricVersionId,
        mz_permissionProjectionVersionId = permissionProjectionVersionId, mz_parameterHash = parameterHash,
        mz_locale = locale, mz_timezone = timezone, mz_engineVersion = engineVersion,
        mz_adapterVersion = adapterVersion, mz_effectivePolicyVersionId = effectivePolicyVersionId,
        mz_resultManifestId = resultManifestId, mz_cacheIdentityHash = cacheIdentityHash,
        mz_createdAt = createdAt\<rparr>))))))))))))))))))"

section \<open>Snapshots, candidates and events\<close>

text \<open>The members of the object that is hashed, in the order they are written in.\<close>

definition snapshot_parts :: "dashboard_snapshot \<Rightarrow> (jsstr \<times> json) list" where
  "snapshot_parts s =
     [(js ''snapshotId'', JStr (ds_snapshotId s)),
      (js ''tenantScope'', JStr (dda_scopeKey (ds_tenantScope s))),
      (js ''dashboardVersionId'', JStr (ds_dashboardVersionId s)),
      (js ''materializationIds'', JArr (map JStr (sort (ds_materializationIds s)))),
      (js ''inputSelectorHash'', JStr (ds_inputSelectorHash s)),
      (js ''permissionProjectionVersionId'', JStr (ds_permissionProjectionVersionId s)),
      (js ''audience'', JStr (js (audience_text (ds_audience s)))),
      (js ''freshnessState'', JStr (js (freshness_text (ds_freshnessState s)))),
      (js ''evidenceState'', JStr (js (evidence_text (ds_evidenceState s)))),
      (js ''createdAt'', JStr (ds_createdAt s))]"

definition computeDashboardSnapshotHashV1 :: "dashboard_snapshot \<Rightarrow> jsstr" where
  "computeDashboardSnapshotHashV1 s = stableCanonicalHash (snapshot_parts s)"

text \<open>The version and the materializations the snapshot is created with, when they are given.\<close>

definition version_fits :: "tenant_scope \<Rightarrow> stable_id \<Rightarrow> dashboard_version option \<Rightarrow> dda_error + unit" where
  "version_fits scope versionId v =
     (case v of
        None \<Rightarrow> accepted ()
      | Some d \<Rightarrow>
          reject_if (dv_versionId d \<noteq> versionId) Dda_INVALID_IDENTIFIER (
          reject_if (\<not> dda_sameScope scope (dv_tenantScope d)) Dda_CROSS_SCOPE_REFERENCE (accepted ())))"

fun materializations_fit :: "tenant_scope \<Rightarrow> stable_id list \<Rightarrow> materialization list \<Rightarrow> dda_error + unit" where
  "materializations_fit scope ids [] = accepted ()"
| "materializations_fit scope ids (m # ms) =
     reject_if (\<not> dda_sameScope scope (mz_tenantScope m)) Dda_CROSS_SCOPE_REFERENCE (
     reject_if (mz_materializationId m \<notin> set ids) Dda_INVALID_COLLECTION (
     materializations_fit scope ids ms))"

definition createDashboardSnapshotV1 ::
    "env \<Rightarrow> jsval \<Rightarrow> dashboard_version option \<Rightarrow> materialization list option \<Rightarrow> dda_error + dashboard_snapshot" where
  "createDashboardSnapshotV1 E i version materializations =
     require Dda_INVALID_SCOPE (scope_value E (field i ''tenantScope'')) (\<lambda>tenantScope.
     require Dda_INVALID_IDENTIFIER (stable E (field i ''snapshotId'')) (\<lambda>snapshotId.
     require Dda_INVALID_IDENTIFIER (stable E (field i ''dashboardVersionId'')) (\<lambda>dashboardVersionId.
     require Dda_INVALID_IDENTIFIER (stable E (field i ''permissionProjectionVersionId'')) (\<lambda>permissionProjectionVersionId.
     require Dda_INVALID_HASH (sha256_hex (field i ''inputSelectorHash'')) (\<lambda>inputSelectorHash.
     require Dda_INVALID_HASH (sha256_hex (field i ''canonicalHash'')) (\<lambda>canonicalHash.
     require Dda_INVALID_TIMESTAMP (timestamp E (field i ''createdAt'')) (\<lambda>createdAt.
     require Dda_UNSUPPORTED_POLICY (one_of audiences (field i ''audience'')) (\<lambda>audience.
     require Dda_UNSUPPORTED_POLICY (one_of freshnessStates (field i ''freshnessState'')) (\<lambda>freshnessState.
     require Dda_UNSUPPORTED_POLICY (one_of evidenceStates (field i ''evidenceState'')) (\<lambda>evidenceState.
     require Dda_INVALID_COLLECTION (array_within 1 256 (field i ''materializationIds'')) (\<lambda>ms.
     require Dda_INVALID_IDENTIFIER (parse_all (stable E) ms) (\<lambda>materializationIds.
     and_then (version_fits tenantScope dashboardVersionId version) (\<lambda>_.
     and_then (materializations_fit tenantScope materializationIds (case materializations of None \<Rightarrow> [] | Some xs \<Rightarrow> xs)) (\<lambda>_.
     let s = \<lparr>ds_snapshotId = snapshotId, ds_tenantScope = tenantScope, ds_dashboardVersionId = dashboardVersionId,
        ds_materializationIds = materializationIds, ds_inputSelectorHash = inputSelectorHash,
        ds_permissionProjectionVersionId = permissionProjectionVersionId, ds_audience = audience,
        ds_freshnessState = freshnessState, ds_evidenceState = evidenceState,
        ds_canonicalHash = canonicalHash, ds_createdAt = createdAt\<rparr>
     in reject_if (canonicalHash \<noteq> computeDashboardSnapshotHashV1 s) Dda_INVALID_HASH (accepted s)))))))))))))))"

definition createDdaFolderManifestV1 :: "env \<Rightarrow> jsval \<Rightarrow> dda_error + folder_manifest" where
  "createDdaFolderManifestV1 E i =
     require Dda_INVALID_SCOPE (scope_value E (field i ''tenantScope'')) (\<lambda>tenantScope.
     require Dda_INVALID_IDENTIFIER (stable E (field i ''manifestId'')) (\<lambda>manifestId.
     require Dda_INVALID_IDENTIFIER (stable E (field i ''capabilityGrantId'')) (\<lambda>capabilityGrantId.
     require Dda_INVALID_IDENTIFIER (stable E (field i ''publicationProjectionId'')) (\<lambda>publicationProjectionId.
     require Dda_INVALID_TEXT (text_value E (field i ''purpose'') 64) (\<lambda>purpose.
     require Dda_INVALID_HASH (sha256_hex (field i ''manifestHash'')) (\<lambda>manifestHash.
     require Dda_INVALID_VERSION (safe_integer_from 1 (field i ''version'')) (\<lambda>version.
     require Dda_INVALID_COLLECTION (array_within 1 16 (field i ''supportedProfiles'')) (\<lambda>ps.
     require Dda_INVALID_TEXT (text_list E 32 ps) (\<lambda>supportedProfiles.
     accepted \<lparr>fm_manifestId = manifestId, fm_tenantScope = tenantScope, fm_capabilityGrantId = capabilityGrantId,
        fm_purpose = purpose, fm_supportedProfiles = supportedProfiles,
        fm_publicationProjectionId = publicationProjectionId, fm_manifestHash = manifestHash,
        fm_version = version\<rparr>)))))))))"

text \<open>
  \<open>fieldCandidates[field] = \<dots>\<close>: fields that normalise to the same name overwrite each other, and an assignment to
  \<open>__proto__\<close> makes no property.
\<close>

definition candidate_of :: "env \<Rightarrow> jsstr \<times> jsval \<Rightarrow> (jsstr \<times> field_candidate) option" where
  "candidate_of E e =
     (case text_value E (Str (fst e)) 64 of
        None \<Rightarrow> None
      | Some name \<Rightarrow>
          if \<not> isRecord (snd e) then None
          else case (text_value E (field (snd e) ''value'') 500, field (snd e) ''confidence'') of
                 (Some v, Num (Finite c)) \<Rightarrow>
                   if c < 0 \<or> 1 < c then None else Some (name, \<lparr>fc_value = v, fc_confidence = c\<rparr>)
               | _ \<Rightarrow> None)"

fun put_candidates :: "(jsstr \<times> field_candidate) list \<Rightarrow> jsstr \<rightharpoonup> field_candidate" where
  "put_candidates cs =
     foldl (\<lambda>m (k, c). if k = js ''__proto__'' then m else m(k \<mapsto> c)) Map.empty cs"

definition receipt_fields :: "env \<Rightarrow> jsval \<Rightarrow> (jsstr \<times> field_candidate) list option" where
  "receipt_fields E v = (case v of Obj ps \<Rightarrow> parse_all (candidate_of E) ps | _ \<Rightarrow> None)"

definition createDdaReceiptCandidateV1 :: "env \<Rightarrow> jsval \<Rightarrow> dda_error + receipt_candidate" where
  "createDdaReceiptCandidateV1 E i =
     require Dda_INVALID_SCOPE (scope_value E (field i ''tenantScope'')) (\<lambda>tenantScope.
     require Dda_INVALID_IDENTIFIER (stable E (field i ''candidateId'')) (\<lambda>candidateId.
     require Dda_INVALID_IDENTIFIER (stable E (field i ''artifactVersionId'')) (\<lambda>artifactVersionId.
     require Dda_INVALID_IDENTIFIER (stable E (field i ''profileVersionId'')) (\<lambda>profileVersionId.
     require Dda_INVALID_IDENTIFIER (stable E (field i ''evidenceReferenceId'')) (\<lambda>evidenceReferenceId.
     require Dda_INVALID_TEXT (text_value E (field i ''adapterVersion'') 64) (\<lambda>adapterVersion.
     require Dda_INVALID_HASH (sha256_hex (field i ''candidateHash'')) (\<lambda>candidateHash.
     require Dda_INVALID_COLLECTION (receipt_fields E (field i ''fieldCandidates'')) (\<lambda>cs.
     accepted \<lparr>rcp_candidateId = candidateId, rcp_tenantScope = tenantScope,
        rcp_artifactVersionId = artifactVersionId, rcp_profileVersionId = profileVersionId,
        rcp_fieldCandidates = put_candidates cs, rcp_adapterVersion = adapterVersion,
        rcp_evidenceReferenceId = evidenceReferenceId, rcp_candidateHash = candidateHash\<rparr>))))))))"

definition createDdaRefreshEventV1 :: "env \<Rightarrow> jsval \<Rightarrow> dda_error + refresh_event" where
  "createDdaRefreshEventV1 E i =
     require Dda_INVALID_SCOPE (scope_value E (field i ''tenantScope'')) (\<lambda>tenantScope.
     require Dda_INVALID_IDENTIFIER (stable E (field i ''eventId'')) (\<lambda>eventId.
     require Dda_INVALID_IDENTIFIER (stable E (field i ''dashboardId'')) (\<lambda>dashboardId.
     require Dda_INVALID_IDENTIFIER (stable E (field i ''snapshotId'')) (\<lambda>snapshotId.
     require Dda_INVALID_TIMESTAMP (timestamp E (field i ''occurredAt'')) (\<lambda>occurredAt.
     require Dda_INVALID_HASH (sha256_hex (field i ''eventHash'')) (\<lambda>eventHash.
     require Dda_UNSUPPORTED_POLICY (one_of freshnessStates (field i ''freshnessState'')) (\<lambda>freshnessState.
     accepted \<lparr>rfe_eventId = eventId, rfe_tenantScope = tenantScope, rfe_dashboardId = dashboardId,
        rfe_snapshotId = snapshotId, rfe_freshnessState = freshnessState, rfe_occurredAt = occurredAt,
        rfe_eventHash = eventHash\<rparr>)))))))"

definition createDdaAgentGrantV1 :: "env \<Rightarrow> jsval \<Rightarrow> dda_error + agent_grant" where
  "createDdaAgentGrantV1 E i =
     require Dda_INVALID_SCOPE (scope_value E (field i ''tenantScope'')) (\<lambda>tenantScope.
     require Dda_INVALID_IDENTIFIER (stable E (field i ''grantId'')) (\<lambda>grantId.
     require Dda_INVALID_IDENTIFIER (stable E (field i ''memberId'')) (\<lambda>memberId.
     require Dda_INVALID_TIMESTAMP (timestamp E (field i ''updatedAt'')) (\<lambda>updatedAt.
     require Dda_INVALID_VERSION (safe_integer_from 1 (field i ''revision'')) (\<lambda>revision.
     require Dda_UNSUPPORTED_AGENT_LEVEL (one_of agentGrantLevels (field i ''level'')) (\<lambda>level.
     accepted \<lparr>ag_grantId = grantId, ag_tenantScope = tenantScope, ag_memberId = memberId, ag_level = level,
        ag_revision = revision, ag_updatedAt = updatedAt\<rparr>))))))"

definition createDdaConversationContextEventV1 :: "env \<Rightarrow> jsval \<Rightarrow> dda_error + context_event" where
  "createDdaConversationContextEventV1 E i =
     require Dda_INVALID_SCOPE (scope_value E (field i ''tenantScope'')) (\<lambda>tenantScope.
     require Dda_INVALID_IDENTIFIER (stable E (field i ''eventId'')) (\<lambda>eventId.
     require Dda_INVALID_IDENTIFIER (stable E (field i ''conversationId'')) (\<lambda>conversationId.
     require Dda_INVALID_TIMESTAMP (timestamp E (field i ''occurredAt'')) (\<lambda>occurredAt.
     require Dda_UNSUPPORTED_CONTEXT_KIND (one_of conversationContextKinds (field i ''kind'')) (\<lambda>kind.
     require Dda_INVALID_IDENTIFIER (optional (stable E) (defined_value (field i ''beforeVersionId''))) (\<lambda>beforeVersionId.
     require Dda_INVALID_IDENTIFIER (optional (stable E) (defined_value (field i ''afterVersionId''))) (\<lambda>afterVersionId.
     accepted \<lparr>ce_eventId = eventId, ce_conversationId = conversationId, ce_tenantScope = tenantScope,
        ce_kind = kind, ce_beforeVersionId = beforeVersionId, ce_afterVersionId = afterVersionId,
        ce_occurredAt = occurredAt\<rparr>)))))))"

definition message_of :: "env \<Rightarrow> jsval \<Rightarrow> dda_error + conversation_message" where
  "message_of E v =
     reject_if (\<not> object_like v) Dda_INVALID_COLLECTION (
     require Dda_INVALID_TEXT (stable E (field v ''messageId'')) (\<lambda>messageId.
     require Dda_INVALID_TEXT (timestamp E (field v ''createdAt'')) (\<lambda>createdAt.
     require Dda_INVALID_TEXT (text_value E (field v ''text'') 16000) (\<lambda>text.
     require Dda_UNSUPPORTED_POLICY (one_of messageRoles (field v ''role'')) (\<lambda>role.
     accepted \<lparr>msg_messageId = messageId, msg_role = role, msg_text = text, msg_createdAt = createdAt\<rparr>)))))"

definition createDdaConversationV1 :: "env \<Rightarrow> jsval \<Rightarrow> dda_error + conversation" where
  "createDdaConversationV1 E i =
     require Dda_INVALID_SCOPE (scope_value E (field i ''tenantScope'')) (\<lambda>tenantScope.
     require Dda_INVALID_IDENTIFIER (stable E (field i ''conversationId'')) (\<lambda>conversationId.
     require Dda_INVALID_TEXT (text_value E (field i ''title'') 200) (\<lambda>title.
     require Dda_INVALID_TIMESTAMP (timestamp E (field i ''updatedAt'')) (\<lambda>updatedAt.
     require Dda_BOUNDS_EXCEEDED (array_within 0 8 (field i ''activeDatasetIds'')) (\<lambda>as.
     require Dda_INVALID_IDENTIFIER (parse_all (stable E) as) (\<lambda>activeDatasetIds.
     require Dda_BOUNDS_EXCEEDED (array_within 0 50 (field i ''history'')) (\<lambda>hs.
     and_then (map_result (message_of E) hs) (\<lambda>history.
     accepted \<lparr>conv_conversationId = conversationId, conv_tenantScope = tenantScope, conv_title = title,
        conv_activeDatasetIds = activeDatasetIds, conv_history = history, conv_updatedAt = updatedAt\<rparr>))))))))"

definition createDdaTableExtractionCandidateV1 :: "env \<Rightarrow> jsval \<Rightarrow> dda_error + table_candidate" where
  "createDdaTableExtractionCandidateV1 E i =
     require Dda_INVALID_SCOPE (scope_value E (field i ''tenantScope'')) (\<lambda>tenantScope.
     require Dda_INVALID_IDENTIFIER (stable E (field i ''candidateId'')) (\<lambda>candidateId.
     require Dda_INVALID_IDENTIFIER (stable E (field i ''artifactVersionId'')) (\<lambda>artifactVersionId.
     require Dda_INVALID_IDENTIFIER (stable E (field i ''evidenceReferenceId'')) (\<lambda>evidenceReferenceId.
     require Dda_INVALID_HASH (sha256_hex (field i ''candidateHash'')) (\<lambda>candidateHash.
     require Dda_BOUNDS_EXCEEDED (safe_integer_within 1 20 (field i ''pageCount'')) (\<lambda>pageCount.
     require Dda_BOUNDS_EXCEEDED (array_within 1 100 (field i ''columns'')) (\<lambda>columns.
     require Dda_BOUNDS_EXCEEDED (array_within 0 10000 (field i ''cells'')) (\<lambda>cells.
     reject_if (list_ex (\<lambda>c. \<not> object_like c \<or> \<not> object_like (field c ''evidence'')) cells) Dda_INVALID_COLLECTION (
     accepted \<lparr>tc_candidateId = candidateId, tc_tenantScope = tenantScope, tc_artifactVersionId = artifactVersionId,
        tc_pageCount = pageCount, tc_columns = columns, tc_cells = cells,
        tc_evidenceReferenceId = evidenceReferenceId, tc_candidateHash = candidateHash\<rparr>)))))))))"

definition createDdaStarterDashboardEventV1 :: "env \<Rightarrow> jsval \<Rightarrow> dda_error + starter_event" where
  "createDdaStarterDashboardEventV1 E i =
     require Dda_INVALID_SCOPE (scope_value E (field i ''tenantScope'')) (\<lambda>tenantScope.
     require Dda_INVALID_IDENTIFIER (stable E (field i ''eventId'')) (\<lambda>eventId.
     require Dda_INVALID_IDENTIFIER (stable E (field i ''datasetVersionId'')) (\<lambda>datasetVersionId.
     require Dda_INVALID_IDENTIFIER (stable E (field i ''dashboardVersionId'')) (\<lambda>dashboardVersionId.
     require Dda_INVALID_TEXT (text_value E (field i ''templateId'') 64) (\<lambda>templateId.
     require Dda_INVALID_TIMESTAMP (timestamp E (field i ''occurredAt'')) (\<lambda>occurredAt.
     reject_if (field i ''aiUsed'' \<noteq> Bool False) Dda_UNSUPPORTED_POLICY (
     accepted \<lparr>se_eventId = eventId, se_tenantScope = tenantScope, se_datasetVersionId = datasetVersionId,
        se_dashboardVersionId = dashboardVersionId, se_templateId = templateId, se_occurredAt = occurredAt\<rparr>)))))))"

section \<open>Versions refer to their own pages\<close>

definition cell_ok :: "layout_cell \<Rightarrow> bool" where
  "cell_ok c \<longleftrightarrow> 0 \<le> cell_x c \<and> 0 \<le> cell_y c \<and> 1 \<le> cell_w c \<and> 1 \<le> cell_h c"

definition cells_ok :: "layout_cell list \<Rightarrow> bool" where
  "cells_ok cs \<longleftrightarrow> cs \<noteq> [] \<and> length cs \<le> 64 \<and> (\<forall>c\<in>set cs. cell_ok c)"

definition page_ok :: "dashboard_page \<Rightarrow> bool" where
  "page_ok p \<longleftrightarrow> 1 \<le> page_order p \<and> cells_ok (page_desktop p) \<and> cells_ok (page_tablet p) \<and> cells_ok (page_mobile p)"

definition version_ok :: "dashboard_version \<Rightarrow> bool" where
  "version_ok d \<longleftrightarrow>
     dv_pages d \<noteq> [] \<and> length (dv_pages d) \<le> 32 \<and> distinct (map page_pageId (dv_pages d))
     \<and> (\<forall>p\<in>set (dv_pages d). page_ok p)
     \<and> dv_widgets d \<noteq> [] \<and> length (dv_widgets d) \<le> 128 \<and> distinct (map widget_widgetId (dv_widgets d))
     \<and> (\<forall>w\<in>set (dv_widgets d). widget_pageId w \<in> page_pageId ` set (dv_pages d))
     \<and> length (dv_filters d) \<le> 64 \<and> dv_datasetBindings d \<noteq> [] \<and> length (dv_datasetBindings d) \<le> 32"

lemma array_within_Some:
  "array_within lo hi v = Some vs \<longleftrightarrow> v = Arr vs \<and> lo \<le> length vs \<and> length vs \<le> hi"
  by (auto simp: array_within_def split: jsval.splits)

lemma layout_cell_ok: "layout_cell_of E v = Some c \<Longrightarrow> cell_ok c"
  by (auto simp: layout_cell_of_def cell_ok_def safe_integer_from_Some split: if_splits option.splits)

lemma parse_all_each: "parse_all p xs = Some ys \<Longrightarrow> y \<in> set ys \<Longrightarrow> \<exists>x\<in>set xs. p x = Some y"
  unfolding parse_all_Some list_all2_conv_all_nth by (metis in_set_conv_nth)

lemma layoutCells_ok: "layoutCells E v = Some cs \<Longrightarrow> cells_ok cs"
  unfolding layoutCells_def cells_ok_def
  by (auto simp: array_within_Some split: option.splits dest: length_parse_all parse_all_each layout_cell_ok)

lemma page_loop_ok:
  assumes "page_loop E seen vs = Inr ps"
  shows "length ps = length vs \<and> distinct (map page_pageId ps) \<and> page_pageId ` set ps \<inter> set seen = {}
     \<and> (\<forall>p\<in>set ps. page_ok p)"
  using assms
proof (induction E seen vs arbitrary: ps rule: page_loop.induct)
  case (2 E seen v vs)
  from "2.prems" obtain p qs where p: "page_loop E (page_pageId p # seen) vs = Inr qs" "ps = p # qs"
    "page_pageId p \<notin> set seen" "page_ok p"
    unfolding page_loop.simps result_simps page_ok_def
    by (elim exE conjE) (force dest: layoutCells_ok simp: safe_integer_from_Some)
  from "2.prems" p(1,2) "2.IH" have "length qs = length vs \<and> distinct (map page_pageId qs)
     \<and> page_pageId ` set qs \<inter> set (page_pageId p # seen) = {} \<and> (\<forall>p\<in>set qs. page_ok p)"
    unfolding page_loop.simps result_simps by fastforce
  with p show ?case by auto
qed simp

lemma widget_loop_ok:
  assumes "widget_loop E pageIds seen vs = Inr ws"
  shows "length ws = length vs \<and> distinct (map widget_widgetId ws) \<and> widget_widgetId ` set ws \<inter> set seen = {}
     \<and> (\<forall>w\<in>set ws. widget_pageId w \<in> set pageIds)"
  using assms
proof (induction E pageIds seen vs arbitrary: ws rule: widget_loop.induct)
  case (2 E pageIds seen v vs)
  from "2.prems" obtain w us where w: "widget_loop E pageIds (widget_widgetId w # seen) vs = Inr us" "ws = w # us"
    "widget_widgetId w \<notin> set seen" "widget_pageId w \<in> set pageIds"
    unfolding widget_loop.simps result_simps by (elim exE conjE) force
  from "2.prems" w(1,2) "2.IH" have "length us = length vs \<and> distinct (map widget_widgetId us)
     \<and> widget_widgetId ` set us \<inter> set (widget_widgetId w # seen) = {} \<and> (\<forall>w\<in>set us. widget_pageId w \<in> set pageIds)"
    unfolding widget_loop.simps result_simps by fastforce
  with w show ?case by auto
qed simp

text \<open>
  C34: a dashboard version refers to its own pages. In every version the constructor accepts the pages and the
  widgets have distinct identifiers, each widget names one of the pages, pages are numbered from 1, each of
  the three layouts of a page has between 1 and 64 cells of positive extent at non-negative places, and the
  collections are within their limits.
\<close>

theorem dashboard_version_well_formed:
  assumes "createDashboardVersionV1 E i = Inr d"
  shows "version_ok d"
  using assms unfolding createDashboardVersionV1_def result_simps
  by (elim exE conjE)
     (auto simp: version_ok_def array_within_Some map_result_accepted dest!: page_loop_ok widget_loop_ok
       dest: list_all2_lengthD)

section \<open>Candidates\<close>

lemma candidate_bounds:
  "candidate_of E e = Some (k, c) \<Longrightarrow> k \<noteq> [] \<and> length k \<le> 64 \<and> fc_value c \<noteq> [] \<and> length (fc_value c) \<le> 500
     \<and> 0 \<le> fc_confidence c \<and> fc_confidence c \<le> 1"
  by (auto simp: candidate_of_def split: option.splits if_splits jsval.splits jsnum.splits dest: text_value_bounds)

lemma put_candidates_member:
  "put_candidates cs k = Some c \<Longrightarrow> (k, c) \<in> set cs \<and> k \<noteq> js ''__proto__''"
proof (induction cs rule: rev_induct)
  case (snoc e cs)
  then show ?case by (cases e) (auto split: if_splits)
qed simp

text \<open>
  Every field of an accepted receipt candidate has a confidence between 0 and 1 and a value of 1 to 500
  units; its name has 1 to 64 units and is never \<open>__proto__\<close>, for such a field is lost in the assignment.
\<close>

theorem receipt_candidate_bounds:
  assumes "createDdaReceiptCandidateV1 E i = Inr r" and "rcp_fieldCandidates r k = Some c"
  shows "0 \<le> fc_confidence c \<and> fc_confidence c \<le> 1 \<and> k \<noteq> [] \<and> length k \<le> 64 \<and> k \<noteq> js ''__proto__''
     \<and> fc_value c \<noteq> [] \<and> length (fc_value c) \<le> 500"
proof -
  from assms obtain v cs where cs: "receipt_fields E v = Some cs" "put_candidates cs k = Some c"
    unfolding createDdaReceiptCandidateV1_def result_simps by (elim exE conjE) fastforce
  from put_candidates_member [OF cs(2)] have m: "(k, c) \<in> set cs" "k \<noteq> js ''__proto__''" by blast+
  from cs(1) m(1) obtain e where "candidate_of E e = Some (k, c)"
    by (auto simp: receipt_fields_def split: jsval.splits dest: parse_all_each)
  from candidate_bounds [OF this] m(2) show ?thesis by blast
qed

section \<open>The hash of a snapshot\<close>

lemma snapshot_facts:
  assumes "createDashboardSnapshotV1 E i version materializations = Inr s"
  shows "scope_value E (field i ''tenantScope'') = Some (ds_tenantScope s)"
    "stable E (field i ''snapshotId'') = Some (ds_snapshotId s)"
    "stable E (field i ''dashboardVersionId'') = Some (ds_dashboardVersionId s)"
    "stable E (field i ''permissionProjectionVersionId'') = Some (ds_permissionProjectionVersionId s)"
    "sha256_hex (field i ''inputSelectorHash'') = Some (ds_inputSelectorHash s)"
    "sha256_hex (field i ''canonicalHash'') = Some (ds_canonicalHash s)"
    "timestamp E (field i ''createdAt'') = Some (ds_createdAt s)"
    "\<exists>ms. array_within 1 256 (field i ''materializationIds'') = Some ms
       \<and> parse_all (stable E) ms = Some (ds_materializationIds s)"
    "ds_canonicalHash s = computeDashboardSnapshotHashV1 s"
  using assms unfolding createDashboardSnapshotV1_def result_simps Let_def
  by (elim exE conjE, cases s, auto)+

text \<open>The members in the order of the sorted names.\<close>

lemma sorted_members:
  "sort_key fst (snapshot_parts s) =
     [(js ''audience'', JStr (js (audience_text (ds_audience s)))),
      (js ''createdAt'', JStr (ds_createdAt s)),
      (js ''dashboardVersionId'', JStr (ds_dashboardVersionId s)),
      (js ''evidenceState'', JStr (js (evidence_text (ds_evidenceState s)))),
      (js ''freshnessState'', JStr (js (freshness_text (ds_freshnessState s)))),
      (js ''inputSelectorHash'', JStr (ds_inputSelectorHash s)),
      (js ''materializationIds'', JArr (map JStr (sort (ds_materializationIds s)))),
      (js ''permissionProjectionVersionId'', JStr (ds_permissionProjectionVersionId s)),
      (js ''snapshotId'', JStr (ds_snapshotId s)),
      (js ''tenantScope'', JStr (dda_scopeKey (ds_tenantScope s)))]"
  by (simp add: snapshot_parts_def js_Cons)

lemma prefix_steps:
  "fnv_step 2166136261 123 = 4262220314" "fnv_step 4262220314 34 = 627404328"
  "fnv_step 627404328 97 = 665623787" "fnv_step 665623787 117 = 314215610"
  "fnv_step 314215610 100 = 1504428410" "fnv_step 1504428410 105 = 1012986089"
  "fnv_step 1012986089 101 = 2560273508" "fnv_step 2560273508 110 = 1165808574"
  "fnv_step 1165808574 99 = 1082229991" "fnv_step 1082229991 101 = 233019558"
  "fnv_step 233019558 34 = 1632180172" "fnv_step 1632180172 58 = 470857794"
  "fnv_step 470857794 34 = 2387754784" "fnv_step 2387754784 79 = 2054806461"
  "fnv_step 2054806461 87 = 3084202334" "fnv_step 3084202334 78 = 1956396080"
  "fnv_step 1956396080 69 = 116599855" "fnv_step 116599855 82 = 1842284743"
  "fnv_step 1842284743 34 = 3253403775" "fnv_step 3253403775 44 = 2549187241"
  "fnv_step 2549187241 34 = 3157295313" "fnv_step 3157295313 99 = 4066023478"
  "fnv_step 4066023478 114 = 3365778188" "fnv_step 3365778188 101 = 960589387"
  "fnv_step 960589387 97 = 1275096094" "fnv_step 1275096094 116 = 246065886"
  "fnv_step 246065886 101 = 3517629537" "fnv_step 3517629537 100 = 349344735"
  "fnv_step 349344735 65 = 1702781370" "fnv_step 1702781370 116 = 2482239306"
  "fnv_step 2482239306 34 = 1359902904" "fnv_step 1359902904 58 = 466072742"
  "fnv_step 466072742 34 = 1063332812" "fnv_step 1063332812 50 = 3287826650"
  "fnv_step 3287826650 48 = 1775120478" "fnv_step 1775120478 50 = 4220926468"
  "fnv_step 4220926468 54 = 1065196726" "fnv_step 1065196726 45 = 2378008577"
  "fnv_step 2378008577 48 = 1381852451" "fnv_step 1381852451 49 = 3137739606"
  "fnv_step 3137739606 45 = 3852288673" "fnv_step 3852288673 48 = 126863939"
  "fnv_step 126863939 53 = 1566291906" "fnv_step 1566291906 84 = 2372010274"
  "fnv_step 2372010274 49 = 2756161769" "fnv_step 2756161769 51 = 1994090286"
  "fnv_step 1994090286 58 = 795034748" "fnv_step 795034748 52 = 3779362136"
  "fnv_step 3779362136 52 = 181498116" "fnv_step 181498116 58 = 1169507482"
  "fnv_step 1169507482 48 = 1717245854" "fnv_step 1717245854 56 = 3345365586"
  "fnv_step 3345365586 46 = 1642991924" "fnv_step 1642991924 48 = 767871308"
  "fnv_step 767871308 48 = 2294885940" "fnv_step 2294885940 48 = 1488154700"
  "fnv_step 1488154700 90 = 3094966946" "fnv_step 3094966946 34 = 3878633344"
  "fnv_step 2387754784 87 = 2189027413" "fnv_step 2189027413 79 = 2145935598"
  "fnv_step 2145935598 82 = 382748660" "fnv_step 382748660 75 = 2833314221"
  "fnv_step 2833314221 83 = 3625775834" "fnv_step 3625775834 80 = 3214004030"
  "fnv_step 3214004030 65 = 294233325" "fnv_step 294233325 67 = 1236155882"
  "fnv_step 1236155882 69 = 2890603133" "fnv_step 2890603133 95 = 1547314054"
  "fnv_step 1547314054 86 = 4286996592" "fnv_step 4286996592 73 = 2039052731"
  "fnv_step 2039052731 69 = 1365969626" "fnv_step 1365969626 87 = 3095501815"
  "fnv_step 3095501815 69 = 638064950" "fnv_step 638064950 82 = 1119877228"
  "fnv_step 1119877228 83 = 1395903277" "fnv_step 1395903277 34 = 159951005"
  "fnv_step 159951005 44 = 3005320867" "fnv_step 3005320867 34 = 2127779091"
  "fnv_step 2127779091 99 = 380600144" "fnv_step 380600144 114 = 3628409478"
  "fnv_step 3628409478 101 = 1473637209" "fnv_step 1473637209 97 = 2109819176"
  "fnv_step 2109819176 116 = 1397128148" "fnv_step 1397128148 101 = 3371480995"
  "fnv_step 3371480995 100 = 540888645" "fnv_step 540888645 65 = 3296841804"
  "fnv_step 3296841804 116 = 2421868584" "fnv_step 2421868584 34 = 1223223230"
  "fnv_step 1223223230 58 = 1252291788" "fnv_step 1252291788 34 = 1860440746"
  "fnv_step 1860440746 50 = 688473416" "fnv_step 688473416 48 = 295197672"
  "fnv_step 295197672 50 = 2363004974" "fnv_step 2363004974 54 = 3505876424"
  "fnv_step 3505876424 45 = 3665952639" "fnv_step 3665952639 48 = 1235544413"
  "fnv_step 1235544413 49 = 1520137476" "fnv_step 1520137476 45 = 3417927563"
  "fnv_step 3417927563 48 = 1877664609" "fnv_step 1877664609 52 = 2210651855"
  "fnv_step 2210651855 84 = 139947521" "fnv_step 139947521 49 = 1369601424"
  "fnv_step 1369601424 48 = 582953696" "fnv_step 582953696 58 = 2364568878"
  "fnv_step 2364568878 50 = 4203240212" "fnv_step 4203240212 52 = 2225566560"
  "fnv_step 2225566560 58 = 765105838" "fnv_step 765105838 50 = 1717245844"
  "fnv_step 1717245844 50 = 3345365586"
  by (simp_all add: fnv_step_def)

lemma timestamp_value: "timestamp E v = Some t \<Longrightarrow> v = Str t"
  by (auto simp: timestamp_def parseStrictUtcTimestampV1_def result_simps split: jsval.splits)

lemma timestamp_again: "timestamp E v = Some t \<Longrightarrow> timestamp E (Str t) = Some t"
  using timestamp_value by fastforce

lemma sha256_kept: "sha256_hex v = Some s \<Longrightarrow> sha256_hex (Str s) = Some s"
  by (simp add: sha256_hex_Some)

lemma stable_again:
  "uuid_format_documented E \<Longrightarrow> stable E v = Some s \<Longrightarrow> stable E (Str s) = Some s"
  by (simp add: identifierFrom_Str identifierFrom_form)

lemma dda_sameScope_iff [simp]: "dda_sameScope a b \<longleftrightarrow> a = b"
  by (cases a; cases b) (auto simp: dda_sameScope_def)

lemma audience_again [simp]: "map_of audiences (audience_text a) = Some a"
  by (cases a) (simp_all add: audiences_def)

lemma freshness_again [simp]: "map_of freshnessStates (freshness_text a) = Some a"
  by (cases a) (simp_all add: freshnessStates_def)

lemma evidence_again [simp]: "map_of evidenceStates (evidence_text a) = Some a"
  by (cases a) (simp_all add: evidenceStates_def)

text \<open>The object a snapshot is stored as.\<close>

definition snapshot_object :: "dashboard_snapshot \<Rightarrow> jsval" where
  "snapshot_object s =
     Obj [(js ''schemaVersion'', int_num 1),
          (js ''snapshotId'', Str (ds_snapshotId s)),
          (js ''tenantScope'', scope_object (ds_tenantScope s)),
          (js ''dashboardVersionId'', Str (ds_dashboardVersionId s)),
          (js ''materializationIds'', Arr (map Str (ds_materializationIds s))),
          (js ''inputSelectorHash'', Str (ds_inputSelectorHash s)),
          (js ''permissionProjectionVersionId'', Str (ds_permissionProjectionVersionId s)),
          (js ''audience'', Str (js (audience_text (ds_audience s)))),
          (js ''freshnessState'', Str (js (freshness_text (ds_freshnessState s)))),
          (js ''evidenceState'', Str (js (evidence_text (ds_evidenceState s)))),
          (js ''canonicalHash'', Str (ds_canonicalHash s)),
          (js ''createdAt'', Str (ds_createdAt s))]"

lemma snapshot_fields:
  "field (snapshot_object s) ''snapshotId'' = Str (ds_snapshotId s)"
  "field (snapshot_object s) ''tenantScope'' = scope_object (ds_tenantScope s)"
  "field (snapshot_object s) ''dashboardVersionId'' = Str (ds_dashboardVersionId s)"
  "field (snapshot_object s) ''materializationIds'' = Arr (map Str (ds_materializationIds s))"
  "field (snapshot_object s) ''inputSelectorHash'' = Str (ds_inputSelectorHash s)"
  "field (snapshot_object s) ''permissionProjectionVersionId'' = Str (ds_permissionProjectionVersionId s)"
  "field (snapshot_object s) ''audience'' = Str (js (audience_text (ds_audience s)))"
  "field (snapshot_object s) ''freshnessState'' = Str (js (freshness_text (ds_freshnessState s)))"
  "field (snapshot_object s) ''evidenceState'' = Str (js (evidence_text (ds_evidenceState s)))"
  "field (snapshot_object s) ''canonicalHash'' = Str (ds_canonicalHash s)"
  "field (snapshot_object s) ''createdAt'' = Str (ds_createdAt s)"
  by (simp_all add: snapshot_object_def)

text \<open>What the constructor asks of a snapshot.\<close>

definition snapshot_form :: "env \<Rightarrow> dashboard_snapshot \<Rightarrow> bool" where
  "snapshot_form E s \<longleftrightarrow>
     wf_scope (ds_tenantScope s) \<and> stable_form (ds_snapshotId s) \<and> stable_form (ds_dashboardVersionId s)
     \<and> stable_form (ds_permissionProjectionVersionId s) \<and> sha256_hex (Str (ds_inputSelectorHash s)) \<noteq> None
     \<and> timestamp E (Str (ds_createdAt s)) \<noteq> None \<and> list_all stable_form (ds_materializationIds s)
     \<and> ds_materializationIds s \<noteq> [] \<and> length (ds_materializationIds s) \<le> 256"

lemma length_hex_text: "n < 16 ^ Suc k \<Longrightarrow> length (hex_text n) \<le> Suc k"
proof (induction k arbitrary: n)
  case (Suc k)
  then have "n div 16 < 16 ^ Suc k" by (simp add: less_mult_imp_div_less mult.commute)
  with Suc.IH show ?case by (subst hex_text.simps) auto
qed (subst hex_text.simps, simp)

lemma stableCanonicalHash_form: "sha256_hex (Str (stableCanonicalHash parts)) = Some (stableCanonicalHash parts)"
proof -
  let ?n = "unat (fnv_hash (canonical_parts parts))"
  have "?n < 16 ^ Suc 7" using unsigned_less [of "fnv_hash (canonical_parts parts)"] by simp
  then have "length (hex_text ?n) \<le> 8" using length_hex_text [of ?n 7] by simp
  moreover have "list_all lower_hex (hex_text ?n)" by (rule hex_text_hex)
  ultimately show ?thesis
    by (auto simp: sha256_hex_Some stableCanonicalHash_def pad_start_def length_concat sum_list_replicate list_all_iff)
qed

lemma stable_forms: "uuid_format_documented E \<Longrightarrow> list_all stable_form ids \<Longrightarrow> parse_all (stable E) (map Str ids) = Some ids"
  by (induction ids) (simp_all add: identifierFrom_Str)

lemma snapshot_accepts:
  assumes "snapshot_form E s" and "uuid_format_documented E" and "ds_canonicalHash s = computeDashboardSnapshotHashV1 s"
    and "version_fits (ds_tenantScope s) (ds_dashboardVersionId s) version = Inr ()"
    and "materializations_fit (ds_tenantScope s) (ds_materializationIds s)
           (case materializations of None \<Rightarrow> [] | Some xs \<Rightarrow> xs) = Inr ()"
  shows "createDashboardSnapshotV1 E (snapshot_object s) version materializations = Inr s"
proof -
  have form: "timestamp E (Str (ds_createdAt s)) = Some (ds_createdAt s)"
    "sha256_hex (Str (ds_inputSelectorHash s)) = Some (ds_inputSelectorHash s)"
    "array_within 1 256 (Arr (map Str (ds_materializationIds s))) = Some (map Str (ds_materializationIds s))"
    using assms(1) timestamp_value by (fastforce simp: snapshot_form_def sha256_hex_Some array_within_Some Suc_le_eq)+
  have "sha256_hex (Str (ds_canonicalHash s)) = Some (ds_canonicalHash s)"
    by (simp add: assms(3) computeDashboardSnapshotHashV1_def stableCanonicalHash_form)
  with form assms show ?thesis
    unfolding createDashboardSnapshotV1_def snapshot_fields Let_def
    by (cases s) (simp add: result_simps snapshot_form_def identifierFrom_Str stable_forms scope_value_def parse_scope_object)
qed

lemma snapshot_formed:
  assumes "createDashboardSnapshotV1 E i version materializations = Inr s"
  shows "snapshot_form E s"
proof -
  note f = snapshot_facts [OF assms]
  from f(8) obtain ms where ms: "array_within 1 256 (field i ''materializationIds'') = Some ms"
    "parse_all (stable E) ms = Some (ds_materializationIds s)" by blast
  have "list_all stable_form (ds_materializationIds s)"
    using parse_all_each [OF ms(2)] identifierFrom_form by (fastforce simp: list_all_iff)
  moreover have "ds_materializationIds s \<noteq> []" "length (ds_materializationIds s) \<le> 256"
    using ms length_parse_all by (fastforce simp: array_within_Some)+
  ultimately show ?thesis
    using scope_value_wf [OF f(1)] f(2-4) [THEN identifierFrom_form]
      sha256_kept [OF f(5)] timestamp_again [OF f(7)]
    by (simp add: snapshot_form_def)
qed


section \<open>The hash has 32 bits\<close>

definition collision_owner :: utc_timestamp where
  "collision_owner = js ''2026-01-05T13:44:08.000Z''"

definition collision_viewers :: utc_timestamp where
  "collision_viewers = js ''2026-01-04T10:24:22.000Z''"

lemma collision_prefix:
  "foldl fnv_step 2166136261 (123 # quote (js ''audience'') @ 58 # quote (js ''OWNER'') @ 44 # quote (js ''createdAt'')
      @ 58 # quote collision_owner) = 3878633344"
  "foldl fnv_step 2166136261 (123 # quote (js ''audience'') @ 58 # quote (js ''WORKSPACE_VIEWERS'') @ 44 # quote (js ''createdAt'')
      @ 58 # quote collision_viewers) = 3878633344"
  by (simp_all add: quote_def escape_unit_def high_surrogate_def low_surrogate_def in_range_def
      collision_owner_def collision_viewers_def js_Cons prefix_steps)

definition shown_to :: "audience \<Rightarrow> utc_timestamp \<Rightarrow> dashboard_snapshot \<Rightarrow> dashboard_snapshot" where
  "shown_to a t s = s\<lparr>ds_audience := a, ds_createdAt := t\<rparr>"

lemma stringify_members:
  "stringify (JObj ((k, v) # (l, w) # m # ps)) =
     (123 # quote k @ 58 # stringify v @ 44 # quote l @ 58 # stringify w) @ 44 # tl (stringify (JObj (m # ps)))"
  by simp

lemma shown_text:
  "\<exists>rest. \<forall>a t. canonical_parts (snapshot_parts (shown_to a t s)) =
     (123 # quote (js ''audience'') @ 58 # quote (js (audience_text a)) @ 44 # quote (js ''createdAt'') @ 58 # quote t) @ rest"
  unfolding canonical_parts_def sorted_members shown_to_def stringify_members
  by (simp del: append_assoc append.simps)

text \<open>
  C36: the canonical hash of a snapshot does not protect its audience. Whatever the other fields are, a
  snapshot for the owner at one instant and the snapshot with the same fields for the viewers of the
  workspace at another have the same hash: the hash has 32 bits, and the two beginnings of the hashed text
  lead FNV-1a to the same state.
\<close>

theorem owner_and_viewers_collide:
  "computeDashboardSnapshotHashV1 (shown_to Audience_OWNER collision_owner s)
     = computeDashboardSnapshotHashV1 (shown_to Audience_WORKSPACE_VIEWERS collision_viewers s)"
proof -
  obtain rest where parts: "\<And>a t. canonical_parts (snapshot_parts (shown_to a t s)) =
     (123 # quote (js ''audience'') @ 58 # quote (js (audience_text a)) @ 44 # quote (js ''createdAt'') @ 58 # quote t) @ rest"
    using shown_text by blast
  show ?thesis
    unfolding computeDashboardSnapshotHashV1_def stableCanonicalHash_def fnv_hash_def parts foldl_append
      audience_text.simps collision_prefix ..
qed

section \<open>Samples\<close>

definition project_scope :: tenant_scope where
  "project_scope = Project_scope (uuid_of CHR ''a'') (uuid_of CHR ''b'') (uuid_of CHR ''c'')"

definition sample_title :: jsval where
  "sample_title = Obj [(js ''vi'', Str (js ''T'')), (js ''en'', Str (js ''T''))]"

text \<open>The layout places a widget the dashboard does not have.\<close>

definition sample_cells :: jsval where
  "sample_cells = Arr [Obj [(js ''widgetId'', sample_id CHR ''f''), (js ''x'', int_num 0), (js ''y'', int_num 0),
                            (js ''w'', int_num 1), (js ''h'', int_num 1)]]"

definition sample_page :: jsval where
  "sample_page =
     Obj [(js ''pageId'', sample_id CHR ''a''), (js ''order'', int_num 1), (js ''title'', sample_title),
          (js ''layout'', Obj [(js ''desktop'', sample_cells), (js ''tablet'', sample_cells), (js ''mobile'', sample_cells)])]"

definition sample_widget :: jsval where
  "sample_widget =
     Obj [(js ''widgetId'', sample_id CHR ''d''), (js ''type'', Str (js ''KPI'')), (js ''pageId'', sample_id CHR ''a''),
          (js ''title'', sample_title),
          (js ''binding'', Obj [(js ''analysisPlanVersionId'', sample_id CHR ''a''),
                              (js ''materializationDefinitionId'', sample_id CHR ''b'')])]"

definition sample_binding :: jsval where
  "sample_binding =
     Obj [(js ''datasetVersionId'', sample_id CHR ''a''), (js ''semanticVersionId'', sample_id CHR ''b''),
          (js ''metricVersionId'', sample_id CHR ''c'')]"

definition sample_dashboard_input :: jsval where
  "sample_dashboard_input =
     Obj [(js ''dashboardId'', sample_id CHR ''e''), (js ''versionId'', sample_id CHR ''f''),
          (js ''tenantScope'', scope_object project_scope),
          (js ''pages'', Arr [sample_page]), (js ''widgets'', Arr [sample_widget]), (js ''filters'', Arr []),
          (js ''datasetBindings'', Arr [sample_binding]), (js ''locale'', Str (js ''vi'')),
          (js ''timezone'', Str (js ''UTC'')), (js ''freshnessPolicy'', Str (js ''MANUAL'')),
          (js ''publicationPolicy'', Str (js ''REVIEWED'')), (js ''canonicalHash'', sample_hash CHR ''a''),
          (js ''createdAt'', sample_time ''01'')]"

definition sample_layout :: "layout_cell list" where
  "sample_layout = [\<lparr>cell_widgetId = uuid_of CHR ''f'', cell_x = 0, cell_y = 0, cell_w = 1, cell_h = 1\<rparr>]"

definition sample_dashboard :: dashboard_version where
  "sample_dashboard =
     \<lparr>dv_dashboardId = uuid_of CHR ''e'', dv_versionId = uuid_of CHR ''f'', dv_tenantScope = project_scope,
      dv_parentVersionId = None,
      dv_pages = [\<lparr>page_pageId = uuid_of CHR ''a'', page_order = 1, page_title = \<lparr>lt_vi = js ''T'', lt_en = js ''T''\<rparr>,
        page_desktop = sample_layout, page_tablet = sample_layout, page_mobile = sample_layout\<rparr>],
      dv_widgets = [\<lparr>widget_widgetId = uuid_of CHR ''d'', widget_type = Widget_KPI, widget_pageId = uuid_of CHR ''a'',
        widget_analysisPlanVersionId = uuid_of CHR ''a'', widget_materializationDefinitionId = uuid_of CHR ''b'',
        widget_title = \<lparr>lt_vi = js ''T'', lt_en = js ''T''\<rparr>\<rparr>],
      dv_filters = [],
      dv_datasetBindings = [\<lparr>bind_datasetVersionId = uuid_of CHR ''a'', bind_semanticVersionId = uuid_of CHR ''b'',
        bind_metricVersionId = uuid_of CHR ''c''\<rparr>],
      dv_locale = js ''vi'', dv_timezone = js ''UTC'', dv_freshnessPolicy = MANUAL, dv_publicationPolicy = REVIEWED,
      dv_canonicalHash = hash_of CHR ''a'', dv_createdAt = time_of ''01''\<rparr>"

lemma project_scope_wf [simp]: "wf_scope project_scope"
  by (simp add: project_scope_def)

lemma sample_localized: "localized sample_env sample_title = Some \<lparr>lt_vi = js ''T'', lt_en = js ''T''\<rparr>"
  by (simp add: localized_def sample_title_def plain_def)

lemma sample_layout_cells: "layoutCells sample_env sample_cells = Some sample_layout"
  by (simp add: layoutCells_def sample_cells_def array_within_def layout_cell_of_def safe_integer_from_def
      sample_layout_def max_safe_integer_def)

lemma sample_pages: "page_loop sample_env [] [sample_page] = Inr (dv_pages sample_dashboard)"
  by (simp add: sample_page_def result_simps sample_localized sample_layout_cells safe_integer_from_def
      max_safe_integer_def sample_dashboard_def)

lemma sample_widgets: "widget_loop sample_env [uuid_of CHR ''a''] [] [sample_widget] = Inr (dv_widgets sample_dashboard)"
  by (simp add: sample_widget_def result_simps sample_localized widgetTypes_def sample_dashboard_def)

lemma sample_bindings: "map_result (binding_of sample_env) [sample_binding] = Inr (dv_datasetBindings sample_dashboard)"
  by (simp add: sample_binding_def binding_of_def result_simps sample_dashboard_def)

lemma sample_dashboard_created: "createDashboardVersionV1 sample_env sample_dashboard_input = Inr sample_dashboard"
proof -
  have ids: "map page_pageId (dv_pages sample_dashboard) = [uuid_of CHR ''a'']" by (simp add: sample_dashboard_def)
  have "text_value sample_env (Str (js ''vi'')) 32 = Some (js ''vi'')"
    "text_value sample_env (Str (js ''UTC'')) 64 = Some (js ''UTC'')" by (simp_all add: plain_def)
  then show ?thesis
    using sample_pages sample_widgets sample_bindings
    by (simp add: createDashboardVersionV1_def sample_dashboard_input_def result_simps other_scope_ok_def array_within_def
        freshnessPolicies_def publicationPolicies_def ids del: map_result.simps page_loop.simps widget_loop.simps)
       (simp add: sample_dashboard_def)
qed

theorem dashboard_version_well_formed_witness: "version_ok sample_dashboard"
  by (rule dashboard_version_well_formed [OF sample_dashboard_created])

text \<open>A layout may place widgets the dashboard does not have.\<close>

lemma layout_of_missing_widget:
  "\<exists>p\<in>set (dv_pages sample_dashboard). \<exists>c\<in>set (page_desktop p).
     cell_widgetId c \<notin> widget_widgetId ` set (dv_widgets sample_dashboard)"
  by (simp add: sample_dashboard_def sample_layout_def)

definition sample_receipt_input :: jsval where
  "sample_receipt_input =
     Obj [(js ''candidateId'', sample_id CHR ''a''), (js ''tenantScope'', scope_object project_scope),
          (js ''artifactVersionId'', sample_id CHR ''b''), (js ''profileVersionId'', sample_id CHR ''c''),
          (js ''fieldCandidates'', Obj [(js ''total'', Obj [(js ''value'', Str (js ''42'')), (js ''confidence'', int_num 1)])]),
          (js ''adapterVersion'', Str (js ''1'')), (js ''evidenceReferenceId'', sample_id CHR ''d''),
          (js ''candidateHash'', sample_hash CHR ''a'')]"

lemma sample_receipt:
  "\<exists>r. createDdaReceiptCandidateV1 sample_env sample_receipt_input = Inr r
     \<and> rcp_fieldCandidates r (js ''total'') = Some \<lparr>fc_value = js ''42'', fc_confidence = 1\<rparr>"
proof -
  have "text_value sample_env (Str (js ''total'')) 64 = Some (js ''total'')"
    "text_value sample_env (Str (js ''42'')) 500 = Some (js ''42'')"
    "text_value sample_env (Str (js ''1'')) 64 = Some (js ''1'')" by (simp_all add: plain_def)
  then show ?thesis
    by (simp add: createDdaReceiptCandidateV1_def sample_receipt_input_def result_simps receipt_fields_def candidate_of_def)
qed

theorem receipt_candidate_bounds_witness:
  "\<exists>r. createDdaReceiptCandidateV1 sample_env sample_receipt_input = Inr r
     \<and> rcp_fieldCandidates r (js ''total'') = Some \<lparr>fc_value = js ''42'', fc_confidence = 1\<rparr>
     \<and> length (js ''total'') \<le> 64"
proof -
  obtain r where r: "createDdaReceiptCandidateV1 sample_env sample_receipt_input = Inr r"
    "rcp_fieldCandidates r (js ''total'') = Some \<lparr>fc_value = js ''42'', fc_confidence = 1\<rparr>"
    using sample_receipt by blast
  from receipt_candidate_bounds [OF r] r show ?thesis by blast
qed

definition unhashed_snapshot :: dashboard_snapshot where
  "unhashed_snapshot =
     \<lparr>ds_snapshotId = uuid_of CHR ''a'', ds_tenantScope = project_scope, ds_dashboardVersionId = uuid_of CHR ''f'',
      ds_materializationIds = [uuid_of CHR ''b'', uuid_of CHR ''a''], ds_inputSelectorHash = hash_of CHR ''b'',
      ds_permissionProjectionVersionId = uuid_of CHR ''c'', ds_audience = Audience_OWNER, ds_freshnessState = Fresh_FRESH,
      ds_evidenceState = Evidence_PARTIAL, ds_canonicalHash = [], ds_createdAt = time_of ''02''\<rparr>"

definition hashed :: "dashboard_snapshot \<Rightarrow> dashboard_snapshot" where
  "hashed s = s\<lparr>ds_canonicalHash := computeDashboardSnapshotHashV1 s\<rparr>"

lemma snapshot_parts_hash [simp]: "snapshot_parts (s\<lparr>ds_canonicalHash := h\<rparr>) = snapshot_parts s"
  by (simp add: snapshot_parts_def)

lemma compute_hashed [simp]:
  "computeDashboardSnapshotHashV1 (s\<lparr>ds_canonicalHash := h\<rparr>) = computeDashboardSnapshotHashV1 s"
  by (simp add: computeDashboardSnapshotHashV1_def)

lemma sample_snapshot_created:
  "createDashboardSnapshotV1 sample_env (snapshot_object (hashed unhashed_snapshot)) (Some sample_dashboard) None
     = Inr (hashed unhashed_snapshot)"
proof (rule snapshot_accepts [OF _ sample_uuid_documented])
  show "snapshot_form sample_env (hashed unhashed_snapshot)"
    by (simp add: snapshot_form_def hashed_def unhashed_snapshot_def)
  show "version_fits (ds_tenantScope (hashed unhashed_snapshot)) (ds_dashboardVersionId (hashed unhashed_snapshot))
      (Some sample_dashboard) = Inr ()"
    by (simp add: hashed_def version_fits_def result_simps unhashed_snapshot_def sample_dashboard_def)
qed (simp_all add: hashed_def)


end
