(* ===== verification/Refresh.thy ===== *)
theory Refresh
  imports "HOL-Library.AList" Dashboards Machine
begin

text \<open>
  services/api dashboard refreshes: the in-memory refresh coordinator
  (refresh/adapter/in-memory-refresh-coordinator.adapter.ts) and the orchestrator that drives it
  (refresh/application/refresh-orchestrator.service.ts). Every method of the coordinator runs without
  an await, so it is one atomic step; the orchestrator awaits between its lookup and its transition, so
  its operations take the two states it sees. The maps of the coordinator enumerate in insertion order,
  as association lists with \<open>AList.update\<close> do. Whether a snapshot's binding proof is valid is decided
  by the dashboard repository port, an argument of the operations here.
\<close>

section \<open>Data\<close>

datatype refresh_state =
    Refresh_PENDING | Refresh_RUNNING | Refresh_VERIFYING | Refresh_COMMITTED
  | Refresh_BLOCKED | Refresh_FAILED | Refresh_SUPERSEDED

datatype trigger_kind = SOURCE_EVENT | CLIENT_REQUEST | FOLDER_REPLAY

record refresh_record =
  rf_refreshId :: jsstr
  rf_tenantScope :: tenant_scope
  rf_dashboardId :: jsstr
  rf_dashboardVersionId :: jsstr
  rf_permissionProjectionVersionId :: jsstr
  rf_datasetVersionId :: jsstr
  rf_definitionIds :: "jsstr list"
  rf_inputSelectorHash :: jsstr
  rf_sourceEventIds :: "jsstr list"
  rf_clientRequestIds :: "jsstr list"
  rf_folderReplayKeys :: "jsstr list"
  rf_state :: refresh_state
  rf_revision :: int
  rf_leaseId :: "jsstr option"
  rf_debounceWindowMs :: int
  rf_openedAtMs :: int
  rf_updatedAtMs :: int

record trigger_input =
  tr_tenantScope :: tenant_scope
  tr_sourceEventId :: jsstr
  tr_dashboardId :: jsstr
  tr_dashboardVersionId :: jsstr
  tr_permissionProjectionVersionId :: jsstr
  tr_datasetVersionId :: jsstr
  tr_definitionIds :: "jsstr list"
  tr_inputSelectorHash :: jsstr
  tr_debounceWindowMs :: int
  tr_occurredAtMs :: int
  tr_clientRequestId :: jsstr
  tr_folderReplayKey :: jsstr

record reservation =
  res_record :: refresh_record
  res_idempotentReplay :: bool
  res_coalesced :: bool

record lifecycle_input =
  lc_tenantScope :: tenant_scope
  lc_refreshId :: jsstr
  lc_dashboardId :: jsstr
  lc_expectedRevision :: int
  lc_expectedState :: refresh_state
  lc_expectedLeaseId :: "jsstr option"
  lc_nextState :: refresh_state
  lc_nextLeaseId :: "jsstr option"
  lc_updatedAtMs :: int

text \<open>A snapshot with the two properties a binding proof is read from.\<close>

record carried_snapshot = dashboard_snapshot +
  ds_bindingProofVersion :: jsval
  ds_bindingProof :: jsval

record commit_input =
  cm_tenantScope :: tenant_scope
  cm_dashboardId :: jsstr
  cm_refreshId :: jsstr
  cm_expectedRevision :: int
  cm_expectedLeaseId :: jsstr
  cm_expectedInputSelectorHash :: jsstr
  cm_snapshot :: carried_snapshot

record coordinator =
  co_snapshots :: "(jsstr \<times> carried_snapshot) list"
  co_refreshes :: "(jsstr \<times> refresh_record) list"
  co_index :: "trigger_kind \<Rightarrow> jsstr \<Rightarrow> jsstr option"

datatype coordinator_error =
    SNAPSHOT_COMMIT_FAILED
  | DDA_REFRESH_SCOPE_MISMATCH
  | DDA_SNAPSHOT_BINDING_PROOF_REQUIRED
  | DDA_SNAPSHOT_BINDING_PROOF_INVALID
  | DDA_REFRESH_NOT_FOUND
  | DDA_REFRESH_COMMIT_STALE
  | DDA_REFRESH_IDEMPOTENCY_CORRUPT
  | DDA_REFRESH_LEASE_REQUIRED
  | DDA_REFRESH_TRANSITION_STALE
  | DDA_REFRESH_IDENTITY_CONFLICT
  | DDA_REFRESH_IDEMPOTENCY_CONFLICT

type_synonym proof_check = "carried_snapshot \<Rightarrow> jsval list \<Rightarrow> bool"

section \<open>Helpers\<close>

definition scopedKey :: "tenant_scope \<Rightarrow> jsstr \<Rightarrow> jsstr" where
  "scopedKey scope i = tenantScopeKeyV1 scope @ js ''|'' @ i"

fun kind_text :: "trigger_kind \<Rightarrow> string" where
  "kind_text SOURCE_EVENT = ''SOURCE_EVENT''"
| "kind_text CLIENT_REQUEST = ''CLIENT_REQUEST''"
| "kind_text FOLDER_REPLAY = ''FOLDER_REPLAY''"

definition idempotencyKey :: "tenant_scope \<Rightarrow> trigger_kind \<Rightarrow> jsstr \<Rightarrow> jsstr" where
  "idempotencyKey scope kind v = scopedKey scope (js (kind_text kind)) @ js ''|'' @ v"

definition appendUnique :: "jsstr list \<Rightarrow> jsstr \<Rightarrow> jsstr list" where
  "appendUnique vs v = (if v \<in> set vs then vs else vs @ [v])"

definition compatible :: "refresh_record \<Rightarrow> trigger_input \<Rightarrow> bool" where
  "compatible l r \<longleftrightarrow>
     rf_dashboardVersionId l = tr_dashboardVersionId r
     \<and> rf_permissionProjectionVersionId l = tr_permissionProjectionVersionId r
     \<and> rf_datasetVersionId l = tr_datasetVersionId r
     \<and> rf_definitionIds l = tr_definitionIds r"

definition openState :: "refresh_state \<Rightarrow> bool" where
  "openState s \<longleftrightarrow> s = Refresh_PENDING \<or> s = Refresh_RUNNING \<or> s = Refresh_VERIFYING"

definition staleSnapshot :: "env \<Rightarrow> carried_snapshot \<Rightarrow> carried_snapshot \<Rightarrow> bool" where
  "staleSnapshot E current next =
     (if ds_snapshotId current = ds_snapshotId next then False
      else date_less (Date_parse E (ds_createdAt next)) (Date_parse E (ds_createdAt current)))"

definition readDashboardSnapshotBindingProofV1 :: "carried_snapshot \<Rightarrow> jsval list option" where
  "readDashboardSnapshotBindingProofV1 s =
     (if \<not> is_int (ds_bindingProofVersion s) 1 then None else as_array (ds_bindingProof s))"

fun record_keys :: "refresh_record \<Rightarrow> trigger_kind \<Rightarrow> jsstr list" where
  "record_keys r SOURCE_EVENT = rf_sourceEventIds r"
| "record_keys r CLIENT_REQUEST = rf_clientRequestIds r"
| "record_keys r FOLDER_REPLAY = rf_folderReplayKeys r"

fun trigger_key :: "trigger_input \<Rightarrow> trigger_kind \<Rightarrow> jsstr" where
  "trigger_key i SOURCE_EVENT = tr_sourceEventId i"
| "trigger_key i CLIENT_REQUEST = tr_clientRequestId i"
| "trigger_key i FOLDER_REPLAY = tr_folderReplayKey i"

abbreviation trigger_kinds :: "trigger_kind list" where
  "trigger_kinds \<equiv> [SOURCE_EVENT, CLIENT_REQUEST, FOLDER_REPLAY]"

fun first_defined :: "'a option list \<Rightarrow> 'a option" where
  "first_defined [] = None"
| "first_defined (x # xs) = (case x of None \<Rightarrow> first_defined xs | Some v \<Rightarrow> Some v)"

section \<open>The coordinator\<close>

text \<open>\<open>#storeRefresh\<close>\<close>

definition conflicting :: "coordinator \<Rightarrow> refresh_record \<Rightarrow> trigger_kind \<Rightarrow> bool" where
  "conflicting st r kind \<longleftrightarrow>
     list_ex (\<lambda>v. case co_index st kind (idempotencyKey (rf_tenantScope r) kind v) of
                    None \<Rightarrow> False | Some previous \<Rightarrow> previous \<noteq> rf_refreshId r) (record_keys r kind)"

definition indexed :: "coordinator \<Rightarrow> refresh_record \<Rightarrow> trigger_kind \<Rightarrow> jsstr \<Rightarrow> jsstr option" where
  "indexed st r kind =
     foldl (\<lambda>m v. m(idempotencyKey (rf_tenantScope r) kind v \<mapsto> rf_refreshId r)) (co_index st kind)
       (record_keys r kind)"

definition refresh_key :: "refresh_record \<Rightarrow> jsstr" where
  "refresh_key r = scopedKey (rf_tenantScope r) (rf_refreshId r)"

definition stored :: "coordinator \<Rightarrow> refresh_record \<Rightarrow> coordinator" where
  "stored st r =
     st\<lparr>co_refreshes := AList.update (refresh_key r) r (co_refreshes st), co_index := indexed st r\<rparr>"

definition storeRefresh :: "coordinator \<Rightarrow> refresh_record \<Rightarrow> coordinator_error + coordinator" where
  "storeRefresh st r =
     reject_if (case map_of (co_refreshes st) (refresh_key r) of
                  None \<Rightarrow> False
                | Some existing \<Rightarrow> rf_dashboardId existing \<noteq> rf_dashboardId r
                    \<or> tenantScopeKeyV1 (rf_tenantScope existing) \<noteq> tenantScopeKeyV1 (rf_tenantScope r))
       DDA_REFRESH_IDENTITY_CONFLICT (
     reject_if (list_ex (conflicting st r) trigger_kinds) DDA_REFRESH_IDEMPOTENCY_CONFLICT (
     accepted (stored st r)))"

definition saveRefresh :: "coordinator \<Rightarrow> refresh_record \<Rightarrow> coordinator_error + coordinator" where
  "saveRefresh = storeRefresh"

definition findRefresh :: "coordinator \<Rightarrow> tenant_scope \<Rightarrow> jsstr \<Rightarrow> refresh_record option" where
  "findRefresh st scope i = map_of (co_refreshes st) (scopedKey scope i)"

definition findOpenRefresh :: "coordinator \<Rightarrow> tenant_scope \<Rightarrow> jsstr \<Rightarrow> refresh_record option" where
  "findOpenRefresh st scope dashboard =
     List.find (\<lambda>r. tenantScopeKeyV1 (rf_tenantScope r) = tenantScopeKeyV1 scope
                  \<and> rf_dashboardId r = dashboard \<and> openState (rf_state r))
       (map snd (co_refreshes st))"

definition getCurrentSnapshot :: "coordinator \<Rightarrow> tenant_scope \<Rightarrow> jsstr \<Rightarrow> carried_snapshot option" where
  "getCurrentSnapshot st scope dashboard = map_of (co_snapshots st) (scopedKey scope dashboard)"

definition findByIdempotency ::
    "coordinator \<Rightarrow> tenant_scope \<Rightarrow> (trigger_kind \<Rightarrow> jsstr option)
     \<Rightarrow> coordinator_error + refresh_record option" where
  "findByIdempotency st scope keys =
     (case first_defined (map (\<lambda>kind. case keys kind of
          None \<Rightarrow> None | Some v \<Rightarrow> co_index st kind (idempotencyKey scope kind v)) trigger_kinds) of
        None \<Rightarrow> accepted None
      | Some i \<Rightarrow>
          (case findRefresh st scope i of
             None \<Rightarrow> rejected DDA_REFRESH_IDEMPOTENCY_CORRUPT
           | Some r \<Rightarrow> accepted (Some r)))"

definition setCurrentSnapshot ::
    "proof_check \<Rightarrow> coordinator \<Rightarrow> tenant_scope \<Rightarrow> jsstr \<Rightarrow> carried_snapshot
     \<Rightarrow> coordinator_error + coordinator" where
  "setCurrentSnapshot V st scope dashboard s =
     require DDA_SNAPSHOT_BINDING_PROOF_REQUIRED (readDashboardSnapshotBindingProofV1 s) (\<lambda>p.
     reject_if (\<not> V s p) DDA_SNAPSHOT_BINDING_PROOF_INVALID (
     reject_if (tenantScopeKeyV1 scope \<noteq> tenantScopeKeyV1 (ds_tenantScope s) \<or> dashboard = [])
       DDA_REFRESH_SCOPE_MISMATCH (
     accepted (st\<lparr>co_snapshots := AList.update (scopedKey scope dashboard) s (co_snapshots st)\<rparr>))))"

definition already_committed :: "coordinator \<Rightarrow> commit_input \<Rightarrow> refresh_record \<Rightarrow> bool" where
  "already_committed st i r \<longleftrightarrow>
     rf_state r = Refresh_COMMITTED \<and> rf_revision r = js_succ (cm_expectedRevision i)
     \<and> (case getCurrentSnapshot st (cm_tenantScope i) (cm_dashboardId i) of
          None \<Rightarrow> False
        | Some current \<Rightarrow> ds_snapshotId current = ds_snapshotId (cm_snapshot i)
            \<and> ds_canonicalHash current = ds_canonicalHash (cm_snapshot i))"

definition commit_fence :: "commit_input \<Rightarrow> refresh_record \<Rightarrow> bool" where
  "commit_fence i r \<longleftrightarrow>
     rf_dashboardId r = cm_dashboardId i \<and> rf_state r = Refresh_VERIFYING
     \<and> rf_revision r = cm_expectedRevision i \<and> rf_leaseId r = Some (cm_expectedLeaseId i)
     \<and> rf_inputSelectorHash r = cm_expectedInputSelectorHash i
     \<and> ds_dashboardVersionId (cm_snapshot i) = rf_dashboardVersionId r
     \<and> ds_permissionProjectionVersionId (cm_snapshot i) = rf_permissionProjectionVersionId r
     \<and> ds_inputSelectorHash (cm_snapshot i) = cm_expectedInputSelectorHash i"

definition committed_record :: "refresh_record \<Rightarrow> refresh_record" where
  "committed_record r =
     r\<lparr>rf_state := Refresh_COMMITTED, rf_revision := js_succ (rf_revision r),
       rf_updatedAtMs := js_succ (rf_updatedAtMs r)\<rparr>"

definition commitSnapshotAtomically ::
    "env \<Rightarrow> proof_check \<Rightarrow> bool \<Rightarrow> coordinator \<Rightarrow> commit_input \<Rightarrow> coordinator_error + coordinator" where
  "commitSnapshotAtomically E V failCommit st i =
     reject_if failCommit SNAPSHOT_COMMIT_FAILED (
     reject_if (tenantScopeKeyV1 (cm_tenantScope i) \<noteq> tenantScopeKeyV1 (ds_tenantScope (cm_snapshot i)))
       DDA_REFRESH_SCOPE_MISMATCH (
     require DDA_SNAPSHOT_BINDING_PROOF_REQUIRED (readDashboardSnapshotBindingProofV1 (cm_snapshot i)) (\<lambda>p.
     reject_if (\<not> V (cm_snapshot i) p) DDA_SNAPSHOT_BINDING_PROOF_INVALID (
     require DDA_REFRESH_NOT_FOUND (findRefresh st (cm_tenantScope i) (cm_refreshId i)) (\<lambda>r.
     if already_committed st i r then accepted st
     else reject_if (\<not> commit_fence i r) DDA_REFRESH_COMMIT_STALE (
     reject_if (case getCurrentSnapshot st (cm_tenantScope i) (cm_dashboardId i) of
                  None \<Rightarrow> False | Some current \<Rightarrow> staleSnapshot E current (cm_snapshot i))
       DDA_REFRESH_COMMIT_STALE (
     accepted (st\<lparr>co_snapshots := AList.update (scopedKey (cm_tenantScope i) (cm_dashboardId i))
                    (cm_snapshot i) (co_snapshots st),
                  co_refreshes := AList.update (scopedKey (cm_tenantScope i) (cm_refreshId i))
                    (committed_record r) (co_refreshes st)\<rparr>))))))))"

definition coalesced_record :: "refresh_record \<Rightarrow> trigger_input \<Rightarrow> refresh_record" where
  "coalesced_record r i =
     r\<lparr>rf_revision := js_succ (rf_revision r), rf_inputSelectorHash := tr_inputSelectorHash i,
       rf_sourceEventIds := appendUnique (rf_sourceEventIds r) (tr_sourceEventId i),
       rf_clientRequestIds := appendUnique (rf_clientRequestIds r) (tr_clientRequestId i),
       rf_folderReplayKeys := appendUnique (rf_folderReplayKeys r) (tr_folderReplayKey i),
       rf_updatedAtMs := tr_occurredAtMs i\<rparr>"

definition superseded_record :: "refresh_record \<Rightarrow> trigger_input \<Rightarrow> refresh_record" where
  "superseded_record r i =
     r\<lparr>rf_state := Refresh_SUPERSEDED, rf_revision := js_succ (rf_revision r),
       rf_updatedAtMs := tr_occurredAtMs i\<rparr>"

text \<open>The created refresh; \<open>uuid\<close> is what \<open>randomUUID()\<close> returned.\<close>

definition created_record :: "jsstr \<Rightarrow> trigger_input \<Rightarrow> refresh_record" where
  "created_record uuid i =
     \<lparr>rf_refreshId = uuid, rf_tenantScope = tr_tenantScope i, rf_dashboardId = tr_dashboardId i,
      rf_dashboardVersionId = tr_dashboardVersionId i,
      rf_permissionProjectionVersionId = tr_permissionProjectionVersionId i,
      rf_datasetVersionId = tr_datasetVersionId i, rf_definitionIds = tr_definitionIds i,
      rf_inputSelectorHash = tr_inputSelectorHash i, rf_sourceEventIds = [tr_sourceEventId i],
      rf_clientRequestIds = [tr_clientRequestId i], rf_folderReplayKeys = [tr_folderReplayKey i],
      rf_state = Refresh_PENDING, rf_revision = 1, rf_leaseId = None,
      rf_debounceWindowMs = tr_debounceWindowMs i, rf_openedAtMs = tr_occurredAtMs i,
      rf_updatedAtMs = tr_occurredAtMs i\<rparr>"

definition within_debounce :: "refresh_record \<Rightarrow> trigger_input \<Rightarrow> bool" where
  "within_debounce r i \<longleftrightarrow>
     js_add (tr_occurredAtMs i) (- rf_openedAtMs r) \<le> rf_debounceWindowMs r"

definition fresh_reservation ::
    "jsstr \<Rightarrow> coordinator \<Rightarrow> trigger_input \<Rightarrow> coordinator_error + coordinator \<times> reservation" where
  "fresh_reservation uuid st i =
     (case findOpenRefresh st (tr_tenantScope i) (tr_dashboardId i) of
        None \<Rightarrow>
          and_then (storeRefresh st (created_record uuid i)) (\<lambda>st'.
          accepted (st', \<lparr>res_record = created_record uuid i, res_idempotentReplay = False,
                          res_coalesced = False\<rparr>))
      | Some r \<Rightarrow>
          if compatible r i \<and> within_debounce r i
          then and_then (storeRefresh st (coalesced_record r i)) (\<lambda>st'.
               accepted (st', \<lparr>res_record = coalesced_record r i, res_idempotentReplay = False,
                               res_coalesced = True\<rparr>))
          else and_then (if \<not> compatible r i then storeRefresh st (superseded_record r i)
                         else accepted st) (\<lambda>st1.
               and_then (storeRefresh st1 (created_record uuid i)) (\<lambda>st'.
               accepted (st', \<lparr>res_record = created_record uuid i, res_idempotentReplay = False,
                               res_coalesced = False\<rparr>))))"

definition reserveRefreshTrigger ::
    "jsstr \<Rightarrow> coordinator \<Rightarrow> trigger_input \<Rightarrow> coordinator_error + coordinator \<times> reservation" where
  "reserveRefreshTrigger uuid st i =
     (case first_defined (map (\<lambda>kind.
          co_index st kind (idempotencyKey (tr_tenantScope i) kind (trigger_key i kind))) trigger_kinds) of
        Some rid \<Rightarrow>
          (case findRefresh st (tr_tenantScope i) rid of
             None \<Rightarrow> rejected DDA_REFRESH_IDEMPOTENCY_CORRUPT
           | Some r \<Rightarrow> accepted (st, \<lparr>res_record = r, res_idempotentReplay = True,
                                       res_coalesced = False\<rparr>))
      | None \<Rightarrow> fresh_reservation uuid st i)"

definition transitioned_record :: "refresh_record \<Rightarrow> lifecycle_input \<Rightarrow> refresh_record" where
  "transitioned_record r i =
     r\<lparr>rf_state := lc_nextState i, rf_revision := js_succ (rf_revision r),
       rf_leaseId := lc_nextLeaseId i, rf_updatedAtMs := lc_updatedAtMs i\<rparr>"

definition transitionRefresh ::
    "coordinator \<Rightarrow> lifecycle_input \<Rightarrow> coordinator_error + coordinator \<times> refresh_record" where
  "transitionRefresh st i =
     reject_if (lc_nextState i \<in> {Refresh_RUNNING, Refresh_VERIFYING} \<and> lc_nextLeaseId i = None)
       DDA_REFRESH_LEASE_REQUIRED (
     require DDA_REFRESH_TRANSITION_STALE (findRefresh st (lc_tenantScope i) (lc_refreshId i)) (\<lambda>r.
     reject_if (rf_dashboardId r \<noteq> lc_dashboardId i \<or> rf_revision r \<noteq> lc_expectedRevision i
                \<or> rf_state r \<noteq> lc_expectedState i \<or> rf_leaseId r \<noteq> lc_expectedLeaseId i)
       DDA_REFRESH_TRANSITION_STALE (
     and_then (storeRefresh st (transitioned_record r i)) (\<lambda>st'.
     accepted (st', transitioned_record r i)))))"

section \<open>The orchestrator\<close>

record acceptance =
  acc_refreshId :: jsstr
  acc_state :: refresh_state
  acc_inputSelectorHash :: jsstr
  acc_sourceEventIds :: "jsstr list"
  acc_idempotentReplay :: bool
  acc_coalesced :: bool

datatype orchestrator_code = REFRESH_NOT_FOUND | LEASE_MISMATCH | REFRESH_LEASE_REQUIRED

definition toAcceptance :: "refresh_record \<Rightarrow> bool \<Rightarrow> bool \<Rightarrow> acceptance" where
  "toAcceptance r replay coalesced =
     \<lparr>acc_refreshId = rf_refreshId r, acc_state = rf_state r,
      acc_inputSelectorHash = rf_inputSelectorHash r, acc_sourceEventIds = rf_sourceEventIds r,
      acc_idempotentReplay = replay, acc_coalesced = coalesced\<rparr>"

text \<open>
  The outcome of an orchestrator call: a refusal with its code, or the coordinator's new state and
  the acceptance; an error of the coordinator is thrown to the caller.
\<close>

type_synonym orchestrated = "coordinator_error + (orchestrator_code + coordinator \<times> acceptance)"

definition acceptTrigger :: "jsstr \<Rightarrow> coordinator \<Rightarrow> trigger_input \<Rightarrow> orchestrated" where
  "acceptTrigger uuid st i =
     and_then (reserveRefreshTrigger uuid st i) (\<lambda>(st', res).
     accepted (accepted (st', toAcceptance (res_record res) (res_idempotentReplay res) (res_coalesced res))))"

definition run_transition :: "coordinator \<Rightarrow> lifecycle_input \<Rightarrow> orchestrated" where
  "run_transition st i =
     and_then (transitionRefresh st i) (\<lambda>(st', r). accepted (accepted (st', toAcceptance r False False)))"

text \<open>The transition asked for a refresh as it was read.\<close>

definition transition_of ::
    "refresh_record \<Rightarrow> tenant_scope \<Rightarrow> jsstr \<Rightarrow> refresh_state \<Rightarrow> jsstr option \<Rightarrow> lifecycle_input" where
  "transition_of r scope rid q lease =
     \<lparr>lc_tenantScope = scope, lc_refreshId = rid, lc_dashboardId = rf_dashboardId r,
      lc_expectedRevision = rf_revision r, lc_expectedState = rf_state r,
      lc_expectedLeaseId = rf_leaseId r, lc_nextState = q, lc_nextLeaseId = lease,
      lc_updatedAtMs = js_succ (rf_updatedAtMs r)\<rparr>"

definition markRunning :: "coordinator \<Rightarrow> coordinator \<Rightarrow> tenant_scope \<Rightarrow> jsstr \<Rightarrow> jsstr \<Rightarrow> orchestrated" where
  "markRunning seen st scope rid lease =
     (case findRefresh seen scope rid of
        None \<Rightarrow> accepted (rejected REFRESH_NOT_FOUND)
      | Some r \<Rightarrow> run_transition st (transition_of r scope rid Refresh_RUNNING (Some lease)))"

definition handleLeaseExpiry ::
    "coordinator \<Rightarrow> coordinator \<Rightarrow> tenant_scope \<Rightarrow> jsstr \<Rightarrow> jsstr \<Rightarrow> orchestrated" where
  "handleLeaseExpiry seen st scope rid lease =
     (case findRefresh seen scope rid of
        None \<Rightarrow> accepted (rejected REFRESH_NOT_FOUND)
      | Some r \<Rightarrow>
          if rf_leaseId r \<noteq> Some lease then accepted (rejected LEASE_MISMATCH)
          else run_transition st (transition_of r scope rid Refresh_PENDING None))"

datatype checkpoint = AFTER_JOB_DISPATCH | AFTER_RESULT_VERIFICATION | DURING_SNAPSHOT_COMMIT

definition recovery_state :: "checkpoint \<Rightarrow> refresh_state" where
  "recovery_state c =
     (if c = AFTER_JOB_DISPATCH then Refresh_RUNNING
      else if c = AFTER_RESULT_VERIFICATION then Refresh_VERIFYING else Refresh_FAILED)"

definition recoverAfterCrash ::
    "coordinator \<Rightarrow> coordinator \<Rightarrow> tenant_scope \<Rightarrow> jsstr \<Rightarrow> checkpoint \<Rightarrow> jsstr option \<Rightarrow> orchestrated" where
  "recoverAfterCrash seen st scope rid c lease =
     (case findRefresh seen scope rid of
        None \<Rightarrow> accepted (rejected REFRESH_NOT_FOUND)
      | Some r \<Rightarrow>
          let q = recovery_state c;
              leased = q = Refresh_RUNNING \<or> q = Refresh_VERIFYING;
              next = (if leased then (if lease = None then rf_leaseId r else lease) else None)
          in if leased \<and> next = None then accepted (rejected REFRESH_LEASE_REQUIRED)
             else run_transition st (transition_of r scope rid q next))"

section \<open>Runs\<close>

definition empty_coordinator :: coordinator where
  "empty_coordinator = \<lparr>co_snapshots = [], co_refreshes = [], co_index = (\<lambda>_ _. None)\<rparr>"

text \<open>\<open>randomUUID()\<close> never returns an identifier that is in use.\<close>

inductive lifecycle_step :: "env \<Rightarrow> proof_check \<Rightarrow> coordinator \<Rightarrow> coordinator \<Rightarrow> bool" for E V where
  reserve: "reserveRefreshTrigger uuid st i = Inr (st', res) \<Longrightarrow>
    findRefresh st (tr_tenantScope i) uuid = None \<Longrightarrow> lifecycle_step E V st st'"
| transition: "transitionRefresh st j = Inr (st', r) \<Longrightarrow> lifecycle_step E V st st'"
| commit: "commitSnapshotAtomically E V failCommit st c = Inr st' \<Longrightarrow> lifecycle_step E V st st'"
| publish: "setCurrentSnapshot V st scope dashboard s = Inr st' \<Longrightarrow> lifecycle_step E V st st'"

text \<open>With records saved from elsewhere.\<close>

inductive coordinator_step :: "env \<Rightarrow> proof_check \<Rightarrow> coordinator \<Rightarrow> coordinator \<Rightarrow> bool" for E V where
  lifecycle: "lifecycle_step E V st st' \<Longrightarrow> coordinator_step E V st st'"
| save: "saveRefresh st r = Inr st' \<Longrightarrow> coordinator_step E V st st'"

section \<open>Facts about the store\<close>

definition indexed_by :: "coordinator \<Rightarrow> refresh_record \<Rightarrow> bool" where
  "indexed_by st r \<longleftrightarrow>
     (\<forall>kind. \<forall>v \<in> set (record_keys r kind).
        co_index st kind (idempotencyKey (rf_tenantScope r) kind v) = Some (rf_refreshId r))"

definition co_ok :: "coordinator \<Rightarrow> bool" where
  "co_ok st \<longleftrightarrow> distinct (map fst (co_refreshes st))
     \<and> (\<forall>k r. map_of (co_refreshes st) k = Some r \<longrightarrow> k = refresh_key r \<and> indexed_by st r)"

text \<open>The refresh is the same one, whatever happened to its state.\<close>

definition same_refresh :: "refresh_record \<Rightarrow> refresh_record \<Rightarrow> bool" where
  "same_refresh r r' \<longleftrightarrow> rf_refreshId r' = rf_refreshId r \<and> rf_dashboardId r' = rf_dashboardId r
     \<and> tenantScopeKeyV1 (rf_tenantScope r') = tenantScopeKeyV1 (rf_tenantScope r)"

definition co_extends :: "coordinator \<Rightarrow> coordinator \<Rightarrow> bool" where
  "co_extends st st' \<longleftrightarrow>
     (\<forall>kind k v. co_index st kind k = Some v \<longrightarrow> co_index st' kind k = Some v)
     \<and> (\<forall>k r. map_of (co_refreshes st) k = Some r \<longrightarrow>
          (\<exists>r'. map_of (co_refreshes st') k = Some r' \<and> same_refresh r r'))"

lemma co_extends_refl: "co_extends st st"
  by (auto simp: co_extends_def same_refresh_def)

lemma co_extends_trans:
  assumes "co_extends a b" "co_extends b c"
  shows "co_extends a c"
  unfolding co_extends_def
proof (intro conjI allI impI)
  show "co_index c kind k = Some v" if "co_index a kind k = Some v" for kind k v
    using that assms by (simp add: co_extends_def)
  fix k r
  assume "map_of (co_refreshes a) k = Some r"
  with assms(1) obtain r1 where "map_of (co_refreshes b) k = Some r1" and s1: "same_refresh r r1"
    unfolding co_extends_def by blast
  with assms(2) obtain r2 where "map_of (co_refreshes c) k = Some r2" "same_refresh r1 r2"
    unfolding co_extends_def by blast
  with s1 show "\<exists>r'. map_of (co_refreshes c) k = Some r' \<and> same_refresh r r'"
    by (auto simp: same_refresh_def)
qed

lemma indexed_apply:
  "indexed st r kind k =
     (if k \<in> idempotencyKey (rf_tenantScope r) kind ` set (record_keys r kind)
      then Some (rf_refreshId r) else co_index st kind k)"
proof -
  have fold: "foldl (\<lambda>m v. m(f v \<mapsto> x)) m vs k = (if k \<in> f ` set vs then Some x else m k)"
    for f :: "jsstr \<Rightarrow> jsstr" and x :: jsstr and m and vs :: "jsstr list"
    by (induction vs arbitrary: m) auto
  show ?thesis unfolding indexed_def by (rule fold)
qed

lemma stored_fields [simp]:
  "co_snapshots (stored st r) = co_snapshots st"
  "map_of (co_refreshes (stored st r)) = (map_of (co_refreshes st))(refresh_key r \<mapsto> r)"
  "co_index (stored st r) = indexed st r"
  by (simp_all add: stored_def update_conv' del: fun_upd_apply)

lemma kind_exhaust: "kind = SOURCE_EVENT \<or> kind = CLIENT_REQUEST \<or> kind = FOLDER_REPLAY"
  by (cases kind) simp_all

lemma some_kind: "list_ex P trigger_kinds \<longleftrightarrow> (\<exists>kind. P kind)"
  unfolding list_ex_iff using kind_exhaust by (metis list.set_intros(1,2))

lemma store_iff:
  "storeRefresh st r = Inr st' \<longleftrightarrow>
     st' = stored st r
     \<and> (\<forall>x. map_of (co_refreshes st) (refresh_key r) = Some x \<longrightarrow>
          rf_dashboardId x = rf_dashboardId r
          \<and> tenantScopeKeyV1 (rf_tenantScope x) = tenantScopeKeyV1 (rf_tenantScope r))
     \<and> (\<forall>kind. \<forall>v \<in> set (record_keys r kind).
          co_index st kind (idempotencyKey (rf_tenantScope r) kind v) \<in> {None, Some (rf_refreshId r)})"
proof -
  have c: "\<not> conflicting st r kind \<longleftrightarrow> (\<forall>v \<in> set (record_keys r kind).
      co_index st kind (idempotencyKey (rf_tenantScope r) kind v) \<in> {None, Some (rf_refreshId r)})" for kind
  proof -
    have "(case x of None \<Rightarrow> False | Some previous \<Rightarrow> previous \<noteq> rid) \<longleftrightarrow> x \<notin> {None, Some rid}"
      for x :: "jsstr option" and rid by (cases x) auto
    then show ?thesis unfolding conflicting_def list_ex_iff by blast
  qed
  then have "\<not> list_ex (conflicting st r) trigger_kinds \<longleftrightarrow> (\<forall>kind. \<forall>v \<in> set (record_keys r kind).
      co_index st kind (idempotencyKey (rf_tenantScope r) kind v) \<in> {None, Some (rf_refreshId r)})"
    unfolding some_kind by blast
  then show ?thesis
    unfolding storeRefresh_def result_simps by (auto split: option.splits)
qed

lemma store_facts:
  assumes "storeRefresh st r = Inr st'" "co_ok st"
  shows "co_ok st'" "co_extends st st'" "st' = stored st r" "indexed_by st' r"
    "map_of (co_refreshes st') (refresh_key r) = Some r"
proof -
  have st': "st' = stored st r"
    and same: "\<And>x. map_of (co_refreshes st) (refresh_key r) = Some x \<Longrightarrow>
        rf_dashboardId x = rf_dashboardId r
        \<and> tenantScopeKeyV1 (rf_tenantScope x) = tenantScopeKeyV1 (rf_tenantScope r)"
    and free: "\<And>kind v. v \<in> set (record_keys r kind) \<Longrightarrow>
        co_index st kind (idempotencyKey (rf_tenantScope r) kind v) \<in> {None, Some (rf_refreshId r)}"
    using assms(1) unfolding store_iff by blast+
  have keep: "co_index st' kind k = Some v" if "co_index st kind k = Some v" for kind k v
    using that free by (force simp: st' indexed_apply)
  show i: "indexed_by st' r" by (simp add: st' indexed_by_def indexed_apply)
  show "map_of (co_refreshes st') (refresh_key r) = Some r" by (simp add: st')
  show "st' = stored st r" by (rule st')
  have "distinct (map fst (co_refreshes st'))"
    using assms(2) distinct_update [of "co_refreshes st" "refresh_key r" r] by (simp add: st' stored_def co_ok_def)
  moreover have "k = refresh_key x \<and> indexed_by st' x" if "map_of (co_refreshes st') k = Some x" for k x
  proof (cases "k = refresh_key r")
    case True
    with that i show ?thesis by (simp add: st')
  next
    case False
    with that assms(2) have "k = refresh_key x" "indexed_by st x" by (auto simp: st' co_ok_def)
    with keep show ?thesis by (simp add: indexed_by_def)
  qed
  ultimately show "co_ok st'" by (simp add: co_ok_def)
  have "\<exists>x'. map_of (co_refreshes st') k = Some x' \<and> same_refresh x x'"
    if x: "map_of (co_refreshes st) k = Some x" for k x
  proof (cases "k = refresh_key r")
    case True
    with x same have e: "rf_dashboardId x = rf_dashboardId r"
      "tenantScopeKeyV1 (rf_tenantScope x) = tenantScopeKeyV1 (rf_tenantScope r)" by blast+
    from x assms(2) True have "refresh_key x = refresh_key r" by (simp add: co_ok_def)
    with e have "rf_refreshId x = rf_refreshId r" by (simp add: refresh_key_def scopedKey_def)
    with e True show ?thesis by (simp add: st' same_refresh_def)
  next
    case False
    with x show ?thesis by (simp add: st' same_refresh_def)
  qed
  with keep show "co_extends st st'" by (simp add: co_extends_def)
qed

lemma found_refresh:
  assumes "findRefresh st scope rid = Some r" "co_ok st"
  shows "refresh_key r = scopedKey scope rid" "indexed_by st r"
  using assms by (auto simp: findRefresh_def co_ok_def)

lemma found_open:
  assumes "findOpenRefresh st scope dashboard = Some r" "co_ok st"
  shows "map_of (co_refreshes st) (refresh_key r) = Some r" "indexed_by st r"
    "tenantScopeKeyV1 (rf_tenantScope r) = tenantScopeKeyV1 scope" "rf_dashboardId r = dashboard"
    "openState (rf_state r)"
proof -
  from find_SomeD [OF assms(1) [unfolded findOpenRefresh_def]] obtain k where
    k: "(k, r) \<in> set (co_refreshes st)" and f: "tenantScopeKeyV1 (rf_tenantScope r) = tenantScopeKeyV1 scope"
    "rf_dashboardId r = dashboard" "openState (rf_state r)" by auto
  with assms(2) have m: "map_of (co_refreshes st) k = Some r" by (simp add: co_ok_def)
  with assms(2) have "k = refresh_key r" "indexed_by st r" by (auto simp: co_ok_def)
  with m f show "map_of (co_refreshes st) (refresh_key r) = Some r" "indexed_by st r"
    "tenantScopeKeyV1 (rf_tenantScope r) = tenantScopeKeyV1 scope" "rf_dashboardId r = dashboard"
    "openState (rf_state r)" by simp_all
qed

lemma fresh_reservation_facts:
  assumes "fresh_reservation uuid st i = Inr (st', res)" "co_ok st"
  shows "co_ok st'" "co_extends st st'" "\<not> res_idempotentReplay res"
    "map_of (co_refreshes st') (refresh_key (res_record res)) = Some (res_record res)"
    "indexed_by st' (res_record res)"
    "tenantScopeKeyV1 (rf_tenantScope (res_record res)) = tenantScopeKeyV1 (tr_tenantScope i)"
    "rf_dashboardId (res_record res) = tr_dashboardId i"
    "\<And>kind. trigger_key i kind \<in> set (record_keys (res_record res) kind)"
proof -
  have created: "co_ok st' \<and> co_extends st st' \<and> \<not> res_idempotentReplay res
      \<and> map_of (co_refreshes st') (refresh_key (res_record res)) = Some (res_record res)
      \<and> indexed_by st' (res_record res)
      \<and> tenantScopeKeyV1 (rf_tenantScope (res_record res)) = tenantScopeKeyV1 (tr_tenantScope i)
      \<and> rf_dashboardId (res_record res) = tr_dashboardId i
      \<and> (\<forall>kind. trigger_key i kind \<in> set (record_keys (res_record res) kind))"
    if "storeRefresh st1 (created_record uuid i) = Inr st'" "co_ok st1" "co_extends st st1"
      "res = \<lparr>res_record = created_record uuid i, res_idempotentReplay = False, res_coalesced = False\<rparr>" for st1
  proof -
    have "trigger_key i kind \<in> set (record_keys (created_record uuid i) kind)" for kind
      by (cases kind) (simp_all add: created_record_def)
    moreover have "rf_tenantScope (created_record uuid i) = tr_tenantScope i"
      "rf_dashboardId (created_record uuid i) = tr_dashboardId i" by (simp_all add: created_record_def)
    ultimately show ?thesis using store_facts [OF that(1,2)] that(3,4) co_extends_trans by auto
  qed
  have "co_ok st' \<and> co_extends st st' \<and> \<not> res_idempotentReplay res
      \<and> map_of (co_refreshes st') (refresh_key (res_record res)) = Some (res_record res)
      \<and> indexed_by st' (res_record res)
      \<and> tenantScopeKeyV1 (rf_tenantScope (res_record res)) = tenantScopeKeyV1 (tr_tenantScope i)
      \<and> rf_dashboardId (res_record res) = tr_dashboardId i
      \<and> (\<forall>kind. trigger_key i kind \<in> set (record_keys (res_record res) kind))"
  proof (cases "findOpenRefresh st (tr_tenantScope i) (tr_dashboardId i)")
    case None
    with assms(1) created [OF _ assms(2) co_extends_refl] show ?thesis
      by (auto simp: fresh_reservation_def result_simps)
  next
    case (Some r)
    note o = found_open [OF Some assms(2)]
    show ?thesis
    proof (cases "compatible r i \<and> within_debounce r i")
      case True
      with assms(1) Some have s: "storeRefresh st (coalesced_record r i) = Inr st'"
        "res = \<lparr>res_record = coalesced_record r i, res_idempotentReplay = False, res_coalesced = True\<rparr>"
        by (auto simp: fresh_reservation_def result_simps)
      have "trigger_key i kind \<in> set (record_keys (coalesced_record r i) kind)" for kind
        by (cases kind) (simp_all add: coalesced_record_def appendUnique_def)
      moreover have "rf_tenantScope (coalesced_record r i) = rf_tenantScope r"
        "rf_dashboardId (coalesced_record r i) = rf_dashboardId r" by (simp_all add: coalesced_record_def)
      ultimately show ?thesis using store_facts [OF s(1) assms(2)] s(2) o(3,4) by auto
    next
      case False
      with assms(1) Some obtain st1 where s:
        "(if \<not> compatible r i then storeRefresh st (superseded_record r i) else accepted st) = Inr st1"
        "storeRefresh st1 (created_record uuid i) = Inr st'"
        "res = \<lparr>res_record = created_record uuid i, res_idempotentReplay = False, res_coalesced = False\<rparr>"
        unfolding fresh_reservation_def Some option.case if_not_P [OF False] result_simps by blast
      have "co_ok st1 \<and> co_extends st st1"
        using s(1) assms(2) store_facts(1,2) co_extends_refl by (metis Inr_inject)
      with created [OF s(2) _ _ s(3)] show ?thesis by blast
    qed
  qed
  then show "co_ok st'" "co_extends st st'" "\<not> res_idempotentReplay res"
    "map_of (co_refreshes st') (refresh_key (res_record res)) = Some (res_record res)"
    "indexed_by st' (res_record res)"
    "tenantScopeKeyV1 (rf_tenantScope (res_record res)) = tenantScopeKeyV1 (tr_tenantScope i)"
    "rf_dashboardId (res_record res) = tr_dashboardId i"
    "\<And>kind. trigger_key i kind \<in> set (record_keys (res_record res) kind)"
    by blast+
qed

lemma first_defined_Some:
  "first_defined xs = Some v \<Longrightarrow> Some v \<in> set xs"
  by (induction xs) (auto split: option.splits)

lemma reserve_cases [consumes 1, case_names replay fresh]:
  assumes "reserveRefreshTrigger uuid st i = Inr (st', res)"
  obtains (replay) "st' = st" "res_idempotentReplay res"
  | (fresh) "fresh_reservation uuid st i = Inr (st', res)"
  using assms by (auto simp: reserveRefreshTrigger_def split: option.splits)

lemma refresh_transition_iff:
  "transitionRefresh st i = Inr (st', t) \<longleftrightarrow>
     \<not> (lc_nextState i \<in> {Refresh_RUNNING, Refresh_VERIFYING} \<and> lc_nextLeaseId i = None)
     \<and> (\<exists>r. findRefresh st (lc_tenantScope i) (lc_refreshId i) = Some r
          \<and> rf_dashboardId r = lc_dashboardId i \<and> rf_revision r = lc_expectedRevision i
          \<and> rf_state r = lc_expectedState i \<and> rf_leaseId r = lc_expectedLeaseId i
          \<and> t = transitioned_record r i \<and> storeRefresh st t = Inr st')"
  unfolding transitionRefresh_def result_simps prod.inject sum.inject by blast

definition committed_state :: "coordinator \<Rightarrow> commit_input \<Rightarrow> refresh_record \<Rightarrow> coordinator" where
  "committed_state st i r =
     st\<lparr>co_snapshots := AList.update (scopedKey (cm_tenantScope i) (cm_dashboardId i))
          (cm_snapshot i) (co_snapshots st),
        co_refreshes := AList.update (scopedKey (cm_tenantScope i) (cm_refreshId i))
          (committed_record r) (co_refreshes st)\<rparr>"

lemma commit_cases [consumes 1, case_names found]:
  assumes "commitSnapshotAtomically E V f st i = Inr st'"
  obtains (found) r where "findRefresh st (cm_tenantScope i) (cm_refreshId i) = Some r"
    "already_committed st i r \<and> st' = st
     \<or> \<not> already_committed st i r \<and> commit_fence i r \<and> st' = committed_state st i r"
  using assms unfolding commitSnapshotAtomically_def result_simps committed_state_def
  by (auto simp: result_simps split: if_splits)

lemma committed_state_fields [simp]:
  "map_of (co_refreshes (committed_state st i r))
     = (map_of (co_refreshes st))(scopedKey (cm_tenantScope i) (cm_refreshId i) \<mapsto> committed_record r)"
  "map_of (co_snapshots (committed_state st i r))
     = (map_of (co_snapshots st))(scopedKey (cm_tenantScope i) (cm_dashboardId i) \<mapsto> cm_snapshot i)"
  "co_index (committed_state st i r) = co_index st"
  by (simp_all add: committed_state_def update_conv' del: fun_upd_apply)

lemma committed_record_fields [simp]:
  "rf_refreshId (committed_record r) = rf_refreshId r" "rf_dashboardId (committed_record r) = rf_dashboardId r"
  "rf_tenantScope (committed_record r) = rf_tenantScope r" "rf_state (committed_record r) = Refresh_COMMITTED"
  "rf_revision (committed_record r) = js_succ (rf_revision r)"
  "record_keys (committed_record r) = record_keys r" "refresh_key (committed_record r) = refresh_key r"
proof -
  have "record_keys (committed_record r) kind = record_keys r kind" for kind
    by (cases kind) (simp_all add: committed_record_def)
  then show "record_keys (committed_record r) = record_keys r" by blast
qed (simp_all add: committed_record_def refresh_key_def)

lemma committed_state_ok:
  assumes "findRefresh st (cm_tenantScope i) (cm_refreshId i) = Some r" "co_ok st"
  shows "co_ok (committed_state st i r)" "co_extends st (committed_state st i r)"
proof -
  note f = found_refresh [OF assms]
  let ?st' = "committed_state st i r" and ?k = "scopedKey (cm_tenantScope i) (cm_refreshId i)"
  have "distinct (map fst (co_refreshes ?st'))"
    using assms(2) distinct_update [of "co_refreshes st" ?k "committed_record r"]
    by (simp add: committed_state_def co_ok_def)
  moreover have "k = refresh_key x \<and> indexed_by ?st' x" if "map_of (co_refreshes ?st') k = Some x" for k x
  proof (cases "k = ?k")
    case True
    with that f show ?thesis by (auto simp: indexed_by_def)
  next
    case False
    with that assms(2) have "k = refresh_key x" "indexed_by st x" by (auto simp: co_ok_def)
    then show ?thesis by (simp add: indexed_by_def)
  qed
  ultimately show "co_ok ?st'" by (simp add: co_ok_def)
  from assms(1) show "co_extends st ?st'"
    by (auto simp: co_extends_def same_refresh_def findRefresh_def)
qed

lemma lifecycle_ok:
  assumes "lifecycle_step E V st st'" "co_ok st"
  shows "co_ok st' \<and> co_extends st st'"
  using assms(1)
proof cases
  case (reserve uuid i res)
  from reserve(1) show ?thesis
  proof (cases rule: reserve_cases)
    case replay
    with assms(2) co_extends_refl show ?thesis by simp
  next
    case fresh
    from fresh_reservation_facts(1,2) [OF this assms(2)] show ?thesis by blast
  qed
next
  case (transition j r)
  then have "storeRefresh st r = Inr st'" unfolding refresh_transition_iff by blast
  from store_facts(1,2) [OF this assms(2)] show ?thesis by blast
next
  case (commit f c)
  then show ?thesis
  proof (cases rule: commit_cases)
    case (found r)
    with committed_state_ok [OF found(1) assms(2)] assms(2) co_extends_refl show ?thesis by metis
  qed
next
  case (publish scope dashboard s)
  then have "co_refreshes st' = co_refreshes st" "co_index st' = co_index st"
    by (auto simp: setCurrentSnapshot_def result_simps)
  with assms(2) show ?thesis by (auto simp: co_ok_def co_extends_def indexed_by_def same_refresh_def)
qed

lemma coordinator_step_ok:
  assumes "coordinator_step E V st st'" "co_ok st"
  shows "co_ok st' \<and> co_extends st st'"
  using assms(1)
proof cases
  case lifecycle
  from lifecycle_ok [OF this assms(2)] show ?thesis .
next
  case (save r)
  then have "storeRefresh st r = Inr st'" by (simp add: saveRefresh_def)
  from store_facts(1,2) [OF this assms(2)] show ?thesis by blast
qed

lemma coordinator_run_ok:
  "(coordinator_step E V)\<^sup>*\<^sup>* st st' \<Longrightarrow> co_ok st \<Longrightarrow> co_ok st' \<and> co_extends st st'"
proof (induction rule: rtranclp_induct)
  case base
  then show ?case by (simp add: co_extends_refl)
next
  case (step t u)
  then show ?case using coordinator_step_ok co_extends_trans by blast
qed

lemma empty_ok: "co_ok empty_coordinator"
  by (simp add: co_ok_def empty_coordinator_def)

lemma lifecycle_run: "(lifecycle_step E V)\<^sup>*\<^sup>* st st' \<Longrightarrow> (coordinator_step E V)\<^sup>*\<^sup>* st st'"
  by (induction rule: rtranclp_induct) (auto intro: coordinator_step.lifecycle rtranclp.rtrancl_into_rtrancl)

section \<open>Revisions\<close>

definition revisions_ok :: "coordinator \<Rightarrow> bool" where
  "revisions_ok st \<longleftrightarrow> (\<forall>k r. map_of (co_refreshes st) k = Some r \<longrightarrow>
     1 \<le> rf_revision r \<and> rf_revision r \<le> 9007199254740992)"

definition revisions_grow :: "coordinator \<Rightarrow> coordinator \<Rightarrow> bool" where
  "revisions_grow st st' \<longleftrightarrow> (\<forall>k r. map_of (co_refreshes st) k = Some r \<longrightarrow>
     (\<exists>r'. map_of (co_refreshes st') k = Some r' \<and> rf_revision r \<le> rf_revision r'))"

lemma revisions_grow_refl: "revisions_grow st st"
  by (auto simp: revisions_grow_def)

lemma revisions_grow_trans: "revisions_grow a b \<Longrightarrow> revisions_grow b c \<Longrightarrow> revisions_grow a c"
  unfolding revisions_grow_def by (meson order_trans)

lemma js_succ_grows: "1 \<le> n \<Longrightarrow> n \<le> 9007199254740992 \<Longrightarrow> n \<le> js_succ n"
proof (cases "n = 9007199254740992")
  case True
  have "js_succ 9007199254740992 = 9007199254740992" by code_simp
  with True show ?thesis by simp
qed (simp add: js_add_exact)

text \<open>Writing a record that succeeds the one in its place, or a first one.\<close>

definition succeeds :: "coordinator \<Rightarrow> jsstr \<Rightarrow> refresh_record \<Rightarrow> bool" where
  "succeeds st k t \<longleftrightarrow>
     (case map_of (co_refreshes st) k of
        None \<Rightarrow> rf_revision t = 1 | Some r \<Rightarrow> rf_revision t = js_succ (rf_revision r))"

lemma write_grows:
  assumes "map_of (co_refreshes st') = (map_of (co_refreshes st))(k \<mapsto> t)" "succeeds st k t" "revisions_ok st"
  shows "revisions_ok st'" "revisions_grow st st'"
proof -
  have t: "1 \<le> rf_revision t \<and> rf_revision t \<le> 9007199254740992"
    using assms(2,3) js_succ_bounds by (auto simp: succeeds_def revisions_ok_def split: option.splits)
  with assms(1,3) show "revisions_ok st'" by (auto simp: revisions_ok_def)
  show "revisions_grow st st'"
    unfolding revisions_grow_def assms(1)
  proof (intro allI impI)
    fix j r
    assume r: "map_of (co_refreshes st) j = Some r"
    with assms(3) have b: "1 \<le> rf_revision r" "rf_revision r \<le> 9007199254740992"
      unfolding revisions_ok_def by blast+
    show "\<exists>r'. ((map_of (co_refreshes st))(k \<mapsto> t)) j = Some r' \<and> rf_revision r \<le> rf_revision r'"
      using r assms(2) js_succ_grows [OF b] by (auto simp: succeeds_def)
  qed
qed

lemma fresh_reservation_stores [consumes 1, case_names coalesce create]:
  assumes "fresh_reservation uuid st i = Inr (st', res)"
  obtains (coalesce) r where "findOpenRefresh st (tr_tenantScope i) (tr_dashboardId i) = Some r"
    "storeRefresh st (coalesced_record r i) = Inr st'"
  | (create) st1 where "st1 = st \<or> (\<exists>r. findOpenRefresh st (tr_tenantScope i) (tr_dashboardId i) = Some r
      \<and> storeRefresh st (superseded_record r i) = Inr st1)" "storeRefresh st1 (created_record uuid i) = Inr st'"
proof (cases "findOpenRefresh st (tr_tenantScope i) (tr_dashboardId i)")
  case None
  with assms create show thesis by (auto simp: fresh_reservation_def result_simps)
next
  case (Some r)
  show thesis
  proof (cases "compatible r i \<and> within_debounce r i")
    case True
    with assms Some coalesce show thesis by (auto simp: fresh_reservation_def result_simps)
  next
    case False
    with assms obtain st1 where
      "(if \<not> compatible r i then storeRefresh st (superseded_record r i) else accepted st) = Inr st1"
      "storeRefresh st1 (created_record uuid i) = Inr st'"
      unfolding fresh_reservation_def Some option.case if_not_P [OF False] result_simps by blast
    with create [of st1] Some show thesis by (auto split: if_splits)
  qed
qed

lemma record_shapes [simp]:
  "refresh_key (coalesced_record r i) = refresh_key r" "refresh_key (superseded_record r i) = refresh_key r"
  "refresh_key (transitioned_record r j) = refresh_key r"
  "rf_revision (coalesced_record r i) = js_succ (rf_revision r)"
  "rf_revision (superseded_record r i) = js_succ (rf_revision r)"
  "rf_revision (transitioned_record r j) = js_succ (rf_revision r)"
  "refresh_key (created_record uuid i) = scopedKey (tr_tenantScope i) uuid"
  "rf_revision (created_record uuid i) = 1"
  by (simp_all add: coalesced_record_def superseded_record_def transitioned_record_def
      created_record_def refresh_key_def)

lemma store_grows:
  assumes "storeRefresh st t = Inr st'" "succeeds st (refresh_key t) t" "revisions_ok st"
  shows "revisions_ok st' \<and> revisions_grow st st'"
proof -
  from assms(1) have "map_of (co_refreshes st') = (map_of (co_refreshes st))(refresh_key t \<mapsto> t)"
    unfolding store_iff by simp
  from write_grows [OF this assms(2,3)] show ?thesis by blast
qed

lemma fresh_reservation_grows:
  assumes "fresh_reservation uuid st i = Inr (st', res)" "co_ok st" "revisions_ok st"
    and unused: "findRefresh st (tr_tenantScope i) uuid = None"
  shows "revisions_ok st' \<and> revisions_grow st st'"
  using assms(1)
proof (cases rule: fresh_reservation_stores)
  case (coalesce r)
  with found_open(1) [OF coalesce(1) assms(2)] assms(3) show ?thesis
    by (intro store_grows) (auto simp: succeeds_def)
next
  case (create st1)
  have 1: "revisions_ok st1 \<and> revisions_grow st st1 \<and> findRefresh st1 (tr_tenantScope i) uuid = None"
    using create(1)
  proof
    assume "st1 = st"
    with assms(3) unused revisions_grow_refl show ?thesis by simp
  next
    assume "\<exists>r. findOpenRefresh st (tr_tenantScope i) (tr_dashboardId i) = Some r
      \<and> storeRefresh st (superseded_record r i) = Inr st1"
    then obtain r where r: "findOpenRefresh st (tr_tenantScope i) (tr_dashboardId i) = Some r"
      "storeRefresh st (superseded_record r i) = Inr st1" by blast
    note o = found_open(1) [OF r(1) assms(2)]
    from r(2) have "findRefresh st1 (tr_tenantScope i) uuid = None"
      using unused o by (auto simp: store_iff findRefresh_def)
    with store_grows [OF r(2) _ assms(3)] o show ?thesis by (simp add: succeeds_def)
  qed
  then have "succeeds st1 (refresh_key (created_record uuid i)) (created_record uuid i)"
    by (simp add: succeeds_def findRefresh_def)
  from store_grows [OF create(2) this] 1 revisions_grow_trans show ?thesis by blast
qed

lemma lifecycle_grows:
  assumes "lifecycle_step E V st st'" "co_ok st" "revisions_ok st"
  shows "revisions_ok st' \<and> revisions_grow st st'"
  using assms(1)
proof cases
  case (reserve uuid i res)
  from reserve(1) show ?thesis
  proof (cases rule: reserve_cases)
    case replay
    with assms(3) revisions_grow_refl show ?thesis by simp
  next
    case fresh
    from fresh_reservation_grows [OF this assms(2,3) reserve(2)] show ?thesis .
  qed
next
  case (transition j r)
  then obtain x where x: "findRefresh st (lc_tenantScope j) (lc_refreshId j) = Some x"
    "r = transitioned_record x j" "storeRefresh st r = Inr st'" unfolding refresh_transition_iff by blast
  from found_refresh(1) [OF x(1) assms(2)] x(1) have "map_of (co_refreshes st) (refresh_key x) = Some x"
    by (simp add: findRefresh_def)
  with x(2) have "succeeds st (refresh_key r) r" by (simp add: succeeds_def)
  from store_grows [OF x(3) this assms(3)] show ?thesis .
next
  case (commit f c)
  then show ?thesis
  proof (cases rule: commit_cases)
    case (found r)
    from found(1) have "succeeds st (scopedKey (cm_tenantScope c) (cm_refreshId c)) (committed_record r)"
      by (simp add: succeeds_def findRefresh_def)
    from write_grows [OF committed_state_fields(1) this assms(3)] found(2) assms(3) revisions_grow_refl
    show ?thesis by metis
  qed
next
  case (publish scope dashboard s)
  then have "co_refreshes st' = co_refreshes st" by (auto simp: setCurrentSnapshot_def result_simps)
  with assms(3) show ?thesis by (auto simp: revisions_ok_def revisions_grow_def)
qed

lemma lifecycle_run_ok:
  "(lifecycle_step E V)\<^sup>*\<^sup>* st st' \<Longrightarrow> co_ok st \<Longrightarrow> revisions_ok st \<Longrightarrow>
     co_ok st' \<and> revisions_ok st' \<and> revisions_grow st st'"
proof (induction rule: rtranclp_induct)
  case base
  then show ?case by (simp add: revisions_grow_refl)
next
  case (step t u)
  then show ?case using lifecycle_ok lifecycle_grows revisions_grow_trans by blast
qed

lemma empty_revisions: "revisions_ok empty_coordinator"
  by (simp add: revisions_ok_def empty_coordinator_def)

section \<open>Samples\<close>

definition sample_trigger :: "string \<Rightarrow> string \<Rightarrow> trigger_input" where
  "sample_trigger key version =
     \<lparr>tr_tenantScope = ws_scope CHR ''a'' CHR ''b'', tr_sourceEventId = js key,
      tr_dashboardId = js ''board'', tr_dashboardVersionId = js version,
      tr_permissionProjectionVersionId = js ''p'', tr_datasetVersionId = js ''d'',
      tr_definitionIds = [], tr_inputSelectorHash = js ''h'', tr_debounceWindowMs = 10,
      tr_occurredAtMs = 100, tr_clientRequestId = js key, tr_folderReplayKey = js key\<rparr>"

definition sample_created :: refresh_record where
  "sample_created = created_record (js ''r1'') (sample_trigger ''k1'' ''v1'')"

definition sample_pending :: coordinator where
  "sample_pending = stored empty_coordinator sample_created"

lemma sample_refresh_reserves:
  "reserveRefreshTrigger (js ''r1'') empty_coordinator (sample_trigger ''k1'' ''v1'')
     = Inr (sample_pending, \<lparr>res_record = sample_created, res_idempotentReplay = False, res_coalesced = False\<rparr>)"
proof -
  have "storeRefresh empty_coordinator sample_created = Inr sample_pending"
    by (simp add: store_iff sample_pending_def empty_coordinator_def)
  then show ?thesis
    by (simp add: reserveRefreshTrigger_def fresh_reservation_def findOpenRefresh_def
        empty_coordinator_def sample_created_def result_simps)
qed

lemma sample_pending_step: "lifecycle_step E V empty_coordinator sample_pending"
  by (rule lifecycle_step.reserve [OF sample_refresh_reserves]) (simp add: findRefresh_def empty_coordinator_def)

lemma sample_pending_ok: "co_ok sample_pending"
  using lifecycle_ok [OF sample_pending_step empty_ok] by blast

lemma sample_found: "findRefresh sample_pending (ws_scope CHR ''a'' CHR ''b'') (js ''r1'') = Some sample_created"
  by (simp add: findRefresh_def sample_pending_def sample_created_def sample_trigger_def)

section \<open>Properties\<close>

lemma scopedKey_cong: "tenantScopeKeyV1 a = tenantScopeKeyV1 b \<Longrightarrow> scopedKey a = scopedKey b"
  by (simp add: fun_eq_iff scopedKey_def)

lemma idempotencyKey_cong: "tenantScopeKeyV1 a = tenantScopeKeyV1 b \<Longrightarrow> idempotencyKey a = idempotencyKey b"
  by (simp add: fun_eq_iff idempotencyKey_def scopedKey_def)

text \<open>
  A source event is processed once. After a trigger was reserved for it, created or coalesced,
  any later trigger of the same scope with the same source event identifier is answered as a replay
  with the very same refresh and changes nothing, whatever reservations, transitions, commits,
  published snapshots and saved records came between.
\<close>

theorem refresh_trigger_idempotent:
  assumes "(coordinator_step E V)\<^sup>*\<^sup>* empty_coordinator st"
    and "reserveRefreshTrigger uuid st i = Inr (st1, res)" and "\<not> res_idempotentReplay res"
    and "(coordinator_step E V)\<^sup>*\<^sup>* st1 st2"
    and "tenantScopeKeyV1 (tr_tenantScope j) = tenantScopeKeyV1 (tr_tenantScope i)"
    and "tr_sourceEventId j = tr_sourceEventId i"
  shows "\<exists>r. reserveRefreshTrigger uuid' st2 j
             = Inr (st2, \<lparr>res_record = r, res_idempotentReplay = True, res_coalesced = False\<rparr>)
           \<and> same_refresh (res_record res) r"
proof -
  have ok: "co_ok st" using coordinator_run_ok [OF assms(1) empty_ok] by blast
  have "fresh_reservation uuid st i = Inr (st1, res)"
    using assms(2) by (cases rule: reserve_cases) (use assms(3) in auto)
  note f = fresh_reservation_facts [OF this ok]
  let ?r = "res_record res"
  have ext: "co_extends st1 st2" using coordinator_run_ok [OF assms(4) f(1)] by blast
  have scope: "tenantScopeKeyV1 (rf_tenantScope ?r) = tenantScopeKeyV1 (tr_tenantScope j)"
    using f(6) assms(5) by simp
  have "tr_sourceEventId j \<in> set (rf_sourceEventIds ?r)" using f(8) [of SOURCE_EVENT] assms(6) by simp
  with f(5) have "co_index st1 SOURCE_EVENT (idempotencyKey (rf_tenantScope ?r) SOURCE_EVENT (tr_sourceEventId j))
      = Some (rf_refreshId ?r)"
    unfolding indexed_by_def by (metis record_keys.simps(1))
  with ext idempotencyKey_cong [OF scope] have "co_index st2 SOURCE_EVENT
      (idempotencyKey (tr_tenantScope j) SOURCE_EVENT (tr_sourceEventId j)) = Some (rf_refreshId ?r)"
    unfolding co_extends_def by metis
  moreover obtain r where "findRefresh st2 (tr_tenantScope j) (rf_refreshId ?r) = Some r" "same_refresh ?r r"
    using ext f(4) scopedKey_cong [OF scope] unfolding co_extends_def findRefresh_def refresh_key_def by metis
  ultimately show ?thesis by (simp add: reserveRefreshTrigger_def)
qed

theorem refresh_trigger_idempotent_witness:
  "\<exists>r. reserveRefreshTrigger (js ''r2'') sample_pending (sample_trigger ''k1'' ''v2'')
       = Inr (sample_pending, \<lparr>res_record = r, res_idempotentReplay = True, res_coalesced = False\<rparr>)
     \<and> same_refresh sample_created r"
proof -
  have "\<exists>r. reserveRefreshTrigger (js ''r2'') sample_pending (sample_trigger ''k1'' ''v2'')
       = Inr (sample_pending, \<lparr>res_record = r, res_idempotentReplay = True, res_coalesced = False\<rparr>)
     \<and> same_refresh (res_record \<lparr>res_record = sample_created, res_idempotentReplay = False, res_coalesced = False\<rparr>) r"
    by (rule refresh_trigger_idempotent [OF rtranclp.rtrancl_refl sample_refresh_reserves])
       (simp_all add: sample_trigger_def)
  then show ?thesis by simp
qed


definition sample_verify :: lifecycle_input where
  "sample_verify = transition_of sample_created (ws_scope CHR ''a'' CHR ''b'') (js ''r1'')
     Refresh_VERIFYING (Some (js ''lease''))"

definition sample_verifying :: coordinator where
  "sample_verifying = stored sample_pending (transitioned_record sample_created sample_verify)"

definition sample_commit :: commit_input where
  "sample_commit =
     \<lparr>cm_tenantScope = ws_scope CHR ''a'' CHR ''b'', cm_dashboardId = js ''board'', cm_refreshId = js ''r1'',
      cm_expectedRevision = 2, cm_expectedLeaseId = js ''lease'', cm_expectedInputSelectorHash = js ''h'',
      cm_snapshot =
        \<lparr>ds_snapshotId = uuid_of CHR ''c'', ds_tenantScope = ws_scope CHR ''a'' CHR ''b'',
         ds_dashboardVersionId = js ''v1'', ds_materializationIds = [], ds_inputSelectorHash = js ''h'',
         ds_permissionProjectionVersionId = js ''p'', ds_audience = Audience_OWNER,
         ds_freshnessState = Fresh_FRESH, ds_evidenceState = Evidence_AVAILABLE,
         ds_canonicalHash = hash_of CHR ''a'', ds_createdAt = time_of ''01'', ds_bindingProofVersion = int_num 1, ds_bindingProof = Arr []\<rparr>\<rparr>"

lemma transition_succeeds:
  assumes "co_ok st" "findRefresh st scope rid = Some r"
    and "q \<in> {Refresh_RUNNING, Refresh_VERIFYING} \<Longrightarrow> lease \<noteq> None"
  shows "transitionRefresh st (transition_of r scope rid q lease)
    = Inr (stored st (transitioned_record r (transition_of r scope rid q lease)),
           transitioned_record r (transition_of r scope rid q lease))"
proof -
  let ?t = "transitioned_record r (transition_of r scope rid q lease)"
  note f = found_refresh [OF assms(2,1)]
  have keys: "record_keys ?t kind = record_keys r kind" for kind
    by (cases kind) (simp_all add: transitioned_record_def)
  have "rf_tenantScope ?t = rf_tenantScope r" "rf_refreshId ?t = rf_refreshId r" "rf_dashboardId ?t = rf_dashboardId r"
    by (simp_all add: transitioned_record_def)
  then have "storeRefresh st ?t = Inr (stored st ?t)"
    using f assms(2) keys by (auto simp: store_iff findRefresh_def indexed_by_def)
  then show ?thesis
    using assms(2,3) unfolding refresh_transition_iff by (auto simp: transition_of_def)
qed

lemma sample_verifies: "lifecycle_step E V sample_pending sample_verifying"
proof (rule lifecycle_step.transition)
  show "transitionRefresh sample_pending sample_verify
      = Inr (sample_verifying, transitioned_record sample_created sample_verify)"
    unfolding sample_verify_def sample_verifying_def
    by (rule transition_succeeds [OF sample_pending_ok sample_found]) simp
qed

definition sample_verified :: refresh_record where
  "sample_verified = transitioned_record sample_created sample_verify"

lemma sample_verified_fields:
  "rf_dashboardId sample_verified = js ''board''" "rf_state sample_verified = Refresh_VERIFYING"
  "rf_revision sample_verified = 2" "rf_leaseId sample_verified = Some (js ''lease'')"
  "rf_inputSelectorHash sample_verified = js ''h''" "rf_dashboardVersionId sample_verified = js ''v1''"
  "rf_permissionProjectionVersionId sample_verified = js ''p''"
  by (simp_all add: sample_verified_def transitioned_record_def sample_verify_def transition_of_def
      sample_created_def created_record_def sample_trigger_def js_add_exact)

lemma sample_commits:
  "commitSnapshotAtomically E (\<lambda>_ _. True) False sample_verifying sample_commit
     = Inr (committed_state sample_verifying sample_commit sample_verified)"
  "commitSnapshotAtomically E (\<lambda>_ _. True) False
       (committed_state sample_verifying sample_commit sample_verified) sample_commit
     = Inr (committed_state sample_verifying sample_commit sample_verified)"
proof -
  have "refresh_key sample_created = scopedKey (ws_scope CHR ''a'' CHR ''b'') (js ''r1'')"
    by (simp add: sample_created_def sample_trigger_def)
  then have found: "findRefresh sample_verifying (ws_scope CHR ''a'' CHR ''b'') (js ''r1'') = Some sample_verified"
    by (simp add: findRefresh_def sample_verifying_def sample_verified_def)
  have none: "co_snapshots sample_verifying = []"
    by (simp add: sample_verifying_def sample_pending_def empty_coordinator_def)
  show "commitSnapshotAtomically E (\<lambda>_ _. True) False sample_verifying sample_commit
     = Inr (committed_state sample_verifying sample_commit sample_verified)"
    using found none sample_verified_fields
    by (simp add: commitSnapshotAtomically_def result_simps readDashboardSnapshotBindingProofV1_def is_int_def
        sample_commit_def already_committed_def commit_fence_def getCurrentSnapshot_def committed_state_def)
  show "commitSnapshotAtomically E (\<lambda>_ _. True) False
       (committed_state sample_verifying sample_commit sample_verified) sample_commit
     = Inr (committed_state sample_verifying sample_commit sample_verified)"
    using sample_verified_fields
    by (simp add: commitSnapshotAtomically_def result_simps readDashboardSnapshotBindingProofV1_def is_int_def
        sample_commit_def already_committed_def getCurrentSnapshot_def findRefresh_def)
qed

lemma sample_refresh_run: "(lifecycle_step sample_env (\<lambda>_ _. True))\<^sup>*\<^sup>* empty_coordinator sample_verifying"
proof -
  have "lifecycle_step sample_env (\<lambda>_ _. True) empty_coordinator sample_pending"
    "lifecycle_step sample_env (\<lambda>_ _. True) sample_pending sample_verifying"
    by (rule sample_pending_step, rule sample_verifies)
  then show ?thesis by (rule converse_rtranclp_into_rtranclp [OF _ r_into_rtranclp])
qed


text \<open>
  C18: No state of a refresh is final for the orchestrator. Whatever state a known refresh is in,
  superseded, committed and failed ones included, \<open>markRunning\<close> succeeds and makes it run again under
  the given lease, from where it can be verified and publish its snapshot.
\<close>

theorem finished_refresh_runs_again:
  assumes "(coordinator_step E V)\<^sup>*\<^sup>* empty_coordinator st" and "findRefresh st scope rid = Some r"
  shows "\<exists>st' a r'. markRunning st st scope rid lease = Inr (Inr (st', a))
     \<and> acc_state a = Refresh_RUNNING \<and> findRefresh st' scope rid = Some r'
     \<and> rf_state r' = Refresh_RUNNING \<and> rf_leaseId r' = Some lease"
proof -
  have ok: "co_ok st" using coordinator_run_ok [OF assms(1) empty_ok] by blast
  let ?t = "transitioned_record r (transition_of r scope rid Refresh_RUNNING (Some lease))"
  have fields: "rf_state ?t = Refresh_RUNNING" "rf_leaseId ?t = Some lease"
    by (simp_all add: transitioned_record_def transition_of_def)
  have "findRefresh (stored st ?t) scope rid = Some ?t"
    using found_refresh(1) [OF assms(2) ok] by (simp add: findRefresh_def)
  with fields assms(2) transition_succeeds [OF ok assms(2), of Refresh_RUNNING "Some lease"] show ?thesis
    by (simp add: markRunning_def run_transition_def result_simps toAcceptance_def)
qed

theorem finished_refresh_runs_again_witness:
  "let st = committed_state sample_verifying sample_commit sample_verified; scope = ws_scope CHR ''a'' CHR ''b'' in
   (\<exists>r. findRefresh st scope (js ''r1'') = Some r \<and> rf_state r = Refresh_COMMITTED)
   \<and> (\<exists>st' a. markRunning st st scope (js ''r1'') (js ''w'') = Inr (Inr (st', a)) \<and> acc_state a = Refresh_RUNNING)"
proof -
  let ?st = "committed_state sample_verifying sample_commit sample_verified"
  have found: "findRefresh ?st (ws_scope CHR ''a'' CHR ''b'') (js ''r1'') = Some (committed_record sample_verified)"
    by (simp add: findRefresh_def sample_commit_def)
  have "lifecycle_step sample_env (\<lambda>_ _. True) sample_verifying ?st"
    by (rule lifecycle_step.commit [OF sample_commits(1)])
  with sample_refresh_run have "(lifecycle_step sample_env (\<lambda>_ _. True))\<^sup>*\<^sup>* empty_coordinator ?st"
    by (rule rtranclp.rtrancl_into_rtrancl)
  from finished_refresh_runs_again [OF lifecycle_run [OF this] found, of "js ''w''"] found show ?thesis
    by (auto simp: Let_def)
qed

end
