(* ===== verification/DeviceSync.thy ===== *)
theory DeviceSync
  imports Json Samples Machine
begin

text \<open>
  packages/domain/src/device-sync/v1.ts: operations that devices queue and the server answers,
  conflicts, signed cursors, batches of changes in dependency order, and the manifests and receipts of
  strict-local packages. The cursor signer is a parameter.
\<close>

section \<open>Data\<close>

datatype payload_class = CONTROL_METADATA | APPROVED_DERIVED_RESULT | RECONSTRUCTABLE_DERIVED_CONTENT

datatype sync_kind = Sync_UPSERT | Sync_DELETE | Sync_ACKNOWLEDGE

datatype sync_status =
    Sync_QUEUED | Sync_ACCEPTED | Sync_APPLIED | Sync_CONFLICT | Sync_QUARANTINED | Sync_REJECTED

datatype conflict_reason =
    REVISION_MISMATCH | POLICY_CHANGED | DUPLICATE_EFFECT | REVOKED_DEVICE
  | DEPENDENCY_UNAVAILABLE | PAYLOAD_NOT_ALLOWED

datatype conflict_status = Conflict_OPEN | Conflict_RESOLVED | Conflict_DISMISSED

record sync_operation =
  op_operationId :: stable_id
  op_deviceId :: stable_id
  op_tenantScope :: tenant_scope
  op_entityType :: jsstr
  op_entityId :: stable_id
  op_kind :: sync_kind
  op_payloadClass :: payload_class
  op_payloadDigest :: jsstr
  op_encryptedPayload :: "jsstr option"
  op_dependencyIds :: "stable_id list"
  op_baseRevision :: "int option"
  op_status :: sync_status
  op_revision :: int
  op_createdAt :: utc_timestamp
  op_acknowledgedAt :: "utc_timestamp option"

record sync_conflict =
  cf_conflictId :: stable_id
  cf_operationId :: stable_id
  cf_deviceId :: stable_id
  cf_tenantScope :: tenant_scope
  cf_entityType :: jsstr
  cf_entityId :: stable_id
  cf_reason :: conflict_reason
  cf_status :: conflict_status
  cf_expectedRevision :: "int option"
  cf_actualRevision :: "int option"
  cf_detectedAt :: utc_timestamp
  cf_resolvedAt :: "utc_timestamp option"

datatype manifest_status =
    Manifest_ISSUED | Manifest_RECEIVED | Manifest_EXPIRED | Manifest_QUARANTINED

record local_manifest =
  mf_packageId :: stable_id
  mf_deviceId :: stable_id
  mf_tenantScope :: tenant_scope
  mf_purpose :: jsstr
  mf_destinationClass :: jsstr
  mf_itemDigests :: "jsstr list"
  mf_packageDigest :: jsstr
  mf_issuedAt :: utc_timestamp
  mf_expiresAt :: utc_timestamp
  mf_status :: manifest_status
  mf_revision :: int

datatype receipt_status = Receipt_ACCEPTED | Receipt_REJECTED | Receipt_QUARANTINED

record transfer_receipt =
  rc_receiptId :: stable_id
  rc_packageId :: stable_id
  rc_deviceId :: stable_id
  rc_destinationClass :: jsstr
  rc_packageDigest :: jsstr
  rc_receivedAt :: utc_timestamp
  rc_manifestVerified :: bool
  rc_status :: receipt_status

datatype sync_mode = Mode_Local | Mode_Hybrid | Mode_Cloud

record unsigned_cursor =
  cur_schemaVersion :: int
  cur_cursorId :: stable_id
  cur_deviceId :: stable_id
  cur_tenantScope :: tenant_scope
  cur_authorizationEpoch :: int
  cur_changeRevision :: int
  cur_policyVersionId :: "stable_id option"
  cur_policyDigest :: "jsstr option"
  cur_dataMode :: sync_mode
  cur_protocolVersion :: jsstr
  cur_issuedAt :: utc_timestamp
  cur_expiresAt :: utc_timestamp

record sync_cursor = unsigned_cursor +
  cur_payload :: jsstr
  cur_signature :: jsstr

record sync_change =
  ch_changeId :: stable_id
  ch_operationId :: stable_id
  ch_deviceId :: stable_id
  ch_tenantScope :: tenant_scope
  ch_entityType :: jsstr
  ch_entityId :: stable_id
  ch_kind :: sync_kind
  ch_payloadClass :: payload_class
  ch_payloadDigest :: jsstr
  ch_dependencyIds :: "stable_id list"
  ch_entityRevision :: int
  ch_createdAt :: utc_timestamp

text \<open>A batch carries the cursors as they were presented.\<close>

record sync_batch =
  bt_deviceId :: stable_id
  bt_tenantScope :: tenant_scope
  bt_cursor :: jsval
  bt_nextCursor :: "jsval option"
  bt_changes :: "sync_change list"

datatype sync_error =
    Sync_INVALID_IDENTIFIER
  | Sync_INVALID_SCOPE
  | Sync_INVALID_TIMESTAMP
  | Sync_INVALID_TEXT
  | Sync_INVALID_DIGEST
  | Sync_INVALID_COLLECTION
  | Sync_INVALID_REVISION
  | Sync_INVALID_OPERATION
  | Sync_INVALID_PAYLOAD_CLASS
  | Sync_INVALID_STATE
  | Sync_INVALID_LIFETIME
  | Sync_LOCAL_CONTENT_FORBIDDEN
  | Sync_INVALID_CURSOR
  | Sync_CURSOR_STALE
  | Sync_CURSOR_EXPIRED
  | Sync_SIGNATURE_INVALID
  | Sync_INVALID_BATCH
  | Sync_DUPLICATE_CHANGE
  | Sync_DEPENDENCY_ORDER_INVALID
  | Sync_CHANGE_SCOPE_MISMATCH

definition sync_kinds :: "(string \<times> sync_kind) list" where
  "sync_kinds = [(''UPSERT'', Sync_UPSERT), (''DELETE'', Sync_DELETE), (''ACKNOWLEDGE'', Sync_ACKNOWLEDGE)]"

definition payload_classes :: "(string \<times> payload_class) list" where
  "payload_classes =
     [(''CONTROL_METADATA'', CONTROL_METADATA), (''APPROVED_DERIVED_RESULT'', APPROVED_DERIVED_RESULT),
      (''RECONSTRUCTABLE_DERIVED_CONTENT'', RECONSTRUCTABLE_DERIVED_CONTENT)]"

definition conflict_reasons :: "(string \<times> conflict_reason) list" where
  "conflict_reasons =
     [(''REVISION_MISMATCH'', REVISION_MISMATCH), (''POLICY_CHANGED'', POLICY_CHANGED),
      (''DUPLICATE_EFFECT'', DUPLICATE_EFFECT), (''REVOKED_DEVICE'', REVOKED_DEVICE),
      (''DEPENDENCY_UNAVAILABLE'', DEPENDENCY_UNAVAILABLE), (''PAYLOAD_NOT_ALLOWED'', PAYLOAD_NOT_ALLOWED)]"

definition sync_modes :: "(string \<times> sync_mode) list" where
  "sync_modes = [(''Local'', Mode_Local), (''Hybrid'', Mode_Hybrid), (''Cloud'', Mode_Cloud)]"

definition receipt_statuses :: "(string \<times> receipt_status) list" where
  "receipt_statuses =
     [(''ACCEPTED'', Receipt_ACCEPTED), (''REJECTED'', Receipt_REJECTED), (''QUARANTINED'', Receipt_QUARANTINED)]"

section \<open>Helpers\<close>

definition digest_value :: "env \<Rightarrow> jsval \<Rightarrow> jsstr option" where
  "digest_value E v =
     (case text_value E v 128 of
        None \<Rightarrow> None
      | Some s \<Rightarrow> if 64 \<le> length s \<and> length s \<le> 128 \<and> list_all lower_hex s then Some s else None)"

definition nonNegativeRevision :: "jsval \<Rightarrow> int option" where
  "nonNegativeRevision v = safe_integer_from 0 v"

definition lifetimeWithin :: "env \<Rightarrow> utc_timestamp \<Rightarrow> utc_timestamp \<Rightarrow> bool" where
  "lifetimeWithin E issuedAt expiresAt = lifetime_within E issuedAt expiresAt (24 * 60 * 60 * 1000)"

definition protocol :: "env \<Rightarrow> jsval \<Rightarrow> jsstr option" where
  "protocol E v =
     (case text_value E v 32 of
        None \<Rightarrow> None
      | Some s \<Rightarrow>
          if lower (hd s) \<and> list_all (\<lambda>c. lower c \<or> digit c \<or> c \<in> set (js ''._-'')) (tl s)
          then Some s else None)"

fun mode_text :: "sync_mode \<Rightarrow> string" where
  "mode_text Mode_Local = ''Local''"
| "mode_text Mode_Hybrid = ''Hybrid''"
| "mode_text Mode_Cloud = ''Cloud''"

text \<open>\<open>...(x === undefined ? {} : { key: x })\<close>\<close>

definition optional_text :: "string \<Rightarrow> jsstr option \<Rightarrow> (jsstr \<times> json) list" where
  "optional_text key x = (case x of None \<Rightarrow> [] | Some s \<Rightarrow> [(js key, JStr s)])"

definition canonicalCursor :: "unsigned_cursor \<Rightarrow> jsstr" where
  "canonicalCursor c =
     stringify (JObj (
       [(js ''schemaVersion'', JInt (cur_schemaVersion c)),
        (js ''cursorId'', JStr (cur_cursorId c)),
        (js ''deviceId'', JStr (cur_deviceId c)),
        (js ''tenantScope'', scope_json (cur_tenantScope c)),
        (js ''authorizationEpoch'', JInt (cur_authorizationEpoch c)),
        (js ''changeRevision'', JInt (cur_changeRevision c))]
       @ optional_text ''policyVersionId'' (cur_policyVersionId c)
       @ optional_text ''policyDigest'' (cur_policyDigest c)
       @ [(js ''dataMode'', JStr (js (mode_text (cur_dataMode c)))),
          (js ''protocolVersion'', JStr (cur_protocolVersion c)),
          (js ''issuedAt'', JStr (cur_issuedAt c)), (js ''expiresAt'', JStr (cur_expiresAt c))]))"

fun is_text :: "jsval \<Rightarrow> bool" where
  "is_text (Str _) = True"
| "is_text _ = False"

fun is_number :: "jsval \<Rightarrow> bool" where
  "is_number (Num _) = True"
| "is_number _ = False"

text \<open>The shape test of a cursor nothing is known about; \<open>typeof null\<close> is \<open>object\<close>.\<close>

definition cursorShape :: "jsval \<Rightarrow> bool" where
  "cursorShape v \<longleftrightarrow>
     object_like v
     \<and> is_int (field v ''schemaVersion'') 1
     \<and> is_text (field v ''cursorId'') \<and> is_text (field v ''deviceId'')
     \<and> (object_like (field v ''tenantScope'') \<or> field v ''tenantScope'' = Null)
     \<and> is_number (field v ''authorizationEpoch'') \<and> is_number (field v ''changeRevision'')
     \<and> is_text (field v ''dataMode'') \<and> is_text (field v ''protocolVersion'')
     \<and> is_text (field v ''issuedAt'') \<and> is_text (field v ''expiresAt'')
     \<and> is_text (field v ''payload'') \<and> is_text (field v ''signature'')"

definition uniqueStableIds :: "env \<Rightarrow> jsval \<Rightarrow> stable_id list option" where
  "uniqueStableIds E v =
     (case v of
        Arr vs \<Rightarrow> if length vs > 64 then None else map_option dedup (parse_all (stable E) vs)
      | _ \<Rightarrow> None)"

section \<open>Operations and conflicts\<close>

record operation_input =
  in_op_operationId :: jsval
  in_op_deviceId :: jsval
  in_op_tenantScope :: jsval
  in_op_entityType :: jsval
  in_op_entityId :: jsval
  in_op_kind :: jsval
  in_op_payloadClass :: jsval
  in_op_payloadDigest :: jsval
  in_op_encryptedPayload :: jsval
  in_op_dependencyIds :: jsval
  in_op_baseRevision :: jsval
  in_op_createdAt :: jsval

definition createDeviceSyncOperationV1 :: "env \<Rightarrow> operation_input \<Rightarrow> sync_error + sync_operation" where
  "createDeviceSyncOperationV1 E i =
     require Sync_INVALID_IDENTIFIER (stable E (in_op_operationId i)) (\<lambda>operationId.
     require Sync_INVALID_IDENTIFIER (stable E (in_op_deviceId i)) (\<lambda>deviceId.
     require Sync_INVALID_IDENTIFIER (stable E (in_op_entityId i)) (\<lambda>entityId.
     require Sync_INVALID_SCOPE (scope_value E (in_op_tenantScope i)) (\<lambda>scope.
     require Sync_INVALID_TEXT (text_value E (in_op_entityType i) 64) (\<lambda>entityType.
     require Sync_INVALID_DIGEST (digest_value E (in_op_payloadDigest i)) (\<lambda>payloadDigest.
     require Sync_INVALID_COLLECTION
       (uniqueStableIds E (nullish (in_op_dependencyIds i) (Arr []))) (\<lambda>dependencyIds.
     require Sync_INVALID_TIMESTAMP (timestamp E (in_op_createdAt i)) (\<lambda>createdAt.
     require Sync_INVALID_REVISION
       (optional positiveInteger (defined_value (in_op_baseRevision i))) (\<lambda>baseRevision.
     require Sync_INVALID_OPERATION (one_of sync_kinds (in_op_kind i)) (\<lambda>kind.
     require Sync_INVALID_PAYLOAD_CLASS (one_of payload_classes (in_op_payloadClass i)) (\<lambda>class.
     require Sync_LOCAL_CONTENT_FORBIDDEN
       (optional (\<lambda>v. text_value E v 16384) (defined_value (in_op_encryptedPayload i))) (\<lambda>encrypted.
     accepted
       \<lparr>op_operationId = operationId, op_deviceId = deviceId, op_tenantScope = scope,
        op_entityType = entityType, op_entityId = entityId, op_kind = kind,
        op_payloadClass = class, op_payloadDigest = payloadDigest,
        op_encryptedPayload = encrypted, op_dependencyIds = dependencyIds,
        op_baseRevision = baseRevision, op_status = Sync_QUEUED, op_revision = 1,
        op_createdAt = createdAt, op_acknowledgedAt = None\<rparr>))))))))))))"

datatype sync_transition =
    Transition_ACCEPT | Transition_APPLY | Transition_CONFLICT | Transition_QUARANTINE | Transition_REJECT

fun nextStatus :: "sync_transition \<Rightarrow> sync_status" where
  "nextStatus Transition_ACCEPT = Sync_ACCEPTED"
| "nextStatus Transition_APPLY = Sync_APPLIED"
| "nextStatus Transition_CONFLICT = Sync_CONFLICT"
| "nextStatus Transition_QUARANTINE = Sync_QUARANTINED"
| "nextStatus Transition_REJECT = Sync_REJECTED"

definition moved_operation :: "sync_operation \<Rightarrow> sync_transition \<Rightarrow> utc_timestamp \<Rightarrow> sync_operation" where
  "moved_operation p t now =
     p\<lparr>op_status := nextStatus t, op_revision := js_succ (op_revision p),
       op_acknowledgedAt := (if t = Transition_APPLY then Some now else op_acknowledgedAt p)\<rparr>"

definition transitionDeviceSyncOperationV1 ::
    "env \<Rightarrow> sync_operation \<Rightarrow> sync_transition \<Rightarrow> jsval \<Rightarrow> sync_error + sync_operation" where
  "transitionDeviceSyncOperationV1 E p t time =
     require Sync_INVALID_TIMESTAMP (timestamp E time) (\<lambda>now.
     reject_if (\<not> ((op_status p = Sync_QUEUED \<and> t = Transition_ACCEPT)
                   \<or> (op_status p = Sync_ACCEPTED
                      \<and> t \<in> {Transition_APPLY, Transition_CONFLICT, Transition_QUARANTINE, Transition_REJECT})))
       Sync_INVALID_STATE (
     accepted (moved_operation p t now)))"

record conflict_input =
  in_cf_conflictId :: jsval
  in_cf_operationId :: jsval
  in_cf_deviceId :: jsval
  in_cf_tenantScope :: jsval
  in_cf_entityType :: jsval
  in_cf_entityId :: jsval
  in_cf_reason :: jsval
  in_cf_expectedRevision :: jsval
  in_cf_actualRevision :: jsval
  in_cf_detectedAt :: jsval

definition createDeviceSyncConflictV1 :: "env \<Rightarrow> conflict_input \<Rightarrow> sync_error + sync_conflict" where
  "createDeviceSyncConflictV1 E i =
     require Sync_INVALID_IDENTIFIER (stable E (in_cf_conflictId i)) (\<lambda>conflictId.
     require Sync_INVALID_IDENTIFIER (stable E (in_cf_operationId i)) (\<lambda>operationId.
     require Sync_INVALID_IDENTIFIER (stable E (in_cf_deviceId i)) (\<lambda>deviceId.
     require Sync_INVALID_IDENTIFIER (stable E (in_cf_entityId i)) (\<lambda>entityId.
     require Sync_INVALID_SCOPE (scope_value E (in_cf_tenantScope i)) (\<lambda>scope.
     require Sync_INVALID_TEXT (text_value E (in_cf_entityType i) 64) (\<lambda>entityType.
     require Sync_INVALID_TIMESTAMP (timestamp E (in_cf_detectedAt i)) (\<lambda>detectedAt.
     require Sync_INVALID_STATE (one_of conflict_reasons (in_cf_reason i)) (\<lambda>reason.
     require Sync_INVALID_REVISION
       (optional positiveInteger (defined_value (in_cf_expectedRevision i))) (\<lambda>expected.
     require Sync_INVALID_REVISION
       (optional positiveInteger (defined_value (in_cf_actualRevision i))) (\<lambda>actual.
     accepted
       \<lparr>cf_conflictId = conflictId, cf_operationId = operationId, cf_deviceId = deviceId,
        cf_tenantScope = scope, cf_entityType = entityType, cf_entityId = entityId,
        cf_reason = reason, cf_status = Conflict_OPEN, cf_expectedRevision = expected,
        cf_actualRevision = actual, cf_detectedAt = detectedAt, cf_resolvedAt = None\<rparr>))))))))))"

section \<open>Cursors\<close>

record cursor_input =
  in_cur_cursorId :: jsval
  in_cur_deviceId :: jsval
  in_cur_tenantScope :: jsval
  in_cur_authorizationEpoch :: jsval
  in_cur_changeRevision :: jsval
  in_cur_policyVersionId :: jsval
  in_cur_policyDigest :: jsval
  in_cur_dataMode :: jsval
  in_cur_protocolVersion :: jsval
  in_cur_issuedAt :: jsval
  in_cur_expiresAt :: jsval

definition createDeviceSyncCursorV1 ::
    "env \<Rightarrow> cursor_input \<Rightarrow> (jsstr \<Rightarrow> jsstr) \<Rightarrow> sync_error + sync_cursor" where
  "createDeviceSyncCursorV1 E i sign =
     require Sync_INVALID_IDENTIFIER (stable E (in_cur_cursorId i)) (\<lambda>cursorId.
     require Sync_INVALID_IDENTIFIER (stable E (in_cur_deviceId i)) (\<lambda>deviceId.
     require Sync_INVALID_SCOPE (scope_value E (in_cur_tenantScope i)) (\<lambda>scope.
     require Sync_INVALID_REVISION (positiveInteger (in_cur_authorizationEpoch i)) (\<lambda>epoch.
     require Sync_INVALID_REVISION (nonNegativeRevision (in_cur_changeRevision i)) (\<lambda>revision.
     require Sync_INVALID_IDENTIFIER
       (optional (stable E) (defined_value (in_cur_policyVersionId i))) (\<lambda>policyVersionId.
     require Sync_INVALID_DIGEST
       (optional (digest_value E) (defined_value (in_cur_policyDigest i))) (\<lambda>policyDigest.
     require Sync_INVALID_TEXT (one_of sync_modes (in_cur_dataMode i)) (\<lambda>mode.
     require Sync_INVALID_TEXT (protocol E (in_cur_protocolVersion i)) (\<lambda>protocolVersion.
     require Sync_INVALID_TIMESTAMP (timestamp E (in_cur_issuedAt i)) (\<lambda>issuedAt.
     require Sync_INVALID_TIMESTAMP (timestamp E (in_cur_expiresAt i)) (\<lambda>expiresAt.
     reject_if (\<not> lifetimeWithin E issuedAt expiresAt) Sync_INVALID_LIFETIME (
     let unsigned =
       \<lparr>cur_schemaVersion = 1, cur_cursorId = cursorId, cur_deviceId = deviceId,
        cur_tenantScope = scope, cur_authorizationEpoch = epoch, cur_changeRevision = revision,
        cur_policyVersionId = policyVersionId, cur_policyDigest = policyDigest,
        cur_dataMode = mode, cur_protocolVersion = protocolVersion, cur_issuedAt = issuedAt,
        cur_expiresAt = expiresAt\<rparr>;
         payload = canonicalCursor unsigned
     in require Sync_SIGNATURE_INVALID (text_value E (Str (sign payload)) 2048) (\<lambda>signature.
        accepted (unsigned_cursor.extend unsigned (sync_cursor.fields payload signature)))))))))))))))"

record cursor_check =
  in_chk_now :: jsval
  in_chk_deviceId :: jsval
  in_chk_tenantScope :: jsval
  in_chk_authorizationEpoch :: jsval
  in_chk_minimumRevision :: jsval
  in_chk_policyVersionId :: jsval
  in_chk_policyDigest :: jsval
  in_chk_dataMode :: jsval
  in_chk_protocolVersion :: jsval

text \<open>
  Verification of a cursor of the declared type, for which the shape test comes down to its version.
  The optional mode and protocol are compared as they were given.
\<close>

definition cursor_stale ::
    "sync_cursor \<Rightarrow> cursor_check \<Rightarrow> stable_id \<Rightarrow> tenant_scope \<Rightarrow> int \<Rightarrow> int \<Rightarrow> stable_id option
     \<Rightarrow> jsstr option \<Rightarrow> bool" where
  "cursor_stale c i deviceId scope epoch minimum policyVersionId policyDigest \<longleftrightarrow>
     cur_deviceId c \<noteq> deviceId
     \<or> \<not> tenantScopesEqualV1 (cur_tenantScope c) scope
     \<or> cur_authorizationEpoch c \<noteq> epoch
     \<or> cur_changeRevision c < minimum
     \<or> (policyVersionId \<noteq> None \<and> cur_policyVersionId c \<noteq> policyVersionId)
     \<or> (policyDigest \<noteq> None \<and> cur_policyDigest c \<noteq> policyDigest)
     \<or> (in_chk_dataMode i \<noteq> Undefined \<and> Str (js (mode_text (cur_dataMode c))) \<noteq> in_chk_dataMode i)
     \<or> (in_chk_protocolVersion i \<noteq> Undefined \<and> Str (cur_protocolVersion c) \<noteq> in_chk_protocolVersion i)"

definition verifyDeviceSyncCursorV1 ::
    "env \<Rightarrow> sync_cursor \<Rightarrow> cursor_check \<Rightarrow> (jsstr \<Rightarrow> jsstr \<Rightarrow> bool) \<Rightarrow> sync_error + unit" where
  "verifyDeviceSyncCursorV1 E c i verify =
     reject_if (cur_schemaVersion c \<noteq> 1) Sync_INVALID_CURSOR (
     require Sync_INVALID_TIMESTAMP (timestamp E (in_chk_now i)) (\<lambda>now.
     require Sync_INVALID_IDENTIFIER (stable E (in_chk_deviceId i)) (\<lambda>deviceId.
     require Sync_INVALID_SCOPE (scope_value E (in_chk_tenantScope i)) (\<lambda>scope.
     require Sync_INVALID_REVISION (positiveInteger (in_chk_authorizationEpoch i)) (\<lambda>epoch.
     require Sync_INVALID_REVISION (nonNegativeRevision (in_chk_minimumRevision i)) (\<lambda>minimum.
     require Sync_INVALID_IDENTIFIER
       (optional (stable E) (defined_value (in_chk_policyVersionId i))) (\<lambda>policyVersionId.
     require Sync_INVALID_DIGEST
       (optional (digest_value E) (defined_value (in_chk_policyDigest i))) (\<lambda>policyDigest.
     require Sync_INVALID_TEXT
       (optional (one_of sync_modes) (defined_value (in_chk_dataMode i))) (\<lambda>mode.
     require Sync_INVALID_TEXT
       (optional (protocol E) (defined_value (in_chk_protocolVersion i))) (\<lambda>protocolVersion.
     reject_if (cursor_stale c i deviceId scope epoch minimum policyVersionId policyDigest) Sync_CURSOR_STALE (
     reject_if (date_less (Date_parse E now) (Date_parse E (cur_issuedAt c))) Sync_CURSOR_STALE (
     reject_if (date_le (Date_parse E (cur_expiresAt c)) (Date_parse E now)) Sync_CURSOR_EXPIRED (
     reject_if (canonicalCursor (unsigned_cursor.truncate c) \<noteq> cur_payload c
                \<or> \<not> verify (cur_payload c) (cur_signature c)) Sync_SIGNATURE_INVALID (
     accepted ()))))))))))))))"

section \<open>Changes and batches\<close>

record change_input =
  in_ch_changeId :: jsval
  in_ch_operationId :: jsval
  in_ch_deviceId :: jsval
  in_ch_tenantScope :: jsval
  in_ch_entityType :: jsval
  in_ch_entityId :: jsval
  in_ch_kind :: jsval
  in_ch_payloadClass :: jsval
  in_ch_payloadDigest :: jsval
  in_ch_dependencyIds :: jsval
  in_ch_entityRevision :: jsval
  in_ch_createdAt :: jsval

definition createDeviceSyncChangeV1 :: "env \<Rightarrow> change_input \<Rightarrow> sync_error + sync_change" where
  "createDeviceSyncChangeV1 E i =
     require Sync_INVALID_IDENTIFIER (stable E (in_ch_changeId i)) (\<lambda>changeId.
     require Sync_INVALID_IDENTIFIER (stable E (in_ch_operationId i)) (\<lambda>operationId.
     require Sync_INVALID_IDENTIFIER (stable E (in_ch_deviceId i)) (\<lambda>deviceId.
     require Sync_INVALID_IDENTIFIER (stable E (in_ch_entityId i)) (\<lambda>entityId.
     require Sync_INVALID_SCOPE (scope_value E (in_ch_tenantScope i)) (\<lambda>scope.
     require Sync_INVALID_TEXT (text_value E (in_ch_entityType i) 64) (\<lambda>entityType.
     require Sync_INVALID_DIGEST (digest_value E (in_ch_payloadDigest i)) (\<lambda>payloadDigest.
     require Sync_INVALID_COLLECTION
       (uniqueStableIds E (nullish (in_ch_dependencyIds i) (Arr []))) (\<lambda>dependencyIds.
     require Sync_INVALID_REVISION (positiveInteger (in_ch_entityRevision i)) (\<lambda>entityRevision.
     require Sync_INVALID_TIMESTAMP (timestamp E (in_ch_createdAt i)) (\<lambda>createdAt.
     require Sync_INVALID_OPERATION (one_of sync_kinds (in_ch_kind i)) (\<lambda>kind.
     require Sync_INVALID_PAYLOAD_CLASS (one_of payload_classes (in_ch_payloadClass i)) (\<lambda>class.
     accepted
       \<lparr>ch_changeId = changeId, ch_operationId = operationId, ch_deviceId = deviceId,
        ch_tenantScope = scope, ch_entityType = entityType, ch_entityId = entityId,
        ch_kind = kind, ch_payloadClass = class, ch_payloadDigest = payloadDigest,
        ch_dependencyIds = dependencyIds, ch_entityRevision = entityRevision,
        ch_createdAt = createdAt\<rparr>))))))))))))"

definition change_of :: "jsval \<Rightarrow> change_input" where
  "change_of v =
     \<lparr>in_ch_changeId = field v ''changeId'', in_ch_operationId = field v ''operationId'',
      in_ch_deviceId = field v ''deviceId'', in_ch_tenantScope = field v ''tenantScope'',
      in_ch_entityType = field v ''entityType'', in_ch_entityId = field v ''entityId'',
      in_ch_kind = field v ''kind'', in_ch_payloadClass = field v ''payloadClass'',
      in_ch_payloadDigest = field v ''payloadDigest'', in_ch_dependencyIds = field v ''dependencyIds'',
      in_ch_entityRevision = field v ''entityRevision'', in_ch_createdAt = field v ''createdAt''\<rparr>"

text \<open>The loop over the raw changes.\<close>

fun collect_changes ::
    "env \<Rightarrow> stable_id \<Rightarrow> tenant_scope \<Rightarrow> sync_change list \<Rightarrow> jsval list \<Rightarrow> sync_error + sync_change list" where
  "collect_changes E deviceId scope parsed [] = accepted parsed"
| "collect_changes E deviceId scope parsed (raw # rest) =
     reject_if (\<not> object_like raw) Sync_INVALID_BATCH (
     and_then (createDeviceSyncChangeV1 E (change_of raw)) (\<lambda>c.
     reject_if (ch_deviceId c \<noteq> deviceId \<or> \<not> tenantScopesEqualV1 (ch_tenantScope c) scope)
       Sync_CHANGE_SCOPE_MISMATCH (
     reject_if (ch_changeId c \<in> ch_changeId ` set parsed \<or> ch_operationId c \<in> ch_operationId ` set parsed)
       Sync_DUPLICATE_CHANGE (
     collect_changes E deviceId scope (parsed @ [c]) rest))))"

text \<open>\<open>operationIndexes.get(id)\<close>\<close>

fun operation_index :: "stable_id \<Rightarrow> sync_change list \<Rightarrow> nat option" where
  "operation_index d [] = None"
| "operation_index d (c # cs) =
     (if ch_operationId c = d then Some 0 else map_option Suc (operation_index d cs))"

definition out_of_order :: "sync_change list \<Rightarrow> bool" where
  "out_of_order cs \<longleftrightarrow>
     list_ex (\<lambda>(index, c). list_ex (\<lambda>d. case operation_index d cs of
                None \<Rightarrow> False | Some i \<Rightarrow> index \<le> i) (ch_dependencyIds c)) (zip [0..<length cs] cs)"

text \<open>
  \<open>tenantScopesEqualV1\<close> on a value nothing is known about: reading a property of \<open>null\<close> throws.
\<close>

definition raw_scope_equal :: "jsval \<Rightarrow> tenant_scope \<Rightarrow> bool option" where
  "raw_scope_equal v scope =
     (if v = Null then None
      else Some (case scope of
          Organization_scope a \<Rightarrow>
            field v ''scopeType'' = Str (js ''organization'') \<and> field v ''organizationId'' = Str a
        | Workspace_scope a b \<Rightarrow>
            field v ''scopeType'' = Str (js ''workspace'') \<and> field v ''organizationId'' = Str a
            \<and> field v ''workspaceId'' = Str b
        | Project_scope a b c \<Rightarrow>
            field v ''scopeType'' = Str (js ''project'') \<and> field v ''organizationId'' = Str a
            \<and> field v ''workspaceId'' = Str b \<and> field v ''projectId'' = Str c))"

text \<open>\<open>left !== right\<close> and \<open>left < right\<close> on numbers.\<close>

definition number_differs :: "jsval \<Rightarrow> jsval \<Rightarrow> bool" where
  "number_differs v w \<longleftrightarrow> v \<noteq> w \<or> v = Num NaN"

fun number_less :: "jsval \<Rightarrow> jsval \<Rightarrow> bool" where
  "number_less (Num (Finite a)) (Num (Finite b)) = (a < b)"
| "number_less (Num NegInfinity) (Num (Finite b)) = True"
| "number_less (Num NegInfinity) (Num PosInfinity) = True"
| "number_less (Num (Finite a)) (Num PosInfinity) = True"
| "number_less _ _ = False"

record batch_input =
  in_bt_deviceId :: jsval
  in_bt_tenantScope :: jsval
  in_bt_cursor :: jsval
  in_bt_nextCursor :: jsval
  in_bt_changes :: jsval

text \<open>
  What a presented cursor is checked for; \<open>None\<close> is a thrown \<open>TypeError\<close>. The conditions are
  evaluated from left to right, so a device that differs is noticed before the scope is read.
\<close>

definition cursor_matches :: "jsval \<Rightarrow> stable_id \<Rightarrow> tenant_scope \<Rightarrow> bool option" where
  "cursor_matches v deviceId scope =
     (if field v ''deviceId'' \<noteq> Str deviceId then Some False
      else raw_scope_equal (field v ''tenantScope'') scope)"

definition next_matches :: "jsval \<Rightarrow> jsval \<Rightarrow> stable_id \<Rightarrow> tenant_scope \<Rightarrow> bool option" where
  "next_matches v cursor deviceId scope =
     map_option (\<lambda>ok. ok
         \<and> \<not> number_differs (field v ''authorizationEpoch'') (field cursor ''authorizationEpoch'')
         \<and> \<not> number_less (field v ''changeRevision'') (field cursor ''changeRevision''))
       (cursor_matches v deviceId scope)"

definition batch_changes ::
    "env \<Rightarrow> batch_input \<Rightarrow> stable_id \<Rightarrow> tenant_scope \<Rightarrow> sync_error + sync_batch" where
  "batch_changes E i deviceId scope =
     require Sync_INVALID_BATCH (as_array (in_bt_changes i)) (\<lambda>raw.
     reject_if (length raw > 256) Sync_INVALID_BATCH (
     and_then (collect_changes E deviceId scope [] raw) (\<lambda>changes.
     reject_if (out_of_order changes) Sync_DEPENDENCY_ORDER_INVALID (
     accepted
       \<lparr>bt_deviceId = deviceId, bt_tenantScope = scope, bt_cursor = in_bt_cursor i,
        bt_nextCursor = defined_value (in_bt_nextCursor i), bt_changes = changes\<rparr>))))"

definition createDeviceSyncBatchV1 :: "env \<Rightarrow> batch_input \<Rightarrow> (sync_error + sync_batch) option" where
  "createDeviceSyncBatchV1 E i =
     (case stable E (in_bt_deviceId i) of
        None \<Rightarrow> Some (rejected Sync_INVALID_IDENTIFIER)
      | Some deviceId \<Rightarrow>
     (case scope_value E (in_bt_tenantScope i) of
        None \<Rightarrow> Some (rejected Sync_INVALID_SCOPE)
      | Some scope \<Rightarrow>
          if \<not> cursorShape (in_bt_cursor i) then Some (rejected Sync_INVALID_CURSOR)
          else
     (case cursor_matches (in_bt_cursor i) deviceId scope of
        None \<Rightarrow> None
      | Some False \<Rightarrow> Some (rejected Sync_CHANGE_SCOPE_MISMATCH)
      | Some True \<Rightarrow>
          if in_bt_nextCursor i = Undefined then Some (batch_changes E i deviceId scope)
          else if \<not> cursorShape (in_bt_nextCursor i) then Some (rejected Sync_INVALID_CURSOR)
          else
     (case next_matches (in_bt_nextCursor i) (in_bt_cursor i) deviceId scope of
        None \<Rightarrow> None
      | Some False \<Rightarrow> Some (rejected Sync_INVALID_CURSOR)
      | Some True \<Rightarrow> Some (batch_changes E i deviceId scope)))))"

section \<open>Strict-local packages\<close>

record manifest_input =
  in_mf_packageId :: jsval
  in_mf_deviceId :: jsval
  in_mf_tenantScope :: jsval
  in_mf_purpose :: jsval
  in_mf_destinationClass :: jsval
  in_mf_itemDigests :: jsval
  in_mf_packageDigest :: jsval
  in_mf_issuedAt :: jsval
  in_mf_expiresAt :: jsval

definition createStrictLocalPackageManifestV1 :: "env \<Rightarrow> manifest_input \<Rightarrow> sync_error + local_manifest" where
  "createStrictLocalPackageManifestV1 E i =
     require Sync_INVALID_IDENTIFIER (stable E (in_mf_packageId i)) (\<lambda>packageId.
     require Sync_INVALID_IDENTIFIER (stable E (in_mf_deviceId i)) (\<lambda>deviceId.
     require Sync_INVALID_SCOPE (scope_value E (in_mf_tenantScope i)) (\<lambda>scope.
     require Sync_INVALID_TEXT (text_value E (in_mf_purpose i) 200) (\<lambda>purpose.
     require Sync_INVALID_TEXT (text_value E (in_mf_destinationClass i) 64) (\<lambda>destinationClass.
     require Sync_INVALID_COLLECTION (as_array (in_mf_itemDigests i)) (\<lambda>items.
     reject_if (items = []) Sync_INVALID_COLLECTION (
     require Sync_INVALID_COLLECTION (parse_all (digest_value E) items) (\<lambda>itemDigests.
     require Sync_INVALID_DIGEST (digest_value E (in_mf_packageDigest i)) (\<lambda>packageDigest.
     require Sync_INVALID_TIMESTAMP (timestamp E (in_mf_issuedAt i)) (\<lambda>issuedAt.
     require Sync_INVALID_TIMESTAMP (timestamp E (in_mf_expiresAt i)) (\<lambda>expiresAt.
     reject_if (\<not> lifetimeWithin E issuedAt expiresAt) Sync_INVALID_LIFETIME (
     accepted
       \<lparr>mf_packageId = packageId, mf_deviceId = deviceId, mf_tenantScope = scope,
        mf_purpose = purpose, mf_destinationClass = destinationClass,
        mf_itemDigests = itemDigests, mf_packageDigest = packageDigest,
        mf_issuedAt = issuedAt, mf_expiresAt = expiresAt, mf_status = Manifest_ISSUED,
        mf_revision = 1\<rparr>))))))))))))"

record receipt_input =
  in_rc_receiptId :: jsval
  in_rc_packageId :: jsval
  in_rc_deviceId :: jsval
  in_rc_destinationClass :: jsval
  in_rc_packageDigest :: jsval
  in_rc_receivedAt :: jsval
  in_rc_manifestVerified :: jsval
  in_rc_status :: jsval

definition createDeviceTransferReceiptV1 :: "env \<Rightarrow> receipt_input \<Rightarrow> sync_error + transfer_receipt" where
  "createDeviceTransferReceiptV1 E i =
     require Sync_INVALID_IDENTIFIER (stable E (in_rc_receiptId i)) (\<lambda>receiptId.
     require Sync_INVALID_IDENTIFIER (stable E (in_rc_packageId i)) (\<lambda>packageId.
     require Sync_INVALID_IDENTIFIER (stable E (in_rc_deviceId i)) (\<lambda>deviceId.
     require Sync_INVALID_TEXT (text_value E (in_rc_destinationClass i) 64) (\<lambda>destinationClass.
     require Sync_INVALID_DIGEST (digest_value E (in_rc_packageDigest i)) (\<lambda>packageDigest.
     require Sync_INVALID_TIMESTAMP (timestamp E (in_rc_receivedAt i)) (\<lambda>receivedAt.
     require Sync_INVALID_STATE (as_bool (in_rc_manifestVerified i)) (\<lambda>verified.
     require Sync_INVALID_STATE (one_of receipt_statuses (in_rc_status i)) (\<lambda>status.
     accepted
       \<lparr>rc_receiptId = receiptId, rc_packageId = packageId, rc_deviceId = deviceId,
        rc_destinationClass = destinationClass, rc_packageDigest = packageDigest,
        rc_receivedAt = receivedAt, rc_manifestVerified = verified, rc_status = status\<rparr>))))))))"

section \<open>Facts about batches\<close>

lemma collect_accepted:
  assumes "collect_changes E deviceId scope parsed raw = Inr cs"
    and "distinct (map ch_changeId parsed)" "distinct (map ch_operationId parsed)"
    and "\<forall>c \<in> set parsed. ch_deviceId c = deviceId \<and> ch_tenantScope c = scope"
  shows "distinct (map ch_changeId cs) \<and> distinct (map ch_operationId cs)
     \<and> (\<forall>c \<in> set cs. ch_deviceId c = deviceId \<and> ch_tenantScope c = scope)
     \<and> length cs = length parsed + length raw"
  using assms
  by (induction E deviceId scope parsed raw rule: collect_changes.induct) (auto simp: result_simps)

lemma operation_index_distinct:
  "distinct (map ch_operationId cs) \<Longrightarrow> k < length cs \<Longrightarrow> operation_index (ch_operationId (cs ! k)) cs = Some k"
proof (induction cs arbitrary: k)
  case (Cons c cs)
  show ?case
  proof (cases k)
    case (Suc n)
    with Cons.prems have "ch_operationId (cs ! n) \<in> ch_operationId ` set cs" by simp
    with Cons.prems Suc have "ch_operationId c \<noteq> ch_operationId (cs ! n)" by auto
    with Cons Suc show ?thesis by simp
  qed simp
qed simp

lemma in_order:
  assumes "\<not> out_of_order cs" "distinct (map ch_operationId cs)"
    and "j < length cs" "k < length cs" "ch_operationId (cs ! k) \<in> set (ch_dependencyIds (cs ! j))"
  shows "k < j"
proof -
  have "(j, cs ! j) \<in> set (zip [0..<length cs] cs)" using assms(3) by (force simp: set_zip)
  with assms(1,5) have "\<not> (case operation_index (ch_operationId (cs ! k)) cs of None \<Rightarrow> False | Some i \<Rightarrow> j \<le> i)"
    by (fastforce simp: out_of_order_def list_ex_iff)
  with operation_index_distinct [OF assms(2,4)] show ?thesis by simp
qed

lemma batch_accepted:
  assumes "createDeviceSyncBatchV1 E i = Some (Inr b)"
  obtains deviceId scope where "stable E (in_bt_deviceId i) = Some deviceId"
    "scope_value E (in_bt_tenantScope i) = Some scope" "cursorShape (in_bt_cursor i)"
    "cursor_matches (in_bt_cursor i) deviceId scope = Some True"
    "in_bt_nextCursor i = Undefined \<or> cursorShape (in_bt_nextCursor i)
       \<and> next_matches (in_bt_nextCursor i) (in_bt_cursor i) deviceId scope = Some True"
    "batch_changes E i deviceId scope = Inr b"
proof (cases "stable E (in_bt_deviceId i)")
  case None
  with assms show thesis by (simp add: createDeviceSyncBatchV1_def)
next
  case (Some deviceId)
  note d = this
  show thesis
  proof (cases "scope_value E (in_bt_tenantScope i)")
    case None
    with assms d show thesis by (simp add: createDeviceSyncBatchV1_def)
  next
    case (Some scope)
    with assms d show thesis
      by (intro that [of deviceId scope])
         (auto simp: createDeviceSyncBatchV1_def split: if_splits option.splits bool.splits)
  qed
qed

section \<open>Facts about cursors\<close>

lemma mode_text_inject [simp]: "mode_text a = mode_text b \<longleftrightarrow> a = b"
  by (cases a; cases b) simp_all

lemma sync_modes_text [simp]: "map_of sync_modes (mode_text m) = Some m"
  by (cases m) (simp_all add: sync_modes_def)

lemma optional_texts_inject:
  "optional_text ''policyVersionId'' a @ optional_text ''policyDigest'' b @ (js ''dataMode'', m) # r
     = optional_text ''policyVersionId'' c @ optional_text ''policyDigest'' d @ (js ''dataMode'', n) # s
   \<longleftrightarrow> a = c \<and> b = d \<and> m = n \<and> r = s"
  by (cases a; cases b; cases c; cases d) (simp_all add: optional_text_def)

lemma canonicalCursor_inject:
  assumes "canonicalCursor a = canonicalCursor b"
  shows "a = b"
proof -
  from assms have "cur_schemaVersion a = cur_schemaVersion b" "cur_cursorId a = cur_cursorId b"
    "cur_deviceId a = cur_deviceId b" "cur_tenantScope a = cur_tenantScope b"
    "cur_authorizationEpoch a = cur_authorizationEpoch b" "cur_changeRevision a = cur_changeRevision b"
    "cur_policyVersionId a = cur_policyVersionId b" "cur_policyDigest a = cur_policyDigest b"
    "cur_dataMode a = cur_dataMode b" "cur_protocolVersion a = cur_protocolVersion b"
    "cur_issuedAt a = cur_issuedAt b" "cur_expiresAt a = cur_expiresAt b"
    unfolding canonicalCursor_def stringify_inject json.inject append_Cons append_Nil list.inject prod.inject
      scope_json_inject optional_texts_inject js_inject mode_text_inject
    by blast+
  then show ?thesis by (intro unsigned_cursor.equality) simp_all
qed

interpretation cursors: signed_payload canonicalCursor
  by unfold_locales (rule canonicalCursor_inject)

lemma create_cursor_accepted:
  assumes "createDeviceSyncCursorV1 E i sign = Inr c"
  shows "cur_payload c = canonicalCursor (unsigned_cursor.truncate c)" "cur_schemaVersion c = 1"
    "lifetimeWithin E (cur_issuedAt c) (cur_expiresAt c)"
  using assms
  by (auto simp: createDeviceSyncCursorV1_def result_simps Let_def unsigned_cursor.defs sync_cursor.defs)

text \<open>What the verification compares with a cursor: optional inputs are compared when they are given.\<close>

definition check_fits :: "env \<Rightarrow> sync_cursor \<Rightarrow> cursor_check \<Rightarrow> utc_timestamp \<Rightarrow> bool" where
  "check_fits E c k now \<longleftrightarrow>
     timestamp E (in_chk_now k) = Some now
     \<and> stable E (in_chk_deviceId k) = Some (cur_deviceId c)
     \<and> scope_value E (in_chk_tenantScope k) = Some (cur_tenantScope c)
     \<and> positiveInteger (in_chk_authorizationEpoch k) = Some (cur_authorizationEpoch c)
     \<and> (\<exists>m. nonNegativeRevision (in_chk_minimumRevision k) = Some m \<and> m \<le> cur_changeRevision c)
     \<and> (in_chk_policyVersionId k = Undefined
        \<or> cur_policyVersionId c \<noteq> None \<and> stable E (in_chk_policyVersionId k) = cur_policyVersionId c)
     \<and> (in_chk_policyDigest k = Undefined
        \<or> cur_policyDigest c \<noteq> None \<and> digest_value E (in_chk_policyDigest k) = cur_policyDigest c)
     \<and> (in_chk_dataMode k = Undefined \<or> in_chk_dataMode k = Str (js (mode_text (cur_dataMode c))))
     \<and> (in_chk_protocolVersion k = Undefined
        \<or> in_chk_protocolVersion k = Str (cur_protocolVersion c)
          \<and> protocol E (in_chk_protocolVersion k) \<noteq> None)
     \<and> \<not> date_less (Date_parse E now) (Date_parse E (cur_issuedAt c))
     \<and> \<not> date_le (Date_parse E (cur_expiresAt c)) (Date_parse E now)"

lemma optional_given:
  "optional p (defined_value v) = Some w \<longleftrightarrow>
     (v = Undefined \<and> w = None) \<or> (v \<noteq> Undefined \<and> (\<exists>x. p v = Some x \<and> w = Some x))"
  by (cases v) (auto simp: optional_Some_iff)

lemma optional_compared:
  "(\<exists>w. optional p (defined_value v) = Some w \<and> \<not> (w \<noteq> None \<and> x \<noteq> w))
     \<longleftrightarrow> v = Undefined \<or> x \<noteq> None \<and> p v = x"
  by (cases x; cases "p v") (auto simp: optional_given)

lemma optional_parsed:
  "(\<exists>w. optional p (defined_value v) = Some w) \<longleftrightarrow> v = Undefined \<or> p v \<noteq> None"
  by (cases "p v") (auto simp: optional_given)

lemma verify_cursor_iff:
  "verifyDeviceSyncCursorV1 E c k verify = Inr () \<longleftrightarrow>
     cur_schemaVersion c = 1 \<and> (\<exists>now. check_fits E c k now)
     \<and> canonicalCursor (unsigned_cursor.truncate c) = cur_payload c
     \<and> verify (cur_payload c) (cur_signature c)"
proof -
  have "verifyDeviceSyncCursorV1 E c k verify = Inr () \<longleftrightarrow>
     cur_schemaVersion c = 1
     \<and> (\<exists>now. timestamp E (in_chk_now k) = Some now
        \<and> stable E (in_chk_deviceId k) = Some (cur_deviceId c)
        \<and> scope_value E (in_chk_tenantScope k) = Some (cur_tenantScope c)
        \<and> positiveInteger (in_chk_authorizationEpoch k) = Some (cur_authorizationEpoch c)
        \<and> (\<exists>m. nonNegativeRevision (in_chk_minimumRevision k) = Some m \<and> m \<le> cur_changeRevision c)
        \<and> (\<exists>w. optional (stable E) (defined_value (in_chk_policyVersionId k)) = Some w
             \<and> \<not> (w \<noteq> None \<and> cur_policyVersionId c \<noteq> w))
        \<and> (\<exists>w. optional (digest_value E) (defined_value (in_chk_policyDigest k)) = Some w
             \<and> \<not> (w \<noteq> None \<and> cur_policyDigest c \<noteq> w))
        \<and> (\<exists>w. optional (one_of sync_modes) (defined_value (in_chk_dataMode k)) = Some w)
        \<and> (\<exists>w. optional (protocol E) (defined_value (in_chk_protocolVersion k)) = Some w)
        \<and> \<not> (in_chk_dataMode k \<noteq> Undefined \<and> Str (js (mode_text (cur_dataMode c))) \<noteq> in_chk_dataMode k)
        \<and> \<not> (in_chk_protocolVersion k \<noteq> Undefined \<and> Str (cur_protocolVersion c) \<noteq> in_chk_protocolVersion k)
        \<and> \<not> date_less (Date_parse E now) (Date_parse E (cur_issuedAt c))
        \<and> \<not> date_le (Date_parse E (cur_expiresAt c)) (Date_parse E now))
     \<and> canonicalCursor (unsigned_cursor.truncate c) = cur_payload c
     \<and> verify (cur_payload c) (cur_signature c)"
    unfolding verifyDeviceSyncCursorV1_def result_simps cursor_stale_def tenantScopesEqualV1_iff de_Morgan_disj
      not_not not_less
    by (intro iffI; elim exE conjE; hypsubst?; intro conjI exI; (assumption | rule refl | blast))
  also have "\<dots> \<longleftrightarrow> cur_schemaVersion c = 1 \<and> (\<exists>now. check_fits E c k now)
     \<and> canonicalCursor (unsigned_cursor.truncate c) = cur_payload c
     \<and> verify (cur_payload c) (cur_signature c)"
    unfolding check_fits_def optional_compared optional_parsed by (auto 0 3)
  finally show ?thesis .
qed

section \<open>Samples\<close>

definition sample_cursor_input :: cursor_input where
  "sample_cursor_input =
     \<lparr>in_cur_cursorId = sample_id CHR ''a'', in_cur_deviceId = sample_id CHR ''b'',
      in_cur_tenantScope = sample_scope CHR ''a'' CHR ''b'', in_cur_authorizationEpoch = int_num 2,
      in_cur_changeRevision = int_num 5, in_cur_policyVersionId = Undefined,
      in_cur_policyDigest = sample_hash CHR ''a'', in_cur_dataMode = Str (js ''Hybrid''),
      in_cur_protocolVersion = Str (js ''v1.2''), in_cur_issuedAt = sample_time ''01'',
      in_cur_expiresAt = sample_time ''30''\<rparr>"

definition sample_unsigned_cursor :: unsigned_cursor where
  "sample_unsigned_cursor =
     \<lparr>cur_schemaVersion = 1, cur_cursorId = uuid_of CHR ''a'', cur_deviceId = uuid_of CHR ''b'',
      cur_tenantScope = ws_scope CHR ''a'' CHR ''b'', cur_authorizationEpoch = 2, cur_changeRevision = 5,
      cur_policyVersionId = None, cur_policyDigest = Some (hash_of CHR ''a''), cur_dataMode = Mode_Hybrid,
      cur_protocolVersion = js ''v1.2'', cur_issuedAt = time_of ''01'', cur_expiresAt = time_of ''30''\<rparr>"

definition sample_cursor :: sync_cursor where
  "sample_cursor = unsigned_cursor.extend sample_unsigned_cursor
     (sync_cursor.fields (canonicalCursor sample_unsigned_cursor) (js ''sig''))"

definition sample_check :: cursor_check where
  "sample_check =
     \<lparr>in_chk_now = sample_time ''05'', in_chk_deviceId = sample_id CHR ''b'',
      in_chk_tenantScope = sample_scope CHR ''a'' CHR ''b'', in_chk_authorizationEpoch = int_num 2,
      in_chk_minimumRevision = int_num 4, in_chk_policyVersionId = Undefined,
      in_chk_policyDigest = sample_hash CHR ''a'', in_chk_dataMode = Str (js ''Hybrid''),
      in_chk_protocolVersion = Str (js ''v1.2'')\<rparr>"

lemma digest_sample [simp]: "letter c \<Longrightarrow> digest_value sample_env (sample_hash c) = Some (hash_of c)"
proof -
  assume c: "letter c"
  have "text_value sample_env (Str (hash_of c)) 128 = Some (hash_of c)"
    unfolding hash_of_def by (rule text_plain) (use c in \<open>auto simp: plain_def letter_def list_all_iff\<close>)
  moreover have "length (hash_of c) = 64" "list_all lower_hex (hash_of c)"
    using letter_unit(1) [OF c] by (simp_all add: hash_of_def js_def list_all_iff)
  ultimately show ?thesis by (simp add: digest_value_def)
qed

lemma sample_protocol [simp]: "protocol sample_env (Str (js ''v1.2'')) = Some (js ''v1.2'')"
proof -
  have "text_value sample_env (Str (js ''v1.2'')) 32 = Some (js ''v1.2'')" by (simp add: plain_def)
  moreover have "lower (hd (js ''v1.2''))"
    "list_all (\<lambda>c. lower c \<or> digit c \<or> c \<in> set (js ''._-'')) (tl (js ''v1.2''))"
    by code_simp+
  ultimately show ?thesis by (simp add: protocol_def)
qed

lemma sample_cursor_created: "createDeviceSyncCursorV1 sample_env sample_cursor_input (\<lambda>_. js ''sig'') = Inr sample_cursor"
proof -
  have "one_of sync_modes (Str (js ''Hybrid'')) = Some Mode_Hybrid" by (simp add: sync_modes_def)
  then show ?thesis
    by (simp add: createDeviceSyncCursorV1_def sample_cursor_input_def result_simps plain_def Let_def
        sample_cursor_def sample_unsigned_cursor_def nonNegativeRevision_def safe_integer_from_def
        max_safe_integer_def lifetimeWithin_def lifetime_within_def optional_def)
qed

definition sample_change_value :: "char \<Rightarrow> char \<Rightarrow> jsval list \<Rightarrow> jsval" where
  "sample_change_value c p deps =
     Obj [(js ''changeId'', sample_id c), (js ''operationId'', sample_id p),
          (js ''deviceId'', sample_id CHR ''b''), (js ''tenantScope'', sample_scope CHR ''a'' CHR ''b''),
          (js ''entityType'', Str (js ''file'')), (js ''entityId'', sample_id CHR ''e''),
          (js ''kind'', Str (js ''UPSERT'')), (js ''payloadClass'', Str (js ''CONTROL_METADATA'')),
          (js ''payloadDigest'', sample_hash CHR ''a''), (js ''dependencyIds'', Arr deps),
          (js ''entityRevision'', int_num 1), (js ''createdAt'', sample_time ''01'')]"

definition sample_cursor_value :: "jsval \<Rightarrow> jsval" where
  "sample_cursor_value scope =
     Obj [(js ''schemaVersion'', int_num 1), (js ''cursorId'', sample_id CHR ''a''),
          (js ''deviceId'', sample_id CHR ''b''), (js ''tenantScope'', scope),
          (js ''authorizationEpoch'', int_num 2), (js ''changeRevision'', int_num 5),
          (js ''dataMode'', Str (js ''Hybrid'')), (js ''protocolVersion'', Str (js ''v1.2'')),
          (js ''issuedAt'', sample_time ''01''), (js ''expiresAt'', sample_time ''30''),
          (js ''payload'', Str (js ''p'')), (js ''signature'', Str (js ''s''))]"

definition sample_batch_input :: "jsval \<Rightarrow> batch_input" where
  "sample_batch_input scope =
     \<lparr>in_bt_deviceId = sample_id CHR ''b'', in_bt_tenantScope = sample_scope CHR ''a'' CHR ''b'',
      in_bt_cursor = sample_cursor_value scope, in_bt_nextCursor = Undefined,
      in_bt_changes = Arr [sample_change_value CHR ''a'' CHR ''a'' [],
                           sample_change_value CHR ''c'' CHR ''c'' [sample_id CHR ''a'']]\<rparr>"

lemma sample_change_created:
  "\<exists>x. createDeviceSyncChangeV1 sample_env (change_of (sample_change_value CHR ''a'' CHR ''a'' [])) = Inr x
     \<and> ch_changeId x = uuid_of CHR ''a'' \<and> ch_operationId x = uuid_of CHR ''a'' \<and> ch_deviceId x = uuid_of CHR ''b''
     \<and> ch_tenantScope x = ws_scope CHR ''a'' CHR ''b'' \<and> ch_dependencyIds x = []"
  "\<exists>x. createDeviceSyncChangeV1 sample_env (change_of (sample_change_value CHR ''c'' CHR ''c'' [sample_id CHR ''a''])) = Inr x
     \<and> ch_changeId x = uuid_of CHR ''c'' \<and> ch_operationId x = uuid_of CHR ''c'' \<and> ch_deviceId x = uuid_of CHR ''b''
     \<and> ch_tenantScope x = ws_scope CHR ''a'' CHR ''b'' \<and> ch_dependencyIds x = [uuid_of CHR ''a'']"
proof -
  have "one_of sync_kinds (Str (js ''UPSERT'')) = Some Sync_UPSERT"
    "one_of payload_classes (Str (js ''CONTROL_METADATA'')) = Some CONTROL_METADATA"
    by (simp_all add: sync_kinds_def payload_classes_def)
  then show "\<exists>x. createDeviceSyncChangeV1 sample_env (change_of (sample_change_value CHR ''a'' CHR ''a'' [])) = Inr x
     \<and> ch_changeId x = uuid_of CHR ''a'' \<and> ch_operationId x = uuid_of CHR ''a'' \<and> ch_deviceId x = uuid_of CHR ''b''
     \<and> ch_tenantScope x = ws_scope CHR ''a'' CHR ''b'' \<and> ch_dependencyIds x = []"
    "\<exists>x. createDeviceSyncChangeV1 sample_env (change_of (sample_change_value CHR ''c'' CHR ''c'' [sample_id CHR ''a''])) = Inr x
     \<and> ch_changeId x = uuid_of CHR ''c'' \<and> ch_operationId x = uuid_of CHR ''c'' \<and> ch_deviceId x = uuid_of CHR ''b''
     \<and> ch_tenantScope x = ws_scope CHR ''a'' CHR ''b'' \<and> ch_dependencyIds x = [uuid_of CHR ''a'']"
    by (simp_all add: createDeviceSyncChangeV1_def change_of_def sample_change_value_def result_simps
        plain_def uniqueStableIds_def nullish_def max_safe_integer_def dedup_def)
qed

section \<open>Properties\<close>

text \<open>
  What an accepted batch is. It holds at most 256 changes, all of the device and the tenant
  scope it was asked for, no change and no operation occurs twice, and every dependency that is
  itself in the batch comes before the change that depends on it, so applying the changes from the
  first to the last never applies one before what it depends on.
\<close>

theorem batch_well_formed:
  assumes "createDeviceSyncBatchV1 E i = Some (Inr b)"
  shows "length (bt_changes b) \<le> 256
     \<and> stable E (in_bt_deviceId i) = Some (bt_deviceId b)
     \<and> scope_value E (in_bt_tenantScope i) = Some (bt_tenantScope b)
     \<and> (\<forall>c \<in> set (bt_changes b). ch_deviceId c = bt_deviceId b \<and> ch_tenantScope c = bt_tenantScope b)
     \<and> distinct (map ch_changeId (bt_changes b)) \<and> distinct (map ch_operationId (bt_changes b))
     \<and> (\<forall>j k. j < length (bt_changes b) \<longrightarrow> k < length (bt_changes b) \<longrightarrow>
          ch_operationId (bt_changes b ! k) \<in> set (ch_dependencyIds (bt_changes b ! j)) \<longrightarrow> k < j)"
  using assms
proof (cases rule: batch_accepted)
  case (1 deviceId scope)
  then have "batch_changes E i deviceId scope = Inr b" by blast
  then obtain raw changes where r: "\<not> 256 < length raw"
    "collect_changes E deviceId scope [] raw = Inr changes" "\<not> out_of_order changes"
    and b: "bt_deviceId b = deviceId" "bt_tenantScope b = scope" "bt_changes b = changes"
    unfolding batch_changes_def by (auto simp: result_simps)
  from collect_accepted [OF r(2)] r(1,3) b 1(1,2) in_order show ?thesis by simp
qed

theorem batch_well_formed_witness:
  "\<exists>b. createDeviceSyncBatchV1 sample_env (sample_batch_input (sample_scope CHR ''a'' CHR ''b'')) = Some (Inr b)
     \<and> distinct (map ch_operationId (bt_changes b)) \<and> length (bt_changes b) = 2"
proof -
  obtain x y where x:
    "createDeviceSyncChangeV1 sample_env (change_of (sample_change_value CHR ''a'' CHR ''a'' [])) = Inr x"
    "ch_changeId x = uuid_of CHR ''a''" "ch_operationId x = uuid_of CHR ''a''" "ch_deviceId x = uuid_of CHR ''b''"
    "ch_tenantScope x = ws_scope CHR ''a'' CHR ''b''" "ch_dependencyIds x = []"
    and y: "createDeviceSyncChangeV1 sample_env (change_of (sample_change_value CHR ''c'' CHR ''c'' [sample_id CHR ''a''])) = Inr y"
    "ch_changeId y = uuid_of CHR ''c''" "ch_operationId y = uuid_of CHR ''c''" "ch_deviceId y = uuid_of CHR ''b''"
    "ch_tenantScope y = ws_scope CHR ''a'' CHR ''b''" "ch_dependencyIds y = [uuid_of CHR ''a'']"
    using sample_change_created by blast
  have o: "object_like (sample_change_value c p deps)" for c p deps by (simp add: sample_change_value_def)
  have "\<not> out_of_order [x, y]" using x y by (simp add: out_of_order_def)
  then have ch: "batch_changes sample_env (sample_batch_input (sample_scope CHR ''a'' CHR ''b'')) (uuid_of CHR ''b'')
      (ws_scope CHR ''a'' CHR ''b'')
    = Inr \<lparr>bt_deviceId = uuid_of CHR ''b'', bt_tenantScope = ws_scope CHR ''a'' CHR ''b'',
           bt_cursor = sample_cursor_value (sample_scope CHR ''a'' CHR ''b''), bt_nextCursor = None,
           bt_changes = [x, y]\<rparr>"
    using x y o by (simp add: batch_changes_def sample_batch_input_def result_simps)
  have "cursorShape (sample_cursor_value (sample_scope CHR ''a'' CHR ''b''))"
    by (simp add: cursorShape_def sample_cursor_value_def is_int_def ws_scope_def)
  moreover have "cursor_matches (sample_cursor_value (sample_scope CHR ''a'' CHR ''b'')) (uuid_of CHR ''b'')
      (ws_scope CHR ''a'' CHR ''b'') = Some True"
    by (simp add: cursor_matches_def sample_cursor_value_def raw_scope_equal_def ws_scope_def)
  ultimately have "createDeviceSyncBatchV1 sample_env (sample_batch_input (sample_scope CHR ''a'' CHR ''b''))
    = Some (Inr \<lparr>bt_deviceId = uuid_of CHR ''b'', bt_tenantScope = ws_scope CHR ''a'' CHR ''b'',
           bt_cursor = sample_cursor_value (sample_scope CHR ''a'' CHR ''b''), bt_nextCursor = None,
           bt_changes = [x, y]\<rparr>)"
    using ch by (simp add: createDeviceSyncBatchV1_def sample_batch_input_def)
  from batch_well_formed [OF this] this show ?thesis by auto
qed

text \<open>
  C38: Cursors round-trip and nothing else passes. If the signer verifies exactly the signatures of
  the issued cursors, and those were made by \<open>createDeviceSyncCursorV1\<close>, then a presented cursor is
  accepted exactly if it is, field by field, one of the issued ones, and the check fits it: device,
  scope and epoch are its own, its revision is at least the minimum, every optional value that is given
  is the cursor's, and the time is within its life.
\<close>

theorem cursor_accepted_exactly:
  assumes "\<And>p s. verify p s \<longleftrightarrow> (\<exists>d \<in> Issued. cur_payload d = p \<and> cur_signature d = s)"
    and "\<And>d. d \<in> Issued \<Longrightarrow> \<exists>i sign. createDeviceSyncCursorV1 E i sign = Inr d"
  shows "verifyDeviceSyncCursorV1 E c k verify = Inr () \<longleftrightarrow> c \<in> Issued \<and> (\<exists>now. check_fits E c k now)"
proof -
  have made: "cur_payload d = canonicalCursor (unsigned_cursor.truncate d)" "cur_schemaVersion d = 1"
    if "d \<in> Issued" for d
    using assms(2) [OF that] create_cursor_accepted by blast+
  have "c \<in> Issued" if c: "canonicalCursor (unsigned_cursor.truncate c) = cur_payload c"
    "verify (cur_payload c) (cur_signature c)"
  proof -
    obtain d where d: "d \<in> Issued" "cur_payload d = cur_payload c" "cur_signature d = cur_signature c"
      using c(2) assms(1) by blast
    have "unsigned_cursor.truncate c = unsigned_cursor.truncate d"
      by (rule cursors.payload_unique [OF c(1) [symmetric]]) (use made(1) [OF d(1)] d(2) in simp)
    then have "c = d" using d(2,3) by (cases c; cases d) (simp add: unsigned_cursor.defs)
    with d(1) show ?thesis by simp
  qed
  then show ?thesis
    unfolding verify_cursor_iff using made assms(1) by metis
qed

theorem cursor_accepted_exactly_witness:
  "verifyDeviceSyncCursorV1 sample_env sample_cursor sample_check
     (\<lambda>p s. p = cur_payload sample_cursor \<and> s = cur_signature sample_cursor) = Inr ()"
proof -
  have "(p = cur_payload sample_cursor \<and> s = cur_signature sample_cursor)
      \<longleftrightarrow> (\<exists>d \<in> {sample_cursor}. cur_payload d = p \<and> cur_signature d = s)" for p s by auto
  note exact = cursor_accepted_exactly [OF this, of sample_env]
  have "mode_text (cur_dataMode sample_cursor) = ''Hybrid''"
    by (simp add: sample_cursor_def sample_unsigned_cursor_def unsigned_cursor.defs)
  then have "check_fits sample_env sample_cursor sample_check (time_of ''05'')"
    by (simp add: check_fits_def sample_check_def sample_cursor_def sample_unsigned_cursor_def
        unsigned_cursor.defs max_safe_integer_def nonNegativeRevision_def safe_integer_from_def)
  with exact sample_cursor_created show ?thesis by blast
qed

text \<open>
  A batch whose cursor has \<open>null\<close> for its tenant scope passes the shape test, because the type of
  \<open>null\<close> is \<open>object\<close>, and then makes the comparison of scopes throw instead of being rejected.
\<close>

theorem batch_throws_on_null_scope:
  "createDeviceSyncBatchV1 sample_env (sample_batch_input Null) = None"
proof -
  have "cursorShape (sample_cursor_value Null)"
    by (simp add: cursorShape_def sample_cursor_value_def is_int_def)
  moreover have "cursor_matches (sample_cursor_value Null) (uuid_of CHR ''b'') scope = None" for scope
    by (simp add: cursor_matches_def sample_cursor_value_def raw_scope_equal_def)
  ultimately show ?thesis by (simp add: createDeviceSyncBatchV1_def sample_batch_input_def)
qed

end
