(* ===== verification/WebSecurity.thy ===== *)
theory WebSecurity
  imports Json
begin

text \<open>
  The helpers behind browser and native sign-in, packages/domain/src/csrf/v1.ts and pkce/v1.ts: the
  comparison of two tokens without an early return, written with bitwise operations on 32-bit
  integers, the S256 challenge over a hash that is an argument, and the allowed redirect addresses.
\<close>

unbundle bit_operations_syntax

section \<open>Comparison without an early return\<close>

text \<open>\<open>index < s.length ? s.charCodeAt(index) : 0\<close>\<close>

definition code_at :: "jsstr \<Rightarrow> nat \<Rightarrow> 32 word" where
  "code_at s i = (if i < length s then ucast (s ! i) else 0)"

text \<open>\<open>difference |= left ^ right\<close> over the positions below a bound.\<close>

definition accumulate_differences :: "jsstr \<Rightarrow> jsstr \<Rightarrow> nat \<Rightarrow> 32 word \<Rightarrow> 32 word" where
  "accumulate_differences left right bound difference =
     fold (\<lambda>i d. d OR (code_at left i XOR code_at right i)) [0..<bound] difference"

definition token_unit :: "16 word \<Rightarrow> bool" where
  "token_unit c \<longleftrightarrow> upper c \<or> lower c \<or> digit c \<or> c = 95 \<or> c = 45"

definition validateCsrfTokenV1 :: "jsval \<Rightarrow> jsstr option" where
  "validateCsrfTokenV1 v =
     (case v of
        Str s \<Rightarrow>
          if length s < 32 \<or> length s > 256 then None
          else if \<not> list_all token_unit s then None
          else Some s
      | _ \<Rightarrow> None)"

definition compareCsrfTokensV1 :: "jsval \<Rightarrow> jsval \<Rightarrow> bool" where
  "compareCsrfTokensV1 cookieToken headerToken =
     (case validateCsrfTokenV1 cookieToken of
        None \<Rightarrow> False
      | Some left \<Rightarrow>
     (case validateCsrfTokenV1 headerToken of
        None \<Rightarrow> False
      | Some right \<Rightarrow>
          accumulate_differences left right (max (length left) (length right))
            (of_nat (length left) XOR of_nat (length right)) = 0))"

section \<open>Proof keys\<close>

datatype pkce_error = INVALID_VERIFIER | CRYPTO_UNAVAILABLE

definition verifier_unit :: "16 word \<Rightarrow> bool" where
  "verifier_unit c \<longleftrightarrow> upper c \<or> lower c \<or> digit c \<or> c = 45 \<or> c = 46 \<or> c = 95 \<or> c = 126"

definition validVerifier :: "jsval \<Rightarrow> jsstr option" where
  "validVerifier v =
     (case v of
        Str s \<Rightarrow> if 43 \<le> length s \<and> length s \<le> 128 \<and> list_all verifier_unit s then Some s else None
      | _ \<Rightarrow> None)"

definition challenge_text :: "jsstr \<Rightarrow> bool" where
  "challenge_text s \<longleftrightarrow> length s = 43 \<and> list_all token_unit s"

definition equalStrings :: "jsstr \<Rightarrow> jsstr \<Rightarrow> bool" where
  "equalStrings left right =
     (if length left \<noteq> length right then False
      else accumulate_differences left right (length left) 0 = 0)"

text \<open>The hash port returns a text or throws (\<open>None\<close>). A challenge is its text.\<close>

definition createPkceChallengeV1 :: "jsval \<Rightarrow> (jsstr \<Rightarrow> jsstr option) \<Rightarrow> pkce_error + jsstr" where
  "createPkceChallengeV1 verifier sha256Base64Url =
     require INVALID_VERIFIER (validVerifier verifier) (\<lambda>s.
     require CRYPTO_UNAVAILABLE (sha256Base64Url s) (\<lambda>challenge.
     reject_if (\<not> challenge_text challenge) CRYPTO_UNAVAILABLE (
     accepted challenge)))"

definition verifyPkceChallengeV1 :: "jsval \<Rightarrow> jsval \<Rightarrow> (jsstr \<Rightarrow> jsstr option) \<Rightarrow> bool" where
  "verifyPkceChallengeV1 verifier challenge sha256Base64Url =
     (case challenge of
        Str given \<Rightarrow>
          if \<not> challenge_text given then False
          else (case createPkceChallengeV1 verifier sha256Base64Url of
                  Inl _ \<Rightarrow> False
                | Inr created \<Rightarrow> equalStrings created given)
      | _ \<Rightarrow> False)"

section \<open>Redirect addresses\<close>

definition callback_port :: "jsstr \<Rightarrow> int option" where
  "callback_port s =
     (case strip (js ''http://127.0.0.1:'') s of
        None \<Rightarrow> None
      | Some r \<Rightarrow>
          let ds = takeWhile digit r
          in if 1 \<le> length ds \<and> length ds \<le> 5 \<and> dropWhile digit r = js ''/callback''
             then Some (decimal ds) else None)"

definition isAllowedRedirectUriV1 :: "jsval \<Rightarrow> bool" where
  "isAllowedRedirectUriV1 v =
     (case v of
        Str s \<Rightarrow>
          if length s > 200 then False
          else if s = js ''com.databreeze.desktop:/oauth2redirect''
                  \<or> s = js ''com.databreeze.android:/oauth2redirect'' then True
          else (case callback_port s of None \<Rightarrow> False | Some port \<Rightarrow> 1 \<le> port \<and> port \<le> 65535)
      | _ \<Rightarrow> False)"

section \<open>Lemmas\<close>

lemma or_zero: "a OR b = 0 \<longleftrightarrow> a = 0 \<and> b = (0 :: 'a::len word)"
  by (auto simp: bit_eq_iff bit_or_iff)

lemma xor_zero: "a XOR b = 0 \<longleftrightarrow> a = (b :: 'a::len word)"
  by (auto simp: bit_eq_iff bit_xor_iff)

lemma fold_or_zero:
  "fold (\<lambda>i d. d OR f i) xs d = 0 \<longleftrightarrow> d = 0 \<and> (\<forall>i \<in> set xs. f i = (0 :: 'a::len word))"
  by (induction xs arbitrary: d) (auto simp: or_zero)

lemma ucast_16_32_inject: "(ucast (a :: 16 word) :: 32 word) = ucast b \<longleftrightarrow> a = b"
proof
  assume "(ucast a :: 32 word) = ucast b"
  then have "unat (ucast a :: 32 word) = unat (ucast b :: 32 word)" by simp
  then have "unat a = unat b" by (simp add: unsigned_ucast_eq take_bit_nat_eq_self less_trans [OF unsigned_less])
  then show "a = b" by (rule unsigned_word_eqI)
qed simp

lemma differences_zero:
  "accumulate_differences left right bound d = 0
     \<longleftrightarrow> d = 0 \<and> (\<forall>i < bound. code_at left i = code_at right i)"
  by (auto simp: accumulate_differences_def fold_or_zero xor_zero)

lemma same_codes:
  assumes "length left = length right"
  shows "(\<forall>i < length left. code_at left i = code_at right i) \<longleftrightarrow> left = right"
  using assms by (auto simp: code_at_def ucast_16_32_inject list_eq_iff_nth_eq)

lemma equalStrings_iff: "equalStrings left right \<longleftrightarrow> left = right"
  using same_codes by (auto simp: equalStrings_def differences_zero)

lemma lengths_equal:
  assumes "n \<le> 256" "m \<le> 256"
  shows "(of_nat n XOR of_nat m :: 32 word) = 0 \<longleftrightarrow> n = m"
proof -
  have "(of_nat n :: 32 word) = of_nat m \<longleftrightarrow> n = m"
    using assms by (simp add: word_of_nat_eq_iff take_bit_nat_eq_self)
  then show ?thesis by (simp add: xor_zero)
qed

lemma valid_token: "validateCsrfTokenV1 v = Some s \<longleftrightarrow> v = Str s \<and> 32 \<le> length s \<and> length s \<le> 256 \<and> list_all token_unit s"
  by (auto simp: validateCsrfTokenV1_def split: jsval.splits)

lemma length_show_nat: "length (show_nat n) \<le> Suc k \<longleftrightarrow> n < 10 ^ Suc k"
proof (induction n arbitrary: k rule: show_nat.induct)
  case (1 n)
  show ?case
  proof (cases "n < 10")
    case True
    have "n < 10 ^ Suc k" by (rule less_le_trans [OF True]) simp
    with True show ?thesis by (simp add: show_nat.simps [of n])
  next
    case False
    then have n: "show_nat n = show_nat (n div 10) @ [of_nat (48 + n mod 10)]"
      by (simp add: show_nat.simps [of n])
    show ?thesis
    proof (cases k)
      case 0
      with False show ?thesis by (simp add: n)
    next
      case (Suc j)
      have "length (show_nat n) \<le> Suc k \<longleftrightarrow> n div 10 < 10 ^ Suc j"
        using 1 [OF False, of j] Suc by (simp add: n)
      also have "\<dots> \<longleftrightarrow> n < 10 ^ Suc k"
        using Suc by (auto simp: div_less_iff_less_mult)
      finally show ?thesis .
    qed
  qed
qed

lemma takeWhile_show_nat:
  "takeWhile digit (show_nat n @ 47 # r) = show_nat n" "dropWhile digit (show_nat n @ 47 # r) = 47 # r"
proof -
  have "\<not> digit 47" by (simp add: digit_def in_range_def)
  then show "takeWhile digit (show_nat n @ 47 # r) = show_nat n"
    "dropWhile digit (show_nat n @ 47 # r) = 47 # r"
    using show_nat_digits [of n] by (simp_all add: list_all_iff)
qed

section \<open>Properties\<close>

text \<open>
  The comparison without an early return decides equality. Two values pass exactly if they are the
  same string and that string is a valid token; in particular tokens of different lengths, and tokens of
  which one is a prefix of the other, never pass.
\<close>

theorem csrf_comparison_is_equality:
  "compareCsrfTokensV1 a b \<longleftrightarrow>
     (\<exists>s. a = Str s \<and> b = Str s \<and> 32 \<le> length s \<and> length s \<le> 256 \<and> list_all token_unit s)"
proof (cases "validateCsrfTokenV1 a = None \<or> validateCsrfTokenV1 b = None")
  case True
  then show ?thesis by (auto simp: compareCsrfTokensV1_def validateCsrfTokenV1_def split: jsval.splits if_splits)
next
  case False
  then obtain s t where st: "validateCsrfTokenV1 a = Some s" "validateCsrfTokenV1 b = Some t" by auto
  then have len: "length s \<le> 256" "length t \<le> 256" by (auto simp: valid_token)
  have "compareCsrfTokensV1 a b \<longleftrightarrow>
      length s = length t \<and> (\<forall>i < max (length s) (length t). code_at s i = code_at t i)"
    unfolding compareCsrfTokensV1_def st option.case differences_zero lengths_equal [OF len] by (rule refl)
  also have "\<dots> \<longleftrightarrow> s = t" using same_codes [of s t] by auto
  finally show ?thesis using st by (auto simp: valid_token)
qed

text \<open>
  A proof key is accepted exactly if the verifier is well formed, the hash of it is available and
  well formed, and it is the presented challenge.
\<close>

theorem pkce_verified_exactly:
  "verifyPkceChallengeV1 verifier challenge H \<longleftrightarrow>
     (\<exists>s c. validVerifier verifier = Some s \<and> H s = Some c \<and> challenge_text c \<and> challenge = Str c)"
  by (cases challenge; cases "validVerifier verifier")
     (auto simp: verifyPkceChallengeV1_def createPkceChallengeV1_def result_simps equalStrings_iff
        require_def reject_if_def split: option.splits)

text \<open>
  Of the addresses of the loopback interface, those with a port between 1 and 65535 are allowed,
  and no other number.
\<close>

theorem loopback_redirect_ports:
  "isAllowedRedirectUriV1 (Str (js ''http://127.0.0.1:'' @ show_nat n @ js ''/callback''))
     \<longleftrightarrow> 1 \<le> n \<and> n \<le> 65535"
proof -
  have tail: "js ''/callback'' = 47 # js ''callback''" by (simp add: js_def)
  have port: "callback_port (js ''http://127.0.0.1:'' @ show_nat n @ js ''/callback'')
      = (if n < 100000 then Some (int n) else None)"
    using length_show_nat [of n 4]
    by (simp add: callback_port_def tail takeWhile_show_nat Let_def decimal_show_nat Suc_le_eq)
  have native: "js ''http://127.0.0.1:'' @ r \<noteq> js ''com.databreeze.desktop:/oauth2redirect''"
    "js ''http://127.0.0.1:'' @ r \<noteq> js ''com.databreeze.android:/oauth2redirect''" for r
    by (simp_all add: js_def)
  show ?thesis
  proof (cases "n < 100000")
    case True
    then have "length (show_nat n) \<le> 5" using length_show_nat [of n 4] by simp
    with True port native show ?thesis by (auto simp: isAllowedRedirectUriV1_def)
  next
    case False
    with port native show ?thesis by (simp add: isAllowedRedirectUriV1_def)
  qed
qed

end
