(* ===== verification/Csv.thy ===== *)
theory Csv
  imports Json
begin

text \<open>
  The delimited-text reader of the web application, apps/web/src/features/data/csv-parser.ts: the
  state of the scanner, its step on one character and the next one, the index loop over the text,
  the guess of the delimiter. An independent description of delimited documents (bare and quoted
  fields, the three line ends) is what the reader is proved against.
\<close>

section \<open>The scanner\<close>

text \<open>The variables of \<open>parseCsvRows\<close>.\<close>

record csv_state =
  csv_rows :: "jsstr list list"
  csv_row :: "jsstr list"
  csv_field :: jsstr
  csv_inQuotes :: bool

definition stripBom :: "jsstr \<Rightarrow> jsstr" where
  "stripBom t = (case t of c # cs \<Rightarrow> if c = 0xFEFF then cs else t | [] \<Rightarrow> t)"

text \<open>\<open>text.split(/\r?\n/u)\<close>\<close>

fun split_lines :: "jsstr \<Rightarrow> jsstr list" where
  "split_lines [] = [[]]"
| "split_lines (c # cs) =
     (if c = 10 then [] # split_lines cs
      else if c = 13 \<and> cs \<noteq> [] \<and> hd cs = 10 then [] # split_lines (tl cs)
      else (c # hd (split_lines cs)) # tl (split_lines cs))"

definition occurrences :: "16 word \<Rightarrow> jsstr list \<Rightarrow> nat" where
  "occurrences c ls = length (filter (\<lambda>x. x = c) (concat ls))"

definition detectDelimiter :: "jsstr \<Rightarrow> 16 word" where
  "detectDelimiter t =
     (let firstLines = take 5 (split_lines t);
          commaCount = occurrences 44 firstLines;
          semicolonCount = occurrences 59 firstLines;
          tabCount = occurrences 9 firstLines
      in if tabCount > commaCount \<and> tabCount > semicolonCount then 9
         else if semicolonCount > commaCount then 59
         else 44)"

text \<open>\<open>currentRow.push(currentField.trim()); currentField = ''\<close>\<close>

definition push_field :: "csv_state \<Rightarrow> csv_state" where
  "push_field s = s\<lparr>csv_row := csv_row s @ [trim (csv_field s)], csv_field := []\<rparr>"

text \<open>\<open>if (currentRow.some((field) => field.length > 0)) rows.push(currentRow)\<close>\<close>

definition keep_row :: "jsstr list list \<Rightarrow> jsstr list \<Rightarrow> jsstr list list" where
  "keep_row rows row = (if list_ex (\<lambda>f. f \<noteq> []) row then rows @ [row] else rows)"

definition push_row :: "csv_state \<Rightarrow> csv_state" where
  "push_row s =
     (let s' = push_field s
      in s'\<lparr>csv_rows := keep_row (csv_rows s') (csv_row s'), csv_row := []\<rparr>)"

text \<open>One round of the loop; the second component says whether the next character is skipped.\<close>

definition csv_step :: "16 word \<Rightarrow> 16 word \<Rightarrow> 16 word option \<Rightarrow> csv_state \<Rightarrow> csv_state \<times> nat" where
  "csv_step delimiter c next_char s =
     (if csv_inQuotes s then
        if c = 34 \<and> next_char = Some 34 then (s\<lparr>csv_field := csv_field s @ [34]\<rparr>, 1)
        else if c = 34 then (s\<lparr>csv_inQuotes := False\<rparr>, 0)
        else (s\<lparr>csv_field := csv_field s @ [c]\<rparr>, 0)
      else if c = 34 then (s\<lparr>csv_inQuotes := True\<rparr>, 0)
      else if c = delimiter then (push_field s, 0)
      else if c = 13 then (push_row s, if next_char = Some 10 then 1 else 0)
      else if c = 10 then (push_row s, 0)
      else (s\<lparr>csv_field := csv_field s @ [c]\<rparr>, 0))"

function csv_loop :: "jsstr \<Rightarrow> 16 word \<Rightarrow> nat \<Rightarrow> csv_state \<Rightarrow> csv_state" where
  "csv_loop t delimiter index s =
     (if index < length t then
        let (s', skip) = csv_step delimiter (t ! index)
              (if index + 1 < length t then Some (t ! (index + 1)) else None) s
        in csv_loop t delimiter (index + skip + 1) s'
      else s)"
  by pat_completeness auto

termination by (relation "measure (\<lambda>(t, _, index, _). length t - index)") auto

declare csv_loop.simps [simp del]

text \<open>After the loop: the last row, when the text does not end with a line end.\<close>

definition csv_finish :: "csv_state \<Rightarrow> jsstr list list" where
  "csv_finish s =
     (if csv_field s \<noteq> [] \<or> csv_row s \<noteq> [] then csv_rows (push_row s) else csv_rows s)"

definition csv_start :: csv_state where
  "csv_start = \<lparr>csv_rows = [], csv_row = [], csv_field = [], csv_inQuotes = False\<rparr>"

definition parseCsvRows :: "jsstr \<Rightarrow> 16 word \<Rightarrow> jsstr list list" where
  "parseCsvRows t delimiter = csv_finish (csv_loop t delimiter 0 csv_start)"

section \<open>The scanner as a recursion over the text\<close>

function csv_run :: "16 word \<Rightarrow> jsstr \<Rightarrow> csv_state \<Rightarrow> csv_state" where
  "csv_run d [] s = s"
| "csv_run d (c # cs) s =
     (case csv_step d c (case cs of [] \<Rightarrow> None | n # _ \<Rightarrow> Some n) s of
        (s', skip) \<Rightarrow> csv_run d (drop skip cs) s')"
  by pat_completeness auto

termination by (relation "measure (\<lambda>(_, t, _). length t)") auto

lemma csv_loop_run: "csv_loop t d i s = csv_run d (drop i t) s"
proof (induction t d i s rule: csv_loop.induct)
  case (1 t d i s)
  show ?case
  proof (cases "i < length t")
    case True
    have next_char: "(if i + 1 < length t then Some (t ! (i + 1)) else None)
        = (case drop (Suc i) t of [] \<Rightarrow> None | n # _ \<Rightarrow> Some n)"
      by (cases "Suc i < length t") (auto simp flip: Cons_nth_drop_Suc)
    obtain s' skip where r: "csv_step d (t ! i) (if i + 1 < length t then Some (t ! (i + 1)) else None) s = (s', skip)"
      by fastforce
    have "csv_loop t d i s = csv_loop t d (i + skip + 1) s'"
      using True r by (subst csv_loop.simps) simp
    also have "\<dots> = csv_run d (drop (i + skip + 1) t) s'" using 1 [OF True r [symmetric] refl] by simp
    also have "drop (i + skip + 1) t = drop skip (drop (Suc i) t)" by (simp add: ac_simps)
    also have "csv_run d (drop skip (drop (Suc i) t)) s' = csv_run d (t ! i # drop (Suc i) t) s"
      using r unfolding next_char by simp
    also have "t ! i # drop (Suc i) t = drop i t" using True by (rule Cons_nth_drop_Suc)
    finally show ?thesis .
  next
    case False
    then show ?thesis by (subst csv_loop.simps) simp
  qed
qed

section \<open>Delimited documents\<close>

text \<open>
  What a writer may produce. A field is written bare, when it has none of the special characters, or
  between quotes, every quote in it doubled; fields are separated by the delimiter and rows by one of
  the line ends, with or without one after the last row.
\<close>

definition double_quotes :: "jsstr \<Rightarrow> jsstr" where
  "double_quotes f = concat (map (\<lambda>c. if c = 34 then [34, 34] else [c]) f)"

inductive field_text :: "16 word \<Rightarrow> jsstr \<Rightarrow> jsstr \<Rightarrow> bool" for d where
  bare: "\<forall>c \<in> set f. c \<noteq> 34 \<and> c \<noteq> d \<and> c \<noteq> 13 \<and> c \<noteq> 10 \<Longrightarrow> field_text d f f"
| quoted: "field_text d f (34 # double_quotes f @ [34])"

inductive row_text :: "16 word \<Rightarrow> jsstr list \<Rightarrow> jsstr \<Rightarrow> bool" for d where
  last_field: "field_text d f w \<Longrightarrow> row_text d [f] w"
| more_fields: "field_text d f w \<Longrightarrow> row_text d fs v \<Longrightarrow> row_text d (f # fs) (w @ d # v)"

inductive document :: "16 word \<Rightarrow> jsstr \<Rightarrow> jsstr list list \<Rightarrow> jsstr \<Rightarrow> bool" for d nl where
  empty: "document d nl [] []"
| last_row: "row_text d r w \<Longrightarrow> document d nl [r] w"
| more_rows: "row_text d r w \<Longrightarrow> document d nl rs v \<Longrightarrow> document d nl (r # rs) (w @ nl @ v)"

definition delimiters :: "16 word set" where
  "delimiters = {44, 59, 9}"

definition line_ends :: "jsstr set" where
  "line_ends = {[10], [13, 10], [13]}"

abbreviation reading :: "jsstr list list \<Rightarrow> jsstr list \<Rightarrow> jsstr \<Rightarrow> csv_state" where
  "reading rows row f \<equiv> \<lparr>csv_rows = rows, csv_row = row, csv_field = f, csv_inQuotes = False\<rparr>"

abbreviation reading_quoted :: "jsstr list list \<Rightarrow> jsstr list \<Rightarrow> jsstr \<Rightarrow> csv_state" where
  "reading_quoted rows row f \<equiv> \<lparr>csv_rows = rows, csv_row = row, csv_field = f, csv_inQuotes = True\<rparr>"

lemma delimiter_plain: "d \<in> delimiters \<Longrightarrow> d \<noteq> 34 \<and> d \<noteq> 13 \<and> d \<noteq> 10"
  by (auto simp: delimiters_def)

lemma run_bare:
  assumes "\<forall>c \<in> set w. c \<noteq> 34 \<and> c \<noteq> d \<and> c \<noteq> 13 \<and> c \<noteq> 10"
  shows "csv_run d (w @ rest) (reading rows row f) = csv_run d rest (reading rows row (f @ w))"
  using assms by (induction w arbitrary: f) (auto simp: csv_step_def)

lemma run_doubled:
  assumes "rest = [] \<or> hd rest \<noteq> 34"
  shows "csv_run d (double_quotes w @ 34 # rest) (reading_quoted rows row f)
    = csv_run d rest (reading rows row (f @ w))"
proof (induction w arbitrary: f)
  case Nil
  with assms show ?case by (cases rest) (auto simp: double_quotes_def csv_step_def)
next
  case (Cons c w)
  show ?case
  proof (cases "c = 34")
    case True
    have "csv_run d (double_quotes (c # w) @ 34 # rest) (reading_quoted rows row f)
        = csv_run d (double_quotes w @ 34 # rest) (reading_quoted rows row (f @ [c]))"
      using True by (simp add: double_quotes_def csv_step_def)
    with Cons show ?thesis by simp
  next
    case False
    have "csv_run d (double_quotes (c # w) @ 34 # rest) (reading_quoted rows row f)
        = csv_run d (double_quotes w @ 34 # rest) (reading_quoted rows row (f @ [c]))"
      using False by (simp add: double_quotes_def csv_step_def)
    with Cons show ?thesis by simp
  qed
qed

lemma run_field:
  assumes "field_text d f w" "d \<in> delimiters" "rest = [] \<or> hd rest \<noteq> 34"
  shows "csv_run d (w @ rest) (reading rows row []) = csv_run d rest (reading rows row f)"
  using assms(1)
proof cases
  case bare
  then show ?thesis using run_bare [of f d rest rows row "[]"] by simp
next
  case quoted
  have "csv_run d (w @ rest) (reading rows row [])
      = csv_run d (double_quotes f @ 34 # rest) (reading_quoted rows row [])"
    using quoted by (simp add: csv_step_def)
  also have "\<dots> = csv_run d rest (reading rows row f)"
    using run_doubled [OF assms(3), of d f rows row "[]"] by simp
  finally show ?thesis .
qed

lemma run_delimiter:
  "d \<in> delimiters \<Longrightarrow>
     csv_run d (d # rest) (reading rows row f) = csv_run d rest (reading rows (row @ [trim f]) [])"
  by (auto dest: delimiter_plain simp: csv_step_def push_field_def)

lemma run_row:
  assumes "row_text d fs w" "d \<in> delimiters" "rest = [] \<or> hd rest \<noteq> 34"
  shows "csv_run d (w @ rest) (reading rows row [])
    = csv_run d rest (reading rows (row @ map trim (butlast fs)) (last fs))"
  using assms(1)
proof (induction arbitrary: row)
  case (last_field f w)
  from run_field [OF this assms(2,3)] show ?case by simp
next
  case (more_fields f w fs v)
  have ne: "fs \<noteq> []" using more_fields(2) by cases auto
  have "csv_run d ((w @ d # v) @ rest) (reading rows row [])
      = csv_run d (d # v @ rest) (reading rows row f)"
    using run_field [OF more_fields(1) assms(2), of "d # v @ rest"] delimiter_plain [OF assms(2)] by simp
  also have "\<dots> = csv_run d (v @ rest) (reading rows (row @ [trim f]) [])"
    by (rule run_delimiter [OF assms(2)])
  also have "\<dots> = csv_run d rest (reading rows (row @ map trim (butlast (f # fs))) (last (f # fs)))"
    using more_fields(3) ne by simp
  finally show ?case .
qed

lemma row_text_nonempty: "row_text d fs w \<Longrightarrow> fs \<noteq> []"
  by (induction rule: row_text.induct) auto

lemma field_text_head:
  assumes "field_text d f w"
  shows "w = [] \<or> hd w \<noteq> 10"
  using assms by cases (auto simp: neq_Nil_conv)

lemma row_text_head:
  assumes "row_text d fs w" "d \<in> delimiters"
  shows "w = [] \<or> hd w \<noteq> 10"
  using assms(1)
proof cases
  case (last_field f)
  then show ?thesis using field_text_head by blast
next
  case (more_fields f u fs v)
  with field_text_head [of d f u] delimiter_plain [OF assms(2)] show ?thesis by (cases u) auto
qed

lemma document_head:
  assumes "document d nl rs v" "d \<in> delimiters" "nl \<noteq> []" "hd nl \<noteq> 10"
  shows "v = [] \<or> hd v \<noteq> 10"
  using assms(1)
proof cases
  case (last_row r)
  with row_text_head assms(2) show ?thesis by blast
next
  case (more_rows r w rs v)
  with row_text_head [OF more_rows(3) assms(2)] assms(3,4) show ?thesis by (cases w) auto
qed simp

text \<open>At a line end the row is complete.\<close>

lemma run_line_end:
  assumes "d \<in> delimiters" "nl \<in> line_ends" "nl = [13] \<Longrightarrow> v = [] \<or> hd v \<noteq> 10"
  shows "csv_run d (nl @ v) (reading rows row f)
    = csv_run d v (reading (keep_row rows (row @ [trim f])) [] [])"
proof -
  have d: "d \<noteq> 13" "d \<noteq> 10" using delimiter_plain [OF assms(1)] by simp_all
  from assms(2) consider "nl = [10]" | "nl = [13, 10]" | "nl = [13]" by (auto simp: line_ends_def)
  then show ?thesis
  proof cases
    case 3
    with assms(3) d show ?thesis
      by (cases v) (auto simp: csv_step_def push_row_def push_field_def Let_def)
  qed (use d in \<open>auto simp: csv_step_def push_row_def push_field_def Let_def\<close>)
qed

definition kept :: "jsstr list list \<Rightarrow> jsstr list list" where
  "kept rows = filter (list_ex (\<lambda>f. f \<noteq> [])) (map (map trim) rows)"

lemma kept_Cons: "rows @ kept (r # rs) = keep_row rows (map trim r) @ kept rs"
  by (simp add: kept_def keep_row_def)

lemma trim_Nil [simp]: "trim [] = []"
  by (simp add: trim_def)

lemma row_whole: "fs \<noteq> [] \<Longrightarrow> map trim (butlast fs) @ [trim (last fs)] = map trim fs"
  by (induction fs) auto

lemma finish_row:
  assumes "fs \<noteq> []"
  shows "csv_finish (reading rows (map trim (butlast fs)) (last fs)) = keep_row rows (map trim fs)"
proof (cases "last fs = [] \<and> butlast fs = []")
  case True
  with assms have "fs = [[]]" by (metis append_butlast_last_id append_Nil)
  then show ?thesis by (simp add: csv_finish_def keep_row_def)
next
  case False
  then have "csv_finish (reading rows (map trim (butlast fs)) (last fs))
      = csv_rows (push_row (reading rows (map trim (butlast fs)) (last fs)))"
    by (auto simp: csv_finish_def)
  then show ?thesis by (simp add: push_row_def push_field_def Let_def row_whole [OF assms])
qed

lemma run_document:
  assumes "document d nl rs t" "d \<in> delimiters" "nl \<in> line_ends"
  shows "csv_finish (csv_run d t (reading rows [] [])) = rows @ kept rs"
  using assms(1)
proof (induction arbitrary: rows)
  case empty
  show ?case by (simp add: csv_finish_def kept_def)
next
  case (last_row r w)
  have "csv_run d w (reading rows [] []) = reading rows (map trim (butlast r)) (last r)"
    using run_row [OF last_row assms(2), of "[]" rows "[]"] by simp
  then show ?case
    using finish_row [OF row_text_nonempty [OF last_row]] kept_Cons [of rows r "[]"]
    by (simp add: kept_def)
next
  case (more_rows r w rs v)
  have line: "nl \<noteq> []" "hd nl \<noteq> 34" using assms(3) by (auto simp: line_ends_def)
  have "csv_run d (w @ nl @ v) (reading rows [] [])
      = csv_run d (nl @ v) (reading rows (map trim (butlast r)) (last r))"
    using run_row [OF more_rows(1) assms(2), of "nl @ v" rows "[]"] line by (cases nl) auto
  also have "\<dots> = csv_run d v (reading (keep_row rows (map trim r)) [] [])"
    using run_line_end [OF assms(2,3), of v rows "map trim (butlast r)" "last r"]
      document_head [OF more_rows(2) assms(2)] row_whole [OF row_text_nonempty [OF more_rows(1)]]
    by auto
  finally show ?case using more_rows(3) kept_Cons by simp
qed

section \<open>Properties\<close>

text \<open>
  C39: reading undoes writing. Whatever the fields contain (delimiters, quotes, line ends), whichever
  of them are written bare or quoted, whichever delimiter and line end the writer uses, and with or
  without a line end at the end: the reader returns the written rows in order, every field trimmed,
  without the rows that have no text at all.
\<close>

theorem csv_roundtrip:
  assumes "document d nl rows t" "d \<in> delimiters" "nl \<in> line_ends"
  shows "parseCsvRows t d = filter (list_ex (\<lambda>f. f \<noteq> [])) (map (map trim) rows)"
  using run_document [OF assms, of "[]"]
  by (simp add: parseCsvRows_def csv_loop_run csv_start_def kept_def)

theorem csv_roundtrip_witness:
  "parseCsvRows (js ''a;b'' @ [13, 10] @ [34] @ js ''x;'' @ [34, 34] @ js ''y'' @ [34] @ js '';z'' @ [13, 10]) 59
    = [[js ''a'', js ''b''], [js ''x;'' @ [34] @ js ''y'', js ''z'']]"
proof -
  have f: "field_text 59 (js w) (js w)" if "w \<in> {''a'', ''b'', ''z''}" for w
    by (rule bare) (use that in \<open>auto simp: js_def\<close>)
  have q: "field_text 59 (js ''x;'' @ [34] @ js ''y'') ([34] @ js ''x;'' @ [34, 34] @ js ''y'' @ [34])"
    using quoted [of 59 "js ''x;'' @ [34] @ js ''y''"] by (simp add: double_quotes_def js_def)
  have "document 59 [13, 10] [[js ''a'', js ''b''], [js ''x;'' @ [34] @ js ''y'', js ''z'']]
      ((js ''a'' @ 59 # js ''b'') @ [13, 10]
       @ (([34] @ js ''x;'' @ [34, 34] @ js ''y'' @ [34]) @ 59 # js ''z'') @ [13, 10] @ [])"
    by (intro document.intros row_text.intros f q) simp_all
  moreover have "(js ''a'' @ 59 # js ''b'') @ [13, 10]
       @ (([34] @ js ''x;'' @ [34, 34] @ js ''y'' @ [34]) @ 59 # js ''z'') @ [13, 10] @ []
     = js ''a;b'' @ [13, 10] @ [34] @ js ''x;'' @ [34, 34] @ js ''y'' @ [34] @ js '';z'' @ [13, 10]"
    by (simp add: js_def)
  ultimately have "document 59 [13, 10] [[js ''a'', js ''b''], [js ''x;'' @ [34] @ js ''y'', js ''z'']]
      (js ''a;b'' @ [13, 10] @ [34] @ js ''x;'' @ [34, 34] @ js ''y'' @ [34] @ js '';z'' @ [13, 10])"
    by metis
  from csv_roundtrip [OF this]
  have "parseCsvRows (js ''a;b'' @ [13, 10] @ [34] @ js ''x;'' @ [34, 34] @ js ''y'' @ [34] @ js '';z'' @ [13, 10]) 59
    = filter (list_ex (\<lambda>f. f \<noteq> [])) (map (map trim) [[js ''a'', js ''b''], [js ''x;'' @ [34] @ js ''y'', js ''z'']])"
    by (simp add: delimiters_def line_ends_def)
  also have "\<dots> = [[js ''a'', js ''b''], [js ''x;'' @ [34] @ js ''y'', js ''z'']]"
    by (simp add: js_def trim_def whitespace_def in_range_def)
  finally show ?thesis .
qed

text \<open>
  The guess of the delimiter counts the candidates in the whole text of the first lines, inside
  quoted fields too: two commas in a quoted field outvote the semicolon that separates the fields.
\<close>

theorem quoted_commas_mislead:
  "\<exists>rows. document 59 [10] rows (34 # js ''1,5,0'' @ 34 # js '';x'')
     \<and> length (hd rows) = 2
     \<and> detectDelimiter (34 # js ''1,5,0'' @ 34 # js '';x'') = 44
     \<and> parseCsvRows (34 # js ''1,5,0'' @ 34 # js '';x'') 44 = [[js ''1,5,0;x'']]"
proof -
  have "field_text 59 (js ''1,5,0'') (34 # js ''1,5,0'' @ [34])"
    using quoted [of 59 "js ''1,5,0''"] by (simp add: double_quotes_def js_def)
  moreover have "field_text 59 (js ''x'') (js ''x'')" by (rule bare) (simp add: js_def)
  ultimately have "row_text 59 [js ''1,5,0'', js ''x''] ((34 # js ''1,5,0'' @ [34]) @ 59 # js ''x'')"
    by (intro row_text.intros)
  moreover have "js '';x'' = 59 # js ''x''" by (simp add: js_def)
  ultimately have "document 59 [10] [[js ''1,5,0'', js ''x'']] (34 # js ''1,5,0'' @ 34 # js '';x'')"
    by (auto intro: document.last_row)
  moreover have "detectDelimiter (34 # js ''1,5,0'' @ 34 # js '';x'') = 44"
    by (simp add: detectDelimiter_def js_def occurrences_def Let_def)
  moreover have "parseCsvRows (34 # js ''1,5,0'' @ 34 # js '';x'') 44 = [[js ''1,5,0;x'']]"
    by (simp add: parseCsvRows_def csv_loop_run csv_start_def csv_step_def js_def push_row_def
        push_field_def keep_row_def csv_finish_def trim_def whitespace_def in_range_def Let_def)
  ultimately show ?thesis by (intro exI [of _ "[[js ''1,5,0'', js ''x'']]"]) simp
qed

end
