(* ===== verification/Doubles.thy ===== *)
theory Doubles
  imports JsValue "HOL-Library.Log_Nat"
begin

text \<open>
  Numbers as JavaScript has them, IEEE doubles: rounding an exact result to the nearest double. The
  arithmetic of the sources is exact arithmetic on rationals followed by this rounding.
\<close>

text \<open>
  The double nearest to a rational, ties to even: the exponent of the binade, at least that of the
  subnormal numbers, gives the unit of the last place. A negative zero is not told from zero.
\<close>

definition pow2 :: "int \<Rightarrow> rat" where
  "pow2 e = (if 0 \<le> e then 2 ^ nat e else 1 / 2 ^ nat (- e))"

definition binade :: "rat \<Rightarrow> int" where
  "binade r =
     (case quotient_of r of (n, d) \<Rightarrow>
        let e = bitlen n - bitlen d in if pow2 e \<le> r then e else e - 1)"

definition half_even :: "rat \<Rightarrow> int" where
  "half_even q =
     (let f = \<lfloor>q\<rfloor>; t = q - of_int f in if t < 1 / 2 \<or> (t = 1 / 2 \<and> even f) then f else f + 1)"

definition nearest_double :: "rat \<Rightarrow> jsnum" where
  "nearest_double r =
     (if r = 0 then Finite 0
      else let e = max (- 1074) (binade \<bar>r\<bar> - 52); v = of_int (half_even (\<bar>r\<bar> / pow2 e)) * pow2 e
           in if v < pow2 1024 then Finite (sgn r * v)
              else if r < 0 then NegInfinity else PosInfinity)"

end
