(* ===== verification/Tabular.thy ===== *)
theory Tabular
  imports Csv Samples Doubles
begin

text \<open>
  Importing tabular files, apps/web/src/features/data/csv-parser.ts: the number formats, the guess
  of a column's number convention and type, the conversion of its cells, the merging of several
  files under one header, the limits and their errors. The decoder of bytes and the reader of
  workbooks (xlsx-parser.ts) are arguments.
\<close>

section \<open>Vocabulary\<close>

datatype convention = Convention_VI | Convention_EN | Convention_MIXED | Convention_NONE

datatype field_type = Field_TEXT | Field_INTEGER | Field_DECIMAL | Field_BOOLEAN | Field_DATE

datatype cell = Cell_null | Cell_bool bool | Cell_number jsnum | Cell_text jsstr

record column_schema =
  col_name :: jsstr
  col_type :: field_type
  col_nullCount :: nat
  col_invalidCount :: nat
  col_convention :: convention
  col_sampleValues :: "jsstr list"

record file_source =
  fsrc_fileName :: jsstr
  fsrc_byteSize :: nat
  fsrc_rowCount :: nat

record tabular =
  tab_fileName :: jsstr
  tab_headers :: "jsstr list"
  tab_columns :: "column_schema list"
  tab_rows :: "(jsstr \<Rightarrow> cell option) list"
  tab_totalRows :: nat
  tab_malformedRowCount :: nat
  tab_rawTextSnippet :: jsstr
  tab_warnings :: "jsstr list"
  tab_fileSources :: "file_source list"

datatype parse_code =
    EMPTY_FILE | NO_HEADERS | HEADER_MISMATCH | LIMIT_EXCEEDED | UNSUPPORTED_FORMAT | NOT_XLSX | NO_SHEET

record tabular_error =
  err_code :: parse_code
  err_detail :: "jsstr option"

record source_file =
  src_fileName :: jsstr
  src_bytes :: "8 word list"

section \<open>Number formats\<close>

definition without_sign :: "jsstr \<Rightarrow> jsstr" where
  "without_sign s = (case s of c # r \<Rightarrow> if c = 45 then r else s | [] \<Rightarrow> [])"

text \<open>As many groups of a separator and three digits as there are, and the rest.\<close>

fun digit_groups :: "16 word \<Rightarrow> jsstr \<Rightarrow> nat \<times> jsstr" where
  "digit_groups sep (s # a # b # c # r) =
     (if s = sep \<and> digit a \<and> digit b \<and> digit c
      then case digit_groups sep r of (n, rest) \<Rightarrow> (Suc n, rest)
      else (0, s # a # b # c # r))"
| "digit_groups sep r = (0, r)"

text \<open>The decimal separator and at least one digit, to the end.\<close>

definition fraction_part :: "16 word \<Rightarrow> jsstr \<Rightarrow> bool" where
  "fraction_part point r \<longleftrightarrow> r \<noteq> [] \<and> hd r = point \<and> tl r \<noteq> [] \<and> list_all digit (tl r)"

definition thousands :: "16 word \<Rightarrow> 16 word \<Rightarrow> jsstr \<Rightarrow> bool" where
  "thousands sep point s \<longleftrightarrow>
     (let u = without_sign s; n = length (takeWhile digit u)
      in 1 \<le> n \<and> n \<le> 3
         \<and> (case digit_groups sep (dropWhile digit u) of
              (groups, rest) \<Rightarrow> 1 \<le> groups \<and> (rest = [] \<or> fraction_part point rest)))"

definition with_fraction :: "16 word \<Rightarrow> jsstr \<Rightarrow> bool" where
  "with_fraction point s \<longleftrightarrow>
     takeWhile digit (without_sign s) \<noteq> [] \<and> fraction_part point (dropWhile digit (without_sign s))"

definition VI_THOUSANDS :: "jsstr \<Rightarrow> bool" where "VI_THOUSANDS = thousands 46 44"
definition VI_DECIMAL :: "jsstr \<Rightarrow> bool" where "VI_DECIMAL = with_fraction 44"
definition EN_THOUSANDS :: "jsstr \<Rightarrow> bool" where "EN_THOUSANDS = thousands 44 46"
definition EN_DECIMAL :: "jsstr \<Rightarrow> bool" where "EN_DECIMAL = with_fraction 46"

definition PLAIN_INTEGER :: "jsstr \<Rightarrow> bool" where
  "PLAIN_INTEGER s \<longleftrightarrow> without_sign s \<noteq> [] \<and> list_all digit (without_sign s)"

text \<open>Removal of the currency signs and of white space.\<close>

definition bare_amount :: "jsstr \<Rightarrow> jsstr" where
  "bare_amount s = filter (\<lambda>c. \<not> (c = 0x20AB \<or> c = 36 \<or> whitespace c)) s"

definition remove_unit :: "16 word \<Rightarrow> jsstr \<Rightarrow> jsstr" where
  "remove_unit c s = filter (\<lambda>x. x \<noteq> c) s"

definition comma_to_point :: "jsstr \<Rightarrow> jsstr" where
  "comma_to_point s = map (\<lambda>c. if c = 44 then 46 else c) s"

definition vi_value :: "jsstr \<Rightarrow> bool" where
  "vi_value raw \<longleftrightarrow> (let clean = bare_amount (trim raw) in VI_THOUSANDS clean \<or> VI_DECIMAL clean)"

definition en_value :: "jsstr \<Rightarrow> bool" where
  "en_value raw \<longleftrightarrow> (let clean = bare_amount (trim raw) in EN_THOUSANDS clean \<or> EN_DECIMAL clean)"

text \<open>The ratio that is computed beside the convention is used nowhere and left out.\<close>

definition detectNumberConvention :: "jsstr list \<Rightarrow> convention" where
  "detectNumberConvention values =
     (let nonEmpty = filter (\<lambda>raw. trim raw \<noteq> []) values;
          viCount = length (filter vi_value nonEmpty);
          enCount = length (filter (\<lambda>raw. \<not> vi_value raw \<and> en_value raw) nonEmpty)
      in if nonEmpty = [] then Convention_NONE
         else if viCount > 0 \<and> enCount > 0 then Convention_MIXED
         else if viCount > 0 then Convention_VI
         else if enCount > 0 then Convention_EN
         else Convention_NONE)"

section \<open>Dates and types\<close>

text \<open>Between \<open>lo\<close> and \<open>hi\<close> digits, none after them.\<close>

definition digit_run :: "nat \<Rightarrow> nat \<Rightarrow> jsstr \<Rightarrow> jsstr option" where
  "digit_run lo hi s =
     (let n = length (takeWhile digit s) in if lo \<le> n \<and> n \<le> hi then Some (drop n s) else None)"

definition unit_of :: "16 word set \<Rightarrow> jsstr \<Rightarrow> jsstr option" where
  "unit_of cs s = (case s of c # r \<Rightarrow> if c \<in> cs then Some r else None | [] \<Rightarrow> None)"

definition date_separators :: "16 word set" where
  "date_separators = {45, 47, 46}"

definition date_part :: "nat \<Rightarrow> nat \<Rightarrow> nat \<Rightarrow> nat \<Rightarrow> jsstr \<Rightarrow> jsstr option" where
  "date_part lo hi lo' hi' s =
     Option.bind (digit_run lo hi s) (\<lambda>s.
     Option.bind (unit_of date_separators s) (\<lambda>s.
     Option.bind (digit_run 1 2 s) (\<lambda>s.
     Option.bind (unit_of date_separators s) (digit_run lo' hi'))))"

definition time_part :: "jsstr \<Rightarrow> bool" where
  "time_part s \<longleftrightarrow>
     (case Option.bind (unit_of {32, 84} s) (\<lambda>s.
           Option.bind (digit_run 1 2 s) (\<lambda>s.
           Option.bind (unit_of {58} s) (digit_run 2 2))) of
        None \<Rightarrow> False
      | Some r \<Rightarrow> r = [] \<or> Option.bind (unit_of {58} r) (digit_run 2 2) = Some [])"

definition DATE_OR_DATETIME :: "jsstr \<Rightarrow> bool" where
  "DATE_OR_DATETIME s \<longleftrightarrow>
     (case (case date_part 4 4 1 2 s of None \<Rightarrow> date_part 1 2 4 4 s | Some r \<Rightarrow> Some r) of
        None \<Rightarrow> False
      | Some r \<Rightarrow> r = [] \<or> time_part r)"

datatype verdict = Boolean_match | Integer_match | Decimal_match | Date_match | No_match

text \<open>One round of the counting loop; a matched integer is never \<open>NaN\<close> as a number.\<close>

definition verdict_of :: "env \<Rightarrow> convention \<Rightarrow> jsstr \<Rightarrow> verdict" where
  "verdict_of E conv raw =
     (let trimmed = trim raw; low = lower_case E trimmed; clean = bare_amount trimmed;
          enClean = remove_unit 44 clean; viClean = comma_to_point (remove_unit 46 clean)
      in if low \<in> {js ''true'', js ''false'', [0x111, 0xFA, 110, 103], js ''sai''} then Boolean_match
         else if conv \<noteq> Convention_VI \<and> PLAIN_INTEGER enClean then Integer_match
         else if conv \<noteq> Convention_VI \<and> (EN_THOUSANDS clean \<or> EN_DECIMAL clean) then Decimal_match
         else if conv \<noteq> Convention_EN \<and> PLAIN_INTEGER viClean then Integer_match
         else if conv \<noteq> Convention_EN \<and> (VI_THOUSANDS clean \<or> VI_DECIMAL clean) then Decimal_match
         else if DATE_OR_DATETIME trimmed \<and> Date_parse E trimmed \<noteq> None then Date_match
         else No_match)"

definition verdict_count :: "env \<Rightarrow> convention \<Rightarrow> jsstr list \<Rightarrow> verdict \<Rightarrow> nat" where
  "verdict_count E conv values v = length (filter (\<lambda>raw. verdict_of E conv raw = v) values)"

text \<open>
  \<open>matches >= nonEmpties.length * 0.8\<close>: the product of a count below \<open>2 ^ 50\<close> and the double next to
  0.8 rounds to the exact product when that is an integer, so the comparison is exact.
\<close>

definition reaches_threshold :: "nat \<Rightarrow> nat \<Rightarrow> bool" where
  "reaches_threshold n tested \<longleftrightarrow> 4 * tested \<le> 5 * n"

definition inferFieldType :: "env \<Rightarrow> jsstr list \<Rightarrow> convention \<Rightarrow> field_type" where
  "inferFieldType E values conv =
     (let nonEmpties = filter (\<lambda>v. trim v \<noteq> []) values; tested = length nonEmpties;
          number = verdict_count E conv nonEmpties
      in if tested = 0 then Field_TEXT
         else if reaches_threshold (number Boolean_match) tested then Field_BOOLEAN
         else if reaches_threshold (number Integer_match) tested then Field_INTEGER
         else if reaches_threshold (number Integer_match + number Decimal_match) tested then Field_DECIMAL
         else if reaches_threshold (number Date_match) tested then Field_DATE
         else Field_TEXT)"

section \<open>Numbers\<close>

text \<open>The sign that \<open>parseInt\<close> and \<open>parseFloat\<close> accept, and what follows it.\<close>

definition signed_text :: "jsstr \<Rightarrow> bool \<times> jsstr" where
  "signed_text s = (case s of c # r \<Rightarrow> if c = 45 then (True, r) else if c = 43 then (False, r) else (False, s)
                    | [] \<Rightarrow> (False, []))"

definition parseInt :: "jsstr \<Rightarrow> jsnum" where
  "parseInt s =
     (case signed_text s of (negative, u) \<Rightarrow>
        let ds = takeWhile digit u; n = decimal ds
        in if ds = [] then NaN else nearest_double (of_int (if negative then - n else n)))"

text \<open>The exponent of a decimal literal, 0 when there is none.\<close>

definition exponent_of :: "jsstr \<Rightarrow> int" where
  "exponent_of s =
     (case s of
        c # r \<Rightarrow>
          if c = 101 \<or> c = 69 then
            (case signed_text r of (negative, u) \<Rightarrow>
               let n = decimal (takeWhile digit u) in if negative then - n else n)
          else 0
      | [] \<Rightarrow> 0)"

definition parseFloat :: "jsstr \<Rightarrow> jsnum" where
  "parseFloat s =
     (case signed_text s of (negative, u) \<Rightarrow>
        let whole = takeWhile digit u; r = dropWhile digit u;
            fraction = (if r \<noteq> [] \<and> hd r = 46 then takeWhile digit (tl r) else []);
            r' = (if r \<noteq> [] \<and> hd r = 46 then dropWhile digit (tl r) else r);
            e = exponent_of r' - int (length fraction);
            v = of_int (decimal (whole @ fraction))
                * (if 0 \<le> e then 10 ^ nat e else 1 / 10 ^ nat (- e))
        in if take 8 u = js ''Infinity'' then if negative then NegInfinity else PosInfinity
           else if whole = [] \<and> fraction = [] then NaN
           else nearest_double (if negative then - v else v))"

definition number_cell :: "jsnum \<Rightarrow> cell" where
  "number_cell n = (if n = NaN then Cell_null else Cell_number n)"

definition coerceValue :: "env \<Rightarrow> jsstr \<Rightarrow> field_type \<Rightarrow> convention \<Rightarrow> cell" where
  "coerceValue E raw type conv =
     (if raw = [] then Cell_null
      else let trimmed = trim raw; clean = bare_amount trimmed; low = lower_case E trimmed
      in case type of
        Field_INTEGER \<Rightarrow>
          number_cell (parseInt (if conv = Convention_VI then remove_unit 44 (remove_unit 46 clean)
                                 else remove_unit 44 clean))
      | Field_DECIMAL \<Rightarrow>
          number_cell (parseFloat (if conv = Convention_VI then comma_to_point (remove_unit 46 clean)
                                   else remove_unit 44 clean))
      | Field_BOOLEAN \<Rightarrow>
          if low \<in> {js ''true'', js ''1'', [0x111, 0xFA, 110, 103]} then Cell_bool True
          else if low \<in> {js ''false'', js ''0'', js ''sai''} then Cell_bool False
          else Cell_null
      | _ \<Rightarrow> Cell_text trimmed)"

section \<open>A table from its rows\<close>

text \<open>\<open>row[colIdx] ?? ''\<close>\<close>

definition raw_cell :: "jsstr list \<Rightarrow> nat \<Rightarrow> jsstr" where
  "raw_cell row i = (if i < length row then row ! i else [])"

definition column_values :: "jsstr list list \<Rightarrow> nat \<Rightarrow> jsstr list" where
  "column_values rows i = map (\<lambda>row. raw_cell row i) rows"

definition cell_invalid :: "env \<Rightarrow> field_type \<Rightarrow> convention \<Rightarrow> jsstr \<Rightarrow> bool" where
  "cell_invalid E type conv raw \<longleftrightarrow> coerceValue E raw type conv = Cell_null \<and> trim raw \<noteq> []"

text \<open>
  The schema of a column, with the count of invalid cells that the conversion of the rows adds.
\<close>

definition column_of :: "env \<Rightarrow> jsstr list list \<Rightarrow> jsstr \<times> nat \<Rightarrow> column_schema" where
  "column_of E rows = (\<lambda>(name, i).
     let vals = column_values rows i; conv = detectNumberConvention vals; type = inferFieldType E vals conv
     in \<lparr>col_name = name, col_type = type, col_nullCount = length (filter (\<lambda>v. v = []) vals),
         col_invalidCount = length (filter (cell_invalid E type conv) vals), col_convention = conv,
         col_sampleValues = take 5 (filter (\<lambda>v. v \<noteq> []) vals)\<rparr>)"

text \<open>
  \<open>record[name] = value\<close> on a plain object: a later column of the same name overwrites an earlier
  one, and assigning a value that is no object to \<open>__proto__\<close> defines no property.
\<close>

definition set_property :: "(jsstr \<Rightarrow> cell option) \<Rightarrow> jsstr \<Rightarrow> cell \<Rightarrow> (jsstr \<Rightarrow> cell option)" where
  "set_property m name v = (if name = js ''__proto__'' then m else m(name \<mapsto> v))"

definition row_record :: "env \<Rightarrow> column_schema list \<Rightarrow> jsstr list \<Rightarrow> (jsstr \<Rightarrow> cell option)" where
  "row_record E cols row =
     fold (\<lambda>(col, i) m. set_property m (col_name col)
                          (coerceValue E (raw_cell row i) (col_type col) (col_convention col)))
       (zip cols [0..<length cols]) (\<lambda>_. None)"

definition mixed_warning :: jsstr where
  "mixed_warning = js ''Mixed number formats detected '' @ [0x2014]
     @ js '' check columns before trusting totals''"

record table_metadata =
  md_malformedRowCount :: nat
  md_warnings :: "jsstr list"
  md_fileSources :: "file_source list"
  md_rawTextSnippet :: jsstr

definition inferTabular ::
    "env \<Rightarrow> jsstr \<Rightarrow> jsstr list \<Rightarrow> jsstr list list \<Rightarrow> table_metadata \<Rightarrow> tabular" where
  "inferTabular E fileName headers dataRows md =
     (let cols = map (column_of E dataRows) (zip headers [0..<length headers]);
          mixed = list_ex (\<lambda>c. col_convention c = Convention_MIXED) cols;
          warnings = md_warnings md @ (if mixed then [mixed_warning] else [])
      in \<lparr>tab_fileName = fileName, tab_headers = headers, tab_columns = cols,
          tab_rows = map (row_record E cols) dataRows, tab_totalRows = length dataRows,
          tab_malformedRowCount = md_malformedRowCount md, tab_rawTextSnippet = md_rawTextSnippet md,
          tab_warnings = dedup warnings, tab_fileSources = md_fileSources md\<rparr>)"

section \<open>Files\<close>

datatype file_kind = Kind_csv | Kind_tsv | Kind_xlsx

definition ends_with :: "jsstr \<Rightarrow> jsstr \<Rightarrow> bool" where
  "ends_with s suffix \<longleftrightarrow> length suffix \<le> length s \<and> drop (length s - length suffix) s = suffix"

definition parse_failure :: "parse_code \<Rightarrow> jsstr option \<Rightarrow> tabular_error" where
  "parse_failure c d = \<lparr>err_code = c, err_detail = d\<rparr>"

definition fileKind :: "env \<Rightarrow> jsstr \<Rightarrow> tabular_error + file_kind" where
  "fileKind E fileName =
     (let low = lower_case E fileName
      in if ends_with low (js ''.xlsx'') then accepted Kind_xlsx
         else if ends_with low (js ''.tsv'') \<or> ends_with low (js ''.tab'') then accepted Kind_tsv
         else if ends_with low (js ''.csv'') \<or> ends_with low (js ''.txt'') then accepted Kind_csv
         else rejected (parse_failure UNSUPPORTED_FORMAT (Some fileName)))"

text \<open>What follows the last slash or backslash.\<close>

definition tabularFileName :: "jsstr \<Rightarrow> jsstr" where
  "tabularFileName fileName = rev (takeWhile (\<lambda>c. c \<noteq> 47 \<and> c \<noteq> 92) (rev fileName))"

definition header_names :: "jsstr list \<Rightarrow> jsstr list" where
  "header_names row =
     map (\<lambda>(header, i). if header \<noteq> [] then header
                        else [67, 0x1ED9, 116, 95] @ show_nat (i + 1)) (zip row [0..<length row])"

definition decodeUtf8 :: "(8 word list \<Rightarrow> jsstr) \<Rightarrow> 8 word list \<Rightarrow> jsstr" where
  "decodeUtf8 utf8 bytes = stripBom (utf8 bytes)"

definition row_limit :: nat where "row_limit = 1000000"
definition column_limit :: nat where "column_limit = 256"
definition byte_limit :: nat where "byte_limit = 100 * 1024 * 1024"

text \<open>The text of a file (none of a workbook) and its rows.\<close>

definition read_file ::
    "env \<Rightarrow> (8 word list \<Rightarrow> jsstr) \<Rightarrow> (jsstr \<Rightarrow> 8 word list \<Rightarrow> tabular_error + jsstr list list)
     \<Rightarrow> source_file \<Rightarrow> tabular_error + (jsstr \<times> jsstr list list)" where
  "read_file E utf8 xlsx file =
     (let name = tabularFileName (src_fileName file)
      in and_then (fileKind E (tabularFileName name)) (\<lambda>kind.
         if kind = Kind_xlsx then and_then (xlsx name (src_bytes file)) (\<lambda>rows.
           accepted (js ''[xlsx] '' @ name, rows))
         else let t = decodeUtf8 utf8 (src_bytes file)
           in accepted (take 500 t, parseCsvRows t (if kind = Kind_tsv then 9 else detectDelimiter t))))"

text \<open>The variables of the loop over the files.\<close>

record merge_state =
  mg_headers :: "jsstr list option"
  mg_rows :: "jsstr list list"
  mg_malformed :: nat
  mg_warnings :: "jsstr list"
  mg_sources :: "file_source list"
  mg_snippets :: "jsstr list"

definition mismatch_detail :: "jsstr \<Rightarrow> jsstr list \<Rightarrow> jsstr list \<Rightarrow> jsstr" where
  "mismatch_detail name expected actual =
     (let missing = filter (\<lambda>h. h \<notin> set actual) expected; extra = filter (\<lambda>h. h \<notin> set expected) actual
      in join [32, 0xB7, 32]
           ([name]
            @ (if missing \<noteq> [] then [js ''missing: '' @ join (js '', '') (take 5 missing)] else [])
            @ (if extra \<noteq> [] then [js ''unexpected: '' @ join (js '', '') (take 5 extra)] else [])))"

definition row_warning :: "jsstr \<Rightarrow> nat \<Rightarrow> nat \<Rightarrow> jsstr" where
  "row_warning prefix n m =
     prefix @ js ''row field count '' @ show_nat n @ js '' differs from header count '' @ show_nat m"

definition malformed_rows :: "jsstr list \<Rightarrow> jsstr list list \<Rightarrow> jsstr list list" where
  "malformed_rows headers rows = filter (\<lambda>row. length row \<noteq> length headers) rows"

definition merged :: "merge_state \<Rightarrow> source_file \<Rightarrow> jsstr \<Rightarrow> jsstr list list \<Rightarrow> merge_state" where
  "merged st file snippet rawRows =
     (let name = tabularFileName (src_fileName file); headers = header_names (hd rawRows);
          bad = malformed_rows headers (tl rawRows)
      in \<lparr>mg_headers = Some (case mg_headers st of None \<Rightarrow> headers | Some h \<Rightarrow> h),
          mg_rows = mg_rows st @ tl rawRows, mg_malformed = mg_malformed st + length bad,
          mg_warnings = mg_warnings st
            @ map (\<lambda>row. row_warning (name @ js '': '') (length row) (length headers)) bad,
          mg_sources = mg_sources st
            @ [\<lparr>fsrc_fileName = name, fsrc_byteSize = length (src_bytes file),
                fsrc_rowCount = length (tl rawRows)\<rparr>],
          mg_snippets = mg_snippets st @ [snippet]\<rparr>)"

definition headers_differ :: "merge_state \<Rightarrow> jsstr list \<Rightarrow> bool" where
  "headers_differ st headers =
     (case mg_headers st of None \<Rightarrow> False | Some expected \<Rightarrow> join [0] expected \<noteq> join [0] headers)"

definition merge_file ::
    "env \<Rightarrow> (8 word list \<Rightarrow> jsstr) \<Rightarrow> (jsstr \<Rightarrow> 8 word list \<Rightarrow> tabular_error + jsstr list list)
     \<Rightarrow> merge_state \<Rightarrow> source_file \<Rightarrow> tabular_error + merge_state" where
  "merge_file E utf8 xlsx st file =
     (let name = tabularFileName (src_fileName file)
      in and_then (read_file E utf8 xlsx file) (\<lambda>(snippet, rawRows).
         reject_if (rawRows = []) (parse_failure EMPTY_FILE (Some name)) (
         reject_if (length rawRows - 1 > row_limit)
           (parse_failure LIMIT_EXCEEDED (Some (name @ js '' exceeds 1,000,000 rows''))) (
         let headers = header_names (hd rawRows)
         in reject_if (length headers > column_limit)
              (parse_failure LIMIT_EXCEEDED (Some (name @ js '' exceeds 256 columns''))) (
            reject_if (headers_differ st headers)
              (parse_failure HEADER_MISMATCH
                (Some (mismatch_detail name (case mg_headers st of None \<Rightarrow> [] | Some h \<Rightarrow> h) headers))) (
            accepted (merged st file snippet rawRows)))))))"

fun merge_files ::
    "env \<Rightarrow> (8 word list \<Rightarrow> jsstr) \<Rightarrow> (jsstr \<Rightarrow> 8 word list \<Rightarrow> tabular_error + jsstr list list)
     \<Rightarrow> merge_state \<Rightarrow> source_file list \<Rightarrow> tabular_error + merge_state" where
  "merge_files E utf8 xlsx st [] = accepted st"
| "merge_files E utf8 xlsx st (file # files) =
     and_then (merge_file E utf8 xlsx st file) (\<lambda>st. merge_files E utf8 xlsx st files)"

definition no_files :: merge_state where
  "no_files = \<lparr>mg_headers = None, mg_rows = [], mg_malformed = 0, mg_warnings = [], mg_sources = [],
               mg_snippets = []\<rparr>"

definition parseTabularFiles ::
    "env \<Rightarrow> (8 word list \<Rightarrow> jsstr) \<Rightarrow> (jsstr \<Rightarrow> 8 word list \<Rightarrow> tabular_error + jsstr list list)
     \<Rightarrow> source_file list \<Rightarrow> tabular_error + tabular" where
  "parseTabularFiles E utf8 xlsx files =
     reject_if (files = []) (parse_failure EMPTY_FILE None) (
     case List.find (\<lambda>file. length (src_bytes file) > byte_limit) files of
       Some file \<Rightarrow> rejected (parse_failure LIMIT_EXCEEDED (Some (src_fileName file @ js '' exceeds 100 MB'')))
     | None \<Rightarrow>
         and_then (merge_files E utf8 xlsx no_files files) (\<lambda>st.
         accepted (inferTabular E (tabularFileName (src_fileName (hd files)))
           (case mg_headers st of None \<Rightarrow> [] | Some h \<Rightarrow> h) (mg_rows st)
           \<lparr>md_malformedRowCount = mg_malformed st, md_warnings = mg_warnings st,
            md_fileSources = mg_sources st,
            md_rawTextSnippet = take 500 (join (10 # js ''---'' @ [10]) (mg_snippets st))\<rparr>)))"

definition parseCsvContent :: "env \<Rightarrow> jsstr \<Rightarrow> jsstr \<Rightarrow> tabular_error + tabular" where
  "parseCsvContent E fileName t =
     (let clean = stripBom t; rawRows = parseCsvRows clean (detectDelimiter clean)
      in reject_if (rawRows = []) (parse_failure EMPTY_FILE (Some fileName)) (
         reject_if (length rawRows - 1 > row_limit)
           (parse_failure LIMIT_EXCEEDED (Some (fileName @ js '' exceeds 1,000,000 rows''))) (
         let headers = header_names (hd rawRows)
         in reject_if (length headers > column_limit)
              (parse_failure LIMIT_EXCEEDED (Some (fileName @ js '' exceeds 256 columns''))) (
            let bad = malformed_rows headers (tl rawRows)
            in accepted (inferTabular E fileName headers (tl rawRows)
                 \<lparr>md_malformedRowCount = length bad,
                  md_warnings = map (\<lambda>row. row_warning [] (length row) (length headers)) bad,
                  md_fileSources =
                    [\<lparr>fsrc_fileName = tabularFileName fileName, fsrc_byteSize = length clean,
                      fsrc_rowCount = length rawRows - 1\<rparr>],
                  md_rawTextSnippet = take 500 clean\<rparr>)))))"

section \<open>Cells and columns\<close>

lemma row_record_snoc:
  "row_record E (cols @ [c]) row =
     set_property (row_record E cols row) (col_name c)
       (coerceValue E (raw_cell row (length cols)) (col_type c) (col_convention c))"
  by (simp add: row_record_def)

text \<open>A row's value under a name is that of the last column with the name.\<close>

lemma row_record_last:
  assumes "k < length cols" "col_name (cols ! k) \<noteq> js ''__proto__''"
    and "\<And>m. k < m \<Longrightarrow> m < length cols \<Longrightarrow> col_name (cols ! m) \<noteq> col_name (cols ! k)"
  shows "row_record E cols row (col_name (cols ! k)) =
    Some (coerceValue E (raw_cell row k) (col_type (cols ! k)) (col_convention (cols ! k)))"
  using assms
proof (induction cols rule: rev_induct)
  case (snoc c cols)
  show ?case
  proof (cases "k = length cols")
    case True
    with snoc.prems(2) show ?thesis by (simp add: row_record_snoc set_property_def)
  next
    case False
    with snoc.prems(1) have k: "k < length cols" by simp
    have "col_name c \<noteq> col_name (cols ! k)"
      using snoc.prems(3) [of "length cols"] k by (simp add: nth_append)
    moreover have "col_name (cols ! m) \<noteq> col_name (cols ! k)" if "k < m" "m < length cols" for m
      using snoc.prems(3) [of m] that k by (simp add: nth_append)
    ultimately show ?thesis
      using snoc.IH snoc.prems(2) k by (simp add: row_record_snoc set_property_def nth_append)
  qed
qed simp

lemma columns_length [simp]: "length (tab_columns (inferTabular E f headers rows md)) = length headers"
  by (simp add: inferTabular_def Let_def)

lemma column_nth:
  "k < length headers \<Longrightarrow>
     tab_columns (inferTabular E f headers rows md) ! k = column_of E rows (headers ! k, k)"
  by (simp add: inferTabular_def Let_def)

lemma column_of_name [simp]: "col_name (column_of E rows (name, k)) = name"
  by (simp add: column_of_def Let_def)

lemma column_names: "map col_name (tab_columns (inferTabular E f headers rows md)) = headers"
  by (rule nth_equalityI) (simp_all add: column_nth)

lemma rows_inferred:
  "tab_rows (inferTabular E f headers rows md)
     = map (row_record E (tab_columns (inferTabular E f headers rows md))) rows"
  by (simp add: inferTabular_def Let_def)

text \<open>On trimmed fields a cell is null because it is empty or because it is counted as invalid.\<close>

lemma null_cell_counted:
  assumes "trim raw = raw"
  shows "coerceValue E raw type conv = Cell_null \<longleftrightarrow> raw = [] \<or> cell_invalid E type conv raw"
  using assms by (auto simp: cell_invalid_def coerceValue_def)

lemma length_filter_disjoint:
  assumes "\<And>x. x \<in> set xs \<Longrightarrow> R x \<longleftrightarrow> P x \<or> Q x" "\<And>x. x \<in> set xs \<Longrightarrow> \<not> (P x \<and> Q x)"
  shows "length (filter R xs) = length (filter P xs) + length (filter Q xs)"
  using assms by (induction xs) auto

lemma null_cells_counted:
  assumes "\<And>row. row \<in> set rows \<Longrightarrow> map trim row = row"
  shows "length (filter (\<lambda>row. coerceValue E (raw_cell row k) type conv = Cell_null) rows)
    = length (filter (\<lambda>v. v = []) (column_values rows k))
      + length (filter (cell_invalid E type conv) (column_values rows k))"
proof -
  have trimmed: "trim (raw_cell row k) = raw_cell row k" if "row \<in> set rows" for row
    using assms [OF that] by (auto simp: raw_cell_def) (metis nth_map)
  have "length (filter (\<lambda>row. coerceValue E (raw_cell row k) type conv = Cell_null) rows)
    = length (filter (\<lambda>row. raw_cell row k = []) rows)
      + length (filter (\<lambda>row. cell_invalid E type conv (raw_cell row k)) rows)"
    by (rule length_filter_disjoint)
       (use null_cell_counted [OF trimmed] in \<open>auto simp: cell_invalid_def\<close>)
  then show ?thesis by (simp add: column_values_def filter_map comp_def)
qed

section \<open>Merging\<close>

text \<open>A file that is read into a table within the limits.\<close>

definition readable ::
    "env \<Rightarrow> (8 word list \<Rightarrow> jsstr) \<Rightarrow> (jsstr \<Rightarrow> 8 word list \<Rightarrow> tabular_error + jsstr list list)
     \<Rightarrow> source_file \<Rightarrow> jsstr list list \<Rightarrow> bool" where
  "readable E utf8 xlsx file table \<longleftrightarrow>
     (\<exists>snippet. read_file E utf8 xlsx file = Inr (snippet, table)) \<and> table \<noteq> []
     \<and> length table - 1 \<le> row_limit \<and> length (hd table) \<le> column_limit"

lemma length_header_names [simp]: "length (header_names row) = length row"
  by (simp add: header_names_def)

lemma header_names_nonempty: "h \<in> set (header_names row) \<Longrightarrow> h \<noteq> []"
  by (auto simp: header_names_def split: if_splits)

text \<open>The merge state after the files of some tables.\<close>

definition merge_of :: "merge_state \<Rightarrow> jsstr list list list \<Rightarrow> bool" where
  "merge_of st tables \<longleftrightarrow>
     mg_headers st = (if tables = [] then None else Some (header_names (hd (hd tables))))
     \<and> mg_rows st = concat (map tl tables)
     \<and> mg_malformed st = sum_list (map (\<lambda>t. length (malformed_rows (hd t) (tl t))) tables)
     \<and> map fsrc_rowCount (mg_sources st) = map (\<lambda>t. length t - 1) tables
     \<and> (\<forall>t \<in> set tables. join [0] (header_names (hd t)) = join [0] (header_names (hd (hd tables))))"

lemma malformed_header_names: "malformed_rows (header_names h) rows = malformed_rows h rows"
  by (simp add: malformed_rows_def)

lemma merged_fields [simp]:
  "mg_headers (merged st file snippet t)
     = Some (case mg_headers st of None \<Rightarrow> header_names (hd t) | Some h \<Rightarrow> h)"
  "mg_rows (merged st file snippet t) = mg_rows st @ tl t"
  "mg_malformed (merged st file snippet t) = mg_malformed st + length (malformed_rows (hd t) (tl t))"
  "map fsrc_rowCount (mg_sources (merged st file snippet t))
     = map fsrc_rowCount (mg_sources st) @ [length t - 1]"
  by (simp_all add: merged_def Let_def malformed_header_names)

lemma merged_tables:
  assumes "merge_of st tables" "\<not> headers_differ st (header_names (hd t))"
  shows "merge_of (merged st file snippet t) (tables @ [t])"
proof (cases tables)
  case Nil
  with assms(1) show ?thesis by (simp add: merge_of_def)
next
  case (Cons u us)
  with assms have "join [0] (header_names (hd t)) = join [0] (header_names (hd u))"
    by (simp add: merge_of_def headers_differ_def)
  with assms(1) Cons show ?thesis by (simp add: merge_of_def)
qed

lemma merge_file_accepted:
  assumes "merge_file E utf8 xlsx st file = Inr st'" "merge_of st tables"
  shows "\<exists>t. readable E utf8 xlsx file t \<and> merge_of st' (tables @ [t])"
proof -
  obtain snippet t where t: "read_file E utf8 xlsx file = Inr (snippet, t)" "t \<noteq> []"
    "\<not> length t - 1 > row_limit" "\<not> length (header_names (hd t)) > column_limit"
    "\<not> headers_differ st (header_names (hd t))" and st': "st' = merged st file snippet t"
    using assms(1) by (auto simp: merge_file_def Let_def result_simps)
  have "readable E utf8 xlsx file t" using t by (auto simp: readable_def)
  moreover have "merge_of st' (tables @ [t])"
    unfolding st' by (rule merged_tables [OF assms(2) t(5)])
  ultimately show ?thesis by blast
qed

lemma merge_files_accepted:
  assumes "merge_files E utf8 xlsx st files = Inr st'" "merge_of st tables"
  shows "\<exists>more. list_all2 (readable E utf8 xlsx) files more \<and> merge_of st' (tables @ more)"
  using assms
proof (induction files arbitrary: st tables)
  case Nil
  then show ?case by auto
next
  case (Cons src files)
  from Cons.prems(1) obtain st1 where s: "merge_file E utf8 xlsx st src = Inr st1"
    "merge_files E utf8 xlsx st1 files = Inr st'" by (auto simp: result_simps)
  from merge_file_accepted [OF s(1) Cons.prems(2)] obtain t where
    t: "readable E utf8 xlsx src t" "merge_of st1 (tables @ [t])" by blast
  from Cons.IH [OF s(2) t(2)] obtain more where
    "list_all2 (readable E utf8 xlsx) files more" "merge_of st' ((tables @ [t]) @ more)" by blast
  with t(1) show ?case by (intro exI [of _ "t # more"]) simp
qed

lemma no_files_merge [simp]: "merge_of no_files []"
  by (simp add: merge_of_def no_files_def)

lemma parse_accepted:
  assumes "parseTabularFiles E utf8 xlsx files = Inr p"
  obtains st where "files \<noteq> []" "\<And>f. f \<in> set files \<Longrightarrow> length (src_bytes f) \<le> byte_limit"
    "merge_files E utf8 xlsx no_files files = Inr st"
    "p = inferTabular E (tabularFileName (src_fileName (hd files)))
           (case mg_headers st of None \<Rightarrow> [] | Some h \<Rightarrow> h) (mg_rows st)
           \<lparr>md_malformedRowCount = mg_malformed st, md_warnings = mg_warnings st,
            md_fileSources = mg_sources st,
            md_rawTextSnippet = take 500 (join (10 # js ''---'' @ [10]) (mg_snippets st))\<rparr>"
proof -
  from assms have "files \<noteq> []" by (simp add: parseTabularFiles_def result_simps)
  moreover have find: "List.find (\<lambda>file. length (src_bytes file) > byte_limit) files = None"
    using assms by (cases "List.find (\<lambda>file. length (src_bytes file) > byte_limit) files")
      (simp_all add: parseTabularFiles_def result_simps)
  moreover have "\<And>f. f \<in> set files \<Longrightarrow> length (src_bytes f) \<le> byte_limit"
    using find by (auto simp: find_None_iff)
  ultimately show thesis using assms that by (auto simp: parseTabularFiles_def result_simps)
qed

section \<open>Properties\<close>

text \<open>
  C40: an import accounts for every row. If it is accepted there is one table for each file, read
  from it, not empty, within the limits of rows and columns and with the header of the first one;
  the rows of the result are those of the tables in order, as many as the counts recorded for the
  files add up to; the number of malformed rows is that of the rows whose length differs from their
  file's header; there is one column for each name of the header, none of them empty.
\<close>

theorem import_accounts_for_rows:
  assumes "parseTabularFiles E utf8 xlsx files = Inr p"
  shows "\<exists>tables. files \<noteq> [] \<and> list_all2 (readable E utf8 xlsx) files tables
     \<and> tab_headers p = header_names (hd (hd tables))
     \<and> (\<forall>t \<in> set tables. join [0] (header_names (hd t)) = join [0] (tab_headers p))
     \<and> length (tab_headers p) \<le> column_limit \<and> [] \<notin> set (tab_headers p)
     \<and> map col_name (tab_columns p) = tab_headers p
     \<and> tab_rows p = map (row_record E (tab_columns p)) (concat (map tl tables))
     \<and> map fsrc_rowCount (tab_fileSources p) = map (\<lambda>t. length t - 1) tables
     \<and> tab_totalRows p = sum_list (map fsrc_rowCount (tab_fileSources p))
     \<and> tab_malformedRowCount p = sum_list (map (\<lambda>t. length (malformed_rows (hd t) (tl t))) tables)"
proof -
  from assms obtain st where f: "files \<noteq> []" "merge_files E utf8 xlsx no_files files = Inr st"
    and p: "p = inferTabular E (tabularFileName (src_fileName (hd files)))
           (case mg_headers st of None \<Rightarrow> [] | Some h \<Rightarrow> h) (mg_rows st)
           \<lparr>md_malformedRowCount = mg_malformed st, md_warnings = mg_warnings st,
            md_fileSources = mg_sources st,
            md_rawTextSnippet = take 500 (join (10 # js ''---'' @ [10]) (mg_snippets st))\<rparr>"
    by (cases rule: parse_accepted)
  from merge_files_accepted [OF f(2) no_files_merge] obtain tables where
    t: "list_all2 (readable E utf8 xlsx) files tables" and m: "merge_of st tables" by auto
  have ne: "tables \<noteq> []" using t f(1) by auto
  then have "readable E utf8 xlsx (hd files) (hd tables)" using t f(1) by (cases files; cases tables) auto
  then have limit: "length (hd (hd tables)) \<le> column_limit" by (simp add: readable_def)
  have headers: "mg_headers st = Some (header_names (hd (hd tables)))" using m ne by (simp add: merge_of_def)
  have p': "tab_headers p = header_names (hd (hd tables))" "tab_fileSources p = mg_sources st"
    "tab_totalRows p = length (mg_rows st)" "tab_malformedRowCount p = mg_malformed st"
    unfolding p headers by (simp_all add: inferTabular_def Let_def)
  have names: "map col_name (tab_columns p) = tab_headers p"
    "tab_rows p = map (row_record E (tab_columns p)) (mg_rows st)"
    unfolding p'(1) unfolding p headers by (simp_all only: option.case column_names rows_inferred)
  show ?thesis
    using f(1) t m limit names p' header_names_nonempty unfolding merge_of_def
    by (intro exI [of _ tables]) (auto simp: length_concat comp_def)
qed

theorem import_accounts_for_rows_witness:
  "\<exists>p. parseTabularFiles sample_env (map ucast) (\<lambda>_ _. Inl (parse_failure NOT_XLSX None))
         [\<lparr>src_fileName = js ''a.tsv'', src_bytes = [97, 10, 49]\<rparr>] = Inr p
     \<and> tab_totalRows p = sum_list (map fsrc_rowCount (tab_fileSources p)) \<and> length (tab_headers p) \<le> column_limit"
proof -
  have name: "tabularFileName (js ''a.tsv'') = js ''a.tsv''"
    by (simp add: tabularFileName_def js_def)
  have "fileKind sample_env (js ''a.tsv'') = Inr Kind_tsv"
    by (simp add: fileKind_def sample_env_def js_def ascii_lower_def upper_def in_range_def ends_with_def)
  moreover have "parseCsvRows [97, 10, 49] 9 = [[[97]], [[49]]]"
    by (simp add: parseCsvRows_def csv_loop_run csv_start_def csv_step_def push_row_def push_field_def
        keep_row_def csv_finish_def trim_def whitespace_def in_range_def Let_def)
  ultimately have "read_file sample_env (map ucast) (\<lambda>_ _. Inl (parse_failure NOT_XLSX None))
      \<lparr>src_fileName = js ''a.tsv'', src_bytes = [97, 10, 49]\<rparr> = Inr ([97, 10, 49], [[[97]], [[49]]])"
    by (simp add: read_file_def name result_simps Let_def decodeUtf8_def stripBom_def)
  then obtain p where p: "parseTabularFiles sample_env (map ucast) (\<lambda>_ _. Inl (parse_failure NOT_XLSX None))
      [\<lparr>src_fileName = js ''a.tsv'', src_bytes = [97, 10, 49]\<rparr>] = Inr p"
    by (simp add: parseTabularFiles_def merge_file_def result_simps Let_def row_limit_def
        column_limit_def byte_limit_def headers_differ_def no_files_def)
  from import_accounts_for_rows [OF p] p show ?thesis by auto
qed

text \<open>
  What an imported row contains. Under the name of a column a row has the conversion of its own
  field in that column, by the column's type and number convention, when no later column has the same
  name; and when the fields are trimmed, as the reader returns them, the rows without a value there
  are exactly those counted as empty or as invalid in the column.
\<close>

theorem imported_cells:
  assumes "k < length headers" "headers ! k \<noteq> js ''__proto__''"
    and "\<forall>m. k < m \<and> m < length headers \<longrightarrow> headers ! m \<noteq> headers ! k"
    and "\<forall>row \<in> set rows. map trim row = row"
    and "T = inferTabular E f headers rows md" "col = tab_columns T ! k"
  shows "map (\<lambda>r. r (headers ! k)) (tab_rows T)
      = map (\<lambda>row. Some (coerceValue E (raw_cell row k) (col_type col) (col_convention col))) rows
    \<and> length (filter (\<lambda>r. r (headers ! k) = Some Cell_null) (tab_rows T))
      = col_nullCount col + col_invalidCount col"
proof -
  have name: "col_name (tab_columns T ! m) = headers ! m" if "m < length headers" for m
    using that by (simp add: assms(5) column_nth)
  have cell: "row_record E (tab_columns T) row (headers ! k)
      = Some (coerceValue E (raw_cell row k) (col_type col) (col_convention col))" for row
    using row_record_last [of k "tab_columns T" E row] assms(1-3,5,6) name by auto
  have counts: "col_nullCount col = length (filter (\<lambda>v. v = []) (column_values rows k))"
    "col_invalidCount col
      = length (filter (cell_invalid E (col_type col) (col_convention col)) (column_values rows k))"
    by (simp_all add: assms(1,5,6) column_nth column_of_def Let_def)
  have "map (\<lambda>r. r (headers ! k)) (tab_rows T)
      = map (\<lambda>row. Some (coerceValue E (raw_cell row k) (col_type col) (col_convention col))) rows"
    using cell unfolding assms(5) by (simp add: rows_inferred)
  moreover have "length (filter (\<lambda>r. r (headers ! k) = Some Cell_null) (tab_rows T))
      = length (filter (\<lambda>row. coerceValue E (raw_cell row k) (col_type col) (col_convention col) = Cell_null) rows)"
    using cell unfolding assms(5) by (simp add: rows_inferred filter_map comp_def)
  ultimately show ?thesis using null_cells_counted [of rows] assms(4) counts by simp
qed

theorem imported_cells_witness:
  "\<exists>col :: column_schema. map (\<lambda>r. r (js ''b'')) (tab_rows (inferTabular sample_env (js ''f'') [js ''a'', js ''b'']
        [[js ''x'', js ''y''], [js ''x'']] \<lparr>md_malformedRowCount = 0, md_warnings = [], md_fileSources = [],
           md_rawTextSnippet = []\<rparr>))
     = [Some (coerceValue sample_env (js ''y'') (col_type col) (col_convention col)),
        Some (coerceValue sample_env [] (col_type col) (col_convention col))]"
proof -
  have "map trim [js ''x'', js ''y''] = [js ''x'', js ''y'']" "map trim [js ''x''] = [js ''x'']"
    by (simp_all add: js_def trim_def whitespace_def in_range_def)
  then have t: "\<forall>row \<in> set [[js ''x'', js ''y''], [js ''x'']]. map trim row = row" by simp
  have k: "(1::nat) < length [js ''a'', js ''b'']" "[js ''a'', js ''b''] ! 1 \<noteq> js ''__proto__''"
    "\<forall>m. (1::nat) < m \<and> m < length [js ''a'', js ''b''] \<longrightarrow> [js ''a'', js ''b''] ! m \<noteq> [js ''a'', js ''b''] ! 1"
    by simp_all
  from imported_cells [OF k t refl refl, of sample_env "js ''f''"
      "\<lparr>md_malformedRowCount = 0, md_warnings = [], md_fileSources = [], md_rawTextSnippet = []\<rparr>"]
  obtain col :: column_schema where "map (\<lambda>r. r ([js ''a'', js ''b''] ! 1)) (tab_rows (inferTabular sample_env (js ''f'') [js ''a'', js ''b'']
        [[js ''x'', js ''y''], [js ''x'']] \<lparr>md_malformedRowCount = 0, md_warnings = [], md_fileSources = [],
           md_rawTextSnippet = []\<rparr>))
     = map (\<lambda>row. Some (coerceValue sample_env (raw_cell row 1) (col_type col) (col_convention col)))
         [[js ''x'', js ''y''], [js ''x'']]" by blast
  then show ?thesis by (intro exI [of _ col]) (simp add: raw_cell_def)
qed

text \<open>
  The condition on later columns of the same name is needed: no import rejects a repeated name, and
  the fields of all but the last column with the name are in no row, while each of these columns is
  still described.
\<close>

theorem repeated_header_overwrites:
  "map (\<lambda>r. r (js ''a'')) (tab_rows (inferTabular E f [js ''a'', js ''a''] [[x, y]] md))
     = [Some (coerceValue E y (inferFieldType E [y] (detectNumberConvention [y])) (detectNumberConvention [y]))]"
  by (simp add: inferTabular_def Let_def row_record_def set_property_def column_of_def column_values_def
      raw_cell_def)

end
