(* ===== verification/DeviceAuthority.thy ===== *)
theory DeviceAuthority
  imports "HOL-Library.AList" DeviceSync TenantContext
begin

text \<open>
  Device authority: packages/domain/src/device-authorization/v1.ts (signed snapshots and opaque
  grants) and, of services/api/src/features/dso, \<open>DeviceAuthorizationService\<close>
  (application/device-authorization.service.ts) over its in-memory repository
  (adapter/in-memory-device-authorization-repository.adapter.ts) and the bridge to synchronization
  (adapter/device-sync-authorization.adapter.ts).
\<close>

section \<open>Data\<close>

datatype device_effect = Effect_READ | Effect_WRITE_DERIVATIVE | Effect_WATCH

definition device_effects :: "(string \<times> device_effect) list" where
  "device_effects =
     [(''READ'', Effect_READ), (''WRITE_DERIVATIVE'', Effect_WRITE_DERIVATIVE), (''WATCH'', Effect_WATCH)]"

record unsigned_snapshot =
  snap_schemaVersion :: int
  snap_snapshotId :: stable_id
  snap_deviceId :: stable_id
  snap_userId :: stable_id
  snap_tenantScope :: tenant_scope
  snap_authorizationEpoch :: int
  snap_revision :: int
  snap_permissions :: "jsstr list"
  snap_dataMode :: sync_mode
  snap_issuedAt :: utc_timestamp
  snap_expiresAt :: utc_timestamp

record device_snapshot = unsigned_snapshot +
  snap_payload :: jsstr
  snap_signature :: jsstr

datatype grant_status = Grant_ACTIVE | Grant_REVOKED | Grant_EXPIRED

record opaque_grant =
  og_grantId :: stable_id
  og_deviceId :: stable_id
  og_tenantScope :: tenant_scope
  og_bindingId :: stable_id
  og_capabilityDigest :: jsstr
  og_authorizationEpoch :: int
  og_effects :: "device_effect list"
  og_issuedAt :: utc_timestamp
  og_expiresAt :: utc_timestamp
  og_status :: grant_status
  og_revision :: int

datatype device_error =
    Device_INVALID_IDENTIFIER | Device_INVALID_SCOPE | Device_INVALID_TIMESTAMP | Device_INVALID_EPOCH
  | Device_INVALID_REVISION | Device_INVALID_PERMISSION | Device_INVALID_MODE | Device_INVALID_TEXT
  | Device_INVALID_EFFECT | Device_INVALID_LIFETIME | Device_SIGNATURE_INVALID | Device_SNAPSHOT_STALE
  | Device_GRANT_REVOKED | Device_GRANT_EXPIRED | Device_GRANT_SCOPE_DENIED | Device_EFFECT_DENIED

section \<open>Snapshots\<close>

text \<open>\<open>sameScope_device\<close> of the module, which compares like \<open>tenantScopesEqualV1\<close>.\<close>

definition sameScope_device :: "tenant_scope \<Rightarrow> tenant_scope \<Rightarrow> bool" where
  "sameScope_device left right =
     (if scopeType left \<noteq> scopeType right \<or> organizationId left \<noteq> organizationId right then False
      else if scopeType left = Organization_type \<or> scopeType right = Organization_type
           then scopeType left = scopeType right
      else if workspace_of left \<noteq> workspace_of right then False
      else if scopeType left = Workspace_type \<or> scopeType right = Workspace_type
           then scopeType left = scopeType right
      else scopeType left = Project_type \<and> scopeType right = Project_type
           \<and> project_of left = project_of right)"

definition canonicalSnapshot :: "unsigned_snapshot \<Rightarrow> jsstr" where
  "canonicalSnapshot s = stringify (JObj
     [(js ''schemaVersion'', JInt (snap_schemaVersion s)), (js ''snapshotId'', JStr (snap_snapshotId s)),
      (js ''deviceId'', JStr (snap_deviceId s)), (js ''userId'', JStr (snap_userId s)),
      (js ''tenantScope'', scope_json (snap_tenantScope s)),
      (js ''authorizationEpoch'', JInt (snap_authorizationEpoch s)),
      (js ''revision'', JInt (snap_revision s)),
      (js ''permissions'', JArr (map JStr (snap_permissions s))),
      (js ''dataMode'', JStr (js (mode_text (snap_dataMode s)))),
      (js ''issuedAt'', JStr (snap_issuedAt s)), (js ''expiresAt'', JStr (snap_expiresAt s))])"

text \<open>\<open>/^[a-z][a-z0-9_-]*(\.[a-z][a-z0-9_-]*)+$/\<close>: at least two words, separated by points.\<close>

fun split_points :: "jsstr \<Rightarrow> jsstr list" where
  "split_points [] = [[]]"
| "split_points (c # cs) =
     (if c = 46 then [] # split_points cs else (c # hd (split_points cs)) # tl (split_points cs))"

definition permission_word :: "jsstr \<Rightarrow> bool" where
  "permission_word w \<longleftrightarrow>
     w \<noteq> [] \<and> lower (hd w) \<and> list_all (\<lambda>c. lower c \<or> digit c \<or> c = 95 \<or> c = 45) (tl w)"

definition permission_value :: "jsval \<Rightarrow> jsstr option" where
  "permission_value v =
     (case v of
        Str s \<Rightarrow>
          if 2 \<le> length (split_points s) \<and> list_all permission_word (split_points s) \<and> s \<noteq> js ''*''
          then Some s else None
      | _ \<Rightarrow> None)"

definition permission_list :: "jsval \<Rightarrow> jsstr list option" where
  "permission_list v =
     (case v of
        Arr vs \<Rightarrow> if length vs > 128 then None else map_option dedup (parse_all permission_value vs)
      | _ \<Rightarrow> None)"

record snapshot_creation_input =
  in_snap_snapshotId :: jsval
  in_snap_deviceId :: jsval
  in_snap_userId :: jsval
  in_snap_tenantScope :: jsval
  in_snap_authorizationEpoch :: jsval
  in_snap_revision :: jsval
  in_snap_permissions :: jsval
  in_snap_dataMode :: jsval
  in_snap_issuedAt :: jsval
  in_snap_expiresAt :: jsval

text \<open>The life time of snapshots and grants, at most 24 hours.\<close>

definition device_lifetime :: "env \<Rightarrow> utc_timestamp \<Rightarrow> utc_timestamp \<Rightarrow> bool" where
  "device_lifetime E issuedAt expiresAt = lifetime_within E issuedAt expiresAt (24 * 60 * 60 * 1000)"

definition createAuthorizationSnapshotV1 ::
    "env \<Rightarrow> snapshot_creation_input \<Rightarrow> (jsstr \<Rightarrow> jsstr) \<Rightarrow> device_error + device_snapshot" where
  "createAuthorizationSnapshotV1 E i sign =
     require Device_INVALID_IDENTIFIER (stable E (in_snap_snapshotId i)) (\<lambda>snapshotId.
     require Device_INVALID_IDENTIFIER (stable E (in_snap_deviceId i)) (\<lambda>deviceId.
     require Device_INVALID_IDENTIFIER (stable E (in_snap_userId i)) (\<lambda>userId.
     require Device_INVALID_SCOPE (scope_value E (in_snap_tenantScope i)) (\<lambda>scope.
     require Device_INVALID_EPOCH (positiveInteger (in_snap_authorizationEpoch i)) (\<lambda>epoch.
     require Device_INVALID_REVISION (positiveInteger (in_snap_revision i)) (\<lambda>revision.
     require Device_INVALID_TIMESTAMP (timestamp E (in_snap_issuedAt i)) (\<lambda>issuedAt.
     require Device_INVALID_TIMESTAMP (timestamp E (in_snap_expiresAt i)) (\<lambda>expiresAt.
     reject_if (\<not> device_lifetime E issuedAt expiresAt) Device_INVALID_LIFETIME (
     require Device_INVALID_MODE (one_of sync_modes (in_snap_dataMode i)) (\<lambda>mode.
     require Device_INVALID_PERMISSION (permission_list (in_snap_permissions i)) (\<lambda>permissions.
     let unsigned =
       \<lparr>snap_schemaVersion = 1, snap_snapshotId = snapshotId, snap_deviceId = deviceId, snap_userId = userId,
        snap_tenantScope = scope, snap_authorizationEpoch = epoch, snap_revision = revision,
        snap_permissions = permissions, snap_dataMode = mode, snap_issuedAt = issuedAt,
        snap_expiresAt = expiresAt\<rparr>;
       payload = canonicalSnapshot unsigned
     in require Device_SIGNATURE_INVALID (text_value E (Str (sign payload)) 2048) (\<lambda>signature.
        accepted (unsigned_snapshot.extend unsigned (device_snapshot.fields payload signature))))))))))))))"

record snapshot_check =
  in_sv_now :: jsval
  in_sv_deviceId :: jsval
  in_sv_tenantScope :: jsval
  in_sv_authorizationEpoch :: jsval
  in_sv_minimumRevision :: jsval

definition verifyAuthorizationSnapshotV1 ::
    "env \<Rightarrow> device_snapshot \<Rightarrow> snapshot_check \<Rightarrow> (jsstr \<Rightarrow> jsstr \<Rightarrow> bool) \<Rightarrow> device_error + unit" where
  "verifyAuthorizationSnapshotV1 E s i verify =
     require Device_INVALID_TIMESTAMP (timestamp E (in_sv_now i)) (\<lambda>now.
     require Device_INVALID_IDENTIFIER (stable E (in_sv_deviceId i)) (\<lambda>deviceId.
     require Device_INVALID_SCOPE (scope_value E (in_sv_tenantScope i)) (\<lambda>scope.
     require Device_INVALID_REVISION (positiveInteger (in_sv_authorizationEpoch i)) (\<lambda>epoch.
     require Device_INVALID_REVISION (positiveInteger (in_sv_minimumRevision i)) (\<lambda>minimum.
     reject_if (snap_deviceId s \<noteq> deviceId \<or> \<not> sameScope_device (snap_tenantScope s) scope
                \<or> snap_authorizationEpoch s \<noteq> epoch \<or> snap_revision s < minimum) Device_SNAPSHOT_STALE (
     reject_if (date_less (Date_parse E now) (Date_parse E (snap_issuedAt s))
                \<or> date_le (Date_parse E (snap_expiresAt s)) (Date_parse E now)) Device_SNAPSHOT_STALE (
     reject_if (canonicalSnapshot (unsigned_snapshot.truncate s) \<noteq> snap_payload s
                \<or> \<not> verify (snap_payload s) (snap_signature s)) Device_SIGNATURE_INVALID (
     accepted ()))))))))"

section \<open>Opaque grants\<close>

record grant_input =
  in_og_grantId :: jsval
  in_og_deviceId :: jsval
  in_og_tenantScope :: jsval
  in_og_bindingId :: jsval
  in_og_capabilityDigest :: jsval
  in_og_authorizationEpoch :: jsval
  in_og_effects :: jsval
  in_og_issuedAt :: jsval
  in_og_expiresAt :: jsval

definition effect_list :: "jsval \<Rightarrow> device_effect list option" where
  "effect_list v =
     (case v of
        Arr vs \<Rightarrow> if vs = [] then None else map_option dedup (parse_all (one_of device_effects) vs)
      | _ \<Rightarrow> None)"

definition createOpaqueDeviceGrantV1 :: "env \<Rightarrow> grant_input \<Rightarrow> device_error + opaque_grant" where
  "createOpaqueDeviceGrantV1 E i =
     require Device_INVALID_IDENTIFIER (stable E (in_og_grantId i)) (\<lambda>grantId.
     require Device_INVALID_IDENTIFIER (stable E (in_og_deviceId i)) (\<lambda>deviceId.
     require Device_INVALID_IDENTIFIER (stable E (in_og_bindingId i)) (\<lambda>bindingId.
     require Device_INVALID_SCOPE (scope_value E (in_og_tenantScope i)) (\<lambda>scope.
     require Device_INVALID_TEXT (text_value E (in_og_capabilityDigest i) 512) (\<lambda>capabilityDigest.
     require Device_INVALID_EPOCH (positiveInteger (in_og_authorizationEpoch i)) (\<lambda>epoch.
     require Device_INVALID_TIMESTAMP (timestamp E (in_og_issuedAt i)) (\<lambda>issuedAt.
     require Device_INVALID_TIMESTAMP (timestamp E (in_og_expiresAt i)) (\<lambda>expiresAt.
     reject_if (\<not> device_lifetime E issuedAt expiresAt) Device_INVALID_LIFETIME (
     require Device_INVALID_EFFECT (effect_list (in_og_effects i)) (\<lambda>effects.
     accepted
       \<lparr>og_grantId = grantId, og_deviceId = deviceId, og_tenantScope = scope, og_bindingId = bindingId,
        og_capabilityDigest = capabilityDigest, og_authorizationEpoch = epoch, og_effects = effects,
        og_issuedAt = issuedAt, og_expiresAt = expiresAt, og_status = Grant_ACTIVE,
        og_revision = 1\<rparr>))))))))))"

record grant_check =
  in_gc_now :: jsval
  in_gc_deviceId :: jsval
  in_gc_tenantScope :: jsval
  in_gc_authorizationEpoch :: jsval

definition checkOpaqueDeviceGrantV1 :: "env \<Rightarrow> opaque_grant \<Rightarrow> grant_check \<Rightarrow> device_error + unit" where
  "checkOpaqueDeviceGrantV1 E g i =
     require Device_INVALID_TIMESTAMP (timestamp E (in_gc_now i)) (\<lambda>now.
     require Device_INVALID_IDENTIFIER (stable E (in_gc_deviceId i)) (\<lambda>deviceId.
     require Device_INVALID_SCOPE (scope_value E (in_gc_tenantScope i)) (\<lambda>scope.
     require Device_INVALID_EPOCH (positiveInteger (in_gc_authorizationEpoch i)) (\<lambda>epoch.
     reject_if (og_status g = Grant_REVOKED) Device_GRANT_REVOKED (
     reject_if (og_status g = Grant_EXPIRED
                \<or> date_le (Date_parse E (og_expiresAt g)) (Date_parse E now)) Device_GRANT_EXPIRED (
     reject_if (og_deviceId g \<noteq> deviceId \<or> \<not> sameScope_device (og_tenantScope g) scope
                \<or> og_authorizationEpoch g \<noteq> epoch) Device_SNAPSHOT_STALE (
     accepted ())))))))"

definition checkOpaqueDeviceGrantEffectV1 :: "opaque_grant \<Rightarrow> jsval \<Rightarrow> device_error + unit" where
  "checkOpaqueDeviceGrantEffectV1 g effect =
     require Device_INVALID_EFFECT (one_of device_effects effect) (\<lambda>e.
     if e \<in> set (og_effects g) then accepted () else rejected Device_EFFECT_DENIED)"

section \<open>The repository\<close>

datatype dso_throw =
    DSO_SCOPE_NARROWING_REQUIRED | DSO_IMMUTABLE_SNAPSHOT | DSO_IMMUTABLE_GRANT | DSO_REVISION_CONFLICT
  | DSO_IMMUTABLE_RECORD | DSO_IDEMPOTENCY_CONFLICT

record authority_store =
  st_snapshots :: "(stable_id \<times> device_snapshot) list"
  st_grants :: "(stable_id \<times> opaque_grant) list"

type_synonym 'a authority_work = "(authority_store, dso_throw, 'a) work"

text \<open>
  The stored records are compared by their JSON texts. Both were built by the same constructor, which
  writes the properties in one order, so equal texts are equal records.
\<close>

definition put_snapshot :: "device_snapshot \<Rightarrow> authority_store \<Rightarrow> authority_store" where
  "put_snapshot s st = st\<lparr>st_snapshots := AList.update (snap_snapshotId s) s (st_snapshots st)\<rparr>"

definition put_grant :: "opaque_grant \<Rightarrow> authority_store \<Rightarrow> authority_store" where
  "put_grant g st = st\<lparr>st_grants := AList.update (og_grantId g) g (st_grants st)\<rparr>"

definition saveSnapshot :: "tenant_ctx \<Rightarrow> device_snapshot \<Rightarrow> unit authority_work" where
  "saveSnapshot ctx s st =
     (if \<not> tenantScopeContainsV1 (ctx_tenantScope ctx) (snap_tenantScope s)
      then Inl DSO_SCOPE_NARROWING_REQUIRED
      else case map_of (st_snapshots st) (snap_snapshotId s) of
        Some existing \<Rightarrow>
          if existing \<noteq> s then Inl DSO_IMMUTABLE_SNAPSHOT else Inr ((), put_snapshot s st)
      | None \<Rightarrow> Inr ((), put_snapshot s st))"

text \<open>The snapshots of a device by descending revision, a stable sort, and the first of them.\<close>

definition findSnapshot :: "tenant_ctx \<Rightarrow> stable_id \<Rightarrow> authority_store \<Rightarrow> device_snapshot option" where
  "findSnapshot ctx deviceId st =
     (case sort_key (\<lambda>s. - snap_revision s)
             (filter (\<lambda>s. snap_deviceId s = deviceId \<and> visible (ctx_tenantScope ctx) (snap_tenantScope s))
               (map snd (st_snapshots st))) of
        [] \<Rightarrow> None
      | s # _ \<Rightarrow> Some s)"

definition saveGrant :: "tenant_ctx \<Rightarrow> opaque_grant \<Rightarrow> unit authority_work" where
  "saveGrant ctx g st =
     (if \<not> tenantScopeContainsV1 (ctx_tenantScope ctx) (og_tenantScope g)
      then Inl DSO_SCOPE_NARROWING_REQUIRED
      else case map_of (st_grants st) (og_grantId g) of
        Some existing \<Rightarrow> if existing \<noteq> g then Inl DSO_IMMUTABLE_GRANT else Inr ((), put_grant g st)
      | None \<Rightarrow> Inr ((), put_grant g st))"

definition findGrant :: "tenant_ctx \<Rightarrow> stable_id \<Rightarrow> authority_store \<Rightarrow> opaque_grant option" where
  "findGrant ctx grantId st =
     (case map_of (st_grants st) grantId of
        None \<Rightarrow> None
      | Some g \<Rightarrow> if visible (ctx_tenantScope ctx) (og_tenantScope g) then Some g else None)"

definition revoked_grant :: "opaque_grant \<Rightarrow> opaque_grant" where
  "revoked_grant g = g\<lparr>og_status := Grant_REVOKED, og_revision := js_succ (og_revision g)\<rparr>"

definition revokeGrant :: "tenant_ctx \<Rightarrow> stable_id \<Rightarrow> int \<Rightarrow> opaque_grant option authority_work" where
  "revokeGrant ctx grantId expectedRevision st =
     (case map_of (st_grants st) grantId of
        None \<Rightarrow> Inr (None, st)
      | Some g \<Rightarrow>
          if \<not> visible (ctx_tenantScope ctx) (og_tenantScope g) then Inr (None, st)
          else if \<not> tenantScopeContainsV1 (ctx_tenantScope ctx) (og_tenantScope g)
          then Inl DSO_SCOPE_NARROWING_REQUIRED
          else if og_revision g \<noteq> expectedRevision then Inl DSO_REVISION_CONFLICT
          else if og_status g \<noteq> Grant_ACTIVE then Inr (Some g, st)
          else Inr (Some (revoked_grant g),
                    st\<lparr>st_grants := AList.update grantId (revoked_grant g) (st_grants st)\<rparr>))"

section \<open>The service\<close>

type_synonym 'a grant_call = "authority_store \<Rightarrow> (dso_throw + (device_error + 'a)) \<times> authority_store"

definition issueSnapshot ::
    "env \<Rightarrow> tenant_ctx \<Rightarrow> snapshot_creation_input \<Rightarrow> (jsstr \<Rightarrow> jsstr) \<Rightarrow> device_snapshot grant_call" where
  "issueSnapshot E ctx i sign st =
     (case createAuthorizationSnapshotV1 E i sign of
        Inl e \<Rightarrow> (Inr (rejected e), st)
      | Inr s \<Rightarrow> withTransaction (await (saveSnapshot ctx s) (\<lambda>_. give (accepted s))) st)"

definition verifySnapshot ::
    "env \<Rightarrow> device_snapshot \<Rightarrow> snapshot_check \<Rightarrow> (jsstr \<Rightarrow> jsstr \<Rightarrow> bool) \<Rightarrow> device_error + unit" where
  "verifySnapshot E s i verify = verifyAuthorizationSnapshotV1 E s i verify"

definition issueGrant :: "env \<Rightarrow> tenant_ctx \<Rightarrow> grant_input \<Rightarrow> opaque_grant grant_call" where
  "issueGrant E ctx i st =
     (case createOpaqueDeviceGrantV1 E i of
        Inl e \<Rightarrow> (Inr (rejected e), st)
      | Inr g \<Rightarrow> withTransaction (await (saveGrant ctx g) (\<lambda>_. give (accepted g))) st)"

text \<open>The caller's check has no epoch of its own: that of the context is put in.\<close>

definition with_epoch :: "tenant_ctx \<Rightarrow> grant_check \<Rightarrow> grant_check" where
  "with_epoch ctx i = i\<lparr>in_gc_authorizationEpoch := int_num (ctx_authorizationEpoch ctx)\<rparr>"

definition checkGrant :: "env \<Rightarrow> tenant_ctx \<Rightarrow> jsval \<Rightarrow> grant_check \<Rightarrow> unit grant_call" where
  "checkGrant E ctx grantIdInput i st =
     (case stable E grantIdInput of
        None \<Rightarrow> (Inr (rejected Device_INVALID_IDENTIFIER), st)
      | Some grantId \<Rightarrow>
          withTransaction (read_store (findGrant ctx grantId) (\<lambda>found.
            give (case found of
                    None \<Rightarrow> rejected Device_GRANT_EXPIRED
                  | Some g \<Rightarrow> checkOpaqueDeviceGrantV1 E g (with_epoch ctx i)))) st)"

definition checkGrantEffect ::
    "env \<Rightarrow> tenant_ctx \<Rightarrow> jsval \<Rightarrow> grant_check \<Rightarrow> jsval \<Rightarrow> unit grant_call" where
  "checkGrantEffect E ctx grantIdInput i effect st =
     (case stable E grantIdInput of
        None \<Rightarrow> (Inr (rejected Device_INVALID_IDENTIFIER), st)
      | Some grantId \<Rightarrow>
          withTransaction (read_store (findGrant ctx grantId) (\<lambda>found.
            give (case found of
                    None \<Rightarrow> rejected Device_GRANT_EXPIRED
                  | Some g \<Rightarrow>
                      (case checkOpaqueDeviceGrantV1 E g (with_epoch ctx i) of
                         Inl Device_SNAPSHOT_STALE \<Rightarrow> rejected Device_GRANT_SCOPE_DENIED
                       | Inl e \<Rightarrow> rejected e
                       | Inr _ \<Rightarrow> checkOpaqueDeviceGrantEffectV1 g effect)))) st)"

definition revokeGrant_call :: "env \<Rightarrow> tenant_ctx \<Rightarrow> jsval \<Rightarrow> int \<Rightarrow> opaque_grant grant_call" where
  "revokeGrant_call E ctx grantIdInput expectedRevision st =
     (case stable E grantIdInput of
        None \<Rightarrow> (Inr (rejected Device_INVALID_IDENTIFIER), st)
      | Some grantId \<Rightarrow>
          withTransaction (await (revokeGrant ctx grantId expectedRevision) (\<lambda>revoked.
            give (case revoked of None \<Rightarrow> rejected Device_GRANT_EXPIRED | Some g \<Rightarrow> accepted g))) st)"

section \<open>Admission of synchronization\<close>

datatype sync_denial =
    Denial_INVALID_IDENTIFIER | Denial_GRANT_SCOPE_DENIED | Denial_GRANT_REVOKED | Denial_GRANT_EXPIRED
  | Denial_DEVICE_REVOKED | Denial_AUTHORIZATION_UNAVAILABLE

text \<open>What the two optional authorities of the adapter answer (they are other components).\<close>

datatype identity_answer = Identity_accepted | Identity_DEVICE_REVOKED | Identity_SECURITY_EPOCH_STALE | Identity_other

datatype capability_answer =
    Capability_accepted | Capability_GRANT_NOT_FOUND | Capability_INVALID_IDENTIFIER
  | Capability_GRANT_REVOKED | Capability_GRANT_EXPIRED | Capability_GRANT_SCOPE_DENIED | Capability_other

fun effect_text :: "device_effect \<Rightarrow> string" where
  "effect_text Effect_READ = ''READ''"
| "effect_text Effect_WRITE_DERIVATIVE = ''WRITE_DERIVATIVE''"
| "effect_text Effect_WATCH = ''WATCH''"

text \<open>The codes of a grant check that admission passes on; the others it makes unavailable.\<close>

fun denial_of :: "device_error \<Rightarrow> sync_denial" where
  "denial_of Device_INVALID_IDENTIFIER = Denial_INVALID_IDENTIFIER"
| "denial_of Device_GRANT_REVOKED = Denial_GRANT_REVOKED"
| "denial_of Device_GRANT_EXPIRED = Denial_GRANT_EXPIRED"
| "denial_of Device_GRANT_SCOPE_DENIED = Denial_GRANT_SCOPE_DENIED"
| "denial_of Device_EFFECT_DENIED = Denial_GRANT_SCOPE_DENIED"
| "denial_of Device_INVALID_EFFECT = Denial_GRANT_SCOPE_DENIED"
| "denial_of _ = Denial_AUTHORIZATION_UNAVAILABLE"

definition opaque_admission ::
    "env \<Rightarrow> tenant_ctx \<Rightarrow> jsval \<Rightarrow> grant_check \<Rightarrow> device_effect \<Rightarrow> authority_store
     \<Rightarrow> dso_throw + (sync_denial + unit)" where
  "opaque_admission E ctx grantId i effect st =
     (case fst (checkGrantEffect E ctx grantId i (Str (js (effect_text effect))) st) of
        Inl e \<Rightarrow> Inl e
      | Inr (Inr _) \<Rightarrow> Inr (accepted ())
      | Inr (Inl e) \<Rightarrow> Inr (rejected (denial_of e)))"

fun identity_denial :: "identity_answer option \<Rightarrow> sync_denial option" where
  "identity_denial None = None"
| "identity_denial (Some Identity_accepted) = None"
| "identity_denial (Some Identity_DEVICE_REVOKED) = Some Denial_DEVICE_REVOKED"
| "identity_denial (Some Identity_SECURITY_EPOCH_STALE) = Some Denial_GRANT_SCOPE_DENIED"
| "identity_denial (Some Identity_other) = Some Denial_AUTHORIZATION_UNAVAILABLE"

definition authorize_sync ::
    "env \<Rightarrow> tenant_ctx \<Rightarrow> identity_answer option \<Rightarrow> capability_answer option \<Rightarrow> jsval \<Rightarrow> grant_check
     \<Rightarrow> device_effect \<Rightarrow> authority_store \<Rightarrow> dso_throw + (sync_denial + unit)" where
  "authorize_sync E ctx identity capability grantId i effect st =
     (case identity_denial identity of
        Some denial \<Rightarrow> Inr (rejected denial)
      | None \<Rightarrow>
     (case capability of
        None \<Rightarrow> opaque_admission E ctx grantId i effect st
      | Some Capability_GRANT_NOT_FOUND \<Rightarrow> opaque_admission E ctx grantId i effect st
      | Some Capability_accepted \<Rightarrow> Inr (accepted ())
      | Some Capability_INVALID_IDENTIFIER \<Rightarrow> Inr (rejected Denial_INVALID_IDENTIFIER)
      | Some Capability_GRANT_REVOKED \<Rightarrow> Inr (rejected Denial_GRANT_REVOKED)
      | Some Capability_GRANT_EXPIRED \<Rightarrow> Inr (rejected Denial_GRANT_EXPIRED)
      | Some Capability_GRANT_SCOPE_DENIED \<Rightarrow> Inr (rejected Denial_GRANT_SCOPE_DENIED)
      | Some Capability_other \<Rightarrow> Inr (rejected Denial_AUTHORIZATION_UNAVAILABLE)))"

section \<open>Facts about grants\<close>

lemma sameScope_iff [simp]: "sameScope_device a b \<longleftrightarrow> a = b"
  by (cases a; cases b) (auto simp: sameScope_device_def)

lemma device_effects_text [simp]: "map_of device_effects (effect_text e) = Some e"
  by (cases e) (simp_all add: device_effects_def)

text \<open>What a check of a grant compares: the epoch is that of the context.\<close>

definition grant_fits ::
    "env \<Rightarrow> tenant_ctx \<Rightarrow> stable_id \<Rightarrow> grant_check \<Rightarrow> authority_store \<Rightarrow> opaque_grant \<Rightarrow> bool" where
  "grant_fits E ctx grantId i st g \<longleftrightarrow>
     map_of (st_grants st) grantId = Some g \<and> visible (ctx_tenantScope ctx) (og_tenantScope g)
     \<and> og_status g = Grant_ACTIVE
     \<and> stable E (in_gc_deviceId i) = Some (og_deviceId g)
     \<and> scope_value E (in_gc_tenantScope i) = Some (og_tenantScope g)
     \<and> positiveInteger (int_num (ctx_authorizationEpoch ctx)) = Some (og_authorizationEpoch g)
     \<and> (\<exists>now. timestamp E (in_gc_now i) = Some now
          \<and> \<not> date_le (Date_parse E (og_expiresAt g)) (Date_parse E now))"

lemma findGrant_Some:
  "findGrant ctx k st = Some g \<longleftrightarrow>
     map_of (st_grants st) k = Some g \<and> visible (ctx_tenantScope ctx) (og_tenantScope g)"
  by (auto simp: findGrant_def split: option.splits if_splits)

lemma check_grant_accepted:
  "checkOpaqueDeviceGrantV1 E g i = Inr u \<longleftrightarrow>
     og_status g = Grant_ACTIVE
     \<and> stable E (in_gc_deviceId i) = Some (og_deviceId g)
     \<and> scope_value E (in_gc_tenantScope i) = Some (og_tenantScope g)
     \<and> positiveInteger (in_gc_authorizationEpoch i) = Some (og_authorizationEpoch g)
     \<and> (\<exists>now. timestamp E (in_gc_now i) = Some now
          \<and> \<not> date_le (Date_parse E (og_expiresAt g)) (Date_parse E now))"
  by (cases "og_status g") (auto simp: checkOpaqueDeviceGrantV1_def result_simps)

lemma check_effect_accepted:
  "checkOpaqueDeviceGrantEffectV1 g v = Inr u \<longleftrightarrow> (\<exists>e. one_of device_effects v = Some e \<and> e \<in> set (og_effects g))"
  by (auto simp: checkOpaqueDeviceGrantEffectV1_def result_simps split: if_splits)

lemma with_epoch_fields [simp]:
  "in_gc_now (with_epoch ctx i) = in_gc_now i" "in_gc_deviceId (with_epoch ctx i) = in_gc_deviceId i"
  "in_gc_tenantScope (with_epoch ctx i) = in_gc_tenantScope i"
  "in_gc_authorizationEpoch (with_epoch ctx i) = int_num (ctx_authorizationEpoch ctx)"
  by (simp_all add: with_epoch_def)

text \<open>An effect is admitted exactly under a fitting grant that lists it.\<close>

lemma checkGrantEffect_accepted:
  "fst (checkGrantEffect E ctx v i effect st) = Inr (Inr u) \<longleftrightarrow>
     (\<exists>k g e. stable E v = Some k \<and> grant_fits E ctx k i st g
        \<and> one_of device_effects effect = Some e \<and> e \<in> set (og_effects g))"
proof (cases "stable E v")
  case None
  then show ?thesis by (simp add: checkGrantEffect_def)
next
  case (Some k)
  show ?thesis
  proof (cases "findGrant ctx k st")
    case None
    then have "\<not> grant_fits E ctx k i st g" for g
      using findGrant_Some [of ctx k st g] by (auto simp: grant_fits_def)
    with Some None show ?thesis by (simp add: checkGrantEffect_def withTransaction_def work_simps)
  next
    case (Some g)
    note found = this
    have fits: "grant_fits E ctx k i st h \<longleftrightarrow> h = g \<and> checkOpaqueDeviceGrantV1 E g (with_epoch ctx i) = Inr ()" for h
      using found unfolding findGrant_Some by (auto simp: grant_fits_def check_grant_accepted)
    have "fst (checkGrantEffect E ctx v i effect st) = Inr (Inr u) \<longleftrightarrow>
        checkOpaqueDeviceGrantV1 E g (with_epoch ctx i) = Inr () \<and> checkOpaqueDeviceGrantEffectV1 g effect = Inr u"
      using \<open>stable E v = Some k\<close> found
      by (cases "checkOpaqueDeviceGrantV1 E g (with_epoch ctx i)")
         (auto simp: checkGrantEffect_def withTransaction_def work_simps split: device_error.splits)
    with \<open>stable E v = Some k\<close> show ?thesis by (auto simp: fits check_effect_accepted)
  qed
qed

lemma opaque_admission_accepted:
  "opaque_admission E ctx v i e st = Inr (Inr u) \<longleftrightarrow>
     (\<exists>k g. stable E v = Some k \<and> grant_fits E ctx k i st g \<and> e \<in> set (og_effects g))"
proof -
  have "opaque_admission E ctx v i e st = Inr (Inr u) \<longleftrightarrow>
      fst (checkGrantEffect E ctx v i (Str (js (effect_text e))) st) = Inr (Inr ())"
    by (auto simp: opaque_admission_def split: sum.splits)
  then show ?thesis by (simp add: checkGrantEffect_accepted)
qed

section \<open>Histories\<close>

text \<open>Every operation of the service that can change the store.\<close>

inductive authority_step :: "env \<Rightarrow> authority_store \<Rightarrow> authority_store \<Rightarrow> bool" for E where
  snapshot: "authority_step E st (snd (issueSnapshot E ctx i sign st))"
| grant: "authority_step E st (snd (issueGrant E ctx i st))"
| revoke: "authority_step E st (snd (revokeGrant_call E ctx v r st))"

lemma saveSnapshot_grants: "saveSnapshot ctx s st = Inr (u, st') \<Longrightarrow> st_grants st' = st_grants st"
  by (auto simp: saveSnapshot_def put_snapshot_def split: if_splits option.splits)

lemma saveGrant_stored:
  "saveGrant ctx g st = Inr (u, st') \<Longrightarrow> map_of (st_grants st) k = Some h \<Longrightarrow> map_of (st_grants st') k = Some h"
  by (auto simp: saveGrant_def put_grant_def update_conv' split: if_splits option.splits)

lemma revokeGrant_stored:
  assumes "revokeGrant ctx k r st = Inr (res, st')" "map_of (st_grants st) j = Some h"
  shows "map_of (st_grants st') j = Some h
    \<or> j = k \<and> og_status h = Grant_ACTIVE \<and> map_of (st_grants st') j = Some (revoked_grant h)"
  using assms by (auto simp: revokeGrant_def update_conv' split: option.splits if_splits)

lemma step_stored:
  assumes "authority_step E st st'" "map_of (st_grants st) k = Some h"
  shows "map_of (st_grants st') k = Some h
    \<or> og_status h = Grant_ACTIVE \<and> map_of (st_grants st') k = Some (revoked_grant h)"
  using assms(1)
proof cases
  case (snapshot ctx i sign)
  show ?thesis
  proof (cases "createAuthorizationSnapshotV1 E i sign")
    case (Inr s)
    with snapshot assms(2) show ?thesis
      by (cases "saveSnapshot ctx s st")
         (auto simp: issueSnapshot_def withTransaction_def await_apply work_simps dest: saveSnapshot_grants)
  qed (use snapshot assms(2) in \<open>simp add: issueSnapshot_def\<close>)
next
  case (grant ctx i)
  show ?thesis
  proof (cases "createOpaqueDeviceGrantV1 E i")
    case (Inr g)
    with grant assms(2) show ?thesis
      by (cases "saveGrant ctx g st")
         (auto simp: issueGrant_def withTransaction_def await_apply work_simps dest: saveGrant_stored)
  qed (use grant assms(2) in \<open>simp add: issueGrant_def\<close>)
next
  case (revoke ctx v r)
  show ?thesis
  proof (cases "stable E v")
    case (Some j)
    show ?thesis
    proof (cases "revokeGrant ctx j r st")
      case (Inl e)
      with Some revoke assms(2) show ?thesis
        by (simp add: revokeGrant_call_def withTransaction_def await_apply)
    next
      case (Inr p)
      then obtain res st2 where p: "revokeGrant ctx j r st = Inr (res, st2)" by (cases p) simp
      with Some revoke have "st' = st2"
        by (simp add: revokeGrant_call_def withTransaction_def await_apply work_simps)
      with revokeGrant_stored [OF p assms(2)] show ?thesis by auto
    qed
  qed (use revoke assms(2) in \<open>simp add: revokeGrant_call_def\<close>)
qed

lemma ended_stays:
  assumes "(authority_step E)\<^sup>*\<^sup>* st st'" "map_of (st_grants st) k = Some h" "og_status h \<noteq> Grant_ACTIVE"
  shows "map_of (st_grants st') k = Some h"
  using assms(1)
proof (induction rule: rtranclp_induct)
  case base
  show ?case by (rule assms(2))
next
  case (step t u)
  with step_stored [OF step(2) step(3)] assms(3) show ?case by simp
qed

lemma revoke_accepted:
  assumes "revokeGrant_call E ctx v r st = (Inr (Inr g), st')" "stable E v = Some k"
  shows "map_of (st_grants st') k = Some g" "og_status g \<noteq> Grant_ACTIVE"
proof -
  obtain res where p: "revokeGrant ctx k r st = Inr (res, st')" "res = Some g"
    using assms by (cases "revokeGrant ctx k r st")
      (auto simp: revokeGrant_call_def withTransaction_def await_apply work_simps split: option.splits)
  then show "map_of (st_grants st') k = Some g" "og_status g \<noteq> Grant_ACTIVE"
    by (auto simp: revokeGrant_def revoked_grant_def update_conv' split: option.splits if_splits)
qed

section \<open>Samples\<close>

definition sample_ctx :: tenant_ctx where
  "sample_ctx =
     \<lparr>ctx_sessionId = None, ctx_tenantScope = ws_scope CHR ''a'' CHR ''b'', ctx_actorId = uuid_of CHR ''a'',
      ctx_correlationId = uuid_of CHR ''b'', ctx_idempotencyKey = js ''key'', ctx_authorizationEpoch = 2,
      ctx_workspaceAuthorizationEpoch = None, ctx_mfaRequired = None, ctx_mfaReenrollmentRequired = False,
      ctx_expectedRevision = None\<rparr>"

definition sample_grant :: opaque_grant where
  "sample_grant =
     \<lparr>og_grantId = uuid_of CHR ''c'', og_deviceId = uuid_of CHR ''b'',
      og_tenantScope = ws_scope CHR ''a'' CHR ''b'', og_bindingId = uuid_of CHR ''d'',
      og_capabilityDigest = js ''digest'', og_authorizationEpoch = 2,
      og_effects = [Effect_READ, Effect_WRITE_DERIVATIVE], og_issuedAt = time_of ''01'',
      og_expiresAt = time_of ''30'', og_status = Grant_ACTIVE, og_revision = 1\<rparr>"

definition sample_authority :: authority_store where
  "sample_authority = \<lparr>st_snapshots = [], st_grants = [(uuid_of CHR ''c'', sample_grant)]\<rparr>"

definition sample_grant_check :: grant_check where
  "sample_grant_check =
     \<lparr>in_gc_now = sample_time ''05'', in_gc_deviceId = sample_id CHR ''b'',
      in_gc_tenantScope = sample_scope CHR ''a'' CHR ''b'', in_gc_authorizationEpoch = Undefined\<rparr>"

definition sample_grant_input :: grant_input where
  "sample_grant_input =
     \<lparr>in_og_grantId = sample_id CHR ''c'', in_og_deviceId = sample_id CHR ''b'',
      in_og_tenantScope = sample_scope CHR ''a'' CHR ''b'', in_og_bindingId = sample_id CHR ''d'',
      in_og_capabilityDigest = Str (js ''digest''), in_og_authorizationEpoch = int_num 2,
      in_og_effects = Arr [Str (js ''READ''), Str (js ''WRITE_DERIVATIVE'')],
      in_og_issuedAt = sample_time ''01'', in_og_expiresAt = sample_time ''30''\<rparr>"

lemma sample_grant_issued:
  "issueGrant sample_env sample_ctx sample_grant_input \<lparr>st_snapshots = [], st_grants = []\<rparr>
     = (Inr (Inr sample_grant), sample_authority)"
proof -
  have "one_of device_effects (Str (js ''READ'')) = Some Effect_READ"
    "one_of device_effects (Str (js ''WRITE_DERIVATIVE'')) = Some Effect_WRITE_DERIVATIVE"
    by (simp_all add: device_effects_def)
  then have "createOpaqueDeviceGrantV1 sample_env sample_grant_input = Inr sample_grant"
    by (simp add: createOpaqueDeviceGrantV1_def sample_grant_input_def sample_grant_def result_simps
        plain_def effect_list_def dedup_def max_safe_integer_def device_lifetime_def lifetime_within_def)
  then show ?thesis
    by (simp add: issueGrant_def withTransaction_def await_apply work_simps saveGrant_def put_grant_def
        sample_ctx_def sample_grant_def sample_authority_def ws_scope_def)
qed

lemma sample_grant_admits:
  "opaque_admission sample_env sample_ctx (sample_id CHR ''c'') sample_grant_check Effect_READ sample_authority
     = Inr (Inr ())"
  unfolding opaque_admission_accepted
  by (simp add: grant_fits_def sample_authority_def sample_grant_def sample_grant_check_def sample_ctx_def
      max_safe_integer_def)

text \<open>Revocation is final: no later operation of the authority brings a grant back.\<close>

lemma revoked_grant_never_admits:
  assumes "revokeGrant_call E ctx v r st = (Inr (Inr g), st1)" "(authority_step E)\<^sup>*\<^sup>* st1 st2"
    and "stable E w = stable E v"
  shows "fst (checkGrantEffect E ctx' w i effect st2) \<noteq> Inr (Inr ())
    \<and> opaque_admission E ctx' w i e st2 \<noteq> Inr (Inr ())"
proof (cases "stable E v")
  case None
  with assms(3) show ?thesis by (simp add: checkGrantEffect_accepted opaque_admission_accepted)
next
  case (Some k)
  from revoke_accepted [OF assms(1) Some] have "map_of (st_grants st1) k = Some g" "og_status g \<noteq> Grant_ACTIVE"
    by blast+
  then have "map_of (st_grants st2) k = Some g" by (rule ended_stays [OF assms(2)])
  with \<open>og_status g \<noteq> Grant_ACTIVE\<close> assms(3) Some show ?thesis
    by (auto simp: checkGrantEffect_accepted opaque_admission_accepted grant_fits_def)
qed

end
