(* ===== verification/DataMode.thy ===== *)
theory DataMode
  imports "HOL-Library.AList" DeviceSync TenantContext
begin

text \<open>
  Data mode policies: packages/domain/src/data-mode/v1.ts (immutable versions that may only narrow
  their parent) and, of services/api/src/features/dso, \<open>DataModePolicyService\<close>
  (application/data-mode-policy.service.ts) over its in-memory repository
  (adapter/in-memory-data-mode-policy-repository.adapter.ts).
\<close>

section \<open>Data\<close>

datatype data_mode = DataMode_LOCAL | DataMode_HYBRID | DataMode_CLOUD

datatype classification = Class_PUBLIC | Class_INTERNAL | Class_CONFIDENTIAL | Class_RESTRICTED

datatype sync_payload =
    Payload_CONTROL_METADATA | Payload_APPROVED_DERIVED_RESULT | Payload_RECONSTRUCTABLE_DERIVED_CONTENT
  | Payload_ORIGINAL_CONTENT

definition data_modes :: "(string \<times> data_mode) list" where
  "data_modes = [(''LOCAL'', DataMode_LOCAL), (''HYBRID'', DataMode_HYBRID), (''CLOUD'', DataMode_CLOUD)]"

definition sync_payloads :: "(string \<times> sync_payload) list" where
  "sync_payloads =
     [(''CONTROL_METADATA'', Payload_CONTROL_METADATA),
      (''APPROVED_DERIVED_RESULT'', Payload_APPROVED_DERIVED_RESULT),
      (''RECONSTRUCTABLE_DERIVED_CONTENT'', Payload_RECONSTRUCTABLE_DERIVED_CONTENT),
      (''ORIGINAL_CONTENT'', Payload_ORIGINAL_CONTENT)]"

text \<open>A record with one list of payload classes for each classification.\<close>

record payload_matrix =
  pm_PUBLIC :: "sync_payload list"
  pm_INTERNAL :: "sync_payload list"
  pm_CONFIDENTIAL :: "sync_payload list"
  pm_RESTRICTED :: "sync_payload list"

fun payloads_for :: "payload_matrix \<Rightarrow> classification \<Rightarrow> sync_payload list" where
  "payloads_for m Class_PUBLIC = pm_PUBLIC m"
| "payloads_for m Class_INTERNAL = pm_INTERNAL m"
| "payloads_for m Class_CONFIDENTIAL = pm_CONFIDENTIAL m"
| "payloads_for m Class_RESTRICTED = pm_RESTRICTED m"

record mode_policy =
  mp_policyId :: stable_id
  mp_policyVersionId :: stable_id
  mp_organizationId :: stable_id
  mp_workspaceId :: stable_id
  mp_revision :: int
  mp_mode :: data_mode
  mp_allowedPayloadClasses :: payload_matrix
  mp_allowedPlacementKinds :: "jsstr list"
  mp_allowedExecutorClasses :: "jsstr list"
  mp_allowedDestinationClasses :: "jsstr list"
  mp_canonicalHash :: jsstr
  mp_publishedAt :: utc_timestamp

datatype policy_error =
    Mode_INVALID_IDENTIFIER | Mode_INVALID_REVISION | Mode_INVALID_MODE | Mode_INVALID_PAYLOAD_CLASS
  | Mode_INVALID_COLLECTION | Mode_INVALID_HASH | Mode_INVALID_TIMESTAMP | Mode_POLICY_BROADENS_PARENT
  | Mode_IMMUTABLE_POLICY | Mode_PERSISTENCE_UNAVAILABLE

section \<open>Policy versions\<close>

definition list_item :: "env \<Rightarrow> nat \<Rightarrow> jsval \<Rightarrow> jsstr" where
  "list_item E maxLength v =
     (case v of
        Str s \<Rightarrow> if s \<noteq> [] \<and> length s \<le> maxLength then trim (nfc E s) else []
      | _ \<Rightarrow> [])"

definition textList :: "env \<Rightarrow> jsval \<Rightarrow> nat \<Rightarrow> nat \<Rightarrow> jsstr list option" where
  "textList E v maxItems maxLength =
     (case v of
        Arr vs \<Rightarrow>
          if length vs > maxItems then None
          else let vals = map (list_item E maxLength) vs
            in if list_ex (\<lambda>s. s = [] \<or> list_ex control s) vals then None else Some (dedup vals)
      | _ \<Rightarrow> None)"

definition payload_row :: "jsval \<Rightarrow> sync_payload list option" where
  "payload_row v =
     (case v of
        Arr vs \<Rightarrow> if length vs > 4 then None else map_option dedup (parse_all (one_of sync_payloads) vs)
      | _ \<Rightarrow> None)"

definition payloadMatrix :: "jsval \<Rightarrow> payload_matrix option" where
  "payloadMatrix v =
     (if \<not> isRecord v then None
      else Option.bind (payload_row (field v ''PUBLIC'')) (\<lambda>p.
           Option.bind (payload_row (field v ''INTERNAL'')) (\<lambda>i.
           Option.bind (payload_row (field v ''CONFIDENTIAL'')) (\<lambda>c.
           Option.bind (payload_row (field v ''RESTRICTED'')) (\<lambda>r.
             Some \<lparr>pm_PUBLIC = p, pm_INTERNAL = i, pm_CONFIDENTIAL = c, pm_RESTRICTED = r\<rparr>)))))"

fun modeRank :: "data_mode \<Rightarrow> nat" where
  "modeRank DataMode_LOCAL = 0"
| "modeRank DataMode_HYBRID = 1"
| "modeRank DataMode_CLOUD = 2"

definition classifications :: "classification list" where
  "classifications = [Class_PUBLIC, Class_INTERNAL, Class_CONFIDENTIAL, Class_RESTRICTED]"

text \<open>\<open>child.some((x) => !parent.includes(x))\<close>\<close>

definition adds :: "'a list \<Rightarrow> 'a list \<Rightarrow> bool" where
  "adds parent child = list_ex (\<lambda>x. x \<notin> set parent) child"

definition policyNarrowerOrEqual :: "mode_policy \<Rightarrow> mode_policy \<Rightarrow> bool" where
  "policyNarrowerOrEqual parent child =
     (if modeRank (mp_mode child) > modeRank (mp_mode parent) then False
      else if list_ex (\<lambda>c. adds (payloads_for (mp_allowedPayloadClasses parent) c)
                              (payloads_for (mp_allowedPayloadClasses child) c)) classifications then False
      else if adds (mp_allowedPlacementKinds parent) (mp_allowedPlacementKinds child) then False
      else if adds (mp_allowedExecutorClasses parent) (mp_allowedExecutorClasses child) then False
      else \<not> adds (mp_allowedDestinationClasses parent) (mp_allowedDestinationClasses child))"

record policy_version_input =
  in_mp_policyId :: jsval
  in_mp_policyVersionId :: jsval
  in_mp_organizationId :: jsval
  in_mp_workspaceId :: jsval
  in_mp_revision :: jsval
  in_mp_mode :: jsval
  in_mp_allowedPayloadClasses :: jsval
  in_mp_allowedPlacementKinds :: jsval
  in_mp_allowedExecutorClasses :: jsval
  in_mp_allowedDestinationClasses :: jsval
  in_mp_canonicalHash :: jsval
  in_mp_publishedAt :: jsval

definition createDataModePolicyVersionV1 :: "env \<Rightarrow> policy_version_input \<Rightarrow> policy_error + mode_policy" where
  "createDataModePolicyVersionV1 E i =
     require Mode_INVALID_IDENTIFIER (stable E (in_mp_policyId i)) (\<lambda>policyId.
     require Mode_INVALID_IDENTIFIER (stable E (in_mp_policyVersionId i)) (\<lambda>versionId.
     require Mode_INVALID_IDENTIFIER (stable E (in_mp_organizationId i)) (\<lambda>org.
     require Mode_INVALID_IDENTIFIER (stable E (in_mp_workspaceId i)) (\<lambda>ws.
     require Mode_INVALID_REVISION (positiveInteger (in_mp_revision i)) (\<lambda>revision.
     require Mode_INVALID_MODE (one_of data_modes (in_mp_mode i)) (\<lambda>mode.
     require Mode_INVALID_PAYLOAD_CLASS (payloadMatrix (in_mp_allowedPayloadClasses i)) (\<lambda>payloads.
     require Mode_INVALID_COLLECTION (textList E (in_mp_allowedPlacementKinds i) 32 64) (\<lambda>placements.
     require Mode_INVALID_COLLECTION (textList E (in_mp_allowedExecutorClasses i) 32 64) (\<lambda>executors.
     require Mode_INVALID_COLLECTION (textList E (in_mp_allowedDestinationClasses i) 32 64) (\<lambda>destinations.
     require Mode_INVALID_HASH (sha256_hex (in_mp_canonicalHash i)) (\<lambda>hash.
     require Mode_INVALID_TIMESTAMP (timestamp E (in_mp_publishedAt i)) (\<lambda>publishedAt.
     accepted
       \<lparr>mp_policyId = policyId, mp_policyVersionId = versionId, mp_organizationId = org,
        mp_workspaceId = ws, mp_revision = revision, mp_mode = mode, mp_allowedPayloadClasses = payloads,
        mp_allowedPlacementKinds = placements, mp_allowedExecutorClasses = executors,
        mp_allowedDestinationClasses = destinations, mp_canonicalHash = hash,
        mp_publishedAt = publishedAt\<rparr>))))))))))))"

definition ensureDataModePolicyNarrowingV1 :: "mode_policy \<Rightarrow> mode_policy \<Rightarrow> policy_error + unit" where
  "ensureDataModePolicyNarrowingV1 parent child =
     reject_if (mp_workspaceId parent \<noteq> mp_workspaceId child \<or> mp_policyId parent \<noteq> mp_policyId child)
       Mode_POLICY_BROADENS_PARENT (
     if policyNarrowerOrEqual parent child then accepted () else rejected Mode_POLICY_BROADENS_PARENT)"

definition isDataModePayloadAllowedV1 :: "mode_policy \<Rightarrow> classification \<Rightarrow> sync_payload \<Rightarrow> bool" where
  "isDataModePayloadAllowedV1 p c payload \<longleftrightarrow> payload \<in> set (payloads_for (mp_allowedPayloadClasses p) c)"

section \<open>The repository and the service\<close>

datatype mode_throw = Mode_SCOPE_NARROWING_REQUIRED | Mode_IMMUTABLE

type_synonym policy_store = "(stable_id \<times> mode_policy) list"

definition scopeAllowsMutation :: "tenant_ctx \<Rightarrow> mode_policy \<Rightarrow> bool" where
  "scopeAllowsMutation ctx p \<longleftrightarrow>
     scopeType (ctx_tenantScope ctx) = Workspace_type
     \<and> mp_organizationId p = organizationId (ctx_tenantScope ctx)
     \<and> Some (mp_workspaceId p) = workspace_of (ctx_tenantScope ctx)"

definition policyScope :: "mode_policy \<Rightarrow> tenant_scope" where
  "policyScope p = Workspace_scope (mp_organizationId p) (mp_workspaceId p)"

definition savePolicyVersion :: "tenant_ctx \<Rightarrow> mode_policy \<Rightarrow> (policy_store, mode_throw, unit) work" where
  "savePolicyVersion ctx p st =
     (if \<not> scopeAllowsMutation ctx p then Inl Mode_SCOPE_NARROWING_REQUIRED
      else case map_of st (mp_policyVersionId p) of
        Some existing \<Rightarrow> if existing = p then Inr ((), st) else Inl Mode_IMMUTABLE
      | None \<Rightarrow> Inr ((), AList.update (mp_policyVersionId p) p st))"

definition findPolicyVersion :: "tenant_ctx \<Rightarrow> stable_id \<Rightarrow> policy_store \<Rightarrow> mode_policy option" where
  "findPolicyVersion ctx k st =
     (case map_of st k of
        None \<Rightarrow> None
      | Some p \<Rightarrow> if visible (ctx_tenantScope ctx) (policyScope p) then Some p else None)"

definition listPolicyVersions :: "tenant_ctx \<Rightarrow> stable_id \<Rightarrow> policy_store \<Rightarrow> mode_policy list" where
  "listPolicyVersions ctx policyId st =
     sort_key mp_revision
       (filter (\<lambda>p. mp_policyId p = policyId \<and> visible (ctx_tenantScope ctx) (policyScope p)) (map snd st))"

text \<open>\<open>mapRepositoryError\<close>\<close>

fun mode_thrown_code :: "mode_throw \<Rightarrow> policy_error" where
  "mode_thrown_code Mode_IMMUTABLE = Mode_IMMUTABLE_POLICY"
| "mode_thrown_code Mode_SCOPE_NARROWING_REQUIRED = Mode_PERSISTENCE_UNAVAILABLE"

definition save_created ::
    "tenant_ctx \<Rightarrow> mode_policy \<Rightarrow> (policy_store, mode_throw, policy_error + mode_policy) work" where
  "save_created ctx p = await (savePolicyVersion ctx p) (\<lambda>_. give (accepted p))"

definition publish_work ::
    "tenant_ctx \<Rightarrow> mode_policy \<Rightarrow> stable_id option \<Rightarrow> (policy_store, mode_throw, policy_error + mode_policy) work" where
  "publish_work ctx created parentVersionId =
     (case parentVersionId of
        None \<Rightarrow> save_created ctx created
      | Some k \<Rightarrow>
          if k = [] then save_created ctx created
          else read_store (findPolicyVersion ctx k) (\<lambda>found.
            case found of
              None \<Rightarrow> give (rejected Mode_INVALID_IDENTIFIER)
            | Some parent \<Rightarrow>
                (case ensureDataModePolicyNarrowingV1 parent created of
                   Inl e \<Rightarrow> give (rejected e)
                 | Inr _ \<Rightarrow> save_created ctx created)))"

definition publish ::
    "env \<Rightarrow> tenant_ctx \<Rightarrow> policy_version_input \<Rightarrow> stable_id option \<Rightarrow> policy_store
     \<Rightarrow> (policy_error + mode_policy) \<times> policy_store" where
  "publish E ctx i parentVersionId st =
     (case createDataModePolicyVersionV1 E i of
        Inl e \<Rightarrow> (rejected e, st)
      | Inr created \<Rightarrow>
          if scopeType (ctx_tenantScope ctx) \<noteq> Workspace_type
             \<or> mp_organizationId created \<noteq> organizationId (ctx_tenantScope ctx)
             \<or> Some (mp_workspaceId created) \<noteq> workspace_of (ctx_tenantScope ctx)
          then (rejected Mode_INVALID_IDENTIFIER, st)
          else (case withTransaction (publish_work ctx created parentVersionId) st of
                  (Inl e, st') \<Rightarrow> (rejected (mode_thrown_code e), st')
                | (Inr r, st') \<Rightarrow> (r, st')))"

section \<open>Narrowing\<close>

text \<open>What a policy permits: the order that narrowing must respect.\<close>

definition permits_no_more :: "mode_policy \<Rightarrow> mode_policy \<Rightarrow> bool" where
  "permits_no_more p origin \<longleftrightarrow>
     modeRank (mp_mode p) \<le> modeRank (mp_mode origin)
     \<and> (\<forall>c payload. isDataModePayloadAllowedV1 p c payload \<longrightarrow> isDataModePayloadAllowedV1 origin c payload)
     \<and> set (mp_allowedPlacementKinds p) \<subseteq> set (mp_allowedPlacementKinds origin)
     \<and> set (mp_allowedExecutorClasses p) \<subseteq> set (mp_allowedExecutorClasses origin)
     \<and> set (mp_allowedDestinationClasses p) \<subseteq> set (mp_allowedDestinationClasses origin)
     \<and> mp_workspaceId p = mp_workspaceId origin \<and> mp_policyId p = mp_policyId origin"

lemma adds_iff [simp]: "adds parent child \<longleftrightarrow> \<not> set child \<subseteq> set parent"
  by (auto simp: adds_def list_ex_iff)

lemma all_classes: "(\<forall>c. P c) \<longleftrightarrow> list_all P classifications"
proof
  assume "list_all P classifications"
  then show "\<forall>c. P c" unfolding classifications_def by (intro allI, case_tac c) simp_all
qed (simp add: classifications_def)

lemma narrowing_iff:
  "ensureDataModePolicyNarrowingV1 parent child = Inr u \<longleftrightarrow> permits_no_more child parent"
proof -
  have "list_ex (\<lambda>c. adds (payloads_for (mp_allowedPayloadClasses parent) c)
          (payloads_for (mp_allowedPayloadClasses child) c)) classifications
     \<longleftrightarrow> \<not> (\<forall>c payload. isDataModePayloadAllowedV1 child c payload \<longrightarrow> isDataModePayloadAllowedV1 parent c payload)"
    unfolding all_classes isDataModePayloadAllowedV1_def by (auto simp: list_ex_iff list_all_iff)
  then show ?thesis
    by (auto simp: ensureDataModePolicyNarrowingV1_def result_simps policyNarrowerOrEqual_def
        permits_no_more_def not_le)
qed

lemma permits_no_more_trans: "permits_no_more a b \<Longrightarrow> permits_no_more b c \<Longrightarrow> permits_no_more a c"
  by (auto simp: permits_no_more_def)

lemma permits_no_more_refl [simp]: "permits_no_more a a"
  by (simp add: permits_no_more_def)

text \<open>A version that the service published under a stored parent.\<close>

inductive published_under :: "env \<Rightarrow> mode_policy \<Rightarrow> mode_policy \<Rightarrow> bool" for E where
  published_under: "publish E ctx i (Some k) st = (Inr child, st') \<Longrightarrow> k \<noteq> []
     \<Longrightarrow> findPolicyVersion ctx k st = Some parent \<Longrightarrow> published_under E parent child"

lemma publish_accepted:
  assumes "publish E ctx i parentId st = (Inr p, st')"
  shows "createDataModePolicyVersionV1 E i = Inr p" "publish_work ctx p parentId st = Inr (Inr p, st')"
proof -
  obtain c where c: "createDataModePolicyVersionV1 E i = Inr c"
    using assms by (cases "createDataModePolicyVersionV1 E i") (simp_all add: publish_def)
  with assms have "withTransaction (publish_work ctx c parentId) st = (Inr (Inr p), st')"
    by (auto simp: publish_def split: if_splits prod.splits sum.splits)
  then have w: "publish_work ctx c parentId st = Inr (Inr p, st')"
    by (cases rule: withTransaction_cases [of "publish_work ctx c parentId" st]) simp_all
  then have "c = p"
    by (auto simp: publish_work_def save_created_def await_Inr work_simps split: option.splits if_splits sum.splits)
  with c w show "createDataModePolicyVersionV1 E i = Inr p" "publish_work ctx p parentId st = Inr (Inr p, st')"
    by simp_all
qed

lemma published_under_narrows: "published_under E parent child \<Longrightarrow> permits_no_more child parent"
proof (induction rule: published_under.induct)
  case (published_under ctx i k st child st' parent)
  from publish_accepted(2) [OF published_under(1)] published_under(2,3)
  have "\<exists>u. ensureDataModePolicyNarrowingV1 parent child = Inr u"
    by (auto simp: publish_work_def work_simps split: sum.splits)
  then show ?case by (auto simp: narrowing_iff)
qed

text \<open>Versions are immutable: what is stored stays.\<close>

lemma publish_entries:
  assumes "publish E ctx i parentId st = (r, st')"
  shows "st' = st \<or> (\<exists>p. createDataModePolicyVersionV1 E i = Inr p \<and> savePolicyVersion ctx p st = Inr ((), st'))"
proof (cases "createDataModePolicyVersionV1 E i")
  case (Inr p)
  have "t = st \<or> savePolicyVersion ctx p st = Inr ((), t)" if "publish_work ctx p parentId st = Inr (x, t)" for x t
    using that
    by (auto simp: publish_work_def save_created_def await_Inr work_simps split: option.splits if_splits sum.splits)
  with Inr assms show ?thesis
    by (cases rule: withTransaction_cases [of "publish_work ctx p parentId" st])
       (auto simp: publish_def split: if_splits)
qed (use assms in \<open>simp add: publish_def\<close>)

inductive publish_step :: "env \<Rightarrow> policy_store \<Rightarrow> policy_store \<Rightarrow> bool" for E where
  publish_step: "publish E ctx i parentId st = (r, st') \<Longrightarrow> publish_step E st st'"

definition published_version :: "env \<Rightarrow> stable_id \<Rightarrow> mode_policy \<Rightarrow> bool" where
  "published_version E k p \<longleftrightarrow> mp_policyVersionId p = k \<and> (\<exists>i. createDataModePolicyVersionV1 E i = Inr p)"

interpretation versions: immutable_store "publish_step E" map_of "published_version E" for E
proof
  fix st st'
  assume "publish_step E st st'"
  then show "map_of st' = map_of st
      \<or> (\<exists>k p. (map_of st k = None \<or> map_of st k = Some p) \<and> published_version E k p
            \<and> map_of st' = (map_of st)(k \<mapsto> p))"
  proof cases
    case (publish_step ctx i parentId r)
    from publish_entries [OF this] show ?thesis
    proof (elim disjE exE conjE)
      fix p
      assume p: "createDataModePolicyVersionV1 E i = Inr p" "savePolicyVersion ctx p st = Inr ((), st')"
      have "map_of st' = (map_of st)(mp_policyVersionId p \<mapsto> p)"
        "map_of st (mp_policyVersionId p) = None \<or> map_of st (mp_policyVersionId p) = Some p"
        using p(2) by (auto simp: savePolicyVersion_def update_conv' fun_upd_idem split: if_splits option.splits)
      moreover have "published_version E (mp_policyVersionId p) p" using p(1) by (auto simp: published_version_def)
      ultimately show ?thesis by blast
    qed simp
  qed
qed

section \<open>Properties\<close>

text \<open>
  C25: publishing under a parent only narrows. Along every chain of versions, each published by the
  service under the one before it, the last one permits nothing that the first one did not: no payload
  class for any classification, no placement, executor or destination, and no mode of a higher rank;
  all are versions of one policy of one workspace.
\<close>

theorem published_chain_narrows:
  assumes "(published_under E)\<^sup>*\<^sup>* origin p"
  shows "(isDataModePayloadAllowedV1 p c payload \<longrightarrow> isDataModePayloadAllowedV1 origin c payload)
     \<and> modeRank (mp_mode p) \<le> modeRank (mp_mode origin)
     \<and> set (mp_allowedPlacementKinds p) \<subseteq> set (mp_allowedPlacementKinds origin)
     \<and> set (mp_allowedExecutorClasses p) \<subseteq> set (mp_allowedExecutorClasses origin)
     \<and> set (mp_allowedDestinationClasses p) \<subseteq> set (mp_allowedDestinationClasses origin)
     \<and> mp_policyId p = mp_policyId origin \<and> mp_workspaceId p = mp_workspaceId origin"
proof -
  have "permits_no_more p origin"
    using assms
  proof (induction rule: rtranclp_induct)
    case (step y z)
    from published_under_narrows [OF step(2)] step(3) show ?case by (rule permits_no_more_trans)
  qed simp
  then show ?thesis by (auto simp: permits_no_more_def)
qed

definition sample_version_input :: "jsval \<Rightarrow> string \<Rightarrow> jsval list \<Rightarrow> policy_version_input" where
  "sample_version_input versionId mode payloads =
     \<lparr>in_mp_policyId = sample_id CHR ''a'', in_mp_policyVersionId = versionId,
      in_mp_organizationId = sample_id CHR ''a'', in_mp_workspaceId = sample_id CHR ''b'',
      in_mp_revision = int_num 1, in_mp_mode = Str (js mode),
      in_mp_allowedPayloadClasses = Obj [(js ''PUBLIC'', Arr payloads), (js ''INTERNAL'', Arr payloads),
        (js ''CONFIDENTIAL'', Arr []), (js ''RESTRICTED'', Arr [])],
      in_mp_allowedPlacementKinds = Arr [], in_mp_allowedExecutorClasses = Arr [],
      in_mp_allowedDestinationClasses = Arr [], in_mp_canonicalHash = sample_hash CHR ''a'',
      in_mp_publishedAt = sample_time ''01''\<rparr>"

definition sample_version :: "stable_id \<Rightarrow> data_mode \<Rightarrow> sync_payload list \<Rightarrow> mode_policy" where
  "sample_version versionId mode payloads =
     \<lparr>mp_policyId = uuid_of CHR ''a'', mp_policyVersionId = versionId, mp_organizationId = uuid_of CHR ''a'',
      mp_workspaceId = uuid_of CHR ''b'', mp_revision = 1, mp_mode = mode,
      mp_allowedPayloadClasses = \<lparr>pm_PUBLIC = payloads, pm_INTERNAL = payloads, pm_CONFIDENTIAL = [], pm_RESTRICTED = []\<rparr>,
      mp_allowedPlacementKinds = [], mp_allowedExecutorClasses = [], mp_allowedDestinationClasses = [],
      mp_canonicalHash = hash_of CHR ''a'', mp_publishedAt = time_of ''01''\<rparr>"

definition workspace_ctx :: tenant_ctx where
  "workspace_ctx =
     \<lparr>ctx_sessionId = None, ctx_tenantScope = ws_scope CHR ''a'' CHR ''b'', ctx_actorId = uuid_of CHR ''a'',
      ctx_correlationId = uuid_of CHR ''b'', ctx_idempotencyKey = js ''key'', ctx_authorizationEpoch = 2,
      ctx_workspaceAuthorizationEpoch = None, ctx_mfaRequired = None, ctx_mfaReenrollmentRequired = False,
      ctx_expectedRevision = None\<rparr>"

lemma sample_version_created:
  "createDataModePolicyVersionV1 sample_env (sample_version_input (sample_id CHR ''d'') ''LOCAL'' [])
     = Inr (sample_version (uuid_of CHR ''d'') DataMode_LOCAL [])"
proof -
  have "one_of data_modes (Str (js ''LOCAL'')) = Some DataMode_LOCAL" by (simp add: data_modes_def)
  then show ?thesis
    by (simp add: createDataModePolicyVersionV1_def sample_version_input_def sample_version_def result_simps
        payloadMatrix_def payload_row_def textList_def dedup_def max_safe_integer_def)
qed

theorem published_chain_narrows_witness:
  "\<exists>p st'. publish sample_env workspace_ctx (sample_version_input (sample_id CHR ''d'') ''LOCAL'' [])
         (Some (uuid_of CHR ''c''))
         [(uuid_of CHR ''c'', sample_version (uuid_of CHR ''c'') DataMode_CLOUD [Payload_ORIGINAL_CONTENT])] = (Inr p, st')
     \<and> modeRank (mp_mode p) \<le> modeRank DataMode_CLOUD"
proof -
  define parent where "parent = sample_version (uuid_of CHR ''c'') DataMode_CLOUD [Payload_ORIGINAL_CONTENT]"
  define child where "child = sample_version (uuid_of CHR ''d'') DataMode_LOCAL []"
  have ne: "uuid_of CHR ''c'' \<noteq> []" "uuid_of CHR ''c'' \<noteq> uuid_of CHR ''d''" by (simp_all add: uuid_of_def)
  have narrows: "ensureDataModePolicyNarrowingV1 parent child = Inr ()"
    unfolding narrowing_iff permits_no_more_def all_classes classifications_def isDataModePayloadAllowedV1_def
    by (simp add: parent_def child_def sample_version_def)
  have scope: "visible (ctx_tenantScope workspace_ctx) (policyScope parent)" "scopeAllowsMutation workspace_ctx child"
    by (simp_all add: workspace_ctx_def parent_def child_def policyScope_def sample_version_def
        scopeAllowsMutation_def ws_scope_def)
  have find: "findPolicyVersion workspace_ctx (uuid_of CHR ''c'') [(uuid_of CHR ''c'', parent)] = Some parent"
    using scope by (simp add: findPolicyVersion_def)
  have fields: "mp_policyVersionId child = uuid_of CHR ''d''" "mp_organizationId child = uuid_of CHR ''a''"
    "mp_workspaceId child = uuid_of CHR ''b''"
    by (simp_all add: child_def sample_version_def)
  define st' where "st' = [(uuid_of CHR ''c'', parent), (uuid_of CHR ''d'', child)]"
  have "savePolicyVersion workspace_ctx child [(uuid_of CHR ''c'', parent)] = Inr ((), st')"
    using scope(2) ne by (simp add: savePolicyVersion_def fields st'_def)
  then have "publish_work workspace_ctx child (Some (uuid_of CHR ''c'')) [(uuid_of CHR ''c'', parent)]
      = Inr (Inr child, st')"
    using find narrows ne(1) by (simp add: publish_work_def save_created_def work_simps await_apply)
  moreover have "scopeType (ctx_tenantScope workspace_ctx) = Workspace_type"
    "organizationId (ctx_tenantScope workspace_ctx) = uuid_of CHR ''a''"
    "workspace_of (ctx_tenantScope workspace_ctx) = Some (uuid_of CHR ''b'')"
    by (simp_all add: workspace_ctx_def ws_scope_def)
  ultimately have p: "publish sample_env workspace_ctx (sample_version_input (sample_id CHR ''d'') ''LOCAL'' [])
      (Some (uuid_of CHR ''c'')) [(uuid_of CHR ''c'', parent)] = (Inr child, st')"
    using sample_version_created [folded child_def]
    by (simp add: publish_def withTransaction_def fields)
  then have "(published_under sample_env)\<^sup>*\<^sup>* parent child"
    using find ne by (intro r_into_rtranclp published_under.intros)
  from published_chain_narrows [OF this, of undefined undefined] p show ?thesis
    by (auto simp: parent_def sample_version_def)
qed

end
