(* ===== verification/SyncService.thy ===== *)
theory SyncService
  imports DeviceAuthority DataMode
begin

text \<open>
  Synchronization of devices, services/api/src/features/dso: \<open>DeviceSyncService\<close>
  (application/device-sync.service.ts) over its in-memory repository
  (adapter/in-memory-device-sync-repository.adapter.ts). Operations are queued under the next number
  of one sequence; a device reads them in pages, each page from the number its signed cursor carries.
  A presented cursor is taken to have the declared type (its contents are arbitrary); the values of
  other shapes, which \<open>cursorShape\<close> is for, are in the model of the batches.
\<close>

section \<open>The repository\<close>

record sync_store =
  sy_operations :: "(stable_id \<times> sync_operation) list"
  sy_sequences :: "(stable_id \<times> int) list"
  sy_nextSequence :: int
  sy_keys :: "(jsstr \<times> stable_id) list"
  sy_conflicts :: "(stable_id \<times> sync_conflict) list"
  sy_packages :: "(stable_id \<times> local_manifest) list"
  sy_receipts :: "(stable_id \<times> transfer_receipt) list"

definition empty_sync_store :: sync_store where
  "empty_sync_store =
     \<lparr>sy_operations = [], sy_sequences = [], sy_nextSequence = 1, sy_keys = [], sy_conflicts = [],
      sy_packages = [], sy_receipts = []\<rparr>"

type_synonym 'a sync_work = "(sync_store, dso_throw, 'a) work"

definition canMutate :: "tenant_ctx \<Rightarrow> tenant_scope \<Rightarrow> bool" where
  "canMutate ctx candidate = tenantScopeContainsV1 (ctx_tenantScope ctx) candidate"

text \<open>The text \<open>scopeKey(scope):idempotencyKey\<close>.\<close>

definition idempotency_slot :: "tenant_scope \<Rightarrow> jsstr \<Rightarrow> jsstr" where
  "idempotency_slot scope key = stringify (scope_json scope) @ js '':'' @ key"

text \<open>A new operation: its key, the operation, and the next number of the sequence.\<close>

definition put_new_operation :: "jsstr option \<Rightarrow> sync_operation \<Rightarrow> sync_store \<Rightarrow> sync_store" where
  "put_new_operation slot p st =
     st\<lparr>sy_keys := (case slot of None \<Rightarrow> sy_keys st | Some k \<Rightarrow> AList.update k (op_operationId p) (sy_keys st)),
        sy_operations := AList.update (op_operationId p) p (sy_operations st),
        sy_sequences := AList.update (op_operationId p) (sy_nextSequence st) (sy_sequences st),
        sy_nextSequence := js_succ (sy_nextSequence st)\<rparr>"

definition replace_operation :: "sync_operation \<Rightarrow> sync_store \<Rightarrow> sync_store" where
  "replace_operation p st = st\<lparr>sy_operations := AList.update (op_operationId p) p (sy_operations st)\<rparr>"

definition key_conflict :: "sync_operation \<Rightarrow> jsstr option \<Rightarrow> sync_store \<Rightarrow> bool" where
  "key_conflict p slot st =
     (case slot of
        None \<Rightarrow> False
      | Some k \<Rightarrow> (case map_of (sy_keys st) k of None \<Rightarrow> False | Some other \<Rightarrow> other \<noteq> op_operationId p))"

definition frozen_part_changed :: "sync_operation \<Rightarrow> sync_operation \<Rightarrow> bool" where
  "frozen_part_changed existing p \<longleftrightarrow>
     op_entityId existing \<noteq> op_entityId p \<or> op_entityType existing \<noteq> op_entityType p
     \<or> op_deviceId existing \<noteq> op_deviceId p \<or> op_payloadDigest existing \<noteq> op_payloadDigest p
     \<or> op_payloadClass existing \<noteq> op_payloadClass p \<or> op_kind existing \<noteq> op_kind p
     \<or> op_tenantScope existing \<noteq> op_tenantScope p"

text \<open>
  An empty key counts as none. Scopes and operations are compared by their JSON texts; operations of
  the same revision were written with their properties in one order, so equal texts are equal records.
\<close>

definition saveOperation :: "tenant_ctx \<Rightarrow> sync_operation \<Rightarrow> jsstr option \<Rightarrow> int option \<Rightarrow> unit sync_work" where
  "saveOperation ctx p key expectedRevision st =
     (if \<not> canMutate ctx (op_tenantScope p) then Inl DSO_SCOPE_NARROWING_REQUIRED
      else case map_of (sy_operations st) (op_operationId p) of
        None \<Rightarrow>
          if expectedRevision \<noteq> None then Inl DSO_REVISION_CONFLICT
          else let slot = (case key of None \<Rightarrow> None
                           | Some k \<Rightarrow> if k = [] then None else Some (idempotency_slot (op_tenantScope p) k))
            in if key_conflict p slot st then Inl DSO_IDEMPOTENCY_CONFLICT
               else Inr ((), put_new_operation slot p st)
      | Some existing \<Rightarrow>
          if \<not> visible (ctx_tenantScope ctx) (op_tenantScope existing) then Inr ((), st)
          else if expectedRevision \<noteq> None \<and> expectedRevision \<noteq> Some (op_revision existing)
          then Inl DSO_REVISION_CONFLICT
          else if frozen_part_changed existing p then Inl DSO_IMMUTABLE_RECORD
          else if existing = p then Inr ((), st)
          else if op_revision p \<noteq> js_succ (op_revision existing) then Inl DSO_REVISION_CONFLICT
          else Inr ((), replace_operation p st))"

definition findOperation :: "tenant_ctx \<Rightarrow> stable_id \<Rightarrow> sync_store \<Rightarrow> sync_operation option" where
  "findOperation ctx k st =
     (case map_of (sy_operations st) k of
        None \<Rightarrow> None
      | Some p \<Rightarrow> if visible (ctx_tenantScope ctx) (op_tenantScope p) then Some p else None)"

definition findOperationByIdempotency :: "tenant_ctx \<Rightarrow> jsstr \<Rightarrow> sync_store \<Rightarrow> sync_operation option" where
  "findOperationByIdempotency ctx key st =
     (case map_of (sy_keys st) (idempotency_slot (ctx_tenantScope ctx) key) of
        None \<Rightarrow> None
      | Some k \<Rightarrow> findOperation ctx k st)"

definition listOperations :: "env \<Rightarrow> tenant_ctx \<Rightarrow> sync_store \<Rightarrow> sync_operation list" where
  "listOperations E ctx st =
     sort_key (\<lambda>p. collation E (op_createdAt p))
       (filter (\<lambda>p. visible (ctx_tenantScope ctx) (op_tenantScope p)) (map snd (sy_operations st)))"

text \<open>The operations with their numbers, those without one left out.\<close>

definition numbered :: "sync_store \<Rightarrow> (int \<times> sync_operation) list" where
  "numbered st =
     List.map_filter (\<lambda>(k, p). map_option (\<lambda>n. (n, p)) (map_of (sy_sequences st) k)) (sy_operations st)"

definition listOperationChanges :: "tenant_ctx \<Rightarrow> int \<Rightarrow> nat \<Rightarrow> sync_store \<Rightarrow> (int \<times> sync_operation) list" where
  "listOperationChanges ctx afterSequence limit st =
     take limit (sort_key fst
       (filter (\<lambda>(n, p). afterSequence < n \<and> visible (ctx_tenantScope ctx) (op_tenantScope p)) (numbered st)))"

definition saveConflict :: "tenant_ctx \<Rightarrow> sync_conflict \<Rightarrow> unit sync_work" where
  "saveConflict ctx c st =
     (if \<not> canMutate ctx (cf_tenantScope c) then Inl DSO_SCOPE_NARROWING_REQUIRED
      else if map_of (sy_conflicts st) (cf_conflictId c) \<notin> {None, Some c} then Inl DSO_IMMUTABLE_RECORD
      else Inr ((), st\<lparr>sy_conflicts := AList.update (cf_conflictId c) c (sy_conflicts st)\<rparr>))"

definition listConflicts :: "env \<Rightarrow> tenant_ctx \<Rightarrow> stable_id option \<Rightarrow> sync_store \<Rightarrow> sync_conflict list" where
  "listConflicts E ctx operationId st =
     sort_key (\<lambda>c. collation E (cf_detectedAt c))
       (filter (\<lambda>c. visible (ctx_tenantScope ctx) (cf_tenantScope c)
                     \<and> (operationId = None \<or> operationId = Some (cf_operationId c)))
         (map snd (sy_conflicts st)))"

definition savePackage :: "tenant_ctx \<Rightarrow> local_manifest \<Rightarrow> unit sync_work" where
  "savePackage ctx m st =
     (if \<not> canMutate ctx (mf_tenantScope m) then Inl DSO_SCOPE_NARROWING_REQUIRED
      else if map_of (sy_packages st) (mf_packageId m) \<notin> {None, Some m} then Inl DSO_IMMUTABLE_RECORD
      else Inr ((), st\<lparr>sy_packages := AList.update (mf_packageId m) m (sy_packages st)\<rparr>))"

definition findPackage :: "tenant_ctx \<Rightarrow> stable_id \<Rightarrow> sync_store \<Rightarrow> local_manifest option" where
  "findPackage ctx k st =
     (case map_of (sy_packages st) k of
        None \<Rightarrow> None
      | Some m \<Rightarrow> if visible (ctx_tenantScope ctx) (mf_tenantScope m) then Some m else None)"

definition saveReceipt :: "transfer_receipt \<Rightarrow> unit sync_work" where
  "saveReceipt r st =
     (if map_of (sy_receipts st) (rc_receiptId r) \<notin> {None, Some r} then Inl DSO_IMMUTABLE_RECORD
      else Inr ((), st\<lparr>sy_receipts := AList.update (rc_receiptId r) r (sy_receipts st)\<rparr>))"

definition findReceipt :: "stable_id \<Rightarrow> sync_store \<Rightarrow> transfer_receipt option" where
  "findReceipt k st = map_of (sy_receipts st) k"

section \<open>The service: queueing\<close>

datatype service_error =
    Service_sync sync_error
  | Service_denied sync_denial
  | Service_TENANT_SCOPE_DENIED | Service_IDEMPOTENCY_CONFLICT | Service_OPERATION_NOT_FOUND
  | Service_CONFLICT_NOT_FOUND | Service_PACKAGE_NOT_FOUND | Service_POLICY_NOT_FOUND
  | Service_POLICY_UNAVAILABLE | Service_POLICY_DENIED | Service_REVISION_CONFLICT
  | Service_IMMUTABLE_RECORD | Service_RECEIPT_MISMATCH | Service_DEVICE_AUTHORIZATION_REQUIRED
  | Service_AUTHORIZATION_UNAVAILABLE

text \<open>The results of the domain operations among those of the service.\<close>

definition lifted :: "sync_error + 'a \<Rightarrow> service_error + 'a" where
  "lifted r = map_sum Service_sync id r"

text \<open>\<open>mapRepositoryError(error) ?? 'IMMUTABLE_RECORD'\<close>\<close>

fun thrown_code :: "dso_throw \<Rightarrow> service_error" where
  "thrown_code DSO_SCOPE_NARROWING_REQUIRED = Service_TENANT_SCOPE_DENIED"
| "thrown_code DSO_IDEMPOTENCY_CONFLICT = Service_IDEMPOTENCY_CONFLICT"
| "thrown_code DSO_REVISION_CONFLICT = Service_REVISION_CONFLICT"
| "thrown_code _ = Service_IMMUTABLE_RECORD"

text \<open>\<open>try { return await repository.withTransaction(...) } catch (error) { ... }\<close>\<close>

definition transact :: "(service_error + 'a) sync_work \<Rightarrow> sync_store \<Rightarrow> (service_error + 'a) \<times> sync_store" where
  "transact w st =
     (case withTransaction w st of
        (Inl e, st') \<Rightarrow> (rejected (thrown_code e), st')
      | (Inr r, st') \<Rightarrow> (r, st'))"

text \<open>The policies, when they are composed, and the admission of devices, when it is.\<close>

type_synonym policy_port = "(tenant_ctx \<Rightarrow> stable_id \<Rightarrow> mode_policy option) option"

type_synonym admission_port =
  "(tenant_ctx \<Rightarrow> jsval \<Rightarrow> jsval \<Rightarrow> jsval \<Rightarrow> device_effect \<Rightarrow> jsval \<Rightarrow> sync_denial + unit) option"

definition classification_names :: "(string \<times> classification) list" where
  "classification_names =
     [(''PUBLIC'', Class_PUBLIC), (''INTERNAL'', Class_INTERNAL), (''CONFIDENTIAL'', Class_CONFIDENTIAL),
      (''RESTRICTED'', Class_RESTRICTED)]"

fun payload_of :: "payload_class \<Rightarrow> sync_payload" where
  "payload_of CONTROL_METADATA = Payload_CONTROL_METADATA"
| "payload_of APPROVED_DERIVED_RESULT = Payload_APPROVED_DERIVED_RESULT"
| "payload_of RECONSTRUCTABLE_DERIVED_CONTENT = Payload_RECONSTRUCTABLE_DERIVED_CONTENT"

definition checkPolicy ::
    "env \<Rightarrow> policy_port \<Rightarrow> tenant_ctx \<Rightarrow> jsval \<Rightarrow> jsval \<Rightarrow> sync_operation \<Rightarrow> service_error + unit" where
  "checkPolicy E policies ctx policyVersionInput classificationInput p =
     (if policyVersionInput = Undefined then accepted ()
      else require (Service_sync Sync_INVALID_IDENTIFIER) (stable E policyVersionInput) (\<lambda>policyVersionId.
           require Service_POLICY_UNAVAILABLE policies (\<lambda>find.
           require Service_POLICY_NOT_FOUND (find ctx policyVersionId) (\<lambda>policy.
           let class = (case one_of classification_names classificationInput of
                          None \<Rightarrow> Class_INTERNAL | Some c \<Rightarrow> c)
           in reject_if (\<not> isDataModePayloadAllowedV1 policy class (payload_of (op_payloadClass p)))
                Service_POLICY_DENIED (
              accepted ())))))"

definition equivalent_operation :: "sync_operation \<Rightarrow> sync_operation \<Rightarrow> bool" where
  "equivalent_operation existing p \<longleftrightarrow>
     op_operationId existing = op_operationId p \<and> op_entityId existing = op_entityId p
     \<and> op_payloadDigest existing = op_payloadDigest p \<and> op_kind existing = op_kind p
     \<and> op_payloadClass existing = op_payloadClass p"

definition enqueue_work :: "tenant_ctx \<Rightarrow> sync_operation \<Rightarrow> (service_error + sync_operation) sync_work" where
  "enqueue_work ctx p =
     read_store (findOperationByIdempotency ctx (ctx_idempotencyKey ctx)) (\<lambda>found.
       case found of
         Some existing \<Rightarrow>
           give (if equivalent_operation existing p then accepted existing
                 else rejected Service_IDEMPOTENCY_CONFLICT)
       | None \<Rightarrow>
           await (saveOperation ctx p (Some (ctx_idempotencyKey ctx)) None) (\<lambda>_. give (accepted p)))"

definition enqueue ::
    "env \<Rightarrow> policy_port \<Rightarrow> tenant_ctx \<Rightarrow> operation_input \<Rightarrow> jsval \<Rightarrow> jsval \<Rightarrow> sync_store
     \<Rightarrow> (service_error + sync_operation) \<times> sync_store" where
  "enqueue E policies ctx i policyVersionId class st =
     (case createDeviceSyncOperationV1 E i of
        Inl e \<Rightarrow> (rejected (Service_sync e), st)
      | Inr p \<Rightarrow>
          if \<not> tenantScopeContainsV1 (ctx_tenantScope ctx) (op_tenantScope p)
          then (rejected Service_TENANT_SCOPE_DENIED, st)
          else (case checkPolicy E policies ctx policyVersionId class p of
                  Inl e \<Rightarrow> (rejected e, st)
                | Inr _ \<Rightarrow> transact (enqueue_work ctx p) st))"

definition list_operations :: "env \<Rightarrow> tenant_ctx \<Rightarrow> sync_store \<Rightarrow> sync_operation list" where
  "list_operations E ctx st = listOperations E ctx st"

section \<open>The service: cursors, pull and push\<close>

definition authorizeDevice ::
    "admission_port \<Rightarrow> tenant_ctx \<Rightarrow> jsval \<Rightarrow> jsval \<Rightarrow> jsval \<Rightarrow> device_effect \<Rightarrow> jsval \<Rightarrow> service_error + unit" where
  "authorizeDevice admission ctx deviceId scope grantId effect now =
     reject_if (grantId = Undefined) Service_DEVICE_AUTHORIZATION_REQUIRED (
     require Service_AUTHORIZATION_UNAVAILABLE admission (\<lambda>authorize.
     map_sum Service_denied id (authorize ctx deviceId scope grantId effect now)))"

record cursor_bootstrap_input =
  in_bs_deviceId :: jsval
  in_bs_grantId :: jsval
  in_bs_now :: jsstr
  in_bs_dataMode :: jsval
  in_bs_protocolVersion :: jsval

text \<open>
  The first cursor of a device; \<open>cursorId\<close> is the random identifier, and \<open>None\<close> the \<open>RangeError\<close> of
  printing a time that is none.
\<close>

definition bootstrapCursor ::
    "env \<Rightarrow> admission_port \<Rightarrow> tenant_ctx \<Rightarrow> cursor_bootstrap_input \<Rightarrow> jsval \<Rightarrow> (jsstr \<Rightarrow> jsstr)
     \<Rightarrow> (service_error + sync_cursor) option" where
  "bootstrapCursor E admission ctx i cursorId sign =
     (case authorizeDevice admission ctx (in_bs_deviceId i) (scope_object (ctx_tenantScope ctx)) (in_bs_grantId i)
             Effect_READ (Str (in_bs_now i)) of
        Inl e \<Rightarrow> Some (rejected e)
      | Inr _ \<Rightarrow>
          map_option (\<lambda>expiresAt. lifted (createDeviceSyncCursorV1 E
            \<lparr>in_cur_cursorId = cursorId, in_cur_deviceId = in_bs_deviceId i,
             in_cur_tenantScope = scope_object (ctx_tenantScope ctx),
             in_cur_authorizationEpoch =
               int_num (case ctx_workspaceAuthorizationEpoch ctx of
                          None \<Rightarrow> ctx_authorizationEpoch ctx | Some e \<Rightarrow> e),
             in_cur_changeRevision = int_num 0, in_cur_policyVersionId = Undefined,
             in_cur_policyDigest = Undefined,
             in_cur_dataMode = nullish (in_bs_dataMode i) (Str (js ''Hybrid'')),
             in_cur_protocolVersion = nullish (in_bs_protocolVersion i) (Str (js ''android-v1'')),
             in_cur_issuedAt = Str (in_bs_now i), in_cur_expiresAt = Str expiresAt\<rparr> sign))
          (Option.bind (Date_parse E (in_bs_now i)) (\<lambda>t. toISOString (t + 15 * 60000))))"

text \<open>A check of a cursor by the service: it puts in the cursor's own scope and the context's epoch.\<close>

record service_check =
  in_sc_now :: jsval
  in_sc_deviceId :: jsval
  in_sc_minimumRevision :: jsval
  in_sc_policyVersionId :: jsval
  in_sc_policyDigest :: jsval
  in_sc_dataMode :: jsval
  in_sc_protocolVersion :: jsval

definition cursorForVerification ::
    "env \<Rightarrow> tenant_ctx \<Rightarrow> sync_cursor \<Rightarrow> service_check \<Rightarrow> (jsstr \<Rightarrow> jsstr \<Rightarrow> bool) \<Rightarrow> service_error + unit" where
  "cursorForVerification E ctx c i verify =
     reject_if (\<not> tenantScopeContainsV1 (ctx_tenantScope ctx) (cur_tenantScope c)) Service_TENANT_SCOPE_DENIED (
     lifted (verifyDeviceSyncCursorV1 E c
       \<lparr>in_chk_now = in_sc_now i, in_chk_deviceId = in_sc_deviceId i,
        in_chk_tenantScope = scope_object (cur_tenantScope c),
        in_chk_authorizationEpoch = int_num (ctx_authorizationEpoch ctx),
        in_chk_minimumRevision = in_sc_minimumRevision i,
        in_chk_policyVersionId = in_sc_policyVersionId i, in_chk_policyDigest = in_sc_policyDigest i,
        in_chk_dataMode = in_sc_dataMode i, in_chk_protocolVersion = in_sc_protocolVersion i\<rparr> verify))"

fun sync_kind_text :: "sync_kind \<Rightarrow> string" where
  "sync_kind_text Sync_UPSERT = ''UPSERT''"
| "sync_kind_text Sync_DELETE = ''DELETE''"
| "sync_kind_text Sync_ACKNOWLEDGE = ''ACKNOWLEDGE''"

fun class_text :: "payload_class \<Rightarrow> string" where
  "class_text CONTROL_METADATA = ''CONTROL_METADATA''"
| "class_text APPROVED_DERIVED_RESULT = ''APPROVED_DERIVED_RESULT''"
| "class_text RECONSTRUCTABLE_DERIVED_CONTENT = ''RECONSTRUCTABLE_DERIVED_CONTENT''"

definition changeFromOperation :: "env \<Rightarrow> sync_operation \<Rightarrow> service_error + sync_change" where
  "changeFromOperation E p = lifted (createDeviceSyncChangeV1 E
     \<lparr>in_ch_changeId = Str (op_operationId p), in_ch_operationId = Str (op_operationId p),
      in_ch_deviceId = Str (op_deviceId p), in_ch_tenantScope = scope_object (op_tenantScope p),
      in_ch_entityType = Str (op_entityType p), in_ch_entityId = Str (op_entityId p),
      in_ch_kind = Str (js (sync_kind_text (op_kind p))),
      in_ch_payloadClass = Str (js (class_text (op_payloadClass p))),
      in_ch_payloadDigest = Str (op_payloadDigest p),
      in_ch_dependencyIds = Arr (map Str (op_dependencyIds p)),
      in_ch_entityRevision = int_num (op_revision p), in_ch_createdAt = Str (op_createdAt p)\<rparr>)"

text \<open>Records as the values that \<open>createDeviceSyncBatchV1\<close> takes.\<close>

definition change_value :: "sync_change \<Rightarrow> jsval" where
  "change_value c = Obj
     [(js ''schemaVersion'', int_num 1), (js ''changeId'', Str (ch_changeId c)),
      (js ''operationId'', Str (ch_operationId c)), (js ''deviceId'', Str (ch_deviceId c)),
      (js ''tenantScope'', scope_object (ch_tenantScope c)), (js ''entityType'', Str (ch_entityType c)),
      (js ''entityId'', Str (ch_entityId c)), (js ''kind'', Str (js (sync_kind_text (ch_kind c)))),
      (js ''payloadClass'', Str (js (class_text (ch_payloadClass c)))),
      (js ''payloadDigest'', Str (ch_payloadDigest c)),
      (js ''dependencyIds'', Arr (map Str (ch_dependencyIds c))),
      (js ''entityRevision'', int_num (ch_entityRevision c)), (js ''createdAt'', Str (ch_createdAt c))]"

definition optional_property :: "string \<Rightarrow> jsstr option \<Rightarrow> (jsstr \<times> jsval) list" where
  "optional_property k x = (case x of None \<Rightarrow> [] | Some s \<Rightarrow> [(js k, Str s)])"

definition cursor_value :: "sync_cursor \<Rightarrow> jsval" where
  "cursor_value c = Obj
     ([(js ''schemaVersion'', int_num (cur_schemaVersion c)), (js ''cursorId'', Str (cur_cursorId c)),
       (js ''deviceId'', Str (cur_deviceId c)), (js ''tenantScope'', scope_object (cur_tenantScope c)),
       (js ''authorizationEpoch'', int_num (cur_authorizationEpoch c)),
       (js ''changeRevision'', int_num (cur_changeRevision c))]
      @ optional_property ''policyVersionId'' (cur_policyVersionId c)
      @ optional_property ''policyDigest'' (cur_policyDigest c)
      @ [(js ''dataMode'', Str (js (mode_text (cur_dataMode c)))),
         (js ''protocolVersion'', Str (cur_protocolVersion c)), (js ''issuedAt'', Str (cur_issuedAt c)),
         (js ''expiresAt'', Str (cur_expiresAt c)), (js ''payload'', Str (cur_payload c)),
         (js ''signature'', Str (cur_signature c))])"

definition pageSize :: "jsval \<Rightarrow> nat option" where
  "pageSize v = (if v = Undefined then Some 64 else map_option nat (safe_integer_within 1 256 v))"

text \<open>The loop over a page: operations of other devices are passed over.\<close>

fun page_changes :: "env \<Rightarrow> jsval \<Rightarrow> (int \<times> sync_operation) list \<Rightarrow> service_error + sync_change list" where
  "page_changes E deviceId [] = accepted []"
| "page_changes E deviceId ((n, p) # records) =
     (if Str (op_deviceId p) \<noteq> deviceId then page_changes E deviceId records
      else and_then (changeFromOperation E p) (\<lambda>c.
           and_then (page_changes E deviceId records) (\<lambda>cs. accepted (c # cs))))"

record pull_input =
  in_pl_check :: service_check
  in_pl_grantId :: jsval
  in_pl_nextCursorId :: jsval
  in_pl_pageSize :: jsval

text \<open>An optional property that is written only when it is given.\<close>

definition optional_value :: "jsstr option \<Rightarrow> jsval" where
  "optional_value x = (case x of None \<Rightarrow> Undefined | Some s \<Rightarrow> Str s)"

definition next_cursor ::
    "env \<Rightarrow> sync_cursor \<Rightarrow> pull_input \<Rightarrow> int \<Rightarrow> (jsstr \<Rightarrow> jsstr) \<Rightarrow> service_error + sync_cursor" where
  "next_cursor E c i lastSequence sign = lifted (createDeviceSyncCursorV1 E
     \<lparr>in_cur_cursorId = nullish (in_pl_nextCursorId i) (Str (cur_cursorId c)),
      in_cur_deviceId = in_sc_deviceId (in_pl_check i),
      in_cur_tenantScope = scope_object (cur_tenantScope c),
      in_cur_authorizationEpoch = int_num (cur_authorizationEpoch c),
      in_cur_changeRevision = int_num lastSequence,
      in_cur_policyVersionId = optional_value (cur_policyVersionId c),
      in_cur_policyDigest = optional_value (cur_policyDigest c),
      in_cur_dataMode = Str (js (mode_text (cur_dataMode c))),
      in_cur_protocolVersion = Str (cur_protocolVersion c),
      in_cur_issuedAt = in_sc_now (in_pl_check i), in_cur_expiresAt = Str (cur_expiresAt c)\<rparr> sign)"

text \<open>The batch of a page; \<open>None\<close> where building it throws.\<close>

definition page_batch ::
    "env \<Rightarrow> sync_cursor \<Rightarrow> pull_input \<Rightarrow> sync_cursor option \<Rightarrow> sync_change list \<Rightarrow> (service_error + sync_batch) option" where
  "page_batch E c i nextCursor changes =
     map_option lifted (createDeviceSyncBatchV1 E
       \<lparr>in_bt_deviceId = in_sc_deviceId (in_pl_check i), in_bt_tenantScope = scope_object (cur_tenantScope c),
        in_bt_cursor = cursor_value c,
        in_bt_nextCursor = (case nextCursor of None \<Rightarrow> Undefined | Some d \<Rightarrow> cursor_value d),
        in_bt_changes = Arr (map change_value changes)\<rparr>)"

definition deliver_page ::
    "env \<Rightarrow> sync_cursor \<Rightarrow> pull_input \<Rightarrow> (jsstr \<Rightarrow> jsstr) \<Rightarrow> (int \<times> sync_operation) list
     \<Rightarrow> (service_error + sync_batch) option" where
  "deliver_page E c i sign records =
     (case page_changes E (in_sc_deviceId (in_pl_check i)) records of
        Inl e \<Rightarrow> Some (rejected e)
      | Inr changes \<Rightarrow>
          if records = [] then page_batch E c i None changes
          else (case next_cursor E c i (fst (last records)) sign of
                  Inl e \<Rightarrow> Some (rejected e)
                | Inr d \<Rightarrow> page_batch E c i (Some d) changes))"

definition pull ::
    "env \<Rightarrow> admission_port \<Rightarrow> tenant_ctx \<Rightarrow> sync_cursor \<Rightarrow> pull_input \<Rightarrow> (jsstr \<Rightarrow> jsstr)
     \<Rightarrow> (jsstr \<Rightarrow> jsstr \<Rightarrow> bool) \<Rightarrow> sync_store \<Rightarrow> (service_error + sync_batch) option" where
  "pull E admission ctx c i sign verify st =
     (case authorizeDevice admission ctx (in_sc_deviceId (in_pl_check i)) (scope_object (cur_tenantScope c))
             (in_pl_grantId i) Effect_READ (in_sc_now (in_pl_check i)) of
        Inl e \<Rightarrow> Some (rejected e)
      | Inr _ \<Rightarrow>
     (case cursorForVerification E ctx c (in_pl_check i) verify of
        Inl e \<Rightarrow> Some (rejected e)
      | Inr _ \<Rightarrow>
     (case pageSize (in_pl_pageSize i) of
        None \<Rightarrow> Some (rejected (Service_sync Sync_INVALID_BATCH))
      | Some limit \<Rightarrow>
          deliver_page E c i sign (listOperationChanges ctx (cur_changeRevision c) limit st))))"

definition childIdempotencyKey :: "jsstr \<Rightarrow> stable_id \<Rightarrow> jsstr" where
  "childIdempotencyKey base operationId =
     (let suffix = js '':'' @ operationId in take (max 1 (200 - length suffix)) base @ suffix)"

definition push_operation :: "sync_change \<Rightarrow> operation_input" where
  "push_operation c =
     \<lparr>in_op_operationId = Str (ch_operationId c), in_op_deviceId = Str (ch_deviceId c),
      in_op_tenantScope = scope_object (ch_tenantScope c), in_op_entityType = Str (ch_entityType c),
      in_op_entityId = Str (ch_entityId c), in_op_kind = Str (js (sync_kind_text (ch_kind c))),
      in_op_payloadClass = Str (js (class_text (ch_payloadClass c))),
      in_op_payloadDigest = Str (ch_payloadDigest c), in_op_encryptedPayload = Undefined,
      in_op_dependencyIds = Arr (map Str (ch_dependencyIds c)),
      in_op_baseRevision = int_num (ch_entityRevision c), in_op_createdAt = Str (ch_createdAt c)\<rparr>"

definition child_context :: "tenant_ctx \<Rightarrow> stable_id \<Rightarrow> tenant_ctx" where
  "child_context ctx operationId =
     ctx\<lparr>ctx_idempotencyKey := childIdempotencyKey (ctx_idempotencyKey ctx) operationId\<rparr>"

text \<open>The loop over the changes of an admitted batch: each is queued, with its own outcome.\<close>

fun push_changes ::
    "env \<Rightarrow> policy_port \<Rightarrow> tenant_ctx \<Rightarrow> jsval \<Rightarrow> sync_change list \<Rightarrow> sync_store
     \<Rightarrow> (stable_id \<times> (service_error + sync_operation)) list \<times> sync_store" where
  "push_changes E policies ctx policyVersionId [] st = ([], st)"
| "push_changes E policies ctx policyVersionId (c # cs) st =
     (case enqueue E policies (child_context ctx (ch_operationId c)) (push_operation c) policyVersionId Undefined st of
        (r, st') \<Rightarrow>
          (case push_changes E policies ctx policyVersionId cs st' of
             (items, st'') \<Rightarrow> ((ch_operationId c, r) # items, st'')))"

record push_input =
  in_ps_deviceId :: jsval
  in_ps_tenantScope :: jsval
  in_ps_cursor :: sync_cursor
  in_ps_nextCursor :: jsval
  in_ps_changes :: jsval
  in_ps_now :: jsval
  in_ps_minimumRevision :: jsval
  in_ps_grantId :: jsval

definition push_batch :: "env \<Rightarrow> push_input \<Rightarrow> (sync_error + sync_batch) option" where
  "push_batch E i = createDeviceSyncBatchV1 E
     \<lparr>in_bt_deviceId = in_ps_deviceId i, in_bt_tenantScope = in_ps_tenantScope i,
      in_bt_cursor = cursor_value (in_ps_cursor i), in_bt_nextCursor = in_ps_nextCursor i,
      in_bt_changes = in_ps_changes i\<rparr>"

definition push_check :: "push_input \<Rightarrow> sync_batch \<Rightarrow> service_check" where
  "push_check i b =
     \<lparr>in_sc_now = in_ps_now i, in_sc_deviceId = Str (bt_deviceId b),
      in_sc_minimumRevision = in_ps_minimumRevision i, in_sc_policyVersionId = Undefined,
      in_sc_policyDigest = Undefined, in_sc_dataMode = Undefined, in_sc_protocolVersion = Undefined\<rparr>"

text \<open>\<open>None\<close> where building the batch throws; the store is then unchanged.\<close>

definition push ::
    "env \<Rightarrow> policy_port \<Rightarrow> admission_port \<Rightarrow> tenant_ctx \<Rightarrow> push_input \<Rightarrow> (jsstr \<Rightarrow> jsstr \<Rightarrow> bool) \<Rightarrow> sync_store
     \<Rightarrow> (service_error + (stable_id \<times> (service_error + sync_operation)) list) option \<times> sync_store" where
  "push E policies admission ctx i verify st =
     (case push_batch E i of
        None \<Rightarrow> (None, st)
      | Some (Inl e) \<Rightarrow> (Some (rejected (Service_sync e)), st)
      | Some (Inr b) \<Rightarrow>
     (case authorizeDevice admission ctx (Str (bt_deviceId b)) (scope_object (bt_tenantScope b)) (in_ps_grantId i)
             Effect_WRITE_DERIVATIVE (in_ps_now i) of
        Inl e \<Rightarrow> (Some (rejected e), st)
      | Inr _ \<Rightarrow>
     (case cursorForVerification E ctx (in_ps_cursor i) (push_check i b) verify of
        Inl e \<Rightarrow> (Some (rejected e), st)
      | Inr _ \<Rightarrow>
     (case push_changes E policies ctx (optional_value (cur_policyVersionId (in_ps_cursor i))) (bt_changes b) st of
        (items, st') \<Rightarrow> (Some (accepted items), st')))))"

section \<open>The service: transitions, conflicts and packages\<close>

definition transition_work ::
    "env \<Rightarrow> tenant_ctx \<Rightarrow> stable_id \<Rightarrow> sync_transition \<Rightarrow> jsval \<Rightarrow> (service_error + sync_operation) sync_work" where
  "transition_work E ctx k t time =
     read_store (findOperation ctx k) (\<lambda>found.
       case found of
         None \<Rightarrow> give (rejected Service_OPERATION_NOT_FOUND)
       | Some current \<Rightarrow>
           if ctx_expectedRevision ctx \<noteq> None \<and> ctx_expectedRevision ctx \<noteq> Some (op_revision current)
           then give (rejected Service_REVISION_CONFLICT)
           else (case transitionDeviceSyncOperationV1 E current t time of
                   Inl e \<Rightarrow> give (rejected (Service_sync e))
                 | Inr p \<Rightarrow>
                     await (saveOperation ctx p None (Some (op_revision current))) (\<lambda>_. give (accepted p))))"

definition transition ::
    "env \<Rightarrow> tenant_ctx \<Rightarrow> jsval \<Rightarrow> sync_transition \<Rightarrow> jsval \<Rightarrow> sync_store
     \<Rightarrow> (service_error + sync_operation) \<times> sync_store" where
  "transition E ctx operationIdInput t time st =
     (case stable E operationIdInput of
        None \<Rightarrow> (rejected (Service_sync Sync_INVALID_IDENTIFIER), st)
      | Some k \<Rightarrow> transact (transition_work E ctx k t time) st)"

definition conflict_work ::
    "env \<Rightarrow> tenant_ctx \<Rightarrow> sync_conflict \<Rightarrow> (service_error + sync_conflict) sync_work" where
  "conflict_work E ctx c =
     read_store (findOperation ctx (cf_operationId c)) (\<lambda>found.
       case found of
         None \<Rightarrow> give (rejected Service_OPERATION_NOT_FOUND)
       | Some current \<Rightarrow>
           (case transitionDeviceSyncOperationV1 E current Transition_CONFLICT (Str (cf_detectedAt c)) of
              Inl e \<Rightarrow> give (rejected Service_REVISION_CONFLICT)
            | Inr p \<Rightarrow>
                await (saveOperation ctx p None (Some (op_revision current))) (\<lambda>_.
                await (saveConflict ctx c) (\<lambda>_. give (accepted c)))))"

definition recordConflict ::
    "env \<Rightarrow> tenant_ctx \<Rightarrow> conflict_input \<Rightarrow> sync_store \<Rightarrow> (service_error + sync_conflict) \<times> sync_store" where
  "recordConflict E ctx i st =
     (case createDeviceSyncConflictV1 E i of
        Inl e \<Rightarrow> (rejected (Service_sync e), st)
      | Inr c \<Rightarrow>
          if \<not> tenantScopeContainsV1 (ctx_tenantScope ctx) (cf_tenantScope c)
          then (rejected Service_TENANT_SCOPE_DENIED, st)
          else transact (conflict_work E ctx c) st)"

text \<open>An identifier that does not parse lists the conflicts of all operations.\<close>

definition list_conflicts :: "env \<Rightarrow> tenant_ctx \<Rightarrow> jsval \<Rightarrow> sync_store \<Rightarrow> sync_conflict list" where
  "list_conflicts E ctx operationIdInput st = listConflicts E ctx (stable E operationIdInput) st"

definition package_work :: "tenant_ctx \<Rightarrow> local_manifest \<Rightarrow> (service_error + local_manifest) sync_work" where
  "package_work ctx m =
     read_store (findPackage ctx (mf_packageId m)) (\<lambda>found.
       case found of
         Some existing \<Rightarrow>
           give (if existing = m then accepted existing else rejected Service_IMMUTABLE_RECORD)
       | None \<Rightarrow> await (savePackage ctx m) (\<lambda>_. give (accepted m)))"

definition issueStrictLocalPackage ::
    "env \<Rightarrow> tenant_ctx \<Rightarrow> manifest_input \<Rightarrow> sync_store \<Rightarrow> (service_error + local_manifest) \<times> sync_store" where
  "issueStrictLocalPackage E ctx i st =
     (case createStrictLocalPackageManifestV1 E i of
        Inl e \<Rightarrow> (rejected (Service_sync e), st)
      | Inr m \<Rightarrow>
          if \<not> tenantScopeContainsV1 (ctx_tenantScope ctx) (mf_tenantScope m)
          then (rejected Service_TENANT_SCOPE_DENIED, st)
          else transact (package_work ctx m) st)"

definition receipt_work :: "tenant_ctx \<Rightarrow> transfer_receipt \<Rightarrow> (service_error + transfer_receipt) sync_work" where
  "receipt_work ctx r =
     read_store (findPackage ctx (rc_packageId r)) (\<lambda>package.
       case package of
         None \<Rightarrow> give (rejected Service_PACKAGE_NOT_FOUND)
       | Some m \<Rightarrow>
           if mf_packageDigest m \<noteq> rc_packageDigest r \<or> mf_destinationClass m \<noteq> rc_destinationClass r
           then give (rejected Service_RECEIPT_MISMATCH)
           else read_store (findReceipt (rc_receiptId r)) (\<lambda>found.
             case found of
               Some existing \<Rightarrow>
                 give (if existing = r then accepted existing else rejected Service_IMMUTABLE_RECORD)
             | None \<Rightarrow> await (saveReceipt r) (\<lambda>_. give (accepted r))))"

definition recordTransferReceipt ::
    "env \<Rightarrow> tenant_ctx \<Rightarrow> receipt_input \<Rightarrow> sync_store \<Rightarrow> (service_error + transfer_receipt) \<times> sync_store" where
  "recordTransferReceipt E ctx i st =
     (case createDeviceTransferReceiptV1 E i of
        Inl e \<Rightarrow> (rejected (Service_sync e), st)
      | Inr r \<Rightarrow> transact (receipt_work ctx r) st)"

section \<open>Histories\<close>

text \<open>Every operation of the service that can change the store, by any caller.\<close>

inductive sync_step :: "env \<Rightarrow> sync_store \<Rightarrow> sync_store \<Rightarrow> bool" for E where
  enqueue: "sync_step E st (snd (enqueue E policies ctx i v class st))"
| push: "sync_step E st (snd (push E policies admission ctx j verify st))"
| transition: "sync_step E st (snd (transition E ctx k t time st))"
| conflict: "sync_step E st (snd (recordConflict E ctx c st))"
| package: "sync_step E st (snd (issueStrictLocalPackage E ctx m st))"
| receipt: "sync_step E st (snd (recordTransferReceipt E ctx r st))"

text \<open>An operation with its number.\<close>

definition entry :: "sync_store \<Rightarrow> stable_id \<Rightarrow> int \<Rightarrow> sync_operation \<Rightarrow> bool" where
  "entry st k n p \<longleftrightarrow> map_of (sy_operations st) k = Some p \<and> map_of (sy_sequences st) k = Some n"

text \<open>
  What every repository satisfies: operations are stored once, under their own identifiers in the form
  the parser returns, each with a number of its own below the next one.
\<close>

definition store_ok :: "sync_store \<Rightarrow> bool" where
  "store_ok st \<longleftrightarrow>
     distinct (map fst (sy_operations st))
     \<and> (\<forall>k p. map_of (sy_operations st) k = Some p \<longrightarrow>
          op_operationId p = k \<and> stable_form k \<and> (\<exists>n. map_of (sy_sequences st) k = Some n))
     \<and> (\<forall>k n. map_of (sy_sequences st) k = Some n \<longrightarrow>
          n < sy_nextSequence st \<and> (\<exists>p. map_of (sy_operations st) k = Some p)
          \<and> (\<forall>j. map_of (sy_sequences st) j = Some n \<longrightarrow> j = k))
     \<and> 1 \<le> sy_nextSequence st"

text \<open>
  How a store may change: numbers are never taken back, an operation keeps its number, its device and
  its scope, and a new one is numbered behind all others.
\<close>

definition evolves :: "sync_store \<Rightarrow> sync_store \<Rightarrow> bool" where
  "evolves st st' \<longleftrightarrow>
     sy_nextSequence st \<le> sy_nextSequence st'
     \<and> (\<forall>k n p. entry st k n p \<longrightarrow>
          (\<exists>q. entry st' k n q \<and> op_deviceId q = op_deviceId p \<and> op_tenantScope q = op_tenantScope p))
     \<and> (\<forall>k n q. entry st' k n q \<longrightarrow> (\<exists>p. entry st k n p) \<or> sy_nextSequence st \<le> n)"

text \<open>The contract of one change of the store, while the numbers are exact.\<close>

definition safe_change :: "sync_store \<Rightarrow> sync_store \<Rightarrow> bool" where
  "safe_change st st' \<longleftrightarrow>
     (store_ok st \<longrightarrow> sy_nextSequence st' \<le> max_safe_integer \<longrightarrow> store_ok st' \<and> evolves st st')
     \<and> (1 \<le> sy_nextSequence st \<longrightarrow> sy_nextSequence st \<le> 9007199254740992 \<longrightarrow>
          sy_nextSequence st \<le> sy_nextSequence st' \<and> sy_nextSequence st' \<le> 9007199254740992)"

lemma evolves_refl [simp]: "evolves st st"
  by (auto simp: evolves_def)

lemma evolves_trans:
  assumes "evolves a b" "evolves b c"
  shows "evolves a c"
proof -
  have "\<exists>q. entry c k n q \<and> op_deviceId q = op_deviceId p \<and> op_tenantScope q = op_tenantScope p"
    if "entry a k n p" for k n p
    using assms that unfolding evolves_def by metis
  moreover have "(\<exists>p. entry a k n p) \<or> sy_nextSequence a \<le> n" if "entry c k n q" for k n q
    using assms that unfolding evolves_def by (meson order_trans)
  ultimately show ?thesis using assms unfolding evolves_def by auto
qed

lemma safe_change_refl [simp]: "safe_change st st"
  by (simp add: safe_change_def)

lemma safe_change_trans:
  assumes "safe_change a b" "safe_change b c" "sy_nextSequence a \<le> 9007199254740992"
    and "1 \<le> sy_nextSequence a"
  shows "safe_change a c"
proof -
  have b: "sy_nextSequence a \<le> sy_nextSequence b" "sy_nextSequence b \<le> 9007199254740992"
    using assms(1,3,4) unfolding safe_change_def by blast+
  then have c: "sy_nextSequence b \<le> sy_nextSequence c" "sy_nextSequence c \<le> 9007199254740992"
    using assms(2,4) unfolding safe_change_def by linarith+
  have "store_ok c \<and> evolves a c" if "store_ok a" "sy_nextSequence c \<le> max_safe_integer"
  proof -
    have "store_ok b" "evolves a b" using assms(1) that c unfolding safe_change_def by auto
    moreover from this(1) have "store_ok c" "evolves b c" using assms(2) that unfolding safe_change_def by auto
    ultimately show ?thesis using evolves_trans by blast
  qed
  with b c show ?thesis by (auto simp: safe_change_def)
qed

text \<open>Changes that leave the operations and their numbers alone.\<close>

definition same_operations :: "sync_store \<Rightarrow> sync_store \<Rightarrow> bool" where
  "same_operations st st' \<longleftrightarrow>
     sy_operations st' = sy_operations st \<and> sy_sequences st' = sy_sequences st
     \<and> sy_nextSequence st' = sy_nextSequence st"

lemma same_operations_safe: "same_operations st st' \<Longrightarrow> safe_change st st'"
  by (auto simp: same_operations_def safe_change_def store_ok_def evolves_def entry_def)

lemma put_new_fields [simp]:
  "sy_operations (put_new_operation slot p st) = AList.update (op_operationId p) p (sy_operations st)"
  "sy_sequences (put_new_operation slot p st)
     = AList.update (op_operationId p) (sy_nextSequence st) (sy_sequences st)"
  "sy_nextSequence (put_new_operation slot p st) = js_succ (sy_nextSequence st)"
  by (simp_all add: put_new_operation_def)

lemma replace_fields [simp]:
  "sy_operations (replace_operation p st) = AList.update (op_operationId p) p (sy_operations st)"
  "sy_sequences (replace_operation p st) = sy_sequences st"
  "sy_nextSequence (replace_operation p st) = sy_nextSequence st"
  by (simp_all add: replace_operation_def)

lemma put_new_safe:
  assumes "map_of (sy_operations st) (op_operationId p) = None" "stable_form (op_operationId p)"
  shows "safe_change st (put_new_operation slot p st)"
proof -
  let ?k = "op_operationId p" and ?st' = "put_new_operation slot p st"
  have "store_ok ?st' \<and> evolves st ?st'"
    if ok: "store_ok st" and next_exact: "js_succ (sy_nextSequence st) \<le> max_safe_integer"
  proof -
    have one: "1 \<le> sy_nextSequence st" using ok by (simp add: store_ok_def)
    have "sy_nextSequence st < max_safe_integer"
    proof (rule ccontr)
      assume "\<not> ?thesis"
      then have "max_safe_integer < js_add (sy_nextSequence st) 1"
        using js_add_less_iff [of max_safe_integer "sy_nextSequence st" 1] one by simp
      with next_exact show False by simp
    qed
    then have succ: "js_succ (sy_nextSequence st) = sy_nextSequence st + 1" using one by (intro js_succ_exact) simp_all
    have fresh: "map_of (sy_sequences st) ?k = None"
      using ok assms(1) unfolding store_ok_def by (metis not_Some_eq)
    have below: "n < sy_nextSequence st" if "map_of (sy_sequences st) j = Some n" for j n
      using ok that unfolding store_ok_def by blast
    have "store_ok ?st'"
      unfolding store_ok_def put_new_fields update_conv' succ
    proof (intro conjI allI impI)
      show "distinct (map fst (AList.update ?k p (sy_operations st)))"
        using ok by (simp add: store_ok_def distinct_update)
      show "1 \<le> sy_nextSequence st + 1" using one by simp
    next
      fix k q
      assume q: "((map_of (sy_operations st))(?k \<mapsto> p)) k = Some q"
      show "op_operationId q = k" "stable_form k"
        using q ok assms(2) unfolding store_ok_def by (auto split: if_splits)
      show "\<exists>n. ((map_of (sy_sequences st))(?k \<mapsto> sy_nextSequence st)) k = Some n"
        using q ok unfolding store_ok_def by (auto split: if_splits)
    next
      fix k n
      assume n: "((map_of (sy_sequences st))(?k \<mapsto> sy_nextSequence st)) k = Some n"
      show "n < sy_nextSequence st + 1" using n below [of k n] by (auto split: if_splits)
      show "\<exists>q. ((map_of (sy_operations st))(?k \<mapsto> p)) k = Some q"
        using n ok unfolding store_ok_def by (auto split: if_splits)
      fix j
      assume j: "((map_of (sy_sequences st))(?k \<mapsto> sy_nextSequence st)) j = Some n"
      show "j = k"
        using n j below [of j n] below [of k n] ok unfolding store_ok_def by (auto split: if_splits)
    qed
    moreover have "evolves st ?st'"
      using assms(1) fresh succ by (auto simp: evolves_def entry_def update_conv')
    ultimately show ?thesis by simp
  qed
  moreover have "sy_nextSequence st \<le> js_succ (sy_nextSequence st) \<and> js_succ (sy_nextSequence st) \<le> 9007199254740992"
    if "1 \<le> sy_nextSequence st" "sy_nextSequence st \<le> 9007199254740992"
  proof (cases "sy_nextSequence st = 9007199254740992")
    case True
    have "js_succ 9007199254740992 = 9007199254740992" by code_simp
    with True show ?thesis by simp
  next
    case False
    with that show ?thesis by (simp add: js_add_exact)
  qed
  ultimately show ?thesis by (simp add: safe_change_def)
qed

lemma replace_safe:
  assumes "map_of (sy_operations st) (op_operationId p) = Some q" "\<not> frozen_part_changed q p"
  shows "safe_change st (replace_operation p st)"
proof -
  have same: "op_deviceId p = op_deviceId q" "op_tenantScope p = op_tenantScope q"
    using assms(2) by (auto simp: frozen_part_changed_def)
  have "store_ok (replace_operation p st) \<and> evolves st (replace_operation p st)" if ok: "store_ok st"
  proof
    show "store_ok (replace_operation p st)"
      using ok assms(1) unfolding store_ok_def replace_fields update_conv'
      by (auto simp: distinct_update)
    show "evolves st (replace_operation p st)"
      using assms(1) same by (auto simp: evolves_def entry_def update_conv')
  qed
  then show ?thesis by (simp add: safe_change_def)
qed

lemma saveOperation_safe:
  assumes "saveOperation ctx p key expected st = Inr (u, st')" "stable_form (op_operationId p)"
  shows "safe_change st st'"
  using assms by (auto simp: saveOperation_def Let_def intro: put_new_safe replace_safe
      split: if_splits option.splits)

lemma transact_safe:
  assumes "\<And>r st'. w st = Inr (r, st') \<Longrightarrow> safe_change st st'"
  shows "safe_change st (snd (transact w st))"
  using assms by (cases rule: withTransaction_cases [of w st]) (auto simp: transact_def)

lemma created_operation_form: "createDeviceSyncOperationV1 E i = Inr p \<Longrightarrow> stable_form (op_operationId p)"
  by (auto simp: createDeviceSyncOperationV1_def result_simps dest: identifierFrom_form)

lemma enqueue_safe: "safe_change st (snd (enqueue E policies ctx i v class st))"
proof (cases "createDeviceSyncOperationV1 E i")
  case (Inr p)
  have "safe_change st st'" if "enqueue_work ctx p st = Inr (r, st')" for r st'
    using that created_operation_form [OF Inr]
    by (auto simp: enqueue_work_def work_simps await_Inr intro: saveOperation_safe split: option.splits)
  then have "safe_change st (snd (transact (enqueue_work ctx p) st))" by (rule transact_safe)
  with Inr show ?thesis by (simp add: enqueue_def split: sum.split)
qed (simp add: enqueue_def)

lemma saveOperation_update_safe:
  assumes "saveOperation ctx p key (Some r) st = Inr (u, st')"
  shows "safe_change st st'"
  using assms by (auto simp: saveOperation_def intro: replace_safe split: if_splits option.splits)

lemma transition_safe: "safe_change st (snd (transition E ctx k t time st))"
proof (cases "stable E k")
  case (Some j)
  have "safe_change st st'" if "transition_work E ctx j t time st = Inr (r, st')" for r st'
    using that by (auto simp: transition_work_def work_simps await_Inr intro: saveOperation_update_safe
        split: option.splits if_splits sum.splits)
  then have "safe_change st (snd (transact (transition_work E ctx j t time) st))" by (rule transact_safe)
  with Some show ?thesis by (simp add: transition_def)
qed (simp add: transition_def)

lemma saveConflict_same: "saveConflict ctx c st = Inr (u, st') \<Longrightarrow> same_operations st st'"
  by (auto simp: saveConflict_def same_operations_def split: if_splits)

lemma savePackage_same: "savePackage ctx c st = Inr (u, st') \<Longrightarrow> same_operations st st'"
  by (auto simp: savePackage_def same_operations_def split: if_splits)

lemma saveReceipt_same: "saveReceipt c st = Inr (u, st') \<Longrightarrow> same_operations st st'"
  by (auto simp: saveReceipt_def same_operations_def split: if_splits)

lemma same_operations_refl [simp]: "same_operations st st"
  by (simp add: same_operations_def)

lemma safe_change_same:
  assumes "safe_change st st'" "same_operations st' st''"
  shows "safe_change st st''"
proof -
  have next_same: "sy_nextSequence st'' = sy_nextSequence st'"
    using assms(2) by (simp add: same_operations_def)
  have ok: "store_ok st'' = store_ok st'" and evolved: "evolves st st'' = evolves st st'"
    using assms(2) by (simp_all add: same_operations_def store_ok_def evolves_def entry_def)
  show ?thesis using assms(1) by (simp only: safe_change_def next_same ok evolved)
qed

lemma conflict_safe: "safe_change st (snd (recordConflict E ctx i st))"
proof (cases "createDeviceSyncConflictV1 E i")
  case (Inr c)
  have "safe_change st st'" if "conflict_work E ctx c st = Inr (r, st')" for r st'
    using that by (auto simp: conflict_work_def work_simps await_Inr
        intro: safe_change_same [OF saveOperation_update_safe saveConflict_same]
        split: option.splits sum.splits)
  then have "safe_change st (snd (transact (conflict_work E ctx c) st))" by (rule transact_safe)
  with Inr show ?thesis by (simp add: recordConflict_def)
qed (simp add: recordConflict_def)

lemma package_safe: "safe_change st (snd (issueStrictLocalPackage E ctx i st))"
proof (cases "createStrictLocalPackageManifestV1 E i")
  case (Inr m)
  have "safe_change st st'" if "package_work ctx m st = Inr (r, st')" for r st'
    using that by (auto simp: package_work_def work_simps await_Inr
        intro: same_operations_safe [OF savePackage_same] split: option.splits)
  then have "safe_change st (snd (transact (package_work ctx m) st))" by (rule transact_safe)
  with Inr show ?thesis by (simp add: issueStrictLocalPackage_def)
qed (simp add: issueStrictLocalPackage_def)

lemma receipt_safe: "safe_change st (snd (recordTransferReceipt E ctx i st))"
proof (cases "createDeviceTransferReceiptV1 E i")
  case (Inr m)
  have "safe_change st st'" if "receipt_work ctx m st = Inr (r, st')" for r st'
    using that by (auto simp: receipt_work_def work_simps await_Inr
        intro: same_operations_safe [OF saveReceipt_same] split: option.splits if_splits)
  then have "safe_change st (snd (transact (receipt_work ctx m) st))" by (rule transact_safe)
  with Inr show ?thesis by (simp add: recordTransferReceipt_def)
qed (simp add: recordTransferReceipt_def)

lemma safe_change_next:
  assumes "safe_change a b" "1 \<le> sy_nextSequence a" "sy_nextSequence a \<le> 9007199254740992"
  shows "1 \<le> sy_nextSequence b" "sy_nextSequence b \<le> 9007199254740992"
  using assms unfolding safe_change_def by linarith+

lemma push_changes_safe:
  assumes "1 \<le> sy_nextSequence st" "sy_nextSequence st \<le> 9007199254740992"
  shows "safe_change st (snd (push_changes E policies ctx v cs st))"
  using assms
proof (induction cs arbitrary: st)
  case (Cons c cs)
  let ?st' = "snd (enqueue E policies (child_context ctx (ch_operationId c)) (push_operation c) v Undefined st)"
  have first: "safe_change st ?st'" by (rule enqueue_safe)
  have "safe_change ?st' (snd (push_changes E policies ctx v cs ?st'))"
    using safe_change_next [OF first Cons.prems] by (rule Cons.IH)
  then have "safe_change st (snd (push_changes E policies ctx v cs ?st'))"
    using first Cons.prems by (blast intro: safe_change_trans)
  then show ?case by (simp add: case_prod_unfold)
qed simp

lemma push_safe:
  assumes "1 \<le> sy_nextSequence st" "sy_nextSequence st \<le> 9007199254740992"
  shows "safe_change st (snd (push E policies admission ctx j verify st))"
  using push_changes_safe [OF assms]
  by (auto simp: push_def case_prod_unfold split: option.splits sum.splits)

lemma sync_step_safe:
  assumes "sync_step E st st'" "1 \<le> sy_nextSequence st" "sy_nextSequence st \<le> 9007199254740992"
  shows "safe_change st st'"
  using assms
  by cases (auto intro: enqueue_safe push_safe transition_safe conflict_safe package_safe receipt_safe)

lemma sync_run_safe:
  assumes "(sync_step E)\<^sup>*\<^sup>* st st'" "1 \<le> sy_nextSequence st" "sy_nextSequence st \<le> 9007199254740992"
  shows "safe_change st st'"
  using assms(1)
proof induction
  case (step b c)
  show ?case
    using safe_change_trans [OF step.IH sync_step_safe [OF step.hyps(2)]] assms
      safe_change_next [OF step.IH] by blast
qed simp

end
