(* ===== verification/SyncFeed.thy ===== *)
theory SyncFeed
  imports SyncService
begin

text \<open>
  What a device receives: the feed of pages that \<open>pull\<close> delivers while others work on the store
  (services/api/src/features/dso/application/device-sync.service.ts). The lemmas say what one accepted
  page holds and what a history of the store keeps; the properties are about whole feeds: delivery
  exactly once and in order, the end of catching up, operations that block a feed, and revoked grants.
\<close>

section \<open>The numbered operations\<close>

lemma set_numbered:
  assumes "store_ok st"
  shows "(n, p) \<in> set (numbered st) \<longleftrightarrow> (\<exists>k. entry st k n p)"
proof -
  have "distinct (map fst (sy_operations st))" using assms by (simp add: store_ok_def)
  then have in_ops: "(k, q) \<in> set (sy_operations st) \<longleftrightarrow> map_of (sy_operations st) k = Some q" for k q
    by simp
  show ?thesis
    unfolding numbered_def entry_def in_ops [symmetric]
    by (force simp: List.map_filter_def image_iff split: option.splits)
qed

lemma entry_functional:
  assumes "store_ok st" "entry st k n p"
  shows "op_operationId p = k" "stable_form k" "n < sy_nextSequence st"
    "entry st j n q \<Longrightarrow> j = k \<and> q = p" "entry st k m q \<Longrightarrow> m = n \<and> q = p"
proof -
  show "op_operationId p = k" "stable_form k" "n < sy_nextSequence st"
    using assms unfolding entry_def store_ok_def by blast+
  show "j = k \<and> q = p" if "entry st j n q"
  proof -
    have "j = k" using assms that unfolding entry_def store_ok_def by blast
    with assms(2) that show ?thesis by (simp add: entry_def)
  qed
  show "m = n \<and> q = p" if "entry st k m q" using assms(2) that by (simp add: entry_def)
qed

lemma distinct_numbered:
  assumes "distinct (map fst xs)"
    and "\<And>j k n. f j = Some n \<Longrightarrow> f k = Some n \<Longrightarrow> j = k"
  shows "distinct (map fst (List.map_filter (\<lambda>(k, p). map_option (\<lambda>n. (n, p)) (f k)) xs))"
  using assms(1)
proof (induction xs)
  case (Cons x xs)
  obtain k p where x: "x = (k, p)" by (cases x)
  have "n \<notin> fst ` set (List.map_filter (\<lambda>(k, p). map_option (\<lambda>n. (n, p)) (f k)) xs)" if "f k = Some n" for n
  proof
    assume "n \<in> fst ` set (List.map_filter (\<lambda>(k, p). map_option (\<lambda>n. (n, p)) (f k)) xs)"
    then obtain j where "j \<in> fst ` set xs" "f j = Some n"
      by (force simp: List.map_filter_def split: option.splits)
    with assms(2) that Cons.prems x show False by auto
  qed
  with Cons x show ?case by (auto simp: List.map_filter_simps split: option.splits)
qed (simp add: List.map_filter_simps)

lemma lifted_Inr [simp]: "lifted r = Inr v \<longleftrightarrow> r = Inr v"
  by (cases r) (simp_all add: lifted_def)

text \<open>What a page is cut from, as a list with strictly growing numbers.\<close>

definition waiting :: "tenant_scope \<Rightarrow> int \<Rightarrow> sync_store \<Rightarrow> (int \<times> sync_operation) list" where
  "waiting S n st = sort_key fst (filter (\<lambda>(m, p). n < m \<and> visible S (op_tenantScope p)) (numbered st))"

lemma changes_are_waiting: "listOperationChanges ctx n limit st = take limit (waiting (ctx_tenantScope ctx) n st)"
  by (simp add: listOperationChanges_def waiting_def)

lemma set_waiting:
  assumes "store_ok st"
  shows "(m, p) \<in> set (waiting S n st) \<longleftrightarrow> n < m \<and> visible S (op_tenantScope p) \<and> (\<exists>k. entry st k m p)"
  using set_numbered [OF assms] by (auto simp: waiting_def)

lemma waiting_strict:
  assumes "store_ok st"
  shows "sorted_wrt (<) (map fst (waiting S n st))"
proof -
  have "distinct (map fst (numbered st))"
    unfolding numbered_def
    by (rule distinct_numbered) (use assms in \<open>unfold store_ok_def, blast\<close>)+
  then have "distinct (map fst (waiting S n st))"
    by (auto simp: waiting_def distinct_map_filter distinct_map inj_on_def)
  moreover have "sorted (map fst (waiting S n st))" by (simp add: waiting_def)
  ultimately show ?thesis by (simp add: strict_sorted_iff)
qed

lemma take_strict_prefix:
  fixes xs :: "(int \<times> 'a) list"
  assumes "sorted_wrt (<) (map fst xs)" "take m xs \<noteq> []"
  shows "set (take m xs) = {x \<in> set xs. fst x \<le> fst (last (take m xs))}"
proof -
  have split: "sorted_wrt (<) (map fst (take m xs) @ map fst (drop m xs))"
    using assms(1) by (metis append_take_drop_id map_append)
  have last_in: "last (take m xs) \<in> set (take m xs)" using assms(2) by simp
  have upto: "fst x \<le> fst (last (take m xs))" if "x \<in> set (take m xs)" for x
  proof -
    obtain ys y where "take m xs = ys @ [y]" using assms(2) by (metis rev_exhaust)
    with split that show ?thesis by (auto simp: sorted_wrt_append)
  qed
  have after: "fst (last (take m xs)) < fst x" if "x \<in> set (drop m xs)" for x
    using split that last_in by (auto simp: sorted_wrt_append)
  have parts: "set xs = set (take m xs) \<union> set (drop m xs)"
    by (metis append_take_drop_id set_append)
  show ?thesis
  proof (rule set_eqI)
    fix x
    show "x \<in> set (take m xs) \<longleftrightarrow> x \<in> {x \<in> set xs. fst x \<le> fst (last (take m xs))}"
      using upto [of x] after [of x] unfolding parts by auto
  qed
qed

section \<open>What an accepted page holds\<close>

lemma stable_Str: "stable E (Str s) = Some t \<Longrightarrow> t = ascii_lower s"
  by (auto simp: identifierFrom_def parseStableIdentifierV1_def result_simps)

lemma stable_kept: "stable E (Str s) = Some t \<Longrightarrow> stable_form s \<Longrightarrow> t = s"
  by (auto simp: stable_form_def dest: stable_Str)

lemma change_id_kept:
  assumes "changeFromOperation E p = Inr c" "stable_form (op_operationId p)"
  shows "ch_operationId c = op_operationId p"
proof -
  have "stable E (Str (op_operationId p)) = Some (ch_operationId c)"
    using assms(1) by (auto simp: changeFromOperation_def createDeviceSyncChangeV1_def result_simps)
  then show ?thesis using assms(2) by (rule stable_kept)
qed

lemma page_changes_ids:
  assumes "page_changes E (Str d) records = Inr cs"
    and "\<forall>(n, p) \<in> set records. stable_form (op_operationId p)"
  shows "map ch_operationId cs = map (\<lambda>(n, p). op_operationId p) (filter (\<lambda>(n, p). op_deviceId p = d) records)"
  using assms
  by (induction records arbitrary: cs) (auto simp: result_simps split: if_splits, erule change_id_kept)

lemma collected_ids:
  assumes "collect_changes E deviceId scope parsed (map change_value cs) = Inr ds"
    and "\<forall>c \<in> set cs. stable_form (ch_operationId c)"
  shows "map ch_operationId ds = map ch_operationId parsed @ map ch_operationId cs"
  using assms
proof (induction cs arbitrary: parsed)
  case (Cons c cs)
  obtain d where d: "createDeviceSyncChangeV1 E (change_of (change_value c)) = Inr d"
    and rest: "collect_changes E deviceId scope (parsed @ [d]) (map change_value cs) = Inr ds"
    using Cons.prems(1) by (auto simp: result_simps)
  have "stable E (Str (ch_operationId c)) = Some (ch_operationId d)"
    using d by (auto simp: createDeviceSyncChangeV1_def change_of_def change_value_def result_simps)
  then have "ch_operationId d = ch_operationId c" using Cons.prems(2) by (auto intro: stable_kept)
  with Cons.IH [OF rest] Cons.prems(2) show ?case by simp
qed simp

lemma change_form: "changeFromOperation E p = Inr c \<Longrightarrow> stable_form (ch_operationId c)"
  by (auto simp: changeFromOperation_def createDeviceSyncChangeV1_def result_simps dest: identifierFrom_form)

lemma page_changes_form: "page_changes E v records = Inr cs \<Longrightarrow> c \<in> set cs \<Longrightarrow> stable_form (ch_operationId c)"
  by (induction records arbitrary: cs) (auto simp: result_simps split: if_splits, erule change_form)

lemma next_cursor_fields:
  "next_cursor E c i n sign = Inr d \<Longrightarrow> cur_changeRevision d = n"
  by (auto simp: next_cursor_def createDeviceSyncCursorV1_def result_simps Let_def unsigned_cursor.defs
      nonNegativeRevision_def safe_integer_from_Some split: if_splits)

lemma cursor_value_revision: "cursor_value c = cursor_value d \<Longrightarrow> cur_changeRevision c = cur_changeRevision d"
  by (simp add: cursor_value_def)

lemma cursor_value_defined [simp]: "cursor_value c \<noteq> Undefined"
  by (simp add: cursor_value_def)

lemma cursor_value_given [simp]: "defined_value (cursor_value c) = Some (cursor_value c)"
  by (simp add: cursor_value_def)

lemma page_batch_accepted:
  assumes "page_batch E c i nc cs = Some (Inr b)"
  obtains deviceId scope where
    "collect_changes E deviceId scope [] (map change_value cs) = Inr (bt_changes b)"
    "bt_nextCursor b = map_option cursor_value nc" "\<not> out_of_order (bt_changes b)"
proof -
  let ?i = "\<lparr>in_bt_deviceId = in_sc_deviceId (in_pl_check i), in_bt_tenantScope = scope_object (cur_tenantScope c),
        in_bt_cursor = cursor_value c,
        in_bt_nextCursor = (case nc of None \<Rightarrow> Undefined | Some d \<Rightarrow> cursor_value d),
        in_bt_changes = Arr (map change_value cs)\<rparr>"
  have "createDeviceSyncBatchV1 E ?i = Some (Inr b)"
    using assms by (simp add: page_batch_def map_option_eq_Some)
  then obtain deviceId scope where "batch_changes E ?i deviceId scope = Inr b" by (rule batch_accepted)
  then have "collect_changes E deviceId scope [] (map change_value cs) = Inr (bt_changes b)"
    "bt_nextCursor b = map_option cursor_value nc" "\<not> out_of_order (bt_changes b)"
    by (auto simp: batch_changes_def result_simps split: option.splits)
  then show thesis by (rule that)
qed

text \<open>What an accepted page is made of.\<close>

lemma page_accepted:
  assumes "pull E admission ctx c i sign verify st = Some (Inr b)"
    and "in_sc_deviceId (in_pl_check i) = Str d" and "store_ok st"
  obtains limit records cs deviceId scope where "0 < limit"
    "records = take limit (waiting (ctx_tenantScope ctx) (cur_changeRevision c) st)"
    "map ch_operationId (bt_changes b)
       = map (\<lambda>(n, p). op_operationId p) (filter (\<lambda>(n, p). op_deviceId p = d) records)"
    "if records = [] then bt_nextCursor b = None
     else \<exists>c'. bt_nextCursor b = Some (cursor_value c') \<and> cur_changeRevision c' = fst (last records)"
    "page_changes E (Str d) records = Inr cs"
    "collect_changes E deviceId scope [] (map change_value cs) = Inr (bt_changes b)"
    "\<not> out_of_order (bt_changes b)"
proof -
  let ?S = "ctx_tenantScope ctx" and ?n = "cur_changeRevision c"
  obtain limit where limit: "pageSize (in_pl_pageSize i) = Some limit"
    and page: "deliver_page E c i sign (take limit (waiting ?S ?n st)) = Some (Inr b)"
    using assms(1) by (auto simp: pull_def changes_are_waiting split: sum.splits option.splits)
  define records where "records = take limit (waiting ?S ?n st)"
  obtain cs where cs: "page_changes E (Str d) records = Inr cs"
    using page assms(2) by (auto simp: deliver_page_def records_def split: sum.splits)
  have forms: "\<forall>(n, p) \<in> set records. stable_form (op_operationId p)"
    using set_waiting [OF assms(3)] entry_functional [OF assms(3)]
    by (fastforce simp: records_def dest: in_set_takeD)
  obtain nc where nc: "page_batch E c i nc cs = Some (Inr b)"
    "if records = [] then nc = None else \<exists>c'. nc = Some c' \<and> cur_changeRevision c' = fst (last records)"
    using page cs assms(2)
    by (auto simp: deliver_page_def records_def [symmetric] dest: next_cursor_fields split: sum.splits if_splits)
  obtain deviceId scope where
    batch: "collect_changes E deviceId scope [] (map change_value cs) = Inr (bt_changes b)"
    "bt_nextCursor b = map_option cursor_value nc" "\<not> out_of_order (bt_changes b)"
    by (rule page_batch_accepted [OF nc(1)])
  then have "map ch_operationId (bt_changes b) = map ch_operationId cs" "bt_nextCursor b = map_option cursor_value nc"
    using page_changes_form [OF cs] by (auto dest: collected_ids)
  moreover have "0 < limit"
    using limit by (auto simp: pageSize_def safe_integer_within_Some split: if_splits simp del: nat_0_iff)
  ultimately show thesis
    using that [of limit records cs deviceId scope] nc(2) page_changes_ids [OF cs forms] cs batch
    by (auto simp: records_def split: if_splits)
qed

section \<open>The feed of a device\<close>

text \<open>The cursor a device holds after a page: the next one, when there is one.\<close>

definition follows :: "sync_cursor \<Rightarrow> sync_batch \<Rightarrow> sync_cursor \<Rightarrow> bool" where
  "follows c b c' \<longleftrightarrow>
     (case bt_nextCursor b of None \<Rightarrow> c' = c | Some v \<Rightarrow> v = cursor_value c')"

text \<open>
  A device \<open>d\<close> reads pages in the tenant scope \<open>S\<close>, while others work on the store.
\<close>

inductive feed_step ::
    "env \<Rightarrow> tenant_scope \<Rightarrow> stable_id \<Rightarrow> sync_store \<times> sync_cursor \<times> stable_id list
     \<Rightarrow> sync_store \<times> sync_cursor \<times> stable_id list \<Rightarrow> bool" for E S d where
  others: "sync_step E st st' \<Longrightarrow> feed_step E S d (st, c, ids) (st', c, ids)"
| page: "pull E admission ctx c i sign verify st = Some (Inr b) \<Longrightarrow> ctx_tenantScope ctx = S
    \<Longrightarrow> in_sc_deviceId (in_pl_check i) = Str d \<Longrightarrow> follows c b c'
    \<Longrightarrow> feed_step E S d (st, c, ids) (st, c', ids @ map ch_operationId (bt_changes b))"

text \<open>The operations of the device with a number after one and up to another.\<close>

definition due :: "tenant_scope \<Rightarrow> stable_id \<Rightarrow> int \<Rightarrow> int \<Rightarrow> sync_store \<Rightarrow> stable_id set" where
  "due S d m n st =
     {k. \<exists>j p. entry st k j p \<and> op_deviceId p = d \<and> visible S (op_tenantScope p) \<and> m < j \<and> j \<le> n}"

definition in_number_order :: "sync_store \<Rightarrow> stable_id list \<Rightarrow> bool" where
  "in_number_order st ids \<longleftrightarrow>
     (\<exists>ns. map (map_of (sy_sequences st)) ids = map Some ns \<and> sorted_wrt (<) ns)"

lemma in_number_order_distinct:
  assumes "in_number_order st ids"
  shows "distinct ids"
proof -
  obtain ns where ns: "map (map_of (sy_sequences st)) ids = map Some ns" "sorted_wrt (<) ns"
    using assms by (auto simp: in_number_order_def)
  then have "distinct (map (map_of (sy_sequences st)) ids)"
    by (simp add: distinct_map strict_sorted_iff)
  then show ?thesis unfolding distinct_map by blast
qed

lemma due_evolves:
  assumes "evolves st st'" "store_ok st'" "n < sy_nextSequence st"
  shows "due S d m n st' = due S d m n st"
proof -
  have "\<exists>q. entry st' k j q \<and> op_deviceId q = op_deviceId p \<and> op_tenantScope q = op_tenantScope p"
    if "entry st k j p" for k j p using assms(1) that by (auto simp: evolves_def)
  moreover have "\<exists>p. entry st k j p \<and> op_deviceId q = op_deviceId p \<and> op_tenantScope q = op_tenantScope p"
    if q: "entry st' k j q" "j \<le> n" for k j q
  proof -
    obtain p where p: "entry st k j p" using assms(1,3) q unfolding evolves_def by (meson leD order_trans)
    then obtain r where "entry st' k j r" "op_deviceId r = op_deviceId p" "op_tenantScope r = op_tenantScope p"
      using assms(1) unfolding evolves_def by blast
    with p q show ?thesis by (auto simp: entry_def)
  qed
  ultimately show ?thesis unfolding due_def by (metis (no_types, lifting))
qed

lemma number_order_evolves:
  assumes "evolves st st'" "store_ok st" "in_number_order st ids"
  shows "in_number_order st' ids"
proof -
  have "map_of (sy_sequences st') k = Some n" if "map_of (sy_sequences st) k = Some n" for k n
  proof -
    have "\<exists>p. entry st k n p" using assms(2) that unfolding store_ok_def entry_def by blast
    then have "\<exists>q. entry st' k n q" using assms(1) unfolding evolves_def by blast
    then show ?thesis by (auto simp: entry_def)
  qed
  then have "map (map_of (sy_sequences st')) ids = map Some ns"
    if "map (map_of (sy_sequences st)) ids = map Some ns" for ns
    using that by (induction ids arbitrary: ns) auto
  with assms(3) show ?thesis by (auto simp: in_number_order_def)
qed

lemma due_bounds:
  assumes "store_ok st" "k \<in> due S d m n st"
  obtains j where "map_of (sy_sequences st) k = Some j" "m < j" "j \<le> n"
  using assms by (auto simp: due_def entry_def)

text \<open>What one page adds.\<close>

lemma page_delivers:
  assumes page: "pull E admission ctx c i sign verify st = Some (Inr b)" "in_sc_deviceId (in_pl_check i) = Str d"
    and ok: "store_ok st" and follows: "follows c b c'"
    and S: "ctx_tenantScope ctx = S"
  obtains ns where
    "map (map_of (sy_sequences st)) (map ch_operationId (bt_changes b)) = map Some ns" "sorted_wrt (<) ns"
    "\<forall>n \<in> set ns. cur_changeRevision c < n"
    "set (map ch_operationId (bt_changes b)) = due S d (cur_changeRevision c) (cur_changeRevision c') st"
    "cur_changeRevision c \<le> cur_changeRevision c'"
    "bt_nextCursor b \<noteq> None \<longrightarrow>
       cur_changeRevision c < cur_changeRevision c' \<and> cur_changeRevision c' < sy_nextSequence st"
    "bt_nextCursor b = None \<longrightarrow> (\<forall>n. due S d (cur_changeRevision c) n st = {})"
proof -
  let ?m = "cur_changeRevision c"
  obtain limit records where limit: "0 < limit" and records: "records = take limit (waiting S ?m st)"
    and ids: "map ch_operationId (bt_changes b)
       = map (\<lambda>(n, p). op_operationId p) (filter (\<lambda>(n, p). op_deviceId p = d) records)"
    and nxt: "if records = [] then bt_nextCursor b = None
     else \<exists>c'. bt_nextCursor b = Some (cursor_value c') \<and> cur_changeRevision c' = fst (last records)"
    using page_accepted [OF page ok] unfolding S by metis
  have strict: "sorted_wrt (<) (map fst (waiting S ?m st))" by (rule waiting_strict [OF ok])
  define ns where "ns = map fst (filter (\<lambda>(n, p). op_deviceId p = d) records)"
  have rec: "?m < n \<and> visible S (op_tenantScope p) \<and> entry st (op_operationId p) n p" if "(n, p) \<in> set records" for n p
    using that set_waiting [OF ok] entry_functional(1) [OF ok] unfolding records by (metis in_set_takeD)
  have numbers: "map (map_of (sy_sequences st)) (map ch_operationId (bt_changes b)) = map Some ns"
    unfolding ids ns_def using rec by (auto simp: entry_def)
  have sorted: "sorted_wrt (<) ns"
    using strict unfolding ns_def records sorted_wrt_map by (intro sorted_wrt_filter sorted_wrt_take)
  have above: "\<forall>n \<in> set ns. ?m < n" using rec by (auto simp: ns_def)
  have in_due: "k \<in> due S d ?m n st \<longleftrightarrow>
      (\<exists>j p. (j, p) \<in> set (waiting S ?m st) \<and> op_operationId p = k \<and> op_deviceId p = d \<and> j \<le> n)" for k n
    unfolding due_def set_waiting [OF ok] mem_Collect_eq by (metis entry_functional(1) [OF ok])
  show thesis
  proof (cases "records = []")
    case True
    then have empty: "waiting S ?m st = []" using limit records by simp
    have c': "c' = c" using True nxt follows by (simp add: follows_def)
    show ?thesis
    proof (rule that [OF numbers sorted above])
      show "set (map ch_operationId (bt_changes b)) = due S d ?m (cur_changeRevision c') st"
        using in_due True empty by (auto simp: ids)
    qed (use True nxt c' in_due empty in auto)
  next
    case False
    have c': "cur_changeRevision c' = fst (last records)"
    proof -
      obtain e where e: "bt_nextCursor b = Some (cursor_value e)" "cur_changeRevision e = fst (last records)"
        using False nxt by auto
      then have "cursor_value e = cursor_value c'" using follows by (simp add: follows_def)
      then show ?thesis using e(2) cursor_value_revision [of e c'] by simp
    qed
    have prefix: "set records = {x \<in> set (waiting S ?m st). fst x \<le> fst (last records)}"
      using take_strict_prefix [OF strict] False unfolding records by blast
    obtain l p where l: "last records = (l, p)" "(l, p) \<in> set records"
      using False by (metis last_in_set surj_pair)
    have "?m < l" "l < sy_nextSequence st" using rec [OF l(2)] entry_functional(3) [OF ok] by auto
    show ?thesis
    proof (rule that [OF numbers sorted above])
      show "set (map ch_operationId (bt_changes b)) = due S d ?m (cur_changeRevision c') st"
        unfolding ids set_eq_iff in_due c' using prefix by force
    qed (use \<open>?m < l\<close> \<open>l < sy_nextSequence st\<close> c' l False nxt in auto)
  qed
qed

lemma due_split:
  "m \<le> n \<Longrightarrow> n \<le> l \<Longrightarrow> due S d m l st = due S d m n st \<union> due S d n l st"
  by (force simp: due_def)

text \<open>What holds of a feed, at every point.\<close>

definition feed_ok ::
    "tenant_scope \<Rightarrow> stable_id \<Rightarrow> int \<Rightarrow> sync_store \<times> sync_cursor \<times> stable_id list \<Rightarrow> bool" where
  "feed_ok S d m = (\<lambda>(st, c, ids).
     store_ok st \<and> m \<le> cur_changeRevision c \<and> cur_changeRevision c < sy_nextSequence st
     \<and> in_number_order st ids \<and> set ids = due S d m (cur_changeRevision c) st)"

lemma page_keeps_feed:
  assumes "feed_ok S d m (st, c, ids)"
    and "pull E admission ctx c i sign verify st = Some (Inr b)" "in_sc_deviceId (in_pl_check i) = Str d"
    and "ctx_tenantScope ctx = S" "follows c b c'"
  shows "feed_ok S d m (st, c', ids @ map ch_operationId (bt_changes b))"
proof -
  have ok: "store_ok st" and m: "m \<le> cur_changeRevision c" "cur_changeRevision c < sy_nextSequence st"
    and order: "in_number_order st ids" and ids: "set ids = due S d m (cur_changeRevision c) st"
    using assms(1) by (auto simp: feed_ok_def)
  obtain ns where ns:
    "map (map_of (sy_sequences st)) (map ch_operationId (bt_changes b)) = map Some ns" "sorted_wrt (<) ns"
    "\<forall>n \<in> set ns. cur_changeRevision c < n"
    "set (map ch_operationId (bt_changes b)) = due S d (cur_changeRevision c) (cur_changeRevision c') st"
    and c': "cur_changeRevision c \<le> cur_changeRevision c'"
    "bt_nextCursor b \<noteq> None \<longrightarrow> cur_changeRevision c' < sy_nextSequence st"
    by (rule page_delivers [OF assms(2,3) ok assms(5,4)]) blast
  obtain js where js: "map (map_of (sy_sequences st)) ids = map Some js" "sorted_wrt (<) js"
    using order by (auto simp: in_number_order_def)
  have "j \<le> cur_changeRevision c" if "j \<in> set js" for j
  proof -
    have "Some j \<in> set (map (map_of (sy_sequences st)) ids)" using that js(1) by simp
    then obtain k where "k \<in> set ids" "map_of (sy_sequences st) k = Some j" by auto
    then show ?thesis using ids by (auto elim: due_bounds [OF ok])
  qed
  then have "sorted_wrt (<) (js @ ns)" using js(2) ns(2,3) by (fastforce simp: sorted_wrt_append)
  moreover have "map (map_of (sy_sequences st)) (ids @ map ch_operationId (bt_changes b)) = map Some (js @ ns)"
    using js(1) ns(1) by simp
  ultimately have "in_number_order st (ids @ map ch_operationId (bt_changes b))"
    unfolding in_number_order_def by blast
  moreover have "cur_changeRevision c' < sy_nextSequence st"
    using c'(2) m(2) assms(5) by (cases "bt_nextCursor b") (auto simp: follows_def)
  moreover have "set (ids @ map ch_operationId (bt_changes b)) = due S d m (cur_changeRevision c') st"
    using ids ns(4) due_split [OF m(1) c'(1)] by simp
  ultimately show ?thesis using ok m c'(1) by (simp add: feed_ok_def)
qed

lemma others_keep_feed:
  assumes "feed_ok S d m (st, c, ids)" "safe_change st st'" "sy_nextSequence st' \<le> max_safe_integer"
    and "sy_nextSequence st \<le> sy_nextSequence st'"
  shows "feed_ok S d m (st', c, ids)"
proof -
  have "store_ok st'" "evolves st st'"
    using assms by (auto simp: feed_ok_def safe_change_def)
  then show ?thesis
    using assms due_evolves [of st st' "cur_changeRevision c"] number_order_evolves [of st st' ids]
    by (auto simp: feed_ok_def)
qed

lemma feed_runs:
  assumes "(feed_step E S d)\<^sup>*\<^sup>* x y" "1 \<le> sy_nextSequence (fst x)" "sy_nextSequence (fst x) \<le> 9007199254740992"
    and "feed_ok S d m x"
  shows "1 \<le> sy_nextSequence (fst y) \<and> sy_nextSequence (fst y) \<le> 9007199254740992
    \<and> (sy_nextSequence (fst y) \<le> max_safe_integer \<longrightarrow> feed_ok S d m y)"
  using assms(1)
proof induction
  case base
  then show ?case using assms by simp
next
  case (step y z)
  from step.hyps(2) show ?case
  proof cases
    case (others st st' c ids)
    have safe: "safe_change st st'"
      using sync_step_safe [OF others(3)] step.IH others(1) by simp
    have grows: "sy_nextSequence st \<le> sy_nextSequence st'"
      using safe step.IH others(1) unfolding safe_change_def by simp
    show ?thesis
      using safe_change_next [OF safe] grows step.IH others(1,2) others_keep_feed [OF _ safe _ grows, of S d m c ids]
      by auto
  next
    case (page admission ctx c i sign verify st b c' ids)
    show ?thesis using step.IH page page_keeps_feed [OF _ page(3,5,4,6), of m ids] by auto
  qed
qed

lemma empty_store_ok: "store_ok empty_sync_store"
  by (simp add: store_ok_def empty_sync_store_def)

lemma reached_store_ok:
  assumes "(sync_step E)\<^sup>*\<^sup>* empty_sync_store st"
  shows "1 \<le> sy_nextSequence st \<and> sy_nextSequence st \<le> 9007199254740992
     \<and> (sy_nextSequence st \<le> max_safe_integer \<longrightarrow> store_ok st)"
proof -
  have "safe_change empty_sync_store st"
    by (rule sync_run_safe [OF assms]) (simp_all add: empty_sync_store_def)
  then show ?thesis using empty_store_ok unfolding safe_change_def
    by (simp add: empty_sync_store_def)
qed

text \<open>A page that leads from one cursor to another, and one that leads nowhere.\<close>

inductive next_page :: "env \<Rightarrow> tenant_scope \<Rightarrow> stable_id \<Rightarrow> sync_store \<Rightarrow> sync_cursor \<Rightarrow> sync_cursor \<Rightarrow> bool"
  for E S d st where
  "pull E admission ctx c i sign verify st = Some (Inr b) \<Longrightarrow> ctx_tenantScope ctx = S
   \<Longrightarrow> in_sc_deviceId (in_pl_check i) = Str d \<Longrightarrow> bt_nextCursor b = Some (cursor_value c')
   \<Longrightarrow> next_page E S d st c c'"

inductive last_page :: "env \<Rightarrow> tenant_scope \<Rightarrow> stable_id \<Rightarrow> sync_store \<Rightarrow> sync_cursor \<Rightarrow> bool"
  for E S d st where
  "pull E admission ctx c i sign verify st = Some (Inr b) \<Longrightarrow> ctx_tenantScope ctx = S
   \<Longrightarrow> in_sc_deviceId (in_pl_check i) = Str d \<Longrightarrow> bt_nextCursor b = None
   \<Longrightarrow> last_page E S d st c"

lemma next_page_moves:
  assumes "store_ok st" "next_page E S d st c c'"
  shows "cur_changeRevision c < cur_changeRevision c' \<and> cur_changeRevision c' < sy_nextSequence st"
  using assms(2)
proof cases
  case (1 admission ctx i sign verify b)
  then have "follows c b c'" by (simp add: follows_def)
  then show ?thesis by (rule page_delivers [OF 1(1,3) assms(1) _ 1(2)]) (use 1(4) in blast)
qed

lemma last_page_leaves_nothing:
  assumes "store_ok st" "last_page E S d st c"
  shows "due S d (cur_changeRevision c) n st = {}"
  using assms(2)
proof cases
  case (1 admission ctx i sign verify b)
  then have "follows c b c" by (simp add: follows_def)
  then show ?thesis by (rule page_delivers [OF 1(1,3) assms(1) _ 1(2)]) (use 1(4) in blast)
qed

section \<open>Samples\<close>

definition feed_input :: "char \<Rightarrow> char list \<Rightarrow> operation_input" where
  "feed_input c deps =
     \<lparr>in_op_operationId = sample_id c, in_op_deviceId = sample_id CHR ''b'',
      in_op_tenantScope = sample_scope CHR ''a'' CHR ''b'', in_op_entityType = Str (js ''file''),
      in_op_entityId = sample_id CHR ''e'', in_op_kind = Str (js ''UPSERT''),
      in_op_payloadClass = Str (js ''CONTROL_METADATA''), in_op_payloadDigest = sample_hash CHR ''a'',
      in_op_encryptedPayload = Undefined, in_op_dependencyIds = Arr (map sample_id deps),
      in_op_baseRevision = Undefined, in_op_createdAt = sample_time ''01''\<rparr>"

definition feed_operation :: "char \<Rightarrow> char list \<Rightarrow> sync_operation" where
  "feed_operation c deps =
     \<lparr>op_operationId = uuid_of c, op_deviceId = uuid_of CHR ''b'', op_tenantScope = ws_scope CHR ''a'' CHR ''b'',
      op_entityType = js ''file'', op_entityId = uuid_of CHR ''e'', op_kind = Sync_UPSERT,
      op_payloadClass = CONTROL_METADATA, op_payloadDigest = hash_of CHR ''a'', op_encryptedPayload = None,
      op_dependencyIds = map uuid_of deps, op_baseRevision = None, op_status = Sync_QUEUED, op_revision = 1,
      op_createdAt = time_of ''01'', op_acknowledgedAt = None\<rparr>"

lemma feed_words [simp]:
  "map_of sync_kinds ''UPSERT'' = Some Sync_UPSERT"
  "map_of payload_classes ''CONTROL_METADATA'' = Some CONTROL_METADATA"
  "map_of sync_modes ''Hybrid'' = Some Mode_Hybrid"
  by (simp_all add: sync_kinds_def payload_classes_def sync_modes_def)

lemma feed_operation_created:
  assumes "letter c" "deps = [] \<or> deps = [c]"
  shows "createDeviceSyncOperationV1 sample_env (feed_input c deps) = Inr (feed_operation c deps)"
  using assms
  by (auto simp: createDeviceSyncOperationV1_def feed_input_def feed_operation_def result_simps plain_def
      uniqueStableIds_def nullish_def dedup_def)

definition feed_store :: "char \<Rightarrow> char list \<Rightarrow> sync_store" where
  "feed_store c deps =
     put_new_operation (Some (idempotency_slot (ws_scope CHR ''a'' CHR ''b'') (js ''key'')))
       (feed_operation c deps) empty_sync_store"

lemma feed_enqueued:
  assumes "letter c" "deps = [] \<or> deps = [c]"
  shows "enqueue sample_env None sample_ctx (feed_input c deps) Undefined Undefined empty_sync_store
    = (Inr (feed_operation c deps), feed_store c deps)"
proof -
  have ctx: "ctx_tenantScope sample_ctx = ws_scope CHR ''a'' CHR ''b''" "ctx_idempotencyKey sample_ctx = js ''key''"
    by (simp_all add: sample_ctx_def)
  have op: "op_tenantScope (feed_operation c deps) = ws_scope CHR ''a'' CHR ''b''" by (simp add: feed_operation_def)
  have within: "tenantScopeContainsV1 (ws_scope CHR ''a'' CHR ''b'') (ws_scope CHR ''a'' CHR ''b'')"
    by (simp add: ws_scope_def)
  have none: "map_of (sy_operations empty_sync_store) k = None" "map_of (sy_keys empty_sync_store) k' = None" for k k'
    by (simp_all add: empty_sync_store_def)
  show ?thesis
    unfolding enqueue_def feed_operation_created [OF assms]
    by (simp add: ctx op within none checkPolicy_def transact_def withTransaction_def enqueue_work_def work_simps
        findOperationByIdempotency_def saveOperation_def canMutate_def await_apply key_conflict_def
        feed_store_def)
qed

lemma feed_store_reached:
  assumes "letter c" "deps = [] \<or> deps = [c]"
  shows "(sync_step sample_env)\<^sup>*\<^sup>* empty_sync_store (feed_store c deps)"
  using sync_step.enqueue [of sample_env empty_sync_store None sample_ctx "feed_input c deps" Undefined Undefined]
    feed_enqueued [OF assms] by (simp add: r_into_rtranclp)

lemma feed_store_fields [simp]:
  "sy_operations (feed_store c deps) = [(uuid_of c, feed_operation c deps)]"
  "sy_sequences (feed_store c deps) = [(uuid_of c, 1)]"
  "sy_nextSequence (feed_store c deps) = 2"
  by (simp_all add: feed_store_def empty_sync_store_def feed_operation_def js_add_exact)

lemma feed_store_ok: "letter c \<Longrightarrow> deps = [] \<or> deps = [c] \<Longrightarrow> store_ok (feed_store c deps)"
  using reached_store_ok [OF feed_store_reached [of c deps]] by (simp add: max_safe_integer_def)

definition feed_unsigned :: "int \<Rightarrow> unsigned_cursor" where
  "feed_unsigned n =
     \<lparr>cur_schemaVersion = 1, cur_cursorId = uuid_of CHR ''a'', cur_deviceId = uuid_of CHR ''b'',
      cur_tenantScope = ws_scope CHR ''a'' CHR ''b'', cur_authorizationEpoch = 2, cur_changeRevision = n,
      cur_policyVersionId = None, cur_policyDigest = None, cur_dataMode = Mode_Hybrid,
      cur_protocolVersion = js ''v1.2'', cur_issuedAt = time_of ''01'', cur_expiresAt = time_of ''30''\<rparr>"

definition feed_cursor :: "int \<Rightarrow> sync_cursor" where
  "feed_cursor n = unsigned_cursor.extend (feed_unsigned n)
     (sync_cursor.fields (canonicalCursor (feed_unsigned n)) (js ''sig''))"

lemma feed_cursor_fields [simp]:
  "cur_schemaVersion (feed_cursor n) = 1" "cur_cursorId (feed_cursor n) = uuid_of CHR ''a''"
  "cur_deviceId (feed_cursor n) = uuid_of CHR ''b''" "cur_tenantScope (feed_cursor n) = ws_scope CHR ''a'' CHR ''b''"
  "cur_authorizationEpoch (feed_cursor n) = 2" "cur_changeRevision (feed_cursor n) = n"
  "cur_policyVersionId (feed_cursor n) = None" "cur_policyDigest (feed_cursor n) = None"
  "cur_dataMode (feed_cursor n) = Mode_Hybrid" "cur_protocolVersion (feed_cursor n) = js ''v1.2''"
  "cur_issuedAt (feed_cursor n) = time_of ''01''" "cur_expiresAt (feed_cursor n) = time_of ''30''"
  "unsigned_cursor.truncate (feed_cursor n) = feed_unsigned n"
  "cur_payload (feed_cursor n) = canonicalCursor (feed_unsigned n)" "cur_signature (feed_cursor n) = js ''sig''"
  by (simp_all add: feed_cursor_def feed_unsigned_def unsigned_cursor.defs sync_cursor.defs)

definition feed_pull :: pull_input where
  "feed_pull =
     \<lparr>in_pl_check = \<lparr>in_sc_now = sample_time ''01'', in_sc_deviceId = sample_id CHR ''b'',
        in_sc_minimumRevision = int_num 0, in_sc_policyVersionId = Undefined, in_sc_policyDigest = Undefined,
        in_sc_dataMode = Undefined, in_sc_protocolVersion = Undefined\<rparr>,
      in_pl_grantId = sample_id CHR ''c'', in_pl_nextCursorId = Undefined, in_pl_pageSize = Undefined\<rparr>"

abbreviation open_admission :: admission_port where
  "open_admission \<equiv> Some (\<lambda>_ _ _ _ _ _. Inr ())"

lemma feed_cursor_verified:
  assumes "0 \<le> n"
  shows "cursorForVerification sample_env sample_ctx (feed_cursor n) (in_pl_check feed_pull) (\<lambda>_ _. True) = Inr ()"
proof -
  let ?k = "\<lparr>in_chk_now = sample_time ''01'', in_chk_deviceId = sample_id CHR ''b'',
      in_chk_tenantScope = sample_scope CHR ''a'' CHR ''b'', in_chk_authorizationEpoch = int_num 2,
      in_chk_minimumRevision = int_num 0, in_chk_policyVersionId = Undefined, in_chk_policyDigest = Undefined,
      in_chk_dataMode = Undefined, in_chk_protocolVersion = Undefined\<rparr>"
  have "check_fits sample_env (feed_cursor n) ?k (time_of ''01'')"
    using assms by (simp add: check_fits_def max_safe_integer_def nonNegativeRevision_def safe_integer_from_def)
  then have "verifyDeviceSyncCursorV1 sample_env (feed_cursor n) ?k (\<lambda>_ _. True) = Inr ()"
    unfolding verify_cursor_iff by auto
  moreover have "tenantScopeContainsV1 (ctx_tenantScope sample_ctx) (ws_scope CHR ''a'' CHR ''b'')"
    by (simp add: sample_ctx_def ws_scope_def)
  moreover have "ctx_authorizationEpoch sample_ctx = 2" by (simp add: sample_ctx_def)
  ultimately show ?thesis
    by (simp add: cursorForVerification_def feed_pull_def result_simps lifted_def)
qed

definition feed_change :: sync_change where
  "feed_change =
     \<lparr>ch_changeId = uuid_of CHR ''d'', ch_operationId = uuid_of CHR ''d'', ch_deviceId = uuid_of CHR ''b'',
      ch_tenantScope = ws_scope CHR ''a'' CHR ''b'', ch_entityType = js ''file'', ch_entityId = uuid_of CHR ''e'',
      ch_kind = Sync_UPSERT, ch_payloadClass = CONTROL_METADATA, ch_payloadDigest = hash_of CHR ''a'',
      ch_dependencyIds = [], ch_entityRevision = 1, ch_createdAt = time_of ''01''\<rparr>"

lemma feed_change_made:
  "changeFromOperation sample_env (feed_operation CHR ''d'' []) = Inr feed_change"
  "createDeviceSyncChangeV1 sample_env (change_of (change_value feed_change)) = Inr feed_change"
  by (simp_all add: changeFromOperation_def createDeviceSyncChangeV1_def feed_operation_def feed_change_def
      change_of_def change_value_def result_simps plain_def uniqueStableIds_def nullish_def dedup_def
      max_safe_integer_def)

definition feed_batch :: sync_batch where
  "feed_batch =
     \<lparr>bt_deviceId = uuid_of CHR ''b'', bt_tenantScope = ws_scope CHR ''a'' CHR ''b'',
      bt_cursor = cursor_value (feed_cursor 0), bt_nextCursor = Some (cursor_value (feed_cursor 1)),
      bt_changes = [feed_change]\<rparr>"

lemma feed_next_cursor:
  "next_cursor sample_env (feed_cursor 0) feed_pull 1 (\<lambda>_. js ''sig'') = Inr (feed_cursor 1)"
  by (simp add: next_cursor_def createDeviceSyncCursorV1_def result_simps plain_def Let_def nullish_def
      feed_pull_def feed_cursor_def feed_unsigned_def nonNegativeRevision_def safe_integer_from_def
      max_safe_integer_def lifetimeWithin_def lifetime_within_def optional_def optional_value_def
      unsigned_cursor.defs sync_cursor.defs)

lemma feed_cursor_shape: "cursorShape (cursor_value (feed_cursor n))"
  by (simp add: cursorShape_def cursor_value_def is_int_def ws_scope_def optional_property_def)

lemma feed_cursor_matches:
  "cursor_matches (cursor_value (feed_cursor n)) (uuid_of CHR ''b'') (ws_scope CHR ''a'' CHR ''b'') = Some True"
  by (simp add: cursor_matches_def cursor_value_def raw_scope_equal_def ws_scope_def optional_property_def)

lemma feed_next_matches:
  "next_matches (cursor_value (feed_cursor 1)) (cursor_value (feed_cursor 0)) (uuid_of CHR ''b'')
     (ws_scope CHR ''a'' CHR ''b'') = Some True"
  unfolding next_matches_def feed_cursor_matches
  by (simp add: cursor_value_def number_differs_def optional_property_def)

lemma feed_pulled:
  "pull sample_env open_admission sample_ctx (feed_cursor 0) feed_pull (\<lambda>_. js ''sig'') (\<lambda>_ _. True)
     (feed_store CHR ''d'' []) = Some (Inr feed_batch)"
proof -
  let ?p = "feed_operation CHR ''d'' []"
  have own: "op_tenantScope ?p = ws_scope CHR ''a'' CHR ''b''" "op_deviceId ?p = uuid_of CHR ''b''"
    by (simp_all add: feed_operation_def)
  have records: "listOperationChanges sample_ctx 0 64 (feed_store CHR ''d'' []) = [(1, ?p)]"
    by (simp add: listOperationChanges_def numbered_def List.map_filter_simps own sample_ctx_def)
  have dev: "in_sc_deviceId (in_pl_check feed_pull) = sample_id CHR ''b''" by (simp add: feed_pull_def)
  have o: "object_like (change_value feed_change)" by (simp add: change_value_def)
  have ch: "batch_changes sample_env
      \<lparr>in_bt_deviceId = sample_id CHR ''b'', in_bt_tenantScope = sample_scope CHR ''a'' CHR ''b'',
        in_bt_cursor = cursor_value (feed_cursor 0), in_bt_nextCursor = cursor_value (feed_cursor 1),
        in_bt_changes = Arr [change_value feed_change]\<rparr> (uuid_of CHR ''b'') (ws_scope CHR ''a'' CHR ''b'')
      = Inr feed_batch"
    using o by (simp add: batch_changes_def result_simps feed_change_made out_of_order_def feed_batch_def)
       (simp add: feed_change_def)
  have "page_batch sample_env (feed_cursor 0) feed_pull (Some (feed_cursor 1)) [feed_change] = Some (Inr feed_batch)"
    by (simp add: page_batch_def createDeviceSyncBatchV1_def dev feed_cursor_shape feed_cursor_matches
        feed_next_matches ch)
  then have "deliver_page sample_env (feed_cursor 0) feed_pull (\<lambda>_. js ''sig'') [(1, ?p)] = Some (Inr feed_batch)"
    by (simp add: deliver_page_def dev own feed_change_made result_simps feed_next_cursor)
  moreover have "authorizeDevice open_admission sample_ctx v w (in_pl_grantId feed_pull) e t = Inr ()" for v w e t
    by (simp add: authorizeDevice_def feed_pull_def result_simps)
  moreover have "pageSize (in_pl_pageSize feed_pull) = Some 64" by (simp add: pageSize_def feed_pull_def)
  ultimately show ?thesis
    using feed_cursor_verified [of 0] records by (simp add: pull_def)
qed

section \<open>Dependencies\<close>

lemma dependency_kept:
  assumes "createDeviceSyncChangeV1 E i = Inr c" "in_ch_dependencyIds i = Arr (map Str ks)"
    and "k \<in> set ks" "stable_form k"
  shows "k \<in> set (ch_dependencyIds c)"
proof -
  have "uniqueStableIds E (Arr (map Str ks)) = Some (ch_dependencyIds c)"
    using assms(1,2) by (auto simp: createDeviceSyncChangeV1_def result_simps nullish_def)
  then obtain ds where ds: "parse_all (stable E) (map Str ks) = Some ds" "ch_dependencyIds c = dedup ds"
    by (auto simp: uniqueStableIds_def split: if_splits)
  have "k \<in> set ds" using ds(1) assms(3)
  proof (induction ks arbitrary: ds)
    case (Cons j ks)
    then show ?case using assms(4) by (auto dest: stable_kept split: option.splits)
  qed simp
  with ds(2) show ?thesis by simp
qed

lemma page_change_depends:
  assumes "page_changes E (Str d) records = Inr cs" "(n, p) \<in> set records" "op_deviceId p = d"
    and "stable_form (op_operationId p)" "op_operationId p \<in> set (op_dependencyIds p)"
  shows "\<exists>c \<in> set cs. ch_operationId c \<in> set (ch_dependencyIds c)"
  using assms(1,2)
proof (induction records arbitrary: cs)
  case (Cons r records)
  obtain m q where r: "r = (m, q)" by (cases r)
  show ?case
  proof (cases "(m, q) = (n, p)")
    case True
    with Cons.prems(1) r assms(3) obtain c ds where c: "changeFromOperation E p = Inr c" "cs = c # ds"
      by (auto simp: result_simps)
    have "op_operationId p \<in> set (ch_dependencyIds c)"
      using c(1) assms(4,5) dependency_kept by (fastforce simp: changeFromOperation_def)
    with c change_id_kept [OF c(1) assms(4)] show ?thesis by auto
  next
    case False
    with Cons.prems r have "(n, p) \<in> set records" by auto
    with Cons r show ?thesis by (force simp: result_simps split: if_splits)
  qed
qed simp

lemma collected_depends:
  assumes "collect_changes E deviceId scope parsed (map change_value cs) = Inr ds"
    and "c \<in> set cs" "stable_form (ch_operationId c)" "ch_operationId c \<in> set (ch_dependencyIds c)"
  shows "\<exists>x \<in> set ds. ch_operationId x \<in> set (ch_dependencyIds x)"
proof -
  have keeps: "set parsed \<subseteq> set ds"
    if "collect_changes E deviceId scope parsed raw = Inr ds" for parsed raw
    using that by (induction E deviceId scope parsed raw rule: collect_changes.induct) (auto simp: result_simps)
  show ?thesis using assms(1,2)
  proof (induction cs arbitrary: parsed)
    case (Cons b cs)
    obtain x where x: "createDeviceSyncChangeV1 E (change_of (change_value b)) = Inr x"
      and rest: "collect_changes E deviceId scope (parsed @ [x]) (map change_value cs) = Inr ds"
      using Cons.prems(1) by (auto simp: result_simps)
    show ?case
    proof (cases "b = c")
      case True
      have "stable E (Str (ch_operationId c)) = Some (ch_operationId x)"
        using x True by (auto simp: createDeviceSyncChangeV1_def change_of_def change_value_def result_simps)
      then have same: "ch_operationId x = ch_operationId c" using assms(3) by (rule stable_kept)
      moreover have "ch_operationId c \<in> set (ch_dependencyIds x)"
        by (rule dependency_kept [OF x _ assms(4,3)]) (simp add: change_of_def change_value_def True)
      moreover have "x \<in> set ds" using keeps [OF rest] by simp
      ultimately show ?thesis by metis
    next
      case False
      with Cons rest show ?thesis by auto
    qed
  qed simp
qed

lemma depends_on_itself_out_of_order:
  assumes "c \<in> set cs" "ch_operationId c \<in> set (ch_dependencyIds c)" "distinct (map ch_operationId cs)"
  shows "out_of_order cs"
proof (rule ccontr)
  assume "\<not> out_of_order cs"
  moreover obtain j where "j < length cs" "cs ! j = c" using assms(1) by (auto simp: in_set_conv_nth)
  ultimately have "j < j" using in_order assms(2,3) by blast
  then show False by simp
qed

lemma no_self_dependency_delivered:
  assumes page: "pull E admission ctx c i sign verify st = Some (Inr b)" "in_sc_deviceId (in_pl_check i) = Str d"
    and ok: "store_ok st" and p: "entry st k n p" "k \<in> set (op_dependencyIds p)" "op_deviceId p = d"
  shows "k \<notin> set (map ch_operationId (bt_changes b))"
proof
  assume k: "k \<in> set (map ch_operationId (bt_changes b))"
  obtain limit records cs deviceId scope where
    records: "records = take limit (waiting (ctx_tenantScope ctx) (cur_changeRevision c) st)"
    and ids: "map ch_operationId (bt_changes b)
       = map (\<lambda>(n, p). op_operationId p) (filter (\<lambda>(n, p). op_deviceId p = d) records)"
    and cs: "page_changes E (Str d) records = Inr cs"
    and collected: "collect_changes E deviceId scope [] (map change_value cs) = Inr (bt_changes b)"
    and order: "\<not> out_of_order (bt_changes b)"
    by (rule page_accepted [OF page ok])
  obtain m q where q: "(m, q) \<in> set records" "op_operationId q = k"
    using k unfolding ids by auto
  then have "entry st k m q"
    using set_waiting [OF ok] entry_functional(1) [OF ok] unfolding records by (metis in_set_takeD)
  then have "q = p" using entry_functional(5) [OF ok p(1)] by blast
  with q have in_records: "(m, p) \<in> set records" and own: "op_operationId p = k" by auto
  have form: "stable_form k" by (rule entry_functional(2) [OF ok p(1)])
  obtain x where "x \<in> set cs" "ch_operationId x \<in> set (ch_dependencyIds x)"
    using page_change_depends [OF cs in_records p(3)] own form p(2) by auto
  then obtain y where "y \<in> set (bt_changes b)" "ch_operationId y \<in> set (ch_dependencyIds y)"
    using collected_depends [OF collected] page_changes_form [OF cs] by blast
  moreover have "distinct (map ch_operationId (bt_changes b))" using collect_accepted [OF collected] by simp
  ultimately show False using depends_on_itself_out_of_order order by blast
qed

lemma page_stops_before:
  assumes "store_ok st" "entry st k n p" "k \<in> set (op_dependencyIds p)" "visible S (op_tenantScope p)"
    and "cur_changeRevision c < n"
  shows "next_page E S (op_deviceId p) st c c' \<Longrightarrow> cur_changeRevision c' < n"
    and "\<not> last_page E S (op_deviceId p) st c"
proof -
  have due: "k \<in> due S (op_deviceId p) (cur_changeRevision c) l st" if "n \<le> l" for l
    using assms that by (auto simp: due_def)
  show "\<not> last_page E S (op_deviceId p) st c"
    using last_page_leaves_nothing [OF assms(1)] due [of n] by blast
  assume "next_page E S (op_deviceId p) st c c'"
  then show "cur_changeRevision c' < n"
  proof cases
    case (1 admission ctx i sign verify b)
    have "follows c b c'" using 1(4) by (simp add: follows_def)
    with page_delivers [OF 1(1,3) assms(1) _ 1(2)]
    have "set (map ch_operationId (bt_changes b)) = due S (op_deviceId p) (cur_changeRevision c) (cur_changeRevision c') st"
      by blast
    with no_self_dependency_delivered [OF 1(1,3) assms(1-3) refl] due show ?thesis by (metis not_le)
  qed
qed

section \<open>Properties\<close>

text \<open>
  C21: a device that reads page after page receives exactly the operations it is due - those queued for
  it, in a scope its tenant scope sees, with a number after its first cursor and up to its present one -
  each of them once, in the order of their numbers, whatever others queue, push or transition in between.
\<close>

theorem feed_delivers_once:
  assumes "(sync_step E)\<^sup>*\<^sup>* empty_sync_store st\<^sub>0" "cur_changeRevision c\<^sub>0 < sy_nextSequence st\<^sub>0"
    and "(feed_step E S d)\<^sup>*\<^sup>* (st\<^sub>0, c\<^sub>0, []) (st, c, ids)"
    and "sy_nextSequence st\<^sub>0 \<le> max_safe_integer" "sy_nextSequence st \<le> max_safe_integer"
  shows "distinct ids \<and> in_number_order st ids
    \<and> set ids = due S d (cur_changeRevision c\<^sub>0) (cur_changeRevision c) st"
proof -
  have "feed_ok S d (cur_changeRevision c\<^sub>0) (st\<^sub>0, c\<^sub>0, [])"
    using reached_store_ok [OF assms(1)] assms(2,4) by (auto simp: feed_ok_def in_number_order_def due_def)
  then have "feed_ok S d (cur_changeRevision c\<^sub>0) (st, c, ids)"
    using feed_runs [OF assms(3)] reached_store_ok [OF assms(1)] assms(5) by auto
  then show ?thesis by (auto simp: feed_ok_def dest: in_number_order_distinct)
qed

theorem feed_delivers_once_witness:
  "\<exists>st. (feed_step sample_env (ws_scope CHR ''a'' CHR ''b'') (uuid_of CHR ''b''))\<^sup>*\<^sup>*
       (empty_sync_store, feed_cursor 0, []) (st, feed_cursor 1, [uuid_of CHR ''d''])
     \<and> {uuid_of CHR ''d''} = due (ws_scope CHR ''a'' CHR ''b'') (uuid_of CHR ''b'') 0 1 st"
proof -
  let ?S = "ws_scope CHR ''a'' CHR ''b''" and ?st = "feed_store CHR ''d'' []"
  have "sync_step sample_env empty_sync_store ?st"
    using sync_step.enqueue [of sample_env empty_sync_store None sample_ctx "feed_input CHR ''d'' []" Undefined Undefined]
      feed_enqueued [of "CHR ''d''" "[]"] by simp
  then have "feed_step sample_env ?S (uuid_of CHR ''b'') (empty_sync_store, feed_cursor 0, []) (?st, feed_cursor 0, [])"
    by (rule feed_step.others)
  moreover have "feed_step sample_env ?S (uuid_of CHR ''b'') (?st, feed_cursor 0, [])
      (?st, feed_cursor 1, [] @ map ch_operationId (bt_changes feed_batch))"
    by (rule feed_step.page [OF feed_pulled])
       (simp_all add: sample_ctx_def feed_pull_def follows_def feed_batch_def)
  ultimately have run: "(feed_step sample_env ?S (uuid_of CHR ''b''))\<^sup>*\<^sup>* (empty_sync_store, feed_cursor 0, [])
      (?st, feed_cursor 1, [uuid_of CHR ''d''])"
    by (auto simp: feed_batch_def feed_change_def intro: converse_rtranclp_into_rtranclp)
  have "distinct [uuid_of CHR ''d''] \<and> in_number_order ?st [uuid_of CHR ''d'']
    \<and> set [uuid_of CHR ''d''] = due ?S (uuid_of CHR ''b'') (cur_changeRevision (feed_cursor 0))
        (cur_changeRevision (feed_cursor 1)) ?st"
    by (rule feed_delivers_once [OF rtranclp.rtrancl_refl _ run])
       (simp_all add: empty_sync_store_def max_safe_integer_def)
  with run show ?thesis by auto
qed

text \<open>
  C22: catching up terminates. Against a store that does not change there is no endless chain of pages, and a
  page without a next cursor leaves nothing behind.
\<close>

theorem catching_up_ends:
  assumes "store_ok st"
  shows "wf {(c', c). next_page E S d st c c'}
    \<and> (\<forall>c n. last_page E S d st c \<longrightarrow> due S d (cur_changeRevision c) n st = {})"
proof
  have "{(c', c). next_page E S d st c c'} \<subseteq> measure (\<lambda>c. nat (sy_nextSequence st - cur_changeRevision c))"
    using next_page_moves [OF assms] by fastforce
  then show "wf {(c', c). next_page E S d st c c'}" by (rule wf_subset [OF wf_measure])
qed (use last_page_leaves_nothing [OF assms] in blast)


theorem catching_up_ends_witness:
  "wf {(c', c). next_page sample_env (ws_scope CHR ''a'' CHR ''b'') (uuid_of CHR ''b'') (feed_store CHR ''d'' []) c c'}
    \<and> next_page sample_env (ws_scope CHR ''a'' CHR ''b'') (uuid_of CHR ''b'') (feed_store CHR ''d'' [])
        (feed_cursor 0) (feed_cursor 1)"
proof
  show "wf {(c', c). next_page sample_env (ws_scope CHR ''a'' CHR ''b'') (uuid_of CHR ''b'') (feed_store CHR ''d'' []) c c'}"
    using catching_up_ends [OF feed_store_ok [of "CHR ''d''" "[]"]] by simp
  show "next_page sample_env (ws_scope CHR ''a'' CHR ''b'') (uuid_of CHR ''b'') (feed_store CHR ''d'' [])
      (feed_cursor 0) (feed_cursor 1)"
    by (rule next_page.intros [OF feed_pulled])
       (simp_all add: sample_ctx_def feed_pull_def feed_batch_def)
qed

text \<open>
  C23: one operation that names itself as its dependency stops the feed of its device for good. The
  operation can be queued, but against a store that holds it no chain of pages of the device leads from a
  cursor before it to one at or past it, and none of these pages is the last one: the device can neither
  receive the operation nor anything queued after it.
\<close>

theorem self_dependency_blocks_feed:
  assumes "store_ok st" "entry st k n p" "k \<in> set (op_dependencyIds p)" "visible S (op_tenantScope p)"
    and "cur_changeRevision c < n" "(next_page E S (op_deviceId p) st)\<^sup>*\<^sup>* c c'"
  shows "cur_changeRevision c' < n \<and> \<not> last_page E S (op_deviceId p) st c'"
  using assms(6)
proof induction
  case base
  show ?case using page_stops_before(2) [OF assms(1-5)] assms(5) by blast
next
  case (step d e)
  then have "cur_changeRevision e < n" using page_stops_before(1) [OF assms(1-4), of d] by blast
  with page_stops_before(2) [OF assms(1-4)] show ?case by blast
qed

theorem self_dependency_blocks_feed_witness:
  "\<exists>p. enqueue sample_env None sample_ctx (feed_input CHR ''d'' [CHR ''d'']) Undefined Undefined empty_sync_store
       = (Inr p, feed_store CHR ''d'' [CHR ''d''])
     \<and> \<not> last_page sample_env (ws_scope CHR ''a'' CHR ''b'') (op_deviceId p) (feed_store CHR ''d'' [CHR ''d''])
          (feed_cursor 0)"
proof -
  let ?p = "feed_operation CHR ''d'' [CHR ''d'']" and ?st = "feed_store CHR ''d'' [CHR ''d'']"
  have "store_ok ?st" by (rule feed_store_ok) simp_all
  moreover have "entry ?st (uuid_of CHR ''d'') 1 ?p" by (simp add: entry_def)
  moreover have "uuid_of CHR ''d'' \<in> set (op_dependencyIds ?p)" by (simp add: feed_operation_def)
  moreover have "visible (ws_scope CHR ''a'' CHR ''b'') (op_tenantScope ?p)" by (simp add: feed_operation_def)
  ultimately have "\<not> last_page sample_env (ws_scope CHR ''a'' CHR ''b'') (op_deviceId ?p) ?st (feed_cursor 0)"
    using self_dependency_blocks_feed [of ?st "uuid_of CHR ''d''" 1 ?p "ws_scope CHR ''a'' CHR ''b''" "feed_cursor 0"]
    by simp
  then show ?thesis using feed_enqueued [of "CHR ''d''" "[CHR ''d'']"] by simp
qed

text \<open>
  The admission of devices over the store of grants, as the adapter composes it without capability
  grants; an identity authority may be composed or not. The store of grants is only read and never throws.
\<close>

definition grant_admission ::
    "env \<Rightarrow> (tenant_ctx \<Rightarrow> jsval \<Rightarrow> identity_answer option) \<Rightarrow> authority_store \<Rightarrow> admission_port" where
  "grant_admission E identity authority = Some (\<lambda>ctx deviceId scope grantId effect now.
     case authorize_sync E ctx (identity ctx deviceId) None grantId
       \<lparr>in_gc_now = now, in_gc_deviceId = deviceId, in_gc_tenantScope = scope, in_gc_authorizationEpoch = Undefined\<rparr>
       effect authority of
       Inl e \<Rightarrow> rejected Denial_AUTHORIZATION_UNAVAILABLE
     | Inr r \<Rightarrow> r)"

lemma authorizeDevice_granted:
  assumes "authorizeDevice (grant_admission E identity authority) ctx deviceId scope grantId effect now = Inr u"
  shows "\<exists>i. opaque_admission E ctx grantId i effect authority = Inr (Inr ())"
  using assms
  by (auto simp: authorizeDevice_def grant_admission_def authorize_sync_def result_simps map_sum_def
      split: sum.splits option.splits)



end
