(* ===== verification/ExecutionRoute.thy ===== *)
theory ExecutionRoute
  imports SyncService "HOL-Library.List_Lexorder"
begin

text \<open>
  Execution routes, services/api/src/features/dso: the decisions that bind an action on an artifact
  version to a device or to the cloud (application/execution-route-decision.ts), the service that
  creates and later authorizes them under the current data mode policy of the workspace
  (application/execution-route.service.ts), and the in-memory repository. The digest of node:crypto and
  the authority for policies are parameters. Inputs of declared type string are strings.
\<close>

section \<open>Subjects\<close>

record route_artifact =
  rt_artifactVersionId :: stable_id
  rt_artifactVersionHash :: jsstr
  rt_placementId :: stable_id
  rt_placementHash :: jsstr
  rt_dataMode :: sync_mode
  rt_classification :: classification
  rt_payloadClass :: sync_payload
  rt_placementKind :: jsstr
  rt_placementAvailable :: bool

record route_action =
  rt_type :: jsstr
  rt_version :: int
  rt_requiredCapabilities :: "jsstr list"

datatype route_target =
    Cloud_target (target_executorClass: jsstr) (target_grantedCapabilities: "jsstr list")
  | Device_target (targetDeviceId: stable_id) (target_executorClass: jsstr)
      (target_grantedCapabilities: "jsstr list")

record route_constraint =
  nc_constraintId :: stable_id
  nc_constraintHash :: jsstr
  nc_allowedClassifications :: "classification list"
  nc_allowedPayloadClasses :: "sync_payload list"
  nc_allowedPlacementKinds :: "jsstr list"
  nc_allowedExecutorClasses :: "jsstr list"

record route_subject =
  rs_tenantScope :: tenant_scope
  rs_input :: route_artifact
  rs_action :: route_action
  rs_target :: route_target
  rs_narrowingConstraints :: "route_constraint list"
  rs_authorizationEpoch :: int

record route_subject_input =
  in_rs_tenantScope :: jsval
  in_rs_artifactVersionId :: jsval
  in_rs_artifactVersionHash :: jsstr
  in_rs_placementId :: jsval
  in_rs_placementHash :: jsstr
  in_rs_dataMode :: jsval
  in_rs_classification :: jsval
  in_rs_payloadClass :: jsval
  in_rs_placementKind :: jsstr
  in_rs_placementAvailable :: jsval
  in_rs_type :: jsstr
  in_rs_version :: jsval
  in_rs_requiredCapabilities :: jsval
  in_rs_target :: jsval
  in_rs_targetDeviceId :: jsval
  in_rs_executorClass :: jsval
  in_rs_grantedCapabilities :: jsval
  in_rs_narrowingConstraints :: jsval
  in_rs_authorizationEpoch :: jsval

datatype route_error =
    Route_INVALID_ROUTE_DECISION | Route_SCOPE_MISMATCH | Route_DATA_MODE_POLICY_UNAVAILABLE
  | Route_DATA_MODE_POLICY_STALE | Route_AUTHORIZATION_EPOCH_STALE | Route_ROUTE_NOT_ALLOWED
  | Route_ROUTE_NOT_FOUND | Route_ROUTE_SUBJECT_MISMATCH | Route_ROUTE_EXPIRED
  | Route_IMMUTABLE_ROUTE_DECISION | Route_PERSISTENCE_UNAVAILABLE

text \<open>\<open>SHA256\<close>, \<open>SAFE_LABEL\<close> and \<open>ACTION_TYPE\<close>.\<close>

definition sha256_text :: "jsstr \<Rightarrow> bool" where
  "sha256_text s \<longleftrightarrow> length s = 64 \<and> list_all lower_hex s"

definition upper_case :: "16 word \<Rightarrow> bool" where
  "upper_case c \<longleftrightarrow> in_range 65 90 c"

definition safe_label :: "jsstr \<Rightarrow> bool" where
  "safe_label s \<longleftrightarrow>
     s \<noteq> [] \<and> length s \<le> 128
     \<and> (upper_case (hd s) \<or> lower (hd s) \<or> digit (hd s))
     \<and> list_all (\<lambda>c. upper_case c \<or> lower c \<or> digit c \<or> c \<in> set (js ''._:-'')) (tl s)"

definition action_type :: "jsstr \<Rightarrow> bool" where
  "action_type s \<longleftrightarrow>
     s \<noteq> [] \<and> length s \<le> 128 \<and> (lower (hd s) \<or> digit (hd s))
     \<and> list_all (\<lambda>c. lower c \<or> digit c \<or> c \<in> set (js ''._-'')) (tl s)"

text \<open>\<open>[...new Set(values)].sort()\<close> orders texts by their code units.\<close>

definition safeList :: "env \<Rightarrow> jsval \<Rightarrow> nat \<Rightarrow> jsstr list option" where
  "safeList E v maximum =
     (case v of
        Arr vs \<Rightarrow>
          if length vs > maximum then None
          else (case parse_all as_string vs of
             None \<Rightarrow> None
           | Some texts \<Rightarrow>
               let normalized = map (\<lambda>s. trim (nfc E s)) texts
               in if list_all safe_label normalized then Some (sort (dedup normalized)) else None)
      | _ \<Rightarrow> None)"

fun classification_text :: "classification \<Rightarrow> string" where
  "classification_text Class_PUBLIC = ''PUBLIC''"
| "classification_text Class_INTERNAL = ''INTERNAL''"
| "classification_text Class_CONFIDENTIAL = ''CONFIDENTIAL''"
| "classification_text Class_RESTRICTED = ''RESTRICTED''"

fun payload_text :: "sync_payload \<Rightarrow> string" where
  "payload_text Payload_CONTROL_METADATA = ''CONTROL_METADATA''"
| "payload_text Payload_APPROVED_DERIVED_RESULT = ''APPROVED_DERIVED_RESULT''"
| "payload_text Payload_RECONSTRUCTABLE_DERIVED_CONTENT = ''RECONSTRUCTABLE_DERIVED_CONTENT''"
| "payload_text Payload_ORIGINAL_CONTENT = ''ORIGINAL_CONTENT''"

definition route_classifications :: "jsval \<Rightarrow> classification list option" where
  "route_classifications v =
     (case v of
        Arr vs \<Rightarrow> map_option (\<lambda>cs. sort_key (\<lambda>c. js (classification_text c)) (dedup cs))
                    (parse_all (one_of classification_names) vs)
      | _ \<Rightarrow> None)"

definition route_payloadClasses :: "jsval \<Rightarrow> sync_payload list option" where
  "route_payloadClasses v =
     (case v of
        Arr vs \<Rightarrow> map_option (\<lambda>ps. sort_key (\<lambda>p. js (payload_text p)) (dedup ps))
                    (parse_all (one_of sync_payloads) vs)
      | _ \<Rightarrow> None)"

definition route_constraint_of :: "env \<Rightarrow> jsval \<Rightarrow> route_constraint option" where
  "route_constraint_of E v =
     (if \<not> isRecord v then None
      else Option.bind (stable E (field v ''constraintId'')) (\<lambda>constraintId.
           Option.bind (sha256_hex (field v ''constraintHash'')) (\<lambda>constraintHash.
           Option.bind (route_classifications (field v ''allowedClassifications'')) (\<lambda>cs.
           Option.bind (route_payloadClasses (field v ''allowedPayloadClasses'')) (\<lambda>ps.
           Option.bind (safeList E (field v ''allowedPlacementKinds'') 64) (\<lambda>kinds.
           Option.bind (safeList E (field v ''allowedExecutorClasses'') 64) (\<lambda>executors.
             Some \<lparr>nc_constraintId = constraintId, nc_constraintHash = constraintHash,
                   nc_allowedClassifications = cs, nc_allowedPayloadClasses = ps,
                   nc_allowedPlacementKinds = kinds, nc_allowedExecutorClasses = executors\<rparr>)))))))"

text \<open>The loop over the constraints; an identifier that occurred before ends it.\<close>

fun collect_constraints :: "env \<Rightarrow> route_constraint list \<Rightarrow> jsval list \<Rightarrow> route_constraint list option" where
  "collect_constraints E seen [] = Some seen"
| "collect_constraints E seen (v # vs) =
     (case route_constraint_of E v of
        None \<Rightarrow> None
      | Some c \<Rightarrow>
          if nc_constraintId c \<in> nc_constraintId ` set seen then None
          else collect_constraints E (seen @ [c]) vs)"

definition constraints :: "env \<Rightarrow> jsval \<Rightarrow> route_constraint list option" where
  "constraints E v =
     (case v of
        Arr vs \<Rightarrow>
          if length vs > 32 then None
          else map_option (sort_key (\<lambda>c. collation E (nc_constraintId c))) (collect_constraints E [] vs)
      | _ \<Rightarrow> None)"

definition route_target_of :: "env \<Rightarrow> route_subject_input \<Rightarrow> jsstr \<Rightarrow> jsstr list \<Rightarrow> route_target option" where
  "route_target_of E i executorClass granted =
     (if in_rs_target i = Str (js ''CLOUD'')
      then (if in_rs_targetDeviceId i \<noteq> Undefined then None else Some (Cloud_target executorClass granted))
      else if in_rs_target i = Str (js ''DEVICE'')
      then map_option (\<lambda>d. Device_target d executorClass granted) (stable E (in_rs_targetDeviceId i))
      else None)"

definition first_label :: "env \<Rightarrow> jsval \<Rightarrow> jsstr option" where
  "first_label E v =
     (case safeList E (Arr [v]) 1 of None \<Rightarrow> None | Some xs \<Rightarrow> (case xs of [] \<Rightarrow> None | x # _ \<Rightarrow> Some x))"

definition createExecutionRouteSubjectV1 :: "env \<Rightarrow> route_subject_input \<Rightarrow> route_error + route_subject" where
  "createExecutionRouteSubjectV1 E i =
     require Route_INVALID_ROUTE_DECISION (scope_value E (in_rs_tenantScope i)) (\<lambda>scope.
     reject_if (scopeType scope = Organization_type) Route_INVALID_ROUTE_DECISION (
     require Route_INVALID_ROUTE_DECISION (stable E (in_rs_artifactVersionId i)) (\<lambda>artifactVersionId.
     require Route_INVALID_ROUTE_DECISION (stable E (in_rs_placementId i)) (\<lambda>placementId.
     reject_if (\<not> sha256_text (in_rs_artifactVersionHash i) \<or> \<not> sha256_text (in_rs_placementHash i))
       Route_INVALID_ROUTE_DECISION (
     require Route_INVALID_ROUTE_DECISION (one_of sync_modes (in_rs_dataMode i)) (\<lambda>mode.
     require Route_INVALID_ROUTE_DECISION (one_of classification_names (in_rs_classification i)) (\<lambda>class.
     require Route_INVALID_ROUTE_DECISION (one_of sync_payloads (in_rs_payloadClass i)) (\<lambda>payload.
     reject_if (\<not> safe_label (in_rs_placementKind i)) Route_INVALID_ROUTE_DECISION (
     require Route_INVALID_ROUTE_DECISION (as_bool (in_rs_placementAvailable i)) (\<lambda>available.
     reject_if (\<not> action_type (in_rs_type i)) Route_INVALID_ROUTE_DECISION (
     require Route_INVALID_ROUTE_DECISION (safe_integer_from 1 (in_rs_version i)) (\<lambda>version.
     require Route_INVALID_ROUTE_DECISION (safeList E (in_rs_requiredCapabilities i) 64) (\<lambda>needed.
     require Route_INVALID_ROUTE_DECISION (first_label E (in_rs_executorClass i)) (\<lambda>executorClass.
     require Route_INVALID_ROUTE_DECISION (safeList E (in_rs_grantedCapabilities i) 64) (\<lambda>granted.
     require Route_INVALID_ROUTE_DECISION (constraints E (in_rs_narrowingConstraints i)) (\<lambda>cs.
     require Route_INVALID_ROUTE_DECISION (safe_integer_from 0 (in_rs_authorizationEpoch i)) (\<lambda>epoch.
     require Route_INVALID_ROUTE_DECISION (route_target_of E i executorClass granted) (\<lambda>target.
     accepted
       \<lparr>rs_tenantScope = scope,
        rs_input =
          \<lparr>rt_artifactVersionId = artifactVersionId, rt_artifactVersionHash = in_rs_artifactVersionHash i,
           rt_placementId = placementId, rt_placementHash = in_rs_placementHash i, rt_dataMode = mode,
           rt_classification = class, rt_payloadClass = payload, rt_placementKind = in_rs_placementKind i,
           rt_placementAvailable = available\<rparr>,
        rs_action = \<lparr>rt_type = in_rs_type i, rt_version = version, rt_requiredCapabilities = needed\<rparr>,
        rs_target = target, rs_narrowingConstraints = cs, rs_authorizationEpoch = epoch\<rparr>))))))))))))))))))"

section \<open>Canonical texts\<close>

definition label_array :: "jsstr list \<Rightarrow> json" where
  "label_array xs = JArr (map JStr xs)"

definition artifact_json :: "route_artifact \<Rightarrow> json" where
  "artifact_json a = JObj
     [(js ''artifactVersionId'', JStr (rt_artifactVersionId a)),
      (js ''artifactVersionHash'', JStr (rt_artifactVersionHash a)),
      (js ''placementId'', JStr (rt_placementId a)), (js ''placementHash'', JStr (rt_placementHash a)),
      (js ''dataMode'', JStr (js (mode_text (rt_dataMode a)))),
      (js ''classification'', JStr (js (classification_text (rt_classification a)))),
      (js ''payloadClass'', JStr (js (payload_text (rt_payloadClass a)))),
      (js ''placementKind'', JStr (rt_placementKind a)),
      (js ''placementAvailable'', JBool (rt_placementAvailable a))]"

definition action_json :: "route_action \<Rightarrow> json" where
  "action_json a = JObj
     [(js ''type'', JStr (rt_type a)), (js ''version'', JInt (rt_version a)),
      (js ''requiredCapabilities'', label_array (rt_requiredCapabilities a))]"

fun target_json :: "route_target \<Rightarrow> json" where
  "target_json (Cloud_target e g) = JObj
     [(js ''target'', JStr (js ''CLOUD'')), (js ''executorClass'', JStr e),
      (js ''grantedCapabilities'', label_array g)]"
| "target_json (Device_target d e g) = JObj
     [(js ''target'', JStr (js ''DEVICE'')), (js ''targetDeviceId'', JStr d),
      (js ''executorClass'', JStr e), (js ''grantedCapabilities'', label_array g)]"

definition constraint_json :: "route_constraint \<Rightarrow> json" where
  "constraint_json c = JObj
     [(js ''constraintId'', JStr (nc_constraintId c)), (js ''constraintHash'', JStr (nc_constraintHash c)),
      (js ''allowedClassifications'', label_array (map (\<lambda>x. js (classification_text x)) (nc_allowedClassifications c))),
      (js ''allowedPayloadClasses'', label_array (map (\<lambda>x. js (payload_text x)) (nc_allowedPayloadClasses c))),
      (js ''allowedPlacementKinds'', label_array (nc_allowedPlacementKinds c)),
      (js ''allowedExecutorClasses'', label_array (nc_allowedExecutorClasses c))]"

definition canonicalSubject :: "route_subject \<Rightarrow> json" where
  "canonicalSubject s = JObj
     [(js ''tenantScope'', scope_json (rs_tenantScope s)), (js ''input'', artifact_json (rs_input s)),
      (js ''action'', action_json (rs_action s)), (js ''target'', target_json (rs_target s)),
      (js ''narrowingConstraints'', JArr (map constraint_json (rs_narrowingConstraints s))),
      (js ''authorizationEpoch'', JInt (rs_authorizationEpoch s))]"

definition executionRouteDecisionSubjectHashV1 :: "(jsstr \<Rightarrow> jsstr) \<Rightarrow> route_subject \<Rightarrow> jsstr" where
  "executionRouteDecisionSubjectHashV1 digest s =
     digest (stringify (JObj [(js ''schemaVersion'', JInt 1), (js ''subject'', canonicalSubject s)]))"

section \<open>Decisions\<close>

record route_decision =
  rd_routeId :: stable_id
  rd_decisionId :: stable_id
  rd_revision :: int
  rd_subject :: route_subject
  rd_policyId :: stable_id
  rd_policyVersionId :: stable_id
  rd_policyRevision :: int
  rd_policyHash :: jsstr
  rd_subjectHash :: jsstr
  rd_createdAt :: utc_timestamp
  rd_expiresAt :: utc_timestamp

record route_decision_input =
  in_rd_routeId :: jsval
  in_rd_decisionId :: jsval
  in_rd_revision :: jsval
  in_rd_subject :: route_subject_input
  in_rd_policy :: mode_policy
  in_rd_createdAt :: jsval
  in_rd_expiresAt :: jsval

definition createExecutionRouteDecisionV1 ::
    "env \<Rightarrow> (jsstr \<Rightarrow> jsstr) \<Rightarrow> route_decision_input \<Rightarrow> route_error + route_decision" where
  "createExecutionRouteDecisionV1 E digest i =
     require Route_INVALID_ROUTE_DECISION (stable E (in_rd_routeId i)) (\<lambda>routeId.
     require Route_INVALID_ROUTE_DECISION (stable E (in_rd_decisionId i)) (\<lambda>decisionId.
     require Route_INVALID_ROUTE_DECISION (stable E (Str (mp_policyId (in_rd_policy i)))) (\<lambda>policyId.
     require Route_INVALID_ROUTE_DECISION (stable E (Str (mp_policyVersionId (in_rd_policy i)))) (\<lambda>versionId.
     require Route_INVALID_ROUTE_DECISION (stable E (Str (mp_organizationId (in_rd_policy i)))) (\<lambda>org.
     require Route_INVALID_ROUTE_DECISION (stable E (Str (mp_workspaceId (in_rd_policy i)))) (\<lambda>ws.
     require Route_INVALID_ROUTE_DECISION (safe_integer_from 1 (in_rd_revision i)) (\<lambda>revision.
     and_then (createExecutionRouteSubjectV1 E (in_rd_subject i)) (\<lambda>subject.
     require Route_INVALID_ROUTE_DECISION (timestamp E (in_rd_createdAt i)) (\<lambda>createdAt.
     require Route_INVALID_ROUTE_DECISION (timestamp E (in_rd_expiresAt i)) (\<lambda>expiresAt.
     require Route_INVALID_ROUTE_DECISION
       (safe_integer_from 1 (int_num (mp_revision (in_rd_policy i)))) (\<lambda>policyRevision.
     reject_if (\<not> sha256_text (mp_canonicalHash (in_rd_policy i))) Route_INVALID_ROUTE_DECISION (
     reject_if (date_le (Date_parse E expiresAt) (Date_parse E createdAt)
                \<or> (case date_diff (Date_parse E expiresAt) (Date_parse E createdAt) of
                     None \<Rightarrow> False | Some d \<Rightarrow> 24 * 60 * 60 * 1000 < d)
                \<or> org \<noteq> organizationId (rs_tenantScope subject)
                \<or> Some ws \<noteq> workspace_of (rs_tenantScope subject))
       Route_INVALID_ROUTE_DECISION (
     accepted
       \<lparr>rd_routeId = routeId, rd_decisionId = decisionId, rd_revision = revision, rd_subject = subject,
        rd_policyId = policyId, rd_policyVersionId = versionId, rd_policyRevision = policyRevision,
        rd_policyHash = mp_canonicalHash (in_rd_policy i),
        rd_subjectHash = executionRouteDecisionSubjectHashV1 digest subject,
        rd_createdAt = createdAt, rd_expiresAt = expiresAt\<rparr>)))))))))))))"

section \<open>The repository\<close>

type_synonym route_store = "(stable_id \<times> route_decision) list"

datatype route_throw = Throw_IMMUTABLE_DECISION | Throw_REVISION_CONFLICT

definition saveDecisionRecord :: "route_decision \<Rightarrow> route_store \<Rightarrow> route_throw + route_store" where
  "saveDecisionRecord d st =
     (case map_of st (rd_decisionId d) of
        Some existing \<Rightarrow> if existing = d then Inr st else Inl Throw_IMMUTABLE_DECISION
      | None \<Rightarrow>
          if list_ex (\<lambda>(k, c). rd_routeId c = rd_routeId d \<and> rd_revision c = rd_revision d) st
          then Inl Throw_REVISION_CONFLICT
          else Inr (AList.update (rd_decisionId d) d st))"

definition findExact :: "tenant_scope \<Rightarrow> stable_id \<Rightarrow> route_store \<Rightarrow> route_decision option" where
  "findExact scope k st =
     (case map_of st k of
        None \<Rightarrow> None
      | Some d \<Rightarrow> if tenantScopesEqualV1 (rs_tenantScope (rd_subject d)) scope then Some d else None)"

section \<open>The service\<close>

definition policyAllows :: "route_subject \<Rightarrow> mode_policy \<Rightarrow> bool" where
  "policyAllows s p =
     (if scopeType (rs_tenantScope s) = Organization_type
         \<or> mp_organizationId p \<noteq> organizationId (rs_tenantScope s)
         \<or> Some (mp_workspaceId p) \<noteq> workspace_of (rs_tenantScope s)
         \<or> \<not> rt_placementAvailable (rs_input s)
         \<or> \<not> isDataModePayloadAllowedV1 p (rt_classification (rs_input s)) (rt_payloadClass (rs_input s))
         \<or> rt_placementKind (rs_input s) \<notin> set (mp_allowedPlacementKinds p)
         \<or> target_executorClass (rs_target s) \<notin> set (mp_allowedExecutorClasses p)
         \<or> list_ex (\<lambda>c. c \<notin> set (target_grantedCapabilities (rs_target s)))
             (rt_requiredCapabilities (rs_action s))
      then False
      else if list_ex (\<lambda>c. rt_classification (rs_input s) \<notin> set (nc_allowedClassifications c)
               \<or> rt_payloadClass (rs_input s) \<notin> set (nc_allowedPayloadClasses c)
               \<or> rt_placementKind (rs_input s) \<notin> set (nc_allowedPlacementKinds c)
               \<or> target_executorClass (rs_target s) \<notin> set (nc_allowedExecutorClasses c))
             (rs_narrowingConstraints s)
      then False
      else (case rs_target s of
              Cloud_target e g \<Rightarrow>
                mp_mode p \<noteq> DataMode_LOCAL \<and> rt_dataMode (rs_input s) \<noteq> Mode_Local
                \<and> rt_placementKind (rs_input s) = js ''CLOUD'' \<and> e = js ''CLOUD''
            | Device_target d e g \<Rightarrow> e \<noteq> js ''CLOUD''))"

text \<open>The authority's answer for a workspace, \<open>None\<close> where it has none or throws; a policy is parsed again.\<close>

type_synonym policy_authority = "stable_id \<Rightarrow> stable_id \<Rightarrow> (mode_policy \<times> jsval) option"

fun policy_mode_text :: "data_mode \<Rightarrow> string" where
  "policy_mode_text DataMode_LOCAL = ''LOCAL''"
| "policy_mode_text DataMode_HYBRID = ''HYBRID''"
| "policy_mode_text DataMode_CLOUD = ''CLOUD''"

definition payload_array :: "sync_payload list \<Rightarrow> jsval" where
  "payload_array ps = Arr (map (\<lambda>p. Str (js (payload_text p))) ps)"

definition policy_value :: "mode_policy \<Rightarrow> policy_version_input" where
  "policy_value p =
     \<lparr>in_mp_policyId = Str (mp_policyId p), in_mp_policyVersionId = Str (mp_policyVersionId p),
      in_mp_organizationId = Str (mp_organizationId p), in_mp_workspaceId = Str (mp_workspaceId p),
      in_mp_revision = int_num (mp_revision p), in_mp_mode = Str (js (policy_mode_text (mp_mode p))),
      in_mp_allowedPayloadClasses =
        (let m = mp_allowedPayloadClasses p in
         Obj [(js ''PUBLIC'', payload_array (pm_PUBLIC m)), (js ''INTERNAL'', payload_array (pm_INTERNAL m)),
              (js ''CONFIDENTIAL'', payload_array (pm_CONFIDENTIAL m)),
              (js ''RESTRICTED'', payload_array (pm_RESTRICTED m))]),
      in_mp_allowedPlacementKinds = Arr (map Str (mp_allowedPlacementKinds p)),
      in_mp_allowedExecutorClasses = Arr (map Str (mp_allowedExecutorClasses p)),
      in_mp_allowedDestinationClasses = Arr (map Str (mp_allowedDestinationClasses p)),
      in_mp_canonicalHash = Str (mp_canonicalHash p), in_mp_publishedAt = Str (mp_publishedAt p)\<rparr>"

definition parseCurrentPolicy :: "env \<Rightarrow> mode_policy \<Rightarrow> mode_policy option" where
  "parseCurrentPolicy E p =
     (case createDataModePolicyVersionV1 E (policy_value p) of Inl e \<Rightarrow> None | Inr q \<Rightarrow> Some q)"

definition currentPolicy :: "env \<Rightarrow> policy_authority \<Rightarrow> tenant_scope \<Rightarrow> (mode_policy \<times> int) option" where
  "currentPolicy E authority scope =
     (case workspace_of scope of
        None \<Rightarrow> None
      | Some ws \<Rightarrow>
          Option.bind (authority (organizationId scope) ws) (\<lambda>(policy, epochValue).
          Option.bind (safe_integer_from 0 epochValue) (\<lambda>epoch.
          map_option (\<lambda>q. (q, epoch)) (parseCurrentPolicy E policy))))"

record create_route_input =
  in_cr_routeId :: jsval
  in_cr_decisionId :: jsval
  in_cr_revision :: jsval
  in_cr_subject :: route_subject_input
  in_cr_expiresAt :: jsval

text \<open>A subject as the input it is parsed from again.\<close>

fun target_values :: "route_target \<Rightarrow> jsval \<times> jsval" where
  "target_values (Cloud_target e g) = (Str (js ''CLOUD''), Undefined)"
| "target_values (Device_target d e g) = (Str (js ''DEVICE''), Str d)"

definition constraint_value :: "route_constraint \<Rightarrow> jsval" where
  "constraint_value c = Obj
     [(js ''constraintId'', Str (nc_constraintId c)), (js ''constraintHash'', Str (nc_constraintHash c)),
      (js ''allowedClassifications'', Arr (map (\<lambda>x. Str (js (classification_text x))) (nc_allowedClassifications c))),
      (js ''allowedPayloadClasses'', payload_array (nc_allowedPayloadClasses c)),
      (js ''allowedPlacementKinds'', Arr (map Str (nc_allowedPlacementKinds c))),
      (js ''allowedExecutorClasses'', Arr (map Str (nc_allowedExecutorClasses c)))]"

definition subject_value :: "route_subject \<Rightarrow> route_subject_input" where
  "subject_value s =
     \<lparr>in_rs_tenantScope = scope_object (rs_tenantScope s),
      in_rs_artifactVersionId = Str (rt_artifactVersionId (rs_input s)),
      in_rs_artifactVersionHash = rt_artifactVersionHash (rs_input s),
      in_rs_placementId = Str (rt_placementId (rs_input s)), in_rs_placementHash = rt_placementHash (rs_input s),
      in_rs_dataMode = Str (js (mode_text (rt_dataMode (rs_input s)))),
      in_rs_classification = Str (js (classification_text (rt_classification (rs_input s)))),
      in_rs_payloadClass = Str (js (payload_text (rt_payloadClass (rs_input s)))),
      in_rs_placementKind = rt_placementKind (rs_input s),
      in_rs_placementAvailable = Bool (rt_placementAvailable (rs_input s)),
      in_rs_type = rt_type (rs_action s), in_rs_version = int_num (rt_version (rs_action s)),
      in_rs_requiredCapabilities = Arr (map Str (rt_requiredCapabilities (rs_action s))),
      in_rs_target = fst (target_values (rs_target s)), in_rs_targetDeviceId = snd (target_values (rs_target s)),
      in_rs_executorClass = Str (target_executorClass (rs_target s)),
      in_rs_grantedCapabilities = Arr (map Str (target_grantedCapabilities (rs_target s))),
      in_rs_narrowingConstraints = Arr (map constraint_value (rs_narrowingConstraints s)),
      in_rs_authorizationEpoch = int_num (rs_authorizationEpoch s)\<rparr>"

fun route_thrown_code :: "route_throw \<Rightarrow> route_error" where
  "route_thrown_code Throw_IMMUTABLE_DECISION = Route_IMMUTABLE_ROUTE_DECISION"
| "route_thrown_code Throw_REVISION_CONFLICT = Route_PERSISTENCE_UNAVAILABLE"

text \<open>What \<open>createDecision\<close> decides before it saves.\<close>

definition decide_route ::
    "env \<Rightarrow> (jsstr \<Rightarrow> jsstr) \<Rightarrow> policy_authority \<Rightarrow> jsstr \<Rightarrow> tenant_ctx \<Rightarrow> create_route_input
     \<Rightarrow> route_error + route_decision" where
  "decide_route E digest authority now ctx i =
     and_then (createExecutionRouteSubjectV1 E (in_cr_subject i)) (\<lambda>subject.
     reject_if (\<not> tenantScopesEqualV1 (ctx_tenantScope ctx) (rs_tenantScope subject)) Route_SCOPE_MISMATCH (
     reject_if (ctx_authorizationEpoch ctx \<noteq> rs_authorizationEpoch subject
                \<or> scopeType (ctx_tenantScope ctx) = Organization_type) Route_AUTHORIZATION_EPOCH_STALE (
     require Route_DATA_MODE_POLICY_UNAVAILABLE (currentPolicy E authority (ctx_tenantScope ctx)) (\<lambda>(policy, epoch).
     reject_if (epoch \<noteq> ctx_authorizationEpoch ctx) Route_AUTHORIZATION_EPOCH_STALE (
     reject_if (\<not> policyAllows subject policy) Route_ROUTE_NOT_ALLOWED (
     createExecutionRouteDecisionV1 E digest
       \<lparr>in_rd_routeId = in_cr_routeId i, in_rd_decisionId = in_cr_decisionId i,
        in_rd_revision = in_cr_revision i, in_rd_subject = subject_value subject, in_rd_policy = policy,
        in_rd_createdAt = Str now, in_rd_expiresAt = in_cr_expiresAt i\<rparr>))))))"

definition createDecision ::
    "env \<Rightarrow> (jsstr \<Rightarrow> jsstr) \<Rightarrow> policy_authority \<Rightarrow> jsstr \<Rightarrow> tenant_ctx \<Rightarrow> create_route_input \<Rightarrow> route_store
     \<Rightarrow> (route_error + route_decision) \<times> route_store" where
  "createDecision E digest authority now ctx i st =
     (case decide_route E digest authority now ctx i of
        Inl e \<Rightarrow> (rejected e, st)
      | Inr d \<Rightarrow>
          (case saveDecisionRecord d st of
             Inl e \<Rightarrow> (rejected (route_thrown_code e), st)
           | Inr st' \<Rightarrow> (accepted d, st')))"

record authorize_route_input =
  in_ar_tenantScope :: tenant_scope
  in_ar_decisionId :: jsval
  in_ar_subject :: route_subject_input
  in_ar_expectedDecisionSubjectHash :: jsstr
  in_ar_currentAuthorizationEpoch :: jsval

definition authorizeRoute ::
    "env \<Rightarrow> (jsstr \<Rightarrow> jsstr) \<Rightarrow> policy_authority \<Rightarrow> jsstr \<Rightarrow> authorize_route_input \<Rightarrow> route_store
     \<Rightarrow> route_error + route_decision" where
  "authorizeRoute E digest authority now i st =
     require Route_ROUTE_NOT_FOUND (stable E (in_ar_decisionId i)) (\<lambda>k.
     require Route_ROUTE_NOT_FOUND (findExact (in_ar_tenantScope i) k st) (\<lambda>d.
     require Route_ROUTE_SUBJECT_MISMATCH
       (case createExecutionRouteSubjectV1 E (in_ar_subject i) of Inl e \<Rightarrow> None | Inr s \<Rightarrow> Some s) (\<lambda>subject.
     reject_if (\<not> tenantScopesEqualV1 (rs_tenantScope subject) (in_ar_tenantScope i)) Route_ROUTE_SUBJECT_MISMATCH (
     reject_if (\<not> sha256_text (in_ar_expectedDecisionSubjectHash i)
                \<or> in_ar_expectedDecisionSubjectHash i \<noteq> rd_subjectHash d
                \<or> executionRouteDecisionSubjectHashV1 digest subject \<noteq> rd_subjectHash d
                \<or> stringify (canonicalSubject subject) \<noteq> stringify (canonicalSubject (rd_subject d)))
       Route_ROUTE_SUBJECT_MISMATCH (
     reject_if (safe_integer (in_ar_currentAuthorizationEpoch i) \<noteq> Some (rs_authorizationEpoch (rd_subject d)))
       Route_AUTHORIZATION_EPOCH_STALE (
     reject_if (date_le (Date_parse E (rd_expiresAt d)) (Date_parse E now)) Route_ROUTE_EXPIRED (
     require Route_DATA_MODE_POLICY_UNAVAILABLE (currentPolicy E authority (in_ar_tenantScope i)) (\<lambda>(policy, epoch).
     reject_if (epoch \<noteq> rs_authorizationEpoch (rd_subject d)) Route_AUTHORIZATION_EPOCH_STALE (
     reject_if (mp_policyId policy \<noteq> rd_policyId d \<or> mp_policyVersionId policy \<noteq> rd_policyVersionId d
                \<or> mp_revision policy \<noteq> rd_policyRevision d \<or> mp_canonicalHash policy \<noteq> rd_policyHash d)
       Route_DATA_MODE_POLICY_STALE (
     reject_if (\<not> policyAllows subject policy) Route_ROUTE_NOT_ALLOWED (
     accepted d)))))))))))"

section \<open>Facts\<close>

lemma classification_text_inject [simp]: "classification_text a = classification_text b \<longleftrightarrow> a = b"
  by (cases a; cases b) simp_all

lemma payload_text_inject [simp]: "payload_text a = payload_text b \<longleftrightarrow> a = b"
  by (cases a; cases b) simp_all

lemma label_array_inject [simp]: "label_array a = label_array b \<longleftrightarrow> a = b"
  by (simp add: label_array_def inj_map_eq_map inj_def)

lemma artifact_json_inject [simp]: "artifact_json a = artifact_json b \<longleftrightarrow> a = b"
  by (cases a; cases b) (auto simp: artifact_json_def)

lemma action_json_inject [simp]: "action_json a = action_json b \<longleftrightarrow> a = b"
  by (cases a; cases b) (auto simp: action_json_def)

lemma target_json_inject [simp]: "target_json a = target_json b \<longleftrightarrow> a = b"
  by (cases a; cases b) auto

lemma constraint_json_inject [simp]: "constraint_json a = constraint_json b \<longleftrightarrow> a = b"
  by (cases a; cases b) (auto simp: constraint_json_def inj_map_eq_map inj_def)

lemma canonicalSubject_inject [simp]: "canonicalSubject a = canonicalSubject b \<longleftrightarrow> a = b"
  by (cases a; cases b)
     (auto simp: canonicalSubject_def scope_json_inject inj_map_eq_map inj_def)

section \<open>Parsing again\<close>

text \<open>The documented behaviour of the normalization on the labels: ASCII is its own normal form.\<close>

definition nfc_keeps_labels :: "env \<Rightarrow> bool" where
  "nfc_keeps_labels E \<longleftrightarrow> (\<forall>s. safe_label s \<longrightarrow> nfc E s = s)"

lemma safe_label_trim:
  assumes "safe_label s"
  shows "trim s = s"
proof -
  have unit: "\<not> whitespace c"
    if "upper_case c \<or> lower c \<or> digit c \<or> c \<in> set (js ''._:-'')" for c :: "16 word"
    using that by (auto simp: whitespace_def upper_case_def lower_def digit_def in_range_def js_def)
  obtain c t where s: "s = c # t" using assms by (cases s) (auto simp: safe_label_def)
  then have "list_all (\<lambda>c. \<not> whitespace c) s"
    using assms unit by (auto simp: safe_label_def list_all_iff)
  then show ?thesis by (rule trim_id)
qed

lemma parse_strings [simp]: "parse_all as_string (map Str xs) = Some xs"
  by (induction xs) simp_all

lemma safeList_value:
  assumes "nfc_keeps_labels E" "list_all safe_label xs" "sorted xs" "distinct xs" "length xs \<le> m"
  shows "safeList E (Arr (map Str xs)) m = Some xs"
proof -
  have "map (\<lambda>s. trim (nfc E s)) xs = xs"
    using assms(1,2) by (induction xs) (simp_all add: nfc_keeps_labels_def safe_label_trim)
  with assms show ?thesis by (simp add: safeList_def Let_def dedup_id sorted_sort_id)
qed

lemma safeList_shape:
  assumes "safeList E v m = Some xs"
  shows "list_all safe_label xs" "sorted xs" "distinct xs" "length xs \<le> m"
proof -
  obtain vs texts where v: "v = Arr vs" "length vs \<le> m" "parse_all as_string vs = Some texts"
    "list_all safe_label (map (\<lambda>s. trim (nfc E s)) texts)" "xs = sort (dedup (map (\<lambda>s. trim (nfc E s)) texts))"
    using assms by (auto simp: safeList_def Let_def split: jsval.splits if_splits option.splits)
  then show "list_all safe_label xs" "sorted xs" "distinct xs"
    by (auto simp: list_all_iff)
  have "length xs \<le> length texts" using v(5) length_dedup [of "map (\<lambda>s. trim (nfc E s)) texts"] by simp
  moreover have "length texts = length vs" using v(3) by (rule length_parse_all)
  ultimately show "length xs \<le> m" using v(2) by simp
qed

lemma safeList_again:
  assumes "nfc_keeps_labels E" "safeList E v m = Some xs"
  shows "safeList E (Arr (map Str xs)) m = Some xs"
  using safeList_value [OF assms(1)] safeList_shape [OF assms(2)] by blast

lemma parse_names:
  assumes "\<And>x. one_of table (Str (js (name x))) = Some x"
  shows "parse_all (one_of table) (map (\<lambda>x. Str (js (name x))) xs) = Some xs"
  using assms by (induction xs) simp_all

lemma one_of_classification: "one_of classification_names (Str (js (classification_text c))) = Some c"
  by (cases c) (simp_all add: classification_names_def)

lemma one_of_payload: "one_of sync_payloads (Str (js (payload_text p))) = Some p"
  by (cases p) (simp_all add: sync_payloads_def)

lemma name_of_classification: "map_of classification_names (classification_text c) = Some c"
  by (cases c) (simp_all add: classification_names_def)

lemma name_of_payload: "map_of sync_payloads (payload_text p) = Some p"
  by (cases p) (simp_all add: sync_payloads_def)

lemma sort_key_again: "sort_key f (dedup (sort_key f (dedup xs))) = sort_key f (dedup xs)"
  by (simp add: dedup_id sort_key_id_if_sorted)

lemma classifications_again:
  "route_classifications v = Some cs
   \<Longrightarrow> route_classifications (Arr (map (\<lambda>x. Str (js (classification_text x))) cs)) = Some cs"
  by (auto simp: route_classifications_def parse_names [OF one_of_classification] sort_key_again split: jsval.splits)

lemma payloads_again:
  "route_payloadClasses v = Some ps \<Longrightarrow> route_payloadClasses (payload_array ps) = Some ps"
  by (auto simp: route_payloadClasses_def payload_array_def parse_names [OF one_of_payload] sort_key_again
      split: jsval.splits)

lemma sha256_again: "sha256_hex v = Some s \<Longrightarrow> sha256_hex (Str s) = Some s"
  by (simp add: sha256_hex_Some)

lemma constraint_again:
  assumes "nfc_keeps_labels E" "uuid_format_documented E" "route_constraint_of E v = Some c"
  shows "route_constraint_of E (constraint_value c) = Some c"
  using assms(3)
  by (auto simp: route_constraint_of_def constraint_value_def bind_eq_Some_conv
      identifierFrom_Str [OF assms(2) identifierFrom_form] classifications_again payloads_again sha256_again
      safeList_again [OF assms(1)] split: if_splits)

lemma collected_constraints:
  assumes "collect_constraints E seen vs = Some cs"
    and "\<forall>c \<in> set seen. \<exists>v. route_constraint_of E v = Some c" "distinct (map nc_constraintId seen)"
  shows "(\<forall>c \<in> set cs. \<exists>v. route_constraint_of E v = Some c) \<and> distinct (map nc_constraintId cs)
    \<and> length cs = length seen + length vs"
  using assms
  by (induction E seen vs rule: collect_constraints.induct) (auto split: option.splits if_splits)

lemma collect_again:
  assumes "\<And>c. c \<in> set cs \<Longrightarrow> route_constraint_of E (constraint_value c) = Some c"
    and "distinct (map nc_constraintId (seen @ cs))"
  shows "collect_constraints E seen (map constraint_value cs) = Some (seen @ cs)"
  using assms by (induction cs arbitrary: seen) auto

lemma constraints_again:
  assumes "nfc_keeps_labels E" "uuid_format_documented E" "constraints E v = Some cs"
  shows "constraints E (Arr (map constraint_value cs)) = Some cs"
proof -
  obtain vs where vs: "length vs \<le> 32"
    "map_option (sort_key (\<lambda>c. collation E (nc_constraintId c))) (collect_constraints E [] vs) = Some cs"
    using assms(3) by (simp add: constraints_def not_less del: map_option_eq_Some split: jsval.splits if_splits)
  then obtain ds where v: "length vs \<le> 32" "collect_constraints E [] vs = Some ds"
    "cs = sort_key (\<lambda>c. collation E (nc_constraintId c)) ds"
    by blast
  have ds: "\<forall>c \<in> set ds. \<exists>v. route_constraint_of E v = Some c" "distinct (map nc_constraintId ds)"
    "length ds = length vs"
    using collected_constraints [OF v(2)] by auto
  have "collect_constraints E [] (map constraint_value cs) = Some ([] @ cs)"
  proof (rule collect_again)
    show "distinct (map nc_constraintId ([] @ cs))" using ds(2) v(3) by (simp add: distinct_map)
    show "route_constraint_of E (constraint_value c) = Some c" if "c \<in> set cs" for c
      using that ds(1) v(3) constraint_again [OF assms(1,2)] by auto
  qed
  then show ?thesis using v(1,3) ds(3) by (simp add: constraints_def sort_key_id_if_sorted)
qed

lemma first_label_again:
  assumes "nfc_keeps_labels E" "first_label E v = Some s"
  shows "first_label E (Str s) = Some s"
proof -
  obtain xs where xs: "safeList E (Arr [v]) 1 = Some (s # xs)"
    using assms(2) by (auto simp: first_label_def split: option.splits list.splits)
  have "xs = []" using safeList_shape(4) [OF xs] by simp
  with safeList_again [OF assms(1) xs] show ?thesis by (simp add: first_label_def)
qed

lemma target_again:
  assumes "uuid_format_documented E" "route_target_of E i e g = Some t"
    and "in_rs_target j = fst (target_values t)" "in_rs_targetDeviceId j = snd (target_values t)"
  shows "route_target_of E j e g = Some t" "target_executorClass t = e" "target_grantedCapabilities t = g"
  using assms identifierFrom_Str [OF assms(1) identifierFrom_form]
  by (auto simp: route_target_of_def split: if_splits)

lemma safe_integer_again: "safe_integer_from n v = Some k \<Longrightarrow> safe_integer_from n (int_num k) = Some k"
  by (auto simp: safe_integer_from_Some dest: safe_integer_bounds)

lemma parsed_subject:
  assumes "createExecutionRouteSubjectV1 E i = Inr s"
  shows "scope_value E (in_rs_tenantScope i) = Some (rs_tenantScope s)"
    "scopeType (rs_tenantScope s) \<noteq> Organization_type"
    "stable E (in_rs_artifactVersionId i) = Some (rt_artifactVersionId (rs_input s))"
    "stable E (in_rs_placementId i) = Some (rt_placementId (rs_input s))"
    "sha256_text (rt_artifactVersionHash (rs_input s))" "sha256_text (rt_placementHash (rs_input s))"
    "safe_label (rt_placementKind (rs_input s))" "action_type (rt_type (rs_action s))"
    "safe_integer_from 1 (in_rs_version i) = Some (rt_version (rs_action s))"
    "safeList E (in_rs_requiredCapabilities i) 64 = Some (rt_requiredCapabilities (rs_action s))"
    "first_label E (in_rs_executorClass i) = Some (target_executorClass (rs_target s))"
    "safeList E (in_rs_grantedCapabilities i) 64 = Some (target_grantedCapabilities (rs_target s))"
    "constraints E (in_rs_narrowingConstraints i) = Some (rs_narrowingConstraints s)"
    "safe_integer_from 0 (in_rs_authorizationEpoch i) = Some (rs_authorizationEpoch s)"
    "route_target_of E i (target_executorClass (rs_target s)) (target_grantedCapabilities (rs_target s))
     = Some (rs_target s)"
  using assms by (auto simp: createExecutionRouteSubjectV1_def result_simps route_target_of_def split: if_splits)

lemma subject_again:
  assumes "nfc_keeps_labels E" "uuid_format_documented E" "createExecutionRouteSubjectV1 E i = Inr s"
  shows "createExecutionRouteSubjectV1 E (subject_value s) = Inr s"
proof -
  note parts = parsed_subject [OF assms(3)]
  note labels = parts(10,12) [THEN safeList_again [OF assms(1)]] first_label_again [OF assms(1) parts(11)]
  note ids = parts(3,4) [THEN identifierFrom_form, THEN identifierFrom_Str [OF assms(2)]]
  note numbers = parts(9,14) [THEN safe_integer_again]
  have "route_target_of E (subject_value s) (target_executorClass (rs_target s))
      (target_grantedCapabilities (rs_target s)) = Some (rs_target s)"
    by (rule target_again(1) [OF assms(2) parts(15)]) (simp_all add: subject_value_def)
  moreover have "scope_value E (scope_object (rs_tenantScope s)) = Some (rs_tenantScope s)"
    using parse_scope_object [OF assms(2) scope_value_wf [OF parts(1)]] by (simp add: scope_value_def)
  ultimately show ?thesis
    using parts(2,5,6,7,8)
    by (simp add: createExecutionRouteSubjectV1_def result_simps subject_value_def labels ids numbers
        name_of_classification name_of_payload constraints_again [OF assms(1,2) parts(13)]
        route_subject.equality route_artifact.equality route_action.equality)
qed

section \<open>Histories\<close>

text \<open>What becomes of a repository: decisions are created one after the other, under any context and clock.\<close>

inductive route_step :: "env \<Rightarrow> (jsstr \<Rightarrow> jsstr) \<Rightarrow> route_store \<Rightarrow> route_store \<Rightarrow> bool" for E digest where
  route_step: "route_step E digest st (snd (createDecision E digest authority now ctx i st))"

lemma decide_route_accepted:
  assumes "decide_route E digest authority now ctx i = Inr d"
  obtains subject policy where
    "createExecutionRouteSubjectV1 E (in_cr_subject i) = Inr subject"
    "ctx_tenantScope ctx = rs_tenantScope subject" "ctx_authorizationEpoch ctx = rs_authorizationEpoch subject"
    "currentPolicy E authority (rs_tenantScope subject) = Some (policy, rs_authorizationEpoch subject)"
    "policyAllows subject policy"
    "createExecutionRouteDecisionV1 E digest
       \<lparr>in_rd_routeId = in_cr_routeId i, in_rd_decisionId = in_cr_decisionId i,
        in_rd_revision = in_cr_revision i, in_rd_subject = subject_value subject, in_rd_policy = policy,
        in_rd_createdAt = Str now, in_rd_expiresAt = in_cr_expiresAt i\<rparr> = Inr d"
  using assms by (auto simp: decide_route_def result_simps)

lemma createDecision_accepted:
  "createDecision E digest authority now ctx i st = (Inr d, st')
   \<longleftrightarrow> decide_route E digest authority now ctx i = Inr d \<and> saveDecisionRecord d st = Inr st'"
  by (auto simp: createDecision_def split: sum.splits)

lemma createDecision_rejected:
  assumes "createDecision E digest authority now ctx i st = (Inl e, st')"
  shows "st' = st"
  using assms by (auto simp: createDecision_def split: sum.splits)

lemma save_decision:
  assumes "saveDecisionRecord d st = Inr st'"
  shows "map_of st' = (map_of st)(rd_decisionId d \<mapsto> d)"
    "map_of st (rd_decisionId d) = None \<or> map_of st (rd_decisionId d) = Some d"
  using assms
  by (auto simp: saveDecisionRecord_def update_conv' map_upd_triv fun_upd_idem split: option.splits if_splits)

lemma route_step_cases:
  assumes "route_step E digest st st'"
  obtains (same) "st' = st"
    | (created) authority now ctx i d where "createDecision E digest authority now ctx i st = (Inr d, st')"
  using assms
proof cases
  case (route_step authority now ctx i)
  then show thesis
    using that createDecision_rejected
    by (cases "fst (createDecision E digest authority now ctx i st)") (metis prod.collapse)+
qed

definition decided_route :: "env \<Rightarrow> (jsstr \<Rightarrow> jsstr) \<Rightarrow> stable_id \<Rightarrow> route_decision \<Rightarrow> bool" where
  "decided_route E digest k d \<longleftrightarrow>
     rd_decisionId d = k \<and> (\<exists>authority now ctx i. decide_route E digest authority now ctx i = Inr d)"

interpretation decisions: immutable_store "route_step E digest" map_of "decided_route E digest" for E digest
proof
  fix st st'
  assume "route_step E digest st st'"
  then show "map_of st' = map_of st
      \<or> (\<exists>k d. (map_of st k = None \<or> map_of st k = Some d) \<and> decided_route E digest k d
            \<and> map_of st' = (map_of st)(k \<mapsto> d))"
  proof (cases rule: route_step_cases)
    case (created authority now ctx i d)
    then have d: "decide_route E digest authority now ctx i = Inr d" and saved: "saveDecisionRecord d st = Inr st'"
      by (simp_all add: createDecision_accepted)
    then have "decided_route E digest (rd_decisionId d) d" unfolding decided_route_def by blast
    with save_decision [OF saved] show ?thesis by blast
  qed simp
qed

lemma findExact_Some:
  "findExact scope k st = Some d \<longleftrightarrow> map_of st k = Some d \<and> rs_tenantScope (rd_subject d) = scope"
  by (auto simp: findExact_def split: option.splits)

lemma policy_version_form:
  "createDataModePolicyVersionV1 E i = Inr p \<Longrightarrow> stable_form (mp_policyId p) \<and> stable_form (mp_policyVersionId p)"
  by (auto simp: createDataModePolicyVersionV1_def result_simps dest: identifierFrom_form)

lemma current_policy_form:
  assumes "currentPolicy E authority scope = Some (p, epoch)"
  shows "stable_form (mp_policyId p)" "stable_form (mp_policyVersionId p)"
proof -
  obtain q where "parseCurrentPolicy E q = Some p"
    using assms by (auto simp: currentPolicy_def bind_eq_Some_conv split: option.splits)
  then have "createDataModePolicyVersionV1 E (policy_value q) = Inr p"
    by (simp add: parseCurrentPolicy_def split: sum.splits)
  then show "stable_form (mp_policyId p)" "stable_form (mp_policyVersionId p)"
    using policy_version_form by blast+
qed

lemma decision_fields:
  assumes "createExecutionRouteDecisionV1 E digest i = Inr d"
  shows "createExecutionRouteSubjectV1 E (in_rd_subject i) = Inr (rd_subject d)"
    "rd_subjectHash d = executionRouteDecisionSubjectHashV1 digest (rd_subject d)"
    "stable E (in_rd_decisionId i) = Some (rd_decisionId d)"
    "stable E (Str (mp_policyId (in_rd_policy i))) = Some (rd_policyId d)"
    "stable E (Str (mp_policyVersionId (in_rd_policy i))) = Some (rd_policyVersionId d)"
    "rd_policyRevision d = mp_revision (in_rd_policy i)" "rd_policyHash d = mp_canonicalHash (in_rd_policy i)"
    "date_le (Date_parse E (rd_expiresAt d)) (Date_parse E (rd_createdAt d)) = False"
  using assms by (auto simp: createExecutionRouteDecisionV1_def result_simps safe_integer_from_Some split: if_splits)

text \<open>What a created decision records, under the documented behaviour of the environment.\<close>

lemma created_route:
  assumes "nfc_keeps_labels E" "uuid_format_documented E" "decide_route E digest authority now ctx i = Inr d"
  obtains policy where
    "createExecutionRouteSubjectV1 E (in_cr_subject i) = Inr (rd_subject d)"
    "ctx_tenantScope ctx = rs_tenantScope (rd_subject d)"
    "ctx_authorizationEpoch ctx = rs_authorizationEpoch (rd_subject d)"
    "currentPolicy E authority (rs_tenantScope (rd_subject d)) = Some (policy, rs_authorizationEpoch (rd_subject d))"
    "policyAllows (rd_subject d) policy"
    "rd_policyId d = mp_policyId policy" "rd_policyVersionId d = mp_policyVersionId policy"
    "rd_policyRevision d = mp_revision policy" "rd_policyHash d = mp_canonicalHash policy"
    "rd_subjectHash d = executionRouteDecisionSubjectHashV1 digest (rd_subject d)"
    "stable E (in_cr_decisionId i) = Some (rd_decisionId d)"
proof -
  obtain subject policy where c:
    "createExecutionRouteSubjectV1 E (in_cr_subject i) = Inr subject"
    "ctx_tenantScope ctx = rs_tenantScope subject" "ctx_authorizationEpoch ctx = rs_authorizationEpoch subject"
    "currentPolicy E authority (rs_tenantScope subject) = Some (policy, rs_authorizationEpoch subject)"
    "policyAllows subject policy"
    and d: "createExecutionRouteDecisionV1 E digest
            \<lparr>in_rd_routeId = in_cr_routeId i, in_rd_decisionId = in_cr_decisionId i,
             in_rd_revision = in_cr_revision i, in_rd_subject = subject_value subject, in_rd_policy = policy,
             in_rd_createdAt = Str now, in_rd_expiresAt = in_cr_expiresAt i\<rparr> = Inr d"
    by (rule decide_route_accepted [OF assms(3)])
  note f = decision_fields [OF d, simplified]
  have subject: "rd_subject d = subject"
    using f(1) subject_again [OF assms(1,2) c(1)] by simp
  have ids: "rd_policyId d = mp_policyId policy" "rd_policyVersionId d = mp_policyVersionId policy"
    using f(4,5) current_policy_form [OF c(4), THEN identifierFrom_Str [OF assms(2)]] by simp_all
  show thesis using that c f(2,3,6,7) ids unfolding subject [symmetric] by blast
qed

section \<open>Authorizing\<close>

lemma authorizeRoute_accepted:
  assumes "authorizeRoute E digest authority now i st = Inr d"
  obtains k p where
    "stable E (in_ar_decisionId i) = Some k" "map_of st k = Some d"
    "rs_tenantScope (rd_subject d) = in_ar_tenantScope i"
    "createExecutionRouteSubjectV1 E (in_ar_subject i) = Inr (rd_subject d)"
    "in_ar_expectedDecisionSubjectHash i = rd_subjectHash d"
    "safe_integer (in_ar_currentAuthorizationEpoch i) = Some (rs_authorizationEpoch (rd_subject d))"
    "\<not> date_le (Date_parse E (rd_expiresAt d)) (Date_parse E now)"
    "currentPolicy E authority (in_ar_tenantScope i) = Some (p, rs_authorizationEpoch (rd_subject d))"
    "mp_policyId p = rd_policyId d" "mp_policyVersionId p = rd_policyVersionId d"
    "mp_revision p = rd_policyRevision d" "mp_canonicalHash p = rd_policyHash d"
    "policyAllows (rd_subject d) p"
  using assms
  by (auto simp: authorizeRoute_def result_simps findExact_Some stringify_inject split: sum.splits prod.splits)

section \<open>Narrowing\<close>

lemma published_under_organization: "published_under E parent child \<Longrightarrow> mp_organizationId child = mp_organizationId parent"
proof (induction rule: published_under.induct)
  case (published_under ctx i k st child st' parent)
  have "mp_organizationId child = organizationId (ctx_tenantScope ctx)"
    using published_under(1) publish_accepted(1) [OF published_under(1)]
    by (simp add: publish_def split: if_splits)
  moreover have "visible (ctx_tenantScope ctx) (policyScope parent)"
    using published_under(3) by (auto simp: findPolicyVersion_def split: option.splits if_splits)
  ultimately show ?case
    by (cases "ctx_tenantScope ctx") (auto simp: policyScope_def visible_def)
qed

lemma policyAllows_mono:
  assumes "policyAllows s p" "permits_no_more p q" "mp_organizationId p = mp_organizationId q"
    and "set cs \<subseteq> set (rs_narrowingConstraints s)"
  shows "policyAllows (s\<lparr>rs_narrowingConstraints := cs\<rparr>) q"
proof -
  have "mp_mode p \<noteq> DataMode_LOCAL \<Longrightarrow> mp_mode q \<noteq> DataMode_LOCAL"
    using assms(2) by (cases "mp_mode p"; cases "mp_mode q") (simp_all add: permits_no_more_def)
  with assms show ?thesis
    by (auto simp: policyAllows_def permits_no_more_def list_ex_iff subset_iff
        split: if_splits route_target.splits)
qed

text \<open>
  Narrowing is safe for routes: what a subject may do under a policy version that was published,
  step by step, under an origin, it may do under the origin as well, and it may still do it when some
  of its narrowing constraints are dropped. Publishing a child and adding a constraint only ever remove
  routes.
\<close>

theorem routes_only_narrow:
  assumes "(published_under E)\<^sup>*\<^sup>* origin p" "policyAllows s p"
    and "set cs \<subseteq> set (rs_narrowingConstraints s)"
  shows "policyAllows (s\<lparr>rs_narrowingConstraints := cs\<rparr>) origin"
proof -
  have "permits_no_more p origin \<and> mp_organizationId p = mp_organizationId origin"
    using assms(1)
    by (induction rule: rtranclp_induct)
       (auto dest: published_under_narrows published_under_organization intro: permits_no_more_trans)
  with policyAllows_mono assms(2,3) show ?thesis by blast
qed

section \<open>Properties\<close>

text \<open>
  C26: No route is authorized that was not decided. In every history of the repository, when
  \<open>authorizeRoute\<close> accepts, the decision it returns was created earlier, for the subject that is
  presented now, under a policy that allowed it and whose identifiers, revision and hash it records; that
  same policy version is still the current one of the workspace, it still allows the subject, the
  authorization epoch is the one the decision was made in, and the decision has not expired. The digest
  may collide: the canonical texts are compared as well.
\<close>

theorem authorized_routes:
  assumes "nfc_keeps_labels E" "uuid_format_documented E"
    and "(route_step E digest)\<^sup>*\<^sup>* [] st"
    and "authorizeRoute E digest authority now i st = Inr d"
  shows "(\<exists>authority' now' ctx c policy.
            decide_route E digest authority' now' ctx c = Inr d
            \<and> ctx_tenantScope ctx = in_ar_tenantScope i
            \<and> currentPolicy E authority' (in_ar_tenantScope i) = Some (policy, rs_authorizationEpoch (rd_subject d))
            \<and> policyAllows (rd_subject d) policy
            \<and> mp_policyVersionId policy = rd_policyVersionId d \<and> mp_canonicalHash policy = rd_policyHash d)
     \<and> createExecutionRouteSubjectV1 E (in_ar_subject i) = Inr (rd_subject d)
     \<and> rs_tenantScope (rd_subject d) = in_ar_tenantScope i
     \<and> safe_integer (in_ar_currentAuthorizationEpoch i) = Some (rs_authorizationEpoch (rd_subject d))
     \<and> \<not> date_le (Date_parse E (rd_expiresAt d)) (Date_parse E now)
     \<and> (\<exists>policy. currentPolicy E authority (in_ar_tenantScope i) = Some (policy, rs_authorizationEpoch (rd_subject d))
            \<and> policyAllows (rd_subject d) policy
            \<and> mp_policyVersionId policy = rd_policyVersionId d \<and> mp_revision policy = rd_policyRevision d
            \<and> mp_canonicalHash policy = rd_policyHash d)"
proof -
  from authorizeRoute_accepted [OF assms(4)] obtain k p where a:
    "map_of st k = Some d" "rs_tenantScope (rd_subject d) = in_ar_tenantScope i"
    "createExecutionRouteSubjectV1 E (in_ar_subject i) = Inr (rd_subject d)"
    "safe_integer (in_ar_currentAuthorizationEpoch i) = Some (rs_authorizationEpoch (rd_subject d))"
    "\<not> date_le (Date_parse E (rd_expiresAt d)) (Date_parse E now)"
    "currentPolicy E authority (in_ar_tenantScope i) = Some (p, rs_authorizationEpoch (rd_subject d))"
    "policyAllows (rd_subject d) p" "mp_policyVersionId p = rd_policyVersionId d"
    "mp_revision p = rd_policyRevision d" "mp_canonicalHash p = rd_policyHash d"
    by metis
  obtain authority' now' ctx c where c: "decide_route E digest authority' now' ctx c = Inr d"
    using decisions.history_made [OF assms(3) a(1)] by (auto simp: decided_route_def)
  with created_route [OF assms(1,2) c] a show ?thesis by metis
qed

text \<open>
  C27: A created decision can be used. As long as the current policy and the epoch of the workspace stay
  what they were, and before it expires, a decision that \<open>createDecision\<close> returned is authorized
  for the very subject it was requested for, whatever decisions were created in between; SHA-256 texts
  are 64 lower case hexadecimal digits.
\<close>

theorem created_route_authorized:
  assumes "nfc_keeps_labels E" "uuid_format_documented E" "\<forall>s. sha256_text (digest s)"
    and "createDecision E digest authority now ctx c st = (Inr d, st')"
    and "(route_step E digest)\<^sup>*\<^sup>* st' st''"
    and "currentPolicy E authority' (ctx_tenantScope ctx) = currentPolicy E authority (ctx_tenantScope ctx)"
    and "\<not> date_le (Date_parse E (rd_expiresAt d)) (Date_parse E now')"
  shows "authorizeRoute E digest authority' now'
           \<lparr>in_ar_tenantScope = ctx_tenantScope ctx, in_ar_decisionId = in_cr_decisionId c,
            in_ar_subject = in_cr_subject c, in_ar_expectedDecisionSubjectHash = rd_subjectHash d,
            in_ar_currentAuthorizationEpoch = int_num (ctx_authorizationEpoch ctx)\<rparr> st'' = Inr d"
proof -
  have c: "decide_route E digest authority now ctx c = Inr d" and saved: "saveDecisionRecord d st = Inr st'"
    using assms(4) by (simp_all add: createDecision_accepted)
  have stored: "map_of st'' (rd_decisionId d) = Some d"
    using decisions.history_kept [OF assms(5)] save_decision(1) [OF saved] by simp
  show ?thesis
  proof (rule created_route [OF assms(1,2) c])
    fix policy
    assume p: "createExecutionRouteSubjectV1 E (in_cr_subject c) = Inr (rd_subject d)"
      "ctx_tenantScope ctx = rs_tenantScope (rd_subject d)"
      "ctx_authorizationEpoch ctx = rs_authorizationEpoch (rd_subject d)"
      "currentPolicy E authority (rs_tenantScope (rd_subject d)) = Some (policy, rs_authorizationEpoch (rd_subject d))"
      "policyAllows (rd_subject d) policy"
      "rd_policyId d = mp_policyId policy" "rd_policyVersionId d = mp_policyVersionId policy"
      "rd_policyRevision d = mp_revision policy" "rd_policyHash d = mp_canonicalHash policy"
      "rd_subjectHash d = executionRouteDecisionSubjectHashV1 digest (rd_subject d)"
      "stable E (in_cr_decisionId c) = Some (rd_decisionId d)"
    have "safe_integer (int_num (rs_authorizationEpoch (rd_subject d))) = Some (rs_authorizationEpoch (rd_subject d))"
      using safe_integer_again [OF parsed_subject(14) [OF p(1)]] unfolding safe_integer_from_Some by blast
    moreover have "sha256_text (rd_subjectHash d)"
      using assms(3) p(10) by (simp add: executionRouteDecisionSubjectHashV1_def)
    moreover have "findExact (rs_tenantScope (rd_subject d)) (rd_decisionId d) st'' = Some d"
      using stored by (simp add: findExact_Some)
    ultimately show ?thesis
      using p assms(6,7) by (simp add: authorizeRoute_def result_simps)
  qed
qed

section \<open>A route\<close>

definition cloud_policy :: mode_policy where
  "cloud_policy = (sample_version (uuid_of CHR ''c'') DataMode_CLOUD [Payload_ORIGINAL_CONTENT])
     \<lparr>mp_allowedPlacementKinds := [js ''CLOUD''], mp_allowedExecutorClasses := [js ''CLOUD'']\<rparr>"

definition cloud_subject :: route_subject where
  "cloud_subject =
     \<lparr>rs_tenantScope = ws_scope CHR ''a'' CHR ''b'',
      rs_input = \<lparr>rt_artifactVersionId = uuid_of CHR ''c'', rt_artifactVersionHash = hash_of CHR ''a'',
        rt_placementId = uuid_of CHR ''d'', rt_placementHash = hash_of CHR ''b'', rt_dataMode = Mode_Cloud,
        rt_classification = Class_PUBLIC, rt_payloadClass = Payload_ORIGINAL_CONTENT,
        rt_placementKind = js ''CLOUD'', rt_placementAvailable = True\<rparr>,
      rs_action = \<lparr>rt_type = js ''import'', rt_version = 1, rt_requiredCapabilities = [js ''csv'']\<rparr>,
      rs_target = Cloud_target (js ''CLOUD'') [js ''csv''], rs_narrowingConstraints = [],
      rs_authorizationEpoch = 2\<rparr>"

definition cloud_input :: create_route_input where
  "cloud_input =
     \<lparr>in_cr_routeId = sample_id CHR ''e'', in_cr_decisionId = sample_id CHR ''f'', in_cr_revision = int_num 1,
      in_cr_subject = subject_value cloud_subject, in_cr_expiresAt = sample_time ''09''\<rparr>"

definition cloud_authority :: policy_authority where
  "cloud_authority = (\<lambda>_ _. Some (cloud_policy, int_num 2))"

definition sample_digest :: "jsstr \<Rightarrow> jsstr" where
  "sample_digest = (\<lambda>_. hash_of CHR ''c'')"

definition cloud_decision :: route_decision where
  "cloud_decision =
     \<lparr>rd_routeId = uuid_of CHR ''e'', rd_decisionId = uuid_of CHR ''f'', rd_revision = 1,
      rd_subject = cloud_subject, rd_policyId = uuid_of CHR ''a'', rd_policyVersionId = uuid_of CHR ''c'',
      rd_policyRevision = 1, rd_policyHash = hash_of CHR ''a'', rd_subjectHash = hash_of CHR ''c'',
      rd_createdAt = time_of ''01'', rd_expiresAt = time_of ''09''\<rparr>"

lemma sample_nfc [simp]: "nfc_keeps_labels sample_env"
  by (simp add: nfc_keeps_labels_def sample_env_def)

lemma hash_of_text [simp]: "letter c \<Longrightarrow> sha256_text (hash_of c)"
  using letter_unit [of c] by (simp add: sha256_text_def hash_of_def js_def list_all_iff)

lemma sample_labels: "safe_label (js ''CLOUD'')" "safe_label (js ''csv'')" "action_type (js ''import'')"
  by code_simp+

lemma cloud_subject_created: "createExecutionRouteSubjectV1 sample_env (subject_value cloud_subject) = Inr cloud_subject"
proof -
  have labels: "safeList sample_env (Arr [Str (js ''csv'')]) 64 = Some [js ''csv'']"
    "first_label sample_env (Str (js ''CLOUD'')) = Some (js ''CLOUD'')"
    using safeList_value [OF sample_nfc, of "[js ''csv'']" 64] safeList_value [OF sample_nfc, of "[js ''CLOUD'']" 1]
      sample_labels
    by (simp_all add: first_label_def)
  have "constraints sample_env (Arr []) = Some []" by (simp add: constraints_def)
  moreover have "map_of classification_names ''PUBLIC'' = Some Class_PUBLIC"
    "map_of sync_payloads ''ORIGINAL_CONTENT'' = Some Payload_ORIGINAL_CONTENT"
    by (simp_all add: classification_names_def sync_payloads_def)
  moreover have "route_target_of sample_env (subject_value cloud_subject) (js ''CLOUD'') [js ''csv'']
      = Some (Cloud_target (js ''CLOUD'') [js ''csv''])"
    by (simp add: route_target_of_def subject_value_def cloud_subject_def)
  moreover have "scopeType (ws_scope CHR ''a'' CHR ''b'') \<noteq> Organization_type" by (simp add: ws_scope_def)
  moreover have "map_of sync_modes ''Cloud'' = Some Mode_Cloud"
    "safe_integer_from 1 (Num (Finite 1)) = Some 1" "safe_integer_from 0 (Num (Finite 2)) = Some 2"
    by (simp add: sync_modes_def, code_simp, code_simp)
  ultimately show ?thesis
    using labels sample_labels
    by (simp add: createExecutionRouteSubjectV1_def result_simps subject_value_def cloud_subject_def
        max_safe_integer_def)
qed

lemma cloud_policy_current:
  "currentPolicy sample_env cloud_authority (ws_scope CHR ''a'' CHR ''b'') = Some (cloud_policy, 2)"
proof -
  have "map_of data_modes ''CLOUD'' = Some DataMode_CLOUD"
    "map_of sync_payloads ''ORIGINAL_CONTENT'' = Some Payload_ORIGINAL_CONTENT"
    by (simp_all add: data_modes_def sync_payloads_def)
  moreover have "textList sample_env (Arr [Str (js ''CLOUD'')]) 32 64 = Some [js ''CLOUD'']"
    "textList sample_env (Arr []) 32 64 = Some []"
  proof -
    have "nfc sample_env (js ''CLOUD'') = js ''CLOUD''" by (simp add: sample_env_def)
    moreover have "\<not> list_ex control (js ''CLOUD'')" by code_simp
    ultimately show "textList sample_env (Arr [Str (js ''CLOUD'')]) 32 64 = Some [js ''CLOUD'']"
      "textList sample_env (Arr []) 32 64 = Some []"
      by (simp_all add: textList_def list_item_def safe_label_trim sample_labels dedup_def)
  qed
  ultimately have "createDataModePolicyVersionV1 sample_env (policy_value cloud_policy) = Inr cloud_policy"
    by (simp add: createDataModePolicyVersionV1_def policy_value_def cloud_policy_def sample_version_def
        result_simps payloadMatrix_def payload_row_def payload_array_def dedup_def max_safe_integer_def)
  moreover have "safe_integer_from 0 (Num (Finite 2)) = Some 2" by code_simp
  ultimately show ?thesis
    by (simp add: currentPolicy_def cloud_authority_def parseCurrentPolicy_def ws_scope_def)
qed

lemma cloud_allowed: "policyAllows cloud_subject cloud_policy"
  by (simp add: policyAllows_def cloud_subject_def cloud_policy_def sample_version_def ws_scope_def
      isDataModePayloadAllowedV1_def)

lemma cloud_decided:
  "decide_route sample_env sample_digest cloud_authority (time_of ''01'') workspace_ctx cloud_input = Inr cloud_decision"
proof -
  have ctx: "ctx_tenantScope workspace_ctx = ws_scope CHR ''a'' CHR ''b''" "ctx_authorizationEpoch workspace_ctx = 2"
    by (simp_all add: workspace_ctx_def)
  have subject: "rs_tenantScope cloud_subject = ws_scope CHR ''a'' CHR ''b''" "rs_authorizationEpoch cloud_subject = 2"
    by (simp_all add: cloud_subject_def)
  have policy: "mp_policyId cloud_policy = uuid_of CHR ''a''" "mp_policyVersionId cloud_policy = uuid_of CHR ''c''"
    "mp_organizationId cloud_policy = uuid_of CHR ''a''" "mp_workspaceId cloud_policy = uuid_of CHR ''b''"
    "mp_revision cloud_policy = 1" "mp_canonicalHash cloud_policy = hash_of CHR ''a''"
    by (simp_all add: cloud_policy_def sample_version_def)
  have dates: "Date_parse sample_env (time_of ''01'') = Some 1767225601000"
    "Date_parse sample_env (time_of ''09'') = Some 1767225609000"
    by (simp_all add: Date_parse_def)
  have "createExecutionRouteDecisionV1 sample_env sample_digest
      \<lparr>in_rd_routeId = sample_id CHR ''e'', in_rd_decisionId = sample_id CHR ''f'', in_rd_revision = int_num 1,
       in_rd_subject = subject_value cloud_subject, in_rd_policy = cloud_policy, in_rd_createdAt = sample_time ''01'',
       in_rd_expiresAt = sample_time ''09''\<rparr> = Inr cloud_decision"
    by (simp add: createExecutionRouteDecisionV1_def result_simps policy cloud_subject_created subject dates
        cloud_decision_def executionRouteDecisionSubjectHashV1_def sample_digest_def safe_integer_from_Some
        max_safe_integer_def ws_scope_def)
  then show ?thesis
    by (simp add: decide_route_def cloud_input_def result_simps cloud_subject_created ctx subject
        cloud_policy_current cloud_allowed)
       (simp add: ws_scope_def)
qed

lemma cloud_created:
  "createDecision sample_env sample_digest cloud_authority (time_of ''01'') workspace_ctx cloud_input []
     = (Inr cloud_decision, [(uuid_of CHR ''f'', cloud_decision)])"
  by (simp add: createDecision_def cloud_decided saveDecisionRecord_def) (simp add: cloud_decision_def)

theorem created_route_authorized_witness:
  "authorizeRoute sample_env sample_digest cloud_authority (time_of ''02'')
     \<lparr>in_ar_tenantScope = ws_scope CHR ''a'' CHR ''b'', in_ar_decisionId = sample_id CHR ''f'',
      in_ar_subject = subject_value cloud_subject, in_ar_expectedDecisionSubjectHash = hash_of CHR ''c'',
      in_ar_currentAuthorizationEpoch = int_num 2\<rparr> [(uuid_of CHR ''f'', cloud_decision)] = Inr cloud_decision"
proof -
  have "\<not> date_le (Date_parse sample_env (rd_expiresAt cloud_decision)) (Date_parse sample_env (time_of ''02''))"
    by (simp add: cloud_decision_def Date_parse_def)
  from created_route_authorized [OF sample_nfc sample_uuid_documented _ cloud_created rtranclp.rtrancl_refl refl this]
  show ?thesis by (simp add: sample_digest_def workspace_ctx_def cloud_input_def cloud_decision_def)
qed

lemma cloud_authorized:
  "authorizeRoute sample_env sample_digest cloud_authority (time_of ''02'')
     \<lparr>in_ar_tenantScope = ws_scope CHR ''a'' CHR ''b'', in_ar_decisionId = sample_id CHR ''f'',
      in_ar_subject = subject_value cloud_subject, in_ar_expectedDecisionSubjectHash = hash_of CHR ''c'',
      in_ar_currentAuthorizationEpoch = int_num 2\<rparr> [(uuid_of CHR ''f'', cloud_decision)] = Inr cloud_decision"
proof -
  have find: "findExact (ws_scope CHR ''a'' CHR ''b'') (uuid_of CHR ''f'') [(uuid_of CHR ''f'', cloud_decision)]
      = Some cloud_decision"
    by (simp add: findExact_Some cloud_decision_def cloud_subject_def)
  have fields: "rd_subject cloud_decision = cloud_subject" "rd_subjectHash cloud_decision = hash_of CHR ''c''"
    "rs_tenantScope cloud_subject = ws_scope CHR ''a'' CHR ''b''" "rs_authorizationEpoch cloud_subject = 2"
    by (simp_all add: cloud_decision_def cloud_subject_def)
  show ?thesis
    by (simp add: authorizeRoute_def result_simps find cloud_subject_created fields cloud_policy_current cloud_allowed
        executionRouteDecisionSubjectHashV1_def sample_digest_def max_safe_integer_def)
       (simp add: cloud_decision_def cloud_policy_def sample_version_def Date_parse_def)
qed

theorem authorized_routes_witness:
  "\<exists>authority' now' ctx c.
     decide_route sample_env sample_digest authority' now' ctx c = Inr cloud_decision
     \<and> ctx_tenantScope ctx = ws_scope CHR ''a'' CHR ''b''"
proof -
  have "route_step sample_env sample_digest [] [(uuid_of CHR ''f'', cloud_decision)]"
    using route_step [of sample_env sample_digest "[]" cloud_authority "time_of ''01''" workspace_ctx cloud_input]
    by (simp add: cloud_created)
  then have "(route_step sample_env sample_digest)\<^sup>*\<^sup>* [] [(uuid_of CHR ''f'', cloud_decision)]" by simp
  from authorized_routes [OF sample_nfc sample_uuid_documented this cloud_authorized]
  show ?thesis by auto
qed

theorem routes_only_narrow_witness: "policyAllows (cloud_subject\<lparr>rs_narrowingConstraints := []\<rparr>) cloud_policy"
  by (rule routes_only_narrow [OF rtranclp.rtrancl_refl cloud_allowed]) simp

end
