(* ===== verification/Artifacts.thy ===== *)
theory Artifacts
  imports Samples Machine
begin

text \<open>
  Artifacts, packages/domain/src: immutable versions, their placements and the evidence taken from them
  (artifact/v1.ts), lineage and retention (artifact-governance/v1.ts), requests for deletion
  (artifact-retention/v1.ts) and the short-lived grants on evidence (evidence-grant/v1.ts).
\<close>

section \<open>Versions\<close>

datatype artifact_mode = Artifact_Local | Artifact_Hybrid | Artifact_Cloud

datatype source_kind = Source_FILE | Source_FOLDER | Source_CAPTURE | Source_GENERATED

datatype version_status = Version_QUARANTINED | Version_ACTIVE | Version_DELETED

datatype scan_state = Scan_PENDING | Scan_CLEAN | Scan_MALICIOUS | Scan_FAILED

datatype placement_kind = Placement_LOCAL | Placement_CLOUD

datatype source_state = State_AVAILABLE | State_SOURCE_OFFLINE | State_DELETED

record artifact_version =
  av_artifactId :: stable_id
  av_versionId :: stable_id
  av_tenantScope :: tenant_scope
  av_sourceKind :: source_kind
  av_dataMode :: artifact_mode
  av_contentSha256 :: jsstr
  av_byteSize :: int
  av_mediaType :: jsstr
  av_displayName :: jsstr
  av_createdAt :: utc_timestamp
  av_status :: version_status
  av_scanState :: scan_state

record content_placement =
  cp_placementId :: stable_id
  cp_artifactVersionId :: stable_id
  cp_tenantScope :: tenant_scope
  cp_kind :: placement_kind
  cp_opaqueReference :: jsstr
  cp_contentSha256 :: jsstr
  cp_available :: bool
  cp_revision :: int

datatype coordinate =
    Cell_coordinate (cell_sheet: jsstr) (cell_address: jsstr)
  | Page_coordinate (page_number: int) (page_label: "jsstr option")
  | Row_coordinate (row_number: int) (row_field: "jsstr option")

record evidence_reference =
  er_evidenceId :: stable_id
  er_artifactVersionId :: stable_id
  er_tenantScope :: tenant_scope
  er_coordinate :: coordinate
  er_sourceState :: source_state
  er_excerpt :: "jsstr option"

datatype artifact_error =
    Artifact_INVALID_IDENTIFIER | Artifact_INVALID_SCOPE | Artifact_INVALID_TIMESTAMP | Artifact_INVALID_MODE
  | Artifact_INVALID_KIND | Artifact_INVALID_HASH | Artifact_INVALID_SIZE | Artifact_INVALID_MEDIA_TYPE
  | Artifact_INVALID_NAME | Artifact_INVALID_STATUS | Artifact_INVALID_SCAN_STATE | Artifact_INVALID_REVISION
  | Artifact_REVISION_CONFLICT | Artifact_INVALID_REFERENCE | Artifact_INVALID_COORDINATE
  | Artifact_COORDINATE_OUT_OF_BOUNDS | Artifact_INVALID_SOURCE_STATE | Artifact_CONTENT_MISMATCH
  | Artifact_LOCAL_CONTENT_LEAK

definition artifact_modes :: "(string \<times> artifact_mode) list" where
  "artifact_modes = [(''Local'', Artifact_Local), (''Hybrid'', Artifact_Hybrid), (''Cloud'', Artifact_Cloud)]"

definition source_kinds :: "(string \<times> source_kind) list" where
  "source_kinds = [(''FILE'', Source_FILE), (''FOLDER'', Source_FOLDER), (''CAPTURE'', Source_CAPTURE),
     (''GENERATED'', Source_GENERATED)]"

definition version_statuses :: "(string \<times> version_status) list" where
  "version_statuses = [(''QUARANTINED'', Version_QUARANTINED), (''ACTIVE'', Version_ACTIVE),
     (''DELETED'', Version_DELETED)]"

definition scan_states :: "(string \<times> scan_state) list" where
  "scan_states = [(''PENDING'', Scan_PENDING), (''CLEAN'', Scan_CLEAN), (''MALICIOUS'', Scan_MALICIOUS),
     (''FAILED'', Scan_FAILED)]"

definition placement_kinds :: "(string \<times> placement_kind) list" where
  "placement_kinds = [(''LOCAL'', Placement_LOCAL), (''CLOUD'', Placement_CLOUD)]"

definition source_states :: "(string \<times> source_state) list" where
  "source_states = [(''AVAILABLE'', State_AVAILABLE), (''SOURCE_OFFLINE'', State_SOURCE_OFFLINE),
     (''DELETED'', State_DELETED)]"

text \<open>This module takes only the ASCII control characters for control characters.\<close>

definition hasControlCharacter :: "jsstr \<Rightarrow> bool" where
  "hasControlCharacter s \<longleftrightarrow> list_ex (\<lambda>c. unat c \<le> 31 \<or> unat c = 127) s"

definition artifact_boundedText :: "env \<Rightarrow> jsval \<Rightarrow> nat \<Rightarrow> jsstr option" where
  "artifact_boundedText E v maxLength =
     (case v of
        Str s \<Rightarrow>
          if s = [] \<or> length s > maxLength \<or> hasControlCharacter s then None
          else let normalized = trim (nfc E s)
            in if normalized \<noteq> [] \<and> length normalized \<le> maxLength then Some normalized else None
      | _ \<Rightarrow> None)"

definition has_slash :: "jsstr \<Rightarrow> bool" where
  "has_slash s \<longleftrightarrow> of_char CHR ''/'' \<in> set s \<or> of_char CHR 0x5C \<in> set s"

definition displayName :: "env \<Rightarrow> jsval \<Rightarrow> jsstr option" where
  "displayName E v =
     (case artifact_boundedText E v 255 of None \<Rightarrow> None | Some s \<Rightarrow> if has_slash s then None else Some s)"

text \<open>\<open>/^[A-Za-z0-9_-]{16,512}$/\<close>\<close>

definition reference_char :: "16 word \<Rightarrow> bool" where
  "reference_char c \<longleftrightarrow> upper c \<or> lower c \<or> digit c \<or> c \<in> set (js ''_-'')"

definition opaqueReference :: "jsval \<Rightarrow> jsstr option" where
  "opaqueReference v =
     (case v of
        Str s \<Rightarrow> if 16 \<le> length s \<and> length s \<le> 512 \<and> list_all reference_char s then Some s else None
      | _ \<Rightarrow> None)"

text \<open>
  \<open>/^[a-z0-9][a-z0-9!#$&^_.+-]*\/[a-z0-9][a-z0-9!#$&^_.+-]*$/iu\<close>: ignoring case in Unicode mode, the
  letters include the long s and the Kelvin sign, whose case foldings are \<open>s\<close> and \<open>k\<close>.
\<close>

definition artifact_media_start :: "16 word \<Rightarrow> bool" where
  "artifact_media_start c \<longleftrightarrow> upper c \<or> lower c \<or> digit c \<or> unat c = 0x17F \<or> unat c = 0x212A"

definition media_part :: "jsstr \<Rightarrow> bool" where
  "media_part s \<longleftrightarrow>
     s \<noteq> [] \<and> artifact_media_start (hd s) \<and> list_all (\<lambda>c. artifact_media_start c \<or> c \<in> set (js ''!#$&^_.+-'')) (tl s)"

definition artifact_mediaType :: "env \<Rightarrow> jsval \<Rightarrow> jsstr option" where
  "artifact_mediaType E v =
     (case v of
        Str s \<Rightarrow>
          (case dropWhile (\<lambda>c. c \<noteq> of_char CHR ''/'') s of
             [] \<Rightarrow> None
           | slash # subtype \<Rightarrow>
               if media_part (takeWhile (\<lambda>c. c \<noteq> of_char CHR ''/'') s) \<and> media_part subtype
               then Some (lower_case E s) else None)
      | _ \<Rightarrow> None)"

record version_input =
  in_av_artifactId :: jsval
  in_av_versionId :: jsval
  in_av_tenantScope :: jsval
  in_av_sourceKind :: jsval
  in_av_dataMode :: jsval
  in_av_contentSha256 :: jsval
  in_av_byteSize :: jsval
  in_av_mediaType :: jsval
  in_av_displayName :: jsval
  in_av_createdAt :: jsval
  in_av_status :: jsval
  in_av_scanState :: jsval

definition createArtifactVersionV1 :: "env \<Rightarrow> version_input \<Rightarrow> artifact_error + artifact_version" where
  "createArtifactVersionV1 E i =
     require Artifact_INVALID_IDENTIFIER (stable E (in_av_artifactId i)) (\<lambda>artifactId.
     require Artifact_INVALID_IDENTIFIER (stable E (in_av_versionId i)) (\<lambda>versionId.
     require Artifact_INVALID_SCOPE (scope_value E (in_av_tenantScope i)) (\<lambda>scope.
     require Artifact_INVALID_KIND (one_of source_kinds (in_av_sourceKind i)) (\<lambda>kind.
     require Artifact_INVALID_MODE (one_of artifact_modes (in_av_dataMode i)) (\<lambda>mode.
     require Artifact_INVALID_HASH (sha256_hex (in_av_contentSha256 i)) (\<lambda>contentSha256.
     require Artifact_INVALID_SIZE (safe_integer_from 0 (in_av_byteSize i)) (\<lambda>byteSize.
     require Artifact_INVALID_MEDIA_TYPE (artifact_mediaType E (in_av_mediaType i)) (\<lambda>media.
     require Artifact_INVALID_NAME (displayName E (in_av_displayName i)) (\<lambda>name.
     require Artifact_INVALID_TIMESTAMP (timestamp E (in_av_createdAt i)) (\<lambda>createdAt.
     require Artifact_INVALID_STATUS
       (one_of version_statuses (nullish (in_av_status i) (Str (js ''ACTIVE'')))) (\<lambda>status.
     require Artifact_INVALID_SCAN_STATE
       (one_of scan_states (nullish (in_av_scanState i) (Str (js ''PENDING'')))) (\<lambda>scan.
     accepted
       \<lparr>av_artifactId = artifactId, av_versionId = versionId, av_tenantScope = scope, av_sourceKind = kind,
        av_dataMode = mode, av_contentSha256 = contentSha256, av_byteSize = byteSize, av_mediaType = media,
        av_displayName = name, av_createdAt = createdAt, av_status = status, av_scanState = scan\<rparr>))))))))))))"

section \<open>Placements\<close>

record placement_input =
  in_cp_placementId :: jsval
  in_cp_artifactVersion :: artifact_version
  in_cp_tenantScope :: jsval
  in_cp_kind :: jsval
  in_cp_opaqueReference :: jsval
  in_cp_contentSha256 :: jsval
  in_cp_available :: jsval
  in_cp_revision :: jsval

definition createContentPlacementV1 :: "env \<Rightarrow> placement_input \<Rightarrow> artifact_error + content_placement" where
  "createContentPlacementV1 E i =
     (let v = in_cp_artifactVersion i in
     require Artifact_INVALID_IDENTIFIER (stable E (in_cp_placementId i)) (\<lambda>placementId.
     require Artifact_INVALID_IDENTIFIER (stable E (Str (av_versionId v))) (\<lambda>_.
     require Artifact_INVALID_SCOPE (scope_value E (in_cp_tenantScope i)) (\<lambda>scope.
     reject_if (\<not> tenantScopesEqualV1 scope (av_tenantScope v)) Artifact_INVALID_SCOPE (
     require Artifact_INVALID_KIND (one_of placement_kinds (in_cp_kind i)) (\<lambda>kind.
     require Artifact_INVALID_REFERENCE (opaqueReference (in_cp_opaqueReference i)) (\<lambda>reference.
     require Artifact_CONTENT_MISMATCH (sha256_hex (in_cp_contentSha256 i)) (\<lambda>contentSha256.
     reject_if (contentSha256 \<noteq> av_contentSha256 v) Artifact_CONTENT_MISMATCH (
     require Artifact_INVALID_REVISION
       (if in_cp_revision i = Undefined then Some 1 else positiveInteger (in_cp_revision i)) (\<lambda>revision.
     reject_if (av_dataMode v = Artifact_Local \<and> kind \<noteq> Placement_LOCAL) Artifact_LOCAL_CONTENT_LEAK (
     reject_if (av_dataMode v = Artifact_Cloud \<and> kind \<noteq> Placement_CLOUD) Artifact_INVALID_MODE (
     require Artifact_INVALID_STATUS
       (if in_cp_available i = Undefined then Some True else as_bool (in_cp_available i)) (\<lambda>available.
     accepted
       \<lparr>cp_placementId = placementId, cp_artifactVersionId = av_versionId v, cp_tenantScope = scope,
        cp_kind = kind, cp_opaqueReference = reference, cp_contentSha256 = contentSha256,
        cp_available = available, cp_revision = revision\<rparr>)))))))))))))"

definition updateContentPlacementAvailabilityV1 ::
    "content_placement \<Rightarrow> jsval \<Rightarrow> jsval \<Rightarrow> artifact_error + content_placement" where
  "updateContentPlacementAvailabilityV1 p available expectedRevision =
     require Artifact_INVALID_STATUS (as_bool available) (\<lambda>a.
     require Artifact_INVALID_REVISION (positiveInteger expectedRevision) (\<lambda>expected.
     reject_if (expected \<noteq> cp_revision p) Artifact_REVISION_CONFLICT (
     if a = cp_available p then accepted p
     else accepted (p\<lparr>cp_available := a, cp_revision := js_succ (cp_revision p)\<rparr>))))"

section \<open>Evidence\<close>

text \<open>\<open>record[key] === undefined ? undefined : artifact_boundedText(record[key], n)\<close>, and the test that follows.\<close>

definition optional_label :: "env \<Rightarrow> jsval \<Rightarrow> nat \<Rightarrow> jsstr option option" where
  "optional_label E v n = (if v = Undefined then Some None else map_option Some (artifact_boundedText E v n))"

definition evidenceCoordinate :: "env \<Rightarrow> jsval \<Rightarrow> coordinate option" where
  "evidenceCoordinate E v =
     (if \<not> isRecord v then None
      else if field v ''kind'' = Str (js ''CELL'') then
        Option.bind (artifact_boundedText E (field v ''sheet'') 255) (\<lambda>sheet.
        Option.bind (artifact_boundedText E (field v ''address'') 64) (\<lambda>address.
        if has_slash sheet then None else Some (Cell_coordinate sheet address)))
      else if field v ''kind'' = Str (js ''PAGE'') then
        Option.bind (safe_integer_from 1 (field v ''page'')) (\<lambda>page.
        map_option (Page_coordinate page) (optional_label E (field v ''label'') 128))
      else if field v ''kind'' = Str (js ''ROW'') then
        Option.bind (safe_integer_from 1 (field v ''row'')) (\<lambda>row.
        map_option (Row_coordinate row) (optional_label E (field v ''field'') 128))
      else None)"

definition spreadsheetColumnNumber :: "jsstr \<Rightarrow> int" where
  "spreadsheetColumnNumber s = foldl (\<lambda>result c. result * 26 + int (unat c) - 64) 0 s"

text \<open>The callback of \<open>every\<close>, with the names seen so far.\<close>

fun sheets_ok :: "env \<Rightarrow> jsstr list \<Rightarrow> jsval list \<Rightarrow> bool" where
  "sheets_ok E names [] = True"
| "sheets_ok E names (v # vs) =
     (isRecord v
      \<and> (case artifact_boundedText E (field v ''name'') 255 of
           None \<Rightarrow> False
         | Some name \<Rightarrow>
             name \<notin> set names
             \<and> safe_integer_within 0 1000000 (field v ''maxRow'') \<noteq> None
             \<and> safe_integer_within 0 16384 (field v ''maxColumn'') \<noteq> None
             \<and> sheets_ok E (name # names) vs))"

definition isEvidenceGeometry :: "env \<Rightarrow> jsval \<Rightarrow> bool" where
  "isEvidenceGeometry E v \<longleftrightarrow>
     isRecord v
     \<and> (if field v ''kind'' = Str (js ''SPREADSHEET'')
        then (case field v ''sheets'' of Arr vs \<Rightarrow> length vs \<le> 512 \<and> sheets_ok E [] vs | _ \<Rightarrow> False)
        else if field v ''kind'' = Str (js ''PAGED'')
        then safe_integer_within 0 10000000 (field v ''maxPage'') \<noteq> None
        else if field v ''kind'' = Str (js ''TABULAR'')
        then safe_integer_within 0 1000000000 (field v ''maxRow'') \<noteq> None
        else False)"

text \<open>\<open>/^\$?([A-Z]{1,3})\$?([1-9][0-9]*)$/\<close>: the letters and the digits.\<close>

definition drop_dollar :: "jsstr \<Rightarrow> jsstr" where
  "drop_dollar s = (case s of c # r \<Rightarrow> if c = of_char CHR ''$'' then r else s | [] \<Rightarrow> [])"

definition address_parts :: "jsstr \<Rightarrow> (jsstr \<times> jsstr) option" where
  "address_parts s =
     (let s1 = drop_dollar s; letters = takeWhile upper s1; digits = drop_dollar (dropWhile upper s1)
      in if 1 \<le> length letters \<and> length letters \<le> 3 \<and> digits \<noteq> [] \<and> in_range 49 57 (hd digits)
            \<and> list_all digit digits
         then Some (letters, digits) else None)"

text \<open>A value that is false as a condition.\<close>

definition falsy :: "jsval \<Rightarrow> bool" where
  "falsy v \<longleftrightarrow>
     v = Undefined \<or> v = Null \<or> v = Bool False \<or> v = Num (Finite 0) \<or> v = Num NaN \<or> v = Str []"

text \<open>
  The row of an address is compared with a bound below \<open>2 ^ 53\<close>, so its rounding to a double does not
  matter.
\<close>

definition validateEvidenceCoordinateV1 :: "env \<Rightarrow> coordinate \<Rightarrow> jsval \<Rightarrow> artifact_error + unit" where
  "validateEvidenceCoordinateV1 E coord geometry =
     (if falsy geometry then accepted ()
      else reject_if (\<not> isEvidenceGeometry E geometry) Artifact_INVALID_COORDINATE (
      case coord of
        Cell_coordinate sheet address \<Rightarrow>
          reject_if (field geometry ''kind'' \<noteq> Str (js ''SPREADSHEET'')) Artifact_COORDINATE_OUT_OF_BOUNDS (
          require Artifact_COORDINATE_OUT_OF_BOUNDS
            (Option.bind (as_array (field geometry ''sheets''))
              (List.find (\<lambda>v. artifact_boundedText E (field v ''name'') 255 = Some sheet))) (\<lambda>found.
          require Artifact_COORDINATE_OUT_OF_BOUNDS (address_parts (to_upper E address)) (\<lambda>(letters, digits).
          require Artifact_COORDINATE_OUT_OF_BOUNDS (safe_integer (field found ''maxRow'')) (\<lambda>maxRow.
          require Artifact_COORDINATE_OUT_OF_BOUNDS (safe_integer (field found ''maxColumn'')) (\<lambda>maxColumn.
          reject_if (\<not> (decimal digits \<le> maxRow \<and> spreadsheetColumnNumber letters \<le> maxColumn))
            Artifact_COORDINATE_OUT_OF_BOUNDS (accepted ()))))))
      | Page_coordinate page label \<Rightarrow>
          reject_if (field geometry ''kind'' \<noteq> Str (js ''PAGED'')) Artifact_COORDINATE_OUT_OF_BOUNDS (
          require Artifact_COORDINATE_OUT_OF_BOUNDS (safe_integer (field geometry ''maxPage'')) (\<lambda>maxPage.
          reject_if (\<not> page \<le> maxPage) Artifact_COORDINATE_OUT_OF_BOUNDS (accepted ())))
      | Row_coordinate row name \<Rightarrow>
          reject_if (field geometry ''kind'' \<noteq> Str (js ''TABULAR'')) Artifact_COORDINATE_OUT_OF_BOUNDS (
          require Artifact_COORDINATE_OUT_OF_BOUNDS (safe_integer (field geometry ''maxRow'')) (\<lambda>maxRow.
          reject_if (\<not> row \<le> maxRow) Artifact_COORDINATE_OUT_OF_BOUNDS (accepted ())))))"

record evidence_input =
  in_er_evidenceId :: jsval
  in_er_artifactVersion :: artifact_version
  in_er_tenantScope :: jsval
  in_er_coordinate :: jsval
  in_er_geometry :: jsval
  in_er_sourceState :: jsval
  in_er_excerpt :: jsval

definition createEvidenceReferenceV1 :: "env \<Rightarrow> evidence_input \<Rightarrow> artifact_error + evidence_reference" where
  "createEvidenceReferenceV1 E i =
     (let v = in_er_artifactVersion i in
     require Artifact_INVALID_IDENTIFIER (stable E (in_er_evidenceId i)) (\<lambda>evidenceId.
     require Artifact_INVALID_IDENTIFIER (stable E (Str (av_versionId v))) (\<lambda>_.
     require Artifact_INVALID_SCOPE (scope_value E (in_er_tenantScope i)) (\<lambda>scope.
     reject_if (\<not> tenantScopesEqualV1 scope (av_tenantScope v)) Artifact_INVALID_SCOPE (
     require Artifact_INVALID_COORDINATE (evidenceCoordinate E (in_er_coordinate i)) (\<lambda>coord.
     and_then (if in_er_geometry i = Undefined then accepted ()
               else validateEvidenceCoordinateV1 E coord (in_er_geometry i)) (\<lambda>_.
     require Artifact_INVALID_SOURCE_STATE
       (one_of source_states (nullish (in_er_sourceState i) (Str (js ''AVAILABLE'')))) (\<lambda>state.
     require Artifact_INVALID_REFERENCE (optional_label E (in_er_excerpt i) 512) (\<lambda>excerpt.
     reject_if (av_dataMode v = Artifact_Local \<and> excerpt \<noteq> None) Artifact_LOCAL_CONTENT_LEAK (
     accepted
       \<lparr>er_evidenceId = evidenceId, er_artifactVersionId = av_versionId v, er_tenantScope = scope,
        er_coordinate = coord, er_sourceState = state, er_excerpt = excerpt\<rparr>))))))))))"

section \<open>Lineage\<close>

datatype lineage_transform = Transform_COPIED | Transform_NORMALIZED | Transform_AGGREGATED | Transform_REDACTED

record coordinate_lineage =
  cl_sourceEvidenceId :: stable_id
  cl_derivedEvidenceId :: stable_id
  cl_transform :: lineage_transform

record artifact_lineage =
  al_lineageId :: stable_id
  al_derivedArtifactVersionId :: stable_id
  al_tenantScope :: tenant_scope
  al_sourceArtifactVersionIds :: "stable_id list"
  al_processorVersion :: jsstr
  al_recipeVersion :: "jsstr option"
  al_coordinateLineage :: "coordinate_lineage list"

datatype governance_error =
    Governance_INVALID_IDENTIFIER | Governance_INVALID_SCOPE | Governance_CROSS_SCOPE
  | Governance_INVALID_TIMESTAMP | Governance_INVALID_TEXT | Governance_INVALID_HASH | Governance_INVALID_LINEAGE
  | Governance_DUPLICATE_IDENTIFIER | Governance_INVALID_TRANSFORM | Governance_SOURCE_REQUIRED
  | Governance_SOURCE_NOT_ACTIVE | Governance_DATA_MODE_WIDENING

definition lineage_transforms :: "(string \<times> lineage_transform) list" where
  "lineage_transforms = [(''COPIED'', Transform_COPIED), (''NORMALIZED'', Transform_NORMALIZED),
     (''AGGREGATED'', Transform_AGGREGATED), (''REDACTED'', Transform_REDACTED)]"

text \<open>The loop over the coordinate lineage, with what was collected so far.\<close>

fun collect_lineage ::
    "env \<Rightarrow> coordinate_lineage list \<Rightarrow> jsval list \<Rightarrow> governance_error + coordinate_lineage list" where
  "collect_lineage E seen [] = accepted seen"
| "collect_lineage E seen (v # vs) =
     reject_if (\<not> isRecord v) Governance_INVALID_LINEAGE (
     require Governance_INVALID_IDENTIFIER (stable E (field v ''sourceEvidenceId'')) (\<lambda>source.
     require Governance_INVALID_IDENTIFIER (stable E (field v ''derivedEvidenceId'')) (\<lambda>derived.
     require Governance_INVALID_TRANSFORM (one_of lineage_transforms (field v ''transform'')) (\<lambda>transform.
     reject_if (list_ex (\<lambda>l. cl_sourceEvidenceId l @ of_char CHR '':'' # cl_derivedEvidenceId l
                            = source @ of_char CHR '':'' # derived) seen) Governance_DUPLICATE_IDENTIFIER (
     collect_lineage E
       (seen @ [\<lparr>cl_sourceEvidenceId = source, cl_derivedEvidenceId = derived, cl_transform = transform\<rparr>]) vs)))))"

text \<open>The scopes of the sources, when they are given.\<close>

definition source_scopes_ok :: "env \<Rightarrow> tenant_scope \<Rightarrow> nat \<Rightarrow> jsval \<Rightarrow> governance_error option" where
  "source_scopes_ok E scope n v =
     (case v of
        Undefined \<Rightarrow> None
      | Arr vs \<Rightarrow>
          if length vs \<noteq> n then Some Governance_INVALID_SCOPE
          else if list_ex (\<lambda>w. case scope_value E w of None \<Rightarrow> True | Some s \<Rightarrow> \<not> tenantScopesEqualV1 s scope) vs
          then Some Governance_CROSS_SCOPE else None
      | _ \<Rightarrow> Some Governance_INVALID_SCOPE)"

record lineage_input =
  in_al_lineageId :: jsval
  in_al_derivedArtifactVersionId :: jsval
  in_al_tenantScope :: jsval
  in_al_sourceArtifactVersionIds :: jsval
  in_al_processorVersion :: jsval
  in_al_recipeVersion :: jsval
  in_al_coordinateLineage :: jsval
  in_al_sourceTenantScopes :: jsval

definition createArtifactLineageV1 :: "env \<Rightarrow> lineage_input \<Rightarrow> governance_error + artifact_lineage" where
  "createArtifactLineageV1 E i =
     require Governance_INVALID_IDENTIFIER (stable E (in_al_lineageId i)) (\<lambda>lineageId.
     require Governance_INVALID_IDENTIFIER (stable E (in_al_derivedArtifactVersionId i)) (\<lambda>derivedId.
     require Governance_INVALID_SCOPE (scope_value E (in_al_tenantScope i)) (\<lambda>scope.
     require Governance_INVALID_TEXT (text_value E (in_al_processorVersion i) 128) (\<lambda>processor.
     require Governance_INVALID_TEXT
       (optional (\<lambda>v. text_value E v 128) (defined_value (in_al_recipeVersion i))) (\<lambda>recipe.
     require Governance_INVALID_LINEAGE (as_array (in_al_sourceArtifactVersionIds i)) (\<lambda>vs.
     reject_if (vs = []) Governance_INVALID_LINEAGE (
     require Governance_INVALID_IDENTIFIER (parse_all (stable E) vs) (\<lambda>sources.
     reject_if (length (dedup sources) \<noteq> length sources) Governance_DUPLICATE_IDENTIFIER (
     reject_if (derivedId \<in> set sources) Governance_DUPLICATE_IDENTIFIER (
     and_then (case source_scopes_ok E scope (length sources) (in_al_sourceTenantScopes i) of
                 None \<Rightarrow> accepted () | Some e \<Rightarrow> rejected e) (\<lambda>_.
     require Governance_INVALID_LINEAGE (as_array (in_al_coordinateLineage i)) (\<lambda>candidates.
     and_then (collect_lineage E [] candidates) (\<lambda>lineage.
     accepted
       \<lparr>al_lineageId = lineageId, al_derivedArtifactVersionId = derivedId, al_tenantScope = scope,
        al_sourceArtifactVersionIds = sources, al_processorVersion = processor, al_recipeVersion = recipe,
        al_coordinateLineage = lineage\<rparr>)))))))))))))"

fun mode_rank :: "artifact_mode \<Rightarrow> int" where
  "mode_rank Artifact_Local = 0"
| "mode_rank Artifact_Hybrid = 1"
| "mode_rank Artifact_Cloud = 2"

text \<open>The loop over the sources, with the identifiers and the ranks seen so far.\<close>

fun source_ranks ::
    "artifact_version \<Rightarrow> stable_id list \<Rightarrow> int list \<Rightarrow> artifact_version list \<Rightarrow> governance_error + int list" where
  "source_ranks derived seen ranks [] = accepted ranks"
| "source_ranks derived seen ranks (s # ss) =
     reject_if (av_versionId s = av_versionId derived) Governance_DUPLICATE_IDENTIFIER (
     reject_if (av_versionId s \<in> set seen) Governance_DUPLICATE_IDENTIFIER (
     reject_if (\<not> tenantScopesEqualV1 (av_tenantScope s) (av_tenantScope derived)) Governance_CROSS_SCOPE (
     reject_if (av_status s \<noteq> Version_ACTIVE) Governance_SOURCE_NOT_ACTIVE (
     source_ranks derived (av_versionId s # seen) (ranks @ [mode_rank (av_dataMode s)]) ss))))"

definition validateDerivedArtifactVersionV1 ::
    "artifact_version \<Rightarrow> artifact_version list \<Rightarrow> governance_error + unit" where
  "validateDerivedArtifactVersionV1 derived sources =
     reject_if (sources = []) Governance_SOURCE_REQUIRED (
     and_then (source_ranks derived [] [] sources) (\<lambda>ranks.
     if mode_rank (av_dataMode derived) \<le> Min (set ranks) then accepted ()
     else rejected Governance_DATA_MODE_WIDENING))"

section \<open>Retention and deletion\<close>

datatype retention_blocker =
    Blocker_WORKSPACE_RETENTION | Blocker_RESOURCE_RETENTION | Blocker_AUDIT_RETENTION
  | Blocker_RECOVERY_WINDOW | Blocker_ACTIVE_APPROVAL | Blocker_LEGAL_HOLD

record retention_evaluation =
  re_eligible :: bool
  re_blockers :: "retention_blocker list"
  re_evaluatedAt :: utc_timestamp

record retention_input =
  in_re_evaluatedAt :: jsval
  in_re_workspaceRetentionUntil :: jsval
  in_re_resourceRetentionUntil :: jsval
  in_re_auditRetentionUntil :: jsval
  in_re_recoveryWindowUntil :: jsval
  in_re_activeApproval :: jsval
  in_re_legalHold :: jsval

definition blocker_if :: "bool \<Rightarrow> retention_blocker \<Rightarrow> retention_blocker list" where
  "blocker_if c b = (if c then [b] else [])"

definition evaluateArtifactRetentionV1 :: "env \<Rightarrow> retention_input \<Rightarrow> governance_error + retention_evaluation" where
  "evaluateArtifactRetentionV1 E i =
     require Governance_INVALID_TIMESTAMP (timestamp E (in_re_evaluatedAt i)) (\<lambda>evaluatedAt.
     require Governance_INVALID_TIMESTAMP (timestamp E (in_re_workspaceRetentionUntil i)) (\<lambda>workspaceUntil.
     require Governance_INVALID_TIMESTAMP (timestamp E (in_re_resourceRetentionUntil i)) (\<lambda>resourceUntil.
     require Governance_INVALID_TIMESTAMP (timestamp E (in_re_auditRetentionUntil i)) (\<lambda>auditUntil.
     require Governance_INVALID_TIMESTAMP (timestamp E (in_re_recoveryWindowUntil i)) (\<lambda>recoveryUntil.
     require Governance_INVALID_LINEAGE (as_bool (in_re_activeApproval i)) (\<lambda>approval.
     require Governance_INVALID_LINEAGE (as_bool (in_re_legalHold i)) (\<lambda>hold.
     let before = (\<lambda>until. date_less (Date_parse E evaluatedAt) (Date_parse E until));
         blockers = blocker_if (before workspaceUntil) Blocker_WORKSPACE_RETENTION
           @ blocker_if (before resourceUntil) Blocker_RESOURCE_RETENTION
           @ blocker_if (before auditUntil) Blocker_AUDIT_RETENTION
           @ blocker_if (before recoveryUntil) Blocker_RECOVERY_WINDOW
           @ blocker_if approval Blocker_ACTIVE_APPROVAL @ blocker_if hold Blocker_LEGAL_HOLD
     in accepted \<lparr>re_eligible = (length blockers = 0), re_blockers = blockers, re_evaluatedAt = evaluatedAt\<rparr>)))))))"

datatype deletion_state =
    Deletion_REQUESTED | Deletion_BLOCKED | Deletion_AUTHORIZED | Deletion_COMPLETED | Deletion_CANCELLED

record deletion_request =
  dr_requestId :: stable_id
  dr_artifactVersionId :: stable_id
  dr_tenantScope :: tenant_scope
  dr_requestedBy :: stable_id
  dr_requestedAt :: utc_timestamp
  dr_state :: deletion_state
  dr_blockers :: "retention_blocker list"
  dr_authorizedAt :: "utc_timestamp option"
  dr_revision :: int

datatype retention_error =
    Retention_INVALID_IDENTIFIER | Retention_INVALID_SCOPE | Retention_INVALID_TIMESTAMP
  | Retention_INVALID_STATE | Retention_INVALID_REVISION | Retention_CROSS_SCOPE
  | Retention_RETENTION_BLOCKED | Retention_MFA_REQUIRED

record deletion_input =
  in_dr_requestId :: jsval
  in_dr_artifactVersionId :: jsval
  in_dr_tenantScope :: jsval
  in_dr_requestedBy :: jsval
  in_dr_requestedAt :: jsval

definition createArtifactDeletionRequestV1 :: "env \<Rightarrow> deletion_input \<Rightarrow> retention_error + deletion_request" where
  "createArtifactDeletionRequestV1 E i =
     require Retention_INVALID_IDENTIFIER (stable E (in_dr_requestId i)) (\<lambda>requestId.
     require Retention_INVALID_IDENTIFIER (stable E (in_dr_artifactVersionId i)) (\<lambda>versionId.
     require Retention_INVALID_IDENTIFIER (stable E (in_dr_requestedBy i)) (\<lambda>requestedBy.
     require Retention_INVALID_SCOPE (scope_value E (in_dr_tenantScope i)) (\<lambda>scope.
     require Retention_INVALID_TIMESTAMP (timestamp E (in_dr_requestedAt i)) (\<lambda>requestedAt.
     accepted
       \<lparr>dr_requestId = requestId, dr_artifactVersionId = versionId, dr_tenantScope = scope,
        dr_requestedBy = requestedBy, dr_requestedAt = requestedAt, dr_state = Deletion_REQUESTED,
        dr_blockers = [], dr_authorizedAt = None, dr_revision = 1\<rparr>)))))"

record authorize_deletion_input =
  in_ad_tenantScope :: jsval
  in_ad_approvedAt :: jsval
  in_ad_mfaSatisfied :: jsval

definition deletable :: "deletion_request \<Rightarrow> bool" where
  "deletable r \<longleftrightarrow> dr_state r = Deletion_REQUESTED \<or> dr_state r = Deletion_BLOCKED"

definition authorizeArtifactDeletionV1 ::
    "env \<Rightarrow> deletion_request \<Rightarrow> retention_evaluation \<Rightarrow> authorize_deletion_input \<Rightarrow> retention_error + deletion_request"
  where
  "authorizeArtifactDeletionV1 E r evaluation i =
     require Retention_INVALID_SCOPE (scope_value E (in_ad_tenantScope i)) (\<lambda>scope.
     reject_if (\<not> tenantScopesEqualV1 scope (dr_tenantScope r)) Retention_CROSS_SCOPE (
     require Retention_INVALID_TIMESTAMP (timestamp E (in_ad_approvedAt i)) (\<lambda>approvedAt.
     reject_if (date_less (Date_parse E approvedAt) (Date_parse E (dr_requestedAt r))) Retention_INVALID_TIMESTAMP (
     reject_if (in_ad_mfaSatisfied i \<noteq> Bool True) Retention_MFA_REQUIRED (
     reject_if (\<not> re_eligible evaluation) Retention_RETENTION_BLOCKED (
     reject_if (\<not> deletable r) Retention_INVALID_STATE (
     accepted (r\<lparr>dr_state := Deletion_AUTHORIZED, dr_blockers := [], dr_authorizedAt := Some approvedAt,
                 dr_revision := js_succ (dr_revision r)\<rparr>))))))))"

definition blockArtifactDeletionV1 ::
    "deletion_request \<Rightarrow> retention_evaluation \<Rightarrow> retention_error + deletion_request" where
  "blockArtifactDeletionV1 r evaluation =
     reject_if (\<not> deletable r) Retention_INVALID_STATE (
     accepted (r\<lparr>dr_state := Deletion_BLOCKED, dr_blockers := re_blockers evaluation,
                 dr_revision := (if dr_state r = Deletion_BLOCKED then dr_revision r else js_succ (dr_revision r))\<rparr>))"

section \<open>Grants on evidence\<close>

datatype grant_action = Action_COORDINATE | Action_EXCERPT | Action_OPEN_ON_DEVICE

record evidence_grant =
  eg_grantId :: stable_id
  eg_evidenceId :: stable_id
  eg_artifactVersionId :: stable_id
  eg_tenantScope :: tenant_scope
  eg_recipientDeviceId :: stable_id
  eg_action :: grant_action
  eg_issuedAt :: utc_timestamp
  eg_expiresAt :: utc_timestamp
  eg_authorizationEpoch :: int
  eg_maxExcerptBytes :: int

datatype evidence_error =
    Evidence_INVALID_IDENTIFIER | Evidence_INVALID_SCOPE | Evidence_INVALID_TIMESTAMP | Evidence_INVALID_ACTION
  | Evidence_INVALID_EPOCH | Evidence_INVALID_BYTES | Evidence_EXPIRY_TOO_LONG | Evidence_LOCAL_CONTENT_LEAK
  | Evidence_SOURCE_UNAVAILABLE

definition grant_actions :: "(string \<times> grant_action) list" where
  "grant_actions = [(''COORDINATE'', Action_COORDINATE), (''EXCERPT'', Action_EXCERPT),
     (''OPEN_ON_DEVICE'', Action_OPEN_ON_DEVICE)]"

record evidence_grant_input =
  in_eg_grantId :: jsval
  in_eg_evidenceId :: jsval
  in_eg_artifactVersionId :: jsval
  in_eg_tenantScope :: jsval
  in_eg_recipientDeviceId :: jsval
  in_eg_action :: jsval
  in_eg_issuedAt :: jsval
  in_eg_expiresAt :: jsval
  in_eg_authorizationEpoch :: jsval
  in_eg_maxExcerptBytes :: jsval
  in_eg_artifactDataMode :: artifact_mode
  in_eg_sourceState :: jsval

definition createEvidenceAccessGrantV1 :: "env \<Rightarrow> evidence_grant_input \<Rightarrow> evidence_error + evidence_grant" where
  "createEvidenceAccessGrantV1 E i =
     require Evidence_INVALID_IDENTIFIER (stable E (in_eg_grantId i)) (\<lambda>grantId.
     require Evidence_INVALID_IDENTIFIER (stable E (in_eg_evidenceId i)) (\<lambda>evidenceId.
     require Evidence_INVALID_IDENTIFIER (stable E (in_eg_artifactVersionId i)) (\<lambda>versionId.
     require Evidence_INVALID_IDENTIFIER (stable E (in_eg_recipientDeviceId i)) (\<lambda>deviceId.
     require Evidence_INVALID_SCOPE (scope_value E (in_eg_tenantScope i)) (\<lambda>scope.
     require Evidence_INVALID_TIMESTAMP (timestamp E (in_eg_issuedAt i)) (\<lambda>issuedAt.
     require Evidence_INVALID_TIMESTAMP (timestamp E (in_eg_expiresAt i)) (\<lambda>expiresAt.
     reject_if (date_le (Date_parse E expiresAt) (Date_parse E issuedAt)) Evidence_INVALID_TIMESTAMP (
     reject_if (case date_diff (Date_parse E expiresAt) (Date_parse E issuedAt) of
                  None \<Rightarrow> False | Some d \<Rightarrow> 15 * 60 * 1000 < d) Evidence_EXPIRY_TOO_LONG (
     require Evidence_INVALID_ACTION (one_of grant_actions (in_eg_action i)) (\<lambda>action.
     require Evidence_SOURCE_UNAVAILABLE (one_of source_states (in_eg_sourceState i)) (\<lambda>state.
     reject_if (action = Action_OPEN_ON_DEVICE \<and> in_eg_artifactDataMode i \<noteq> Artifact_Local) Evidence_INVALID_ACTION (
     reject_if (action = Action_EXCERPT \<and> in_eg_artifactDataMode i = Artifact_Local) Evidence_LOCAL_CONTENT_LEAK (
     reject_if (action = Action_EXCERPT \<and> state \<noteq> State_AVAILABLE) Evidence_SOURCE_UNAVAILABLE (
     require Evidence_INVALID_EPOCH (positiveInteger (in_eg_authorizationEpoch i)) (\<lambda>epoch.
     require Evidence_INVALID_BYTES
       (safe_integer_within 0 4096
          (nullish (in_eg_maxExcerptBytes i) (int_num (if action = Action_EXCERPT then 512 else 0)))) (\<lambda>bytes.
     reject_if (action \<noteq> Action_EXCERPT \<and> bytes \<noteq> 0) Evidence_INVALID_BYTES (
     accepted
       \<lparr>eg_grantId = grantId, eg_evidenceId = evidenceId, eg_artifactVersionId = versionId,
        eg_tenantScope = scope, eg_recipientDeviceId = deviceId, eg_action = action, eg_issuedAt = issuedAt,
        eg_expiresAt = expiresAt, eg_authorizationEpoch = epoch, eg_maxExcerptBytes = bytes\<rparr>)))))))))))))))))"

definition evidenceGrantMatchesScopeV1 :: "env \<Rightarrow> evidence_grant \<Rightarrow> jsval \<Rightarrow> bool" where
  "evidenceGrantMatchesScopeV1 E g v =
     (case scope_value E v of None \<Rightarrow> False | Some s \<Rightarrow> tenantScopesEqualV1 s (eg_tenantScope g))"

section \<open>Content does not leave its mode\<close>

text \<open>\<open>v\<close> is a version the module accepts as derived from sources with \<open>s\<close> among them.\<close>

definition derived :: "artifact_version \<Rightarrow> artifact_version \<Rightarrow> bool" where
  "derived s v \<longleftrightarrow> (\<exists>sources. s \<in> set sources \<and> validateDerivedArtifactVersionV1 v sources = accepted ())"

lemma source_ranks_accepted:
  "source_ranks v seen ranks ss = Inr rs \<Longrightarrow>
     set rs = set ranks \<union> (\<lambda>s. mode_rank (av_dataMode s)) ` set ss
     \<and> (\<forall>s\<in>set ss. av_versionId s \<noteq> av_versionId v \<and> av_tenantScope s = av_tenantScope v
          \<and> av_status s = Version_ACTIVE)"
  by (induction v seen ranks ss rule: source_ranks.induct) (auto simp: result_simps)

lemma derived_facts:
  assumes "derived s v"
  shows "mode_rank (av_dataMode v) \<le> mode_rank (av_dataMode s)" "av_tenantScope v = av_tenantScope s"
    "av_status s = Version_ACTIVE" "av_versionId s \<noteq> av_versionId v"
proof -
  obtain sources ranks where s: "s \<in> set sources" and ranks: "source_ranks v [] [] sources = Inr ranks"
    and min: "mode_rank (av_dataMode v) \<le> Min (set ranks)"
    using assms
    by (auto simp: derived_def validateDerivedArtifactVersionV1_def result_simps split: if_splits)
  have "mode_rank (av_dataMode s) \<in> set ranks" using source_ranks_accepted [OF ranks] s by auto
  then have "Min (set ranks) \<le> mode_rank (av_dataMode s)" by simp
  with min show "mode_rank (av_dataMode v) \<le> mode_rank (av_dataMode s)" by simp
  show "av_tenantScope v = av_tenantScope s" "av_status s = Version_ACTIVE" "av_versionId s \<noteq> av_versionId v"
    using source_ranks_accepted [OF ranks] s by auto
qed

lemma derived_narrows:
  "derived\<^sup>*\<^sup>* s v \<Longrightarrow> mode_rank (av_dataMode v) \<le> mode_rank (av_dataMode s) \<and> av_tenantScope v = av_tenantScope s"
  by (induction rule: rtranclp_induct) (auto dest: derived_facts)

lemma mode_rank_0: "mode_rank m \<le> 0 \<longleftrightarrow> m = Artifact_Local"
  by (cases m) simp_all

text \<open>Placements of a version, and what may happen to them.\<close>

inductive placement_step :: "content_placement \<Rightarrow> content_placement \<Rightarrow> bool" where
  availability: "updateContentPlacementAvailabilityV1 p a e = Inr q \<Longrightarrow> placement_step p q"

definition placement_of :: "env \<Rightarrow> artifact_version \<Rightarrow> content_placement \<Rightarrow> bool" where
  "placement_of E v p \<longleftrightarrow> (\<exists>i. in_cp_artifactVersion i = v \<and> createContentPlacementV1 E i = accepted p)"

definition placement_key where
  "placement_key p = (cp_placementId p, cp_artifactVersionId p, cp_tenantScope p, cp_kind p,
     cp_opaqueReference p, cp_contentSha256 p)"

definition placement_ok :: "artifact_version \<Rightarrow> content_placement \<Rightarrow> bool" where
  "placement_ok v p \<longleftrightarrow>
     cp_artifactVersionId p = av_versionId v \<and> cp_tenantScope p = av_tenantScope v
     \<and> cp_contentSha256 p = av_contentSha256 v
     \<and> (av_dataMode v = Artifact_Local \<longrightarrow> cp_kind p = Placement_LOCAL)
     \<and> (av_dataMode v = Artifact_Cloud \<longrightarrow> cp_kind p = Placement_CLOUD)"

lemma placement_step_cases:
  assumes "placement_step p q"
  shows "p = q \<or> q = p\<lparr>cp_available := \<not> cp_available p, cp_revision := js_succ (cp_revision p)\<rparr>"
  using assms
  by (cases rule: placement_step.cases)
     (auto simp: updateContentPlacementAvailabilityV1_def result_simps split: if_splits)

lemma placement_of_ok: "placement_of E v p \<Longrightarrow> placement_ok v p"
  by (auto simp: placement_of_def placement_ok_def createContentPlacementV1_def Let_def result_simps)

interpretation placements: guarded placement_step cp_available "(\<noteq>)" cp_revision placement_key
    "placement_of E v" "placement_ok v"
proof unfold_locales
  fix p q assume step: "placement_step p q"
  show "p = q \<or> cp_available p \<noteq> cp_available q" "p = q \<or> cp_revision q = js_succ (cp_revision p)"
    "placement_key q = placement_key p" "placement_ok v p \<Longrightarrow> placement_ok v q"
    using placement_step_cases [OF step] by (auto simp: placement_key_def placement_ok_def)
qed (rule placement_of_ok)

text \<open>
  C28: whatever is derived from a Local version, in any number of steps the module accepts, is Local
  and of the same tenant scope; whatever becomes of its placements they stay on the device, its evidence
  carries no excerpt and no grant gives one out.
\<close>

theorem local_content_stays_local:
  assumes run: "derived\<^sup>*\<^sup>* source v" and local: "av_dataMode source = Artifact_Local"
  shows "av_dataMode v = Artifact_Local \<and> av_tenantScope v = av_tenantScope source
    \<and> (\<forall>p q. placement_of E v p \<longrightarrow> placement_step\<^sup>*\<^sup>* p q \<longrightarrow>
         cp_kind q = Placement_LOCAL \<and> cp_tenantScope q = av_tenantScope source)
    \<and> (\<forall>i r. in_er_artifactVersion i = v \<longrightarrow> createEvidenceReferenceV1 E i = accepted r \<longrightarrow>
         er_excerpt r = None \<and> er_tenantScope r = av_tenantScope source)
    \<and> (\<forall>i g. in_eg_artifactDataMode i = av_dataMode v \<longrightarrow> createEvidenceAccessGrantV1 E i = accepted g \<longrightarrow>
         eg_action g \<noteq> Action_EXCERPT \<and> eg_maxExcerptBytes g = 0)"
proof (intro conjI allI impI)
  show v: "av_dataMode v = Artifact_Local" and scope: "av_tenantScope v = av_tenantScope source"
    using derived_narrows [OF run] local by (simp_all add: mode_rank_0)
  fix p q assume "placement_of E v p" "placement_step\<^sup>*\<^sup>* p q"
  then have "placement_ok v q" by (rule placements.reachable_invariant [rotated])
  then show "cp_kind q = Placement_LOCAL" "cp_tenantScope q = av_tenantScope source"
    using v scope by (simp_all add: placement_ok_def)
next
  fix i r assume "in_er_artifactVersion i = v" "createEvidenceReferenceV1 E i = accepted r"
  then show "er_excerpt r = None" "er_tenantScope r = av_tenantScope source"
    using derived_narrows [OF run] local
    by (auto simp: createEvidenceReferenceV1_def Let_def result_simps mode_rank_0)
next
  fix i g assume "in_eg_artifactDataMode i = av_dataMode v" "createEvidenceAccessGrantV1 E i = accepted g"
  moreover have "av_dataMode v = Artifact_Local" using derived_narrows [OF run] local by (simp add: mode_rank_0)
  ultimately show "eg_action g \<noteq> Action_EXCERPT" "eg_maxExcerptBytes g = 0"
    by (auto simp: createEvidenceAccessGrantV1_def result_simps)
qed

section \<open>Deletion\<close>

inductive deletion_step :: "env \<Rightarrow> deletion_request \<Rightarrow> deletion_request \<Rightarrow> bool" for E where
  authorize: "evaluateArtifactRetentionV1 E ev = Inr e \<Longrightarrow> authorizeArtifactDeletionV1 E r e a = Inr r' \<Longrightarrow>
    deletion_step E r r'"
| block: "evaluateArtifactRetentionV1 E ev = Inr e \<Longrightarrow> blockArtifactDeletionV1 r e = Inr r' \<Longrightarrow>
    deletion_step E r r'"

text \<open>Every window has passed at the time of the evaluation, and nothing holds the artifact.\<close>

definition passed :: "env \<Rightarrow> jsval \<Rightarrow> utc_timestamp \<Rightarrow> bool" where
  "passed E until now \<longleftrightarrow>
     (\<exists>u. timestamp E until = Some u \<and> \<not> date_less (Date_parse E now) (Date_parse E u))"

definition unheld :: "env \<Rightarrow> retention_input \<Rightarrow> utc_timestamp \<Rightarrow> bool" where
  "unheld E ev now \<longleftrightarrow>
     passed E (in_re_workspaceRetentionUntil ev) now \<and> passed E (in_re_resourceRetentionUntil ev) now
     \<and> passed E (in_re_auditRetentionUntil ev) now \<and> passed E (in_re_recoveryWindowUntil ev) now
     \<and> in_re_activeApproval ev = Bool False \<and> in_re_legalHold ev = Bool False"

lemma as_bool_iff: "as_bool v = Some b \<longleftrightarrow> v = Bool b"
  by (cases v) simp_all

lemma blocker_if_Nil [simp]: "blocker_if c b = [] \<longleftrightarrow> \<not> c"
  by (simp add: blocker_if_def)

lemma eligible_iff:
  assumes "evaluateArtifactRetentionV1 E ev = Inr e"
  shows "re_eligible e \<longleftrightarrow> unheld E ev (re_evaluatedAt e)"
  using assms
  by (auto simp: evaluateArtifactRetentionV1_def result_simps Let_def unheld_def passed_def as_bool_iff)

definition deletion_key where
  "deletion_key r = (dr_requestId r, dr_artifactVersionId r, dr_tenantScope r, dr_requestedBy r, dr_requestedAt r)"

definition deletion_ok :: "env \<Rightarrow> deletion_request \<Rightarrow> bool" where
  "deletion_ok E r \<longleftrightarrow>
     (deletable r \<and> dr_authorizedAt r = None)
     \<or> (dr_state r = Deletion_AUTHORIZED \<and> dr_blockers r = []
        \<and> (\<exists>approved. dr_authorizedAt r = Some approved \<and> \<not> date_less (Date_parse E approved) (Date_parse E (dr_requestedAt r)))
        \<and> (\<exists>ev e. evaluateArtifactRetentionV1 E ev = Inr e \<and> unheld E ev (re_evaluatedAt e)))"

lemma deletion_step_ok:
  assumes "deletion_step E r r'" "deletion_ok E r"
  shows "deletion_ok E r' \<and> deletion_key r' = deletion_key r \<and> deletable r"
  using assms(1)
proof (cases rule: deletion_step.cases)
  case (authorize ev e a)
  then show ?thesis
    using eligible_iff [OF authorize(1)]
    by (auto simp: authorizeArtifactDeletionV1_def result_simps deletion_ok_def deletion_key_def)
next
  case (block ev e)
  with assms(2) show ?thesis
    by (auto simp: blockArtifactDeletionV1_def result_simps deletion_ok_def deletion_key_def deletable_def)
qed

lemma deletion_created_ok: "createArtifactDeletionRequestV1 E i = Inr r \<Longrightarrow> deletion_ok E r"
  by (auto simp: createArtifactDeletionRequestV1_def result_simps deletion_ok_def deletable_def)

lemma deletion_run:
  "(deletion_step E)\<^sup>*\<^sup>* r r' \<Longrightarrow> deletion_ok E r \<Longrightarrow> deletion_ok E r' \<and> deletion_key r' = deletion_key r"
  by (induction rule: rtranclp_induct) (auto dest: deletion_step_ok)


text \<open>A request that is blocked again may change its blockers without a new revision.\<close>

lemma reblock_keeps_revision:
  "blockArtifactDeletionV1 r e = Inr r' \<Longrightarrow> dr_state r = Deletion_BLOCKED \<Longrightarrow>
     dr_revision r' = dr_revision r \<and> dr_blockers r' = re_blockers e"
  by (auto simp: blockArtifactDeletionV1_def result_simps)

section \<open>Grants\<close>

text \<open>
  A grant on evidence lives for at most 15 minutes, gives out at most 4096 bytes and any at all
  only as an excerpt of an available source that is not Local, under a positive epoch; where its two times are
  times at all.
\<close>

theorem evidence_grant_bounds:
  assumes "createEvidenceAccessGrantV1 E i = accepted g"
    and "Date_parse E (eg_issuedAt g) = Some issued" "Date_parse E (eg_expiresAt g) = Some expires"
  shows "issued < expires \<and> expires \<le> issued + 900000
    \<and> 0 \<le> eg_maxExcerptBytes g \<and> eg_maxExcerptBytes g \<le> 4096
    \<and> (eg_maxExcerptBytes g \<noteq> 0 \<longrightarrow> eg_action g = Action_EXCERPT \<and> in_eg_artifactDataMode i \<noteq> Artifact_Local
         \<and> one_of source_states (in_eg_sourceState i) = Some State_AVAILABLE)
    \<and> 1 \<le> eg_authorizationEpoch g \<and> eg_authorizationEpoch g \<le> max_safe_integer"
  using assms
  by (auto simp: createEvidenceAccessGrantV1_def result_simps safe_integer_within_Some
      dest: positiveInteger_bounds)

section \<open>Names of cells\<close>

text \<open>Columns are named in the bijective base 26: A, ..., Z, AA, ...\<close>

fun column_name :: "nat \<Rightarrow> jsstr" where
  "column_name n = (if n = 0 then [] else column_name ((n - 1) div 26) @ [of_nat (65 + (n - 1) mod 26)])"

declare column_name.simps [simp del]

definition dollar :: "bool \<Rightarrow> jsstr" where
  "dollar b = (if b then [of_char CHR ''$''] else [])"

text \<open>The name of a cell, with or without the signs that make its column or row absolute.\<close>

definition cell_name :: "bool \<Rightarrow> nat \<Rightarrow> bool \<Rightarrow> nat \<Rightarrow> jsstr" where
  "cell_name a c b r = dollar a @ column_name c @ dollar b @ show_nat r"

lemma spreadsheetColumnNumber_snoc:
  "spreadsheetColumnNumber (s @ [c]) = 26 * spreadsheetColumnNumber s + int (unat c) - 64"
  by (simp add: spreadsheetColumnNumber_def)

lemma letter_unat: "k < 26 \<Longrightarrow> unat (of_nat (65 + k) :: 16 word) = 65 + k"
  by (simp add: unat_of_nat del: of_nat_add)

lemma column_name_number: "spreadsheetColumnNumber (column_name n) = int n"
proof (induction n rule: column_name.induct)
  case (1 n)
  show ?case
  proof (cases n)
    case 0
    then show ?thesis by (simp add: column_name.simps [of 0] spreadsheetColumnNumber_def)
  next
    case (Suc k)
    have "26 * int (k div 26) + int (k mod 26) = int k"
      by (metis mult_div_mod_eq of_nat_add of_nat_mult of_nat_numeral)
    with 1 Suc show ?thesis
      by (subst column_name.simps) (simp add: spreadsheetColumnNumber_snoc letter_unat del: of_nat_add)
  qed
qed

lemma column_name_upper: "list_all upper (column_name n)"
proof (induction n rule: column_name.induct)
  case (1 n)
  have "upper (of_nat (65 + (n - 1) mod 26))"
    by (simp add: upper_def in_range_def letter_unat del: of_nat_add)
  with 1 show ?case by (simp add: column_name.simps [of n] del: of_nat_add)
qed

lemma column_name_nonempty [simp]: "column_name n = [] \<longleftrightarrow> n = 0"
  by (simp add: column_name.simps [of n])

lemma column_name_length: "n < 26 ^ k \<Longrightarrow> length (column_name n) \<le> k"
proof (induction k arbitrary: n)
  case 0
  then show ?case by (simp add: column_name.simps)
next
  case (Suc k)
  show ?case
  proof (cases "n = 0")
    case False
    have "n - 1 < 26 ^ k * 26" using Suc.prems False by simp
    then have "(n - 1) div 26 < 26 ^ k" by (rule less_mult_imp_div_less)
    with False Suc.IH show ?thesis by (simp add: column_name.simps [of n])
  qed (simp add: column_name.simps)
qed

lemma spreadsheetColumnNumber_nonneg: "list_all upper s \<Longrightarrow> 0 \<le> spreadsheetColumnNumber s"
  by (induction s rule: rev_induct)
     (auto simp: spreadsheetColumnNumber_def upper_def in_range_def simp del: of_nat_unat)

lemma column_name_of: "list_all upper s \<Longrightarrow> column_name (nat (spreadsheetColumnNumber s)) = s"
proof (induction s rule: rev_induct)
  case Nil
  show ?case by (simp add: spreadsheetColumnNumber_def column_name.simps)
next
  case (snoc c s)
  define m k where "m = nat (spreadsheetColumnNumber s)" and "k = unat c - 65"
  have c: "65 \<le> unat c" "k < 26" and c': "of_nat (65 + k) = c"
    using snoc.prems by (auto simp: upper_def in_range_def k_def)
  have n: "nat (spreadsheetColumnNumber (s @ [c])) = Suc (26 * m + k)"
    using snoc.prems c spreadsheetColumnNumber_nonneg [of s]
    by (simp add: spreadsheetColumnNumber_snoc m_def k_def nat_add_distrib nat_mult_distrib del: of_nat_unat)
  have "(26 * m + k) div 26 = m" "(26 * m + k) mod 26 = k" using c by simp_all
  with n c' snoc show ?case
    by (simp add: column_name.simps [of "Suc (26 * m + k)"] m_def [symmetric] del: of_nat_add)
qed

lemma decimal_nonneg: "list_all digit s \<Longrightarrow> 0 \<le> decimal s"
  by (induction s rule: rev_induct)
     (auto simp: decimal_def digit_def in_range_def digit_value_def simp del: of_nat_unat)

lemma decimal_leading:
  "list_all digit s \<Longrightarrow> s \<noteq> [] \<Longrightarrow> in_range 49 57 (hd s) \<Longrightarrow> 1 \<le> decimal s"
proof (induction s rule: rev_induct)
  case (snoc c s)
  show ?case
  proof (cases "s = []")
    case True
    with snoc.prems show ?thesis by (simp add: decimal_def digit_value_def in_range_def del: of_nat_unat)
  next
    case False
    with snoc have "1 \<le> decimal s" by simp
    with snoc.prems show ?thesis
      by (simp add: decimal_snoc digit_value_def digit_def in_range_def del: of_nat_unat)
  qed
qed simp

lemma show_nat_of:
  "list_all digit s \<Longrightarrow> s \<noteq> [] \<Longrightarrow> in_range 49 57 (hd s) \<Longrightarrow> show_nat (nat (decimal s)) = s"
proof (induction s rule: rev_induct)
  case (snoc c s)
  define k where "k = unat c - 48"
  have c: "48 \<le> unat c" "k < 10" and c': "of_nat (48 + k) = c"
    using snoc.prems by (auto simp: digit_def in_range_def k_def)
  have v: "digit_value c = int k" using c by (simp add: digit_value_def k_def del: of_nat_unat)
  show ?case
  proof (cases "s = []")
    case True
    with c c' v show ?thesis
      by (simp add: decimal_def show_nat.simps [of k] del: of_nat_add)
  next
    case False
    with snoc have s: "show_nat (nat (decimal s)) = s" "1 \<le> decimal s"
      using decimal_leading [of s] by simp_all
    define m where "m = nat (decimal s)"
    have n: "nat (decimal (s @ [c])) = 10 * m + k" using s v by (simp add: decimal_snoc m_def)
    have "(10 * m + k) div 10 = m" "(10 * m + k) mod 10 = k" "\<not> 10 * m + k < 10"
      using c s by (simp_all add: m_def)
    with n s c' show ?thesis
      by (simp add: show_nat.simps [of "10 * m + k"] m_def [symmetric] del: of_nat_add)
  qed
qed simp

lemma show_nat_leading: "1 \<le> n \<Longrightarrow> in_range 49 57 (hd (show_nat n))"
proof (induction n rule: show_nat.induct)
  case (1 n)
  show ?case
  proof (cases "n < 10")
    case True
    with 1 show ?thesis
      by (simp add: show_nat.simps [of n] in_range_def unat_of_nat del: of_nat_add)
  next
    case False
    with 1 show ?thesis by (simp add: show_nat.simps [of n] hd_append del: of_nat_add)
  qed
qed

section \<open>Coordinates within the geometry\<close>

lemma drop_dollar_dollar: "s = [] \<or> hd s \<noteq> of_char CHR ''$'' \<Longrightarrow> drop_dollar (dollar b @ s) = s"
  by (cases s) (auto simp: drop_dollar_def dollar_def)

lemma drop_dollar_split: "\<exists>b. s = dollar b @ drop_dollar s"
proof (cases s)
  case Nil
  then show ?thesis by (auto simp: drop_dollar_def dollar_def)
next
  case (Cons c r)
  then have "s = dollar (c = of_char CHR ''$'') @ drop_dollar s" by (simp add: drop_dollar_def dollar_def)
  then show ?thesis by blast
qed

lemma dollar_not_upper: "list_all upper s \<Longrightarrow> s \<noteq> [] \<Longrightarrow> hd s \<noteq> of_char CHR ''$''"
  by (cases s) (auto simp: upper_def in_range_def)

lemma dollar_not_digit: "list_all digit s \<Longrightarrow> s \<noteq> [] \<Longrightarrow> hd s \<noteq> of_char CHR ''$''"
  by (cases s) (auto simp: digit_def in_range_def)

lemma digit_not_upper: "digit c \<Longrightarrow> \<not> upper c"
  by (auto simp: upper_def digit_def in_range_def)

lemma after_letters:
  assumes "list_all upper s" "list_all digit t" "t \<noteq> []"
  shows "takeWhile upper (s @ dollar b @ t) = s" "dropWhile upper (s @ dollar b @ t) = dollar b @ t"
proof -
  have "dollar b @ t \<noteq> []" "\<not> upper (hd (dollar b @ t))"
    using assms(2,3) by (cases t; auto simp: dollar_def digit_not_upper; auto simp: upper_def in_range_def)+
  then obtain c r where "dollar b @ t = c # r" "\<not> upper c" by (cases "dollar b @ t") auto
  with assms(1) show "takeWhile upper (s @ dollar b @ t) = s" "dropWhile upper (s @ dollar b @ t) = dollar b @ t"
    by (auto simp: list_all_iff takeWhile_append dropWhile_append)
qed

lemma address_parts_cell_name:
  assumes "1 \<le> c" "c < 26 ^ 3" "1 \<le> r"
  shows "address_parts (cell_name a c b r) = Some (column_name c, show_nat r)"
proof -
  have dollars: "drop_dollar (cell_name a c b r) = column_name c @ dollar b @ show_nat r"
    "drop_dollar (dollar b @ show_nat r) = show_nat r"
    using assms dollar_not_upper [OF column_name_upper, of c] dollar_not_digit [OF show_nat_digits, of r]
    by (auto simp: cell_name_def hd_append intro!: drop_dollar_dollar)
  have "length (column_name c) \<le> 3" using assms(2) by (rule column_name_length)
  moreover have "1 \<le> length (column_name c)"
    using assms(1) column_name_nonempty [of c] by (cases "column_name c") auto
  ultimately show ?thesis
    using assms(3) after_letters [OF column_name_upper show_nat_digits] show_nat_digits [of r]
      show_nat_leading [of r]
    by (simp add: address_parts_def dollars Let_def)
qed

lemma address_parts_Some:
  assumes "address_parts s = Some (letters, ds)"
  obtains a b c r where "s = cell_name a c b r" "1 \<le> c" "1 \<le> r"
    "spreadsheetColumnNumber letters = int c" "decimal ds = int r"
proof -
  obtain a where s: "s = dollar a @ drop_dollar s" using drop_dollar_split by blast
  define s1 where "s1 = drop_dollar s"
  obtain b where d: "dropWhile upper s1 = dollar b @ drop_dollar (dropWhile upper s1)"
    using drop_dollar_split by blast
  from assms have parts: "letters = takeWhile upper s1" "ds = drop_dollar (dropWhile upper s1)"
    "letters \<noteq> []" "ds \<noteq> []" "in_range 49 57 (hd ds)" "list_all digit ds"
    by (auto simp: address_parts_def Let_def s1_def split: if_splits)
  have up: "list_all upper letters" using parts(1) by (auto simp: list_all_iff dest: set_takeWhileD)
  define c r where "c = nat (spreadsheetColumnNumber letters)" and "r = nat (decimal ds)"
  have names: "column_name c = letters" "show_nat r = ds"
    using column_name_of [OF up] show_nat_of [OF parts(6,4,5)] by (simp_all add: c_def r_def)
  have "s1 = letters @ dollar b @ ds"
    using d parts(1,2) takeWhile_dropWhile_id [of upper s1] by metis
  with s names have "s = cell_name a c b r" by (simp add: cell_name_def s1_def)
  moreover have "1 \<le> r" "decimal ds = int r"
    using decimal_leading [OF parts(6,4,5)] by (simp_all add: r_def)
  moreover have "1 \<le> c" using names parts(3) column_name_nonempty [of c] by (cases c) auto
  moreover have "spreadsheetColumnNumber letters = int c" using names column_name_number [of c] by simp
  ultimately show thesis using that by blast
qed

lemma sheets_ok_member:
  assumes "sheets_ok E names vs" "v \<in> set vs"
  obtains name rows columns where "artifact_boundedText E (field v ''name'') 255 = Some name" "name \<notin> set names"
    "safe_integer (field v ''maxRow'') = Some rows" "rows \<le> 1000000"
    "safe_integer (field v ''maxColumn'') = Some columns" "columns \<le> 16384"
  using assms
  by (induction E names vs rule: sheets_ok.induct)
     (auto simp: safe_integer_within_Some split: option.splits)

lemma sheets_ok_unique:
  "sheets_ok E names vs \<Longrightarrow> v \<in> set vs \<Longrightarrow> w \<in> set vs \<Longrightarrow>
     artifact_boundedText E (field v ''name'') 255 = artifact_boundedText E (field w ''name'') 255 \<Longrightarrow> v = w"
proof (induction E names vs rule: sheets_ok.induct)
  case (2 E names x xs)
  then obtain name where x: "artifact_boundedText E (field x ''name'') 255 = Some name"
    and xs: "sheets_ok E (name # names) xs"
    by (auto split: option.splits)
  have "artifact_boundedText E (field u ''name'') 255 \<noteq> Some name" if "u \<in> set xs" for u
    using sheets_ok_member [OF xs that] by (metis list.set_intros(1) option.inject)
  with 2 x xs show ?case by (metis set_ConsD)
qed simp

lemma sheets_ok_find:
  assumes "sheets_ok E [] vs"
  shows "List.find (\<lambda>v. artifact_boundedText E (field v ''name'') 255 = Some sheet) vs = Some found
    \<longleftrightarrow> found \<in> set vs \<and> artifact_boundedText E (field found ''name'') 255 = Some sheet"
proof
  assume "List.find (\<lambda>v. artifact_boundedText E (field v ''name'') 255 = Some sheet) vs = Some found"
  then show "found \<in> set vs \<and> artifact_boundedText E (field found ''name'') 255 = Some sheet"
    by (auto simp: find_Some_iff)
next
  assume found: "found \<in> set vs \<and> artifact_boundedText E (field found ''name'') 255 = Some sheet"
  obtain w where w: "List.find (\<lambda>v. artifact_boundedText E (field v ''name'') 255 = Some sheet) vs = Some w"
    using found by (cases "List.find (\<lambda>v. artifact_boundedText E (field v ''name'') 255 = Some sheet) vs")
      (auto simp: find_None_iff)
  then have "w \<in> set vs" "artifact_boundedText E (field w ''name'') 255 = Some sheet"
    by (auto simp: find_Some_iff)
  with found w show "List.find (\<lambda>v. artifact_boundedText E (field v ''name'') 255 = Some sheet) vs = Some found"
    using sheets_ok_unique [OF assms, of w found] by simp
qed

lemma as_array_Some: "as_array v = Some vs \<longleftrightarrow> v = Arr vs"
  by (cases v) simp_all

text \<open>What a geometry that was accepted says of its sheets.\<close>

lemma geometry_sheets:
  assumes "isEvidenceGeometry E g" "field g ''kind'' = Str (js ''SPREADSHEET'')"
  obtains vs where "field g ''sheets'' = Arr vs" "sheets_ok E [] vs"
  using assms by (auto simp: isEvidenceGeometry_def split: jsval.splits)

lemma geometry_not_falsy: "isEvidenceGeometry E g \<Longrightarrow> \<not> falsy g"
  by (auto simp: isEvidenceGeometry_def falsy_def)

definition cell_within :: "env \<Rightarrow> jsval \<Rightarrow> jsstr \<Rightarrow> jsstr \<Rightarrow> bool" where
  "cell_within E g sheet address \<longleftrightarrow>
     field g ''kind'' = Str (js ''SPREADSHEET'')
     \<and> (\<exists>vs v rows columns a c b r. field g ''sheets'' = Arr vs \<and> v \<in> set vs
          \<and> artifact_boundedText E (field v ''name'') 255 = Some sheet
          \<and> safe_integer (field v ''maxRow'') = Some rows \<and> safe_integer (field v ''maxColumn'') = Some columns
          \<and> to_upper E address = cell_name a c b r
          \<and> 1 \<le> c \<and> int c \<le> columns \<and> 1 \<le> r \<and> int r \<le> rows)"

lemma validate_cell_iff:
  assumes "isEvidenceGeometry E g"
  shows "validateEvidenceCoordinateV1 E (Cell_coordinate sheet address) g = Inr () \<longleftrightarrow>
    field g ''kind'' = Str (js ''SPREADSHEET'')
    \<and> (\<exists>vs v letters ds rows columns. field g ''sheets'' = Arr vs
        \<and> List.find (\<lambda>v. artifact_boundedText E (field v ''name'') 255 = Some sheet) vs = Some v
        \<and> address_parts (to_upper E address) = Some (letters, ds)
        \<and> safe_integer (field v ''maxRow'') = Some rows \<and> safe_integer (field v ''maxColumn'') = Some columns
        \<and> decimal ds \<le> rows \<and> spreadsheetColumnNumber letters \<le> columns)"
  using assms geometry_not_falsy [OF assms]
  by (auto simp: validateEvidenceCoordinateV1_def result_simps bind_eq_Some_conv as_array_Some
      split: jsval.splits)

text \<open>
  C30: against an accepted geometry a cell coordinate is accepted exactly if its address is, in any case
  and with or without dollar signs, the spreadsheet name of a cell within the bounds of the sheet it names;
  columns are named in the bijective base 26.
\<close>

theorem cell_address_exact:
  assumes g: "isEvidenceGeometry E g"
  shows "validateEvidenceCoordinateV1 E (Cell_coordinate sheet address) g = accepted ()
    \<longleftrightarrow> cell_within E g sheet address"
proof
  assume ok: "validateEvidenceCoordinateV1 E (Cell_coordinate sheet address) g = accepted ()"
  then obtain vs v letters ds rows columns where
    found: "field g ''kind'' = Str (js ''SPREADSHEET'')" "field g ''sheets'' = Arr vs"
      "List.find (\<lambda>v. artifact_boundedText E (field v ''name'') 255 = Some sheet) vs = Some v"
      "safe_integer (field v ''maxRow'') = Some rows" "safe_integer (field v ''maxColumn'') = Some columns"
    and parts: "address_parts (to_upper E address) = Some (letters, ds)"
    and within: "decimal ds \<le> rows" "spreadsheetColumnNumber letters \<le> columns"
    unfolding validate_cell_iff [OF g] by blast
  obtain a b c r where "to_upper E address = cell_name a c b r" "1 \<le> c" "1 \<le> r"
    "spreadsheetColumnNumber letters = int c" "decimal ds = int r"
    using parts by (rule address_parts_Some)
  moreover have "v \<in> set vs" "artifact_boundedText E (field v ''name'') 255 = Some sheet"
    using found(3) by (auto simp: find_Some_iff)
  moreover have "int c \<le> columns" "int r \<le> rows" using calculation within by simp_all
  ultimately show "cell_within E g sheet address"
    using found unfolding cell_within_def by blast
next
  assume "cell_within E g sheet address"
  then obtain vs v rows columns a c b r where
    found: "field g ''kind'' = Str (js ''SPREADSHEET'')" "field g ''sheets'' = Arr vs" "v \<in> set vs"
      "artifact_boundedText E (field v ''name'') 255 = Some sheet"
      "safe_integer (field v ''maxRow'') = Some rows" "safe_integer (field v ''maxColumn'') = Some columns"
    and name: "to_upper E address = cell_name a c b r" and c: "1 \<le> c" "int c \<le> columns"
    and r: "1 \<le> r" "int r \<le> rows"
    unfolding cell_within_def by blast
  have sheets: "sheets_ok E [] vs" using geometry_sheets [OF g found(1)] found(2) by (metis jsval.inject(4))
  then have "columns \<le> 16384" using sheets_ok_member [OF sheets found(3)] found(6) by (metis option.inject)
  with c have "address_parts (to_upper E address) = Some (column_name c, show_nat r)"
    unfolding name by (intro address_parts_cell_name r(1)) simp_all
  moreover have "List.find (\<lambda>v. artifact_boundedText E (field v ''name'') 255 = Some sheet) vs = Some v"
    using sheets_ok_find [OF sheets] found(3,4) by blast
  ultimately show "validateEvidenceCoordinateV1 E (Cell_coordinate sheet address) g = accepted ()"
    unfolding validate_cell_iff [OF g]
    using found c r by (auto simp: column_name_number decimal_show_nat)
qed

section \<open>A time that is no time\<close>

text \<open>A leap second.\<close>

definition leap_second :: utc_timestamp where
  "leap_second = js ''2999-12-31T23:59:60.000Z''"

lemma leap_second_iso: "iso_date leap_second = None"
  by code_simp

lemma leap_second_no_date:
  assumes "other_date E leap_second = None"
  shows "Date_parse E leap_second = None"
  using assms by (simp add: Date_parse_def leap_second_iso)

lemma leap_second_last: "leap_second \<noteq> []" "last leap_second = 90"
  by code_simp+

lemma leap_second_timestamp: "date_time_format E leap_second \<Longrightarrow> timestamp E (Str leap_second) = Some leap_second"
  by (simp add: timestamp_def parseStrictUtcTimestampV1_def contract_utc_timestamp_def reject_if_def
      accepted_value_def leap_second_last is_char_def)

lemma set_blocker_if: "x \<in> set (blocker_if c b) \<longleftrightarrow> c \<and> x = b"
  by (auto simp: blocker_if_def)

text \<open>
  C31: the format of a timestamp (RFC 3339) admits a leap second, which is no date to
  \<open>Date.parse\<close>. A grant that ends at one passes both tests of its life time and has no end, and a
  retention window that ends at one blocks nothing.
\<close>

theorem leap_second_never_ends:
  assumes format: "date_time_format E leap_second" and date: "other_date E leap_second = None"
    and grant: "createEvidenceAccessGrantV1 E i = accepted g"
    and evaluation: "evaluateArtifactRetentionV1 E ev = accepted e"
  shows "createEvidenceAccessGrantV1 E (i\<lparr>in_eg_expiresAt := Str leap_second\<rparr>) = accepted (g\<lparr>eg_expiresAt := leap_second\<rparr>)
    \<and> (\<forall>now. \<not> date_le (Date_parse E leap_second) (Date_parse E now))
    \<and> (\<exists>e'. evaluateArtifactRetentionV1 E (ev\<lparr>in_re_workspaceRetentionUntil := Str leap_second\<rparr>) = accepted e'
         \<and> Blocker_WORKSPACE_RETENTION \<notin> set (re_blockers e'))"
proof (intro conjI allI)
  note leap = leap_second_timestamp [OF format] leap_second_no_date [OF date]
  show "createEvidenceAccessGrantV1 E (i\<lparr>in_eg_expiresAt := Str leap_second\<rparr>) = accepted (g\<lparr>eg_expiresAt := leap_second\<rparr>)"
    using grant unfolding createEvidenceAccessGrantV1_def result_simps
    by (elim exE conjE) (clarsimp simp: leap)
  show "\<not> date_le (Date_parse E leap_second) (Date_parse E now)" for now by (simp add: leap)
  show "\<exists>e'. evaluateArtifactRetentionV1 E (ev\<lparr>in_re_workspaceRetentionUntil := Str leap_second\<rparr>) = accepted e'
         \<and> Blocker_WORKSPACE_RETENTION \<notin> set (re_blockers e')"
    using evaluation unfolding evaluateArtifactRetentionV1_def result_simps
    by (elim exE conjE) (simp add: leap Let_def set_blocker_if)
qed

section \<open>Samples\<close>

definition sample_artifact :: "char \<Rightarrow> artifact_version" where
  "sample_artifact c =
     \<lparr>av_artifactId = uuid_of CHR ''a'', av_versionId = uuid_of c, av_tenantScope = ws_scope CHR ''a'' CHR ''b'',
      av_sourceKind = Source_FILE, av_dataMode = Artifact_Local, av_contentSha256 = hash_of CHR ''a'',
      av_byteSize = 10, av_mediaType = js ''text/csv'', av_displayName = js ''a.csv'', av_createdAt = time_of ''00'',
      av_status = Version_ACTIVE, av_scanState = Scan_CLEAN\<rparr>"

definition sample_placement_input :: placement_input where
  "sample_placement_input =
     \<lparr>in_cp_placementId = sample_id CHR ''e'', in_cp_artifactVersion = sample_artifact CHR ''d'',
      in_cp_tenantScope = sample_scope CHR ''a'' CHR ''b'', in_cp_kind = Str (js ''LOCAL''),
      in_cp_opaqueReference = sample_hash CHR ''f'', in_cp_contentSha256 = sample_hash CHR ''a'',
      in_cp_available = Undefined, in_cp_revision = Undefined\<rparr>"

definition sample_placement :: content_placement where
  "sample_placement =
     \<lparr>cp_placementId = uuid_of CHR ''e'', cp_artifactVersionId = uuid_of CHR ''d'',
      cp_tenantScope = ws_scope CHR ''a'' CHR ''b'', cp_kind = Placement_LOCAL,
      cp_opaqueReference = hash_of CHR ''f'', cp_contentSha256 = hash_of CHR ''a'',
      cp_available = True, cp_revision = 1\<rparr>"

lemma sample_reference: "opaqueReference (sample_hash CHR ''f'') = Some (hash_of CHR ''f'')"
  by code_simp

lemma sample_artifact_simps:
  "av_versionId (sample_artifact c) = uuid_of c" "av_tenantScope (sample_artifact c) = ws_scope CHR ''a'' CHR ''b''"
  "av_dataMode (sample_artifact c) = Artifact_Local" "av_contentSha256 (sample_artifact c) = hash_of CHR ''a''"
  "av_status (sample_artifact c) = Version_ACTIVE"
  by (simp_all add: sample_artifact_def)

lemma sample_placement_of: "placement_of sample_env (sample_artifact CHR ''d'') sample_placement"
  unfolding placement_of_def
  by (rule exI [of _ sample_placement_input])
     (simp add: createContentPlacementV1_def sample_placement_input_def sample_placement_def sample_artifact_simps
       sample_reference result_simps placement_kinds_def)

lemma sample_derived: "derived (sample_artifact CHR ''c'') (sample_artifact CHR ''d'')"
  unfolding derived_def
  by (rule exI [of _ "[sample_artifact CHR ''c'']"])
     (simp add: validateDerivedArtifactVersionV1_def result_simps sample_artifact_simps)

theorem local_content_stays_local_witness:
  "derived\<^sup>*\<^sup>* (sample_artifact CHR ''c'') (sample_artifact CHR ''d'')
   \<and> (\<exists>p q. placement_of sample_env (sample_artifact CHR ''d'') p \<and> placement_step\<^sup>*\<^sup>* p q
        \<and> cp_available p \<noteq> cp_available q \<and> cp_kind q = Placement_LOCAL)"
proof -
  have run: "derived\<^sup>*\<^sup>* (sample_artifact CHR ''c'') (sample_artifact CHR ''d'')" using sample_derived by blast
  define q where "q = sample_placement\<lparr>cp_available := False, cp_revision := js_succ (cp_revision sample_placement)\<rparr>"
  have "updateContentPlacementAvailabilityV1 sample_placement (Bool False) (int_num 1) = Inr q"
    by (simp add: updateContentPlacementAvailabilityV1_def q_def sample_placement_def result_simps
        positiveInteger_def safe_integer_from_def max_safe_integer_def)
  then have step: "placement_step\<^sup>*\<^sup>* sample_placement q" by (blast intro: placement_step.availability)
  have "cp_kind q = Placement_LOCAL"
    using local_content_stays_local [OF run, of sample_env] sample_placement_of step
    by (simp add: sample_artifact_simps)
  moreover have "cp_available sample_placement \<noteq> cp_available q" by (simp add: q_def sample_placement_def)
  ultimately show ?thesis using run step sample_placement_of by blast
qed

definition sample_sheet :: jsval where
  "sample_sheet =
     Obj [(js ''name'', Str (js ''S'')), (js ''maxRow'', int_num 10), (js ''maxColumn'', int_num 30)]"

definition sample_geometry :: jsval where
  "sample_geometry =
     Obj [(js ''kind'', Str (js ''SPREADSHEET'')), (js ''sheets'', Arr [sample_sheet])]"

lemma sample_geometry_fields:
  "isRecord sample_geometry" "field sample_geometry ''kind'' = Str (js ''SPREADSHEET'')"
  "field sample_geometry ''sheets'' = Arr [sample_sheet]" "isRecord sample_sheet"
  by (simp_all add: sample_geometry_def sample_sheet_def)

lemma sample_name: "trim (js ''S'') = js ''S''" "\<not> hasControlCharacter (js ''S'')" "nfc sample_env s = s"
  by (simp_all add: trim_def whitespace_def in_range_def hasControlCharacter_def sample_env_def js_Cons js_Nil)

lemma sample_sheet_fields:
  "artifact_boundedText sample_env (field sample_sheet ''name'') 255 = Some (js ''S'')"
  "safe_integer (field sample_sheet ''maxRow'') = Some 10" "safe_integer (field sample_sheet ''maxColumn'') = Some 30"
  by (simp_all add: sample_sheet_def artifact_boundedText_def sample_name max_safe_integer_def)

lemma sample_geometry_ok: "isEvidenceGeometry sample_env sample_geometry"
  by (simp add: isEvidenceGeometry_def sample_geometry_fields sample_sheet_fields safe_integer_within_def)

lemma sample_cell:
  "validateEvidenceCoordinateV1 sample_env (Cell_coordinate (js ''S'') a) sample_geometry = Inr () \<longleftrightarrow>
     (\<exists>letters ds. address_parts (to_upper sample_env a) = Some (letters, ds)
        \<and> decimal ds \<le> 10 \<and> spreadsheetColumnNumber letters \<le> 30)"
  by (simp add: validate_cell_iff [OF sample_geometry_ok] sample_geometry_fields sample_sheet_fields)

lemma sample_addresses:
  "address_parts (to_upper sample_env (js ''$ad10'')) = Some (js ''AD'', js ''10'')"
  "address_parts (to_upper sample_env (js ''AD11'')) = Some (js ''AD'', js ''11'')"
  "address_parts (to_upper sample_env (js ''AE1'')) = Some (js ''AE'', js ''1'')"
  "decimal (js ''10'') = 10" "decimal (js ''11'') = 11" "decimal (js ''1'') = 1"
  "spreadsheetColumnNumber (js ''AD'') = 30" "spreadsheetColumnNumber (js ''AE'') = 31"
  by code_simp+

theorem cell_address_exact_witness:
  "cell_within sample_env sample_geometry (js ''S'') (js ''$ad10'')
   \<and> \<not> cell_within sample_env sample_geometry (js ''S'') (js ''AD11'')
   \<and> \<not> cell_within sample_env sample_geometry (js ''S'') (js ''AE1'')"
  unfolding cell_address_exact [OF sample_geometry_ok, symmetric] sample_cell
  by (simp add: sample_addresses)

definition sample_retention_input :: retention_input where
  "sample_retention_input =
     \<lparr>in_re_evaluatedAt = sample_time ''05'', in_re_workspaceRetentionUntil = sample_time ''00'',
      in_re_resourceRetentionUntil = sample_time ''01'', in_re_auditRetentionUntil = sample_time ''05'',
      in_re_recoveryWindowUntil = sample_time ''02'', in_re_activeApproval = Bool False,
      in_re_legalHold = Bool False\<rparr>"

lemma sample_evaluated:
  "evaluateArtifactRetentionV1 sample_env sample_retention_input
     = Inr \<lparr>re_eligible = True, re_blockers = [], re_evaluatedAt = time_of ''05''\<rparr>"
  by (simp add: evaluateArtifactRetentionV1_def sample_retention_input_def result_simps Let_def blocker_if_def)

definition sample_deletion_input :: deletion_input where
  "sample_deletion_input =
     \<lparr>in_dr_requestId = sample_id CHR ''a'', in_dr_artifactVersionId = sample_id CHR ''d'',
      in_dr_tenantScope = sample_scope CHR ''a'' CHR ''b'', in_dr_requestedBy = sample_id CHR ''c'',
      in_dr_requestedAt = sample_time ''03''\<rparr>"

definition sample_authorization :: authorize_deletion_input where
  "sample_authorization =
     \<lparr>in_ad_tenantScope = sample_scope CHR ''a'' CHR ''b'', in_ad_approvedAt = sample_time ''05'',
      in_ad_mfaSatisfied = Bool True\<rparr>"


definition sample_evidence_grant_input :: evidence_grant_input where
  "sample_evidence_grant_input =
     \<lparr>in_eg_grantId = sample_id CHR ''a'', in_eg_evidenceId = sample_id CHR ''b'',
      in_eg_artifactVersionId = sample_id CHR ''c'', in_eg_tenantScope = sample_scope CHR ''a'' CHR ''b'',
      in_eg_recipientDeviceId = sample_id CHR ''d'', in_eg_action = Str (js ''EXCERPT''),
      in_eg_issuedAt = sample_time ''00'', in_eg_expiresAt = sample_time ''30'',
      in_eg_authorizationEpoch = int_num 1, in_eg_maxExcerptBytes = Undefined,
      in_eg_artifactDataMode = Artifact_Cloud, in_eg_sourceState = Str (js ''AVAILABLE'')\<rparr>"

theorem evidence_grant_bounds_witness:
  "\<exists>g issued expires. createEvidenceAccessGrantV1 sample_env sample_evidence_grant_input = accepted g
     \<and> Date_parse sample_env (eg_issuedAt g) = Some issued \<and> Date_parse sample_env (eg_expiresAt g) = Some expires
     \<and> expires \<le> issued + 900000 \<and> eg_maxExcerptBytes g = 512"
proof -
  obtain g where g: "createEvidenceAccessGrantV1 sample_env sample_evidence_grant_input = Inr g"
    "eg_issuedAt g = time_of ''00''" "eg_expiresAt g = time_of ''30''" "eg_maxExcerptBytes g = 512"
    by (simp add: createEvidenceAccessGrantV1_def sample_evidence_grant_input_def result_simps grant_actions_def
        source_states_def positiveInteger_def safe_integer_from_def safe_integer_within_def
        max_safe_integer_def nullish_def)
  obtain a b where "Date_parse sample_env (eg_issuedAt g) = Some a" "Date_parse sample_env (eg_expiresAt g) = Some b"
    using g by simp
  then show ?thesis using evidence_grant_bounds [OF g(1)] g by blast
qed

text \<open>The format of RFC 3339 admits second 60, \<open>Date.parse\<close> does not.\<close>

definition leap_env :: env where
  "leap_env = sample_env\<lparr>date_time_format := (\<lambda>s. s = leap_second \<or> iso_date s \<noteq> None)\<rparr>"

lemma leap_env_stable: "letter c \<Longrightarrow> stable leap_env (sample_id c) = Some (uuid_of c)"
  by (simp add: identifierFrom_Str uuid_format_documented_def leap_env_def sample_env_def)

lemma leap_env_time: "iso_date (time_of n) \<noteq> None \<Longrightarrow> timestamp leap_env (sample_time n) = timestamp sample_env (sample_time n)"
  by (simp add: timestamp_def parseStrictUtcTimestampV1_def contract_utc_timestamp_def leap_env_def sample_env_def)

lemma leap_env_date: "Date_parse leap_env s = Date_parse sample_env s"
  by (simp add: Date_parse_def leap_env_def split: option.split)

lemma leap_env_scope: "wf_scope s \<Longrightarrow> scope_value leap_env (scope_object s) = Some s"
  by (simp add: scope_value_def parse_scope_object uuid_format_documented_def leap_env_def sample_env_def)

theorem leap_second_never_ends_witness:
  "\<exists>g. createEvidenceAccessGrantV1 leap_env (sample_evidence_grant_input\<lparr>in_eg_expiresAt := Str leap_second\<rparr>) = accepted g
     \<and> eg_expiresAt g = leap_second"
proof -
  have times: "iso_date (time_of ''00'') \<noteq> None" "iso_date (time_of ''01'') \<noteq> None"
    "iso_date (time_of ''02'') \<noteq> None" "iso_date (time_of ''05'') \<noteq> None" "iso_date (time_of ''30'') \<noteq> None"
    by code_simp+
  obtain g where g: "createEvidenceAccessGrantV1 leap_env sample_evidence_grant_input = Inr g"
    by (simp add: createEvidenceAccessGrantV1_def sample_evidence_grant_input_def result_simps grant_actions_def
        source_states_def positiveInteger_def safe_integer_from_def safe_integer_within_def
        max_safe_integer_def nullish_def leap_env_stable leap_env_scope leap_env_time times leap_env_date)
  obtain e where e: "evaluateArtifactRetentionV1 leap_env sample_retention_input = Inr e"
    by (simp add: evaluateArtifactRetentionV1_def sample_retention_input_def result_simps Let_def
        leap_env_time times)
  have "date_time_format leap_env leap_second" "other_date leap_env leap_second = None"
    by (simp_all add: leap_env_def sample_env_def)
  from leap_second_never_ends [OF this g e] show ?thesis by auto
qed

end
