(* ===== verification/QualityGuard.thy ===== *)
theory QualityGuard
  imports Samples Doubles Fingerprint "HOL-Library.AList"
begin

text \<open>
  packages/domain/src/data-quality-guard/v1.ts: contracts of rules over a table, the findings of a run, and
  repairs that derive a new version of the table. The sources throw \<open>Error\<close>s where other modules reject;
  here these are \<open>Inl\<close> results, and the engine's own \<open>TypeError\<close> is one of them. The cells of a row are
  scalars, as \<open>DataQualityScalarV1\<close> says, on which \<open>Object.is\<close> is equality.
\<close>

section \<open>Data\<close>

datatype guard_error =
    Guard_INVALID_RULE | Guard_INVALID_DATASET | Guard_INVALID_CONTRACT | Guard_DUPLICATE_RULE_ID
  | Guard_INVALID_REPAIR | Guard_TypeError

datatype quality_severity = Severity_INFO | Severity_WARNING | Severity_ERROR | Severity_CRITICAL

datatype quality_state = Quality_PASS | Quality_FAIL | Quality_NOT_EVALUATED | Quality_ERROR

datatype quality_kind = Kind_required | Kind_unique | Kind_range | Kind_allowed_set | Kind_type

datatype value_kind =
    Value_TEXT | Value_INTEGER | Value_DECIMAL | Value_BOOLEAN | Value_DATE | Value_NULL | Value_MISSING

type_synonym quality_row = "(jsstr \<times> jsval) list"

record quality_dataset =
  qd_datasetId :: stable_id
  qd_datasetVersionId :: stable_id
  qd_contentSha256 :: jsstr
  qd_rows :: "quality_row list"

text \<open>An absent \<open>min\<close>, \<open>max\<close> or \<open>expectedType\<close> is \<open>Undefined\<close>.\<close>

record quality_rule =
  qr_ruleId :: stable_id
  qr_kind :: quality_kind
  qr_field :: jsstr
  qr_severity :: quality_severity
  qr_min :: jsval
  qr_max :: jsval
  qr_values :: "jsval list option"
  qr_expectedType :: jsval
  qr_allowNull :: bool

record quality_finding =
  qf_findingId :: jsstr
  qf_fingerprint :: jsstr
  qf_ruleId :: stable_id
  qf_reasonCode :: jsstr
  qf_severity :: quality_severity
  qf_rowNumber :: int
  qf_field :: jsstr
  qf_valueKind :: value_kind
  qf_valueFingerprint :: jsstr
  qf_datasetVersionId :: stable_id
  qf_locator :: jsstr

record rule_result =
  rr_ruleId :: stable_id
  rr_kind :: quality_kind
  rr_state :: quality_state
  rr_denominator :: int
  rr_affectedCount :: int
  rr_reasonCode :: jsstr
  rr_findingIds :: "jsstr list"

record run_summary =
  rs_state :: quality_state
  rs_totalRules :: int
  rs_passedRules :: int
  rs_failedRules :: int
  rs_notEvaluatedRules :: int
  rs_errorRules :: int
  rs_passRate :: jsnum

record quality_run =
  run_runId :: jsstr
  run_datasetId :: stable_id
  run_datasetVersionId :: stable_id
  run_datasetContentSha256 :: jsstr
  run_contractId :: stable_id
  run_contractVersion :: int
  run_contractSha256 :: jsstr
  run_ruleResults :: "rule_result list"
  run_findings :: "quality_finding list"
  run_summary :: run_summary

record repair_operation =
  op_rowNumber :: int
  op_field :: jsstr
  op_replacement :: jsval
  op_reasonCode :: jsstr

record repair_proposal =
  rp_proposalId :: jsstr
  rp_sourceDatasetId :: stable_id
  rp_sourceDatasetVersionId :: stable_id
  rp_qualityRunId :: jsstr
  rp_operations :: "repair_operation list"
  rp_planFingerprint :: jsstr

record before_after =
  ba_rowNumber :: int
  ba_field :: jsstr
  ba_before :: jsval
  ba_after :: jsval

record repair_preview =
  pv_proposalId :: jsstr
  pv_affectedRows :: int
  pv_operations :: int
  pv_beforeAfter :: "before_after list"
  pv_derivedContentFingerprint :: jsstr

record repair_evidence =
  ev_rowNumber :: int
  ev_field :: jsstr
  ev_beforeFingerprint :: jsstr
  ev_afterFingerprint :: jsstr

record repaired_dataset = quality_dataset +
  rd_sourceDatasetId :: stable_id
  rd_sourceDatasetVersionId :: stable_id
  rd_repairProposalId :: jsstr
  rd_evidence :: "repair_evidence list"

section \<open>Texts and fingerprints\<close>

text \<open>\<open>text\<close>: unlike the helper of the same name elsewhere it does not bound the normalised text.\<close>

definition guard_text :: "env \<Rightarrow> jsval \<Rightarrow> nat \<Rightarrow> jsstr option" where
  "guard_text E v maximum =
     (case v of
        Str s \<Rightarrow>
          if s = [] \<or> length s > maximum \<or> list_ex control s then None
          else let normalized = trim (nfc E s) in if normalized \<noteq> [] then Some normalized else None
      | _ \<Rightarrow> None)"

definition text_fingerprint :: "jsstr \<Rightarrow> jsstr" where
  "text_fingerprint serialized =
     (let short = pad_start 8 (of_char CHR ''0'') (hex_text (unat (fnv_hash serialized)))
      in js ''dqg-'' @ concat (replicate 8 short))"

definition scalarFingerprint :: "env \<Rightarrow> jsval \<Rightarrow> jsstr" where
  "scalarFingerprint E v =
     text_fingerprint (case JSON_text E v of None \<Rightarrow> js ''undefined'' | Some s \<Rightarrow> s)"

fun join_bars :: "jsstr list \<Rightarrow> jsstr" where
  "join_bars [] = []"
| "join_bars [x] = x"
| "join_bars (x # y # ys) = x @ of_char CHR ''|'' # join_bars (y # ys)"

definition fingerprint :: "env \<Rightarrow> jsstr list \<Rightarrow> jsstr" where
  "fingerprint E parts = scalarFingerprint E (Str (join_bars parts))"

text \<open>\<open>/^\d{4}-\d{2}-\d{2}(?:T|$)/\<close>\<close>

definition date_prefix :: "jsstr \<Rightarrow> bool" where
  "date_prefix s \<longleftrightarrow>
     matches (replicate 4 digit @ [is_char CHR ''-''] @ replicate 2 digit @ [is_char CHR ''-''] @ replicate 2 digit)
       (take 10 s)
     \<and> (case drop 10 s of [] \<Rightarrow> True | c # _ \<Rightarrow> is_char CHR ''T'' c)"

fun valueKind :: "jsval \<Rightarrow> value_kind" where
  "valueKind Undefined = Value_MISSING"
| "valueKind Null = Value_NULL"
| "valueKind (Bool _) = Value_BOOLEAN"
| "valueKind (Num (Finite r)) = (if of_int \<lfloor>r\<rfloor> = r then Value_INTEGER else Value_DECIMAL)"
| "valueKind (Num _) = Value_DECIMAL"
| "valueKind (Str s) = (if date_prefix s then Value_DATE else Value_TEXT)"
| "valueKind _ = Value_TEXT"

definition sameValue :: "jsval \<Rightarrow> jsval \<Rightarrow> bool" where
  "sameValue v w \<longleftrightarrow> v = w"

text \<open>\<open>row[field]\<close>\<close>

definition row_cell :: "quality_row \<Rightarrow> jsstr \<Rightarrow> jsval" where
  "row_cell row k = (case map_of row k of None \<Rightarrow> Undefined | Some v \<Rightarrow> v)"

section \<open>Rules\<close>

definition quality_kinds :: "(string \<times> quality_kind) list" where
  "quality_kinds = [(''required'', Kind_required), (''unique'', Kind_unique), (''range'', Kind_range),
     (''allowed-set'', Kind_allowed_set), (''type'', Kind_type)]"

definition quality_severities :: "(string \<times> quality_severity) list" where
  "quality_severities = [(''INFO'', Severity_INFO), (''WARNING'', Severity_WARNING), (''ERROR'', Severity_ERROR),
     (''CRITICAL'', Severity_CRITICAL)]"

definition expected_types :: "(string \<times> string) list" where
  "expected_types = map (\<lambda>t. (t, t)) [''string'', ''number'', ''boolean'', ''date'']"

text \<open>\<open>a < b\<close> on numbers\<close>

fun num_less :: "jsnum \<Rightarrow> jsnum \<Rightarrow> bool" where
  "num_less (Finite a) (Finite b) = (a < b)"
| "num_less NegInfinity (Finite _) = True"
| "num_less NegInfinity PosInfinity = True"
| "num_less (Finite _) PosInfinity = True"
| "num_less _ _ = False"

fun finite_number :: "jsval \<Rightarrow> rat option" where
  "finite_number (Num (Finite r)) = Some r"
| "finite_number _ = None"

definition bound_ok :: "jsval \<Rightarrow> bool" where
  "bound_ok v \<longleftrightarrow> v = Undefined \<or> finite_number v \<noteq> None"

definition range_ok :: "jsval \<Rightarrow> jsval \<Rightarrow> bool" where
  "range_ok lo hi \<longleftrightarrow>
     bound_ok lo \<and> bound_ok hi
     \<and> (case (finite_number lo, finite_number hi) of (Some a, Some b) \<Rightarrow> \<not> b < a | _ \<Rightarrow> True)"

text \<open>A string is iterated by code points.\<close>

fun code_points :: "jsstr \<Rightarrow> jsstr list" where
  "code_points [] = []"
| "code_points [c] = [[c]]"
| "code_points (c # d # cs) =
     (if high_surrogate c \<and> low_surrogate d then [c, d] # code_points cs else [c] # code_points (d # cs))"

text \<open>\<open>values === undefined ? {} : { values: [...values] }\<close>\<close>

fun spread_values :: "jsval \<Rightarrow> guard_error + jsval list option" where
  "spread_values Undefined = accepted None"
| "spread_values (Arr vs) = accepted (Some vs)"
| "spread_values (Str s) = accepted (Some (map Str (code_points s)))"
| "spread_values _ = rejected Guard_TypeError"

definition normalizeRule :: "env \<Rightarrow> jsval \<Rightarrow> guard_error + quality_rule" where
  "normalizeRule E v =
     reject_if (\<not> isRecord v) Guard_INVALID_RULE (
     require Guard_INVALID_RULE (stable E (field v ''ruleId'')) (\<lambda>ruleId.
     require Guard_INVALID_RULE (guard_text E (field v ''field'') 128) (\<lambda>name.
     require Guard_INVALID_RULE (one_of quality_kinds (field v ''kind'')) (\<lambda>kind.
     require Guard_INVALID_RULE
       (one_of quality_severities (nullish (field v ''severity'') (Str (js ''ERROR'')))) (\<lambda>severity.
     reject_if (kind = Kind_range \<and> \<not> range_ok (field v ''min'') (field v ''max'')) Guard_INVALID_RULE (
     reject_if (kind = Kind_allowed_set
                \<and> (case field v ''values'' of Arr vs \<Rightarrow> vs = [] \<or> length vs > 256 | _ \<Rightarrow> True)) Guard_INVALID_RULE (
     reject_if (kind = Kind_type \<and> one_of expected_types (field v ''expectedType'') = None) Guard_INVALID_RULE (
     and_then (spread_values (field v ''values'')) (\<lambda>values.
     accepted
       \<lparr>qr_ruleId = ruleId, qr_kind = kind, qr_field = name, qr_severity = severity, qr_min = field v ''min'',
        qr_max = field v ''max'', qr_values = values, qr_expectedType = field v ''expectedType'',
        qr_allowNull = (field v ''allowNull'' = Bool True)\<rparr>)))))))))"

section \<open>Datasets and runs\<close>

record dataset_input =
  in_qd_datasetId :: jsval
  in_qd_datasetVersionId :: jsval
  in_qd_contentSha256 :: jsval
  in_qd_rows :: jsval

fun row_of :: "jsval \<Rightarrow> quality_row option" where
  "row_of (Obj ps) = Some ps"
| "row_of _ = None"

definition createDataQualityDatasetV1 :: "env \<Rightarrow> dataset_input \<Rightarrow> guard_error + quality_dataset" where
  "createDataQualityDatasetV1 E i =
     require Guard_INVALID_DATASET (stable E (in_qd_datasetId i)) (\<lambda>datasetId.
     require Guard_INVALID_DATASET (stable E (in_qd_datasetVersionId i)) (\<lambda>versionId.
     require Guard_INVALID_DATASET (sha256_hex (in_qd_contentSha256 i)) (\<lambda>contentSha256.
     require Guard_INVALID_DATASET (as_array (in_qd_rows i)) (\<lambda>vs.
     reject_if (length vs > 1000000) Guard_INVALID_DATASET (
     require Guard_INVALID_DATASET (parse_all row_of vs) (\<lambda>rows.
     accepted
       \<lparr>qd_datasetId = datasetId, qd_datasetVersionId = versionId, qd_contentSha256 = contentSha256,
        qd_rows = rows\<rparr>))))))"

definition number_value :: "jsval \<Rightarrow> bool" where
  "number_value v \<longleftrightarrow> (case v of Num _ \<Rightarrow> True | _ \<Rightarrow> False)"

fun num_value_less :: "jsval \<Rightarrow> jsval \<Rightarrow> bool" where
  "num_value_less (Num a) (Num b) = num_less a b"
| "num_value_less _ _ = False"

definition missing :: "jsval \<Rightarrow> bool" where
  "missing v \<longleftrightarrow> v = Undefined \<or> v = Null"

text \<open>The value of \<open>invalid\<close> for a value, given the values of the rows before it.\<close>

definition invalid_value :: "env \<Rightarrow> quality_rule \<Rightarrow> jsval list \<Rightarrow> jsval \<Rightarrow> bool" where
  "invalid_value E r before v =
     (case qr_kind r of
        Kind_required \<Rightarrow> missing v \<or> (case v of Str s \<Rightarrow> trim s = [] | _ \<Rightarrow> False)
      | Kind_unique \<Rightarrow> \<not> missing v \<and> list_ex (\<lambda>w. sameValue w v) before
      | Kind_range \<Rightarrow>
          \<not> number_value v \<or> (qr_min r \<noteq> Undefined \<and> num_value_less v (qr_min r))
          \<or> (qr_max r \<noteq> Undefined \<and> num_value_less (qr_max r) v)
      | Kind_allowed_set \<Rightarrow>
          \<not> (case qr_values r of None \<Rightarrow> False | Some vs \<Rightarrow> list_ex (\<lambda>w. sameValue w v) vs)
      | Kind_type \<Rightarrow>
          if qr_expectedType r = Str (js ''number'') then \<not> number_value v
          else if qr_expectedType r = Str (js ''boolean'') then as_bool v = None
          else if qr_expectedType r = Str (js ''date'')
          then (case v of Str s \<Rightarrow> Date_parse E s = None | _ \<Rightarrow> True)
          else as_string v = None)"

fun kind_reason :: "quality_kind \<Rightarrow> jsstr" where
  "kind_reason Kind_required = js ''DQG_REQUIRED''"
| "kind_reason Kind_unique = js ''DQG_UNIQUE''"
| "kind_reason Kind_range = js ''DQG_RANGE''"
| "kind_reason Kind_allowed_set = js ''DQG_ALLOWED-SET''"
| "kind_reason Kind_type = js ''DQG_TYPE''"

definition make_finding :: "env \<Rightarrow> quality_dataset \<Rightarrow> quality_rule \<Rightarrow> int \<Rightarrow> jsval \<Rightarrow> quality_finding" where
  "make_finding E d r rowNumber v =
     (let reason = kind_reason (qr_kind r);
          stable_text = fingerprint E [qd_datasetVersionId d, qr_ruleId r, show_int rowNumber, qr_field r, reason,
            scalarFingerprint E v]
      in \<lparr>qf_findingId = js ''finding-'' @ stable_text, qf_fingerprint = stable_text, qf_ruleId = qr_ruleId r,
          qf_reasonCode = reason, qf_severity = qr_severity r, qf_rowNumber = rowNumber, qf_field = qr_field r,
          qf_valueKind = valueKind v, qf_valueFingerprint = scalarFingerprint E v,
          qf_datasetVersionId = qd_datasetVersionId d,
          qf_locator = js ''row:'' @ show_int rowNumber @ js '':field:'' @ qr_field r\<rparr>)"

text \<open>The loop over the rows: the values already seen, the number of the next row and the values to come.\<close>

fun rule_findings ::
    "env \<Rightarrow> quality_dataset \<Rightarrow> quality_rule \<Rightarrow> jsval list \<Rightarrow> int \<Rightarrow> jsval list \<Rightarrow> quality_finding list" where
  "rule_findings E d r before n [] = []"
| "rule_findings E d r before n (v # vs) =
     (if invalid_value E r before v then [make_finding E d r n v] else [])
     @ rule_findings E d r (before @ [v]) (n + 1) vs"

definition column :: "quality_dataset \<Rightarrow> jsstr \<Rightarrow> jsval list" where
  "column d k = map (\<lambda>row. row_cell row k) (qd_rows d)"

definition findings_of :: "env \<Rightarrow> quality_dataset \<Rightarrow> quality_rule \<Rightarrow> quality_finding list" where
  "findings_of E d r = rule_findings E d r [] 1 (column d (qr_field r))"

definition evaluate_rule :: "env \<Rightarrow> quality_dataset \<Rightarrow> quality_rule \<Rightarrow> rule_result" where
  "evaluate_rule E d r =
     (let findings = findings_of E d r; affectedCount = int (length findings);
          state = (if affectedCount = 0 then Quality_PASS else Quality_FAIL)
      in \<lparr>rr_ruleId = qr_ruleId r, rr_kind = qr_kind r, rr_state = state,
          rr_denominator =
            int (length (filter (\<lambda>v. \<not> (qr_allowNull r \<and> missing v)) (column d (qr_field r)))),
          rr_affectedCount = affectedCount,
          rr_reasonCode = (if state = Quality_PASS then js ''PASS'' else kind_reason (qr_kind r)),
          rr_findingIds = map qf_findingId findings\<rparr>)"

definition count_state :: "quality_state \<Rightarrow> rule_result list \<Rightarrow> int" where
  "count_state s results = int (length (filter (\<lambda>x. rr_state x = s) results))"

definition summarize :: "rule_result list \<Rightarrow> run_summary" where
  "summarize results =
     \<lparr>rs_state = (if count_state Quality_FAIL results > 0 then Quality_FAIL else Quality_PASS),
      rs_totalRules = int (length results), rs_passedRules = count_state Quality_PASS results,
      rs_failedRules = count_state Quality_FAIL results,
      rs_notEvaluatedRules = count_state Quality_NOT_EVALUATED results,
      rs_errorRules = count_state Quality_ERROR results,
      rs_passRate =
        (if results = [] then Finite 1
         else nearest_double (of_int (count_state Quality_PASS results) / of_nat (length results)))\<rparr>"

record contract_input =
  in_qc_contractId :: jsval
  in_qc_contractVersion :: jsval
  in_qc_contractSha256 :: jsval
  in_qc_rules :: jsval

definition evaluateDataQualityContractV1 ::
    "env \<Rightarrow> quality_dataset \<Rightarrow> contract_input \<Rightarrow> guard_error + quality_run" where
  "evaluateDataQualityContractV1 E d i =
     require Guard_INVALID_CONTRACT (stable E (in_qc_contractId i)) (\<lambda>contractId.
     require Guard_INVALID_CONTRACT (positiveInteger (in_qc_contractVersion i)) (\<lambda>version.
     require Guard_INVALID_CONTRACT (sha256_hex (in_qc_contractSha256 i)) (\<lambda>contractSha256.
     require Guard_INVALID_CONTRACT (as_array (in_qc_rules i)) (\<lambda>vs.
     reject_if (length vs > 512) Guard_INVALID_CONTRACT (
     and_then (map_result (normalizeRule E) vs) (\<lambda>rules.
     reject_if (length (dedup (map qr_ruleId rules)) \<noteq> length rules) Guard_DUPLICATE_RULE_ID (
     let results = map (evaluate_rule E d) rules
     in accepted
       \<lparr>run_runId = js ''run-'' @ fingerprint E [qd_datasetVersionId d, contractId, show_int version,
          qd_contentSha256 d, contractSha256],
        run_datasetId = qd_datasetId d, run_datasetVersionId = qd_datasetVersionId d,
        run_datasetContentSha256 = qd_contentSha256 d, run_contractId = contractId,
        run_contractVersion = version, run_contractSha256 = contractSha256, run_ruleResults = results,
        run_findings = concat (map (findings_of E d) rules), run_summary = summarize results\<rparr>)))))))"

section \<open>Repairs\<close>

record repair_input =
  in_op_rowNumber :: jsval
  in_op_field :: jsval
  in_op_replacement :: jsval
  in_op_reasonCode :: jsval

text \<open>The texts are tested in their normal form and kept as they are.\<close>

definition normalize_operation ::
    "env \<Rightarrow> quality_dataset \<Rightarrow> repair_input \<Rightarrow> guard_error + repair_operation" where
  "normalize_operation E d i =
     require Guard_INVALID_REPAIR
       (safe_integer_within 1 (int (length (qd_rows d))) (in_op_rowNumber i)) (\<lambda>rowNumber.
     require Guard_INVALID_REPAIR (guard_text E (in_op_field i) 128) (\<lambda>_.
     require Guard_INVALID_REPAIR (guard_text E (in_op_reasonCode i) 96) (\<lambda>_.
     require Guard_INVALID_REPAIR (as_string (in_op_field i)) (\<lambda>name.
     require Guard_INVALID_REPAIR (as_string (in_op_reasonCode i)) (\<lambda>reason.
     accepted
       \<lparr>op_rowNumber = rowNumber, op_field = name, op_replacement = in_op_replacement i,
        op_reasonCode = reason\<rparr>)))))"

definition operation_text :: "env \<Rightarrow> repair_operation \<Rightarrow> jsstr" where
  "operation_text E p =
     show_int (op_rowNumber p) @ js '':'' @ op_field p @ js '':'' @ scalarFingerprint E (op_replacement p)
     @ js '':'' @ op_reasonCode p"

definition createDataQualityRepairProposalV1 ::
    "env \<Rightarrow> quality_dataset \<Rightarrow> quality_run \<Rightarrow> repair_input list \<Rightarrow> guard_error + repair_proposal" where
  "createDataQualityRepairProposalV1 E d run operations =
     reject_if (run_datasetVersionId run \<noteq> qd_datasetVersionId d \<or> length operations > 10000)
       Guard_INVALID_REPAIR (
     and_then (map_result (normalize_operation E d) operations) (\<lambda>normalized.
     let plan = fingerprint E (run_runId run # map (operation_text E) normalized)
     in accepted
       \<lparr>rp_proposalId = js ''repair-'' @ plan, rp_sourceDatasetId = qd_datasetId d,
        rp_sourceDatasetVersionId = qd_datasetVersionId d, rp_qualityRunId = run_runId run,
        rp_operations = normalized, rp_planFingerprint = plan\<rparr>))"

text \<open>\<open>dataset.rows[rowNumber - 1]\<close>\<close>

definition row_at :: "quality_row list \<Rightarrow> int \<Rightarrow> quality_row option" where
  "row_at rows n = (if 1 \<le> n \<and> n \<le> int (length rows) then Some (rows ! nat (n - 1)) else None)"

definition previewDataQualityRepairV1 ::
    "env \<Rightarrow> quality_dataset \<Rightarrow> repair_proposal \<Rightarrow> guard_error + repair_preview" where
  "previewDataQualityRepairV1 E d p =
     reject_if (rp_sourceDatasetVersionId p \<noteq> qd_datasetVersionId d) Guard_INVALID_REPAIR (
     let beforeAfter = map (\<lambda>x. \<lparr>ba_rowNumber = op_rowNumber x, ba_field = op_field x,
           ba_before = (case row_at (qd_rows d) (op_rowNumber x) of None \<Rightarrow> Undefined
                        | Some row \<Rightarrow> row_cell row (op_field x)),
           ba_after = op_replacement x\<rparr>) (rp_operations p)
     in accepted
       \<lparr>pv_proposalId = rp_proposalId p,
        pv_affectedRows = int (length (dedup (map ba_rowNumber beforeAfter))),
        pv_operations = int (length beforeAfter), pv_beforeAfter = beforeAfter,
        pv_derivedContentFingerprint = fingerprint E [qd_contentSha256 d, rp_planFingerprint p]\<rparr>)"

text \<open>
  \<open>target[field] = value\<close>: without an own property of that name, assigning to \<open>__proto__\<close> makes none.
\<close>

definition set_cell :: "jsstr \<Rightarrow> jsval \<Rightarrow> quality_row \<Rightarrow> quality_row" where
  "set_cell k v row =
     (if k = js ''__proto__'' \<and> k \<notin> fst ` set row then row else AList.update k v row)"

text \<open>The loop over the operations, with the rows and the evidence so far.\<close>

fun apply_operations ::
    "env \<Rightarrow> quality_row list \<Rightarrow> repair_evidence list \<Rightarrow> repair_operation list
       \<Rightarrow> guard_error + quality_row list \<times> repair_evidence list" where
  "apply_operations E rows evidence [] = accepted (rows, evidence)"
| "apply_operations E rows evidence (x # xs) =
     require Guard_INVALID_REPAIR (row_at rows (op_rowNumber x)) (\<lambda>target.
     apply_operations E (rows[nat (op_rowNumber x - 1) := set_cell (op_field x) (op_replacement x) target])
       (evidence @ [\<lparr>ev_rowNumber = op_rowNumber x, ev_field = op_field x,
          ev_beforeFingerprint = scalarFingerprint E (row_cell target (op_field x)),
          ev_afterFingerprint = scalarFingerprint E (op_replacement x)\<rparr>]) xs)"

definition derived_suffix :: "jsstr \<Rightarrow> jsstr" where
  "derived_suffix f =
     (let h = filter lower_hex f in pad_start 12 (of_char CHR ''0'') (drop (length h - 12) h))"

definition derived_sha :: "jsstr \<Rightarrow> jsstr" where
  "derived_sha f = take 64 (pad_end 64 (of_char CHR ''0'') (filter lower_hex f))"

definition applyDataQualityRepairV1 ::
    "env \<Rightarrow> quality_dataset \<Rightarrow> repair_proposal \<Rightarrow> guard_error + repaired_dataset" where
  "applyDataQualityRepairV1 E d p =
     and_then (previewDataQualityRepairV1 E d p) (\<lambda>preview.
     and_then (apply_operations E (qd_rows d) [] (rp_operations p)) (\<lambda>(rows, evidence).
     accepted
       \<lparr>qd_datasetId = qd_datasetId d,
        qd_datasetVersionId =
          js ''00000000-0000-4000-8000-'' @ derived_suffix (pv_derivedContentFingerprint preview),
        qd_contentSha256 = derived_sha (pv_derivedContentFingerprint preview), qd_rows = rows,
        rd_sourceDatasetId = qd_datasetId d, rd_sourceDatasetVersionId = qd_datasetVersionId d,
        rd_repairProposalId = rp_proposalId p, rd_evidence = evidence\<rparr>))"

section \<open>What a rule says of its column\<close>

definition satisfied :: "env \<Rightarrow> quality_rule \<Rightarrow> jsval list \<Rightarrow> bool" where
  "satisfied E r vs \<longleftrightarrow>
     (case qr_kind r of
        Kind_required \<Rightarrow> \<forall>v\<in>set vs. \<not> missing v \<and> (\<forall>s. v = Str s \<longrightarrow> trim s \<noteq> [])
      | Kind_unique \<Rightarrow> distinct (filter (\<lambda>v. \<not> missing v) vs)
      | Kind_range \<Rightarrow>
          \<forall>v\<in>set vs. \<exists>x. v = Num x \<and> (\<forall>lo. qr_min r = Num lo \<longrightarrow> \<not> num_less x lo)
            \<and> (\<forall>hi. qr_max r = Num hi \<longrightarrow> \<not> num_less hi x)
      | Kind_allowed_set \<Rightarrow> vs = [] \<or> (\<exists>ws. qr_values r = Some ws \<and> set vs \<subseteq> set ws)
      | Kind_type \<Rightarrow>
          (qr_expectedType r = Str (js ''number'') \<longrightarrow> (\<forall>v\<in>set vs. \<exists>x. v = Num x))
          \<and> (qr_expectedType r = Str (js ''boolean'') \<longrightarrow> (\<forall>v\<in>set vs. \<exists>b. v = Bool b))
          \<and> (qr_expectedType r = Str (js ''date'') \<longrightarrow> (\<forall>v\<in>set vs. \<exists>s. v = Str s \<and> Date_parse E s \<noteq> None))
          \<and> (qr_expectedType r = Str (js ''string'') \<longrightarrow> (\<forall>v\<in>set vs. \<exists>s. v = Str s)))"

text \<open>What an accepted rule has.\<close>

definition rule_ok :: "quality_rule \<Rightarrow> bool" where
  "rule_ok r \<longleftrightarrow>
     (qr_kind r = Kind_range \<longrightarrow> (qr_min r = Undefined \<or> (\<exists>a. qr_min r = Num (Finite a)))
        \<and> (qr_max r = Undefined \<or> (\<exists>b. qr_max r = Num (Finite b)))
        \<and> (\<forall>a b. qr_min r = Num (Finite a) \<longrightarrow> qr_max r = Num (Finite b) \<longrightarrow> a \<le> b))
     \<and> (qr_kind r = Kind_allowed_set \<longrightarrow> (\<exists>ws. qr_values r = Some ws \<and> ws \<noteq> [] \<and> length ws \<le> 256))
     \<and> (qr_kind r = Kind_type \<longrightarrow>
          qr_expectedType r \<in> (\<lambda>t. Str (js t)) ` {''string'', ''number'', ''boolean'', ''date''})"

lemma finite_number_Some: "finite_number v = Some a \<longleftrightarrow> v = Num (Finite a)"
  by (cases v rule: finite_number.cases) auto

lemma range_ok_facts:
  "range_ok lo hi \<Longrightarrow> (lo = Undefined \<or> (\<exists>a. lo = Num (Finite a))) \<and> (hi = Undefined \<or> (\<exists>b. hi = Num (Finite b)))
     \<and> (\<forall>a b. lo = Num (Finite a) \<longrightarrow> hi = Num (Finite b) \<longrightarrow> a \<le> b)"
  by (auto simp: range_ok_def bound_ok_def finite_number_Some)

lemma one_of_Some: "one_of table v = Some x \<Longrightarrow> \<exists>k. (k, x) \<in> set table \<and> v = Str (js k)"
  by (auto simp: one_of_def dest!: map_of_SomeD split: jsval.splits)

lemma expected_types_Some:
  assumes "one_of expected_types v \<noteq> None"
  shows "v \<in> (\<lambda>t. Str (js t)) ` {''string'', ''number'', ''boolean'', ''date''}"
proof -
  obtain x where "one_of expected_types v = Some x" using assms by blast
  then obtain t where "(t, x) \<in> set expected_types" and v: "v = Str (js t)" by (meson one_of_Some)
  then have "t \<in> fst ` set expected_types" by force
  then have "t \<in> {''string'', ''number'', ''boolean'', ''date''}" unfolding expected_types_def by simp
  with v show ?thesis by blast
qed

lemma normalizeRule_ok:
  assumes "normalizeRule E v = Inr r"
  shows "rule_ok r"
proof -
  define bad where "bad w \<longleftrightarrow> (case w of Arr vs \<Rightarrow> vs = [] \<or> length vs > 256 | _ \<Rightarrow> True)" for w :: jsval
  have facts: "\<not> (qr_kind r = Kind_range \<and> \<not> range_ok (qr_min r) (qr_max r))"
    "\<not> (qr_kind r = Kind_allowed_set \<and> bad (field v ''values''))"
    "spread_values (field v ''values'') = Inr (qr_values r)"
    "\<not> (qr_kind r = Kind_type \<and> one_of expected_types (qr_expectedType r) = None)"
    using assms unfolding normalizeRule_def result_simps bad_def [symmetric] by (elim exE conjE; force)+
  have listed: "\<exists>ws. qr_values r = Some ws \<and> ws \<noteq> [] \<and> length ws \<le> 256" if "qr_kind r = Kind_allowed_set"
    using facts(2) facts(3) [symmetric] that by (cases "field v ''values''") (auto simp: bad_def)
  show ?thesis
    unfolding rule_ok_def using facts(1,4) listed range_ok_facts expected_types_Some by blast
qed

text \<open>The findings of the loop, by position.\<close>

lemma rule_findings_nth:
  "rule_findings E d r before n vs =
     map (\<lambda>k. make_finding E d r (n + int k) (vs ! k))
       (filter (\<lambda>k. invalid_value E r (before @ take k vs) (vs ! k)) [0..<length vs])"
proof (induction vs arbitrary: before n)
  case (Cons v vs)
  have "[0..<length (v # vs)] = 0 # map Suc [0..<length vs]"
    by (simp add: map_Suc_upt upt_conv_Cons del: upt_Suc)
  with Cons show ?case by (simp add: filter_map comp_def add.assoc add.commute [of 1])
qed simp

definition violations :: "env \<Rightarrow> quality_rule \<Rightarrow> jsval list \<Rightarrow> nat list" where
  "violations E r vs = filter (\<lambda>k. invalid_value E r (take k vs) (vs ! k)) [0..<length vs]"

lemma findings_of_violations:
  "findings_of E d r =
     map (\<lambda>k. make_finding E d r (1 + int k) (column d (qr_field r) ! k)) (violations E r (column d (qr_field r)))"
  by (simp add: findings_of_def rule_findings_nth violations_def)

lemma violations_Nil: "violations E r vs = [] \<longleftrightarrow> (\<forall>k<length vs. \<not> invalid_value E r (take k vs) (vs ! k))"
  by (auto simp: violations_def filter_empty_conv)

lemma no_earlier_equal:
  "(\<forall>k<length vs. P (vs ! k) \<longrightarrow> vs ! k \<notin> set (take k vs)) \<longleftrightarrow> distinct (filter P vs)"
proof (induction vs rule: rev_induct)
  case (snoc v vs)
  have "(\<forall>k<length (vs @ [v]). P ((vs @ [v]) ! k) \<longrightarrow> (vs @ [v]) ! k \<notin> set (take k (vs @ [v])))
    \<longleftrightarrow> (\<forall>k<length vs. P (vs ! k) \<longrightarrow> vs ! k \<notin> set (take k vs)) \<and> (P v \<longrightarrow> v \<notin> set vs)"
    by (auto simp: less_Suc_eq nth_append)
  with snoc show ?case by auto
qed simp

lemma violations_satisfied:
  assumes "rule_ok r"
  shows "violations E r vs = [] \<longleftrightarrow> satisfied E r vs"
proof (cases "qr_kind r")
  case Kind_unique
  have "violations E r vs = [] \<longleftrightarrow> (\<forall>k<length vs. \<not> missing (vs ! k) \<longrightarrow> vs ! k \<notin> set (take k vs))"
    using Kind_unique by (auto simp: violations_Nil invalid_value_def sameValue_def list_ex_iff)
  then show ?thesis using Kind_unique no_earlier_equal [of vs "\<lambda>v. \<not> missing v"]
    by (simp add: satisfied_def)
next
  case Kind_required
  then have "\<not> invalid_value E r b v \<longleftrightarrow> \<not> missing v \<and> (\<forall>s. v = Str s \<longrightarrow> trim s \<noteq> [])" for b v
    by (cases v) (auto simp: invalid_value_def)
  then show ?thesis using Kind_required by (simp add: violations_Nil satisfied_def all_set_conv_all_nth)
next
  case Kind_range
  have "\<not> invalid_value E r b v \<longleftrightarrow> (\<exists>x. v = Num x \<and> (\<forall>lo. qr_min r = Num lo \<longrightarrow> \<not> num_less x lo)
            \<and> (\<forall>hi. qr_max r = Num hi \<longrightarrow> \<not> num_less hi x))" for b v
    using Kind_range assms
    by (cases v) (auto simp: invalid_value_def number_value_def rule_ok_def)
  then show ?thesis using Kind_range by (simp add: violations_Nil satisfied_def all_set_conv_all_nth)
next
  case Kind_allowed_set
  then obtain ws where "qr_values r = Some ws" using assms by (auto simp: rule_ok_def)
  with Kind_allowed_set show ?thesis
    by (auto simp: violations_Nil invalid_value_def satisfied_def sameValue_def list_ex_iff all_set_conv_all_nth
        subset_code(1))
next
  case Kind_type
  then have t: "qr_expectedType r \<in> (\<lambda>t. Str (js t)) ` {''string'', ''number'', ''boolean'', ''date''}"
    using assms by (simp add: rule_ok_def)
  have "as_string v = None \<longleftrightarrow> \<not> (\<exists>s. v = Str s)" "as_bool v = None \<longleftrightarrow> \<not> (\<exists>b. v = Bool b)"
    "number_value v \<longleftrightarrow> (\<exists>x. v = Num x)"
    "(case v of Str s \<Rightarrow> Date_parse E s = None | _ \<Rightarrow> True) \<longleftrightarrow> \<not> (\<exists>s. v = Str s \<and> Date_parse E s \<noteq> None)" for v
    by (cases v; simp add: number_value_def)+
  with t Kind_type show ?thesis
    by (auto simp: violations_Nil invalid_value_def satisfied_def all_set_conv_all_nth)
qed

text \<open>A rule on uniqueness counts each value beyond its first occurrence.\<close>

lemma repeats_counted:
  "length (filter (\<lambda>k. P (vs ! k) \<and> vs ! k \<in> set (take k vs)) [0..<length vs])
     + card (set (filter P vs)) = length (filter P vs)"
proof (induction vs rule: rev_induct)
  case (snoc v vs)
  have "filter (\<lambda>k. P ((vs @ [v]) ! k) \<and> (vs @ [v]) ! k \<in> set (take k (vs @ [v]))) [0..<length vs]
      = filter (\<lambda>k. P (vs ! k) \<and> vs ! k \<in> set (take k vs)) [0..<length vs]"
    by (rule filter_cong) (auto simp: nth_append)
  with snoc show ?case by (auto simp: card_insert_if)
qed simp

definition violation_count :: "env \<Rightarrow> quality_rule \<Rightarrow> jsval list \<Rightarrow> nat" where
  "violation_count E r vs = length (violations E r vs)"

lemma count_states: "(\<forall>x\<in>set rs. rr_state x = Quality_PASS \<or> rr_state x = Quality_FAIL) \<Longrightarrow>
   count_state Quality_PASS rs + count_state Quality_FAIL rs = int (length rs)
   \<and> count_state Quality_NOT_EVALUATED rs = 0 \<and> count_state Quality_ERROR rs = 0"
  by (induction rs) (auto simp: count_state_def)

lemma findings_by_rule:
  assumes "distinct (map qr_ruleId rules)" "r \<in> set rules"
  shows "filter (\<lambda>f. qf_ruleId f = qr_ruleId r) (concat (map (findings_of E d) rules)) = findings_of E d r"
  using assms
proof (induction rules)
  case (Cons q rules)
  have ids: "qf_ruleId f = qr_ruleId x" if "f \<in> set (findings_of E d x)" for f x
    using that by (auto simp: findings_of_violations make_finding_def Let_def)
  show ?case
  proof (cases "r = q")
    case True
    with Cons.prems have "\<forall>x\<in>set rules. qr_ruleId x \<noteq> qr_ruleId r" by (auto simp: image_iff)
    then have "filter (\<lambda>f. qf_ruleId f = qr_ruleId r) (concat (map (findings_of E d) rules)) = []"
      using ids by (fastforce simp: filter_empty_conv)
    moreover have "filter (\<lambda>f. qf_ruleId f = qr_ruleId r) (findings_of E d q) = findings_of E d r"
      using True ids by (auto simp: filter_id_conv)
    ultimately show ?thesis by simp
  next
    case False
    with Cons.prems have r: "r \<in> set rules" "qr_ruleId q \<noteq> qr_ruleId r" by force+
    then have "filter (\<lambda>f. qf_ruleId f = qr_ruleId r) (findings_of E d q) = []"
      using ids by (fastforce simp: filter_empty_conv)
    with Cons r show ?thesis by simp
  qed
qed simp

section \<open>Runs\<close>

lemma list_all2_member: "list_all2 P xs ys \<Longrightarrow> y \<in> set ys \<Longrightarrow> \<exists>x. P x y"
  by (induction rule: list_all2_induct) auto

lemma evaluate_facts:
  assumes "evaluateDataQualityContractV1 E d i = Inr run"
  obtains vs rules where "in_qc_rules i = Arr vs" "list_all2 (\<lambda>v r. normalizeRule E v = Inr r) vs rules"
    "distinct (map qr_ruleId rules)" "run_ruleResults run = map (evaluate_rule E d) rules"
    "run_findings run = concat (map (findings_of E d) rules)"
    "run_summary run = summarize (map (evaluate_rule E d) rules)"
    "run_datasetVersionId run = qd_datasetVersionId d"
proof -
  obtain vs rules where r: "as_array (in_qc_rules i) = Some vs" "map_result (normalizeRule E) vs = Inr rules"
    "length (dedup (map qr_ruleId rules)) = length rules" "run_ruleResults run = map (evaluate_rule E d) rules"
    "run_findings run = concat (map (findings_of E d) rules)"
    "run_summary run = summarize (map (evaluate_rule E d) rules)"
    "run_datasetVersionId run = qd_datasetVersionId d"
    using assms by (auto simp: evaluateDataQualityContractV1_def result_simps Let_def)
  have "in_qc_rules i = Arr vs" using r(1) by (cases "in_qc_rules i") simp_all
  moreover have "distinct (map qr_ruleId rules)"
    using r(3) distinct_card [OF distinct_dedup, of "map qr_ruleId rules"] by (intro card_distinct) simp
  ultimately show thesis using that r by (simp add: map_result_accepted)
qed

lemma evaluate_rule_facts:
  "rr_ruleId (evaluate_rule E d r) = qr_ruleId r" "rr_kind (evaluate_rule E d r) = qr_kind r"
  "rr_state (evaluate_rule E d r)
     = (if violations E r (column d (qr_field r)) = [] then Quality_PASS else Quality_FAIL)"
  "rr_affectedCount (evaluate_rule E d r) = int (length (violations E r (column d (qr_field r))))"
  by (simp_all add: evaluate_rule_def Let_def findings_of_violations)

lemma unique_violations:
  assumes "qr_kind r = Kind_unique"
  shows "length (violations E r vs) + card (set (filter (\<lambda>v. \<not> missing v) vs))
    = length (filter (\<lambda>v. \<not> missing v) vs)"
proof -
  have "violations E r vs
      = filter (\<lambda>k. \<not> missing (vs ! k) \<and> vs ! k \<in> set (take k vs)) [0..<length vs]"
    using assms by (auto simp: violations_def invalid_value_def sameValue_def list_ex_iff intro!: filter_cong)
  then show ?thesis using repeats_counted [of "\<lambda>v. \<not> missing v" vs] by simp
qed

lemma summary_counts:
  assumes "\<forall>x\<in>set rs. rr_state x = Quality_PASS \<or> rr_state x = Quality_FAIL"
  shows "rs_passedRules (summarize rs) + rs_failedRules (summarize rs) = rs_totalRules (summarize rs)
    \<and> rs_notEvaluatedRules (summarize rs) = 0 \<and> rs_errorRules (summarize rs) = 0
    \<and> (rs_state (summarize rs) = Quality_PASS \<longleftrightarrow> (\<forall>x\<in>set rs. rr_state x = Quality_PASS))"
proof -
  have "count_state Quality_FAIL rs = 0 \<longleftrightarrow> (\<forall>x\<in>set rs. rr_state x \<noteq> Quality_FAIL)"
    by (auto simp: count_state_def filter_empty_conv)
  then have "count_state Quality_FAIL rs = 0 \<longleftrightarrow> (\<forall>x\<in>set rs. rr_state x = Quality_PASS)"
    using assms by force
  moreover have "0 \<le> count_state Quality_FAIL rs" by (simp add: count_state_def)
  ultimately show ?thesis using count_states [OF assms] by (auto simp: summarize_def)
qed

text \<open>
  C32: an accepted run has one result for each rule, in order. A result passes exactly if the rule's
  column satisfies what the rule says; its count is that of its findings, and for uniqueness that of the values
  beyond the first of their kind. The run passes exactly if every rule does, and its summary adds up.
\<close>

theorem quality_run_exact:
  assumes "evaluateDataQualityContractV1 E d i = accepted run"
  shows "\<exists>vs rules. in_qc_rules i = Arr vs \<and> list_all2 (\<lambda>v r. normalizeRule E v = accepted r) vs rules
    \<and> list_all2 (\<lambda>r x. rr_ruleId x = qr_ruleId r
        \<and> (rr_state x = Quality_PASS \<longleftrightarrow> satisfied E r (column d (qr_field r)))
        \<and> rr_affectedCount x = int (length (filter (\<lambda>f. qf_ruleId f = qr_ruleId r) (run_findings run)))
        \<and> (qr_kind r = Kind_unique \<longrightarrow>
             rr_affectedCount x = int (length (filter (\<lambda>v. \<not> missing v) (column d (qr_field r))))
               - int (card (set (filter (\<lambda>v. \<not> missing v) (column d (qr_field r)))))))
      rules (run_ruleResults run)
    \<and> (rs_state (run_summary run) = Quality_PASS \<longleftrightarrow> (\<forall>r\<in>set rules. satisfied E r (column d (qr_field r))))
    \<and> rs_passedRules (run_summary run) + rs_failedRules (run_summary run) = rs_totalRules (run_summary run)
    \<and> rs_totalRules (run_summary run) = int (length vs)
    \<and> rs_notEvaluatedRules (run_summary run) = 0 \<and> rs_errorRules (run_summary run) = 0"
proof -
  obtain vs rules where i: "in_qc_rules i = Arr vs" and norm: "list_all2 (\<lambda>v r. normalizeRule E v = Inr r) vs rules"
    and ids: "distinct (map qr_ruleId rules)" and results: "run_ruleResults run = map (evaluate_rule E d) rules"
    and findings: "run_findings run = concat (map (findings_of E d) rules)"
    and summary: "run_summary run = summarize (map (evaluate_rule E d) rules)"
    using assms by (rule evaluate_facts)
  have sat: "rr_state (evaluate_rule E d r) = Quality_PASS \<longleftrightarrow> satisfied E r (column d (qr_field r))"
    if "r \<in> set rules" for r
  proof -
    have "rule_ok r" using list_all2_member [OF norm that] normalizeRule_ok by blast
    then show ?thesis using violations_satisfied by (simp add: evaluate_rule_facts)
  qed
  have count: "rr_affectedCount (evaluate_rule E d r)
      = int (length (filter (\<lambda>f. qf_ruleId f = qr_ruleId r) (run_findings run)))" if "r \<in> set rules" for r
    using findings_by_rule [OF ids that, of E d] by (simp add: findings evaluate_rule_facts findings_of_violations)
  have unique: "rr_affectedCount (evaluate_rule E d r)
      = int (length (filter (\<lambda>v. \<not> missing v) (column d (qr_field r))))
          - int (card (set (filter (\<lambda>v. \<not> missing v) (column d (qr_field r)))))"
    if "qr_kind r = Kind_unique" for r
    using unique_violations [OF that, of E "column d (qr_field r)"] by (simp add: evaluate_rule_facts)
  have total: "rs_totalRules (run_summary run) = int (length vs)"
    using list_all2_lengthD [OF norm] by (simp add: summary summarize_def)
  have states: "\<forall>x\<in>set (map (evaluate_rule E d) rules). rr_state x = Quality_PASS \<or> rr_state x = Quality_FAIL"
    by (simp add: evaluate_rule_facts)
  have "list_all2 (\<lambda>r x. rr_ruleId x = qr_ruleId r
        \<and> (rr_state x = Quality_PASS \<longleftrightarrow> satisfied E r (column d (qr_field r)))
        \<and> rr_affectedCount x = int (length (filter (\<lambda>f. qf_ruleId f = qr_ruleId r) (run_findings run)))
        \<and> (qr_kind r = Kind_unique \<longrightarrow>
             rr_affectedCount x = int (length (filter (\<lambda>v. \<not> missing v) (column d (qr_field r))))
               - int (card (set (filter (\<lambda>v. \<not> missing v) (column d (qr_field r)))))))
      rules (run_ruleResults run)"
    unfolding results list.rel_map
    by (rule list.rel_refl_strong) (use sat count unique evaluate_rule_facts(1) in blast)
  moreover have "rs_state (run_summary run) = Quality_PASS \<longleftrightarrow> (\<forall>r\<in>set rules. satisfied E r (column d (qr_field r)))"
    using summary_counts [OF states] sat by (simp add: summary)
  ultimately show ?thesis using i norm total summary_counts [OF states] by (auto simp: summary)
qed

lemma missing_invalid:
  "qr_kind r \<in> {Kind_required, Kind_range, Kind_type} \<Longrightarrow> missing v \<Longrightarrow> invalid_value E r before v"
  by (auto simp: missing_def invalid_value_def number_value_def)

text \<open>
  C37: \<open>allowNull\<close> takes the nulls out of the denominator but not out of the findings:
  a rule that allows nulls fails on a column of nulls alone, with every row affected out of none.
\<close>

theorem nullable_rule_fails_on_nulls:
  assumes "qr_kind r \<in> {Kind_required, Kind_range, Kind_type}" "qr_allowNull r"
    and "\<forall>v\<in>set (column d (qr_field r)). missing v" "qd_rows d \<noteq> []"
  shows "rr_state (evaluate_rule E d r) = Quality_FAIL \<and> rr_denominator (evaluate_rule E d r) = 0
    \<and> rr_affectedCount (evaluate_rule E d r) = int (length (qd_rows d))"
proof -
  have "violations E r (column d (qr_field r)) = [0..<length (column d (qr_field r))]"
    using missing_invalid [OF assms(1)] assms(3) by (auto simp: violations_def filter_id_conv)
  moreover have "length (column d (qr_field r)) = length (qd_rows d)" by (simp add: column_def)
  ultimately show ?thesis
    using assms by (auto simp: evaluate_rule_facts evaluate_rule_def Let_def filter_empty_conv findings_of_violations)
qed

section \<open>Repairs\<close>

text \<open>The values a list of operations writes into the field \<open>k\<close> of row \<open>n\<close>, counted from 0.\<close>

definition written :: "repair_operation list \<Rightarrow> nat \<Rightarrow> jsstr \<Rightarrow> jsval list" where
  "written ops n k =
     map op_replacement (filter (\<lambda>x. op_rowNumber x = int n + 1 \<and> op_field x = k) ops)"

lemma row_cell_set_cell:
  "k \<noteq> js ''__proto__'' \<Longrightarrow> row_cell (set_cell l v row) k = (if k = l then v else row_cell row k)"
  by (simp add: row_cell_def set_cell_def update_conv)

lemma apply_operations_spec:
  assumes "\<forall>x\<in>set ops. 1 \<le> op_rowNumber x \<and> op_rowNumber x \<le> int (length rows)"
  shows "\<exists>rows' evidence'. apply_operations E rows evidence ops = Inr (rows', evidence')
    \<and> length rows' = length rows \<and> length evidence' = length evidence + length ops
    \<and> (\<forall>n<length rows. \<forall>k. k \<noteq> js ''__proto__'' \<longrightarrow>
         row_cell (rows' ! n) k = last (row_cell (rows ! n) k # written ops n k))"
  using assms
proof (induction ops arbitrary: rows evidence)
  case Nil
  then show ?case by (simp add: written_def)
next
  case (Cons x xs)
  define m where "m = nat (op_rowNumber x - 1)"
  have m: "m < length rows" "op_rowNumber x = int m + 1" "row_at rows (op_rowNumber x) = Some (rows ! m)"
    using Cons.prems by (auto simp: m_def row_at_def)
  define rows1 where "rows1 = rows[m := set_cell (op_field x) (op_replacement x) (rows ! m)]"
  define entry where "entry = \<lparr>ev_rowNumber = op_rowNumber x, ev_field = op_field x,
    ev_beforeFingerprint = scalarFingerprint E (row_cell (rows ! m) (op_field x)),
    ev_afterFingerprint = scalarFingerprint E (op_replacement x)\<rparr>"
  have len: "length rows1 = length rows" by (simp add: rows1_def)
  obtain rows' evidence' where rest: "apply_operations E rows1 (evidence @ [entry]) xs = Inr (rows', evidence')"
    "length rows' = length rows1" "length evidence' = length (evidence @ [entry]) + length xs"
    and cells: "\<forall>n<length rows1. \<forall>k. k \<noteq> js ''__proto__'' \<longrightarrow>
      row_cell (rows' ! n) k = last (row_cell (rows1 ! n) k # written xs n k)"
    using Cons.IH [of rows1 "evidence @ [entry]"] Cons.prems len by auto
  have "apply_operations E rows evidence (x # xs) = Inr (rows', evidence')"
    using rest(1) m(3) by (simp add: result_simps rows1_def entry_def m_def)
  moreover have "row_cell (rows' ! n) k = last (row_cell (rows ! n) k # written (x # xs) n k)"
    if "n < length rows" "k \<noteq> js ''__proto__''" for n k
    using cells that len m(1,2)
    by (auto simp: written_def rows1_def nth_list_update row_cell_set_cell)
  ultimately show ?case using rest(2,3) len by auto
qed

lemma proposal_facts:
  assumes "createDataQualityRepairProposalV1 E d run ops = Inr p"
  shows "rp_sourceDatasetVersionId p = qd_datasetVersionId d" "rp_sourceDatasetId p = qd_datasetId d"
    "list_all2 (\<lambda>i x. normalize_operation E d i = Inr x) ops (rp_operations p)"
  using assms by (auto simp: createDataQualityRepairProposalV1_def result_simps Let_def map_result_accepted)

lemma normalized_operation:
  "normalize_operation E d i = Inr x \<Longrightarrow>
     1 \<le> op_rowNumber x \<and> op_rowNumber x \<le> int (length (qd_rows d)) \<and> in_op_rowNumber i = int_num (op_rowNumber x)
     \<and> in_op_field i = Str (op_field x) \<and> op_replacement x = in_op_replacement i"
  by (cases "in_op_field i")
     (auto simp: normalize_operation_def result_simps safe_integer_within_Some dest: safe_integer_bounds)

lemma padded_hex: "list_all lower_hex (filter lower_hex f)" "list_all lower_hex (replicate n 48)"
  by (auto simp: list_all_iff)

lemma derived_suffix_form: "length (derived_suffix f) = 12" "list_all lower_hex (derived_suffix f)"
  using padded_hex(1) [of f] padded_hex(2)
  by (auto simp: derived_suffix_def pad_start_def Let_def list_all_iff dest: in_set_dropD)

lemma derived_sha_form: "sha256_hex (Str (derived_sha f)) = Some (derived_sha f)"
proof -
  have "list_all lower_hex (derived_sha f)"
    using padded_hex(1) [of f] padded_hex(2) by (auto simp: derived_sha_def pad_end_def list_all_iff dest!: in_set_takeD)
  then show ?thesis by (simp add: sha256_hex_def derived_sha_def pad_end_def)
qed

lemma stable_form_derived:
  assumes "length s = 12" "list_all lower_hex s"
  shows "stable_form (js ''00000000-0000-4000-8000-'' @ s)"
proof -
  define prefix where "prefix = replicate 8 any_hex @ [is_char CHR ''-''] @ replicate 4 any_hex
     @ [is_char CHR ''-''] @ uuid_version # replicate 3 any_hex @ [is_char CHR ''-'']
     @ uuid_variant # replicate 3 any_hex @ [is_char CHR ''-'']"
  have "matches (replicate 12 any_hex) s"
    using assms by (auto simp: matches_def list_all2_conv_all_nth list_all_length any_hex_def)
  moreover have "matches prefix (js ''00000000-0000-4000-8000-'')" unfolding prefix_def by code_simp
  ultimately have "matches (prefix @ replicate 12 any_hex) (js ''00000000-0000-4000-8000-'' @ s)"
    by (rule matches_appendI [rotated])
  then have "matches nonGuessableUuidPattern (js ''00000000-0000-4000-8000-'' @ s)"
    by (simp add: prefix_def nonGuessableUuidPattern_def)
  moreover have "upper c \<Longrightarrow> \<not> lower_hex c" for c
    by (simp add: lower_hex_def digit_def in_range_def upper_def)
  then have "ascii_lower s = s"
    unfolding ascii_lower_def using assms(2) by (intro map_idI) (auto simp: list_all_iff)
  moreover have "ascii_lower (js ''00000000-0000-4000-8000-'') = js ''00000000-0000-4000-8000-''" by code_simp
  ultimately show ?thesis by (simp add: stable_form_def ascii_lower_def)
qed

lemma applied_repair:
  assumes p: "createDataQualityRepairProposalV1 E d run ops = accepted p"
  shows "\<exists>rd. applyDataQualityRepairV1 E d p = accepted rd
    \<and> qd_datasetId rd = qd_datasetId d \<and> length (qd_rows rd) = length (qd_rows d)
    \<and> (\<forall>n<length (qd_rows d). \<forall>k. k \<noteq> js ''__proto__'' \<longrightarrow>
         row_cell (qd_rows rd ! n) k
           = last (row_cell (qd_rows d ! n) k
               # map in_op_replacement (filter (\<lambda>i. in_op_rowNumber i = int_num (int n + 1) \<and> in_op_field i = Str k) ops)))
    \<and> stable_form (qd_datasetVersionId rd) \<and> sha256_hex (Str (qd_contentSha256 rd)) = Some (qd_contentSha256 rd)
    \<and> length (rd_evidence rd) = length ops"
proof -
  note facts = proposal_facts [OF p]
  have ops: "\<forall>x\<in>set (rp_operations p). 1 \<le> op_rowNumber x \<and> op_rowNumber x \<le> int (length (qd_rows d))"
    using list_all2_member [OF facts(3)] normalized_operation by blast
  have written: "written (rp_operations p) n k
      = map in_op_replacement (filter (\<lambda>i. in_op_rowNumber i = int_num (int n + 1) \<and> in_op_field i = Str k) ops)"
    for n k
    using facts(3)
  proof (induction rule: list_all2_induct)
    case (Cons i is' x xs)
    then show ?case using normalized_operation [OF Cons(1)] by (auto simp: written_def)
  qed (simp add: written_def)
  obtain rows evidence where r: "apply_operations E (qd_rows d) [] (rp_operations p) = Inr (rows, evidence)"
    "length rows = length (qd_rows d)" "length evidence = length (rp_operations p)"
    "\<forall>n<length (qd_rows d). \<forall>k. k \<noteq> js ''__proto__'' \<longrightarrow>
       row_cell (rows ! n) k = last (row_cell (qd_rows d ! n) k # written (rp_operations p) n k)"
    using apply_operations_spec [OF ops, of E "[]"] by auto
  obtain rd f where rd: "applyDataQualityRepairV1 E d p = Inr rd" "qd_datasetId rd = qd_datasetId d"
    "qd_rows rd = rows" "qd_datasetVersionId rd = js ''00000000-0000-4000-8000-'' @ derived_suffix f"
    "qd_contentSha256 rd = derived_sha f" "rd_evidence rd = evidence"
    using r(1) facts(1) by (auto simp: applyDataQualityRepairV1_def previewDataQualityRepairV1_def result_simps)
  show ?thesis
  proof (intro exI [of _ rd] conjI)
    show "\<forall>n<length (qd_rows d). \<forall>k. k \<noteq> js ''__proto__'' \<longrightarrow>
      row_cell (qd_rows rd ! n) k = last (row_cell (qd_rows d ! n) k
        # map in_op_replacement (filter (\<lambda>i. in_op_rowNumber i = int_num (int n + 1) \<and> in_op_field i = Str k) ops))"
      using r(4) unfolding written rd(3) .
    show "stable_form (qd_datasetVersionId rd)"
      unfolding rd(4) using derived_suffix_form by (rule stable_form_derived)
    show "sha256_hex (Str (qd_contentSha256 rd)) = Some (qd_contentSha256 rd)"
      unfolding rd(5) by (rule derived_sha_form)
  qed (use rd r(2,3) list_all2_lengthD [OF facts(3)] in simp_all)
qed

lemma repair_exact_applies:
  assumes "createDataQualityRepairProposalV1 E d run ops = Inr p"
  shows "\<exists>rd. applyDataQualityRepairV1 E d p = Inr rd"
  using applied_repair [OF assms] by blast


text \<open>
  A repaired table is accepted as a table again, as it is.
\<close>

theorem repaired_dataset_accepted:
  assumes documented: "uuid_format_documented E"
    and d: "createDataQualityDatasetV1 E i = accepted d"
    and p: "createDataQualityRepairProposalV1 E d run ops = accepted p"
    and rd: "applyDataQualityRepairV1 E d p = accepted rd"
  shows "createDataQualityDatasetV1 E
      \<lparr>in_qd_datasetId = Str (qd_datasetId rd), in_qd_datasetVersionId = Str (qd_datasetVersionId rd),
       in_qd_contentSha256 = Str (qd_contentSha256 rd), in_qd_rows = Arr (map Obj (qd_rows rd))\<rparr>
    = accepted \<lparr>qd_datasetId = qd_datasetId rd, qd_datasetVersionId = qd_datasetVersionId rd,
       qd_contentSha256 = qd_contentSha256 rd, qd_rows = qd_rows rd\<rparr>"
proof -
  have forms: "stable_form (qd_datasetVersionId rd)" "sha256_hex (Str (qd_contentSha256 rd)) = Some (qd_contentSha256 rd)"
    "qd_datasetId rd = qd_datasetId d" "length (qd_rows rd) = length (qd_rows d)"
    using applied_repair [OF p] rd by auto
  have "stable_form (qd_datasetId d)" "length (qd_rows d) \<le> 1000000"
    using d by (auto simp: createDataQualityDatasetV1_def result_simps dest: identifierFrom_form length_parse_all)
  moreover have "parse_all row_of (map Obj rows) = Some rows" for rows by (induction rows) simp_all
  ultimately show ?thesis
    using forms documented by (simp add: createDataQualityDatasetV1_def result_simps identifierFrom_Str)
qed

section \<open>The hash has 32 bits\<close>

lemma fnv_steps:
  "fnv_step 2166136261 52 = 822911587" "fnv_step 822911587 48 = 2313390249"
  "fnv_step 2313390249 49 = 2838497096" "fnv_step 2838497096 56 = 3332093264"
  "fnv_step 3332093264 57 = 270439499" "fnv_step 2166136261 55 = 839689206"
  "fnv_step 839689206 57 = 2565201629" "fnv_step 2565201629 55 = 2615011934"
  "fnv_step 2615011934 49 = 3445099709" "fnv_step 3445099709 56 = 3332093279"
  "fnv_step 3332093279 54 = 270439499"
  by (simp_all add: fnv_step_def)

text \<open>Two amounts with the same fingerprint.\<close>

theorem amounts_collide: "scalarFingerprint E (int_num 40189) = scalarFingerprint E (int_num 797186)"
proof -
  have texts: "show_int 40189 = [52, 48, 49, 56, 57]" "show_int 797186 = [55, 57, 55, 49, 56, 54]"
    by (simp_all add: show_int_def show_nat.simps)
  have "JSON_text E (int_num 40189) = Some (show_int 40189)" "JSON_text E (int_num 797186) = Some (show_int 797186)"
    by (simp_all add: max_safe_integer_def)
  then show ?thesis by (simp add: scalarFingerprint_def text_fingerprint_def fnv_hash_def texts fnv_steps)
qed

section \<open>Samples\<close>

definition sample_rows :: "quality_row list" where
  "sample_rows = [[(js ''x'', int_num 1)], [(js ''x'', Null)], [(js ''x'', int_num 1)]]"

definition sample_dataset :: quality_dataset where
  "sample_dataset =
     \<lparr>qd_datasetId = uuid_of CHR ''a'', qd_datasetVersionId = uuid_of CHR ''b'',
      qd_contentSha256 = hash_of CHR ''c'', qd_rows = sample_rows\<rparr>"

definition sample_dataset_input :: dataset_input where
  "sample_dataset_input =
     \<lparr>in_qd_datasetId = sample_id CHR ''a'', in_qd_datasetVersionId = sample_id CHR ''b'',
      in_qd_contentSha256 = sample_hash CHR ''c'', in_qd_rows = Arr (map Obj sample_rows)\<rparr>"

lemma sample_dataset_created: "createDataQualityDatasetV1 sample_env sample_dataset_input = Inr sample_dataset"
  by (simp add: createDataQualityDatasetV1_def sample_dataset_input_def sample_dataset_def sample_rows_def
      result_simps)

definition sample_rule :: "char \<Rightarrow> string \<Rightarrow> jsval" where
  "sample_rule c kind =
     Obj [(js ''ruleId'', sample_id c), (js ''field'', Str (js ''x'')), (js ''kind'', Str (js kind)),
          (js ''allowNull'', Bool True), (js ''min'', int_num 0)]"

definition sample_quality_rule :: "char \<Rightarrow> quality_kind \<Rightarrow> quality_rule" where
  "sample_quality_rule c kind =
     \<lparr>qr_ruleId = uuid_of c, qr_kind = kind, qr_field = js ''x'', qr_severity = Severity_ERROR,
      qr_min = int_num 0, qr_max = Undefined, qr_values = None, qr_expectedType = Undefined,
      qr_allowNull = True\<rparr>"

lemma sample_field_name: "guard_text sample_env (Str (js ''x'')) 128 = Some (js ''x'')"
  "guard_text sample_env (Str (js ''x'')) 96 = Some (js ''x'')"
  by (simp_all add: guard_text_def control_def in_range_def trim_def whitespace_def sample_env_def js_Cons)

lemma sample_rules_normalized:
  "letter c \<Longrightarrow> normalizeRule sample_env (sample_rule c ''unique'') = Inr (sample_quality_rule c Kind_unique)"
  "letter c \<Longrightarrow> normalizeRule sample_env (sample_rule c ''range'') = Inr (sample_quality_rule c Kind_range)"
  by (simp_all add: normalizeRule_def sample_rule_def sample_quality_rule_def result_simps sample_field_name
      quality_kinds_def quality_severities_def nullish_def range_ok_def bound_ok_def)

definition sample_contract :: contract_input where
  "sample_contract =
     \<lparr>in_qc_contractId = sample_id CHR ''d'', in_qc_contractVersion = int_num 1,
      in_qc_contractSha256 = sample_hash CHR ''e'',
      in_qc_rules = Arr [sample_rule CHR ''a'' ''unique'', sample_rule CHR ''b'' ''range'']\<rparr>"

lemma sample_quality_run: "\<exists>run. evaluateDataQualityContractV1 sample_env sample_dataset sample_contract = Inr run
   \<and> run_datasetVersionId run = uuid_of CHR ''b''"
  by (simp add: evaluateDataQualityContractV1_def sample_contract_def result_simps sample_rules_normalized
      max_safe_integer_def sample_quality_rule_def dedup_def sample_dataset_def Let_def)

theorem quality_run_exact_witness:
  "\<exists>run. evaluateDataQualityContractV1 sample_env sample_dataset sample_contract = accepted run
     \<and> rs_totalRules (run_summary run) = 2"
proof -
  obtain run where run: "evaluateDataQualityContractV1 sample_env sample_dataset sample_contract = Inr run"
    using sample_quality_run by blast
  then show ?thesis using quality_run_exact [OF run] by (auto simp: sample_contract_def)
qed

theorem nullable_rule_fails_on_nulls_witness:
  "rr_state (evaluate_rule sample_env (sample_dataset\<lparr>qd_rows := [[(js ''x'', Null)]]\<rparr>)
      (sample_quality_rule CHR ''a'' Kind_range)) = Quality_FAIL"
  using nullable_rule_fails_on_nulls [of "sample_quality_rule CHR ''a'' Kind_range"
      "sample_dataset\<lparr>qd_rows := [[(js ''x'', Null)]]\<rparr>" sample_env]
  by (simp add: sample_quality_rule_def column_def row_cell_def missing_def)

definition sample_operation :: "int \<Rightarrow> int \<Rightarrow> repair_input" where
  "sample_operation n v =
     \<lparr>in_op_rowNumber = int_num n, in_op_field = Str (js ''x''), in_op_replacement = int_num v,
      in_op_reasonCode = Str (js ''x'')\<rparr>"

lemma sample_proposal:
  assumes "run_datasetVersionId run = uuid_of CHR ''b''"
  shows "\<exists>p. createDataQualityRepairProposalV1 sample_env sample_dataset run
    [sample_operation 2 5, sample_operation 2 7] = Inr p"
  using assms
  by (simp add: createDataQualityRepairProposalV1_def normalize_operation_def sample_operation_def
      sample_dataset_def sample_rows_def result_simps sample_field_name safe_integer_within_def max_safe_integer_def Let_def)


theorem repaired_dataset_accepted_witness:
  "\<exists>run p rd d. createDataQualityRepairProposalV1 sample_env sample_dataset run [sample_operation 2 5, sample_operation 2 7]
       = accepted p
     \<and> applyDataQualityRepairV1 sample_env sample_dataset p = accepted rd
     \<and> createDataQualityDatasetV1 sample_env
         \<lparr>in_qd_datasetId = Str (qd_datasetId rd), in_qd_datasetVersionId = Str (qd_datasetVersionId rd),
          in_qd_contentSha256 = Str (qd_contentSha256 rd), in_qd_rows = Arr (map Obj (qd_rows rd))\<rparr> = accepted d"
proof -
  obtain run :: quality_run where "run_datasetVersionId run = uuid_of CHR ''b''" using sample_quality_run by blast
  then obtain p where p: "createDataQualityRepairProposalV1 sample_env sample_dataset run
      [sample_operation 2 5, sample_operation 2 7] = Inr p"
    using sample_proposal by blast
  obtain rd where rd: "applyDataQualityRepairV1 sample_env sample_dataset p = Inr rd"
    using repair_exact_applies [OF p] by blast
  show ?thesis
    using repaired_dataset_accepted [OF sample_uuid_documented sample_dataset_created p rd] p rd by blast
qed

end
