(* ===== verification/Spec2Isabelle.thy ===== *)
theory Spec2Isabelle
  imports Authorization Jobs ExecutionAttempt ApprovalAuthority Sessions Bearers Mfa Entitlements AuditChain Upload Refresh DeviceSync WebSecurity Tabular SyncFeed ExecutionRoute Artifacts QualityGuard
begin

text \<open>
  The tenant-safe core of the platform, modelled from its TypeScript sources: the domain packages
  (src/packages/domain/src/<module>/v1.ts), the application services and in-memory repositories of the API
  that run them (src/services/api/src/features), and the reader of delimited files of the web application.

  \<^bold>\<open>The program and its parts.\<close>
  The domain modules are pure: a constructor or a transition takes a record and untrusted input and answers
  \<open>{ accepted: true, value }\<close> or \<open>{ accepted: false, code }\<close>. Everything is scoped to a tenant
  (an organization, a workspace in it, a project in that) and revisioned: an update names the revision it has
  read. The services load records from a repository, call the domain, ask authorities (ports) for what is
  current, and store the result in a transaction. The authorization evaluator stands before them; approvals,
  entitlements and the audit chain stand beside them; devices receive changes through the synchronization
  feed; execution routes bind an action to a place under the data mode policy of the workspace.

  \<^bold>\<open>Theories and sources\<close> (src/packages/domain/src unless a path is given; definitions carry the names
  of the functions and types they model):
  \<^item> Prelude: results as sums (\<open>accepted\<close>, \<open>rejected\<close>), the early returns as \<open>require\<close>, \<open>reject_if\<close>,
    \<open>and_then\<close>, the simplification rules \<open>result_simps\<close>, integers rounded to doubles (\<open>js_add\<close>, \<open>js_succ\<close>);
    JsValue: values of type \<open>unknown\<close>, the parameters \<open>env\<close>; IsoDate: \<open>Date.parse\<close> and \<open>toISOString\<close>;
    Doubles: the nearest double of a rational; Json: \<open>JSON.stringify\<close> and \<open>JSON.parse\<close>; Fingerprint: the JSON
    text of any value and the 32-bit hash made of it; Samples: inputs of the witnesses; Machine: the interfaces
    below.
  \<^item> TenantScope: tenant-scope. Permissions: permissions. Authorization: authorization (\<open>authorizeV1\<close>).
  \<^item> Jobs: jobs. ExecutionAttempt: execution-attempt. Upload: artifact-upload. Artifacts: artifact,
    artifact-governance, artifact-retention, evidence-grant. QualityGuard: data-quality-guard.
  \<^item> Approval: approval. ApprovalService, ApprovalAuthority: features/jra/application/approval.service.ts with
    adapter/in-memory-approval-repository.adapter.ts.
  \<^item> Identity, Sessions: identity. Bearers: invitation, recovery. Mfa: mfa. WebSecurity: csrf, pkce.
  \<^item> Entitlements: entitlements. AuditChain: audit.
  \<^item> TenantContext: platform/iam-tenant-context.ts and the transactions of the repositories. DataMode: data-mode
    with data-mode-policy.service.ts of features/dso. DeviceAuthority: device-authorization with
    device-authorization.service.ts. DeviceSync: device-sync. SyncService, SyncFeed: device-sync.service.ts.
    ExecutionRoute: execution-route-decision.ts and execution-route.service.ts. Each of these services is
    modelled with its in-memory repository adapter.
  \<^item> Dashboards: data-to-dashboard. Refresh: features/dda/refresh, the in-memory coordinator and the orchestrator.
  \<^item> Csv, Tabular: src/apps/web/src/features/data/csv-parser.ts.

  \<^bold>\<open>State and operations.\<close>
  A record of the sources is a \<open>record\<close> with its fields in order, a union a \<open>datatype\<close>, a table a list or a
  function; untyped input is a \<open>jsval\<close>, an input object a record whose fields begin with \<open>in_\<close>. An operation is
  one definition with the guards in the order of the code, a loop a recursive function with what it has seen so
  far. A repository is a record of association lists in insertion order, one transaction a function from the state
  to a thrown error or a result and the new state; histories are inductive step relations with one rule for each
  operation, and \<open>reachable\<close> means their closure.

  \<^bold>\<open>Interfaces.\<close>
  Machine states what the clients of a record rely on: \<open>revisioned\<close> (statuses move along a table and every change
  increments the revision, so a revision identifies the record and final statuses stay), \<open>framed\<close> (the identifying
  fields stay), \<open>guarded\<close> (an invariant that constructors establish), \<open>single_use\<close> (one accepted use ends a
  bearer), \<open>immutable_store\<close> (entries are only added). Json has \<open>signed_payload\<close> (a signature over an injective
  text authenticates the fields), ApprovalService \<open>decision_store\<close> (what counting votes needs of a store). They
  are interpreted on the modelled records: jobs, attempts, uploads, devices, placements; invitations, recovery
  and enrollment challenges, reservations; policy versions and route decisions; attestations, cursors, leases;
  the approval repository.

  \<^bold>\<open>What is shown.\<close>
  \<^item> Authorization: an evaluation allows only what permission, channel, resource, membership, role and policy
    allow, about the selected resource in the request's scope, and denies when a provider fails.
  \<^item> Approvals: an approved request has a quorum of distinct permitted approvers of its scope, the authority answers
    only with such a request, a material change revokes for good; and the histories in which this fails.
  \<^item> Machines: jobs, attempts (a lease is used or expired, never both), uploads (in every order of delivery),
    refresh tokens used once, deletion only when nothing holds the artifact.
  \<^item> Ledgers: usage stays within quota, the audit ledger implements an append-only list of facts for each tenant,
    seals and leases are authentic under unforgeable signatures.
  \<^item> Synchronization: a device receives exactly the operations it is entitled to, once and in order, catching up
    ends, a revoked grant stops it.
  \<^item> Data placement: policies only narrow along a chain, a route is authorized only while its decision is current,
    and Local content stays on the device with everything derived from it.
  \<^item> Data: delimited text round trip, conversion and accounting of an import; quality runs and repairs against
    statements about columns and cells; spreadsheet addresses against the bijective base 26; dashboard versions
    that refer to their own pages, snapshots that are stored and read unchanged.
  \<^item> Behaviour that the sources hardly mean (a replayed approval, a retried job that cannot finish, a refresh that
    runs again, an operation that blocks a feed, a leap second without an end, nulls that a nullable rule counts,
    snapshots for different audiences with one hash)
    is stated as theorems too.

  \<^bold>\<open>Parameters and hypotheses.\<close>
  Code that is not in the repository is an argument: the fields of \<open>env\<close> (string formats of the schema
  validators, Unicode normalisation and case, collation, non-ISO dates, printing of fractions), signers and
  verifiers, digests, password and token matchers, the authorities behind ports, the decoder of bytes. Hypotheses
  on them say what is documented: that the format \<open>uuid\<close> accepts the identifiers of the platform's own pattern,
  that signatures are not forged, that a digest is free of collisions on the texts compared. Each is met in a
  witness.

  \<^bold>\<open>Bounds and fuel.\<close>
  Numbers are exact up to \<open>2 ^ 53\<close> and rounded beyond; 32-bit arithmetic (\<open>csrf\<close>, \<open>fnv_hash\<close>) is on
  words. Only \<open>JSON_parse\<close> takes fuel, twice the length of the text, which its round trip shows to be enough. The
  scanner of delimited text, the provider calls and the pages of the feed recurse on measures that decrease.

  \<^bold>\<open>Not modelled.\<close>
  Negative zero, inherited properties of \<open>Object.prototype\<close>, getters and proxies; freezing and cloning (values are
  immutable here); the promise queues in front of the in-memory repositories (a transaction is one step; where the
  code awaits between two transactions the interleaving is explicit). Of the rest of the repository: the HTTP
  controllers, Prisma adapters and workers, which are glue to a database and a framework outside the repository; the
  user interfaces, generated contracts and clients, infrastructure and scripts; the product modules, which are
  records over the primitives modelled here; the manifest lists each part with its reason.
\<close>

end
